(* ===== verification/Mach_Prelude.thy ===== *)
theory Mach_Prelude
  imports Main "HOL-Library.Word"
begin

text \<open>
  The vocabulary the Mach IPC theories share: port names and their layout
  (\<^verbatim>\<open>src/kernel/mach/port.h\<close>, \<^verbatim>\<open>src/kernel/ipc/port.h\<close>), the return codes, the
  collections of simplification rules the components extend, and generic facts on words,
  sorted association lists and list updates.

  A name is a 32 bit word.  Array subscripts and element counts are natural numbers: the
  macros that take a name apart return a number, and the macro that makes a name truncates
  to 32 bits, as the shifts of the C macros do.
\<close>

unbundle bit_operations_syntax

named_theorems entry_simps \<open>reading and updating capability entries\<close>

type_synonym mach_port_t = "32 word"
type_synonym mach_port_gen_t = "32 word"
type_synonym ipc_entry_bits_t = "32 word"

section \<open>Port names\<close>

definition MACH_PORT_NULL :: mach_port_t where
  "MACH_PORT_NULL = 0"

definition MACH_PORT_DEAD :: mach_port_t where
  "MACH_PORT_DEAD = NOT 0"

definition MACH_PORT_VALID :: "mach_port_t \<Rightarrow> bool" where
  "MACH_PORT_VALID name \<longleftrightarrow> name \<noteq> MACH_PORT_NULL \<and> name \<noteq> MACH_PORT_DEAD"

definition MACH_PORT_INDEX :: "mach_port_t \<Rightarrow> nat" where
  "MACH_PORT_INDEX name = unat (drop_bit 8 name)"

definition MACH_PORT_GEN :: "mach_port_t \<Rightarrow> mach_port_gen_t" where
  "MACH_PORT_GEN name = push_bit 24 (name AND 0xff)"

definition MACH_PORT_MAKE :: "nat \<Rightarrow> mach_port_gen_t \<Rightarrow> mach_port_t" where
  "MACH_PORT_MAKE index gen = (push_bit 8 (word_of_nat index) OR drop_bit 24 gen)"

datatype kern_return_t =
    KERN_SUCCESS
  | KERN_NO_SPACE
  | KERN_RESOURCE_SHORTAGE
  | KERN_INVALID_ARGUMENT
  | KERN_INVALID_NAME
  | KERN_INVALID_TASK
  | KERN_INVALID_RIGHT
  | KERN_INVALID_VALUE
  | KERN_UREFS_OVERFLOW
  | KERN_NAME_EXISTS
  | KERN_RIGHT_EXISTS
  | KERN_INVALID_CAPABILITY
  | KERN_NOT_IN_SET
  | KERN_NOT_RECEIVER
  | KERN_FAILURE

lemma byte_mask: "(0xff :: 32 word) = mask 8"
  by (simp add: mask_eq_exp_minus_1)

lemma MACH_PORT_INDEX_div: "MACH_PORT_INDEX name = unat name div 256"
  unfolding MACH_PORT_INDEX_def unat_drop_bit_eq by (simp add: drop_bit_eq_div)

lemma MACH_PORT_INDEX_bound: "MACH_PORT_INDEX name < 2 ^ 24"
proof -
  have "unat name < 2 ^ 32" using unsigned_less [of name] by simp
  then show ?thesis by (simp add: MACH_PORT_INDEX_div less_mult_imp_div_less)
qed

lemma MACH_PORT_MAKE_INDEX_GEN:
  "MACH_PORT_MAKE (MACH_PORT_INDEX name) (MACH_PORT_GEN name) = name"
  unfolding MACH_PORT_MAKE_def MACH_PORT_INDEX_def MACH_PORT_GEN_def byte_mask
  by (rule bit_word_eqI) (auto simp: bit_simps, metis le_add_diff_inverse not_less)

lemma MACH_PORT_MAKE_0: "MACH_PORT_MAKE i 0 = word_of_nat (i * 256)"
  by (simp add: MACH_PORT_MAKE_def push_bit_eq_mult)

lemma unat_MACH_PORT_MAKE_0: "i < 2 ^ 24 \<Longrightarrow> unat (MACH_PORT_MAKE i 0) = i * 256"
  unfolding MACH_PORT_MAKE_0 unat_of_nat by simp

lemma name_less_MAKE_iff:
  assumes "i < 2 ^ 24"
  shows "name < MACH_PORT_MAKE i 0 \<longleftrightarrow> MACH_PORT_INDEX name < i"
  using assms by (simp add: word_less_nat_alt unat_MACH_PORT_MAKE_0 MACH_PORT_INDEX_div
      div_less_iff_less_mult)

lemma MACH_PORT_INDEX_mono: "a \<le> b \<Longrightarrow> MACH_PORT_INDEX a \<le> MACH_PORT_INDEX b"
  by (simp add: MACH_PORT_INDEX_div word_le_nat_alt div_le_mono)

lemma name_eqI:
  "MACH_PORT_INDEX a = MACH_PORT_INDEX b \<Longrightarrow> MACH_PORT_GEN a = MACH_PORT_GEN b \<Longrightarrow> a = b"
  by (metis MACH_PORT_MAKE_INDEX_GEN)

lemma MACH_PORT_GEN_mask: "MACH_PORT_GEN name AND 0xff000000 = MACH_PORT_GEN name"
proof -
  have eq: "(0xff000000 :: 32 word) = push_bit 24 (mask 8)"
    by (simp add: mask_eq_exp_minus_1 push_bit_eq_mult)
  show ?thesis
    unfolding MACH_PORT_GEN_def eq byte_mask by (rule bit_word_eqI) (auto simp: bit_simps)
qed

lemma MACH_PORT_INDEX_MAKE: "i < 2 ^ 24 \<Longrightarrow> MACH_PORT_INDEX (MACH_PORT_MAKE i g) = i"
proof -
  assume i: "i < 2 ^ 24"
  then have "take_bit 24 i = i"
    by (simp add: take_bit_nat_eq_self)
  then have low: "bit i n \<Longrightarrow> n < 24" for n
    by (metis bit_take_bit_iff)
  have "drop_bit 8 (MACH_PORT_MAKE i g) = (word_of_nat i :: 32 word)"
    unfolding MACH_PORT_MAKE_def
    by (rule bit_word_eqI) (auto simp: bit_simps dest: low bit_imp_le_length)
  then show ?thesis
    using i by (simp add: MACH_PORT_INDEX_def unat_of_nat)
qed

lemma MACH_PORT_GEN_MAKE: "MACH_PORT_GEN (MACH_PORT_MAKE i g) = g AND 0xff000000"
proof -
  have eq: "(0xff000000 :: 32 word) = push_bit 24 (mask 8)"
    by (simp add: mask_eq_exp_minus_1 push_bit_eq_mult)
  show ?thesis
    unfolding MACH_PORT_GEN_def MACH_PORT_MAKE_def eq byte_mask
    by (rule bit_word_eqI) (auto simp: bit_simps)
qed

section \<open>Ascending association lists\<close>

definition ascending :: "('k::linorder \<times> 'v) list \<Rightarrow> bool" where
  "ascending xs \<longleftrightarrow> sorted_wrt (<) (map fst xs)"

definition below :: "'k::linorder \<Rightarrow> ('k \<times> 'v) list \<Rightarrow> bool" where
  "below k xs \<longleftrightarrow> (\<forall>x \<in> set xs. fst x < k)"

definition above :: "'k::linorder \<Rightarrow> ('k \<times> 'v) list \<Rightarrow> bool" where
  "above k xs \<longleftrightarrow> (\<forall>x \<in> set xs. k < fst x)"

lemma below_simps [simp]:
  "below k []" "below k (x # xs) \<longleftrightarrow> fst x < k \<and> below k xs"
  "below k (xs @ ys) \<longleftrightarrow> below k xs \<and> below k ys"
  by (auto simp: below_def)

lemma above_simps [simp]:
  "above k []" "above k (x # xs) \<longleftrightarrow> k < fst x \<and> above k xs"
  "above k (xs @ ys) \<longleftrightarrow> above k xs \<and> above k ys"
  by (auto simp: above_def)

lemma below_mono: "below k xs \<Longrightarrow> k \<le> j \<Longrightarrow> below j xs"
  by (auto simp: below_def)

lemma above_mono: "above k xs \<Longrightarrow> j \<le> k \<Longrightarrow> above j xs"
  by (auto simp: above_def)

lemma ascending_Nil [simp]: "ascending []"
  by (simp add: ascending_def)

lemma ascending_Cons [simp]: "ascending (x # xs) \<longleftrightarrow> above (fst x) xs \<and> ascending xs"
  by (auto simp: ascending_def above_def)

lemma ascending_mid [simp]:
  "ascending (xs @ x # ys) \<longleftrightarrow>
   ascending xs \<and> ascending ys \<and> below (fst x) xs \<and> above (fst x) ys"
  by (fastforce simp: ascending_def sorted_wrt_append below_def above_def)

lemma ascending_mid2 [simp]:
  "ascending (xs @ ys @ x # zs) \<longleftrightarrow>
   ascending (xs @ ys) \<and> ascending zs \<and> below (fst x) (xs @ ys) \<and> above (fst x) zs"
  using ascending_mid [of "xs @ ys" x zs] by simp

lemma ascending_appendD: "ascending (xs @ ys) \<Longrightarrow> ascending xs \<and> ascending ys"
  by (simp add: ascending_def sorted_wrt_append)

lemma ascending_appendI:
  "ascending xs \<Longrightarrow> ascending ys \<Longrightarrow> below k xs \<Longrightarrow> above k ys \<Longrightarrow> ascending (xs @ ys)"
  by (fastforce simp: ascending_def sorted_wrt_append below_def above_def)

lemma ascending_distinct: "ascending xs \<Longrightarrow> distinct (map fst xs)"
  by (simp add: ascending_def strict_sorted_iff)

lemma ascending_filter: "ascending xs \<Longrightarrow> ascending (filter P xs)"
  by (simp add: ascending_def sorted_wrt_map sorted_wrt_filter)

lemma map_of_below: "below k xs \<Longrightarrow> map_of xs k = None"
  by (auto simp: below_def map_of_eq_None_iff)

lemma map_of_above: "above k xs \<Longrightarrow> map_of xs k = None"
  by (auto simp: above_def map_of_eq_None_iff)

lemma filter_below [simp]:
  "below k xs \<Longrightarrow> filter (\<lambda>x. fst x < k) xs = xs"
  "below k xs \<Longrightarrow> filter (\<lambda>x. k \<le> fst x) xs = []"
  "below k xs \<Longrightarrow> filter (\<lambda>x. k < fst x) xs = []"
  "below k xs \<Longrightarrow> filter (\<lambda>x. fst x \<le> k) xs = xs"
  "below k xs \<Longrightarrow> filter (\<lambda>x. fst x \<noteq> k) xs = xs"
  by (auto simp: below_def filter_id_conv filter_empty_conv less_imp_le)

lemma filter_above [simp]:
  "above k xs \<Longrightarrow> filter (\<lambda>x. fst x < k) xs = []"
  "above k xs \<Longrightarrow> filter (\<lambda>x. k \<le> fst x) xs = xs"
  "above k xs \<Longrightarrow> filter (\<lambda>x. k < fst x) xs = xs"
  "above k xs \<Longrightarrow> filter (\<lambda>x. fst x \<le> k) xs = []"
  "above k xs \<Longrightarrow> filter (\<lambda>x. fst x \<noteq> k) xs = xs"
  by (auto simp: above_def filter_id_conv filter_empty_conv less_imp_le)

lemma ascending_split:
  "ascending xs \<Longrightarrow> filter (\<lambda>x. fst x < k) xs @ filter (\<lambda>x. k \<le> fst x) xs = xs"
proof (induction xs)
  case (Cons x xs)
  show ?case
  proof (cases "fst x < k")
    case False
    with Cons.prems have "above k (x # xs) \<or> fst x = k \<and> above k xs"
      by (auto simp: not_less intro: above_mono)
    with False show ?thesis by auto
  qed (use Cons in auto)
qed simp

lemma ascending_cut:
  assumes "ascending xs" and "map_of xs k = None"
  shows "filter (\<lambda>x. fst x < k) xs @ filter (\<lambda>x. k < fst x) xs = xs"
proof -
  have "filter (\<lambda>x. k < fst x) xs = filter (\<lambda>x. k \<le> fst x) xs"
    using assms(2) by (auto simp: map_of_eq_None_iff order_less_le intro!: filter_cong)
  with ascending_split [OF assms(1)] show ?thesis by simp
qed

lemma map_of_filter_neq:
  "map_of (filter (\<lambda>x. fst x \<noteq> k) xs) m = (if m = k then None else map_of xs m)"
  by (induction xs) auto

end
