(* ===== verification/Ipc_Splay.thy ===== *)
theory Ipc_Splay
  imports Mach_Prelude
begin

text \<open>
  The splay tree of \<^verbatim>\<open>src/kernel/ipc/ipc_splay.c\<close>, which holds the capabilities of a space
  whose names do not fit its table.

  A tree entry is a node of a binary tree; its payload (\<^verbatim>\<open>ite_entry\<close>) is a type parameter,
  because the file only looks at names and child pointers.  The unassembled form the C code
  keeps, a middle tree and a left and a right tree with a pointer to the one field that is
  not filled in yet, is modelled by the middle tree and two spines: the left tree is the list
  of the entries on its right edge, each with its left subtree, the entry whose
  \<^verbatim>\<open>rchild\<close> field the pointer \<^verbatim>\<open>ist_ltreep\<close> addresses first; the right tree is the mirror
  image.  The empty spine is the case in which the pointer addresses \<^verbatim>\<open>ist_ltree\<close> itself, and
  storing through the pointer is \<open>fill_left\<close> and \<open>fill_right\<close>.

  During a traversal the C code reuses the fields \<^verbatim>\<open>ist_ltree\<close> and \<^verbatim>\<open>ist_rtree\<close> for the
  current entry and its parent, and reverses child pointers on the way down.  The model has
  two fields of their own for them, and a chain of frames that says which child pointer of
  each ancestor is reversed.  The C code decides that by comparing names; where the
  comparison does not agree with the frame, the code would take a parent pointer for a child
  pointer, and the model's traversal has no result.
\<close>

section \<open>Data\<close>

datatype 'e ipc_tree =
    ITE_NULL
  | ITE (ite_lchild: "'e ipc_tree") (ite_name: mach_port_t) (ite_entry: 'e)
      (ite_rchild: "'e ipc_tree")

type_synonym 'e lspine = "('e ipc_tree \<times> mach_port_t \<times> 'e) list"
type_synonym 'e rspine = "(mach_port_t \<times> 'e \<times> 'e ipc_tree) list"

datatype 'e ist_frame =
    LINV mach_port_t 'e "'e ipc_tree"
  | RINV "'e ipc_tree" mach_port_t 'e

record 'e ipc_splay_tree =
  ist_name :: mach_port_t
  ist_root :: "'e ipc_tree"
  ist_ltree :: "'e lspine"
  ist_rtree :: "'e rspine"
  ist_current :: "'e ipc_tree"
  ist_parent :: "'e ist_frame list"

definition MACH_PORT_SMALLEST :: mach_port_t where
  "MACH_PORT_SMALLEST = 0"

definition MACH_PORT_LARGEST :: mach_port_t where
  "MACH_PORT_LARGEST = NOT 0"

fun fill_left :: "'e lspine \<Rightarrow> 'e ipc_tree \<Rightarrow> 'e ipc_tree" where
  "fill_left [] t = t"
| "fill_left ((l, n, e) # fs) t = fill_left fs (ITE l n e t)"

fun fill_right :: "'e rspine \<Rightarrow> 'e ipc_tree \<Rightarrow> 'e ipc_tree" where
  "fill_right [] t = t"
| "fill_right ((n, e, r) # fs) t = fill_right fs (ITE t n e r)"

section \<open>Operations\<close>

text \<open>
  The loop of \<^verbatim>\<open>ipc_splay_prim_lookup\<close>.  Each case names the macros it expands:
  \<^verbatim>\<open>link_left\<close> pushes the root and its left subtree on the left spine and goes on with the
  right child, \<^verbatim>\<open>link_right\<close> is its mirror image, the rotations are written out.
\<close>

fun ipc_splay_prim_lookup ::
    "mach_port_t \<Rightarrow> 'e ipc_tree \<Rightarrow> 'e lspine \<Rightarrow> 'e rspine \<Rightarrow> 'e ipc_tree \<times> 'e lspine \<times> 'e rspine"
where
  "ipc_splay_prim_lookup name ITE_NULL lt rt = (ITE_NULL, lt, rt)"
| "ipc_splay_prim_lookup name (ITE l n e r) lt rt =
    (if name = n then (ITE l n e r, lt, rt)
     else if name < n then
       \<comment> \<open>descend to left\<close>
       (case l of
          ITE_NULL \<Rightarrow> (ITE l n e r, lt, rt)
        | ITE ll ln le lr \<Rightarrow>
            if name < ln \<and> ll \<noteq> ITE_NULL
            then \<comment> \<open>rotate_right; link_right\<close>
              ipc_splay_prim_lookup name ll lt ((ln, le, ITE lr n e r) # rt)
            else if name > ln \<and> lr \<noteq> ITE_NULL
            then \<comment> \<open>link_right; link_left\<close>
              ipc_splay_prim_lookup name lr ((ll, ln, le) # lt) ((n, e, r) # rt)
            else \<comment> \<open>link_right\<close>
              ipc_splay_prim_lookup name l lt ((n, e, r) # rt))
     else
       \<comment> \<open>descend to right\<close>
       (case r of
          ITE_NULL \<Rightarrow> (ITE l n e r, lt, rt)
        | ITE rl rn re rr \<Rightarrow>
            if name > rn \<and> rr \<noteq> ITE_NULL
            then \<comment> \<open>rotate_left; link_left\<close>
              ipc_splay_prim_lookup name rr ((ITE l n e rl, rn, re) # lt) rt
            else if name < rn \<and> rl \<noteq> ITE_NULL
            then \<comment> \<open>link_left; link_right\<close>
              ipc_splay_prim_lookup name rl ((l, n, e) # lt) ((rn, re, rr) # rt)
            else \<comment> \<open>link_left\<close>
              ipc_splay_prim_lookup name r ((l, n, e) # lt) rt))"

fun ipc_splay_prim_assemble ::
    "'e ipc_tree \<Rightarrow> 'e lspine \<Rightarrow> 'e rspine \<Rightarrow> 'e ipc_tree" where
  "ipc_splay_prim_assemble ITE_NULL lt rt = ITE_NULL"
| "ipc_splay_prim_assemble (ITE l n e r) lt rt = ITE (fill_left lt l) n e (fill_right rt r)"

definition ipc_splay_tree_init :: "'e ipc_splay_tree \<Rightarrow> 'e ipc_splay_tree" where
  "ipc_splay_tree_init splay = splay\<lparr>ist_root := ITE_NULL\<rparr>"

definition ipc_splay_tree_pick :: "'e ipc_splay_tree \<Rightarrow> (mach_port_t \<times> 'e) option" where
  "ipc_splay_tree_pick splay =
    (case ist_root splay of ITE_NULL \<Rightarrow> None | ITE l n e r \<Rightarrow> Some (n, e))"

text \<open>
  The prologue that lookup, insert, delete, split and bounds share: unless the last lookup
  was for the same name, the tree is assembled and splayed again.
\<close>

definition ipc_splay_find ::
    "'e ipc_splay_tree \<Rightarrow> mach_port_t \<Rightarrow> 'e ipc_tree \<times> 'e lspine \<times> 'e rspine" where
  "ipc_splay_find splay name =
    (if ist_name splay \<noteq> name
     then ipc_splay_prim_lookup name
            (ipc_splay_prim_assemble (ist_root splay) (ist_ltree splay) (ist_rtree splay)) [] []
     else (ist_root splay, ist_ltree splay, ist_rtree splay))"

text \<open>
  The epilogue that leaves an assembled tree: the root is stored and, unless it is null, the
  name and the two pointers are reset.
\<close>

definition ist_reset :: "'e ipc_splay_tree \<Rightarrow> 'e ipc_tree \<Rightarrow> 'e ipc_splay_tree" where
  "ist_reset splay root =
    (if root = ITE_NULL then splay\<lparr>ist_root := ITE_NULL\<rparr>
     else splay\<lparr>ist_root := root, ist_name := ite_name root, ist_ltree := [], ist_rtree := []\<rparr>)"

definition ipc_splay_tree_lookup ::
    "'e ipc_splay_tree \<Rightarrow> mach_port_t \<Rightarrow> 'e option \<times> 'e ipc_splay_tree" where
  "ipc_splay_tree_lookup splay name =
    (if ist_root splay = ITE_NULL then (None, splay)
     else
       let (root, lt, rt) = ipc_splay_find splay name;
           splay' = splay\<lparr>ist_name := name, ist_root := root, ist_ltree := lt, ist_rtree := rt\<rparr>
       in (if name \<noteq> ite_name root then None else Some (ite_entry root), splay'))"

definition ipc_splay_tree_insert ::
    "'e ipc_splay_tree \<Rightarrow> mach_port_t \<Rightarrow> 'e \<Rightarrow> 'e ipc_splay_tree" where
  "ipc_splay_tree_insert splay name entry =
    (let root' =
       (if ist_root splay = ITE_NULL then ITE ITE_NULL name entry ITE_NULL
        else
          let (root, lt, rt) = ipc_splay_find splay name
          in if name < ite_name root
             then ITE (fill_left lt ITE_NULL) name entry (fill_right rt root)
             else ITE (fill_left lt root) name entry (fill_right rt ITE_NULL))
     in ist_reset splay root')"

definition ipc_splay_tree_delete ::
    "'e ipc_splay_tree \<Rightarrow> mach_port_t \<Rightarrow> 'e ipc_splay_tree" where
  "ipc_splay_tree_delete splay name =
    (let (root, lt, rt) = ipc_splay_find splay name;
         left = fill_left lt (ite_lchild root);
         saved = fill_right rt (ite_rchild root);
         root' =
           (if left = ITE_NULL then saved
            else if saved \<noteq> ITE_NULL then
              let (m, lt', rt') = ipc_splay_prim_lookup MACH_PORT_LARGEST left [] []
              in (case ipc_splay_prim_assemble m lt' rt' of
                    ITE_NULL \<Rightarrow> ITE_NULL
                  | ITE l n e r \<Rightarrow> ITE l n e saved)
            else left)
     in ist_reset splay root')"

text \<open>Split returns the tree with the entries from \<open>name\<close> on, and \<open>small\<close>.\<close>

definition ipc_splay_tree_split ::
    "'e ipc_splay_tree \<Rightarrow> mach_port_t \<Rightarrow> 'e ipc_splay_tree \<Rightarrow>
     'e ipc_splay_tree \<times> 'e ipc_splay_tree" where
  "ipc_splay_tree_split splay name small0 =
    (let small = ipc_splay_tree_init small0
     in if ist_root splay = ITE_NULL then (splay, small)
        else
          let (root, lt, rt) = ipc_splay_find splay name
          in if ite_name root < name then
               \<comment> \<open>root goes into small, rtree goes into splay\<close>
               let sroot = ITE (fill_left lt (ite_lchild root)) (ite_name root) (ite_entry root)
                             (ite_rchild root)
               in (ist_reset splay (fill_right rt ITE_NULL), ist_reset small sroot)
             else
               \<comment> \<open>root stays in splay, ltree goes into small\<close>
               let splay' = splay\<lparr>ist_root := ITE ITE_NULL (ite_name root) (ite_entry root)
                                                 (ite_rchild root),
                                  ist_name := name, ist_ltree := [], ist_rtree := rt\<rparr>
               in (splay', ist_reset small (fill_left lt (ite_lchild root))))"

text \<open>Join returns the joined tree and \<open>small\<close>, emptied.\<close>

definition ipc_splay_tree_join ::
    "'e ipc_splay_tree \<Rightarrow> 'e ipc_splay_tree \<Rightarrow> 'e ipc_splay_tree \<times> 'e ipc_splay_tree" where
  "ipc_splay_tree_join splay small =
    (if ist_root small = ITE_NULL then (splay, small)
     else
       let sroot = ipc_splay_prim_assemble (ist_root small) (ist_ltree small) (ist_rtree small);
           root' =
             (if ist_root splay = ITE_NULL then sroot
              else
                let (root, lt, rt) = ipc_splay_find splay MACH_PORT_SMALLEST
                in (case ipc_splay_prim_assemble root lt rt of
                      ITE_NULL \<Rightarrow> ITE_NULL
                    | ITE l n e r \<Rightarrow> ITE sroot n e r))
       in (ist_reset splay root',
           small\<lparr>ist_root := ITE_NULL\<rparr>))"

text \<open>Bounds returns the lower bound, the upper bound and the splayed tree.\<close>

definition ipc_splay_tree_bounds ::
    "'e ipc_splay_tree \<Rightarrow> mach_port_t \<Rightarrow> mach_port_t \<times> mach_port_t \<times> 'e ipc_splay_tree" where
  "ipc_splay_tree_bounds splay name =
    (if ist_root splay = ITE_NULL then (MACH_PORT_LARGEST, MACH_PORT_SMALLEST, splay)
     else
       let (root, lt, rt) = ipc_splay_find splay name;
           rname = ite_name root;
           lower = (if rname \<le> name then rname
                    else case lt of [] \<Rightarrow> MACH_PORT_LARGEST | (_, n, _) # _ \<Rightarrow> n);
           upper = (if rname \<ge> name then rname
                    else case rt of [] \<Rightarrow> MACH_PORT_SMALLEST | (n, _, _) # _ \<Rightarrow> n)
       in (lower, upper,
           splay\<lparr>ist_name := name, ist_root := root, ist_ltree := lt, ist_rtree := rt\<rparr>))"

subsection \<open>Traversal\<close>

fun frame_name :: "'e ist_frame \<Rightarrow> mach_port_t" where
  "frame_name (LINV n e r) = n"
| "frame_name (RINV l n e) = n"

datatype 'e ist_trav = Trav_done "'e ipc_tree" | Trav_at "'e ipc_tree" "'e ist_frame list"

fun traverse_left :: "'e ipc_tree \<Rightarrow> 'e ist_frame list \<Rightarrow> 'e ipc_tree \<times> 'e ist_frame list" where
  "traverse_left ITE_NULL ps = (ITE_NULL, ps)"
| "traverse_left (ITE l n e r) ps =
    (if l \<noteq> ITE_NULL then traverse_left l (LINV n e r # ps) else (ITE l n e r, ps))"

fun traverse_back :: "'e ipc_tree \<Rightarrow> 'e ist_frame list \<Rightarrow> 'e ist_trav option" where
  "traverse_back current [] = Some (Trav_done current)"
| "traverse_back current (f # ps) =
    (if ite_name current < frame_name f
     then (case f of
             LINV n e r \<Rightarrow> Some (Trav_at (ITE current n e r) ps)
           | RINV l n e \<Rightarrow> None)
     else (case f of
             LINV n e r \<Rightarrow> None
           | RINV l n e \<Rightarrow> traverse_back (ITE l n e current) ps))"

definition traverse_right :: "'e ipc_tree \<Rightarrow> 'e ist_frame list \<Rightarrow> 'e ist_trav option" where
  "traverse_right current ps =
    (case current of
       ITE_NULL \<Rightarrow> None
     | ITE l n e r \<Rightarrow>
         if r \<noteq> ITE_NULL
         then (case traverse_left r (RINV l n e # ps) of (c, ps') \<Rightarrow> Some (Trav_at c ps'))
         else traverse_back current ps)"

text \<open>Deleting the current entry and patching the tree around the hole.\<close>

definition traverse_delete :: "'e ipc_tree \<Rightarrow> 'e ist_frame list \<Rightarrow> 'e ist_trav option" where
  "traverse_delete current ps =
    (case current of
       ITE_NULL \<Rightarrow> None
     | ITE l n e r \<Rightarrow>
         if l = ITE_NULL then
           (if r = ITE_NULL then
              \<comment> \<open>like traverse_back, but with deletion\<close>
              (case ps of
                 [] \<Rightarrow> Some (Trav_done ITE_NULL)
               | f # ps' \<Rightarrow>
                   if n < frame_name f
                   then (case f of
                           LINV pn pe pr \<Rightarrow> Some (Trav_at (ITE ITE_NULL pn pe pr) ps')
                         | RINV pl pn pe \<Rightarrow> None)
                   else (case f of
                           LINV pn pe pr \<Rightarrow> None
                         | RINV pl pn pe \<Rightarrow> traverse_back (ITE pl pn pe ITE_NULL) ps'))
            else (case traverse_left r ps of (c, ps') \<Rightarrow> Some (Trav_at c ps')))
         else
           (if r = ITE_NULL then traverse_back l ps
            else
              \<comment> \<open>replace current with largest of left children\<close>
              let (m, lt, rt) = ipc_splay_prim_lookup MACH_PORT_LARGEST l [] []
              in (case ipc_splay_prim_assemble m lt rt of
                    ITE_NULL \<Rightarrow> None
                  | ITE ml mn me mr \<Rightarrow> traverse_right (ITE ml mn me r) ps)))"

definition ipc_splay_traverse_start ::
    "'e ipc_splay_tree \<Rightarrow> (mach_port_t \<times> 'e) option \<times> 'e ipc_splay_tree" where
  "ipc_splay_traverse_start splay =
    (if ist_root splay = ITE_NULL then (None, splay)
     else
       let root = ipc_splay_prim_assemble (ist_root splay) (ist_ltree splay) (ist_rtree splay);
           (current, parent) = traverse_left root []
       in (Some (ite_name current, ite_entry current),
           splay\<lparr>ist_current := current, ist_parent := parent\<rparr>))"

definition ipc_splay_traverse_next ::
    "'e ipc_splay_tree \<Rightarrow> bool \<Rightarrow> ((mach_port_t \<times> 'e) option \<times> 'e ipc_splay_tree) option" where
  "ipc_splay_traverse_next splay delete =
    (case (if delete then traverse_delete (ist_current splay) (ist_parent splay)
           else traverse_right (ist_current splay) (ist_parent splay)) of
       None \<Rightarrow> None
     | Some (Trav_done root) \<Rightarrow> Some (None, splay\<lparr>ist_root := root\<rparr>)
     | Some (Trav_at current parent) \<Rightarrow>
         Some (Some (ite_name current, ite_entry current),
               splay\<lparr>ist_current := current, ist_parent := parent\<rparr>))"

definition ipc_splay_traverse_finish :: "'e ipc_splay_tree \<Rightarrow> 'e ipc_splay_tree" where
  "ipc_splay_traverse_finish splay = ist_reset splay (ist_root splay)"


text \<open>
  The loop a caller writes around the three routines: \<open>body\<close> is the loop's body, which
  updates the caller's state and decides whether the entry is deleted.  The traversal of a
  tree of \<open>n\<close> entries needs fuel \<open>n\<close>.
\<close>

fun traverse_loop ::
    "nat \<Rightarrow> (mach_port_t \<times> 'e \<Rightarrow> 's \<Rightarrow> 's \<times> bool) \<Rightarrow> (mach_port_t \<times> 'e) option \<Rightarrow>
     'e ipc_splay_tree \<Rightarrow> 's \<Rightarrow> ('s \<times> 'e ipc_splay_tree) option" where
  "traverse_loop fuel body None splay st = Some (st, ipc_splay_traverse_finish splay)"
| "traverse_loop 0 body (Some x) splay st = None"
| "traverse_loop (Suc fuel) body (Some x) splay st =
    (let (st', delete) = body x st
     in (case ipc_splay_traverse_next splay delete of
           None \<Rightarrow> None
         | Some (x', splay') \<Rightarrow> traverse_loop fuel body x' splay' st'))"

definition ipc_splay_traverse ::
    "nat \<Rightarrow> (mach_port_t \<times> 'e \<Rightarrow> 's \<Rightarrow> 's \<times> bool) \<Rightarrow> 'e ipc_splay_tree \<Rightarrow> 's \<Rightarrow>
     ('s \<times> 'e ipc_splay_tree) option" where
  "ipc_splay_traverse fuel body splay st =
    (case ipc_splay_traverse_start splay of
       (x, splay') \<Rightarrow> traverse_loop fuel body x splay' st)"

subsection \<open>Writing through an entry pointer\<close>

text \<open>
  A caller that holds a pointer to a tree entry writes its fields in place.  The model
  stores the new payload at every node with the entry's name; in an ordered tree there is
  one at most.
\<close>

primrec ite_store :: "mach_port_t \<Rightarrow> 'e \<Rightarrow> 'e ipc_tree \<Rightarrow> 'e ipc_tree" where
  "ite_store name x ITE_NULL = ITE_NULL"
| "ite_store name x (ITE l n e r) =
    ITE (ite_store name x l) n (if n = name then x else e) (ite_store name x r)"

definition ist_store :: "'e ipc_splay_tree \<Rightarrow> mach_port_t \<Rightarrow> 'e \<Rightarrow> 'e ipc_splay_tree" where
  "ist_store splay name x =
    splay\<lparr>ist_root := ite_store name x (ist_root splay),
          ist_ltree := map (\<lambda>(l, n, e). (ite_store name x l, n, if n = name then x else e))
                         (ist_ltree splay),
          ist_rtree := map (\<lambda>(n, e, r). (n, if n = name then x else e, ite_store name x r))
                         (ist_rtree splay)\<rparr>"

section \<open>The abstract contents\<close>

text \<open>
  What the tree stands for is the list of its names and payloads in symmetric order.  The
  invariant says that the list is strictly ascending and that the unassembled form is the
  one the last lookup (\<^verbatim>\<open>ist_name\<close>) has left: the left tree is below the name, the right
  tree above it, and the middle tree has no entry between its root and the name.
\<close>

primrec ite_list :: "'e ipc_tree \<Rightarrow> (mach_port_t \<times> 'e) list" where
  "ite_list ITE_NULL = []"
| "ite_list (ITE l n e r) = ite_list l @ (n, e) # ite_list r"

fun lspine_list :: "'e lspine \<Rightarrow> (mach_port_t \<times> 'e) list" where
  "lspine_list [] = []"
| "lspine_list ((l, n, e) # fs) = lspine_list fs @ ite_list l @ [(n, e)]"

fun rspine_list :: "'e rspine \<Rightarrow> (mach_port_t \<times> 'e) list" where
  "rspine_list [] = []"
| "rspine_list ((n, e, r) # fs) = (n, e) # ite_list r @ rspine_list fs"

definition ist_list :: "'e ipc_splay_tree \<Rightarrow> (mach_port_t \<times> 'e) list" where
  "ist_list splay =
    (if ist_root splay = ITE_NULL then []
     else lspine_list (ist_ltree splay) @ ite_list (ist_root splay) @ rspine_list (ist_rtree splay))"

definition middle_ok :: "mach_port_t \<Rightarrow> 'e ipc_tree \<Rightarrow> 'e lspine \<Rightarrow> 'e rspine \<Rightarrow> bool" where
  "middle_ok name t lt rt \<longleftrightarrow>
    t \<noteq> ITE_NULL \<and>
    below name (lspine_list lt) \<and> above name (rspine_list rt) \<and>
    (name < ite_name t \<longrightarrow> ite_lchild t = ITE_NULL) \<and>
    (ite_name t < name \<longrightarrow> ite_rchild t = ITE_NULL)"

definition ist_ok :: "'e ipc_splay_tree \<Rightarrow> bool" where
  "ist_ok splay \<longleftrightarrow>
    ist_root splay = ITE_NULL \<or>
    ascending (ist_list splay) \<and>
    middle_ok (ist_name splay) (ist_root splay) (ist_ltree splay) (ist_rtree splay)"

section \<open>Lemmas\<close>

lemma ite_list_Nil [simp]: "ite_list t = [] \<longleftrightarrow> t = ITE_NULL"
  by (cases t) auto

lemma fill_left_list [simp]: "ite_list (fill_left lt t) = lspine_list lt @ ite_list t"
  by (induction lt t rule: fill_left.induct) auto

lemma fill_right_list [simp]: "ite_list (fill_right rt t) = ite_list t @ rspine_list rt"
  by (induction rt t rule: fill_right.induct) auto

lemma assemble_list [simp]:
  "t \<noteq> ITE_NULL \<Longrightarrow>
   ite_list (ipc_splay_prim_assemble t lt rt) = lspine_list lt @ ite_list t @ rspine_list rt"
  by (cases t) auto

lemma assemble_NULL [simp]: "ipc_splay_prim_assemble t lt rt = ITE_NULL \<longleftrightarrow> t = ITE_NULL"
  by (cases t) auto

lemma prim_lookup_list:
  "ipc_splay_prim_lookup name t lt rt = (t', lt', rt') \<Longrightarrow>
   lspine_list lt' @ ite_list t' @ rspine_list rt' = lspine_list lt @ ite_list t @ rspine_list rt"
  by (induction name t lt rt arbitrary: t' lt' rt' rule: ipc_splay_prim_lookup.induct)
    (auto split: if_splits ipc_tree.splits)

lemma prim_lookup_middle:
  assumes "ipc_splay_prim_lookup name t lt rt = (t', lt', rt')" and "t \<noteq> ITE_NULL"
    and "ascending (ite_list t)" and "below name (lspine_list lt)" and "above name (rspine_list rt)"
  shows "middle_ok name t' lt' rt'"
  using assms
proof (induction name t lt rt arbitrary: t' lt' rt' rule: ipc_splay_prim_lookup.induct)
  case (1 name lt rt)
  then show ?case by simp
next
  case (2 name l n e r lt rt)
  note eq = 2(7) and asc = 2(9) and lo = 2(10) and hi = 2(11)
  consider "name = n" | "name < n" "l = ITE_NULL" | "n < name" "r = ITE_NULL"
    | (left) ll ln le lr where "name < n" "l = ITE ll ln le lr"
    | (right) rl rn re rr where "n < name" "r = ITE rl rn re rr"
    by (metis ipc_tree.exhaust linorder_less_linear)
  then show ?case
  proof cases
    case left
    have l: "ascending (ite_list ll)" "ascending (ite_list lr)" "below ln (ite_list ll)"
      "above ln (ite_list lr)" "ln < n" "above name (ite_list r)"
      using asc left by (auto intro: above_mono)
    have mono: "name < ln \<Longrightarrow> above name (ite_list lr)" "ln < name \<Longrightarrow> below name (ite_list ll)"
      using l by (auto intro: above_mono below_mono)
    show ?thesis
      using eq left l mono asc lo hi 2(1-3) [of ll ln le lr t' lt' rt']
      by (auto split: if_splits)
  next
    case right
    have r: "ascending (ite_list rl)" "ascending (ite_list rr)" "below rn (ite_list rl)"
      "above rn (ite_list rr)" "n < rn" "below name (ite_list l)"
      using asc right by (auto intro: below_mono)
    have mono: "rn < name \<Longrightarrow> below name (ite_list rl)" "name < rn \<Longrightarrow> above name (ite_list rr)"
      using r by (auto intro: above_mono below_mono)
    show ?thesis
      using eq right r mono asc lo hi 2(4-6) [of rl rn re rr t' lt' rt']
      by (auto split: if_splits)
  qed (use eq lo hi in \<open>auto simp: middle_ok_def split: if_splits\<close>)
qed


text \<open>What the shared prologue gives: the same contents, with the name in the middle.\<close>

lemma ist_ok_ascending: "ist_ok splay \<Longrightarrow> ascending (ist_list splay)"
  by (auto simp: ist_ok_def ist_list_def)

lemma find_spec:
  assumes "ist_ok splay" and "ist_root splay \<noteq> ITE_NULL"
  obtains l n e r lt rt where
    "ipc_splay_find splay name = (ITE l n e r, lt, rt)"
    "ist_list splay = lspine_list lt @ ite_list l @ (n, e) # ite_list r @ rspine_list rt"
    "middle_ok name (ITE l n e r) lt rt"
proof -
  obtain t lt rt where f: "ipc_splay_find splay name = (t, lt, rt)"
    by (metis prod_cases3)
  have "ist_list splay = lspine_list lt @ ite_list t @ rspine_list rt \<and> middle_ok name t lt rt"
  proof (cases "ist_name splay = name")
    case True
    with f assms show ?thesis by (auto simp: ipc_splay_find_def ist_ok_def ist_list_def)
  next
    case False
    let ?t = "ipc_splay_prim_assemble (ist_root splay) (ist_ltree splay) (ist_rtree splay)"
    have eq: "ipc_splay_prim_lookup name ?t [] [] = (t, lt, rt)"
      using f False by (simp add: ipc_splay_find_def)
    have "ite_list ?t = ist_list splay"
      using assms by (simp add: ist_list_def)
    with prim_lookup_list [OF eq] prim_lookup_middle [OF eq] ist_ok_ascending [OF assms(1)] assms(2)
    show ?thesis by simp
  qed
  moreover then have "t \<noteq> ITE_NULL" by (simp add: middle_ok_def)
  then obtain l n e r where "t = ITE l n e r" by (cases t) auto
  ultimately show thesis using f that by auto
qed

lemma middle_cases [consumes 2, case_names found less greater]:
  assumes "middle_ok name (ITE l n e r) lt rt"
    and "ascending (lspine_list lt @ ite_list l @ (n, e) # ite_list r @ rspine_list rt)"
  obtains
    "name = n" "below name (lspine_list lt @ ite_list l)" "above name (ite_list r @ rspine_list rt)"
  | "name < n" "l = ITE_NULL" "below name (lspine_list lt)"
    "above name ((n, e) # ite_list r @ rspine_list rt)"
  | "n < name" "r = ITE_NULL" "below name (lspine_list lt @ ite_list l @ [(n, e)])"
    "above name (rspine_list rt)"
proof -
  have mono: "name < n \<Longrightarrow> above name (ite_list r)" "n < name \<Longrightarrow> below name (ite_list l)"
    using assms(2) by (auto intro: below_mono above_mono)
  consider "name = n" | "name < n" | "n < name" by fastforce
  then show thesis
    using assms that mono by cases (auto simp: middle_ok_def)
qed

lemma middle_map_of:
  assumes "middle_ok name (ITE l n e r) lt rt"
    and "ascending (lspine_list lt @ ite_list l @ (n, e) # ite_list r @ rspine_list rt)"
  shows "map_of (lspine_list lt @ ite_list l @ (n, e) # ite_list r @ rspine_list rt) name =
    (if name = n then Some e else None)"
  using assms by (cases rule: middle_cases) (auto simp: map_of_below map_of_above map_add_def)


subsection \<open>Lookup, insertion and deletion\<close>

lemma lookup_spec:
  assumes "ist_ok splay" and "ipc_splay_tree_lookup splay name = (res, splay')"
  shows "res = map_of (ist_list splay) name" and "ist_list splay' = ist_list splay"
    and "ist_ok splay'"
proof -
  have "res = map_of (ist_list splay) name \<and> ist_list splay' = ist_list splay \<and> ist_ok splay'"
  proof (cases "ist_root splay = ITE_NULL")
    case True
    with assms show ?thesis by (auto simp: ipc_splay_tree_lookup_def ist_list_def)
  next
    case False
    obtain l n e r lt rt where f: "ipc_splay_find splay name = (ITE l n e r, lt, rt)"
      and L: "ist_list splay = lspine_list lt @ ite_list l @ (n, e) # ite_list r @ rspine_list rt"
      and m: "middle_ok name (ITE l n e r) lt rt"
      using find_spec [OF assms(1) False] .
    have asc: "ascending (ist_list splay)" by (rule ist_ok_ascending [OF assms(1)])
    have "map_of (ist_list splay) name = (if name = n then Some e else None)"
      unfolding L by (rule middle_map_of [OF m asc [unfolded L]])
    moreover have "ist_list splay' = ist_list splay"
      unfolding L using assms(2) f False
      by (auto simp: ipc_splay_tree_lookup_def ist_list_def)
    ultimately show ?thesis
      using assms(2) f False m asc by (auto simp: ipc_splay_tree_lookup_def ist_ok_def)
  qed
  then show "res = map_of (ist_list splay) name" and "ist_list splay' = ist_list splay"
    and "ist_ok splay'" by simp_all
qed

lemma ist_reset_list [simp]: "ist_list (ist_reset splay t) = ite_list t"
  by (simp add: ist_reset_def ist_list_def)

lemma ist_reset_ok [simp]: "ascending (ite_list t) \<Longrightarrow> ist_ok (ist_reset splay t)"
  by (auto simp: ist_reset_def ist_ok_def ist_list_def middle_ok_def)

lemma insert_spec:
  assumes ok: "ist_ok splay" and new: "map_of (ist_list splay) name = None"
  shows "ist_list (ipc_splay_tree_insert splay name entry) =
      filter (\<lambda>x. fst x < name) (ist_list splay) @ (name, entry) #
      filter (\<lambda>x. name < fst x) (ist_list splay)"
    and "ist_ok (ipc_splay_tree_insert splay name entry)"
proof -
  have "ist_list (ipc_splay_tree_insert splay name entry) =
      filter (\<lambda>x. fst x < name) (ist_list splay) @ (name, entry) #
      filter (\<lambda>x. name < fst x) (ist_list splay) \<and>
    ist_ok (ipc_splay_tree_insert splay name entry)"
  proof (cases "ist_root splay = ITE_NULL")
    case True
    then show ?thesis
      by (simp add: ipc_splay_tree_insert_def ist_list_def [of splay])
  next
    case False
    obtain l n e r lt rt where f: "ipc_splay_find splay name = (ITE l n e r, lt, rt)"
      and L: "ist_list splay = lspine_list lt @ ite_list l @ (n, e) # ite_list r @ rspine_list rt"
      and m: "middle_ok name (ITE l n e r) lt rt"
      using find_spec [OF ok False] .
    have asc: "ascending (ist_list splay)" by (rule ist_ok_ascending [OF ok])
    from m asc [unfolded L] show ?thesis
    proof (cases rule: middle_cases)
      case found
      with new middle_map_of [OF m asc [unfolded L]] show ?thesis by (simp add: L)
    next
      case less
      with asc show ?thesis unfolding L
        by (auto simp: ipc_splay_tree_insert_def f False)
    next
      case greater
      with asc show ?thesis unfolding L
        by (auto simp: ipc_splay_tree_insert_def f False)
    qed
  qed
  then show "ist_list (ipc_splay_tree_insert splay name entry) =
      filter (\<lambda>x. fst x < name) (ist_list splay) @ (name, entry) #
      filter (\<lambda>x. name < fst x) (ist_list splay)"
    and "ist_ok (ipc_splay_tree_insert splay name entry)" by simp_all
qed

text \<open>Splaying the largest name to the root leaves it no right child.\<close>

lemma largest_ge [simp]: "n \<le> MACH_PORT_LARGEST" "\<not> MACH_PORT_LARGEST < n"
  by (simp_all add: MACH_PORT_LARGEST_def)

lemma smallest_le [simp]: "MACH_PORT_SMALLEST \<le> n" "\<not> n < MACH_PORT_SMALLEST"
  by (simp_all add: MACH_PORT_SMALLEST_def)

lemma splay_largest:
  assumes "t \<noteq> ITE_NULL" and "ascending (ite_list t)"
    and "ipc_splay_prim_lookup MACH_PORT_LARGEST t [] [] = (m, lt, rt)"
  obtains l n e where "ipc_splay_prim_assemble m lt rt = ITE l n e ITE_NULL"
    and "ite_list t = ite_list l @ [(n, e)]"
proof -
  have mid: "middle_ok MACH_PORT_LARGEST m lt rt"
    by (rule prim_lookup_middle [OF assms(3,1,2)]) simp_all
  have L: "lspine_list lt @ ite_list m @ rspine_list rt = ite_list t"
    using prim_lookup_list [OF assms(3)] by simp
  obtain l n e r where m: "m = ITE l n e r"
    using mid by (cases m) (auto simp: middle_ok_def)
  have rt: "rt = []"
    using mid by (cases rt) (auto simp: middle_ok_def)
  have "r = ITE_NULL"
  proof (cases "n = MACH_PORT_LARGEST")
    case True
    have "above n (ite_list r)"
      using assms(2) unfolding L [symmetric] m rt by simp
    with True show ?thesis by (cases r) simp_all
  next
    case False
    then have "n < MACH_PORT_LARGEST" by (simp add: order_less_le)
    with mid m show ?thesis by (simp add: middle_ok_def)
  qed
  with that show thesis by (simp add: m rt L [symmetric])
qed


lemma splay_and_graft:
  assumes "ascending (ite_list t @ ite_list saved)" and "t \<noteq> ITE_NULL"
  shows "\<exists>l n e. (let (m, lt, rt) = ipc_splay_prim_lookup MACH_PORT_LARGEST t [] []
      in (case ipc_splay_prim_assemble m lt rt of
            ITE_NULL \<Rightarrow> ITE_NULL | ITE l n e r \<Rightarrow> ITE l n e saved)) = ITE l n e saved \<and>
    ite_list t = ite_list l @ [(n, e)]"
proof -
  obtain m lt rt where f: "ipc_splay_prim_lookup MACH_PORT_LARGEST t [] [] = (m, lt, rt)"
    by (metis prod_cases3)
  obtain l n e where "ipc_splay_prim_assemble m lt rt = ITE l n e ITE_NULL"
    and "ite_list t = ite_list l @ [(n, e)]"
    using splay_largest [OF assms(2) _ f] assms(1) ascending_appendD by blast
  with f show ?thesis by simp
qed

lemma delete_spec:
  assumes ok: "ist_ok splay" and present: "map_of (ist_list splay) name = Some x"
  shows "ist_list (ipc_splay_tree_delete splay name) =
      filter (\<lambda>x. fst x \<noteq> name) (ist_list splay)"
    and "ist_ok (ipc_splay_tree_delete splay name)"
proof -
  have ne: "ist_root splay \<noteq> ITE_NULL"
    using present by (auto simp: ist_list_def)
  obtain l n e r lt rt where f: "ipc_splay_find splay name = (ITE l n e r, lt, rt)"
    and L: "ist_list splay = lspine_list lt @ ite_list l @ (n, e) # ite_list r @ rspine_list rt"
    and m: "middle_ok name (ITE l n e r) lt rt"
    using find_spec [OF ok ne] .
  have asc: "ascending (ist_list splay)" by (rule ist_ok_ascending [OF ok])
  have n: "n = name"
    using present middle_map_of [OF m asc [unfolded L]] by (simp add: L split: if_splits)
  define left saved where "left = fill_left lt l" and "saved = fill_right rt r"
  have rest: "filter (\<lambda>x. fst x \<noteq> name) (ist_list splay) = ite_list left @ ite_list saved"
    using asc unfolding L by (simp add: n left_def saved_def)
  have asc2: "ascending (ite_list left @ ite_list saved)"
    using ascending_filter [OF asc, of "\<lambda>x. fst x \<noteq> name"] by (simp only: rest)
  have "ist_list (ipc_splay_tree_delete splay name) = ite_list left @ ite_list saved \<and>
    ist_ok (ipc_splay_tree_delete splay name)"
  proof (cases "left = ITE_NULL \<or> saved = ITE_NULL")
    case True
    with asc2 show ?thesis
      by (auto simp: ipc_splay_tree_delete_def f left_def [symmetric] saved_def [symmetric])
  next
    case False
    then obtain a b c where "(let (m, lt, rt) = ipc_splay_prim_lookup MACH_PORT_LARGEST left [] []
      in (case ipc_splay_prim_assemble m lt rt of
            ITE_NULL \<Rightarrow> ITE_NULL | ITE l n e r \<Rightarrow> ITE l n e saved)) = ITE a b c saved"
      and "ite_list left = ite_list a @ [(b, c)]"
      using splay_and_graft [OF asc2] by blast
    with False asc2 show ?thesis
      by (simp add: ipc_splay_tree_delete_def f left_def [symmetric] saved_def [symmetric])
  qed
  then show "ist_list (ipc_splay_tree_delete splay name) =
      filter (\<lambda>x. fst x \<noteq> name) (ist_list splay)"
    and "ist_ok (ipc_splay_tree_delete splay name)" using rest by simp_all
qed

subsection \<open>Split, join and bounds\<close>

lemma split_spec:
  assumes ok: "ist_ok splay" and eq: "ipc_splay_tree_split splay name small0 = (splay', small)"
  shows "ist_list splay' = filter (\<lambda>x. name \<le> fst x) (ist_list splay)"
    and "ist_list small = filter (\<lambda>x. fst x < name) (ist_list splay)"
    and "ist_ok splay'" and "ist_ok small"
proof -
  have "ist_list splay' = filter (\<lambda>x. name \<le> fst x) (ist_list splay) \<and>
    ist_list small = filter (\<lambda>x. fst x < name) (ist_list splay) \<and> ist_ok splay' \<and> ist_ok small"
  proof (cases "ist_root splay = ITE_NULL")
    case True
    with eq show ?thesis
      by (auto simp: ipc_splay_tree_split_def ipc_splay_tree_init_def ist_list_def ist_ok_def)
  next
    case False
    obtain l n e r lt rt where f: "ipc_splay_find splay name = (ITE l n e r, lt, rt)"
      and L: "ist_list splay = lspine_list lt @ ite_list l @ (n, e) # ite_list r @ rspine_list rt"
      and m: "middle_ok name (ITE l n e r) lt rt"
      using find_spec [OF ok False] .
    have asc: "ascending (ist_list splay)" by (rule ist_ok_ascending [OF ok])
    from m asc [unfolded L] show ?thesis
    proof (cases rule: middle_cases)
      case found
      with asc m eq False f show ?thesis unfolding L
        by (auto simp: ipc_splay_tree_split_def ist_list_def [of splay'] ist_ok_def [of splay']
            middle_ok_def)
    next
      case less
      with asc m eq False f show ?thesis unfolding L
        by (auto simp: ipc_splay_tree_split_def ist_list_def [of splay'] ist_ok_def [of splay']
            middle_ok_def)
    next
      case greater
      with asc m eq False f show ?thesis unfolding L
        by (auto simp: ipc_splay_tree_split_def)
    qed
  qed
  then show "ist_list splay' = filter (\<lambda>x. name \<le> fst x) (ist_list splay)"
    and "ist_list small = filter (\<lambda>x. fst x < name) (ist_list splay)"
    and "ist_ok splay'" and "ist_ok small" by simp_all
qed


lemma join_spec:
  assumes ok: "ist_ok splay" "ist_ok small"
    and asc: "ascending (ist_list small @ ist_list splay)"
    and eq: "ipc_splay_tree_join splay small = (splay', small')"
  shows "ist_list splay' = ist_list small @ ist_list splay" and "ist_ok splay'"
    and "ist_list small' = []"
proof -
  let ?sroot = "ipc_splay_prim_assemble (ist_root small) (ist_ltree small) (ist_rtree small)"
  have s: "ist_root small \<noteq> ITE_NULL \<Longrightarrow> ite_list ?sroot = ist_list small"
    by (simp add: ist_list_def)
  consider (empty) "ist_root small = ITE_NULL"
    | (fresh) "ist_root small \<noteq> ITE_NULL" "ist_root splay = ITE_NULL"
    | (both) "ist_root small \<noteq> ITE_NULL" "ist_root splay \<noteq> ITE_NULL" by blast
  then have "ist_list splay' = ist_list small @ ist_list splay \<and> ist_ok splay' \<and>
    ist_list small' = []"
  proof cases
    case empty
    with ok eq show ?thesis by (simp add: ipc_splay_tree_join_def ist_list_def)
  next
    case fresh
    with ok s eq show ?thesis
      by (auto simp: ipc_splay_tree_join_def ist_list_def [of splay] ist_list_def [of small']
          ist_ok_ascending)
  next
    case both
    obtain l n e r lt rt where f: "ipc_splay_find splay MACH_PORT_SMALLEST = (ITE l n e r, lt, rt)"
      and L: "ist_list splay = lspine_list lt @ ite_list l @ (n, e) # ite_list r @ rspine_list rt"
      and m: "middle_ok MACH_PORT_SMALLEST (ITE l n e r) lt rt"
      using find_spec [OF ok(1) both(2)] .
    have lt: "lt = []"
      using m by (cases lt) (auto simp: middle_ok_def)
    have l: "l = ITE_NULL"
    proof (cases "n = MACH_PORT_SMALLEST")
      case True
      then have "below MACH_PORT_SMALLEST (ite_list l)"
        using ist_ok_ascending [OF ok(1)] unfolding L by simp
      then show ?thesis by (cases l) simp_all
    next
      case False
      then have "MACH_PORT_SMALLEST < n" by (simp add: order_less_le)
      with m show ?thesis by (simp add: middle_ok_def)
    qed
    from both f lt l s eq asc show ?thesis
      by (auto simp: ipc_splay_tree_join_def L ist_list_def [of small'])
  qed
  then show "ist_list splay' = ist_list small @ ist_list splay" and "ist_ok splay'"
    and "ist_list small' = []" by simp_all
qed

text \<open>The two bounds are the neighbours of the name in the list.\<close>

definition lower_bound :: "mach_port_t \<Rightarrow> (mach_port_t \<times> 'e) list \<Rightarrow> mach_port_t" where
  "lower_bound name xs =
    (case rev (filter (\<lambda>x. fst x \<le> name) xs) of [] \<Rightarrow> NOT 0 | x # _ \<Rightarrow> fst x)"

definition upper_bound :: "mach_port_t \<Rightarrow> (mach_port_t \<times> 'e) list \<Rightarrow> mach_port_t" where
  "upper_bound name xs = (case filter (\<lambda>x. name \<le> fst x) xs of [] \<Rightarrow> 0 | x # _ \<Rightarrow> fst x)"

lemma lower_bound_cases:
  "lower_bound n xs = NOT 0 \<and> (\<forall>x \<in> set xs. n < fst x) \<or>
   (\<exists>x \<in> set xs. lower_bound n xs = fst x \<and> fst x \<le> n)"
proof (cases "rev (filter (\<lambda>x. fst x \<le> n) xs)")
  case Nil
  then show ?thesis by (auto simp: lower_bound_def filter_empty_conv not_le)
next
  case (Cons y ys)
  then have "y \<in> set (rev (filter (\<lambda>x. fst x \<le> n) xs))" by simp
  then have "y \<in> set xs" "fst y \<le> n" by simp_all
  with Cons show ?thesis by (auto simp: lower_bound_def)
qed

lemma upper_bound_cases:
  "upper_bound n xs = 0 \<and> (\<forall>x \<in> set xs. fst x < n) \<or>
   (\<exists>x \<in> set xs. upper_bound n xs = fst x \<and> n \<le> fst x)"
proof (cases "filter (\<lambda>x. n \<le> fst x) xs")
  case Nil
  then show ?thesis by (auto simp: upper_bound_def filter_empty_conv not_le)
next
  case (Cons y ys)
  then have "y \<in> set (filter (\<lambda>x. n \<le> fst x) xs)" by simp
  then have "y \<in> set xs" "n \<le> fst y" by simp_all
  with Cons show ?thesis by (auto simp: upper_bound_def)
qed

lemma lower_bound_greatest:
  assumes "ascending xs" and "x \<in> set xs" and "fst x \<le> n"
  shows "fst x \<le> lower_bound n xs"
proof -
  let ?ys = "filter (\<lambda>x. fst x \<le> n) xs"
  have x: "x \<in> set ?ys" using assms(2,3) by simp
  then obtain y ys where ys: "rev ?ys = y # ys" by (cases "rev ?ys") (auto simp: filter_empty_conv)
  then have "?ys = rev ys @ [y]" by (metis rev.simps(2) rev_rev_ident)
  with ascending_filter [OF assms(1), of "\<lambda>x. fst x \<le> n"] x
  have "fst x \<le> fst y" by (auto simp: below_def intro: order_less_imp_le)
  with ys show ?thesis by (simp add: lower_bound_def)
qed

lemma upper_bound_least:
  assumes "ascending xs" and "x \<in> set xs" and "n \<le> fst x"
  shows "upper_bound n xs \<le> fst x"
proof -
  let ?ys = "filter (\<lambda>x. n \<le> fst x) xs"
  have x: "x \<in> set ?ys" using assms(2,3) by simp
  then obtain y ys where ys: "?ys = y # ys" by (cases ?ys) (auto simp: filter_empty_conv)
  with ascending_filter [OF assms(1), of "\<lambda>x. n \<le> fst x"] x
  have "fst y \<le> fst x" by (auto simp: above_def intro: order_less_imp_le)
  with ys show ?thesis by (simp add: upper_bound_def)
qed

text \<open>One of the neighbours of a name has the name's index if any name has.\<close>

lemma bounds_index_iff:
  assumes "ascending xs" and v: "\<And>x. x \<in> set xs \<Longrightarrow> fst x \<noteq> 0 \<and> fst x \<noteq> NOT 0"
  shows "(lower_bound n xs \<noteq> NOT 0 \<and> MACH_PORT_INDEX (lower_bound n xs) = MACH_PORT_INDEX n \<or>
      upper_bound n xs \<noteq> 0 \<and> MACH_PORT_INDEX (upper_bound n xs) = MACH_PORT_INDEX n) \<longleftrightarrow>
    (\<exists>x \<in> set xs. MACH_PORT_INDEX (fst x) = MACH_PORT_INDEX n)" (is "?l \<longleftrightarrow> ?r")
proof
  assume ?l
  then show ?r using lower_bound_cases [of n xs] upper_bound_cases [of n xs] by metis
next
  assume ?r
  then obtain x where x: "x \<in> set xs" and i: "MACH_PORT_INDEX (fst x) = MACH_PORT_INDEX n" by blast
  show ?l
  proof (cases "fst x \<le> n")
    case True
    with assms(1) x have "fst x \<le> lower_bound n xs" by (intro lower_bound_greatest)
    moreover have "lower_bound n xs \<le> n" "lower_bound n xs \<noteq> NOT 0"
      using lower_bound_cases [of n xs] x True v by auto
    ultimately have "MACH_PORT_INDEX (lower_bound n xs) = MACH_PORT_INDEX n"
      using i by (metis MACH_PORT_INDEX_mono order_antisym)
    with \<open>lower_bound n xs \<noteq> NOT 0\<close> show ?thesis by simp
  next
    case False
    with assms(1) x have "upper_bound n xs \<le> fst x" by (intro upper_bound_least) auto
    moreover have "n \<le> upper_bound n xs" "upper_bound n xs \<noteq> 0"
      using upper_bound_cases [of n xs] x False v by auto
    ultimately have "MACH_PORT_INDEX (upper_bound n xs) = MACH_PORT_INDEX n"
      using i by (metis MACH_PORT_INDEX_mono order_antisym)
    with \<open>upper_bound n xs \<noteq> 0\<close> show ?thesis by simp
  qed
qed

lemma bounds_spec:
  assumes ok: "ist_ok splay"
    and eq: "ipc_splay_tree_bounds splay name = (lower, upper, splay')"
  shows "lower = lower_bound name (ist_list splay)" and "upper = upper_bound name (ist_list splay)"
    and "ist_list splay' = ist_list splay" and "ist_ok splay'"
proof -
  have "lower = lower_bound name (ist_list splay) \<and> upper = upper_bound name (ist_list splay) \<and>
    ist_list splay' = ist_list splay \<and> ist_ok splay'"
  proof (cases "ist_root splay = ITE_NULL")
    case True
    with eq show ?thesis
      by (auto simp: ipc_splay_tree_bounds_def ist_list_def ist_ok_def lower_bound_def
          upper_bound_def MACH_PORT_LARGEST_def MACH_PORT_SMALLEST_def)
  next
    case False
    obtain l n e r lt rt where f: "ipc_splay_find splay name = (ITE l n e r, lt, rt)"
      and L: "ist_list splay = lspine_list lt @ ite_list l @ (n, e) # ite_list r @ rspine_list rt"
      and m: "middle_ok name (ITE l n e r) lt rt"
      using find_spec [OF ok False] .
    have asc: "ascending (ist_list splay)" by (rule ist_ok_ascending [OF ok])
    have st: "splay' = splay\<lparr>ist_name := name, ist_root := ITE l n e r, ist_ltree := lt,
      ist_rtree := rt\<rparr>"
      using eq False f by (simp add: ipc_splay_tree_bounds_def Let_def)
    have keep: "ist_list splay' = ist_list splay"
      unfolding L by (simp add: st ist_list_def)
    then have keep_ok: "ist_ok splay'"
      using m asc by (simp add: ist_ok_def) (simp add: st)
    from m asc [unfolded L]
    have "lower = lower_bound name (ist_list splay) \<and> upper = upper_bound name (ist_list splay)"
    proof (cases rule: middle_cases)
      case found
      with eq False f show ?thesis
        by (auto simp: ipc_splay_tree_bounds_def L lower_bound_def upper_bound_def Let_def)
    next
      case less
      with eq False f show ?thesis
        by (auto simp: ipc_splay_tree_bounds_def L lower_bound_def upper_bound_def Let_def
            MACH_PORT_LARGEST_def split: list.splits)
    next
      case greater
      with eq False f show ?thesis
        by (auto simp: ipc_splay_tree_bounds_def L lower_bound_def upper_bound_def Let_def
            MACH_PORT_SMALLEST_def split: list.splits)
    qed
    with keep keep_ok show ?thesis by simp
  qed
  then show "lower = lower_bound name (ist_list splay)"
    and "upper = upper_bound name (ist_list splay)"
    and "ist_list splay' = ist_list splay" and "ist_ok splay'" by simp_all
qed


subsection \<open>Traversal\<close>

text \<open>
  A traversal stands at the current entry: \<open>trav_before\<close> are the entries already passed (and
  kept), \<open>trav_after\<close> the ones still to come.
\<close>

fun frames_before :: "'e ist_frame list \<Rightarrow> (mach_port_t \<times> 'e) list" where
  "frames_before [] = []"
| "frames_before (LINV n e r # fs) = frames_before fs"
| "frames_before (RINV l n e # fs) = frames_before fs @ ite_list l @ [(n, e)]"

fun frames_after :: "'e ist_frame list \<Rightarrow> (mach_port_t \<times> 'e) list" where
  "frames_after [] = []"
| "frames_after (LINV n e r # fs) = (n, e) # ite_list r @ frames_after fs"
| "frames_after (RINV l n e # fs) = frames_after fs"

text \<open>Where a step of the traversal leads: the list before, at and after the new entry.\<close>

fun trav_reaches :: "'e ist_trav option \<Rightarrow> (mach_port_t \<times> 'e) list \<Rightarrow> (mach_port_t \<times> 'e) list \<Rightarrow> bool"
where
  "trav_reaches None xs ys \<longleftrightarrow> False"
| "trav_reaches (Some (Trav_done t)) xs ys \<longleftrightarrow> ys = [] \<and> ite_list t = xs"
| "trav_reaches (Some (Trav_at t ps)) xs ys \<longleftrightarrow>
    (\<exists>l n e r. t = ITE l n e r \<and> frames_before ps @ ite_list l = xs \<and>
      (n, e) # ite_list r @ frames_after ps = ys)"

lemma traverse_left_reaches:
  "t \<noteq> ITE_NULL \<Longrightarrow> traverse_left t ps = (c, ps') \<Longrightarrow>
   trav_reaches (Some (Trav_at c ps')) (frames_before ps) (ite_list t @ frames_after ps)"
  by (induction t ps rule: traverse_left.induct) (auto split: if_splits)

lemma traverse_back_reaches:
  "t \<noteq> ITE_NULL \<Longrightarrow> ascending (frames_before ps @ ite_list t @ frames_after ps) \<Longrightarrow>
   trav_reaches (traverse_back t ps) (frames_before ps @ ite_list t) (frames_after ps)"
proof (induction t ps rule: traverse_back.induct)
  case (1 current)
  then show ?case by simp
next
  case (2 current f ps)
  obtain l n e r where t: "current = ITE l n e r"
    using 2(2) by (cases current) auto
  show ?case
  proof (cases f)
    case (LINV pn pe pr)
    then have "n < pn" using 2(3) by (simp add: t)
    with LINV show ?thesis by (simp add: t)
  next
    case (RINV pl pn pe)
    then have "pn < n" using 2(3) by (simp add: t)
    with RINV 2(1) [of pl pn pe] 2(3) show ?thesis by (simp add: t)
  qed
qed

lemma traverse_right_reaches:
  assumes "ascending (frames_before ps @ ite_list l @ (n, e) # ite_list r @ frames_after ps)"
  shows "trav_reaches (traverse_right (ITE l n e r) ps)
    (frames_before ps @ ite_list l @ [(n, e)]) (ite_list r @ frames_after ps)"
proof (cases "r = ITE_NULL")
  case True
  then show ?thesis
    using traverse_back_reaches [of "ITE l n e r" ps] assms by (simp add: traverse_right_def)
next
  case False
  then show ?thesis
    using traverse_left_reaches [of r "RINV l n e # ps"]
    by (cases "traverse_left r (RINV l n e # ps)") (simp add: traverse_right_def)
qed

lemma traverse_delete_reaches:
  assumes asc: "ascending (frames_before ps @ ite_list l @ (n, e) # ite_list r @ frames_after ps)"
  shows "trav_reaches (traverse_delete (ITE l n e r) ps)
    (frames_before ps @ ite_list l) (ite_list r @ frames_after ps)"
proof -
  consider (leaf) "l = ITE_NULL" "r = ITE_NULL" | (right) "l = ITE_NULL" "r \<noteq> ITE_NULL"
    | (left) "l \<noteq> ITE_NULL" "r = ITE_NULL" | (both) "l \<noteq> ITE_NULL" "r \<noteq> ITE_NULL" by blast
  then show ?thesis
  proof cases
    case leaf
    show ?thesis
    proof (cases ps)
      case Nil
      with leaf show ?thesis by (simp add: traverse_delete_def)
    next
      case (Cons f ps')
      show ?thesis
      proof (cases f)
        case (LINV pn pe pr)
        with leaf Cons asc show ?thesis by (simp add: traverse_delete_def)
      next
        case (RINV pl pn pe)
        then have "pn < n" using asc Cons by simp
        moreover have "ascending (frames_before ps' @ ite_list (ITE pl pn pe ITE_NULL) @ frames_after ps')"
          using asc Cons RINV leaf by (auto intro: above_mono)
        ultimately show ?thesis
          using RINV leaf Cons traverse_back_reaches [of "ITE pl pn pe ITE_NULL" ps']
          by (simp add: traverse_delete_def)
      qed
    qed
  next
    case right
    then show ?thesis
      using traverse_left_reaches [of r ps]
      by (cases "traverse_left r ps") (simp add: traverse_delete_def)
  next
    case left
    have "ascending (frames_before ps @ ite_list l @ frames_after ps)"
      using ascending_filter [OF asc, of "\<lambda>x. fst x \<noteq> n"] asc left by simp
    with left show ?thesis
      using traverse_back_reaches [of l ps] by (simp add: traverse_delete_def)
  next
    case both
    obtain m lt rt where f: "ipc_splay_prim_lookup MACH_PORT_LARGEST l [] [] = (m, lt, rt)"
      by (metis prod_cases3)
    have "ascending (ite_list l)" using asc ascending_appendD by auto
    then obtain ml mn me where m: "ipc_splay_prim_assemble m lt rt = ITE ml mn me ITE_NULL"
      and L: "ite_list l = ite_list ml @ [(mn, me)]"
      using splay_largest [OF both(1) _ f] by blast
    have "ascending (frames_before ps @ ite_list ml @ (mn, me) # ite_list r @ frames_after ps)"
      using ascending_filter [OF asc, of "\<lambda>x. fst x \<noteq> n"] asc L by simp
    from traverse_right_reaches [OF this] both f m L show ?thesis
      by (simp add: traverse_delete_def)
  qed
qed


text \<open>What a whole traversal does: a fold over the list, which keeps what is not deleted.\<close>

fun traverse_fold ::
    "(mach_port_t \<times> 'e \<Rightarrow> 's \<Rightarrow> 's \<times> bool) \<Rightarrow> (mach_port_t \<times> 'e) list \<Rightarrow> 's \<Rightarrow>
     's \<times> (mach_port_t \<times> 'e) list" where
  "traverse_fold body [] st = (st, [])"
| "traverse_fold body (x # xs) st =
    (let (st', delete) = body x st; (st'', ks) = traverse_fold body xs st'
     in (st'', if delete then ks else x # ks))"

definition trav_state :: "'e ipc_splay_tree \<Rightarrow> (mach_port_t \<times> 'e) list \<Rightarrow> (mach_port_t \<times> 'e) list \<Rightarrow> bool"
where
  "trav_state splay xs ys \<longleftrightarrow>
    trav_reaches (Some (Trav_at (ist_current splay) (ist_parent splay))) xs ys"

lemma traverse_next_spec:
  assumes "trav_state splay xs (y # ys)" and "ascending (xs @ y # ys)"
    and xs'_def: "xs' = (if delete then xs else xs @ [y])"
  shows "\<exists>splay'. ipc_splay_traverse_next splay delete =
      Some (case ys of [] \<Rightarrow> None | z # _ \<Rightarrow> Some z, splay') \<and>
    (if ys = [] then ite_list (ist_root splay') = xs' else trav_state splay' xs' ys)"
proof -
  obtain l n e r where c: "ist_current splay = ITE l n e r"
    and xs: "xs = frames_before (ist_parent splay) @ ite_list l"
    and y: "y = (n, e)" and ys: "ys = ite_list r @ frames_after (ist_parent splay)"
    using assms(1) by (auto simp: trav_state_def)
  define step where "step = (if delete then traverse_delete (ist_current splay) (ist_parent splay)
    else traverse_right (ist_current splay) (ist_parent splay))"
  have asc: "ascending (frames_before (ist_parent splay) @ ite_list l @ (n, e) # ite_list r @
      frames_after (ist_parent splay))"
    using assms(2) by (simp add: xs y ys)
  have "trav_reaches step xs' ys"
    using traverse_right_reaches [OF asc] traverse_delete_reaches [OF asc]
    by (simp add: step_def c xs'_def xs y ys)
  then show ?thesis
    by (cases "(step, xs', ys)" rule: trav_reaches.cases)
      (auto simp: ipc_splay_traverse_next_def step_def [symmetric] trav_state_def split: list.splits)
qed

lemma traverse_loop_spec:
  assumes "trav_state splay xs ys" and "ys \<noteq> []" and "ascending (xs @ ys)" and "length ys \<le> fuel"
  shows "\<exists>splay'. traverse_loop fuel body (Some (hd ys)) splay st =
      Some (fst (traverse_fold body ys st), splay') \<and>
    ist_ok splay' \<and> ist_list splay' = xs @ snd (traverse_fold body ys st)"
  using assms
proof (induction ys arbitrary: fuel splay xs st)
  case Nil
  then show ?case by simp
next
  case (Cons y ys)
  obtain fuel' where fuel: "fuel = Suc fuel'" and len: "length ys \<le> fuel'"
    using Cons.prems(4) by (cases fuel) auto
  obtain st' delete where b: "body y st = (st', delete)" by (cases "body y st")
  define xs' where "xs' = (if delete then xs else xs @ [y])"
  have asc: "ascending (xs' @ ys)"
    using Cons.prems(3) ascending_filter [OF Cons.prems(3), of "\<lambda>x. fst x \<noteq> fst y"]
    by (auto simp: xs'_def)
  obtain splay' where n: "ipc_splay_traverse_next splay delete =
      Some (case ys of [] \<Rightarrow> None | z # _ \<Rightarrow> Some z, splay')"
    and s: "if ys = [] then ite_list (ist_root splay') = xs' else trav_state splay' xs' ys"
    using traverse_next_spec [OF Cons.prems(1,3) xs'_def] by blast
  show ?case
  proof (cases "ys = []")
    case True
    with fuel b n s asc show ?thesis
      by (simp add: ipc_splay_traverse_finish_def xs'_def)
  next
    case False
    obtain splay'' where "traverse_loop fuel' body (Some (hd ys)) splay' st' =
        Some (fst (traverse_fold body ys st'), splay'')" "ist_ok splay''"
      "ist_list splay'' = xs' @ snd (traverse_fold body ys st')"
      using Cons.IH [of splay' xs' fuel' st'] s asc len False by auto
    with fuel b n False show ?thesis
      by (auto simp: xs'_def split: list.splits prod.splits)
  qed
qed

lemma traverse_spec:
  assumes "ist_ok splay" and "length (ist_list splay) \<le> fuel"
  shows "\<exists>splay'. ipc_splay_traverse fuel body splay st =
      Some (fst (traverse_fold body (ist_list splay) st), splay') \<and>
    ist_ok splay' \<and> ist_list splay' = snd (traverse_fold body (ist_list splay) st)"
proof (cases "ist_root splay = ITE_NULL")
  case True
  then show ?thesis
    by (simp add: ipc_splay_traverse_def ipc_splay_traverse_start_def ist_list_def
        ipc_splay_traverse_finish_def ist_reset_def ist_ok_def)
next
  case False
  let ?t = "ipc_splay_prim_assemble (ist_root splay) (ist_ltree splay) (ist_rtree splay)"
  obtain c ps where tl: "traverse_left ?t [] = (c, ps)" by fastforce
  have L: "ite_list ?t = ist_list splay" using False by (simp add: ist_list_def)
  have r: "trav_reaches (Some (Trav_at c ps)) [] (ist_list splay)"
    using traverse_left_reaches [OF _ tl] False L by simp
  then have hd: "(ite_name c, ite_entry c) = hd (ist_list splay)" "ist_list splay \<noteq> []"
    by (metis ipc_tree.sel(2,3) list.sel(1) trav_reaches.simps(3))
      (use r in auto)
  have "trav_state (splay\<lparr>ist_current := c, ist_parent := ps\<rparr>) [] (ist_list splay)"
    using r by (simp add: trav_state_def)
  from traverse_loop_spec [OF this hd(2) _ assms(2), of body st] ist_ok_ascending [OF assms(1)]
  show ?thesis
    using False tl hd by (simp add: ipc_splay_traverse_def ipc_splay_traverse_start_def)
qed

subsection \<open>Writing through a pointer\<close>

definition list_store :: "mach_port_t \<Rightarrow> 'e \<Rightarrow> (mach_port_t \<times> 'e) list \<Rightarrow> (mach_port_t \<times> 'e) list" where
  "list_store name x xs = map (\<lambda>(n, e). (n, if n = name then x else e)) xs"

lemma list_store_simps [simp]:
  "list_store name x [] = []"
  "list_store name x ((n, e) # xs) = (n, if n = name then x else e) # list_store name x xs"
  "list_store name x (xs @ ys) = list_store name x xs @ list_store name x ys"
  by (simp_all add: list_store_def)

lemma map_fst_list_store [simp]: "map fst (list_store name x xs) = map fst xs"
  by (induction xs) auto

lemma list_store_bounds [simp]:
  "ascending (list_store name x xs) = ascending xs"
  "below k (list_store name x xs) = below k xs" "above k (list_store name x xs) = above k xs"
  by (simp add: ascending_def) (induction xs; auto)+

lemma map_of_list_store:
  "map_of (list_store name x xs) n =
    (if n = name then map_option (\<lambda>_. x) (map_of xs n) else map_of xs n)"
  by (induction xs) auto

lemma ite_store_list [simp]: "ite_list (ite_store name x t) = list_store name x (ite_list t)"
  by (induction t) auto

lemma ite_store_NULL [simp]: "ite_store name x t = ITE_NULL \<longleftrightarrow> t = ITE_NULL"
  by (cases t) auto

lemma store_lspine [simp]:
  "lspine_list (map (\<lambda>(l, n, e). (ite_store name x l, n, if n = name then x else e)) lt) =
   list_store name x (lspine_list lt)"
  by (induction lt rule: lspine_list.induct) auto

lemma store_rspine [simp]:
  "rspine_list (map (\<lambda>(n, e, r). (n, if n = name then x else e, ite_store name x r)) rt) =
   list_store name x (rspine_list rt)"
  by (induction rt rule: rspine_list.induct) auto

lemma ist_store_list: "ist_list (ist_store splay name x) = list_store name x (ist_list splay)"
  by (simp add: ist_list_def ist_store_def)

lemma ist_store_ok: "ist_ok splay \<Longrightarrow> ist_ok (ist_store splay name x)"
  unfolding ist_ok_def ist_store_list list_store_bounds
  by (cases "ist_root splay") (auto simp: middle_ok_def ist_store_def)

end
