(* ===== verification/Name_Tree.thy ===== *)
theory Name_Tree
  imports Ipc_Splay
begin

text \<open>
  The contract between \<^verbatim>\<open>ipc_entry.c\<close> and the tree that holds its large names, as a locale:
  the operations of \<^verbatim>\<open>ipc_splay.h\<close> with the laws the clients rely on, stated on the list of
  names and entries in ascending order.  The lemmas the clients need are proved once inside
  the locale, and the splay tree is shown to be an instance.
\<close>

section \<open>The interface\<close>

locale name_tree =
  fixes lookup :: "'t \<Rightarrow> mach_port_t \<Rightarrow> 'e option \<times> 't"
    and insert :: "'t \<Rightarrow> mach_port_t \<Rightarrow> 'e \<Rightarrow> 't"
    and delete :: "'t \<Rightarrow> mach_port_t \<Rightarrow> 't"
    and split :: "'t \<Rightarrow> mach_port_t \<Rightarrow> 't \<Rightarrow> 't \<times> 't"
    and join :: "'t \<Rightarrow> 't \<Rightarrow> 't \<times> 't"
    and bounds :: "'t \<Rightarrow> mach_port_t \<Rightarrow> mach_port_t \<times> mach_port_t \<times> 't"
    and contents :: "'t \<Rightarrow> (mach_port_t \<times> 'e) list"
    and invar :: "'t \<Rightarrow> bool"
  assumes contents_ascending: "invar t \<Longrightarrow> ascending (contents t)"
    and lookup_law: "invar t \<Longrightarrow> lookup t n = (r, t') \<Longrightarrow>
      r = map_of (contents t) n \<and> contents t' = contents t \<and> invar t'"
    and insert_law: "invar t \<Longrightarrow> map_of (contents t) n = None \<Longrightarrow>
      contents (insert t n e) =
        filter (\<lambda>x. fst x < n) (contents t) @ (n, e) # filter (\<lambda>x. n < fst x) (contents t) \<and>
      invar (insert t n e)"
    and delete_law: "invar t \<Longrightarrow> map_of (contents t) n = Some e \<Longrightarrow>
      contents (delete t n) = filter (\<lambda>x. fst x \<noteq> n) (contents t) \<and> invar (delete t n)"
    and split_law: "invar t \<Longrightarrow> split t n s0 = (t', s) \<Longrightarrow>
      contents t' = filter (\<lambda>x. n \<le> fst x) (contents t) \<and>
      contents s = filter (\<lambda>x. fst x < n) (contents t) \<and> invar t' \<and> invar s"
    and join_law: "invar t \<Longrightarrow> invar s \<Longrightarrow> ascending (contents s @ contents t) \<Longrightarrow>
      join t s = (t', s') \<Longrightarrow> contents t' = contents s @ contents t \<and> invar t' \<and> contents s' = []"
    and bounds_law: "invar t \<Longrightarrow> bounds t n = (lo, hi, t') \<Longrightarrow>
      lo = lower_bound n (contents t) \<and> hi = upper_bound n (contents t) \<and>
      contents t' = contents t \<and> invar t'"
begin

lemma lookup_insert:
  assumes "invar t" and "map_of (contents t) n = None"
  shows "fst (lookup (insert t n e) m) = (if m = n then Some e else fst (lookup t m))"
proof -
  have asc: "ascending (contents t)" using assms(1) by (rule contents_ascending)
  have ins: "contents (insert t n e) =
      filter (\<lambda>x. fst x < n) (contents t) @ (n, e) # filter (\<lambda>x. n < fst x) (contents t)"
    and inv: "invar (insert t n e)" using insert_law [OF assms] by simp_all
  have "map_of (contents (insert t n e)) m = (if m = n then Some e else map_of (contents t) m)"
  proof (cases "m = n")
    case True
    then show ?thesis unfolding ins
      by (simp add: map_add_def map_of_eq_None_iff split: option.splits)
        (auto simp: map_of_eq_None_iff [symmetric] dest!: map_of_SomeD)
  next
    case False
    have "map_of (contents (insert t n e)) m =
        map_of (filter (\<lambda>x. fst x < n) (contents t) @ filter (\<lambda>x. n < fst x) (contents t)) m"
      unfolding ins using False by (simp add: map_add_def split: option.splits)
    also have "filter (\<lambda>x. fst x < n) (contents t) @ filter (\<lambda>x. n < fst x) (contents t) =
        contents t"
      using asc assms(2) by (simp add: ascending_cut)
    finally show ?thesis using False by simp
  qed
  then show ?thesis
    using lookup_law [OF inv] lookup_law [OF assms(1)] by (metis prod.collapse)
qed

lemma lookup_delete:
  assumes "invar t" and "map_of (contents t) n = Some e"
  shows "fst (lookup (delete t n) m) = (if m = n then None else fst (lookup t m))"
proof -
  have "map_of (contents (delete t n)) m = (if m = n then None else map_of (contents t) m)"
    using delete_law [OF assms] by (simp add: map_of_filter_neq)
  then show ?thesis
    using delete_law [OF assms] lookup_law [OF assms(1)] lookup_law [of "delete t n"]
    by (metis prod.collapse)
qed

text \<open>Splitting and joining again gives the tree back.\<close>

lemma join_split:
  assumes "invar t" and "split t n s0 = (big, small)" and "join big small = (t', s')"
  shows "contents t' = contents t" and "invar t'"
proof -
  have sp: "contents big = filter (\<lambda>x. n \<le> fst x) (contents t)"
    "contents small = filter (\<lambda>x. fst x < n) (contents t)" "invar big" "invar small"
    using split_law [OF assms(1,2)] by simp_all
  have asc: "ascending (contents t)" using assms(1) by (rule contents_ascending)
  then have "contents small @ contents big = contents t"
    by (simp add: sp ascending_split)
  with asc join_law [OF sp(3,4) _ assms(3)] show "contents t' = contents t" and "invar t'"
    by simp_all
qed

text \<open>
  The test for a collision: one of the bounds of a name has the name's index iff some name
  of the tree has.
\<close>

lemma bounds_collision:
  assumes "invar t" and "bounds t n = (lo, hi, t')"
    and valid: "\<And>m e. (m, e) \<in> set (contents t) \<Longrightarrow> MACH_PORT_VALID m"
  shows "(lo \<noteq> NOT 0 \<and> MACH_PORT_INDEX lo = MACH_PORT_INDEX n \<or>
      hi \<noteq> 0 \<and> MACH_PORT_INDEX hi = MACH_PORT_INDEX n) \<longleftrightarrow>
    (\<exists>x \<in> set (contents t). MACH_PORT_INDEX (fst x) = MACH_PORT_INDEX n)"
proof -
  have asc: "ascending (contents t)" using assms(1) by (rule contents_ascending)
  have v: "fst x \<noteq> 0 \<and> fst x \<noteq> NOT 0" if "x \<in> set (contents t)" for x
    using valid [of "fst x" "snd x"] that
    by (simp add: MACH_PORT_VALID_def MACH_PORT_NULL_def MACH_PORT_DEAD_def)
  have b: "lo = lower_bound n (contents t)" "hi = upper_bound n (contents t)"
    using bounds_law [OF assms(1,2)] by simp_all
  show ?thesis
    unfolding b using asc v by (rule bounds_index_iff)
qed

end

section \<open>The splay tree implements it\<close>

interpretation splay: name_tree ipc_splay_tree_lookup ipc_splay_tree_insert
  ipc_splay_tree_delete ipc_splay_tree_split ipc_splay_tree_join ipc_splay_tree_bounds
  ist_list ist_ok
proof (unfold_locales, goal_cases)
  case (1 t)
  then show ?case by (rule ist_ok_ascending)
next
  case (2 t n r t')
  show ?case using lookup_spec [OF 2] by simp
next
  case (3 t n e)
  show ?case using insert_spec [OF 3] by simp
next
  case (4 t n e)
  show ?case using delete_spec [OF 4] by simp
next
  case (5 t n s0 t' s)
  show ?case using split_spec [OF 5] by simp
next
  case (6 t s t' s')
  show ?case using join_spec [OF 6] by simp
next
  case (7 t n lo hi t')
  show ?case using bounds_spec [OF 7] by simp
qed

end
