(* ===== verification/Ipc_Table.thy ===== *)
theory Ipc_Table
  imports Mach_Prelude
begin

text \<open>
  The arrays of table sizes of \<^verbatim>\<open>src/kernel/ipc/ipc_table.c\<close>.  A space's capability table and a
  port's table of dead-name requests grow through the sizes of such an array.  The array is
  the list of its \<^verbatim>\<open>its_size\<close> fields; \<open>page_size\<close> is the kernel variable \<^verbatim>\<open>page_size\<close>, which the
  machine-dependent startup code sets to a power of two.  The sizes are numbers; the bounds
  proved below show that no sum or shift of the filling loop leaves 32 bits.
\<close>

section \<open>Filling an array of sizes\<close>

text \<open>
  The first loop: powers of two up to the page size.  The variable \<^verbatim>\<open>size\<close> is \<open>2 ^ k\<close>; the
  subscript \<^verbatim>\<open>index\<close> is the length of what has been filled.
\<close>

function fill_powers ::
    "nat \<Rightarrow> nat \<Rightarrow> nat \<Rightarrow> nat \<Rightarrow> nat \<Rightarrow> nat list \<Rightarrow> nat \<times> nat list" where
  "fill_powers page_size num minsize elemsize k its =
    (if length its < num \<and> 2 ^ k < page_size
     then fill_powers page_size num minsize elemsize (Suc k)
            (if 2 ^ k \<ge> minsize then its @ [2 ^ k div elemsize] else its)
     else (2 ^ k, its))"
  by pat_completeness auto
termination
  by (relation "measure (\<lambda>(page_size, num, minsize, elemsize, k, its). page_size - 2 ^ k)")
    (auto simp: diff_less_mono2)

text \<open>The inner loop of the second part: \<^verbatim>\<open>period\<close> counts from 0 to 15, here down from 15.\<close>

fun fill_period ::
    "nat \<Rightarrow> nat \<Rightarrow> nat \<Rightarrow> nat \<Rightarrow> nat \<Rightarrow> nat \<times> nat list \<Rightarrow> nat \<times> nat list" where
  "fill_period 0 num minsize elemsize incrsize (sz, its) = (sz, its)"
| "fill_period (Suc p) num minsize elemsize incrsize (sz, its) =
    (if length its < num
     then fill_period p num minsize elemsize incrsize
            (sz + incrsize, if sz \<ge> minsize then its @ [sz div elemsize] else its)
     else (sz, its))"

lemma fill_period_progress:
  "fill_period p num minsize elemsize incrsize (sz, its) = (sz', its') \<Longrightarrow>
   length its \<le> length its' \<and> sz \<le> sz' \<and>
   (0 < p \<and> length its < num \<and> 0 < incrsize \<longrightarrow>
     (if minsize \<le> sz then length its < length its' else sz < sz'))"
  by (induction p num minsize elemsize incrsize "(sz, its)" arbitrary: sz its
      rule: fill_period.induct)
    (fastforce split: if_splits)+

text \<open>
  The outer loop: increments of a page, then two pages, up to eight.  It starts with
  \<^verbatim>\<open>incrsize\<close> = \<^verbatim>\<open>PAGE_SIZE\<close>, which is positive.
\<close>

function fill_pages ::
    "nat \<Rightarrow> nat \<Rightarrow> nat \<Rightarrow> nat \<Rightarrow> nat \<Rightarrow> nat \<times> nat list \<Rightarrow> nat list" where
  "fill_pages page_size num minsize elemsize incrsize (sz, its) =
    (if length its < num \<and> 0 < incrsize
     then fill_pages page_size num minsize elemsize
            (if incrsize < page_size * 8 then incrsize * 2 else incrsize)
            (fill_period 15 num minsize elemsize incrsize (sz, its))
     else its)"
  by pat_completeness auto
termination
proof (relation "measure (\<lambda>(page_size, num, minsize, elemsize, incrsize, (sz, its)).
    (num - length its) + (minsize - sz))", goal_cases)
  case (2 page_size num minsize elemsize incrsize sz its)
  obtain sz' its' where f: "fill_period 15 num minsize elemsize incrsize (sz, its) = (sz', its')"
    by fastforce
  from fill_period_progress [OF this] 2 f show ?case by (auto split: if_splits)
qed simp

definition ipc_table_fill :: "nat \<Rightarrow> nat \<Rightarrow> nat \<Rightarrow> nat \<Rightarrow> nat list" where
  "ipc_table_fill page_size num mn elemsize =
    fill_pages page_size num (mn * elemsize) elemsize page_size
      (fill_powers page_size num (mn * elemsize) elemsize 0 [])"

definition sizeof_ipc_entry :: nat where "sizeof_ipc_entry = 16"

definition sizeof_ipc_tree_entry :: nat where "sizeof_ipc_tree_entry = 32"

definition sizeof_ipc_port_request :: nat where "sizeof_ipc_port_request = 8"

definition ipc_table_entries_size :: nat where "ipc_table_entries_size = 512"

definition ipc_table_dnrequests_size :: nat where "ipc_table_dnrequests_size = 64"

text \<open>\<^verbatim>\<open>ipc_table_init\<close> sets up both arrays: the entries, and the dead-name requests.\<close>

definition ipc_table_init :: "nat \<Rightarrow> nat list \<times> nat list" where
  "ipc_table_init page_size =
    (let entries = ipc_table_fill page_size (ipc_table_entries_size - 1) 4 sizeof_ipc_entry;
         dnrequests =
           ipc_table_fill page_size (ipc_table_dnrequests_size - 1) 2 sizeof_ipc_port_request
     in (entries @ [entries ! (ipc_table_entries_size - 2)], dnrequests @ [0]))"

section \<open>The contract of the arrays\<close>

text \<open>
  What \<^verbatim>\<open>ipc_table.h\<close> requires of the array of entry sizes: it ends with two equal elements,
  the others increase strictly, and the largest is at most the index of the dead name.  The
  first size is positive because every table has the head of the free list.
\<close>

locale entry_sizes =
  fixes its :: "nat list"
  assumes two: "2 \<le> length its"
    and last_two: "its ! (length its - 1) = its ! (length its - 2)"
    and increasing: "i < j \<Longrightarrow> j < length its - 1 \<Longrightarrow> its ! i < its ! j"
    and largest: "i < length its \<Longrightarrow> its ! i \<le> MACH_PORT_INDEX MACH_PORT_DEAD"
    and first: "0 < its ! 0"
begin

lemma monotone: "i \<le> j \<Longrightarrow> j < length its \<Longrightarrow> its ! i \<le> its ! j"
proof (cases "j = length its - 1")
  case True
  assume "i \<le> j" "j < length its"
  then show ?thesis
    using two last_two increasing [of i "length its - 2"] True
    by (cases "i = length its - 1 \<or> i = length its - 2") (auto simp: less_imp_le)
next
  case False
  assume ij: "i \<le> j" "j < length its"
  with False have "j < length its - 1" by linarith
  with ij show ?thesis using increasing [of i j] by (cases "i = j") auto
qed

lemma positive: "i < length its \<Longrightarrow> 0 < its ! i"
  using first monotone [of 0 i] by auto

lemma fits: "i < length its \<Longrightarrow> its ! i < 2 ^ 24"
  using largest [of i] MACH_PORT_INDEX_bound [of MACH_PORT_DEAD] by simp

text \<open>The last size is the only one with an equal predecessor: the test for the maximum.\<close>

lemma at_maximum:
  assumes "0 < i" and "i < length its"
  shows "its ! (i - 1) = its ! i \<longleftrightarrow> i = length its - 1"
proof (cases "i = length its - 1")
  case True
  with last_two show ?thesis by (simp add: numeral_2_eq_2)
next
  case False
  with assms have "i < length its - 1" by linarith
  with assms increasing [of "i - 1" i] False show ?thesis by simp
qed

end

section \<open>The arrays the kernel sets up\<close>

text \<open>
  The loop invariant: the sizes filled so far increase, each is at least the minimum, and
  each times the element size lies below the current \<^verbatim>\<open>size\<close>.
\<close>

definition fill_inv :: "nat \<Rightarrow> nat \<Rightarrow> nat \<Rightarrow> nat list \<Rightarrow> bool" where
  "fill_inv mn elemsize sz its \<longleftrightarrow>
    sorted_wrt (<) its \<and> (\<forall>x \<in> set its. mn \<le> x \<and> x * elemsize < sz)"

lemma fill_inv_step:
  assumes "fill_inv mn elemsize sz its" and "elemsize dvd sz" and "0 < elemsize"
    and "mn * elemsize \<le> sz" and "sz < sz'"
  shows "fill_inv mn elemsize sz' (its @ [sz div elemsize])"
proof -
  obtain y where sz: "sz = y * elemsize" using assms(2) by (metis dvd_div_mult_self)
  have "x * elemsize < sz'" if "x < y" for x
    using that assms(3,5) unfolding sz by (meson less_trans mult_less_mono1)
  with sz assms show ?thesis by (auto simp: fill_inv_def sorted_wrt_append)
qed

lemma fill_inv_mono: "fill_inv mn elemsize sz its \<Longrightarrow> sz \<le> sz' \<Longrightarrow> fill_inv mn elemsize sz' its"
  by (auto simp: fill_inv_def)

lemma fill_powers_inv:
  assumes "fill_powers (2 ^ p) num (mn * 2 ^ m) (2 ^ m) k its = (sz, its')" and "0 < mn"
    and "fill_inv mn (2 ^ m) (2 ^ k) its" and "k \<le> p" and "length its \<le> num"
  shows "fill_inv mn (2 ^ m) sz its' \<and> length its' \<le> num \<and> sz \<le> 2 ^ p \<and>
    (length its' = num \<or> sz = 2 ^ p)"
  using assms
proof (induction "2 ^ p :: nat" num "mn * 2 ^ m" "2 ^ m :: nat" k its rule: fill_powers.induct)
  case (1 num k its)
  show ?case
  proof (cases "length its < num \<and> k < p")
    case True
    have step: "fill_inv mn (2 ^ m) (2 ^ Suc k) (if 2 ^ k \<ge> mn * 2 ^ m then its @ [2 ^ k div 2 ^ m] else its)"
    proof (cases "mn * 2 ^ m \<le> 2 ^ k")
      case big: True
      then have "(2::nat) ^ m \<le> 2 ^ k" using 1(3) by (metis le_trans mult_1 mult_le_mono1 Suc_leI One_nat_def)
      then have "(2::nat) ^ m dvd 2 ^ k" by (simp add: le_imp_power_dvd)
      with big 1(4) show ?thesis by (simp add: fill_inv_step)
    next
      case False
      with 1(4) show ?thesis by (auto intro: fill_inv_mono)
    qed
    from True 1 step show ?thesis
      by (simp add: fill_powers.simps [of "2 ^ p" num "mn * 2 ^ m" "2 ^ m" k its] split: if_splits)
  next
    case False
    with 1 show ?thesis
      by (auto simp: fill_powers.simps [of "2 ^ p" num "mn * 2 ^ m" "2 ^ m" k its])
  qed
qed

declare fill_powers.simps [simp del] fill_pages.simps [simp del]

text \<open>In the second part every size is a multiple of the element size and of the page size.\<close>

definition page_inv :: "nat \<Rightarrow> nat \<Rightarrow> nat \<Rightarrow> nat \<Rightarrow> nat \<Rightarrow> nat list \<Rightarrow> bool" where
  "page_inv page_size num mn elemsize sz its \<longleftrightarrow>
    fill_inv mn elemsize sz its \<and> length its \<le> num \<and>
    (length its < num \<longrightarrow> elemsize dvd sz \<and> mn * elemsize \<le> sz) \<and>
    sz \<le> page_size * (1 + 8 * length its)"

lemma fill_period_inv:
  assumes "page_inv page_size num mn elemsize sz its" and "elemsize dvd incrsize"
    and "0 < incrsize" and "incrsize \<le> page_size * 8" and "0 < elemsize"
    and "fill_period p num (mn * elemsize) elemsize incrsize (sz, its) = (sz', its')"
  shows "page_inv page_size num mn elemsize sz' its'"
  using assms
proof (induction p arbitrary: sz its)
  case (Suc p)
  show ?case
  proof (cases "length its < num")
    case True
    with Suc.prems(1) have d: "elemsize dvd sz" "mn * elemsize \<le> sz"
      by (simp_all add: page_inv_def)
    have "page_inv page_size num mn elemsize (sz + incrsize) (its @ [sz div elemsize])"
      using True d Suc.prems fill_inv_step [of mn elemsize sz its "sz + incrsize"]
      by (auto simp: page_inv_def algebra_simps)
    from Suc.IH [OF this] Suc.prems True d show ?thesis by simp
  qed (use Suc.prems in simp)
qed simp

lemma fill_pages_inv:
  assumes "page_inv page_size num mn elemsize sz its" and "elemsize dvd incrsize"
    and "0 < incrsize" and "incrsize \<le> page_size * 8" and "0 < elemsize"
    and "\<exists>j \<le> 3. incrsize = page_size * 2 ^ j"
  shows "\<exists>sz'. page_inv page_size num mn elemsize sz'
      (fill_pages page_size num (mn * elemsize) elemsize incrsize (sz, its)) \<and>
    length (fill_pages page_size num (mn * elemsize) elemsize incrsize (sz, its)) = num"
  using assms
proof (induction page_size num "mn * elemsize" elemsize incrsize "(sz, its)" arbitrary: sz its
    rule: fill_pages.induct)
  case (1 page_size num elemsize incrsize sz its)
  obtain sz' its' where f: "fill_period 15 num (mn * elemsize) elemsize incrsize (sz, its) = (sz', its')"
    by fastforce
  obtain j where j: "j \<le> 3" "incrsize = page_size * 2 ^ j" using 1(7) by blast
  have inc1: "(if incrsize < page_size * 8 then incrsize * 2 else incrsize) =
      page_size * 2 ^ (if j = 3 then 3 else Suc j)"
  proof (cases "j = 3")
    case False
    with j have "j < 3" by simp
    then have "(2::nat) ^ j < 2 ^ 3" by (rule power_strict_increasing) simp
    with j 1(4) False show ?thesis by simp
  qed (simp add: j)
  have "(if j = 3 then 3 else Suc j) \<le> 3" using j(1) by simp
  then have inc2: "(2::nat) ^ (if j = 3 then 3 else Suc j) \<le> 2 ^ 3" by (rule power_increasing) simp
  have inc: "(if incrsize < page_size * 8 then incrsize * 2 else incrsize) \<le> page_size * 8"
    "\<exists>j \<le> 3. (if incrsize < page_size * 8 then incrsize * 2 else incrsize) = page_size * 2 ^ j"
    using inc2 j(1) unfolding inc1 by (simp, intro exI [of _ "if j = 3 then 3 else Suc j"], simp)
  show ?case
  proof (cases "length its < num")
    case True
    have "elemsize dvd (if incrsize < page_size * 8 then incrsize * 2 else incrsize)"
      "0 < (if incrsize < page_size * 8 then incrsize * 2 else incrsize)"
      using 1(3,4) by auto
    from 1(1) [OF conjI [OF True 1(4)] f fill_period_inv [OF 1(2-6) f] this inc(1) 1(6) inc(2)]
    show ?thesis
      by (subst (1 2) fill_pages.simps) (simp only: True f 1(4) if_True simp_thms)
  next
    case False
    with 1(2) show ?thesis
      by (subst (1 2) fill_pages.simps) (auto simp: page_inv_def)
  qed
qed


lemma ipc_table_fill_sizes:
  assumes "m \<le> p" and "0 < mn" and "mn * 2 ^ m \<le> 2 ^ p"
    and its_def: "its = ipc_table_fill (2 ^ p) num mn (2 ^ m)"
  shows "length its = num" and "sorted_wrt (<) its"
    and "x \<in> set its \<Longrightarrow> mn \<le> x \<and> x * 2 ^ m < 2 ^ p * (1 + 8 * num)"
proof -
  obtain sz its0 where f: "fill_powers (2 ^ p) num (mn * 2 ^ m) (2 ^ m) 0 [] = (sz, its0)"
    by fastforce
  have powers: "fill_inv mn (2 ^ m) sz its0 \<and> length its0 \<le> num \<and> sz \<le> 2 ^ p \<and>
      (length its0 = num \<or> sz = 2 ^ p)"
    using fill_powers_inv [OF f assms(2)] by (simp add: fill_inv_def)
  have "(2::nat) ^ m dvd 2 ^ p" using assms(1) by (rule le_imp_power_dvd)
  obtain sz' where "page_inv (2 ^ p) num mn (2 ^ m) sz' its" and len: "length its = num"
  proof (cases "length its0 = num")
    case True
    have "its = its0"
      unfolding its_def ipc_table_fill_def f by (subst fill_pages.simps) (simp add: True)
    moreover have "sz \<le> 2 ^ p * (1 + 8 * length its0)"
      using powers by (simp add: le_trans [of sz "2 ^ p"])
    ultimately show thesis using powers that [of sz] True by (simp add: page_inv_def)
  next
    case False
    with powers assms(3) \<open>2 ^ m dvd 2 ^ p\<close> have "page_inv (2 ^ p) num mn (2 ^ m) sz its0"
      by (auto simp: page_inv_def)
    then have "\<exists>sz'. page_inv (2 ^ p) num mn (2 ^ m) sz' its \<and> length its = num"
      unfolding its_def ipc_table_fill_def f
      using \<open>2 ^ m dvd 2 ^ p\<close> by (intro fill_pages_inv) (auto intro: exI [of _ 0])
    with that show thesis by blast
  qed
  then show "length its = num" and "sorted_wrt (<) its"
    and "x \<in> set its \<Longrightarrow> mn \<le> x \<and> x * 2 ^ m < 2 ^ p * (1 + 8 * num)"
    by (auto simp: page_inv_def fill_inv_def)
qed


lemma MACH_PORT_INDEX_DEAD: "MACH_PORT_INDEX MACH_PORT_DEAD = 2 ^ 24 - 1"
proof -
  have "(NOT 0 :: 32 word) = 0xffffffff" by simp
  then show ?thesis unfolding MACH_PORT_INDEX_div MACH_PORT_DEAD_def by (simp only:) simp
qed

text \<open>For every page size from 64 bytes to 64 kilobytes, the arrays meet their contracts.\<close>

lemma entry_sizes_init:
  assumes "6 \<le> p" and "p \<le> 16"
  shows "entry_sizes (fst (ipc_table_init (2 ^ p)))"
proof -
  define its where "its = ipc_table_fill (2 ^ p) 511 4 (2 ^ 4)"
  have "(2::nat) ^ 6 \<le> 2 ^ p" "(2::nat) ^ p \<le> 2 ^ 16"
    using power_increasing [OF assms(1), of "2::nat"] power_increasing [OF assms(2), of "2::nat"]
    by simp_all
  note sizes = ipc_table_fill_sizes [OF _ _ _ its_def]
  have len: "length its = 511" and asc: "sorted_wrt (<) its"
    and el: "\<And>x. x \<in> set its \<Longrightarrow> 4 \<le> x \<and> x * 16 < 2 ^ p * 4089"
    using sizes assms(1) \<open>2 ^ 6 \<le> 2 ^ p\<close> by simp_all
  have eq: "fst (ipc_table_init (2 ^ p)) = its @ [its ! 510]"
    by (simp add: ipc_table_init_def ipc_table_entries_size_def sizeof_ipc_entry_def its_def Let_def)
  have bound: "x \<le> 2 ^ 24 - 1" if "x \<in> set its" for x
  proof -
    have "x * 16 < 2 ^ 16 * 4089"
      using el [OF that] \<open>2 ^ p \<le> 2 ^ 16\<close> by (meson less_le_trans mult_le_mono1)
    then show ?thesis by simp
  qed
  show ?thesis
    unfolding eq
  proof
    fix i assume "i < length (its @ [its ! 510])"
    then have "(its @ [its ! 510]) ! i \<in> set its"
      by (cases "i = 511") (auto simp: len nth_append)
    then show "(its @ [its ! 510]) ! i \<le> MACH_PORT_INDEX MACH_PORT_DEAD"
      unfolding MACH_PORT_INDEX_DEAD by (rule bound)
  next
    show "0 < (its @ [its ! 510]) ! 0"
      using el [of "its ! 0"] by (simp add: nth_append len)
  qed (use asc in \<open>auto simp: len nth_append sorted_wrt_nth_less\<close>)
qed

lemma dnrequest_sizes_init:
  assumes "4 \<le> p" and "its = snd (ipc_table_init (2 ^ p))"
  shows "length its = 64" and "its ! 63 = 0" and "i < j \<Longrightarrow> j < 63 \<Longrightarrow> its ! i < its ! j"
    and "i < 63 \<Longrightarrow> 2 \<le> its ! i"
proof -
  define ds where "ds = ipc_table_fill (2 ^ p) 63 2 (2 ^ 3)"
  have "(2::nat) ^ 4 \<le> 2 ^ p" using assms(1) by (rule power_increasing) simp
  note sizes = ipc_table_fill_sizes [OF _ _ _ ds_def]
  have ds: "length ds = 63" "sorted_wrt (<) ds" "\<And>x. x \<in> set ds \<Longrightarrow> 2 \<le> x"
    using sizes assms(1) \<open>2 ^ 4 \<le> 2 ^ p\<close> by simp_all
  have "its = ds @ [0]"
    by (simp add: assms(2) ipc_table_init_def ipc_table_dnrequests_size_def
        sizeof_ipc_port_request_def ds_def Let_def)
  then show "length its = 64" and "its ! 63 = 0" and "i < j \<Longrightarrow> j < 63 \<Longrightarrow> its ! i < its ! j"
    and "i < 63 \<Longrightarrow> 2 \<le> its ! i"
    using ds by (auto simp: nth_append sorted_wrt_nth_less)
qed

interpretation sizes4k: entry_sizes "fst (ipc_table_init 4096)"
  using entry_sizes_init [of 12] by simp

end
