(* ===== verification/Ipc_Types.thy ===== *)
theory Ipc_Types
  imports Name_Tree Ipc_Table
begin

text \<open>
  The data structures of capability spaces: \<^verbatim>\<open>struct ipc_entry\<close> of
  \<^verbatim>\<open>src/kernel/ipc/ipc_entry.h\<close>, \<^verbatim>\<open>struct ipc_space\<close> of \<^verbatim>\<open>src/kernel/ipc/ipc_space.h\<close> and the
  bits of an entry.

  Objects (ports and port sets) and spaces are known by their addresses, which the reverse
  hash functions use as numbers.  The two unions of an entry are kept: \<^verbatim>\<open>index.next\<close> and
  \<^verbatim>\<open>index.request\<close> are one field, \<open>ie_request\<close>, with \<open>ie_next\<close> as another name for it; of
  \<^verbatim>\<open>hash\<close> only the table member is a field of the record, because the \<^verbatim>\<open>tree\<close> member links the
  buckets of the global hash table, which are lists here.  Locks are not part of the state:
  an operation is the sequence of what the code does while it holds them.
\<close>

section \<open>Entries\<close>

type_synonym ipc_object_t = "32 word"
type_synonym space_id = "32 word"

definition IO_NULL :: ipc_object_t where "IO_NULL = 0"

definition IO_DEAD :: ipc_object_t where "IO_DEAD = NOT 0"

record ipc_entry =
  ie_bits :: ipc_entry_bits_t
  ie_object :: ipc_object_t
  ie_request :: nat
  ie_index :: nat

abbreviation ie_next :: "ipc_entry \<Rightarrow> nat" where
  "ie_next \<equiv> ie_request"

definition IE_BITS_UREFS_MASK :: ipc_entry_bits_t where "IE_BITS_UREFS_MASK = 0x0000ffff"
definition IE_BITS_TYPE_MASK :: ipc_entry_bits_t where "IE_BITS_TYPE_MASK = 0x001f0000"
definition IE_BITS_MAREQUEST :: ipc_entry_bits_t where "IE_BITS_MAREQUEST = 0x00200000"
definition IE_BITS_COMPAT :: ipc_entry_bits_t where "IE_BITS_COMPAT = 0x00400000"
definition IE_BITS_COLLISION :: ipc_entry_bits_t where "IE_BITS_COLLISION = 0x00800000"
definition IE_BITS_GEN_MASK :: ipc_entry_bits_t where "IE_BITS_GEN_MASK = 0xff000000"
definition IE_BITS_GEN_ONE :: ipc_entry_bits_t where "IE_BITS_GEN_ONE = 0x01000000"
definition IE_BITS_RIGHT_MASK :: ipc_entry_bits_t where "IE_BITS_RIGHT_MASK = 0x007fffff"

definition IE_BITS_UREFS :: "ipc_entry_bits_t \<Rightarrow> ipc_entry_bits_t" where
  "IE_BITS_UREFS bits = (bits AND IE_BITS_UREFS_MASK)"

definition IE_BITS_TYPE :: "ipc_entry_bits_t \<Rightarrow> ipc_entry_bits_t" where
  "IE_BITS_TYPE bits = (bits AND IE_BITS_TYPE_MASK)"

definition IE_BITS_GEN :: "ipc_entry_bits_t \<Rightarrow> ipc_entry_bits_t" where
  "IE_BITS_GEN bits = (bits AND IE_BITS_GEN_MASK)"

definition collides :: "ipc_entry_bits_t \<Rightarrow> bool" where
  "collides bits \<longleftrightarrow> bits AND IE_BITS_COLLISION \<noteq> 0"

definition MACH_PORT_MAKEB :: "nat \<Rightarrow> ipc_entry_bits_t \<Rightarrow> mach_port_t" where
  "MACH_PORT_MAKEB index bits = MACH_PORT_MAKE index (IE_BITS_GEN bits)"

section \<open>Types of capabilities\<close>

definition MACH_PORT_TYPE_NONE :: "32 word" where "MACH_PORT_TYPE_NONE = 0"
definition MACH_PORT_TYPE_SEND :: "32 word" where "MACH_PORT_TYPE_SEND = push_bit 16 1"
definition MACH_PORT_TYPE_RECEIVE :: "32 word" where "MACH_PORT_TYPE_RECEIVE = push_bit 17 1"
definition MACH_PORT_TYPE_SEND_ONCE :: "32 word" where "MACH_PORT_TYPE_SEND_ONCE = push_bit 18 1"
definition MACH_PORT_TYPE_PORT_SET :: "32 word" where "MACH_PORT_TYPE_PORT_SET = push_bit 19 1"
definition MACH_PORT_TYPE_DEAD_NAME :: "32 word" where "MACH_PORT_TYPE_DEAD_NAME = push_bit 20 1"

section \<open>Spaces\<close>

text \<open>
  \<^verbatim>\<open>is_table_next\<close> is the subscript of the size it points to in \<^verbatim>\<open>ipc_table_entries\<close>.
\<close>

record ipc_space =
  is_references :: nat
  is_active :: bool
  is_growing :: bool
  is_table :: "ipc_entry list"
  is_table_size :: nat
  is_table_next :: nat
  is_tree :: "ipc_entry ipc_splay_tree"
  is_tree_total :: nat
  is_tree_small :: nat
  is_tree_hash :: nat
  is_notify :: ipc_object_t

section \<open>The fields of the bits of an entry\<close>

lemmas IE_BITS_masks = IE_BITS_UREFS_MASK_def IE_BITS_TYPE_MASK_def IE_BITS_MAREQUEST_def
  IE_BITS_COMPAT_def IE_BITS_COLLISION_def IE_BITS_GEN_MASK_def IE_BITS_GEN_ONE_def
  IE_BITS_RIGHT_MASK_def

lemmas IE_BITS_fields = IE_BITS_UREFS_def IE_BITS_TYPE_def IE_BITS_GEN_def

lemma mask_OR: "(a OR b) AND m = (a AND m) OR (b AND m)" for a b m :: "32 word"
  by (rule bit.conj_disj_distrib2)

text \<open>Setting and clearing the collision bit changes no other field.\<close>

lemma collision_fields [entry_simps]:
  "IE_BITS_TYPE (bits OR IE_BITS_COLLISION) = IE_BITS_TYPE bits"
  "IE_BITS_GEN (bits OR IE_BITS_COLLISION) = IE_BITS_GEN bits"
  "(bits OR IE_BITS_COLLISION) AND IE_BITS_RIGHT_MASK = bits AND IE_BITS_RIGHT_MASK"
  "collides (bits OR IE_BITS_COLLISION)"
  "IE_BITS_TYPE (bits AND NOT IE_BITS_COLLISION) = IE_BITS_TYPE bits"
  "IE_BITS_GEN (bits AND NOT IE_BITS_COLLISION) = IE_BITS_GEN bits"
  "(bits AND NOT IE_BITS_COLLISION) AND IE_BITS_RIGHT_MASK = bits AND IE_BITS_RIGHT_MASK"
  "\<not> collides (bits AND NOT IE_BITS_COLLISION)"
  by (simp_all add: IE_BITS_fields IE_BITS_masks collides_def mask_OR and.assoc)

lemma gen_mask_collision [entry_simps]: "IE_BITS_GEN_MASK AND NOT IE_BITS_COLLISION = IE_BITS_GEN_MASK"
  by (simp add: IE_BITS_masks)

text \<open>Freeing an entry keeps only its generation.\<close>

lemma gen_fields [entry_simps]:
  "IE_BITS_TYPE (bits AND IE_BITS_GEN_MASK) = 0"
  "IE_BITS_GEN (bits AND IE_BITS_GEN_MASK) = bits AND IE_BITS_GEN_MASK"
  "(bits AND IE_BITS_GEN_MASK) AND IE_BITS_RIGHT_MASK = 0"
  "\<not> collides (bits AND IE_BITS_GEN_MASK)"
  by (simp_all add: IE_BITS_fields IE_BITS_masks collides_def and.assoc)

lemma GEN_eq: "IE_BITS_GEN bits = bits AND IE_BITS_GEN_MASK"
  by (simp add: IE_BITS_GEN_def)

lemma gen_only_fields:
  assumes "bits = IE_BITS_GEN bits"
  shows "IE_BITS_TYPE bits = 0" and "bits AND IE_BITS_RIGHT_MASK = 0" and "\<not> collides bits"
  using gen_fields [of bits] assms by (simp_all add: IE_BITS_GEN_def)

text \<open>The bits of a tree entry and the generation of its name are put together.\<close>

lemma MACH_PORT_GEN_GEN [entry_simps]: "IE_BITS_GEN (MACH_PORT_GEN name) = MACH_PORT_GEN name"
  using MACH_PORT_GEN_mask by (simp add: IE_BITS_GEN_def IE_BITS_GEN_MASK_def)

lemma MACH_PORT_GEN_fields [entry_simps]:
  "IE_BITS_TYPE (MACH_PORT_GEN name) = 0" "MACH_PORT_GEN name AND IE_BITS_RIGHT_MASK = 0"
  "\<not> collides (MACH_PORT_GEN name)"
  using gen_only_fields [OF MACH_PORT_GEN_GEN [symmetric, of name]] by simp_all

lemma right_bits_fields:
  assumes "bits AND NOT IE_BITS_RIGHT_MASK = 0"
  shows "IE_BITS_GEN bits = 0" and "\<not> collides bits" and "bits AND IE_BITS_RIGHT_MASK = bits"
proof -
  show r: "bits AND IE_BITS_RIGHT_MASK = bits"
    using assms by (metis bit.conj_cancel_right bit.conj_disj_distrib bit.disj_cancel_right and.right_neutral or.right_neutral)
  have "IE_BITS_GEN (bits AND IE_BITS_RIGHT_MASK) = 0" "\<not> collides (bits AND IE_BITS_RIGHT_MASK)"
    by (simp_all add: IE_BITS_fields IE_BITS_masks collides_def and.assoc)
  with r show "IE_BITS_GEN bits = 0" and "\<not> collides bits" by simp_all
qed

lemma moved_bits_fields:
  assumes "bits AND NOT IE_BITS_RIGHT_MASK = 0"
  shows "IE_BITS_TYPE (bits OR MACH_PORT_GEN name) = IE_BITS_TYPE bits"
    and "IE_BITS_GEN (bits OR MACH_PORT_GEN name) = MACH_PORT_GEN name"
    and "(bits OR MACH_PORT_GEN name) AND IE_BITS_RIGHT_MASK = bits"
    and "\<not> collides (bits OR MACH_PORT_GEN name)"
  using right_bits_fields [OF assms] MACH_PORT_GEN_fields [of name] MACH_PORT_GEN_GEN [of name]
  unfolding IE_BITS_fields collides_def by (simp_all add: mask_OR)

text \<open>Incrementing the generation of a free entry stays within the generation's field.\<close>

lemma gen_increment:
  assumes "bits = IE_BITS_GEN bits"
  shows "IE_BITS_GEN (bits + IE_BITS_GEN_ONE) = bits + IE_BITS_GEN_ONE"
proof -
  have m: "IE_BITS_GEN_MASK = push_bit 24 (mask 8)"
    by (simp add: IE_BITS_GEN_MASK_def mask_eq_exp_minus_1 push_bit_eq_mult)
  have gen: "IE_BITS_GEN b = push_bit 24 (drop_bit 24 b)" for b
    unfolding IE_BITS_GEN_def m by (rule bit_word_eqI) (auto simp: bit_simps dest: bit_imp_le_length)
  have one: "IE_BITS_GEN_ONE = push_bit 24 1" by (simp add: IE_BITS_GEN_ONE_def push_bit_eq_mult)
  have "bits + IE_BITS_GEN_ONE = push_bit 24 (drop_bit 24 bits + 1)"
    using assms unfolding gen [of bits] one push_bit_add by simp
  moreover have "IE_BITS_GEN (push_bit 24 x) = push_bit 24 x" for x
    unfolding IE_BITS_GEN_def m by (rule bit_word_eqI) (auto simp: bit_simps dest: bit_imp_le_length)
  ultimately show ?thesis by simp
qed

lemma gen_increment_neq: "bits + IE_BITS_GEN_ONE \<noteq> bits"
  by (simp add: IE_BITS_GEN_ONE_def)

lemma MAKEB_INDEX_GEN:
  assumes "i < 2 ^ 24"
  shows "MACH_PORT_INDEX (MACH_PORT_MAKEB i bits) = i"
    and "MACH_PORT_GEN (MACH_PORT_MAKEB i bits) = IE_BITS_GEN bits"
  using assms by (simp_all add: MACH_PORT_MAKEB_def MACH_PORT_INDEX_MAKE MACH_PORT_GEN_MAKE
      IE_BITS_GEN_def IE_BITS_GEN_MASK_def and.assoc)

end
