(* ===== verification/Ipc_Hash.thy ===== *)
theory Ipc_Hash
  imports Ipc_Types
begin

text \<open>
  The reverse hash tables of \<^verbatim>\<open>src/kernel/ipc/ipc_hash.c\<close>, which find the name of an object in a
  space.  The local table of a space uses the \<^verbatim>\<open>ie_index\<close> fields of its capability table: open
  addressing with linear probing, and a deletion that moves displaced entries up.  The
  global table holds the entries of all the splay trees in buckets with move-to-front.

  The probing loops of the C code have no bound.  The model's loops take the table's size as
  fuel and have the result \<open>None\<close> when it runs out: a loop that has passed every slot is
  back where it started and would never stop.  The lemmas show that a well-formed table is
  never that full.
\<close>

section \<open>The local table\<close>

definition IH_LOCAL_HASH :: "ipc_object_t \<Rightarrow> nat \<Rightarrow> nat" where
  "IH_LOCAL_HASH obj sz = unat (drop_bit 6 obj) mod sz"

text \<open>\<^verbatim>\<open>if (++hindex == size) hindex = 0\<close>\<close>

definition next_slot :: "nat \<Rightarrow> nat \<Rightarrow> nat" where
  "next_slot sz hindex = (if Suc hindex = sz then 0 else Suc hindex)"

fun local_lookup_loop :: "nat \<Rightarrow> ipc_entry list \<Rightarrow> nat \<Rightarrow> ipc_object_t \<Rightarrow> nat \<Rightarrow> nat option option"
where
  "local_lookup_loop 0 table sz obj hindex = None"
| "local_lookup_loop (Suc fuel) table sz obj hindex =
    (let index = ie_index (table ! hindex)
     in if index = 0 then Some None
        else if ie_object (table ! index) = obj then Some (Some index)
        else local_lookup_loop fuel table sz obj (next_slot sz hindex))"

text \<open>The result is the subscript of the entry; its name is made from its bits.\<close>

definition ipc_hash_local_lookup ::
    "ipc_space \<Rightarrow> ipc_object_t \<Rightarrow> (mach_port_t \<times> nat) option option" where
  "ipc_hash_local_lookup space obj =
    (let table = is_table space; sz = is_table_size space
     in map_option (map_option (\<lambda>index. (MACH_PORT_MAKEB index (ie_bits (table ! index)), index)))
          (local_lookup_loop sz table sz obj (IH_LOCAL_HASH obj sz)))"

fun local_free_loop :: "nat \<Rightarrow> ipc_entry list \<Rightarrow> nat \<Rightarrow> nat \<Rightarrow> nat option" where
  "local_free_loop 0 table sz hindex = None"
| "local_free_loop (Suc fuel) table sz hindex =
    (if ie_index (table ! hindex) \<noteq> 0
     then local_free_loop fuel table sz (next_slot sz hindex) else Some hindex)"

definition set_ie_index :: "ipc_entry list \<Rightarrow> nat \<Rightarrow> nat \<Rightarrow> ipc_entry list" where
  "set_ie_index table hindex index = table[hindex := (table ! hindex)\<lparr>ie_index := index\<rparr>]"

definition local_insert :: "ipc_entry list \<Rightarrow> nat \<Rightarrow> ipc_object_t \<Rightarrow> nat \<Rightarrow> ipc_entry list option" where
  "local_insert table sz obj index =
    map_option (\<lambda>hindex. set_ie_index table hindex index)
      (local_free_loop sz table sz (IH_LOCAL_HASH obj sz))"

definition ipc_hash_local_insert ::
    "ipc_space \<Rightarrow> ipc_object_t \<Rightarrow> nat \<Rightarrow> ipc_space option" where
  "ipc_hash_local_insert space obj index =
    map_option (\<lambda>table. space\<lparr>is_table := table\<rparr>)
      (local_insert (is_table space) (is_table_size space) obj index)"

fun local_find_loop :: "nat \<Rightarrow> ipc_entry list \<Rightarrow> nat \<Rightarrow> nat \<Rightarrow> nat \<Rightarrow> nat option" where
  "local_find_loop 0 table sz index hindex = None"
| "local_find_loop (Suc fuel) table sz index hindex =
    (if ie_index (table ! hindex) \<noteq> index
     then local_find_loop fuel table sz index (next_slot sz hindex) else Some hindex)"

text \<open>Is the object whose home is \<open>tindex\<close> displaced past the hole at \<open>hindex\<close>?\<close>

definition displaced :: "nat \<Rightarrow> nat \<Rightarrow> nat \<Rightarrow> bool" where
  "displaced hindex dindex tindex \<longleftrightarrow>
    (if dindex < hindex then dindex < tindex \<and> tindex \<le> hindex
     else dindex < tindex \<or> tindex \<le> hindex)"

text \<open>The inner loop: the next displaced object after the hole, or the end of the clump.\<close>

fun local_scan_loop :: "nat \<Rightarrow> ipc_entry list \<Rightarrow> nat \<Rightarrow> nat \<Rightarrow> nat \<Rightarrow> (nat \<times> nat) option" where
  "local_scan_loop 0 table sz hindex dindex = None"
| "local_scan_loop (Suc fuel) table sz hindex dindex =
    (let dindex' = next_slot sz dindex; index = ie_index (table ! dindex')
     in if index = 0 then Some (dindex', 0)
        else if displaced hindex dindex' (IH_LOCAL_HASH (ie_object (table ! index)) sz)
        then Some (dindex', index)
        else local_scan_loop fuel table sz hindex dindex')"

text \<open>The outer loop fills the hole and goes on with the new one until it writes a 0.\<close>

fun local_delete_loop :: "nat \<Rightarrow> ipc_entry list \<Rightarrow> nat \<Rightarrow> nat \<Rightarrow> ipc_entry list option" where
  "local_delete_loop 0 table sz hindex = None"
| "local_delete_loop (Suc fuel) table sz hindex =
    (case local_scan_loop sz table sz hindex hindex of
       None \<Rightarrow> None
     | Some (dindex, index) \<Rightarrow>
         let table' = set_ie_index table hindex index
         in if index = 0 then Some table' else local_delete_loop fuel table' sz dindex)"

definition local_delete :: "ipc_entry list \<Rightarrow> nat \<Rightarrow> ipc_object_t \<Rightarrow> nat \<Rightarrow> ipc_entry list option" where
  "local_delete table sz obj index =
    (case local_find_loop sz table sz index (IH_LOCAL_HASH obj sz) of
       None \<Rightarrow> None
     | Some hindex \<Rightarrow> local_delete_loop sz table sz hindex)"

definition ipc_hash_local_delete ::
    "ipc_space \<Rightarrow> ipc_object_t \<Rightarrow> nat \<Rightarrow> ipc_space option" where
  "ipc_hash_local_delete space obj index =
    map_option (\<lambda>table. space\<lparr>is_table := table\<rparr>)
      (local_delete (is_table space) (is_table_size space) obj index)"

section \<open>The global table\<close>

text \<open>
  A bucket is the list of the tree entries linked through \<^verbatim>\<open>ite_next\<close>.  Of an entry the list
  keeps what the code compares: the space, the object and the name, which with the space
  identifies the entry.
\<close>

type_synonym ihgb = "(space_id \<times> ipc_object_t \<times> mach_port_t) list"

record ipc_hash_global =
  ipc_hash_global_size :: "32 word"
  ipc_hash_global_mask :: "32 word"
  ipc_hash_global_table :: "ihgb list"

definition IH_GLOBAL_HASH :: "ipc_hash_global \<Rightarrow> space_id \<Rightarrow> ipc_object_t \<Rightarrow> nat" where
  "IH_GLOBAL_HASH g space obj = unat ((drop_bit 4 space + drop_bit 6 obj) AND ipc_hash_global_mask g)"

text \<open>The search of a bucket with move-to-front.\<close>

fun bucket_extract ::
    "space_id \<Rightarrow> ipc_object_t \<Rightarrow> ihgb \<Rightarrow> ((space_id \<times> ipc_object_t \<times> mach_port_t) \<times> ihgb) option" where
  "bucket_extract space obj [] = None"
| "bucket_extract space obj (this # rest) =
    (if fst (snd this) = obj \<and> fst this = space then Some (this, rest)
     else map_option (\<lambda>(found, rest'). (found, this # rest')) (bucket_extract space obj rest))"

definition set_bucket :: "ipc_hash_global \<Rightarrow> nat \<Rightarrow> ihgb \<Rightarrow> ipc_hash_global" where
  "set_bucket g i b = g\<lparr>ipc_hash_global_table := (ipc_hash_global_table g)[i := b]\<rparr>"

definition ipc_hash_global_lookup ::
    "ipc_hash_global \<Rightarrow> space_id \<Rightarrow> ipc_object_t \<Rightarrow> mach_port_t option \<times> ipc_hash_global" where
  "ipc_hash_global_lookup g space obj =
    (let i = IH_GLOBAL_HASH g space obj
     in (case bucket_extract space obj (ipc_hash_global_table g ! i) of
           None \<Rightarrow> (None, g)
         | Some (this, rest) \<Rightarrow> (Some (snd (snd this)), set_bucket g i (this # rest))))"

definition ipc_hash_global_insert ::
    "ipc_hash_global \<Rightarrow> space_id \<Rightarrow> ipc_space \<Rightarrow> ipc_object_t \<Rightarrow> mach_port_t \<Rightarrow>
     ipc_hash_global \<times> ipc_space" where
  "ipc_hash_global_insert g sid space obj name =
    (let i = IH_GLOBAL_HASH g sid obj
     in (set_bucket g i ((sid, obj, name) # ipc_hash_global_table g ! i),
         space\<lparr>is_tree_hash := is_tree_hash space + 1\<rparr>))"

definition ipc_hash_global_delete ::
    "ipc_hash_global \<Rightarrow> space_id \<Rightarrow> ipc_space \<Rightarrow> ipc_object_t \<Rightarrow> mach_port_t \<Rightarrow>
     ipc_hash_global \<times> ipc_space" where
  "ipc_hash_global_delete g sid space obj name =
    (let i = IH_GLOBAL_HASH g sid obj
     in (set_bucket g i (remove1 (sid, obj, name) (ipc_hash_global_table g ! i)),
         space\<lparr>is_tree_hash := is_tree_hash space - 1\<rparr>))"

section \<open>The two tables together\<close>

text \<open>
  Where an entry is: a slot of the table or a node of the tree.  This is what a pointer to
  an entry says, and what the comparison \<^verbatim>\<open>entry == &space->is_table[index]\<close> decides.
\<close>

datatype entry_ref = In_table nat | In_tree mach_port_t

definition ipc_hash_lookup ::
    "ipc_hash_global \<Rightarrow> space_id \<Rightarrow> ipc_space \<Rightarrow> ipc_object_t \<Rightarrow>
     ((mach_port_t \<times> entry_ref) option \<times> ipc_hash_global) option" where
  "ipc_hash_lookup g sid space obj =
    (case ipc_hash_local_lookup space obj of
       None \<Rightarrow> None
     | Some (Some (name, index)) \<Rightarrow> Some (Some (name, In_table index), g)
     | Some None \<Rightarrow>
         if is_tree_hash space > 0
         then (case ipc_hash_global_lookup g sid obj of
                 (r, g') \<Rightarrow> Some (map_option (\<lambda>name. (name, In_tree name)) r, g'))
         else Some (None, g))"

definition ipc_hash_insert ::
    "ipc_hash_global \<Rightarrow> space_id \<Rightarrow> ipc_space \<Rightarrow> ipc_object_t \<Rightarrow> mach_port_t \<Rightarrow> entry_ref \<Rightarrow>
     (ipc_hash_global \<times> ipc_space) option" where
  "ipc_hash_insert g sid space obj name entry =
    (let index = MACH_PORT_INDEX name
     in if index < is_table_size space \<and> entry = In_table index
        then map_option (Pair g) (ipc_hash_local_insert space obj index)
        else Some (ipc_hash_global_insert g sid space obj name))"

definition ipc_hash_delete ::
    "ipc_hash_global \<Rightarrow> space_id \<Rightarrow> ipc_space \<Rightarrow> ipc_object_t \<Rightarrow> mach_port_t \<Rightarrow> entry_ref \<Rightarrow>
     (ipc_hash_global \<times> ipc_space) option" where
  "ipc_hash_delete g sid space obj name entry =
    (let index = MACH_PORT_INDEX name
     in if index < is_table_size space \<and> entry = In_table index
        then map_option (Pair g) (ipc_hash_local_delete space obj index)
        else Some (ipc_hash_global_delete g sid space obj name))"

text \<open>
  \<^verbatim>\<open>ipc_hash_init\<close>: the size is rounded up to a power of two.  The rounding loop sets one
  low bit of the mask after another; 32 rounds reach every bit.
\<close>

fun round_up_loop :: "nat \<Rightarrow> 32 word \<Rightarrow> 32 word \<Rightarrow> (32 word \<times> 32 word) option" where
  "round_up_loop 0 b mk = None"
| "round_up_loop (Suc fuel) b mk =
    (let mk' = mk OR b; sz = mk' + 1
     in if sz AND mk' = 0 then Some (sz, mk') else round_up_loop fuel (push_bit 1 b) mk')"

definition ipc_hash_init :: "32 word \<Rightarrow> 32 word \<Rightarrow> ipc_hash_global option" where
  "ipc_hash_init size0 ipc_tree_entry_max =
    (let size1 = (if size0 = 0
                  then (let s = drop_bit 8 ipc_tree_entry_max in if s < 32 then 32 else s)
                  else size0);
         mask1 = size1 - 1
     in map_option
          (\<lambda>(sz, mk). \<lparr>ipc_hash_global_size = sz, ipc_hash_global_mask = mk,
                         ipc_hash_global_table = replicate (unat sz) []\<rparr>)
          (if size1 AND mask1 \<noteq> 0 then round_up_loop 33 1 mask1 else Some (size1, mask1)))"

section \<open>Well-formed local tables\<close>

text \<open>
  \<open>slot\<close> reads a slot, \<open>home\<close> is where the object entered in a slot hashes to.  Distances on the
  circle of slots are measured from an empty slot \<open>e\<close>: \<open>pos n e x\<close> is the number of steps from
  \<open>e\<close> to \<open>x\<close>.
\<close>

definition slot :: "ipc_entry list \<Rightarrow> nat \<Rightarrow> nat" where
  "slot table h = ie_index (table ! h)"

definition slot_object :: "ipc_entry list \<Rightarrow> nat \<Rightarrow> ipc_object_t" where
  "slot_object table h = ie_object (table ! slot table h)"

definition home :: "ipc_entry list \<Rightarrow> nat \<Rightarrow> nat" where
  "home table h = IH_LOCAL_HASH (slot_object table h) (length table)"

definition pos :: "nat \<Rightarrow> nat \<Rightarrow> nat \<Rightarrow> nat" where
  "pos n e x = (if e \<le> x then x - e else x + n - e)"

text \<open>No empty slot lies between the home of an entry and the entry.\<close>

definition lh_chain :: "ipc_entry list \<Rightarrow> bool" where
  "lh_chain table \<longleftrightarrow>
    (\<forall>h < length table. \<forall>e < length table. slot table h \<noteq> 0 \<longrightarrow> slot table e = 0 \<longrightarrow>
      home table h \<noteq> e \<and> pos (length table) e (home table h) \<le> pos (length table) e h)"

definition lh_ok :: "ipc_entry list \<Rightarrow> bool" where
  "lh_ok table \<longleftrightarrow>
    table \<noteq> [] \<and> (\<forall>h < length table. slot table h < length table) \<and>
    (\<forall>h < length table. \<forall>k < length table. slot table h \<noteq> 0 \<longrightarrow> slot table k \<noteq> 0 \<longrightarrow>
      slot_object table h = slot_object table k \<longrightarrow> h = k) \<and>
    lh_chain table"

lemma lh_okI:
  assumes "table \<noteq> []" and "\<And>h. h < length table \<Longrightarrow> slot table h < length table"
    and "\<And>h k. h < length table \<Longrightarrow> k < length table \<Longrightarrow> slot table h \<noteq> 0 \<Longrightarrow> slot table k \<noteq> 0 \<Longrightarrow>
      slot_object table h = slot_object table k \<Longrightarrow> h = k"
    and "lh_chain table"
  shows "lh_ok table"
  using assms unfolding lh_ok_def by blast

lemma lh_okD:
  assumes "lh_ok table"
  shows "table \<noteq> []" and "h < length table \<Longrightarrow> slot table h < length table"
    and "h < length table \<Longrightarrow> k < length table \<Longrightarrow> slot table h \<noteq> 0 \<Longrightarrow> slot table k \<noteq> 0 \<Longrightarrow>
      slot_object table h = slot_object table k \<Longrightarrow> h = k"
    and "lh_chain table"
  using assms unfolding lh_ok_def by blast+

definition entered :: "ipc_entry list \<Rightarrow> nat set" where
  "entered table = {i. i \<noteq> 0 \<and> (\<exists>h < length table. slot table h = i)}"

lemma next_slot_less: "x < n \<Longrightarrow> next_slot n x < n"
  by (auto simp: next_slot_def)

lemma pos_less: "e < n \<Longrightarrow> x < n \<Longrightarrow> pos n e x < n"
  by (auto simp: pos_def)

lemma pos_self [simp]: "pos n e e = 0"
  by (simp add: pos_def)

lemma pos_inj: "e < n \<Longrightarrow> x < n \<Longrightarrow> y < n \<Longrightarrow> pos n e x = pos n e y \<longleftrightarrow> x = y"
  by (auto simp: pos_def)

lemma pos_eq_0: "e < n \<Longrightarrow> x < n \<Longrightarrow> pos n e x = 0 \<longleftrightarrow> x = e"
  by (auto simp: pos_def)

lemma pos_next: "e < n \<Longrightarrow> x < n \<Longrightarrow> next_slot n x \<noteq> e \<Longrightarrow> pos n e (next_slot n x) = Suc (pos n e x)"
  by (auto simp: pos_def next_slot_def)

lemma pos_next_wrap: "e < n \<Longrightarrow> x < n \<Longrightarrow> next_slot n x = e \<Longrightarrow> pos n e x = n - 1"
  by (auto simp: pos_def next_slot_def split: if_splits)

lemma pos_change:
  "e < n \<Longrightarrow> d < n \<Longrightarrow> x < n \<Longrightarrow>
   pos n d x = (if pos n e d \<le> pos n e x then pos n e x - pos n e d
                else pos n e x + n - pos n e d)"
  by (auto simp: pos_def)

lemma displaced_iff:
  "e < n \<Longrightarrow> h < n \<Longrightarrow> d < n \<Longrightarrow> t < n \<Longrightarrow> pos n e h < pos n e d \<Longrightarrow>
   displaced h d t \<longleftrightarrow> pos n e t \<le> pos n e h \<or> pos n e d < pos n e t"
  by (auto simp: pos_def displaced_def)

lemma IH_LOCAL_HASH_less: "0 < n \<Longrightarrow> IH_LOCAL_HASH obj n < n"
  by (simp add: IH_LOCAL_HASH_def)

lemma home_less: "table \<noteq> [] \<Longrightarrow> home table h < length table"
  by (simp add: home_def IH_LOCAL_HASH_less)

text \<open>There is always a free slot, because entry 0 is never entered.\<close>

lemma lh_free_slot:
  assumes "lh_ok table"
  obtains e where "e < length table" and "slot table e = 0"
proof -
  have "\<not> (\<forall>e < length table. slot table e \<noteq> 0)"
  proof
    assume full: "\<forall>e < length table. slot table e \<noteq> 0"
    then have "slot table ` {..<length table} \<subseteq> {1..<length table}"
      using assms by (auto simp: lh_ok_def Suc_le_eq)
    moreover have "inj_on (slot table) {..<length table}"
      using full assms by (fastforce simp: lh_ok_def slot_object_def inj_on_def)
    ultimately have "card {..<length table} \<le> card {1..<length table}"
      by (metis card_inj_on_le finite_atLeastLessThan)
    then show False using assms by (cases table) (simp_all add: lh_ok_def)
  qed
  with that show thesis by blast
qed

subsection \<open>Lookup\<close>

lemma local_lookup_found:
  assumes ok: "lh_ok table" and h: "h < length table" "slot table h \<noteq> 0"
    and e: "e < length table" "slot table e = 0"
    and x: "x < length table" "x \<noteq> e" "pos (length table) e x \<le> pos (length table) e h"
    and before: "\<And>d. d < length table \<Longrightarrow> slot table d = 0 \<Longrightarrow>
      x \<noteq> d \<and> pos (length table) d x \<le> pos (length table) d h"
    and fuel: "pos (length table) e h - pos (length table) e x < fuel"
  shows "local_lookup_loop fuel table (length table) (slot_object table h) x = Some (Some (slot table h))"
  using x before fuel
proof (induction fuel arbitrary: x)
  case 0
  then show ?case by simp
next
  case (Suc fuel)
  have occ: "slot table x \<noteq> 0" using Suc.prems by blast
  show ?case
  proof (cases "x = h")
    case True
    with occ show ?thesis by (simp add: slot_def slot_object_def)
  next
    case False
    have ne: "slot_object table x \<noteq> slot_object table h"
      using ok h occ False Suc.prems(1) by (auto simp: lh_ok_def)
    let ?y = "next_slot (length table) x"
    have y: "?y < length table" using Suc.prems(1) by (rule next_slot_less)
    have step: "?y \<noteq> d \<and> pos (length table) d ?y \<le> pos (length table) d h"
      if d: "d < length table" "slot table d = 0" for d
    proof -
      have lt: "pos (length table) d x < pos (length table) d h"
        using Suc.prems(1,4) d h(1) False pos_inj by (metis order_le_less)
      have "?y \<noteq> d"
        using pos_next_wrap [OF d(1) Suc.prems(1)] pos_less [OF d(1) h(1)] lt by auto
      with pos_next [OF d(1) Suc.prems(1)] lt show ?thesis by simp
    qed
    have lt: "pos (length table) e x < pos (length table) e h"
      using Suc.prems(1,3) e h(1) False pos_inj by (metis order_le_less)
    have "pos (length table) e h - pos (length table) e ?y < fuel"
      using pos_next [OF e(1) Suc.prems(1)] step [OF e] lt Suc.prems(5) by simp
    then have "local_lookup_loop fuel table (length table) (slot_object table h) ?y =
        Some (Some (slot table h))"
      using Suc.IH [OF y] step e by blast
    with occ ne show ?thesis by (simp add: slot_def [symmetric] slot_object_def Let_def)
  qed
qed

lemma local_lookup_absent:
  assumes ok: "lh_ok table" and e: "e < length table" "slot table e = 0"
    and absent: "\<And>h. h < length table \<Longrightarrow> slot table h \<noteq> 0 \<Longrightarrow> slot_object table h \<noteq> obj"
    and x: "x < length table" and fuel: "length table - pos (length table) e x < fuel \<or> x = e \<and> 0 < fuel"
  shows "local_lookup_loop fuel table (length table) obj x = Some None"
  using x fuel
proof (induction fuel arbitrary: x)
  case 0
  then show ?case by simp
next
  case (Suc fuel)
  show ?case
  proof (cases "slot table x = 0")
    case True
    then show ?thesis by (simp add: slot_def)
  next
    case False
    let ?y = "next_slot (length table) x"
    have y: "?y < length table" using Suc.prems(1) by (rule next_slot_less)
    have "x \<noteq> e" using False e by auto
    then have "length table - pos (length table) e ?y < fuel \<or> ?y = e \<and> 0 < fuel"
      using Suc.prems pos_next [OF e(1) Suc.prems(1)] pos_less [OF e(1) Suc.prems(1)]
      by (cases "?y = e") auto
    from Suc.IH [OF y this] absent [OF Suc.prems(1) False] False show ?thesis
      by (simp add: slot_def slot_object_def Let_def)
  qed
qed

lemma lh_chainD:
  "lh_ok table \<Longrightarrow> h < length table \<Longrightarrow> slot table h \<noteq> 0 \<Longrightarrow> e < length table \<Longrightarrow>
   slot table e = 0 \<Longrightarrow>
   home table h \<noteq> e \<and> pos (length table) e (home table h) \<le> pos (length table) e h"
  unfolding lh_ok_def lh_chain_def by blast


lemma local_lookup_spec:
  assumes ok: "lh_ok table"
  shows "local_lookup_loop (length table) table (length table) obj (IH_LOCAL_HASH obj (length table)) =
    Some (if \<exists>i \<in> entered table. ie_object (table ! i) = obj
          then Some (THE i. i \<in> entered table \<and> ie_object (table ! i) = obj) else None)"
proof -
  obtain e where e: "e < length table" "slot table e = 0" using lh_free_slot [OF ok] .
  have x: "IH_LOCAL_HASH obj (length table) < length table"
    using e(1) by (intro IH_LOCAL_HASH_less) auto
  show ?thesis
  proof (cases "\<exists>i \<in> entered table. ie_object (table ! i) = obj")
    case True
    then obtain h where h: "h < length table" "slot table h \<noteq> 0" "slot_object table h = obj"
      by (auto simp: entered_def slot_object_def)
    have hm: "home table h = IH_LOCAL_HASH obj (length table)" by (simp add: home_def h(3))
    have "(THE i. i \<in> entered table \<and> ie_object (table ! i) = obj) = slot table h"
    proof (rule the_equality)
      show "slot table h \<in> entered table \<and> ie_object (table ! slot table h) = obj"
        using h by (auto simp: entered_def slot_object_def)
      show "i = slot table h" if "i \<in> entered table \<and> ie_object (table ! i) = obj" for i
        using that ok h by (auto simp: entered_def lh_ok_def slot_object_def)
    qed
    moreover have "local_lookup_loop (length table) table (length table) (slot_object table h)
        (home table h) = Some (Some (slot table h))"
    proof (rule local_lookup_found [OF ok h(1,2) e])
      show "pos (length table) e h - pos (length table) e (home table h) < length table"
        using pos_less [OF e(1) h(1)] by linarith
    qed (use lh_chainD [OF ok h(1,2)] e x hm in auto)
    ultimately show ?thesis using True by (simp add: hm h(3))
  next
    case False
    have "local_lookup_loop (length table) table (length table) obj (IH_LOCAL_HASH obj (length table)) =
        Some None"
    proof (rule local_lookup_absent [OF ok e _ x])
      show "slot_object table h \<noteq> obj" if "h < length table" "slot table h \<noteq> 0" for h
        using False that unfolding entered_def slot_object_def by blast
      show "length table - pos (length table) e (IH_LOCAL_HASH obj (length table)) < length table \<or>
          IH_LOCAL_HASH obj (length table) = e \<and> 0 < length table"
        using pos_eq_0 [OF e(1) x] e(1) by auto
    qed
    with False show ?thesis by simp
  qed
qed

subsection \<open>Insertion\<close>

lemma length_set_ie_index [simp]: "length (set_ie_index table h i) = length table"
  by (simp add: set_ie_index_def)

lemma set_ie_index_fields [simp]:
  "ie_object (set_ie_index table h i ! k) = ie_object (table ! k)"
  "ie_bits (set_ie_index table h i ! k) = ie_bits (table ! k)"
  "ie_request (set_ie_index table h i ! k) = ie_request (table ! k)"
  by (cases "h < length table"; cases "k = h"; simp add: set_ie_index_def list_update_beyond)+

lemma slot_set_ie_index [simp]:
  "h < length table \<Longrightarrow> slot (set_ie_index table h i) k = (if k = h then i else slot table k)"
  by (simp add: slot_def set_ie_index_def)

lemma local_free_spec:
  assumes e: "e < length table" "slot table e = 0" and x: "x < length table"
    and start: "\<And>d. d < length table \<Longrightarrow> slot table d = 0 \<Longrightarrow> d \<noteq> x \<Longrightarrow>
      t \<noteq> d \<and> pos (length table) d t \<le> pos (length table) d x"
    and fuel: "length table - pos (length table) e x < fuel \<or> x = e \<and> 0 < fuel"
  shows "\<exists>z < length table. local_free_loop fuel table (length table) x = Some z \<and>
    slot table z = 0 \<and>
    (\<forall>d < length table. slot table d = 0 \<longrightarrow> d \<noteq> z \<longrightarrow>
      t \<noteq> d \<and> pos (length table) d t \<le> pos (length table) d z)"
  using x start fuel
proof (induction fuel arbitrary: x)
  case 0
  then show ?case by simp
next
  case (Suc fuel)
  show ?case
  proof (cases "slot table x = 0")
    case True
    with Suc.prems show ?thesis by (auto simp: slot_def)
  next
    case False
    let ?y = "next_slot (length table) x"
    have y: "?y < length table" using Suc.prems(1) by (rule next_slot_less)
    have "x \<noteq> e" using False e by auto
    then have fuel': "length table - pos (length table) e ?y < fuel \<or> ?y = e \<and> 0 < fuel"
      using Suc.prems(1,3) pos_next [OF e(1) Suc.prems(1)] pos_less [OF e(1) Suc.prems(1)]
      by (cases "?y = e") auto
    have "t \<noteq> d \<and> pos (length table) d t \<le> pos (length table) d ?y"
      if "d < length table" "slot table d = 0" "d \<noteq> ?y" for d
    proof -
      have "d \<noteq> x" using that(2) False by auto
      with Suc.prems(2) [OF that(1,2)] pos_next [OF that(1) Suc.prems(1)] that(3)
      show ?thesis by auto
    qed
    from Suc.IH [OF y this fuel'] False show ?thesis by (simp add: slot_def)
  qed
qed

lemma local_insert_spec:
  assumes ok: "lh_ok table" and i: "0 < i" "i < length table" and obj: "ie_object (table ! i) = obj"
    and new: "\<And>j. j \<in> entered table \<Longrightarrow> ie_object (table ! j) \<noteq> obj"
  shows "\<exists>z < length table. local_insert table (length table) obj i = Some (set_ie_index table z i) \<and>
    lh_ok (set_ie_index table z i) \<and> entered (set_ie_index table z i) = insert i (entered table)"
proof -
  let ?n = "length table" and ?t = "IH_LOCAL_HASH obj (length table)"
  obtain e where e: "e < ?n" "slot table e = 0" using lh_free_slot [OF ok] .
  have t: "?t < ?n" using e(1) by (intro IH_LOCAL_HASH_less) auto
  have "?n - pos ?n e ?t < ?n \<or> ?t = e \<and> 0 < ?n"
    using pos_eq_0 [OF e(1) t] e(1) by auto
  then obtain z where z: "z < ?n" "local_free_loop ?n table ?n ?t = Some z" "slot table z = 0"
    and chain: "\<And>d. d < ?n \<Longrightarrow> slot table d = 0 \<Longrightarrow> d \<noteq> z \<Longrightarrow> ?t \<noteq> d \<and> pos ?n d ?t \<le> pos ?n d z"
    using local_free_spec [OF e t, of ?t ?n] by blast
  let ?T = "set_ie_index table z i"
  have so: "slot_object ?T h = (if h = z then obj else slot_object table h)" for h
    using z(1) obj by (simp add: slot_object_def)
  have hm: "home ?T h = (if h = z then ?t else home table h)" for h
    by (simp add: home_def so)
  have old: "slot_object table h \<noteq> obj" if "h < ?n" "slot table h \<noteq> 0" for h
    using new [of "slot table h"] that by (auto simp: entered_def slot_object_def)
  have ok': "lh_ok ?T"
  proof (rule lh_okI)
    show "?T \<noteq> []" using e(1) by (metis length_set_ie_index list.size(3) not_less0)
    show "slot ?T h < length ?T" if "h < length ?T" for h
      using that lh_okD(2) [OF ok] z(1) i(2) by simp
    show "h = k" if "h < length ?T" "k < length ?T" "slot ?T h \<noteq> 0" "slot ?T k \<noteq> 0"
      "slot_object ?T h = slot_object ?T k" for h k
      using that old [of h] old [of k] lh_okD(3) [OF ok, of h k] z(1)
      by (cases "h = z"; cases "k = z") (simp_all add: so)
    show "lh_chain ?T"
      unfolding lh_chain_def using lh_chainD [OF ok] chain z(1,3) i(1) by (simp add: hm)
  qed
  have "entered ?T = insert i (entered table)"
    using z i by (auto simp: entered_def) (metis less_irrefl)
  with ok' z show ?thesis by (auto simp: local_insert_def)
qed


subsection \<open>Deletion\<close>

text \<open>Searching the slot of an entry is the lookup's walk along the chain.\<close>

lemma local_find_spec:
  assumes ok: "lh_ok table" and h: "h < length table" "slot table h \<noteq> 0"
    and e: "e < length table" "slot table e = 0"
    and x: "x < length table"
    and before: "\<And>d. d < length table \<Longrightarrow> slot table d = 0 \<Longrightarrow>
      x \<noteq> d \<and> pos (length table) d x \<le> pos (length table) d h"
    and fuel: "pos (length table) e h - pos (length table) e x < fuel"
  shows "local_find_loop fuel table (length table) (slot table h) x = Some h"
  using x before fuel
proof (induction fuel arbitrary: x)
  case 0
  then show ?case by simp
next
  case (Suc fuel)
  show ?case
  proof (cases "x = h")
    case True
    then show ?thesis by (simp add: slot_def)
  next
    case False
    have ne: "slot table x \<noteq> slot table h"
      using ok h False Suc.prems(1) by (fastforce simp: lh_ok_def slot_object_def)
    let ?y = "next_slot (length table) x"
    have y: "?y < length table" using Suc.prems(1) by (rule next_slot_less)
    have step: "?y \<noteq> d \<and> pos (length table) d x < pos (length table) d ?y \<and>
        pos (length table) d ?y \<le> pos (length table) d h"
      if d: "d < length table" "slot table d = 0" for d
    proof -
      have lt: "pos (length table) d x < pos (length table) d h"
        using Suc.prems(1,2) d h(1) False pos_inj by (metis order_le_less)
      have "?y \<noteq> d"
        using pos_next_wrap [OF d(1) Suc.prems(1)] pos_less [OF d(1) h(1)] lt by auto
      with pos_next [OF d(1) Suc.prems(1)] lt show ?thesis by simp
    qed
    have "pos (length table) e h - pos (length table) e ?y < fuel"
      using step [OF e] Suc.prems(3) by linarith
    with Suc.IH [OF y] step ne show ?thesis by (simp add: slot_def)
  qed
qed

text \<open>
  The state of the deletion loop: slot \<open>hole\<close> holds a value that is no longer wanted there.
  Chains are unbroken, because the value is still there; objects are distinct apart from it.
\<close>

definition hole_ok :: "ipc_entry list \<Rightarrow> nat \<Rightarrow> bool" where
  "hole_ok table hole \<longleftrightarrow>
    hole < length table \<and> slot table hole \<noteq> 0 \<and>
    (\<forall>h < length table. slot table h < length table) \<and>
    (\<forall>h < length table. \<forall>k < length table. h \<noteq> hole \<longrightarrow> k \<noteq> hole \<longrightarrow>
      slot table h \<noteq> 0 \<longrightarrow> slot table k \<noteq> 0 \<longrightarrow>
      slot_object table h = slot_object table k \<longrightarrow> h = k) \<and>
    lh_chain table"

lemma hole_okD:
  assumes "hole_ok table hole"
  shows "hole < length table" and "slot table hole \<noteq> 0"
    and "h < length table \<Longrightarrow> slot table h < length table"
    and "h < length table \<Longrightarrow> k < length table \<Longrightarrow> h \<noteq> hole \<Longrightarrow> k \<noteq> hole \<Longrightarrow>
      slot table h \<noteq> 0 \<Longrightarrow> slot table k \<noteq> 0 \<Longrightarrow>
      slot_object table h = slot_object table k \<Longrightarrow> h = k"
    and "lh_chain table"
  using assms unfolding hole_ok_def by blast+

definition entered_but :: "ipc_entry list \<Rightarrow> nat \<Rightarrow> nat set" where
  "entered_but table hole = {i. i \<noteq> 0 \<and> (\<exists>h < length table. h \<noteq> hole \<and> slot table h = i)}"

lemma local_scan_spec:
  fixes table :: "ipc_entry list"
  defines "n \<equiv> length table"
  assumes e: "e < n" "slot table e = 0" and hole: "hole < n" "slot table hole \<noteq> 0"
    and d: "d < n" "slot table d \<noteq> 0" "pos n e hole \<le> pos n e d"
    and passed: "\<And>x. x < n \<Longrightarrow> pos n e hole < pos n e x \<Longrightarrow> pos n e x \<le> pos n e d \<Longrightarrow>
      slot table x \<noteq> 0 \<and> pos n e hole < pos n e (home table x)"
    and chain: "lh_chain table" and fuel: "n - pos n e d \<le> fuel"
  shows "\<exists>d' < n. local_scan_loop fuel table n hole d = Some (d', slot table d') \<and>
    (if slot table d' = 0
     then (d' = e \<or> pos n e hole < pos n e d') \<and>
          (\<forall>x < n. pos n e hole < pos n e x \<longrightarrow> d' = e \<or> pos n e x < pos n e d' \<longrightarrow>
            slot table x \<noteq> 0 \<and> pos n e hole < pos n e (home table x))
     else pos n e hole < pos n e d' \<and> pos n e (home table d') \<le> pos n e hole)"
  using d passed fuel
proof (induction fuel arbitrary: d)
  case 0
  then show ?case using pos_less [OF e(1), of d] by simp
next
  case (Suc fuel)
  let ?y = "next_slot n d"
  have y: "?y < n" using Suc.prems(1) by (rule next_slot_less)
  show ?case
  proof (cases "slot table ?y = 0")
    case True
    have "slot table x \<noteq> 0 \<and> pos n e hole < pos n e (home table x)"
      if "x < n" "pos n e hole < pos n e x" "?y = e \<or> pos n e x < pos n e ?y" for x
    proof (rule Suc.prems(4) [OF that(1,2)])
      show "pos n e x \<le> pos n e d"
        using that(3) pos_next [OF e(1) Suc.prems(1)] pos_next_wrap [OF e(1) Suc.prems(1)]
          pos_less [OF e(1) that(1)] by (cases "?y = e") auto
    qed
    moreover have "?y = e \<or> pos n e hole < pos n e ?y"
      using pos_next [OF e(1) Suc.prems(1)] Suc.prems(3) by (cases "?y = e") auto
    ultimately show ?thesis using True y by (intro exI [of _ ?y]) (simp add: slot_def)
  next
    case False
    then have "?y \<noteq> e" using e by auto
    then have py: "pos n e ?y = Suc (pos n e d)" by (rule pos_next [OF e(1) Suc.prems(1)])
    have hm: "home table ?y < n" "pos n e (home table ?y) \<le> pos n e ?y"
      using chain y False e by (auto simp: lh_chain_def n_def intro: home_less)
    have disp: "displaced hole ?y (IH_LOCAL_HASH (ie_object (table ! slot table ?y)) n) \<longleftrightarrow>
        pos n e (home table ?y) \<le> pos n e hole"
      using displaced_iff [OF e(1) hole(1) y hm(1)] hm(2) py Suc.prems(3)
      by (simp add: home_def slot_object_def n_def)
    show ?thesis
    proof (cases "pos n e (home table ?y) \<le> pos n e hole")
      case True
      with False disp y py Suc.prems(3) show ?thesis
        by (intro exI [of _ ?y]) (simp add: slot_def Let_def)
    next
      case not_displaced: False
      have "slot table x \<noteq> 0 \<and> pos n e hole < pos n e (home table x)"
        if "x < n" "pos n e hole < pos n e x" "pos n e x \<le> pos n e ?y" for x
        using Suc.prems(4) [OF that(1,2)] that(1,3) False not_displaced py pos_inj [OF e(1) that(1) y]
        by (cases "x = ?y") auto
      from Suc.IH [OF y False _ this] Suc.prems(3,5) py False disp not_displaced
      show ?thesis by (simp add: slot_def Let_def)
    qed
  qed
qed


text \<open>Filling the hole at \<open>hole\<close> with the displaced entry of slot \<open>d\<close> moves the hole to \<open>d\<close>.\<close>

lemma hole_move:
  fixes table :: "ipc_entry list"
  defines "n \<equiv> length table"
  assumes ok: "hole_ok table hole" and e: "e < n" "slot table e = 0"
    and d: "d < n" "slot table d \<noteq> 0" "pos n e hole < pos n e d"
      "pos n e (home table d) \<le> pos n e hole"
  defines "table' \<equiv> set_ie_index table hole (slot table d)"
  shows "hole_ok table' d" and "entered_but table' d = entered_but table hole"
    and "slot table' e = 0"
proof -
  have hole: "hole < n" "slot table hole \<noteq> 0" using ok by (simp_all add: hole_ok_def n_def)
  have "d \<noteq> hole" using d(3) by auto
  have "e \<noteq> hole" using e(2) hole(2) by auto
  have sl: "slot table' h = (if h = hole then slot table d else slot table h)" for h
    using hole(1) by (simp add: table'_def n_def)
  have so: "slot_object table' h = (if h = hole then slot_object table d else slot_object table h)" for h
    by (simp add: slot_object_def sl) (simp add: table'_def slot_object_def)
  have len: "length table' = n" by (simp add: table'_def n_def)
  have hm: "home table' h = (if h = hole then home table d else home table h)" for h
    by (simp add: home_def so len n_def)
  have hd: "home table d < n" using d(1) by (auto simp: n_def intro: home_less)
  have chain: "home table h \<noteq> f \<and> pos n f (home table h) \<le> pos n f h"
    if "h < n" "f < n" "slot table h \<noteq> 0" "slot table f = 0" for h f
    using ok that unfolding hole_ok_def lh_chain_def n_def by blast
  have "home table d \<noteq> f \<and> pos n f (home table d) \<le> pos n f hole"
    if f: "f < n" "slot table f = 0" for f
    using chain [OF d(1) f(1) d(2) f(2)] d(3,4) pos_less [OF e(1) d(1)] pos_less [OF e(1) f(1)]
      pos_change [OF e(1) f(1) hd] pos_change [OF e(1) f(1) hole(1)] pos_change [OF e(1) f(1) d(1)]
    by (auto split: if_splits)
  then have "lh_chain table'"
    using chain d(2) hole(2) by (auto simp: lh_chain_def len sl hm)
  moreover have "h = k" if "h < n" "k < n" "h \<noteq> d" "k \<noteq> d" "slot table' h \<noteq> 0" "slot table' k \<noteq> 0"
    "slot_object table' h = slot_object table' k" for h k
  proof -
    let ?g = "\<lambda>x. if x = hole then d else x"
    have "?g h < length table" "?g k < length table" "?g h \<noteq> hole" "?g k \<noteq> hole"
      using that(1,2) d(1) \<open>d \<noteq> hole\<close> by (simp_all add: n_def)
    moreover have "slot table (?g h) \<noteq> 0" "slot table (?g k) \<noteq> 0"
      "slot_object table (?g h) = slot_object table (?g k)"
      using that(5-7) d(2) by (simp_all add: sl so split: if_splits)
    ultimately have "?g h = ?g k" by (rule hole_okD(4) [OF ok])
    with that(3,4) show ?thesis by (auto split: if_splits)
  qed
  moreover have "slot table' h < n" if "h < n" for h
    using that ok d(1) by (simp add: sl hole_ok_def n_def)
  ultimately show "hole_ok table' d"
    using d(1,2) \<open>d \<noteq> hole\<close> unfolding hole_ok_def len by (simp add: sl)
  show "entered_but table' d = entered_but table hole"
    unfolding entered_but_def len n_def [symmetric]
    using d(1) hole(1) \<open>d \<noteq> hole\<close> by (auto simp: sl split: if_splits)
  show "slot table' e = 0" using \<open>e \<noteq> hole\<close> e(2) by (simp add: sl)
qed

text \<open>Clearing the hole when no entry behind it is displaced.\<close>

lemma hole_clear:
  fixes table :: "ipc_entry list"
  defines "n \<equiv> length table"
  assumes ok: "hole_ok table hole" and e: "e < n" "slot table e = 0"
    and d: "d < n" "slot table d = 0"
    and clump: "\<And>x. x < n \<Longrightarrow> pos n e hole < pos n e x \<Longrightarrow> d = e \<or> pos n e x < pos n e d \<Longrightarrow>
      slot table x \<noteq> 0 \<and> pos n e hole < pos n e (home table x)"
    and behind: "d = e \<or> pos n e hole < pos n e d"
  defines "table' \<equiv> set_ie_index table hole 0"
  shows "lh_ok table'" and "entered table' = entered_but table hole"
proof -
  have hole: "hole < n" "slot table hole \<noteq> 0" using ok by (simp_all add: hole_ok_def n_def)
  have sl: "slot table' h = (if h = hole then 0 else slot table h)" for h
    using hole(1) by (simp add: table'_def n_def)
  have so: "slot_object table' h = slot_object table h" if "h \<noteq> hole" for h
    using that by (simp add: slot_object_def sl) (simp add: table'_def)
  have len: "length table' = n" by (simp add: table'_def n_def)
  have hm: "home table' h = home table h" if "h \<noteq> hole" for h
    using that by (simp add: home_def so len n_def)
  have chain: "home table h \<noteq> f \<and> pos n f (home table h) \<le> pos n f h"
    if "h < n" "f < n" "slot table h \<noteq> 0" "slot table f = 0" for h f
    using ok that unfolding hole_ok_def lh_chain_def n_def by blast
  have at_hole: "home table h \<noteq> hole \<and> pos n hole (home table h) \<le> pos n hole h"
    if h: "h < n" "h \<noteq> hole" "slot table h \<noteq> 0" for h
  proof -
    have hh: "home table h < n" using h(1) by (auto simp: n_def intro: home_less)
    have le: "pos n e (home table h) \<le> pos n e h" using chain [OF h(1) e(1) h(3) e(2)] by simp
    have "pos n e hole < pos n e (home table h)" if gt: "pos n e hole < pos n e h"
    proof (cases "d = e \<or> pos n e h < pos n e d")
      case True
      with clump [OF h(1) gt] show ?thesis by simp
    next
      case False
      have "d \<noteq> h" using d(2) h(3) by auto
      then have "pos n e d < pos n e h" using False pos_inj [OF e(1) d(1) h(1)] by linarith
      with chain [OF h(1) d(1) h(3) d(2)] le pos_change [OF e(1) d(1) hh] pos_change [OF e(1) d(1) h(1)]
        pos_less [OF e(1) h(1)] pos_less [OF e(1) d(1)] behind False
      show ?thesis by (auto split: if_splits)
    qed
    with le pos_change [OF e(1) hole(1) hh] pos_change [OF e(1) hole(1) h(1)] h(2)
      pos_inj [OF e(1) hole(1) h(1)] pos_less [OF e(1) hole(1)] pos_less [OF e(1) hh]
      pos_inj [OF e(1) hole(1) hh]
    show ?thesis by (cases "pos n e hole < pos n e h") (auto split: if_splits)
  qed
  show "lh_ok table'"
  proof (rule lh_okI)
    show "table' \<noteq> []" using hole(1) len by auto
    show "slot table' h < length table'" if "h < length table'" for h
      using that hole_okD(3) [OF ok, of h] hole(1) unfolding len sl n_def by (auto split: if_splits)
    show "h = k" if "h < length table'" "k < length table'" "slot table' h \<noteq> 0" "slot table' k \<noteq> 0"
      "slot_object table' h = slot_object table' k" for h k
    proof -
      have "h \<noteq> hole" "k \<noteq> hole" using that(3,4) by (auto simp: sl)
      then show ?thesis
        using that by (intro hole_okD(4) [OF ok]) (simp_all add: sl so len n_def)
    qed
    have "home table' h \<noteq> f \<and> pos n f (home table' h) \<le> pos n f h"
      if "h < n" "f < n" "slot table' h \<noteq> 0" "slot table' f = 0" for h f
    proof -
      have h: "h \<noteq> hole" "slot table h \<noteq> 0" using that(3) by (auto simp: sl split: if_splits)
      show ?thesis
      proof (cases "f = hole")
        case True
        then show ?thesis unfolding hm [OF h(1)] using at_hole [OF that(1) h] by blast
      next
        case False
        then have "slot table f = 0" using that(4) by (simp add: sl)
        then show ?thesis unfolding hm [OF h(1)] using chain [OF that(1,2) h(2)] by blast
      qed
    qed
    then show "lh_chain table'" unfolding lh_chain_def len by blast
  qed
  show "entered table' = entered_but table hole"
    unfolding entered_def entered_but_def len n_def [symmetric] sl by (metis (no_types, lifting))
qed

text \<open>
  The deletion loop ends within as many rounds as there are slots, because the hole moves
  away from a fixed empty slot.
\<close>

definition same_fields :: "ipc_entry list \<Rightarrow> ipc_entry list \<Rightarrow> bool" where
  "same_fields table table' \<longleftrightarrow>
    length table' = length table \<and>
    (\<forall>k. ie_object (table' ! k) = ie_object (table ! k) \<and> ie_bits (table' ! k) = ie_bits (table ! k) \<and>
         ie_request (table' ! k) = ie_request (table ! k))"

lemma same_fields_refl [simp]: "same_fields table table"
  by (simp add: same_fields_def)

lemma same_fields_set [simp]: "same_fields table (set_ie_index table h i)"
  by (simp add: same_fields_def)

lemma same_fields_trans:
  "same_fields table table' \<Longrightarrow> same_fields table' table'' \<Longrightarrow> same_fields table table''"
  by (simp add: same_fields_def)

lemma local_delete_loop_spec:
  assumes "hole_ok table hole" and "e < length table" "slot table e = 0"
    and "length table - pos (length table) e hole \<le> fuel"
  shows "\<exists>table'. local_delete_loop fuel table (length table) hole = Some table' \<and> lh_ok table' \<and>
    entered table' = entered_but table hole \<and> same_fields table table'"
  using assms
proof (induction fuel arbitrary: table hole)
  case 0
  then show ?case using pos_less [OF 0(2) hole_okD(1) [OF 0(1)]] by simp
next
  case (Suc fuel)
  let ?n = "length table"
  note hole = hole_okD(1,2) [OF Suc.prems(1)]
  have "\<exists>d < ?n. local_scan_loop ?n table ?n hole hole = Some (d, slot table d) \<and>
    (if slot table d = 0
     then (d = e \<or> pos ?n e hole < pos ?n e d) \<and>
          (\<forall>x < ?n. pos ?n e hole < pos ?n e x \<longrightarrow> d = e \<or> pos ?n e x < pos ?n e d \<longrightarrow>
            slot table x \<noteq> 0 \<and> pos ?n e hole < pos ?n e (home table x))
     else pos ?n e hole < pos ?n e d \<and> pos ?n e (home table d) \<le> pos ?n e hole)"
    by (rule local_scan_spec [OF Suc.prems(2,3) hole hole order_refl _ hole_okD(5) [OF Suc.prems(1)]])
      simp_all
  then obtain d where d: "d < ?n" and scan: "local_scan_loop ?n table ?n hole hole = Some (d, slot table d)"
    and stop: "if slot table d = 0
     then (d = e \<or> pos ?n e hole < pos ?n e d) \<and>
          (\<forall>x < ?n. pos ?n e hole < pos ?n e x \<longrightarrow> d = e \<or> pos ?n e x < pos ?n e d \<longrightarrow>
            slot table x \<noteq> 0 \<and> pos ?n e hole < pos ?n e (home table x))
     else pos ?n e hole < pos ?n e d \<and> pos ?n e (home table d) \<le> pos ?n e hole"
    by blast
  show ?case
  proof (cases "slot table d = 0")
    case True
    from stop [unfolded if_P [OF True]] have "(d = e \<or> pos ?n e hole < pos ?n e d) \<and>
      (\<forall>x < ?n. pos ?n e hole < pos ?n e x \<longrightarrow> d = e \<or> pos ?n e x < pos ?n e d \<longrightarrow>
        slot table x \<noteq> 0 \<and> pos ?n e hole < pos ?n e (home table x))"
      .
    then have clump: "\<And>x. x < ?n \<Longrightarrow> pos ?n e hole < pos ?n e x \<Longrightarrow> d = e \<or> pos ?n e x < pos ?n e d \<Longrightarrow>
      slot table x \<noteq> 0 \<and> pos ?n e hole < pos ?n e (home table x)"
      and behind: "d = e \<or> pos ?n e hole < pos ?n e d"
      by blast+
    show ?thesis
      using hole_clear [OF Suc.prems(1-3) d True clump behind] scan True by simp
  next
    case False
    with stop have st: "pos ?n e hole < pos ?n e d" "pos ?n e (home table d) \<le> pos ?n e hole" by simp_all
    let ?T = "set_ie_index table hole (slot table d)"
    note mv = hole_move [OF Suc.prems(1-3) d False st]
    have "\<exists>table'. local_delete_loop fuel ?T (length ?T) d = Some table' \<and> lh_ok table' \<and>
      entered table' = entered_but ?T d \<and> same_fields ?T table'"
      using st(1) Suc.prems(2,4) by (intro Suc.IH mv(1,3)) simp_all
    with scan False mv(2) show ?thesis
      using same_fields_trans [OF same_fields_set [of table hole "slot table d"]] by auto
  qed
qed

lemma local_delete_spec:
  assumes ok: "lh_ok table" and i: "i \<in> entered table" and obj: "ie_object (table ! i) = obj"
  shows "\<exists>table'. local_delete table (length table) obj i = Some table' \<and> lh_ok table' \<and>
    entered table' = entered table - {i} \<and> same_fields table table'"
proof -
  let ?n = "length table"
  obtain h where h: "h < ?n" "slot table h = i" "i \<noteq> 0" using i by (auto simp: entered_def)
  obtain e where e: "e < ?n" "slot table e = 0" using lh_free_slot [OF ok] .
  have hs: "slot table h \<noteq> 0" using h by simp
  have hm: "home table h = IH_LOCAL_HASH obj ?n" using h obj by (simp add: home_def slot_object_def)
  have "local_find_loop ?n table ?n (slot table h) (home table h) = Some h"
  proof (rule local_find_spec [OF ok h(1) hs e])
    show "home table h < ?n" using lh_okD(1) [OF ok] by (rule home_less)
    show "pos ?n e h - pos ?n e (home table h) < ?n" using pos_less [OF e(1) h(1)] by linarith
  qed (rule lh_chainD [OF ok h(1) hs])
  moreover have "hole_ok table h"
    unfolding hole_ok_def using h(1) hs ok unfolding lh_ok_def by blast
  moreover have "entered_but table h = entered table - {i}"
  proof -
    have "k = h" if "k < ?n" "slot table k = i" for k
      using lh_okD(3) [OF ok that(1) h(1)] that(2) h(2,3) by (simp add: slot_object_def)
    then show ?thesis using h(2) unfolding entered_def entered_but_def by blast
  qed
  ultimately show ?thesis
    using local_delete_loop_spec [of table h e ?n] e h(2) by (simp add: local_delete_def hm)
qed

end
