(* ===== verification/Ipc_Hash_Global.thy ===== *)
theory Ipc_Hash_Global
  imports Ipc_Hash
begin

text \<open>
  The global reverse hash table of \<^verbatim>\<open>ipc_hash.c\<close> as a finite map from a space and an object to a
  name: well-formed tables, and what the operations and \<^verbatim>\<open>ipc_hash_init\<close> do to the map.
\<close>

section \<open>Well-formed global tables\<close>

definition bucket_map :: "ihgb \<Rightarrow> space_id \<times> ipc_object_t \<rightharpoonup> mach_port_t" where
  "bucket_map b = map_of (map (\<lambda>(s, obj, name). ((s, obj), name)) b)"

definition bucket_keys :: "ihgb \<Rightarrow> (space_id \<times> ipc_object_t) list" where
  "bucket_keys b = map (\<lambda>(s, obj, name). (s, obj)) b"

text \<open>Every hash value is a bucket, an entry is in its own bucket, and only once.\<close>

definition gh_ok :: "ipc_hash_global \<Rightarrow> bool" where
  "gh_ok g \<longleftrightarrow>
    length (ipc_hash_global_table g) = Suc (unat (ipc_hash_global_mask g)) \<and>
    (\<forall>i < length (ipc_hash_global_table g).
      distinct (bucket_keys (ipc_hash_global_table g ! i)) \<and>
      (\<forall>(s, obj) \<in> set (bucket_keys (ipc_hash_global_table g ! i)). IH_GLOBAL_HASH g s obj = i))"

definition gh_map :: "ipc_hash_global \<Rightarrow> space_id \<times> ipc_object_t \<rightharpoonup> mach_port_t" where
  "gh_map g k = bucket_map (ipc_hash_global_table g ! IH_GLOBAL_HASH g (fst k) (snd k)) k"

lemma bucket_simps [simp]:
  "bucket_keys [] = []" "bucket_keys ((s, obj, name) # b) = (s, obj) # bucket_keys b"
  "bucket_map [] k = None"
  "bucket_map ((s, obj, name) # b) k = (if k = (s, obj) then Some name else bucket_map b k)"
  by (simp_all add: bucket_keys_def bucket_map_def)

lemma bucket_map_None: "bucket_map b k = None \<longleftrightarrow> k \<notin> set (bucket_keys b)"
  by (induction b) (auto split: prod.splits if_splits)

text \<open>Taking an entry out of its bucket and putting it in front permutes the bucket.\<close>

lemma bucket_extract_spec:
  assumes "distinct (bucket_keys b)"
  shows "case bucket_extract s obj b of
      None \<Rightarrow> bucket_map b (s, obj) = None
    | Some ((s', obj', name), rest) \<Rightarrow>
        s' = s \<and> obj' = obj \<and> bucket_map b (s, obj) = Some name \<and>
        set (bucket_keys b) = insert (s, obj) (set (bucket_keys rest)) \<and>
        distinct (bucket_keys ((s', obj', name) # rest)) \<and>
        bucket_map ((s', obj', name) # rest) = bucket_map b"
  using assms
proof (induction b)
  case Nil
  then show ?case by simp
next
  case (Cons entry b)
  obtain s1 o1 n1 where entry: "entry = (s1, o1, n1)" by (cases entry)
  have IH: "case bucket_extract s obj b of
      None \<Rightarrow> bucket_map b (s, obj) = None
    | Some ((s', obj', name), rest) \<Rightarrow>
        s' = s \<and> obj' = obj \<and> bucket_map b (s, obj) = Some name \<and>
        set (bucket_keys b) = insert (s, obj) (set (bucket_keys rest)) \<and>
        distinct (bucket_keys ((s', obj', name) # rest)) \<and>
        bucket_map ((s', obj', name) # rest) = bucket_map b"
    using Cons by (simp add: entry)
  show ?case
  proof (cases "(s1, o1) = (s, obj)")
    case True
    then show ?thesis using Cons.prems by (simp add: entry)
  next
    case False
    show ?thesis
    proof (cases "bucket_extract s obj b")
      case None
      then show ?thesis using IH False by (auto simp: entry)
    next
      case (Some r)
      obtain s' obj' name rest where r: "r = ((s', obj', name), rest)" by (cases r) auto
      have "bucket_map ((s, obj, name) # entry # rest) = bucket_map (entry # b)"
        using IH False unfolding Some r entry fun_eq_iff by (auto split: if_splits)
      then show ?thesis using IH False Cons.prems by (auto simp: entry r Some)
    qed
  qed
qed

lemma bucket_remove1_spec:
  assumes "distinct (bucket_keys b)" and "bucket_map b (s, obj) = Some name"
  shows "distinct (bucket_keys (remove1 (s, obj, name) b))"
    and "set (bucket_keys (remove1 (s, obj, name) b)) = set (bucket_keys b) - {(s, obj)}"
    and "bucket_map (remove1 (s, obj, name) b) = (bucket_map b)((s, obj) := None)"
proof -
  have "distinct (bucket_keys (remove1 (s, obj, name) b)) \<and>
    set (bucket_keys (remove1 (s, obj, name) b)) = set (bucket_keys b) - {(s, obj)} \<and>
    bucket_map (remove1 (s, obj, name) b) = (bucket_map b)((s, obj) := None)"
    using assms
  proof (induction b)
    case (Cons entry b)
    obtain s1 o1 n1 where entry: "entry = (s1, o1, n1)" by (cases entry)
    show ?case
    proof (cases "(s1, o1) = (s, obj)")
      case True
      then have "bucket_map b (s, obj) = None" using Cons.prems by (simp add: entry bucket_map_None)
      with True Cons.prems show ?thesis unfolding entry by (auto simp: fun_eq_iff)
    next
      case False
      with Cons show ?thesis unfolding entry by (auto simp: fun_eq_iff)
    qed
  qed simp
  then show "distinct (bucket_keys (remove1 (s, obj, name) b))"
    and "set (bucket_keys (remove1 (s, obj, name) b)) = set (bucket_keys b) - {(s, obj)}"
    and "bucket_map (remove1 (s, obj, name) b) = (bucket_map b)((s, obj) := None)"
    by simp_all
qed

lemma IH_GLOBAL_HASH_less: "gh_ok g \<Longrightarrow> IH_GLOBAL_HASH g s obj < length (ipc_hash_global_table g)"
  by (simp add: gh_ok_def IH_GLOBAL_HASH_def word_and_le1 less_Suc_eq_le unat_mono word_le_nat_alt [symmetric])

lemma IH_GLOBAL_HASH_set_bucket [simp]: "IH_GLOBAL_HASH (set_bucket g i b) = IH_GLOBAL_HASH g"
  by (simp add: fun_eq_iff IH_GLOBAL_HASH_def set_bucket_def)

lemma gh_ok_set_bucket:
  assumes "gh_ok g" and "distinct (bucket_keys b)"
    and "\<And>s obj. (s, obj) \<in> set (bucket_keys b) \<Longrightarrow> IH_GLOBAL_HASH g s obj = i"
  shows "gh_ok (set_bucket g i b)"
proof -
  have "IH_GLOBAL_HASH (g\<lparr>ipc_hash_global_table := t\<rparr>) = IH_GLOBAL_HASH g" for t
    by (simp add: fun_eq_iff IH_GLOBAL_HASH_def)
  moreover have "(ipc_hash_global_table g)[i := b] ! j = (if j = i then b else ipc_hash_global_table g ! j)"
    if "j < length (ipc_hash_global_table g)" for j
    using that by (simp add: nth_list_update)
  ultimately show ?thesis
    using assms unfolding gh_ok_def set_bucket_def by (auto split: if_splits)
qed

lemma gh_okD:
  assumes "gh_ok g"
  shows "distinct (bucket_keys (ipc_hash_global_table g ! IH_GLOBAL_HASH g s obj))"
    and "(s', obj') \<in> set (bucket_keys (ipc_hash_global_table g ! IH_GLOBAL_HASH g s obj)) \<Longrightarrow>
      IH_GLOBAL_HASH g s' obj' = IH_GLOBAL_HASH g s obj"
  using assms IH_GLOBAL_HASH_less [OF assms, of s obj] unfolding gh_ok_def by fast+

lemma gh_map_set_bucket:
  assumes "gh_ok g" and "i = IH_GLOBAL_HASH g s obj"
    and "\<And>k. k \<noteq> (s, obj) \<Longrightarrow> bucket_map b k = bucket_map (ipc_hash_global_table g ! i) k"
  shows "gh_map (set_bucket g i b) = (gh_map g)((s, obj) := bucket_map b (s, obj))"
  using IH_GLOBAL_HASH_less [OF assms(1)] assms(2,3)
  by (auto simp: fun_eq_iff gh_map_def set_bucket_def [of g] nth_list_update IH_GLOBAL_HASH_def)

lemma global_lookup_spec:
  assumes ok: "gh_ok g"
  shows "fst (ipc_hash_global_lookup g s obj) = gh_map g (s, obj)"
    and "gh_ok (snd (ipc_hash_global_lookup g s obj))"
    and "gh_map (snd (ipc_hash_global_lookup g s obj)) = gh_map g"
proof -
  let ?i = "IH_GLOBAL_HASH g s obj"
  let ?b = "ipc_hash_global_table g ! ?i"
  note ex = bucket_extract_spec [OF gh_okD(1) [OF ok, of s obj], of s obj]
  have "fst (ipc_hash_global_lookup g s obj) = gh_map g (s, obj) \<and>
    gh_ok (snd (ipc_hash_global_lookup g s obj)) \<and>
    gh_map (snd (ipc_hash_global_lookup g s obj)) = gh_map g"
  proof (cases "bucket_extract s obj ?b")
    case None
    then show ?thesis using ex ok by (simp add: ipc_hash_global_lookup_def gh_map_def)
  next
    case (Some r)
    obtain name rest where r: "r = ((s, obj, name), rest)" using ex Some by (cases r) auto
    let ?b' = "(s, obj, name) # rest"
    have ex': "bucket_map ?b (s, obj) = Some name" "set (bucket_keys ?b) = set (bucket_keys ?b')"
      "distinct (bucket_keys ?b')" "bucket_map ?b' = bucket_map ?b"
      using ex by (simp_all only: Some r option.case prod.case bucket_simps list.set simp_thms)
    have "gh_ok (set_bucket g ?i ?b')"
      using gh_okD(2) [OF ok] ex'(2,3) by (intro gh_ok_set_bucket [OF ok]) (simp_all only:)
    moreover have "gh_map (set_bucket g ?i ?b') = (gh_map g)((s, obj) := bucket_map ?b' (s, obj))"
      using ex'(4) by (intro gh_map_set_bucket [OF ok refl]) simp
    moreover have "gh_map g (s, obj) = Some name" using ex'(1) by (simp add: gh_map_def)
    ultimately show ?thesis
      by (simp add: ipc_hash_global_lookup_def Some r fun_upd_idem)
  qed
  then show "fst (ipc_hash_global_lookup g s obj) = gh_map g (s, obj)"
    and "gh_ok (snd (ipc_hash_global_lookup g s obj))"
    and "gh_map (snd (ipc_hash_global_lookup g s obj)) = gh_map g"
    by simp_all
qed

lemma global_insert_spec:
  assumes ok: "gh_ok g" and new: "gh_map g (s, obj) = None"
  shows "gh_ok (fst (ipc_hash_global_insert g s space obj name))"
    and "gh_map (fst (ipc_hash_global_insert g s space obj name)) = (gh_map g)((s, obj) \<mapsto> name)"
proof -
  let ?i = "IH_GLOBAL_HASH g s obj"
  let ?b = "(s, obj, name) # ipc_hash_global_table g ! ?i"
  have "(s, obj) \<notin> set (bucket_keys (ipc_hash_global_table g ! ?i))"
    using new by (simp add: gh_map_def bucket_map_None)
  then have "gh_ok (set_bucket g ?i ?b)"
    using gh_okD(1) [OF ok, of s obj] gh_okD(2) [OF ok, of _ _ s obj]
    by (intro gh_ok_set_bucket [OF ok]) auto
  then show "gh_ok (fst (ipc_hash_global_insert g s space obj name))"
    by (simp add: ipc_hash_global_insert_def Let_def)
  have "gh_map (set_bucket g ?i ?b) = (gh_map g)((s, obj) := bucket_map ?b (s, obj))"
    by (intro gh_map_set_bucket [OF ok refl]) simp
  then show "gh_map (fst (ipc_hash_global_insert g s space obj name)) = (gh_map g)((s, obj) \<mapsto> name)"
    by (simp add: ipc_hash_global_insert_def Let_def)
qed

lemma global_delete_spec:
  assumes ok: "gh_ok g" and old: "gh_map g (s, obj) = Some name"
  shows "gh_ok (fst (ipc_hash_global_delete g s space obj name))"
    and "gh_map (fst (ipc_hash_global_delete g s space obj name)) = (gh_map g)((s, obj) := None)"
proof -
  let ?i = "IH_GLOBAL_HASH g s obj"
  let ?b = "remove1 (s, obj, name) (ipc_hash_global_table g ! ?i)"
  have "bucket_map (ipc_hash_global_table g ! ?i) (s, obj) = Some name"
    using old by (simp add: gh_map_def)
  note b = bucket_remove1_spec [OF gh_okD(1) [OF ok] this]
  have "gh_ok (set_bucket g ?i ?b)"
    using gh_okD(2) [OF ok, of _ _ s obj] b(1,2) by (intro gh_ok_set_bucket [OF ok]) auto
  then show "gh_ok (fst (ipc_hash_global_delete g s space obj name))"
    by (simp add: ipc_hash_global_delete_def Let_def)
  have "gh_map (set_bucket g ?i ?b) = (gh_map g)((s, obj) := bucket_map ?b (s, obj))"
    using b(3) by (intro gh_map_set_bucket [OF ok refl]) simp
  then show "gh_map (fst (ipc_hash_global_delete g s space obj name)) = (gh_map g)((s, obj) := None)"
    using b(3) by (simp add: ipc_hash_global_delete_def Let_def)
qed

section \<open>Initialisation\<close>

lemma and_pred_eq_0_nat:
  fixes w :: nat
  assumes "0 < w" and "w AND (w - 1) = 0"
  shows "\<exists>k. w = 2 ^ k"
proof -
  obtain k where k: "2 ^ k \<le> w" "w < 2 ^ Suc k"
    using ex_power_ivl1 [of 2 w] assms(1) by (metis One_nat_def Suc_eq_plus1 Suc_leI order_refl)
  have "w = 2 ^ k"
  proof (rule ccontr)
    assume "w \<noteq> 2 ^ k"
    with k have "2 ^ k \<le> w - 1" by linarith
    moreover have "(w - 1) div 2 ^ k = 1" "w div 2 ^ k = 1"
      using k calculation by (auto intro!: div_nat_eqI)
    ultimately have "bit w k" "bit (w - 1) k" by (simp_all add: bit_iff_odd)
    then have "bit (w AND (w - 1)) k" by (simp add: bit_and_iff)
    with assms(2) show False by simp
  qed
  then show ?thesis ..
qed

lemma unat_and_eq_0: "(v AND w = 0) \<longleftrightarrow> (unat v AND unat w = 0)" for v w :: "32 word"
  by (metis unsigned_and_eq unsigned_0 unsigned_eq_0_iff)

lemma nat_or_less: "x < 2 ^ n \<Longrightarrow> y < 2 ^ n \<Longrightarrow> x OR y < (2::nat) ^ n"
  by (metis or_eq_0_iff take_bit_nat_eq_self_iff take_bit_or)

lemma nat_le_or: "x \<le> x OR (y::nat)"
  by (metis nat_int of_nat_or_eq or_greater_eq nat_mono of_nat_0_le_iff)

lemma unat_two_power:
  assumes "k \<le> 31"
  shows "unat (2 ^ k :: 32 word) = 2 ^ k" and "unat (2 ^ k - 1 :: 32 word) = 2 ^ k - 1"
proof -
  have "(2::nat) ^ k \<le> 2 ^ 31" using assms by (intro power_increasing) simp_all
  then show 1: "unat (2 ^ k :: 32 word) = 2 ^ k" 
    using unat_of_nat [of "2 ^ k", where 'a = 32] by simp
  then show "unat (2 ^ k - 1 :: 32 word) = 2 ^ k - 1" by (simp add: unat_sub_if' 1)
qed

text \<open>The loop stops at the first power of two above the mask it starts with.\<close>

lemma round_up_loop_spec:
  assumes "unat b = 2 ^ i" and "i < k" "k \<le> 31"
    and "2 ^ (k - 1) \<le> unat mk" "unat mk < 2 ^ k" and "take_bit i (unat mk) = mask i"
    and "k - i \<le> fuel"
  shows "round_up_loop fuel b mk = Some (2 ^ k, 2 ^ k - 1)"
  using assms
proof (induction fuel arbitrary: b i mk)
  case 0
  then show ?case by simp
next
  case (Suc fuel)
  define m where "m = unat mk OR 2 ^ i"
  have um: "unat (mk OR b) = m" using Suc.prems(1) by (simp add: unsigned_or_eq m_def)
  have "(2::nat) ^ i < 2 ^ k" using Suc.prems(2) by simp
  then have lt: "m < 2 ^ k" using Suc.prems(5) unfolding m_def by (intro nat_or_less)
  have ge: "2 ^ (k - 1) \<le> m" using Suc.prems(4) nat_le_or unfolding m_def by (rule order_trans)
  have k31: "(2::nat) ^ k \<le> 2 ^ 31" using Suc.prems(3) by (intro power_increasing) simp_all
  have us: "unat ((mk OR b) + 1) = m + 1"
    using lt k31 um unat_word_ariths(1) [of "mk OR b" 1] by simp
  have low: "take_bit (Suc i) m = mask (Suc i)"
  proof (rule bit_eqI)
    fix j
    have "j < i \<Longrightarrow> bit (unat mk) j"
      using Suc.prems(6) by (metis bit_mask_iff bit_take_bit_iff possible_bit_nat)
    then show "bit (take_bit (Suc i) m) j \<longleftrightarrow> bit (mask (Suc i) :: nat) j"
      by (auto simp: m_def bit_take_bit_iff bit_or_iff bit_mask_iff bit_exp_iff less_Suc_eq)
  qed
  have full: "m = 2 ^ k - 1" if "((mk OR b) + 1) AND (mk OR b) = 0"
  proof -
    have "(m + 1) AND (m + 1 - 1) = 0" using that by (simp add: unat_and_eq_0 us um)
    then obtain j where j: "m + 1 = 2 ^ j" using and_pred_eq_0_nat [of "m + 1"] by auto
    have "(2::nat) ^ (k - 1) < 2 ^ j" "(2::nat) ^ j \<le> 2 ^ k" using ge lt j by linarith+
    then have "k - 1 < j" "j \<le> k" by (simp_all only: power_strict_increasing_iff power_increasing_iff numeral_less_iff one_less_numeral_iff semiring_norm)
    then have "j = k" using Suc.prems(2) by simp
    with j show ?thesis by simp
  qed
  show ?case
  proof (cases "((mk OR b) + 1) AND (mk OR b) = 0")
    case True
    have "mk OR b = 2 ^ k - 1"
      using full [OF True] um unat_two_power(2) [OF Suc.prems(3)] by (simp add: word_unat_eq_iff)
    with True show ?thesis by (simp add: Let_def)
  next
    case False
    have "Suc i < k"
    proof (rule ccontr)
      assume "\<not> Suc i < k"
      then have "Suc i = k" using Suc.prems(2) by simp
      then have "m = mask k" using low lt by (simp add: take_bit_nat_eq_self)
      then have "(m + 1) AND m = 0"
        by (intro bit_eqI) (auto simp: Suc_mask_eq_exp bit_and_iff bit_exp_iff bit_mask_iff)
      with False show False by (simp add: unat_and_eq_0 us um)
    qed
    have "unat (push_bit 1 b) = 2 ^ Suc i"
    proof -
      have "(2::nat) ^ Suc i < 2 ^ 32" using \<open>Suc i < k\<close> Suc.prems(3) by (intro power_strict_increasing) simp_all
      then show ?thesis using Suc.prems(1) by (simp add: push_bit_eq_mult unat_word_ariths)
    qed
    from Suc.IH [OF this \<open>Suc i < k\<close> Suc.prems(3)] um ge lt low Suc.prems(7) False
    show ?thesis by (simp add: Let_def)
  qed
qed

lemma ipc_hash_init_spec:
  assumes "2 \<le> unat size0" "unat size0 \<le> 2 ^ 31"
  shows "\<exists>k g. ipc_hash_init size0 tmax = Some g \<and> ipc_hash_global_size g = 2 ^ k \<and> k \<le> 31 \<and>
    unat size0 \<le> 2 ^ k \<and> 2 ^ k < 2 * unat size0 \<and> ipc_hash_global_mask g = 2 ^ k - 1 \<and>
    gh_ok g \<and> gh_map g = Map.empty"
proof -
  obtain k where k: "2 ^ k < unat size0" "unat size0 \<le> 2 ^ Suc k"
    using ex_power_ivl2 [of 2 "unat size0"] assms(1) by auto
  have "(2::nat) ^ k < 2 ^ 31" using k(1) assms(2) by linarith
  then have k31: "Suc k \<le> 31" using power_less_imp_less_exp [of "2::nat" k 31] by simp
  have us: "unat (size0 - 1) = unat size0 - 1" using assms(1) by (simp add: unat_sub_if')
  have ne: "size0 \<noteq> 0" using assms(1) by auto
  have u2: "unat (2 ^ Suc k :: 32 word) = 2 ^ Suc k" using k31 by (rule unat_two_power)
  have um: "unat (2 ^ Suc k - 1 :: 32 word) = 2 ^ Suc k - 1"
    using k31 by (rule unat_two_power)
  let ?g = "\<lparr>ipc_hash_global_size = 2 ^ Suc k, ipc_hash_global_mask = 2 ^ Suc k - 1,
    ipc_hash_global_table = replicate (unat (2 ^ Suc k :: 32 word)) []\<rparr>"
  have init: "ipc_hash_init size0 tmax = Some ?g"
  proof (cases "size0 AND (size0 - 1) = 0")
    case True
    then have "unat size0 AND (unat size0 - 1) = 0" by (simp add: unat_and_eq_0 us)
    then obtain j where j: "unat size0 = 2 ^ j" using and_pred_eq_0_nat [of "unat size0"] assms(1) by auto
    then have "k < j" "j \<le> Suc k" using k by (simp_all only: j power_strict_increasing_iff power_increasing_iff one_less_numeral_iff semiring_norm)
    then have "j = Suc k" by simp
    then have "size0 = 2 ^ Suc k" using j u2 by (simp add: word_unat_eq_iff)
    then show ?thesis using True ne by (simp add: ipc_hash_init_def Let_def del: power_Suc)
  next
    case False
    have "round_up_loop 33 1 (size0 - 1) = Some (2 ^ Suc k, 2 ^ Suc k - 1)"
      using k31 k us by (intro round_up_loop_spec [where i = 0]) simp_all
    with False ne show ?thesis by (simp add: ipc_hash_init_def Let_def del: power_Suc round_up_loop.simps)
  qed
  have "gh_ok ?g" using u2 um by (simp add: gh_ok_def del: power_Suc)
  moreover have "gh_map ?g = Map.empty"
    using IH_GLOBAL_HASH_less [OF \<open>gh_ok ?g\<close>] by (simp add: gh_map_def fun_eq_iff del: power_Suc)
  ultimately show ?thesis
    using init k k31 by (intro exI [of _ "Suc k"] exI [of _ ?g]) simp
qed

end
