(* ===== verification/Reverse_Hash.thy ===== *)
theory Reverse_Hash
  imports Ipc_Hash_Global
begin

text \<open>
  The interface of a reverse hash table, of which \<^verbatim>\<open>ipc_hash.c\<close> has two: a lookup that may
  reorganise the table, an insertion of a key that is not entered and a deletion of an
  entry.  The local table of a space and the global table are instances.
\<close>

locale reverse_hash =
  fixes lookup :: "'t \<Rightarrow> 'k \<Rightarrow> ('v option \<times> 't) option"
    and ins :: "'t \<Rightarrow> 'k \<Rightarrow> 'v \<Rightarrow> 't option"
    and del :: "'t \<Rightarrow> 'k \<Rightarrow> 'v \<Rightarrow> 't option"
    and contents :: "'t \<Rightarrow> 'k \<rightharpoonup> 'v"
    and invar :: "'t \<Rightarrow> bool"
    and fits :: "'t \<Rightarrow> 'k \<Rightarrow> 'v \<Rightarrow> bool"
  assumes lookup: "invar t \<Longrightarrow>
      \<exists>t'. lookup t k = Some (contents t k, t') \<and> invar t' \<and> contents t' = contents t \<and> fits t' = fits t"
    and insert: "invar t \<Longrightarrow> contents t k = None \<Longrightarrow> fits t k v \<Longrightarrow>
      \<exists>t'. ins t k v = Some t' \<and> invar t' \<and> contents t' = (contents t)(k \<mapsto> v) \<and> fits t' = fits t"
    and delete: "invar t \<Longrightarrow> contents t k = Some v \<Longrightarrow>
      \<exists>t'. del t k v = Some t' \<and> invar t' \<and> contents t' = (contents t)(k := None) \<and> fits t' = fits t"
begin

definition found :: "'t \<Rightarrow> 'k \<Rightarrow> 'v option" where
  "found t k = (case lookup t k of None \<Rightarrow> None | Some (r, t') \<Rightarrow> r)"

lemma found_contents: "invar t \<Longrightarrow> found t k = contents t k"
  using lookup [of t k] by (auto simp: found_def)

lemma found_insert:
  assumes "invar t" "contents t k = None" "fits t k v"
  shows "\<exists>t'. ins t k v = Some t' \<and> invar t' \<and> (\<forall>k'. found t' k' = (if k' = k then Some v else found t k'))"
  using insert [OF assms] found_contents assms(1) by fastforce

lemma found_delete:
  assumes "invar t" "contents t k = Some v"
  shows "\<exists>t'. del t k v = Some t' \<and> invar t' \<and> (\<forall>k'. found t' k' = (if k' = k then None else found t k'))"
  using delete [OF assms] found_contents assms(1) by fastforce

lemma delete_insert:
  assumes "invar t" "contents t k = None" "fits t k v"
  shows "\<exists>t1 t2. ins t k v = Some t1 \<and> del t1 k v = Some t2 \<and> invar t2 \<and> found t2 = found t"
proof -
  obtain t1 where t1: "ins t k v = Some t1" "invar t1" "contents t1 = (contents t)(k \<mapsto> v)"
    using insert [OF assms] by blast
  obtain t2 where t2: "del t1 k v = Some t2" "invar t2" "contents t2 = (contents t1)(k := None)"
    using delete [OF t1(2), of k v] t1(3) by auto
  have "contents t2 = contents t" using t1(3) t2(3) assms(2) by (simp add: fun_eq_iff)
  then have "found t2 = found t" using found_contents t2(2) assms(1) by (simp add: fun_eq_iff)
  with t1(1) t2(1,2) show ?thesis by blast
qed

end

section \<open>The local table is a reverse hash\<close>

definition local_ok :: "ipc_space \<Rightarrow> bool" where
  "local_ok space \<longleftrightarrow> lh_ok (is_table space) \<and> is_table_size space = length (is_table space)"

definition local_map :: "ipc_space \<Rightarrow> ipc_object_t \<rightharpoonup> nat" where
  "local_map space obj =
    (if \<exists>i \<in> entered (is_table space). ie_object (is_table space ! i) = obj
     then Some (THE i. i \<in> entered (is_table space) \<and> ie_object (is_table space ! i) = obj) else None)"

definition local_fits :: "ipc_space \<Rightarrow> ipc_object_t \<Rightarrow> nat \<Rightarrow> bool" where
  "local_fits space obj i \<longleftrightarrow>
    0 < i \<and> i < length (is_table space) \<and> ie_object (is_table space ! i) = obj"

lemma entered_inj:
  "lh_ok table \<Longrightarrow> i \<in> entered table \<Longrightarrow> j \<in> entered table \<Longrightarrow>
   ie_object (table ! i) = ie_object (table ! j) \<Longrightarrow> i = j"
  unfolding lh_ok_def entered_def slot_object_def by blast

lemma local_map_Some:
  assumes "local_ok space"
  shows "local_map space obj = Some i \<longleftrightarrow>
    i \<in> entered (is_table space) \<and> ie_object (is_table space ! i) = obj"
proof -
  let ?P = "\<lambda>i. i \<in> entered (is_table space) \<and> ie_object (is_table space ! i) = obj"
  have u: "j = k" if "?P j" "?P k" for j k
    using that assms entered_inj unfolding local_ok_def by blast
  have "(THE j. ?P j) = k" if "?P k" for k
    using that u by (intro the_equality) blast+
  then show ?thesis unfolding local_map_def by auto
qed

lemma local_map_eqI:
  assumes "local_ok s" "local_ok s'"
    and "\<And>i. i \<in> entered (is_table s') \<and> ie_object (is_table s' ! i) = obj \<longleftrightarrow> m obj = Some i"
  shows "local_map s' obj = m obj"
  using assms local_map_Some [OF assms(2), of obj] by (cases "m obj"; cases "local_map s' obj") auto

lemma ipc_hash_local_lookup_spec:
  assumes "local_ok space"
  shows "map_option (map_option snd) (ipc_hash_local_lookup space obj) = Some (local_map space obj)"
  using assms local_lookup_spec [of "is_table space" obj]
  by (simp add: local_ok_def ipc_hash_local_lookup_def local_map_def Let_def)

lemma ipc_hash_local_insert_spec:
  assumes ok: "local_ok space" and new: "local_map space obj = None" and fits: "local_fits space obj i"
  shows "\<exists>table. ipc_hash_local_insert space obj i = Some (space\<lparr>is_table := table\<rparr>) \<and>
    same_fields (is_table space) table \<and> entered table = insert i (entered (is_table space)) \<and>
    local_ok (space\<lparr>is_table := table\<rparr>)"
proof -
  have "ie_object (is_table space ! j) \<noteq> obj" if "j \<in> entered (is_table space)" for j
    using new that local_map_Some [OF ok, of obj j] by simp
  then obtain z where "local_insert (is_table space) (length (is_table space)) obj i =
      Some (set_ie_index (is_table space) z i)"
    "lh_ok (set_ie_index (is_table space) z i)"
    "entered (set_ie_index (is_table space) z i) = insert i (entered (is_table space))"
    using local_insert_spec [of "is_table space" i obj] ok fits
    unfolding local_ok_def local_fits_def by blast
  then show ?thesis
    using ok by (intro exI [of _ "set_ie_index (is_table space) z i"])
      (simp add: ipc_hash_local_insert_def local_ok_def)
qed

lemma ipc_hash_local_delete_spec:
  assumes ok: "local_ok space" and old: "local_map space obj = Some i"
  shows "\<exists>table. ipc_hash_local_delete space obj i = Some (space\<lparr>is_table := table\<rparr>) \<and>
    same_fields (is_table space) table \<and> entered table = entered (is_table space) - {i} \<and>
    local_ok (space\<lparr>is_table := table\<rparr>)"
proof -
  have i: "i \<in> entered (is_table space)" "ie_object (is_table space ! i) = obj"
    using old local_map_Some [OF ok] by simp_all
  obtain table where "local_delete (is_table space) (length (is_table space)) obj i = Some table"
    "lh_ok table" "entered table = entered (is_table space) - {i}" "same_fields (is_table space) table"
    using local_delete_spec [OF _ i] ok unfolding local_ok_def by blast
  then show ?thesis
    using ok by (intro exI [of _ table]) (simp add: ipc_hash_local_delete_def local_ok_def same_fields_def)
qed

interpretation local_hash: reverse_hash
  "\<lambda>space obj. map_option (\<lambda>r. (map_option snd r, space)) (ipc_hash_local_lookup space obj)"
  ipc_hash_local_insert ipc_hash_local_delete local_map local_ok local_fits
proof
  fix t :: ipc_space and k v
  assume ok: "local_ok t"
  show "\<exists>t'. map_option (\<lambda>r. (map_option snd r, t)) (ipc_hash_local_lookup t k) =
      Some (local_map t k, t') \<and> local_ok t' \<and> local_map t' = local_map t \<and> local_fits t' = local_fits t"
    using ipc_hash_local_lookup_spec [OF ok, of k] ok by auto
  show "\<exists>t'. ipc_hash_local_insert t k v = Some t' \<and> local_ok t' \<and>
      local_map t' = (local_map t)(k \<mapsto> v) \<and> local_fits t' = local_fits t"
    if new: "local_map t k = None" "local_fits t k v"
  proof -
    obtain table where t': "ipc_hash_local_insert t k v = Some (t\<lparr>is_table := table\<rparr>)"
      "same_fields (is_table t) table" "entered table = insert v (entered (is_table t))"
      "local_ok (t\<lparr>is_table := table\<rparr>)"
      using ipc_hash_local_insert_spec [OF ok new] by blast
    have "local_map (t\<lparr>is_table := table\<rparr>) = (local_map t)(k \<mapsto> v)"
    proof (intro ext local_map_eqI [OF ok t'(4)])
      fix obj i
      have "i \<noteq> v" if "i \<in> entered (is_table t)" "ie_object (is_table t ! i) = obj" "obj = k"
        using that new local_map_Some [OF ok, of k i] by simp
      moreover have "ie_object (is_table t ! v) = k" using new by (simp add: local_fits_def)
      ultimately show "i \<in> entered (is_table (t\<lparr>is_table := table\<rparr>)) \<and>
          ie_object (is_table (t\<lparr>is_table := table\<rparr>) ! i) = obj \<longleftrightarrow> ((local_map t)(k \<mapsto> v)) obj = Some i"
        using t'(2,3) new(1) local_map_Some [OF ok, of obj i] by (auto simp: same_fields_def)
    qed
    then show ?thesis using t' by (auto simp: local_fits_def fun_eq_iff same_fields_def)
  qed
  show "\<exists>t'. ipc_hash_local_delete t k v = Some t' \<and> local_ok t' \<and>
      local_map t' = (local_map t)(k := None) \<and> local_fits t' = local_fits t"
    if old: "local_map t k = Some v"
  proof -
    obtain table where t': "ipc_hash_local_delete t k v = Some (t\<lparr>is_table := table\<rparr>)"
      "same_fields (is_table t) table" "entered table = entered (is_table t) - {v}"
      "local_ok (t\<lparr>is_table := table\<rparr>)"
      using ipc_hash_local_delete_spec [OF ok old] by blast
    have "local_map (t\<lparr>is_table := table\<rparr>) = (local_map t)(k := None)"
    proof (intro ext local_map_eqI [OF ok t'(4)])
      fix obj i
      show "i \<in> entered (is_table (t\<lparr>is_table := table\<rparr>)) \<and>
          ie_object (is_table (t\<lparr>is_table := table\<rparr>) ! i) = obj \<longleftrightarrow> ((local_map t)(k := None)) obj = Some i"
        using t'(2,3) old local_map_Some [OF ok, of obj i] local_map_Some [OF ok, of k v]
        by (auto simp: same_fields_def)
    qed
    then show ?thesis using t' by (auto simp: local_fits_def fun_eq_iff same_fields_def)
  qed
qed

section \<open>The global table is a reverse hash\<close>

definition global_lookup :: "ipc_hash_global \<Rightarrow> space_id \<times> ipc_object_t \<Rightarrow>
    (mach_port_t option \<times> ipc_hash_global) option" where
  "global_lookup g k = Some (ipc_hash_global_lookup g (fst k) (snd k))"

definition global_insert :: "ipc_space \<Rightarrow> ipc_hash_global \<Rightarrow> space_id \<times> ipc_object_t \<Rightarrow> mach_port_t \<Rightarrow>
    ipc_hash_global option" where
  "global_insert space g k name = Some (fst (ipc_hash_global_insert g (fst k) space (snd k) name))"

definition global_delete :: "ipc_space \<Rightarrow> ipc_hash_global \<Rightarrow> space_id \<times> ipc_object_t \<Rightarrow> mach_port_t \<Rightarrow>
    ipc_hash_global option" where
  "global_delete space g k name = Some (fst (ipc_hash_global_delete g (fst k) space (snd k) name))"

interpretation global_hash: reverse_hash
  global_lookup "global_insert space" "global_delete space" gh_map gh_ok "\<lambda>g k name. True" for space
proof
  fix g :: ipc_hash_global and k :: "space_id \<times> ipc_object_t" and name :: mach_port_t
  assume ok: "gh_ok g"
  show "\<exists>g'. global_lookup g k = Some (gh_map g k, g') \<and> gh_ok g' \<and> gh_map g' = gh_map g \<and>
      (\<lambda>k name. True) = (\<lambda>k name. True)"
    using global_lookup_spec [OF ok, of "fst k" "snd k"]
    by (intro exI [of _ "snd (ipc_hash_global_lookup g (fst k) (snd k))"])
      (auto simp: global_lookup_def prod_eq_iff)
  show "\<exists>g'. global_insert space g k name = Some g' \<and> gh_ok g' \<and> gh_map g' = (gh_map g)(k \<mapsto> name) \<and>
      (\<lambda>k name. True) = (\<lambda>k name. True)" if "gh_map g k = None"
    using global_insert_spec [OF ok, of "fst k" "snd k"] that by (simp add: global_insert_def)
  show "\<exists>g'. global_delete space g k name = Some g' \<and> gh_ok g' \<and> gh_map g' = (gh_map g)(k := None) \<and>
      (\<lambda>k name. True) = (\<lambda>k name. True)" if "gh_map g k = Some name"
    using global_delete_spec [OF ok, of "fst k" "snd k"] that by (simp add: global_delete_def)
qed

end
