(* ===== verification/Ipc_Entry.thy ===== *)
theory Ipc_Entry
  imports Reverse_Hash
begin

text \<open>
  The capability entries of a space, \<^verbatim>\<open>src/kernel/ipc/ipc_entry.c\<close>, and the creation of a space,
  \<^verbatim>\<open>src/kernel/ipc/ipc_space.c\<close>.  Small names are slots of the table, with a free list through
  the slots; the other names are in the splay tree.

  The array \<open>its\<close> of table sizes is \<^verbatim>\<open>ipc_table_entries\<close>.  An operation that may release the lock
  of the space takes a schedule: the list of what happens at each successive release, the
  answer of the memory allocator and what the other threads do to the world (the global hash
  table and the space) before the lock is taken again.  The result \<open>None\<close> says that the schedule
  is too short, or that a loop of the code would not end.
\<close>

section \<open>Reading and writing through an entry pointer\<close>

definition entry_at :: "ipc_space \<Rightarrow> entry_ref \<Rightarrow> ipc_entry option" where
  "entry_at space r =
    (case r of
       In_table i \<Rightarrow> if i < is_table_size space then Some (is_table space ! i) else None
     | In_tree name \<Rightarrow> map_of (ist_list (is_tree space)) name)"

definition set_entry :: "ipc_space \<Rightarrow> entry_ref \<Rightarrow> ipc_entry \<Rightarrow> ipc_space" where
  "set_entry space r entry =
    (case r of
       In_table i \<Rightarrow> space\<lparr>is_table := (is_table space)[i := entry]\<rparr>
     | In_tree name \<Rightarrow> space\<lparr>is_tree := ist_store (is_tree space) name entry\<rparr>)"

definition set_bits :: "ipc_entry list \<Rightarrow> nat \<Rightarrow> ipc_entry_bits_t \<Rightarrow> ipc_entry list" where
  "set_bits table i bits = table[i := (table ! i)\<lparr>ie_bits := bits\<rparr>]"

definition set_next :: "ipc_entry list \<Rightarrow> nat \<Rightarrow> nat \<Rightarrow> ipc_entry list" where
  "set_next table i n = table[i := (table ! i)\<lparr>ie_request := n\<rparr>]"

definition entry_zero :: ipc_entry where
  "entry_zero = \<lparr>ie_bits = 0, ie_object = IO_NULL, ie_request = 0, ie_index = 0\<rparr>"

section \<open>Looking up and allocating\<close>

definition ipc_entry_tree_collision :: "ipc_space \<Rightarrow> mach_port_t \<Rightarrow> bool \<times> ipc_space" where
  "ipc_entry_tree_collision space name =
    (let (lower, upper, tree) = ipc_splay_tree_bounds (is_tree space) name;
         index = MACH_PORT_INDEX name
     in (lower \<noteq> NOT 0 \<and> MACH_PORT_INDEX lower = index \<or>
           upper \<noteq> 0 \<and> MACH_PORT_INDEX upper = index,
         space\<lparr>is_tree := tree\<rparr>))"

definition tree_lookup :: "ipc_space \<Rightarrow> mach_port_t \<Rightarrow> entry_ref option \<times> ipc_space" where
  "tree_lookup space name =
    (let (r, tree) = ipc_splay_tree_lookup (is_tree space) name
     in (map_option (\<lambda>_. In_tree name) r, space\<lparr>is_tree := tree\<rparr>))"

definition ipc_entry_lookup :: "ipc_space \<Rightarrow> mach_port_t \<Rightarrow> entry_ref option \<times> ipc_space" where
  "ipc_entry_lookup space name =
    (let index = MACH_PORT_INDEX name
     in if index < is_table_size space then
          let bits = ie_bits (is_table space ! index)
          in if IE_BITS_GEN bits \<noteq> MACH_PORT_GEN name
             then (if collides bits then tree_lookup space name else (None, space))
             else if IE_BITS_TYPE bits = MACH_PORT_TYPE_NONE then (None, space)
             else (Some (In_table index), space)
        else if is_tree_total space = 0 then (None, space)
        else tree_lookup space name)"

definition ipc_entry_get ::
    "ipc_space \<Rightarrow> kern_return_t + (mach_port_t \<times> entry_ref \<times> ipc_space)" where
  "ipc_entry_get space =
    (let table = is_table space; first_free = ie_next (table ! 0)
     in if first_free = 0 then Inl KERN_NO_SPACE
        else
          let table1 = set_next table 0 (ie_next (table ! first_free));
              gen = ie_bits (table1 ! first_free) + IE_BITS_GEN_ONE;
              table2 = set_next (set_bits table1 first_free gen) first_free 0
          in Inr (MACH_PORT_MAKE first_free gen, In_table first_free, space\<lparr>is_table := table2\<rparr>))"

section \<open>Deallocating\<close>

text \<open>The entry of the table is freed: it goes to the front of the free list.\<close>

definition dealloc_free :: "ipc_space \<Rightarrow> nat \<Rightarrow> ipc_space" where
  "dealloc_free space index =
    (let table = is_table space;
         table1 = set_bits table index (ie_bits (table ! index) AND IE_BITS_GEN_MASK);
         table2 = set_next table1 index (ie_next (table1 ! 0))
     in space\<lparr>is_table := set_next table2 0 index\<rparr>)"

text \<open>
  A send right that moves from the tree to the table moves from the global to the local
  reverse hash table.
\<close>

definition move_hash ::
    "ipc_hash_global \<Rightarrow> space_id \<Rightarrow> ipc_space \<Rightarrow> ipc_entry \<Rightarrow> mach_port_t \<Rightarrow> nat \<Rightarrow>
     (ipc_hash_global \<times> ipc_space) option" where
  "move_hash g sid space tentry tname index =
    (if IE_BITS_TYPE (ie_bits tentry) = MACH_PORT_TYPE_SEND
     then (case ipc_hash_global_delete g sid space (ie_object tentry) tname of
             (g', space') \<Rightarrow>
               map_option (Pair g') (ipc_hash_local_insert space' (ie_object tentry) index))
     else Some (g, space))"

text \<open>A colliding entry of the tree takes the place of the entry of the table.\<close>

definition dealloc_move ::
    "ipc_hash_global \<Rightarrow> space_id \<Rightarrow> ipc_space \<Rightarrow> nat \<Rightarrow> (ipc_hash_global \<times> ipc_space) option" where
  "dealloc_move g sid space index =
    (let (tree1, collisions1) =
           ipc_splay_tree_split (is_tree space) (MACH_PORT_MAKE (index + 1) 0) (is_tree space);
         (collisions, small) = ipc_splay_tree_split collisions1 (MACH_PORT_MAKE index 0) collisions1
     in case ipc_splay_tree_pick collisions of
          None \<Rightarrow> None
        | Some (tname, tentry) \<Rightarrow>
            let entry = (is_table space ! index)\<lparr>ie_bits := ie_bits tentry OR MACH_PORT_GEN tname,
                          ie_object := ie_object tentry, ie_request := ie_request tentry\<rparr>;
                space1 = space\<lparr>is_tree := tree1, is_table := (is_table space)[index := entry]\<rparr>
            in (case move_hash g sid space1 tentry tname index of
                  None \<Rightarrow> None
                | Some (g3, space3) \<Rightarrow>
                    let rest = ipc_splay_tree_delete collisions tname;
                        space4 = space3\<lparr>is_tree_total := is_tree_total space3 - 1\<rparr>;
                        space5 =
                          (if ipc_splay_tree_pick rest \<noteq> None
                           then space4\<lparr>is_table := set_bits (is_table space4) index
                                         (ie_bits (is_table space4 ! index) OR IE_BITS_COLLISION),
                                       is_tree := fst (ipc_splay_tree_join (is_tree space4) rest)\<rparr>
                           else space4)
                    in Some (g3, space5\<lparr>is_tree := fst (ipc_splay_tree_join (is_tree space5) small)\<rparr>)))"

text \<open>An entry of the tree is removed.\<close>

definition dealloc_tree :: "nat list \<Rightarrow> ipc_space \<Rightarrow> mach_port_t \<Rightarrow> ipc_space" where
  "dealloc_tree its space name =
    (let index = MACH_PORT_INDEX name;
         space1 = space\<lparr>is_tree := ipc_splay_tree_delete (is_tree space) name,
                        is_tree_total := is_tree_total space - 1\<rparr>
     in if index < is_table_size space then
          let (collision, space2) = ipc_entry_tree_collision space1 name
          in if \<not> collision
             then space2\<lparr>is_table := set_bits (is_table space2) index
                    (ie_bits (is_table space2 ! index) AND NOT IE_BITS_COLLISION)\<rparr>
             else space2
        else if index < its ! is_table_next space then
          let (collision, space2) = ipc_entry_tree_collision space1 name
          in if \<not> collision then space2\<lparr>is_tree_small := is_tree_small space2 - 1\<rparr> else space2
        else space1)"

definition ipc_entry_dealloc ::
    "nat list \<Rightarrow> ipc_hash_global \<Rightarrow> space_id \<Rightarrow> ipc_space \<Rightarrow> mach_port_t \<Rightarrow> entry_ref \<Rightarrow>
     (ipc_hash_global \<times> ipc_space) option" where
  "ipc_entry_dealloc its g sid space name entry =
    (let index = MACH_PORT_INDEX name
     in if index < is_table_size space \<and> entry = In_table index
        then (if collides (ie_bits (is_table space ! index))
              then dealloc_move g sid space index
              else Some (g, dealloc_free space index))
        else Some (g, dealloc_tree its space name))"

section \<open>Growing the table\<close>

text \<open>The search for the size that reaches a target.\<close>

function grow_search :: "nat list \<Rightarrow> nat \<Rightarrow> nat \<Rightarrow> nat \<Rightarrow> nat \<times> nat" where
  "grow_search its target psize k =
    (if k < length its \<and> psize \<noteq> its ! k \<and> target > its ! k
     then grow_search its target (its ! k) (Suc k) else (psize, k))"
  by pat_completeness auto
termination
  by (relation "measure (\<lambda>(its, target, psize, k). length its - k)") auto

text \<open>
  What \<^verbatim>\<open>ipc_entry_grow_table\<close> decides before it allocates: the return code, or the subscript
  of the new size.  \<open>None\<close> as the target is \<^verbatim>\<open>ITS_SIZE_NONE\<close>.
\<close>

definition grow_decide :: "nat list \<Rightarrow> nat option \<Rightarrow> nat \<Rightarrow> kern_return_t + nat" where
  "grow_decide its target nxt =
    (let osize = its ! (nxt - 1)
     in case target of
          None \<Rightarrow> if osize = its ! nxt then Inl KERN_NO_SPACE else Inr nxt
        | Some tsize \<Rightarrow>
            if tsize \<le> osize then Inl KERN_SUCCESS
            else
              let (psize, k) = grow_search its tsize osize nxt
              in if psize = its ! k then Inl KERN_NO_SPACE
                 else if osize = its ! k then Inl KERN_NO_SPACE
                 else Inr k)"

text \<open>The new table: the old entries with clear index fields, then zeroes.\<close>

definition grow_copy :: "nat \<Rightarrow> nat \<Rightarrow> ipc_entry list \<Rightarrow> ipc_entry list" where
  "grow_copy osize sz otable =
    map (\<lambda>entry. entry\<lparr>ie_index := 0\<rparr>) (take osize otable) @ replicate (sz - osize) entry_zero"

text \<open>The old entries are put into the reverse hash table.\<close>

fun grow_rehash :: "nat list \<Rightarrow> ipc_space \<Rightarrow> ipc_space option" where
  "grow_rehash [] space = Some space"
| "grow_rehash (i # is) space =
    (let entry = is_table space ! i
     in if IE_BITS_TYPE (ie_bits entry) = MACH_PORT_TYPE_SEND
        then (case ipc_hash_local_insert space (ie_object entry) i of
                None \<Rightarrow> None
              | Some space' \<Rightarrow> grow_rehash is space')
        else grow_rehash is space)"

text \<open>The loop's body for an entry of the tree that fits the new table.\<close>

definition grow_move ::
    "space_id \<Rightarrow> mach_port_t \<times> ipc_entry \<Rightarrow> (ipc_hash_global \<times> ipc_space) option \<Rightarrow>
     (ipc_hash_global \<times> ipc_space) option \<times> bool" where
  "grow_move sid x st =
    (case st of
       None \<Rightarrow> (None, False)
     | Some (g, space) \<Rightarrow>
         let (name, tentry) = x;
             gen = MACH_PORT_GEN name; index = MACH_PORT_INDEX name;
             bits = ie_bits (is_table space ! index)
         in if bits \<noteq> 0 then
              (Some (g, space\<lparr>is_table := set_bits (is_table space) index (bits OR IE_BITS_COLLISION)\<rparr>),
               False)
            else
              let entry = (is_table space ! index)\<lparr>ie_bits := ie_bits tentry OR gen,
                            ie_object := ie_object tentry, ie_request := ie_request tentry\<rparr>;
                  space1 = space\<lparr>is_table := (is_table space)[index := entry]\<rparr>
              in (map_option (\<lambda>(g2, space2). (g2, space2\<lparr>is_tree_total := is_tree_total space2 - 1\<rparr>))
                    (move_hash g sid space1 tentry name index),
                  True))"

text \<open>The loop's body that counts the names of different indices.\<close>

definition grow_count :: "mach_port_t \<times> ipc_entry \<Rightarrow> nat \<times> nat \<Rightarrow> (nat \<times> nat) \<times> bool" where
  "grow_count x st =
    (let (nosmall, index) = st; nindex = MACH_PORT_INDEX (fst x)
     in ((if nindex \<noteq> index then (nosmall + 1, nindex) else (nosmall, index)), False))"

definition grow_tree ::
    "space_id \<Rightarrow> nat \<Rightarrow> nat \<Rightarrow> nat \<Rightarrow> ipc_hash_global \<times> ipc_space \<Rightarrow> (ipc_hash_global \<times> ipc_space) option"
where
  "grow_tree sid osize sz nsize w =
    (let (g, space) = w; fuel = is_tree_total space;
         (tree1, small1) = ipc_splay_tree_split (is_tree space) (MACH_PORT_MAKE nsize 0) (is_tree space);
         (small2, move1) = ipc_splay_tree_split small1 (MACH_PORT_MAKE sz 0) small1;
         (move2, ignore) = ipc_splay_tree_split move1 (MACH_PORT_MAKE osize 0) move1
     in case ipc_splay_traverse fuel (grow_move sid) move2 (Some (g, space\<lparr>is_tree := tree1\<rparr>)) of
          Some (Some (g2, space2), move3) \<Rightarrow>
            (case ipc_splay_traverse fuel grow_count small2 (0, 0) of
               None \<Rightarrow> None
             | Some ((nosmall, _), small3) \<Rightarrow>
                 let tree2 = fst (ipc_splay_tree_join (is_tree space2) small3);
                     tree3 = fst (ipc_splay_tree_join tree2 move3);
                     tree4 = fst (ipc_splay_tree_join tree3 ignore)
                 in Some (g2, space2\<lparr>is_tree_small := nosmall, is_tree := tree4\<rparr>))
        | _ \<Rightarrow> None)"

text \<open>The new entries that are not used go to the free list, the last one first.\<close>

fun grow_free :: "nat list \<Rightarrow> ipc_entry list \<Rightarrow> nat \<Rightarrow> ipc_entry list \<times> nat" where
  "grow_free [] table free_index = (table, free_index)"
| "grow_free (i # is) table free_index =
    (if ie_bits (table ! i) = 0
     then grow_free is (table[i := (table ! i)\<lparr>ie_bits := IE_BITS_GEN_MASK, ie_request := free_index\<rparr>]) i
     else grow_free is table free_index)"

text \<open>From the new table to the free list: what is done once the memory is there.\<close>

definition grow_commit ::
    "nat list \<Rightarrow> space_id \<Rightarrow> nat \<Rightarrow> nat \<Rightarrow> ipc_hash_global \<times> ipc_space \<Rightarrow>
     (ipc_hash_global \<times> ipc_space) option" where
  "grow_commit its sid osize k w =
    (let (g, space) = w; sz = its ! k; nsize = its ! Suc k;
         space1 = space\<lparr>is_table := grow_copy osize sz (is_table space), is_table_size := sz,
                        is_table_next := Suc k\<rparr>
     in case grow_rehash [0..<osize] space1 of
          None \<Rightarrow> None
        | Some space2 \<Rightarrow>
            (case (if is_tree_total space2 > 0 then grow_tree sid osize sz nsize (g, space2)
                   else Some (g, space2)) of
               None \<Rightarrow> None
             | Some (g3, space3) \<Rightarrow>
                 let (table, free_index) =
                       grow_free (rev [osize..<sz]) (is_table space3) (ie_next (is_table space3 ! 0))
                 in Some (g3, space3\<lparr>is_table := set_next table 0 free_index\<rparr>)))"

text \<open>May the table be grown again with profit?\<close>

definition grow_again :: "nat list \<Rightarrow> nat \<Rightarrow> ipc_space \<Rightarrow> bool" where
  "grow_again its k space \<longleftrightarrow>
    is_tree_small space > 0 \<and>
    (its ! Suc k - its ! k) * sizeof_ipc_entry < is_tree_small space * sizeof_ipc_tree_entry"

text \<open>What happens while the lock of the space is released.\<close>

record unlocked =
  got_memory :: bool
  others :: "ipc_hash_global \<times> ipc_space \<Rightarrow> ipc_hash_global \<times> ipc_space"

type_synonym schedule = "unlocked list"

fun ipc_entry_grow_table ::
    "nat list \<Rightarrow> space_id \<Rightarrow> nat option \<Rightarrow> schedule \<Rightarrow> ipc_hash_global \<times> ipc_space \<Rightarrow>
     (kern_return_t \<times> schedule \<times> ipc_hash_global \<times> ipc_space) option" where
  "ipc_entry_grow_table its sid target sched (g, space) =
    (if is_growing space then
       (case sched of [] \<Rightarrow> None | u # sched1 \<Rightarrow> Some (KERN_SUCCESS, sched1, others u (g, space)))
     else
       (case grow_decide its target (is_table_next space) of
          Inl kr \<Rightarrow> Some (kr, sched, g, space)
        | Inr k \<Rightarrow>
            (case sched of
               [] \<Rightarrow> None
             | u # sched1 \<Rightarrow>
                 let osize = its ! (is_table_next space - 1);
                     (g1, space1) = others u (g, space\<lparr>is_growing := True\<rparr>);
                     space2 = space1\<lparr>is_growing := False\<rparr>
                 in if \<not> got_memory u then Some (KERN_RESOURCE_SHORTAGE, sched1, g1, space2)
                    else
                      (case sched1 of
                         [] \<Rightarrow> None
                       | v # sched2 \<Rightarrow>
                           if \<not> is_active space2
                           then Some (KERN_SUCCESS, sched2, others v (g1, space2))
                           else
                             (case grow_commit its sid osize k (g1, space2) of
                                None \<Rightarrow> None
                              | Some w \<Rightarrow>
                                  let (g3, space3) = others v w
                                  in if \<not> is_active space3 \<or> is_table_next space3 \<noteq> Suc k
                                     then Some (KERN_SUCCESS, sched2, g3, space3)
                                     else if grow_again its k space3
                                     then ipc_entry_grow_table its sid target sched2 (g3, space3)
                                     else Some (KERN_SUCCESS, sched2, g3, space3))))))"

section \<open>Allocating with and without a name\<close>

text \<open>
  \<^verbatim>\<open>ipc_entry_alloc\<close> repeats the attempt each time the table was grown, or somebody else did.
\<close>

function ipc_entry_alloc ::
    "nat list \<Rightarrow> space_id \<Rightarrow> schedule \<Rightarrow> ipc_hash_global \<times> ipc_space \<Rightarrow>
     ((kern_return_t + mach_port_t \<times> entry_ref) \<times> schedule \<times> ipc_hash_global \<times> ipc_space) option" where
  "ipc_entry_alloc its sid sched (g, space) =
    (if \<not> is_active space then Some (Inl KERN_INVALID_TASK, sched, g, space)
     else
       (case ipc_entry_get space of
          Inr (name, entry, space') \<Rightarrow> Some (Inr (name, entry), sched, g, space')
        | Inl _ \<Rightarrow>
            (case ipc_entry_grow_table its sid None sched (g, space) of
               None \<Rightarrow> None
             | Some (kr, sched', w) \<Rightarrow>
                 if kr \<noteq> KERN_SUCCESS then Some (Inl kr, sched', w)
                 else if length sched' < length sched then ipc_entry_alloc its sid sched' w
                 else None)))"
  by pat_completeness auto
termination
  by (relation "measure (\<lambda>(its, sid, sched, w). length sched)") auto

text \<open>The walk along the free list to the predecessor of an entry.\<close>

fun free_pred :: "nat \<Rightarrow> ipc_entry list \<Rightarrow> nat \<Rightarrow> nat \<Rightarrow> nat option" where
  "free_pred 0 table index free_index = None"
| "free_pred (Suc fuel) table index free_index =
    (let next_index = ie_next (table ! free_index)
     in if next_index \<noteq> index then free_pred fuel table index next_index else Some free_index)"

text \<open>A free entry of the table is ripped out of the free list and gets the name's generation.\<close>

definition alloc_name_table :: "ipc_space \<Rightarrow> nat \<Rightarrow> mach_port_gen_t \<Rightarrow> ipc_space option" where
  "alloc_name_table space index gen =
    map_option
      (\<lambda>free_index.
        let table = is_table space;
            table1 = set_next table free_index (ie_next (table ! index));
            table2 = set_next (set_bits table1 index gen) index 0
        in space\<lparr>is_table := table2\<rparr>)
      (free_pred (is_table_size space) (is_table space) index 0)"

text \<open>Should the table be grown instead of putting the name into the tree?\<close>

definition alloc_name_grow :: "nat list \<Rightarrow> ipc_space \<Rightarrow> nat \<Rightarrow> bool" where
  "alloc_name_grow its space index \<longleftrightarrow>
    is_table_size space \<le> index \<and> index < its ! is_table_next space \<and>
    (its ! is_table_next space - is_table_size space) * sizeof_ipc_entry <
      (is_tree_small space + 1) * sizeof_ipc_tree_entry"

definition alloc_name_tree :: "nat list \<Rightarrow> ipc_space \<Rightarrow> mach_port_t \<Rightarrow> ipc_space" where
  "alloc_name_tree its space name =
    (let index = MACH_PORT_INDEX name;
         space1 = space\<lparr>is_tree_total := is_tree_total space + 1\<rparr>;
         space2 =
           (if index < is_table_size space1
            then space1\<lparr>is_table := set_bits (is_table space1) index
                          (ie_bits (is_table space1 ! index) OR IE_BITS_COLLISION)\<rparr>
            else if index < its ! is_table_next space1 then
              let (collision, space2) = ipc_entry_tree_collision space1 name
              in if \<not> collision then space2\<lparr>is_tree_small := is_tree_small space2 + 1\<rparr> else space2
            else space1)
     in space2\<lparr>is_tree := ipc_splay_tree_insert (is_tree space2) name entry_zero\<rparr>)"

text \<open>
  One round of the loop of \<^verbatim>\<open>ipc_entry_alloc_name\<close> with the lock held; \<open>have\<close> says that a tree
  entry was allocated in an earlier round.
\<close>

datatype alloc_round =
    Round_found entry_ref ipc_space
  | Round_grow ipc_space
  | Round_need_memory ipc_space

definition alloc_name_round ::
    "nat list \<Rightarrow> bool \<Rightarrow> ipc_space \<Rightarrow> mach_port_t \<Rightarrow> alloc_round option" where
  "alloc_name_round its have space name =
    (let index = MACH_PORT_INDEX name; gen = MACH_PORT_GEN name;
         bits = ie_bits (is_table space ! index);
         tree_part =
           (let (found, space1) =
                  (if is_tree_total space > 0 then tree_lookup space name else (None, space))
            in case found of
                 Some entry \<Rightarrow> Round_found entry space1
               | None \<Rightarrow>
                   if alloc_name_grow its space1 index then Round_grow space1
                   else if have then Round_found (In_tree name) (alloc_name_tree its space1 name)
                   else Round_need_memory space1)
     in if 0 < index \<and> index < is_table_size space then
          (if IE_BITS_TYPE bits \<noteq> 0 then
             (if IE_BITS_GEN bits = gen then Some (Round_found (In_table index) space)
              else Some tree_part)
           else map_option (Round_found (In_table index)) (alloc_name_table space index gen))
        else Some tree_part)"

function ipc_entry_alloc_name ::
    "nat list \<Rightarrow> space_id \<Rightarrow> bool \<Rightarrow> schedule \<Rightarrow> ipc_hash_global \<times> ipc_space \<Rightarrow> mach_port_t \<Rightarrow>
     ((kern_return_t + entry_ref) \<times> schedule \<times> ipc_hash_global \<times> ipc_space) option" where
  "ipc_entry_alloc_name its sid have sched (g, space) name =
    (if \<not> is_active space then Some (Inl KERN_INVALID_TASK, sched, g, space)
     else
       (case alloc_name_round its have space name of
          None \<Rightarrow> None
        | Some (Round_found entry space1) \<Rightarrow> Some (Inr entry, sched, g, space1)
        | Some (Round_grow space1) \<Rightarrow>
            (case ipc_entry_grow_table its sid None sched (g, space1) of
               None \<Rightarrow> None
             | Some (kr, sched', w) \<Rightarrow>
                 if kr \<noteq> KERN_SUCCESS then Some (Inl kr, sched', w)
                 else if length sched' < length sched
                 then ipc_entry_alloc_name its sid have sched' w name
                 else None)
        | Some (Round_need_memory space1) \<Rightarrow>
            (case sched of
               [] \<Rightarrow> None
             | u # sched' \<Rightarrow>
                 let w = others u (g, space1)
                 in if \<not> got_memory u then Some (Inl KERN_RESOURCE_SHORTAGE, sched', w)
                    else ipc_entry_alloc_name its sid True sched' w name)))"
  by pat_completeness auto
termination
  by (relation "measure (\<lambda>(its, sid, have, sched, w, name). length sched)") auto

declare grow_search.simps [simp del] ipc_entry_grow_table.simps [simp del] ipc_entry_alloc.simps [simp del]
  ipc_entry_alloc_name.simps [simp del]

section \<open>Creating a space\<close>

text \<open>
  \<^verbatim>\<open>initial\<close> is the subscript of the first size; \<open>space_memory\<close> and \<open>table_memory\<close> are the answers of
  the allocators, \<open>tree\<close> the uninitialised tree of the new space.
  In this configuration (\<^verbatim>\<open>NeXT\<close>) the notification port stays null.
\<close>

definition initial_table :: "nat \<Rightarrow> ipc_entry list" where
  "initial_table new_size =
    set_next
      (map (\<lambda>index. entry_zero\<lparr>ie_bits := IE_BITS_GEN_MASK, ie_request := index + 1\<rparr>) [0..<new_size])
      (new_size - 1) 0"

definition ipc_space_create ::
    "nat list \<Rightarrow> nat \<Rightarrow> bool \<Rightarrow> bool \<Rightarrow> ipc_entry ipc_splay_tree \<Rightarrow> kern_return_t + ipc_space" where
  "ipc_space_create its initial space_memory table_memory tree =
    (if \<not> space_memory then Inl KERN_RESOURCE_SHORTAGE
     else if \<not> table_memory then Inl KERN_RESOURCE_SHORTAGE
     else
       let new_size = its ! initial
       in Inr \<lparr>is_references = 2, is_active = True, is_growing = False,
               is_table = initial_table new_size, is_table_size = new_size,
               is_table_next = initial + 1,
               is_tree = ipc_splay_tree_init tree, is_tree_total = 0, is_tree_small = 0,
               is_tree_hash = 0, is_notify = IO_NULL\<rparr>)"

end
