(* ===== verification/Space_Invariant.thy ===== *)
theory Space_Invariant
  imports Ipc_Entry
begin

text \<open>
  The invariant of a capability space and the map from names to capabilities it stands for.
  A pending entry is one that an operation of \<^verbatim>\<open>ipc_entry.c\<close> has handed out and the caller has
  not given a type yet, or one that the caller is about to deallocate: it has no object and is
  not in a reverse hash table.  The set \<open>P\<close> of pending entries is a parameter of the invariant.
\<close>

section \<open>The invariant\<close>

abbreviation type_of :: "ipc_entry list \<Rightarrow> nat \<Rightarrow> 32 word" where
  "type_of table i \<equiv> IE_BITS_TYPE (ie_bits (table ! i))"

abbreviation gen_of :: "ipc_entry list \<Rightarrow> nat \<Rightarrow> 32 word" where
  "gen_of table i \<equiv> IE_BITS_GEN (ie_bits (table ! i))"

primrec linked :: "ipc_entry list \<Rightarrow> nat \<Rightarrow> nat list \<Rightarrow> bool" where
  "linked table i [] \<longleftrightarrow> ie_next (table ! i) = 0"
| "linked table i (j # js) \<longleftrightarrow> ie_next (table ! i) = j \<and> linked table j js"

definition free_slots :: "entry_ref set \<Rightarrow> ipc_entry list \<Rightarrow> nat set" where
  "free_slots P table =
    {i. 0 < i \<and> i < length table \<and> type_of table i = MACH_PORT_TYPE_NONE \<and> In_table i \<notin> P}"

text \<open>The free list holds the free slots, each once; a free slot has a generation and nothing else.\<close>

definition free_ok :: "entry_ref set \<Rightarrow> ipc_entry list \<Rightarrow> bool" where
  "free_ok P table \<longleftrightarrow>
    (\<exists>fl. linked table 0 fl \<and> distinct fl \<and> set fl = free_slots P table) \<and>
    (\<forall>i \<in> free_slots P table.
      ie_bits (table ! i) = gen_of table i \<and> ie_object (table ! i) = IO_NULL)"

text \<open>The first slot is the head of the free list; only its collision bit changes.\<close>

definition head_ok :: "ipc_entry list \<Rightarrow> bool" where
  "head_ok table \<longleftrightarrow> table \<noteq> [] \<and> ie_bits (table ! 0) AND NOT IE_BITS_COLLISION = IE_BITS_GEN_MASK"

definition tree_ok :: "entry_ref set \<Rightarrow> (mach_port_t \<times> ipc_entry) list \<Rightarrow> bool" where
  "tree_ok P xs \<longleftrightarrow>
    (\<forall>(name, e) \<in> set xs. MACH_PORT_VALID name \<and> ie_bits e AND NOT IE_BITS_RIGHT_MASK = 0 \<and>
      (IE_BITS_TYPE (ie_bits e) = MACH_PORT_TYPE_NONE \<longrightarrow> In_tree name \<in> P))"

definition indices :: "(mach_port_t \<times> ipc_entry) list \<Rightarrow> nat set" where
  "indices xs = (\<lambda>x. MACH_PORT_INDEX (fst x)) ` set xs"

text \<open>
  The collision bit of a slot says that the tree has names of the slot's index; then the slot
  is in use, for a name of another generation.
\<close>

definition coll_ok :: "entry_ref set \<Rightarrow> ipc_entry list \<Rightarrow> (mach_port_t \<times> ipc_entry) list \<Rightarrow> bool" where
  "coll_ok P table xs \<longleftrightarrow>
    (\<forall>i < length table. collides (ie_bits (table ! i)) \<longleftrightarrow> i \<in> indices xs) \<and>
    (\<forall>i \<in> indices xs. i \<notin> free_slots P table) \<and>
    (\<forall>x \<in> set xs. 0 < MACH_PORT_INDEX (fst x) \<longrightarrow> MACH_PORT_INDEX (fst x) < length table \<longrightarrow>
      MACH_PORT_GEN (fst x) \<noteq> gen_of table (MACH_PORT_INDEX (fst x)))"

definition small_count :: "nat \<Rightarrow> nat \<Rightarrow> (mach_port_t \<times> ipc_entry) list \<Rightarrow> nat" where
  "small_count sz nsize xs = card (indices xs \<inter> {sz..<nsize})"

text \<open>
  The send rights of the table are in the local reverse hash table, those of the tree in the
  global one, and no object has two of them.
\<close>

definition tree_sends :: "entry_ref set \<Rightarrow> (mach_port_t \<times> ipc_entry) list \<Rightarrow> (mach_port_t \<times> ipc_object_t) set" where
  "tree_sends P xs =
    {(name, obj). \<exists>e. (name, e) \<in> set xs \<and> ie_object e = obj \<and>
      IE_BITS_TYPE (ie_bits e) = MACH_PORT_TYPE_SEND \<and> In_tree name \<notin> P}"

definition table_sends :: "entry_ref set \<Rightarrow> ipc_entry list \<Rightarrow> nat set" where
  "table_sends P table =
    {i. 0 < i \<and> i < length table \<and> type_of table i = MACH_PORT_TYPE_SEND \<and> In_table i \<notin> P}"

definition hash_ok ::
    "space_id \<Rightarrow> entry_ref set \<Rightarrow> ipc_hash_global \<Rightarrow> ipc_entry list \<Rightarrow> (mach_port_t \<times> ipc_entry) list \<Rightarrow> bool"
where
  "hash_ok sid P g table xs \<longleftrightarrow>
    lh_ok table \<and> entered table = table_sends P table \<and> gh_ok g \<and>
    (\<forall>name obj. gh_map g (sid, obj) = Some name \<longleftrightarrow> (name, obj) \<in> tree_sends P xs) \<and>
    (\<forall>i \<in> table_sends P table. gh_map g (sid, ie_object (table ! i)) = None)"

definition sizes_ok :: "nat list \<Rightarrow> ipc_space \<Rightarrow> bool" where
  "sizes_ok its s \<longleftrightarrow>
    is_table_size s = length (is_table s) \<and> 0 < is_table_next s \<and> is_table_next s < length its \<and>
    is_table_size s = its ! (is_table_next s - 1)"

definition pending_ok :: "entry_ref set \<Rightarrow> ipc_space \<Rightarrow> bool" where
  "pending_ok P s \<longleftrightarrow>
    (\<forall>i. In_table i \<in> P \<longrightarrow> 0 < i \<and> i < is_table_size s \<and> ie_object (is_table s ! i) = IO_NULL) \<and>
    (\<forall>name. In_tree name \<in> P \<longrightarrow>
      (\<exists>e. (name, e) \<in> set (ist_list (is_tree s)) \<and> ie_object e = IO_NULL))"

definition space_ok ::
    "nat list \<Rightarrow> space_id \<Rightarrow> entry_ref set \<Rightarrow> ipc_hash_global \<Rightarrow> ipc_space \<Rightarrow> bool" where
  "space_ok its sid P g s \<longleftrightarrow>
    sizes_ok its s \<and> head_ok (is_table s) \<and> free_ok P (is_table s) \<and>
    ist_ok (is_tree s) \<and> is_tree_total s = length (ist_list (is_tree s)) \<and>
    tree_ok P (ist_list (is_tree s)) \<and> coll_ok P (is_table s) (ist_list (is_tree s)) \<and>
    is_tree_small s = small_count (is_table_size s) (its ! is_table_next s) (ist_list (is_tree s)) \<and>
    is_tree_hash s = card (tree_sends P (ist_list (is_tree s))) \<and>
    hash_ok sid P g (is_table s) (ist_list (is_tree s)) \<and> pending_ok P s"

section \<open>The abstract space\<close>

text \<open>What a capability is to its holder: the type, the references and flags, the object, the request.\<close>

type_synonym capability = "32 word \<times> ipc_object_t \<times> nat"

definition capability :: "ipc_entry \<Rightarrow> capability" where
  "capability e = (ie_bits e AND IE_BITS_RIGHT_MASK, ie_object e, ie_request e)"

definition in_use :: "entry_ref set \<Rightarrow> ipc_space \<Rightarrow> nat \<Rightarrow> bool" where
  "in_use P s i \<longleftrightarrow> 0 < i \<and> i < length (is_table s) \<and> i \<notin> free_slots P (is_table s)"

definition caps :: "entry_ref set \<Rightarrow> ipc_space \<Rightarrow> mach_port_t \<rightharpoonup> capability" where
  "caps P s name =
    (let i = MACH_PORT_INDEX name
     in if in_use P s i \<and> gen_of (is_table s) i = MACH_PORT_GEN name
        then Some (capability (is_table s ! i))
        else map_option capability (map_of (ist_list (is_tree s)) name))"

lemma caps_eqI:
  assumes "in_use P' s' (MACH_PORT_INDEX m) \<longleftrightarrow> in_use P s (MACH_PORT_INDEX m)"
    and "in_use P s (MACH_PORT_INDEX m) \<Longrightarrow>
      gen_of (is_table s') (MACH_PORT_INDEX m) = gen_of (is_table s) (MACH_PORT_INDEX m) \<and>
      capability (is_table s' ! MACH_PORT_INDEX m) = capability (is_table s ! MACH_PORT_INDEX m)"
    and "map_of (ist_list (is_tree s')) m = map_of (ist_list (is_tree s)) m"
  shows "caps P' s' m = caps P s m"
  using assms by (cases "in_use P s (MACH_PORT_INDEX m)") (simp_all add: caps_def Let_def)

text \<open>
  The names \<open>ipc_entry_lookup\<close> cannot find: index 0 with the generation of the head of the free
  list.
\<close>

definition shadowed :: "mach_port_t \<Rightarrow> bool" where
  "shadowed name \<longleftrightarrow> MACH_PORT_INDEX name = 0 \<and> MACH_PORT_GEN name = IE_BITS_GEN_MASK"

section \<open>Lookup\<close>

lemma head_ok_fields:
  assumes "head_ok table"
  shows "type_of table 0 = 0" and "gen_of table 0 = IE_BITS_GEN_MASK"
proof -
  have "IE_BITS_TYPE (ie_bits (table ! 0) AND NOT IE_BITS_COLLISION) = IE_BITS_TYPE IE_BITS_GEN_MASK"
    "IE_BITS_GEN (ie_bits (table ! 0) AND NOT IE_BITS_COLLISION) = IE_BITS_GEN IE_BITS_GEN_MASK"
    using assms by (simp_all add: head_ok_def)
  then show "type_of table 0 = 0" and "gen_of table 0 = IE_BITS_GEN_MASK"
    by (simp_all add: entry_simps) (simp_all add: IE_BITS_fields IE_BITS_masks)
qed

lemma space_okD:
  assumes "space_ok its sid P g s"
  shows "sizes_ok its s" "head_ok (is_table s)" "free_ok P (is_table s)" "ist_ok (is_tree s)"
    "is_tree_total s = length (ist_list (is_tree s))" "tree_ok P (ist_list (is_tree s))"
    "coll_ok P (is_table s) (ist_list (is_tree s))"
    "is_tree_small s = small_count (is_table_size s) (its ! is_table_next s) (ist_list (is_tree s))"
    "is_tree_hash s = card (tree_sends P (ist_list (is_tree s)))"
    "hash_ok sid P g (is_table s) (ist_list (is_tree s))" "pending_ok P s"
    "is_table_size s = length (is_table s)"
  using assms by (simp_all add: space_ok_def sizes_ok_def)

text \<open>Splaying the tree is invisible.\<close>

lemma space_ok_splay:
  assumes "space_ok its sid P g s" and "ist_list tree = ist_list (is_tree s)" and "ist_ok tree"
  shows "space_ok its sid P g (s\<lparr>is_tree := tree\<rparr>)" and "caps P (s\<lparr>is_tree := tree\<rparr>) = caps P s"
  using assms by (auto simp: space_ok_def sizes_ok_def pending_ok_def caps_def in_use_def fun_eq_iff Let_def)

lemma map_of_indices: "map_of xs name = Some e \<Longrightarrow> MACH_PORT_INDEX name \<in> indices xs"
  by (force simp: indices_def dest: map_of_SomeD)

lemma tree_lookup_spec:
  assumes "ist_ok (is_tree s)"
  obtains tree where "tree_lookup s name =
      (map_option (\<lambda>_. In_tree name) (map_of (ist_list (is_tree s)) name), s\<lparr>is_tree := tree\<rparr>)"
    and "ist_list tree = ist_list (is_tree s)" and "ist_ok tree"
proof -
  obtain r tree where l: "ipc_splay_tree_lookup (is_tree s) name = (r, tree)" by fastforce
  with lookup_spec [OF assms l] that show thesis by (simp add: tree_lookup_def)
qed

lemma ipc_entry_lookup_spec:
  assumes ok: "space_ok its sid {} g s" and "\<not> shadowed name"
  shows "\<exists>r tree. ipc_entry_lookup s name = (r, s\<lparr>is_tree := tree\<rparr>) \<and>
    ist_list tree = ist_list (is_tree s) \<and> ist_ok tree \<and>
    (case caps {} s name of
       None \<Rightarrow> r = None
     | Some c \<Rightarrow> (\<exists>ref e. r = Some ref \<and> entry_at s ref = Some e \<and> capability e = c))"
proof -
  note ok' = space_okD [OF ok]
  let ?i = "MACH_PORT_INDEX name" and ?t = "is_table s"
  obtain tree where t: "tree_lookup s name =
      (map_option (\<lambda>_. In_tree name) (map_of (ist_list (is_tree s)) name), s\<lparr>is_tree := tree\<rparr>)"
    "ist_list tree = ist_list (is_tree s)" "ist_ok tree"
    using tree_lookup_spec [OF ok'(4)] by blast
  have same: "\<exists>tree. s = s\<lparr>is_tree := tree\<rparr> \<and> ist_list tree = ist_list (is_tree s) \<and> ist_ok tree"
    using ok'(4) by (intro exI [of _ "is_tree s"]) simp
  consider (tree) "?i < length ?t" "gen_of ?t ?i \<noteq> MACH_PORT_GEN name"
    | (free) "?i < length ?t" "gen_of ?t ?i = MACH_PORT_GEN name" "type_of ?t ?i = 0"
    | (used) "?i < length ?t" "gen_of ?t ?i = MACH_PORT_GEN name" "type_of ?t ?i \<noteq> 0"
    | (big) "length ?t \<le> ?i" by fastforce
  then show ?thesis
  proof cases
    case tree
    then have c: "caps {} s name = map_option capability (map_of (ist_list (is_tree s)) name)"
      by (simp add: caps_def Let_def)
    show ?thesis
    proof (cases "collides (ie_bits (?t ! ?i))")
      case True
      with tree t c show ?thesis
        by (auto simp: ipc_entry_lookup_def ok'(12) entry_at_def split: option.splits)
    next
      case False
      then have "map_of (ist_list (is_tree s)) name = None"
        using ok'(7) tree(1) map_of_indices unfolding coll_ok_def by fastforce
      with tree c False same show ?thesis by (simp add: ipc_entry_lookup_def ok'(12))
    qed
  next
    case free
    have "0 < ?i" using free(2) assms(2) head_ok_fields(2) [OF ok'(2)] by (cases "?i = 0") (auto simp: shadowed_def)
    then have fr: "?i \<in> free_slots {} ?t" using free by (simp add: free_slots_def MACH_PORT_TYPE_NONE_def)
    then have "map_of (ist_list (is_tree s)) name = None"
      using ok'(7) map_of_indices unfolding coll_ok_def by fastforce
    with fr have "caps {} s name = None" by (simp add: caps_def in_use_def Let_def)
    with free same show ?thesis by (simp add: ipc_entry_lookup_def ok'(12) MACH_PORT_TYPE_NONE_def)
  next
    case used
    have "0 < ?i" using used(3) head_ok_fields(1) [OF ok'(2)] by (cases "?i = 0") auto
    then have "caps {} s name = Some (capability (?t ! ?i))"
      using used by (simp add: caps_def in_use_def free_slots_def MACH_PORT_TYPE_NONE_def)
    with used same show ?thesis
      by (simp add: ipc_entry_lookup_def ok'(12) MACH_PORT_TYPE_NONE_def entry_at_def)
  next
    case big
    then have c: "caps {} s name = map_option capability (map_of (ist_list (is_tree s)) name)"
      by (simp add: caps_def in_use_def Let_def)
    show ?thesis
    proof (cases "is_tree_total s = 0")
      case True
      then have "ist_list (is_tree s) = []" using ok'(5) by simp
      with big c True same show ?thesis by (simp add: ipc_entry_lookup_def ok'(12))
    next
      case False
      with big t c show ?thesis
        by (auto simp: ipc_entry_lookup_def ok'(12) entry_at_def split: option.splits)
    qed
  qed
qed

section \<open>Updating the table\<close>

lemma set_bits_fields [simp]:
  "length (set_bits table i b) = length table"
  "i < length table \<Longrightarrow> ie_bits (set_bits table i b ! k) = (if k = i then b else ie_bits (table ! k))"
  "ie_object (set_bits table i b ! k) = ie_object (table ! k)"
  "ie_request (set_bits table i b ! k) = ie_request (table ! k)"
  "ie_index (set_bits table i b ! k) = ie_index (table ! k)"
  by (cases "i < length table"; cases "k = i"; simp add: set_bits_def list_update_beyond)+

lemma set_next_fields [simp]:
  "length (set_next table i n) = length table"
  "ie_bits (set_next table i n ! k) = ie_bits (table ! k)"
  "ie_object (set_next table i n ! k) = ie_object (table ! k)"
  "i < length table \<Longrightarrow> ie_request (set_next table i n ! k) = (if k = i then n else ie_request (table ! k))"
  "ie_index (set_next table i n ! k) = ie_index (table ! k)"
  by (cases "i < length table"; cases "k = i"; simp add: set_next_def list_update_beyond)+

lemma linked_cong:
  "(\<And>k. k = i \<or> k \<in> set fl \<Longrightarrow> ie_next (table' ! k) = ie_next (table ! k)) \<Longrightarrow>
   linked table' i fl \<longleftrightarrow> linked table i fl"
  by (induction fl arbitrary: i) auto

lemma linked_from:
  assumes "linked table i fl" and "ie_next (table' ! h) = ie_next (table ! i)"
    and "\<And>k. k \<in> set fl \<Longrightarrow> ie_next (table' ! k) = ie_next (table ! k)"
  shows "linked table' h fl"
proof (cases fl)
  case (Cons j js)
  have "linked table' j js \<longleftrightarrow> linked table j js" using assms(3) Cons by (intro linked_cong) auto
  then show ?thesis using assms(1,2) Cons by simp
qed (use assms in simp)

text \<open>The local reverse hash table depends on the index fields and the objects only.\<close>

definition same_hash :: "ipc_entry list \<Rightarrow> ipc_entry list \<Rightarrow> bool" where
  "same_hash table table' \<longleftrightarrow>
    length table' = length table \<and>
    (\<forall>k. ie_index (table' ! k) = ie_index (table ! k) \<and> ie_object (table' ! k) = ie_object (table ! k))"

text \<open>Objects of entries that are not entered may change.\<close>

lemma lh_ok_objects:
  assumes ok: "lh_ok table" and len: "length table' = length table"
    and ix: "\<forall>k. ie_index (table' ! k) = ie_index (table ! k)"
    and obj: "\<forall>k \<in> entered table. ie_object (table' ! k) = ie_object (table ! k)"
  shows "lh_ok table'" and "entered table' = entered table"
proof -
  have s: "slot table' = slot table" using ix by (simp add: fun_eq_iff slot_def)
  have o: "slot_object table' h = slot_object table h" if "h < length table" "slot table h \<noteq> 0" for h
    using that obj by (auto simp: slot_object_def s entered_def)
  have h: "home table' h = home table h" if "h < length table" "slot table h \<noteq> 0" for h
    using o [OF that] len by (simp add: home_def)
  show "lh_ok table'"
  proof (rule lh_okI)
    show "table' \<noteq> []" using lh_okD(1) [OF ok] len by auto
    show "slot table' k < length table'" if "k < length table'" for k
      using lh_okD(2) [OF ok] that by (simp add: s len)
    show "k = l" if "k < length table'" "l < length table'" "slot table' k \<noteq> 0" "slot table' l \<noteq> 0"
      "slot_object table' k = slot_object table' l" for k l
      using lh_okD(3) [OF ok, of k l] that o by (simp add: s len)
    show "lh_chain table'"
      using lh_okD(4) [OF ok] h unfolding lh_chain_def s len by simp
  qed
  show "entered table' = entered table" by (simp add: entered_def s len)
qed

lemma same_hash_lh:
  assumes "same_hash table table'"
  shows "lh_ok table' \<longleftrightarrow> lh_ok table" and "entered table' = entered table"
proof -
  have s: "slot table' = slot table" "length table' = length table"
    using assms by (simp_all add: fun_eq_iff slot_def same_hash_def)
  then have o: "slot_object table' = slot_object table"
    using assms by (simp add: fun_eq_iff slot_object_def same_hash_def)
  then have h: "home table' = home table" using s by (simp add: fun_eq_iff home_def)
  show "lh_ok table' \<longleftrightarrow> lh_ok table" "entered table' = entered table"
    using s by (auto simp: lh_ok_def lh_chain_def entered_def o h)
qed

lemma same_hash_updates [simp]:
  "same_hash table table" "same_hash table (set_bits table i b)" "same_hash table (set_next table i n)"
  by (simp_all add: same_hash_def)

lemma same_hash_trans: "same_hash a b \<Longrightarrow> same_hash b c \<Longrightarrow> same_hash a c"
  by (simp add: same_hash_def)

text \<open>When the send rights and their objects are the same, so is the state of the hash tables.\<close>

lemma hash_ok_cong:
  assumes "hash_ok sid P g table xs" and "same_hash table table'"
    and "table_sends P' table' = table_sends P table" and "tree_sends P' xs' = tree_sends P xs"
  shows "hash_ok sid P' g table' xs'"
  using assms same_hash_lh [OF assms(2)] by (simp add: hash_ok_def same_hash_def)

section \<open>Allocating from the free list\<close>

lemma free_okE:
  assumes "free_ok P table"
  obtains fl where "linked table 0 fl" "distinct fl" "set fl = free_slots P table"
  using assms by (auto simp: free_ok_def)

lemma sends_not_none: "MACH_PORT_TYPE_SEND \<noteq> MACH_PORT_TYPE_NONE"
  by (simp add: MACH_PORT_TYPE_SEND_def MACH_PORT_TYPE_NONE_def)

text \<open>
  Taking slot \<open>i\<close> out of the free list, by whatever route, and giving it the generation \<open>gen\<close>:
  the slot becomes a pending entry.
\<close>

definition taken :: "entry_ref set \<Rightarrow> ipc_entry list \<Rightarrow> nat \<Rightarrow> 32 word \<Rightarrow> ipc_entry list \<Rightarrow> bool" where
  "taken P table i gen table' \<longleftrightarrow>
    same_hash table table' \<and>
    (\<forall>k. ie_bits (table' ! k) = (if k = i then gen else ie_bits (table ! k))) \<and>
    ie_request (table' ! i) = 0 \<and>
    (\<forall>k. k \<noteq> 0 \<longrightarrow> k \<notin> free_slots P table \<longrightarrow> ie_request (table' ! k) = ie_request (table ! k))"

lemma taken_slots:
  assumes t: "taken P table i gen table'" and i: "i \<in> free_slots P table" and gen: "gen = IE_BITS_GEN gen"
  shows "free_slots (insert (In_table i) P) table' = free_slots P table - {i}"
    and "table_sends (insert (In_table i) P) table' = table_sends P table"
  using t i gen_only_fields(1) [OF gen] sends_not_none
  by (auto simp: free_slots_def table_sends_def taken_def same_hash_def MACH_PORT_TYPE_NONE_def split: if_splits)

lemma in_table_tree_sends [simp]: "tree_sends (insert (In_table i) P) xs = tree_sends P xs"
  by (simp add: tree_sends_def)

lemma in_table_tree_ok [simp]: "tree_ok (insert (In_table i) P) xs = tree_ok P xs"
  by (simp add: tree_ok_def)

lemma taken_ok:
  assumes ok: "space_ok its sid P g s" and i: "i \<in> free_slots P (is_table s)"
    and t: "taken P (is_table s) i gen table'" and gen: "gen = IE_BITS_GEN gen"
    and fl: "linked table' 0 fl" "distinct fl" "set fl = free_slots P (is_table s) - {i}"
  shows "space_ok its sid (insert (In_table i) P) g (s\<lparr>is_table := table'\<rparr>)"
proof -
  let ?P = "insert (In_table i) P" and ?t = "is_table s" and ?xs = "ist_list (is_tree s)"
  note ok' = space_okD [OF ok] and sl = taken_slots [OF t i gen]
  have len: "length table' = length ?t" using t by (simp add: taken_def same_hash_def)
  have bits: "ie_bits (table' ! k) = (if k = i then gen else ie_bits (?t ! k))" for k
    using t by (simp add: taken_def)
  have obj: "ie_object (table' ! k) = ie_object (?t ! k)" for k using t by (simp add: taken_def same_hash_def)
  have i0: "0 < i" "i < length ?t" using i by (simp_all add: free_slots_def)
  have i_free: "ie_bits (?t ! i) = gen_of ?t i" "ie_object (?t ! i) = IO_NULL" "i \<notin> indices ?xs"
    using ok'(3,7) i by (auto simp: free_ok_def coll_ok_def)
  have "free_ok ?P table'"
    using fl ok'(3) bits obj unfolding free_ok_def sl(1) by auto
  moreover have "head_ok table'" using ok'(2) bits [of 0] i0 len by (auto simp: head_ok_def)
  moreover have "coll_ok ?P table' ?xs"
    using ok'(7) gen_only_fields(3) [OF gen] gen_only_fields(3) [OF i_free(1)] i_free(3)
    unfolding coll_ok_def sl(1) len by (auto simp: bits indices_def)
  moreover have "hash_ok sid ?P g table' ?xs"
    using hash_ok_cong [OF ok'(10), of table' ?P ?xs] t sl(2) by (simp add: taken_def)
  moreover have "pending_ok ?P (s\<lparr>is_table := table'\<rparr>)"
    using ok'(11,12) i0 obj i_free(2) by (auto simp: pending_ok_def)
  ultimately show ?thesis using ok len unfolding space_ok_def by (simp add: sizes_ok_def)
qed

lemma taken_caps:
  assumes ok: "space_ok its sid P g s" and i: "i \<in> free_slots P (is_table s)"
    and t: "taken P (is_table s) i gen table'" and gen: "gen = IE_BITS_GEN gen"
    and name: "MACH_PORT_INDEX name = i" "MACH_PORT_GEN name = gen"
  shows "caps P s name = None"
    and "caps (insert (In_table i) P) (s\<lparr>is_table := table'\<rparr>) = (caps P s)(name \<mapsto> (0, IO_NULL, 0))"
proof -
  let ?t = "is_table s" and ?xs = "ist_list (is_tree s)"
  note ok' = space_okD [OF ok] and sl = taken_slots [OF t i gen]
  have none: "map_of ?xs m = None" if "MACH_PORT_INDEX m = i" for m
    using map_of_indices [of ?xs m] that i ok'(7) unfolding coll_ok_def by fastforce
  show c: "caps P s name = None"
    using none name(1) i by (simp add: caps_def in_use_def Let_def)
  have i0: "0 < i" "i < length ?t" using i by (simp_all add: free_slots_def)
  have f: "ie_bits (table' ! k) = (if k = i then gen else ie_bits (?t ! k))"
    "ie_object (table' ! k) = ie_object (?t ! k)" "length table' = length ?t" "ie_request (table' ! i) = 0" for k
    using t by (simp_all add: taken_def same_hash_def)
  have obj: "ie_object (?t ! i) = IO_NULL" using i ok'(3) by (auto simp: free_ok_def)
  have cap: "capability (table' ! k) = capability (?t ! k)" if "0 < k" "k \<notin> free_slots P ?t" for k
  proof -
    have "k \<noteq> i" using that(2) i by auto
    then show ?thesis using that t f by (simp add: capability_def taken_def)
  qed
  have cap_i: "capability (table' ! i) = (0, IO_NULL, 0)"
    using f obj gen_only_fields(2) [OF gen] by (simp add: capability_def)
  show "caps (insert (In_table i) P) (s\<lparr>is_table := table'\<rparr>) = (caps P s)(name \<mapsto> (0, IO_NULL, 0))"
  proof
    fix m
    show "caps (insert (In_table i) P) (s\<lparr>is_table := table'\<rparr>) m = ((caps P s)(name \<mapsto> (0, IO_NULL, 0))) m"
    proof (cases "MACH_PORT_INDEX m = i")
      case True
      have "m = name \<longleftrightarrow> MACH_PORT_GEN m = gen" using True name name_eqI by metis
      then show ?thesis
        using True i i0 f none [OF True] gen cap_i by (auto simp: caps_def in_use_def sl(1) Let_def)
    next
      case False
      then show ?thesis
        using name(1) f cap i by (auto simp: caps_def in_use_def sl(1) Let_def)
    qed
  qed
qed

lemma ipc_entry_get_taken:
  assumes ok: "space_ok its sid P g s" and free: "free_slots P (is_table s) \<noteq> {}"
  obtains i gen table' where "ipc_entry_get s = Inr (MACH_PORT_MAKE i gen, In_table i, s\<lparr>is_table := table'\<rparr>)"
    and "i \<in> free_slots P (is_table s)" and "gen = ie_bits (is_table s ! i) + IE_BITS_GEN_ONE"
    and "taken P (is_table s) i gen table'"
    and "\<exists>fl. linked table' 0 fl \<and> distinct fl \<and> set fl = free_slots P (is_table s) - {i}"
proof -
  let ?t = "is_table s"
  obtain fl where fl: "linked ?t 0 fl" "distinct fl" "set fl = free_slots P ?t"
    using free_okE [OF space_okD(3) [OF ok]] .
  then obtain i fl' where c: "fl = i # fl'" using free by (cases fl) auto
  have i: "i \<in> free_slots P ?t" using fl(3) c by auto
  then have i0: "0 < i" "i < length ?t" by (simp_all add: free_slots_def)
  have h: "0 < length ?t" using i0 by linarith
  let ?gen = "ie_bits (?t ! i) + IE_BITS_GEN_ONE"
  let ?t1 = "set_next ?t 0 (ie_next (?t ! i))"
  let ?t2 = "set_next (set_bits ?t1 i ?gen) i 0"
  have "ie_next (?t ! 0) = i" using fl(1) c by simp
  then have get: "ipc_entry_get s = Inr (MACH_PORT_MAKE i ?gen, In_table i, s\<lparr>is_table := ?t2\<rparr>)"
    using i0 by (simp add: ipc_entry_get_def Let_def)
  have "taken P ?t i ?gen ?t2"
    using i0 h i unfolding taken_def by (auto simp: same_hash_def)
  moreover have "linked ?t2 0 fl'"
  proof -
    have "linked ?t i fl'" "i \<notin> set fl'" "0 \<notin> set fl'" using fl c by (auto simp: free_slots_def)
    then show ?thesis using i0 h by (intro linked_from [of ?t i fl' ?t2 0]) auto
  qed
  moreover have "distinct fl'" "set fl' = free_slots P ?t - {i}" using fl(2,3) unfolding c by auto
  ultimately show thesis by (intro that [OF get i refl]) blast+
qed

lemma sizes_less:
  assumes "entry_sizes its" and "sizes_ok its s"
  shows "length (is_table s) < 2 ^ 24" and "its ! is_table_next s < 2 ^ 24"
    and "is_table_size s \<le> its ! is_table_next s"
  using assms(2) entry_sizes.fits [OF assms(1), of "is_table_next s"]
    entry_sizes.fits [OF assms(1), of "is_table_next s - 1"]
    entry_sizes.monotone [OF assms(1), of "is_table_next s - 1" "is_table_next s"]
  by (simp_all add: sizes_ok_def)

lemma ipc_entry_get_spec:
  assumes ok: "space_ok its sid P g s" and its: "entry_sizes its"
  shows "case ipc_entry_get s of
      Inl kr \<Rightarrow> kr = KERN_NO_SPACE \<and> free_slots P (is_table s) = {}
    | Inr (name, r, s') \<Rightarrow>
        MACH_PORT_VALID name \<and> r = In_table (MACH_PORT_INDEX name) \<and> caps P s name = None \<and>
        space_ok its sid (insert r P) g s' \<and> caps (insert r P) s' = (caps P s)(name \<mapsto> (0, IO_NULL, 0)) \<and>
        entry_at s' r = Some \<lparr>ie_bits = MACH_PORT_GEN name, ie_object = IO_NULL, ie_request = 0,
          ie_index = ie_index (is_table s ! MACH_PORT_INDEX name)\<rparr>"
proof (cases "free_slots P (is_table s) = {}")
  case True
  obtain fl where "linked (is_table s) 0 fl" "distinct fl" "set fl = free_slots P (is_table s)"
    using free_okE [OF space_okD(3) [OF ok]] .
  then have "ie_next (is_table s ! 0) = 0" using True by simp
  then show ?thesis using True by (simp add: ipc_entry_get_def)
next
  case False
  let ?t = "is_table s"
  obtain i gen table' where get: "ipc_entry_get s = Inr (MACH_PORT_MAKE i gen, In_table i, s\<lparr>is_table := table'\<rparr>)"
    and i: "i \<in> free_slots P ?t" and gen: "gen = ie_bits (?t ! i) + IE_BITS_GEN_ONE"
    and t: "taken P ?t i gen table'"
    and fl: "\<exists>fl. linked table' 0 fl \<and> distinct fl \<and> set fl = free_slots P ?t - {i}"
    using ipc_entry_get_taken [OF ok False] .
  note ok' = space_okD [OF ok]
  have b: "ie_bits (?t ! i) = gen_of ?t i" "ie_object (?t ! i) = IO_NULL"
    using ok'(3) i by (auto simp: free_ok_def)
  have g: "gen = IE_BITS_GEN gen" using gen_increment [OF b(1)] gen by simp
  have i0: "0 < i" "i < length ?t" using i by (simp_all add: free_slots_def)
  have lt: "length ?t < 2 ^ 24" using sizes_less(1) [OF its ok'(1)] .
  then have i24: "i < 2 ^ 24" using i0 by linarith
  let ?name = "MACH_PORT_MAKE i gen"
  have idx: "MACH_PORT_INDEX ?name = i" "MACH_PORT_GEN ?name = gen"
    using MACH_PORT_INDEX_MAKE [OF i24] MACH_PORT_GEN_MAKE g
    by (simp_all add: IE_BITS_GEN_def IE_BITS_GEN_MASK_def)
  have "length ?t \<le> MACH_PORT_INDEX MACH_PORT_DEAD"
    using ok'(1) entry_sizes.largest [OF its, of "is_table_next s - 1"] by (auto simp: sizes_ok_def)
  then have valid: "MACH_PORT_VALID ?name"
    using idx(1) i0 by (auto simp: MACH_PORT_VALID_def MACH_PORT_NULL_def MACH_PORT_INDEX_def)
  note c = taken_caps [OF ok i t g idx]
  have "space_ok its sid (insert (In_table i) P) g (s\<lparr>is_table := table'\<rparr>)"
    using fl taken_ok [OF ok i t g] by blast
  moreover have "entry_at (s\<lparr>is_table := table'\<rparr>) (In_table i) =
      Some \<lparr>ie_bits = gen, ie_object = IO_NULL, ie_request = 0, ie_index = ie_index (?t ! i)\<rparr>"
    using t b i0 ok'(12) by (auto simp: entry_at_def taken_def same_hash_def intro!: ipc_entry.equality)
  ultimately show ?thesis using get valid idx c by simp
qed

section \<open>Moving a send right between the reverse hash tables\<close>

lemma same_fields_lookup:
  "same_fields table table' \<Longrightarrow> ie_bits (table' ! k) = ie_bits (table ! k)"
  "same_fields table table' \<Longrightarrow> ie_object (table' ! k) = ie_object (table ! k)"
  "same_fields table table' \<Longrightarrow> ie_request (table' ! k) = ie_request (table ! k)"
  "same_fields table table' \<Longrightarrow> length table' = length table"
  by (simp_all add: same_fields_def)

text \<open>
  The entry \<open>e\<close> of the tree has been copied to slot \<open>i\<close>, which is not entered; if it is a send
  right, it leaves the global table for the local one.
\<close>

lemma move_hash_spec:
  assumes t: "is_table s = t" and sz: "is_table_size s = length t" and hc: "is_tree_hash s = hc"
    and lh: "lh_ok t" and gh: "gh_ok g" and i: "0 < i" "i < length t" "i \<notin> entered t"
    and obj: "ie_object (t ! i) = ie_object e"
    and glob: "IE_BITS_TYPE (ie_bits e) = MACH_PORT_TYPE_SEND \<longrightarrow> gh_map g (sid, ie_object e) = Some name"
    and loc: "\<forall>k \<in> entered t. gh_map g (sid, ie_object (t ! k)) = None"
  obtains g' t' where "move_hash g sid s e name i =
      Some (g', s\<lparr>is_table := t', is_tree_hash :=
        (if IE_BITS_TYPE (ie_bits e) = MACH_PORT_TYPE_SEND then hc - 1 else hc)\<rparr>)"
    and "same_fields t t'" and "lh_ok t'"
    and "entered t' = (if IE_BITS_TYPE (ie_bits e) = MACH_PORT_TYPE_SEND
      then insert i (entered t) else entered t)"
    and "gh_ok g'" and "gh_map g' = (if IE_BITS_TYPE (ie_bits e) = MACH_PORT_TYPE_SEND
      then (gh_map g)((sid, ie_object e) := None) else gh_map g)"
proof (cases "IE_BITS_TYPE (ie_bits e) = MACH_PORT_TYPE_SEND")
  case True
  let ?s = "s\<lparr>is_tree_hash := hc - 1\<rparr>"
  have lok: "local_ok ?s" using lh sz t by (simp add: local_ok_def)
  have g: "gh_map g (sid, ie_object e) = Some name" using glob True by simp
  have "local_map ?s (ie_object e) = None"
  proof (rule ccontr)
    assume "local_map ?s (ie_object e) \<noteq> None"
    then obtain k where "k \<in> entered t" "ie_object (t ! k) = ie_object e"
      using local_map_Some [OF lok] t by auto
    with loc g show False by fastforce
  qed
  then obtain t' where t': "ipc_hash_local_insert ?s (ie_object e) i = Some (?s\<lparr>is_table := t'\<rparr>)"
    "same_fields t t'" "entered t' = insert i (entered t)" "local_ok (?s\<lparr>is_table := t'\<rparr>)"
    using ipc_hash_local_insert_spec [OF lok, of "ie_object e" i] i obj t by (auto simp: local_fits_def)
  let ?g = "fst (ipc_hash_global_delete g sid s (ie_object e) name)"
  have "move_hash g sid s e name i = Some (?g, ?s\<lparr>is_table := t'\<rparr>)"
    using True t'(1) hc by (simp add: move_hash_def ipc_hash_global_delete_def Let_def)
  then show thesis
    using True t' global_delete_spec [OF gh g, of s] by (intro that [of ?g t']) (simp_all add: local_ok_def)
next
  case False
  then show thesis
    using lh gh t hc by (intro that [of g t]) (simp_all add: move_hash_def)
qed

end
