(* ===== verification/Entry_Dealloc.thy ===== *)
theory Entry_Dealloc
  imports Space_Invariant
begin

text \<open>
  \<^verbatim>\<open>ipc_entry_dealloc\<close> keeps the invariant of a space and removes one name from it, in each of
  its three cases: the slot goes to the free list, an entry of the tree takes its place, or
  an entry of the tree is removed.
\<close>

section \<open>Freeing a slot\<close>

lemma dealloc_free_fields:
  assumes "i < length (is_table s)"
  defines "table' \<equiv> is_table (dealloc_free s i)"
  shows "same_hash (is_table s) table'"
    and "ie_bits (table' ! k) = (if k = i then gen_of (is_table s) i else ie_bits (is_table s ! k))"
    and "0 < i \<Longrightarrow> ie_next (table' ! k) =
      (if k = 0 then i else if k = i then ie_next (is_table s ! 0) else ie_next (is_table s ! k))"
    and "dealloc_free s i = s\<lparr>is_table := table'\<rparr>"
proof -
  have "0 < length (is_table s)" using assms(1) by linarith
  then show "same_hash (is_table s) table'"
    and "ie_bits (table' ! k) = (if k = i then gen_of (is_table s) i else ie_bits (is_table s ! k))"
    and "0 < i \<Longrightarrow> ie_next (table' ! k) =
      (if k = 0 then i else if k = i then ie_next (is_table s ! 0) else ie_next (is_table s ! k))"
    and "dealloc_free s i = s\<lparr>is_table := table'\<rparr>"
    using assms(1) unfolding table'_def
    by (simp_all add: dealloc_free_def Let_def same_hash_def GEN_eq)
qed

lemma dealloc_free_ok:
  assumes ok: "space_ok its sid {In_table i} g s" and nc: "\<not> collides (ie_bits (is_table s ! i))"
  shows "space_ok its sid {} g (dealloc_free s i)"
    and "MACH_PORT_INDEX name = i \<Longrightarrow> MACH_PORT_GEN name = gen_of (is_table s) i \<Longrightarrow>
      caps {} (dealloc_free s i) = (caps {In_table i} s)(name := None)"
proof -
  let ?t = "is_table s" and ?xs = "ist_list (is_tree s)" and ?P = "{In_table i}"
  note ok' = space_okD [OF ok]
  have i: "0 < i" "i < length ?t" "ie_object (?t ! i) = IO_NULL"
    using ok'(11,12) by (auto simp: pending_ok_def)
  define t' where "t' = is_table (dealloc_free s i)"
  note f = dealloc_free_fields [OF i(2), folded t'_def]
  have len: "length t' = length ?t" and obj: "ie_object (t' ! k) = ie_object (?t ! k)" for k
    using f(1) by (simp_all add: same_hash_def)
  have bits_i: "IE_BITS_TYPE (gen_of ?t i) = 0" "\<not> collides (gen_of ?t i)"
    "IE_BITS_GEN (gen_of ?t i) = gen_of ?t i"
    by (simp_all add: GEN_eq gen_fields)
  have fs: "free_slots {} t' = insert i (free_slots ?P ?t)" "i \<notin> free_slots ?P ?t"
    using i bits_i(1) f(2) len by (auto simp: free_slots_def MACH_PORT_TYPE_NONE_def)
  have ts: "table_sends {} t' = table_sends ?P ?t"
    using bits_i(1) f(2) len sends_not_none by (auto simp: table_sends_def MACH_PORT_TYPE_NONE_def)
  have ni: "i \<notin> indices ?xs" using nc ok'(7) i(2) by (auto simp: coll_ok_def)
  have s': "dealloc_free s i = s\<lparr>is_table := t'\<rparr>" using f(4) .
  obtain fl where fl: "linked ?t 0 fl" "distinct fl" "set fl = free_slots ?P ?t"
    using free_okE [OF ok'(3)] .
  have nx: "ie_next (t' ! k) = (if k = 0 then i else if k = i then ie_next (?t ! 0) else ie_next (?t ! k))" for k
    using f(3) [OF i(1)] .
  have "linked t' i fl"
  proof (rule linked_from [OF fl(1)])
    show "ie_next (t' ! i) = ie_next (?t ! 0)" using nx i(1) by simp
    show "ie_next (t' ! k) = ie_next (?t ! k)" if "k \<in> set fl" for k
      using that nx fl(3) fs(2) by (auto simp: free_slots_def)
  qed
  then have "linked t' 0 (i # fl)" "distinct (i # fl)" "set (i # fl) = free_slots {} t'"
    using nx fl(2,3) fs by simp_all
  then have "\<exists>fl. linked t' 0 fl \<and> distinct fl \<and> set fl = free_slots {} t'" by blast
  moreover have "ie_bits (t' ! k) = gen_of t' k \<and> ie_object (t' ! k) = IO_NULL" if "k \<in> free_slots {} t'" for k
    using that ok'(3) i(3) bits_i(3) unfolding fs by (auto simp: f(2) obj free_ok_def)
  ultimately have "free_ok {} t'" by (simp add: free_ok_def)
  moreover have "head_ok t'" using ok'(2) f(2) [of 0] i(1,2) len by (auto simp: head_ok_def)
  moreover have "coll_ok {} t' ?xs"
    using ok'(7) ni nc bits_i unfolding coll_ok_def fs len by (auto simp: f(2) indices_def)
  moreover have "hash_ok sid {} g t' ?xs"
    using hash_ok_cong [OF ok'(10) f(1)] ts by simp
  moreover have "tree_ok {} ?xs" "tree_sends ?P ?xs = tree_sends {} ?xs" using ok'(6) by simp_all
  ultimately show "space_ok its sid {} g (dealloc_free s i)"
    using ok len unfolding s' space_ok_def by (simp add: sizes_ok_def pending_ok_def)
  show "caps {} (dealloc_free s i) = (caps ?P s)(name := None)"
    if n: "MACH_PORT_INDEX name = i" "MACH_PORT_GEN name = gen_of ?t i"
  proof
    fix m
    have none: "map_of ?xs m = None" if "MACH_PORT_INDEX m = i"
      using that ni map_of_indices [of ?xs m] by (cases "map_of ?xs m") auto
    have eq: "m = name" if "MACH_PORT_INDEX m = i" "gen_of ?t i = MACH_PORT_GEN m"
      by (rule name_eqI) (simp_all only: that n)
    have cap: "capability (t' ! k) = capability (?t ! k)" if "0 < k" "k \<noteq> i" for k
      using that obj nx f(2) by (simp add: capability_def)
    show "caps {} (dealloc_free s i) m = ((caps ?P s)(name := None)) m"
    proof (cases "MACH_PORT_INDEX m = i")
      case True
      have "caps {} (dealloc_free s i) m = None"
        using True none [OF True] fs(1) unfolding s' by (simp add: caps_def in_use_def Let_def)
      moreover have "caps ?P s m = None" if "m \<noteq> name"
        using True none [OF True] eq [OF True] that by (auto simp: caps_def Let_def)
      ultimately show ?thesis by simp
    next
      case False
      then have "caps {} (dealloc_free s i) m = caps ?P s m"
        unfolding s' using cap by (intro caps_eqI) (auto simp: in_use_def fs(1) len f(2))
      with False n show ?thesis by auto
    qed
  qed
qed

section \<open>Removing an entry of the tree\<close>

lemma tree_collision_spec:
  assumes "ist_ok (is_tree s)" and "tree_ok P (ist_list (is_tree s))"
  obtains tree where "ipc_entry_tree_collision s name =
      (MACH_PORT_INDEX name \<in> indices (ist_list (is_tree s)), s\<lparr>is_tree := tree\<rparr>)"
    and "ist_list tree = ist_list (is_tree s)" and "ist_ok tree"
proof -
  obtain lo hi tree where b: "ipc_splay_tree_bounds (is_tree s) name = (lo, hi, tree)"
    using prod_cases3 by blast
  have valid: "MACH_PORT_VALID m" if "(m, e) \<in> set (ist_list (is_tree s))" for m e
    using assms(2) that by (auto simp: tree_ok_def)
  have "MACH_PORT_INDEX name \<in> indices (ist_list (is_tree s)) \<longleftrightarrow>
      (\<exists>x \<in> set (ist_list (is_tree s)). MACH_PORT_INDEX (fst x) = MACH_PORT_INDEX name)"
    by (simp add: indices_def image_iff) metis
  then have "ipc_entry_tree_collision s name =
      (MACH_PORT_INDEX name \<in> indices (ist_list (is_tree s)), s\<lparr>is_tree := tree\<rparr>)"
    using splay.bounds_collision [OF assms(1) b valid]
    unfolding ipc_entry_tree_collision_def b by simp
  with splay.bounds_law [OF assms(1) b] that show thesis by blast
qed

lemma indices_remove:
  "(name, e) \<in> set xs \<Longrightarrow>
   indices xs = insert (MACH_PORT_INDEX name) (indices (filter (\<lambda>x. fst x \<noteq> name) xs))"
  by (force simp: indices_def)

lemma indices_filter: "indices (filter P xs) \<subseteq> indices xs"
  by (auto simp: indices_def)

lemma finite_indices [simp]: "finite (indices xs)"
  by (simp add: indices_def)

lemma tree_sends_remove:
  "tree_sends {} (filter (\<lambda>x. fst x \<noteq> name) xs) = tree_sends {In_tree name} xs"
  by (auto simp: tree_sends_def)

lemma tree_ok_remove: "tree_ok {In_tree name} xs \<Longrightarrow> tree_ok {} (filter (\<lambda>x. fst x \<noteq> name) xs)"
  by (auto simp: tree_ok_def)

lemma in_tree_slots [simp]:
  "free_slots {In_tree name} table = free_slots {} table"
  "table_sends {In_tree name} table = table_sends {} table"
  by (simp_all add: free_slots_def table_sends_def)

lemma distinct_remove_length:
  "distinct (map fst xs) \<Longrightarrow> (name, e) \<in> set xs \<Longrightarrow>
   Suc (length (filter (\<lambda>x. fst x \<noteq> name) xs)) = length xs"
proof (induction xs)
  case (Cons x xs)
  show ?case
  proof (cases "fst x = name")
    case True
    then have "\<forall>y \<in> set xs. fst y \<noteq> name" using Cons.prems(1) image_iff by fastforce
    then have "filter (\<lambda>x. fst x \<noteq> name) xs = xs" by (simp add: filter_id_conv)
    with True show ?thesis by simp
  qed (use Cons in auto)
qed simp

text \<open>The bits and counters after one name of the tree is gone, for each place of its index.\<close>

lemma dealloc_tree_result:
  assumes ok: "space_ok its sid {In_tree name} g s"
  defines "xs' \<equiv> filter (\<lambda>x. fst x \<noteq> name) (ist_list (is_tree s))" and "i \<equiv> MACH_PORT_INDEX name"
  obtains tree where "ist_list tree = xs'" and "ist_ok tree"
    and "dealloc_tree its s name = s\<lparr>is_tree := tree, is_tree_total := is_tree_total s - 1,
      is_table := (if i < is_table_size s \<and> i \<notin> indices xs'
        then set_bits (is_table s) i (ie_bits (is_table s ! i) AND NOT IE_BITS_COLLISION) else is_table s),
      is_tree_small := (if is_table_size s \<le> i \<and> i < its ! is_table_next s \<and> i \<notin> indices xs'
        then is_tree_small s - 1 else is_tree_small s)\<rparr>"
proof -
  note ok' = space_okD [OF ok]
  obtain e where e: "(name, e) \<in> set (ist_list (is_tree s))" using ok'(11) by (auto simp: pending_ok_def)
  then have "map_of (ist_list (is_tree s)) name = Some e"
    using ascending_distinct [OF ist_ok_ascending [OF ok'(4)]] by simp
  note del = delete_spec [OF ok'(4) this]
  let ?s1 = "s\<lparr>is_tree := ipc_splay_tree_delete (is_tree s) name, is_tree_total := is_tree_total s - 1\<rparr>"
  have "tree_ok {} (ist_list (is_tree ?s1))" using tree_ok_remove [OF ok'(6)] del by simp
  then obtain tree where c: "ipc_entry_tree_collision ?s1 name = (i \<in> indices xs', ?s1\<lparr>is_tree := tree\<rparr>)"
    and tree: "ist_list tree = xs'" "ist_ok tree"
    using tree_collision_spec [of ?s1 "{}" name] del unfolding xs'_def i_def by auto
  show thesis
  proof (cases "i < is_table_size s \<or> i < its ! is_table_next s")
    case True
    then show thesis
      using that [OF tree] c by (cases "i < is_table_size s"; cases "i \<in> indices xs'")
        (simp_all add: dealloc_tree_def i_def [symmetric] Let_def)
  next
    case False
    then show thesis
      using that [of "ipc_splay_tree_delete (is_tree s) name"] del
      by (simp add: dealloc_tree_def i_def [symmetric] Let_def xs'_def)
  qed
qed

lemma dealloc_tree_ok:
  assumes ok: "space_ok its sid {In_tree name} g s"
  shows "space_ok its sid {} g (dealloc_tree its s name)"
    and "caps {} (dealloc_tree its s name) = (caps {In_tree name} s)(name := None)"
proof -
  let ?t = "is_table s" and ?xs = "ist_list (is_tree s)" and ?P = "{In_tree name}"
  define i where "i = MACH_PORT_INDEX name"
  define xs' where "xs' = filter (\<lambda>x. fst x \<noteq> name) ?xs"
  note ok' = space_okD [OF ok]
  obtain e where e: "(name, e) \<in> set ?xs" using ok'(11) by (auto simp: pending_ok_def)
  have asc: "ascending ?xs" using ist_ok_ascending [OF ok'(4)] .
  obtain tree where tree: "ist_list tree = xs'" "ist_ok tree"
    and res: "dealloc_tree its s name = s\<lparr>is_tree := tree, is_tree_total := is_tree_total s - 1,
      is_table := (if i < is_table_size s \<and> i \<notin> indices xs'
        then set_bits ?t i (ie_bits (?t ! i) AND NOT IE_BITS_COLLISION) else ?t),
      is_tree_small := (if is_table_size s \<le> i \<and> i < its ! is_table_next s \<and> i \<notin> indices xs'
        then is_tree_small s - 1 else is_tree_small s)\<rparr>"
    using dealloc_tree_result [OF ok] unfolding i_def xs'_def by blast
  define t' where "t' = (if i < is_table_size s \<and> i \<notin> indices xs'
    then set_bits ?t i (ie_bits (?t ! i) AND NOT IE_BITS_COLLISION) else ?t)"
  have ix: "indices ?xs = insert i (indices xs')" using indices_remove [OF e] by (simp add: i_def xs'_def)
  have sub: "set xs' \<subseteq> set ?xs" by (auto simp: xs'_def)
  have sh: "same_hash ?t t'" by (simp add: t'_def)
  have len: "length t' = length ?t" by (simp add: t'_def)
  have f: "type_of t' k = type_of ?t k" "gen_of t' k = gen_of ?t k" "ie_request (t' ! k) = ie_request (?t ! k)"
    "capability (t' ! k) = capability (?t ! k)" "ie_object (t' ! k) = ie_object (?t ! k)" for k
    using ok'(12) by (auto simp: t'_def capability_def entry_simps)
  have fs: "free_slots {} t' = free_slots {} ?t" "table_sends {} t' = table_sends {} ?t"
    by (simp_all add: free_slots_def table_sends_def f len)
  have col: "collides (ie_bits (t' ! k)) \<longleftrightarrow> k \<in> indices xs'" if "k < length ?t" for k
    using that ok'(7,12) ix by (auto simp: t'_def coll_ok_def entry_simps)
  have bits: "ie_bits (t' ! k) = ie_bits (?t ! k)" if "k \<in> free_slots {} ?t" for k
  proof -
    have "k \<noteq> i" using that ok'(7) ix by (auto simp: coll_ok_def)
    then show ?thesis using ok'(12) by (simp add: t'_def)
  qed
  have "free_ok {} t'"
    using ok'(3) linked_cong [of 0 _ t' ?t] unfolding free_ok_def fs by (simp add: f bits)
  moreover have "head_ok t'"
    using ok'(2,12) len by (auto simp: head_ok_def t'_def and.assoc entry_simps)
  moreover have "coll_ok {} t' xs'"
    using ok'(7) col sub ix unfolding coll_ok_def fs len by (auto simp: f)
  moreover have "is_tree_total s - 1 = length xs'"
    using distinct_remove_length [OF ascending_distinct [OF asc] e] ok'(5) by (simp add: xs'_def)
  moreover have "(if is_table_size s \<le> i \<and> i < its ! is_table_next s \<and> i \<notin> indices xs'
        then is_tree_small s - 1 else is_tree_small s) =
      small_count (is_table_size s) (its ! is_table_next s) xs'"
    using ok'(8) unfolding small_count_def ix by (auto simp: Int_insert_left insert_absorb)
  moreover have "hash_ok sid {} g t' xs'"
    using hash_ok_cong [OF ok'(10) sh, of "{}" xs'] tree_sends_remove [of name ?xs] fs(2)
    by (simp add: xs'_def)
  moreover have "tree_ok {} xs'" "tree_sends {} xs' = tree_sends ?P ?xs"
    using tree_ok_remove [OF ok'(6)] tree_sends_remove [of name ?xs] by (simp_all add: xs'_def)
  ultimately show "space_ok its sid {} g (dealloc_tree its s name)"
    using ok' tree len unfolding res t'_def [symmetric] space_ok_def
    by (simp add: sizes_ok_def pending_ok_def)
  have use: "in_use {} (dealloc_tree its s name) k \<longleftrightarrow> in_use ?P s k" for k
    unfolding res t'_def [symmetric] by (simp add: in_use_def fs len)
  have gen: "\<not> (in_use ?P s i \<and> gen_of ?t i = MACH_PORT_GEN name)"
    using ok'(7) e by (force simp: coll_ok_def in_use_def i_def)
  show "caps {} (dealloc_tree its s name) = (caps ?P s)(name := None)"
  proof
    fix m
    show "caps {} (dealloc_tree its s name) m = ((caps ?P s)(name := None)) m"
    proof (cases "m = name")
      case True
      have "map_of xs' name = None" by (simp add: xs'_def map_of_filter_neq)
      then show ?thesis
        using True gen use [of i] unfolding res t'_def [symmetric]
        by (simp add: caps_def i_def [symmetric] f tree Let_def)
    next
      case False
      then have "map_of xs' m = map_of ?xs m" by (simp add: xs'_def map_of_filter_neq)
      then have "caps {} (dealloc_tree its s name) m = caps ?P s m"
        using use unfolding res t'_def [symmetric] by (intro caps_eqI) (simp_all add: f tree)
      with False show ?thesis by simp
    qed
  qed
qed

section \<open>Moving an entry of the tree to the slot\<close>

lemma filter_less_index:
  "i < 2 ^ 24 \<Longrightarrow> filter (\<lambda>x. fst x < MACH_PORT_MAKE i 0) xs = filter (\<lambda>x. MACH_PORT_INDEX (fst x) < i) xs"
  "i < 2 ^ 24 \<Longrightarrow> filter (\<lambda>x. MACH_PORT_MAKE i 0 \<le> fst x) xs = filter (\<lambda>x. i \<le> MACH_PORT_INDEX (fst x)) xs"
  by (simp_all add: name_less_MAKE_iff linorder_not_less [symmetric])

text \<open>A tree is cut into the names below an index and the others.\<close>

lemma split_index:
  assumes "ist_ok tree" and "i < 2 ^ 24"
  obtains big small where "ipc_splay_tree_split tree (MACH_PORT_MAKE i 0) tree0 = (big, small)"
    and "ist_list big = filter (\<lambda>x. i \<le> MACH_PORT_INDEX (fst x)) (ist_list tree)"
    and "ist_list small = filter (\<lambda>x. MACH_PORT_INDEX (fst x) < i) (ist_list tree)"
    and "ist_ok big" and "ist_ok small"
proof -
  obtain big small where s: "ipc_splay_tree_split tree (MACH_PORT_MAKE i 0) tree0 = (big, small)" by fastforce
  then show thesis
    using that [OF s] split_spec [OF assms(1) s] by (simp add: filter_less_index [OF assms(2)])
qed

lemma ascending_index_split:
  assumes "ascending xs" and "i < 2 ^ 24"
  shows "filter (\<lambda>x. MACH_PORT_INDEX (fst x) < i) xs @ filter (\<lambda>x. i \<le> MACH_PORT_INDEX (fst x)) xs = xs"
  using ascending_split [OF assms(1), of "MACH_PORT_MAKE i 0"] by (simp add: filter_less_index [OF assms(2)])

lemma pick_spec:
  assumes "ist_list tree \<noteq> []"
  obtains name e where "ipc_splay_tree_pick tree = Some (name, e)" and "(name, e) \<in> set (ist_list tree)"
  using assms that by (cases "ist_root tree") (auto simp: ist_list_def ipc_splay_tree_pick_def)

lemma pick_None: "ipc_splay_tree_pick tree = None \<longleftrightarrow> ist_list tree = []"
  by (cases "ist_root tree") (auto simp: ist_list_def ipc_splay_tree_pick_def)

lemma join_ok:
  assumes "ist_ok tree" "ist_ok small" "ascending (ist_list small @ ist_list tree)"
  shows "ist_list (fst (ipc_splay_tree_join tree small)) = ist_list small @ ist_list tree"
    and "ist_ok (fst (ipc_splay_tree_join tree small))"
  using join_spec [OF assms surjective_pairing] by simp_all

lemma tree_without:
  assumes asc: "ascending xs" and i: "Suc i < 2 ^ 24" and name: "MACH_PORT_INDEX name = i"
  shows "filter (\<lambda>x. MACH_PORT_INDEX (fst x) < i) xs @
      filter (\<lambda>x. fst x \<noteq> name) (filter (\<lambda>x. i \<le> MACH_PORT_INDEX (fst x))
        (filter (\<lambda>x. MACH_PORT_INDEX (fst x) < Suc i) xs)) @
      filter (\<lambda>x. Suc i \<le> MACH_PORT_INDEX (fst x)) xs = filter (\<lambda>x. fst x \<noteq> name) xs"
proof -
  let ?A = "filter (\<lambda>x. MACH_PORT_INDEX (fst x) < i) xs"
    and ?C = "filter (\<lambda>x. Suc i \<le> MACH_PORT_INDEX (fst x)) xs"
    and ?S = "filter (\<lambda>x. MACH_PORT_INDEX (fst x) < Suc i) xs"
  let ?B = "filter (\<lambda>x. i \<le> MACH_PORT_INDEX (fst x)) ?S"
  have "?S @ ?C = xs" using asc i by (rule ascending_index_split)
  moreover have "filter (\<lambda>x. MACH_PORT_INDEX (fst x) < i) ?S @ ?B = ?S"
    using ascending_filter [OF asc] i by (intro ascending_index_split) auto
  moreover have "filter (\<lambda>x. MACH_PORT_INDEX (fst x) < i) ?S = ?A" by (auto intro: filter_cong)
  ultimately have "filter (\<lambda>x. fst x \<noteq> name) xs =
      filter (\<lambda>x. fst x \<noteq> name) ?A @ filter (\<lambda>x. fst x \<noteq> name) ?B @ filter (\<lambda>x. fst x \<noteq> name) ?C"
    by (metis filter_append append.assoc)
  moreover have "filter (\<lambda>x. fst x \<noteq> name) ?A = ?A" "filter (\<lambda>x. fst x \<noteq> name) ?C = ?C"
    using name by (auto intro: filter_cong)
  ultimately show ?thesis by simp
qed

text \<open>
  The cuts and joins of the move: one name of index \<open>i\<close> is picked, and the tree is put together
  again without it.
\<close>

lemma dealloc_cut:
  assumes ok: "ist_ok tree" and i: "Suc i < 2 ^ 24" and col: "i \<in> indices (ist_list tree)"
  obtains tree1 coll1 coll small name e where
    "ipc_splay_tree_split tree (MACH_PORT_MAKE (i + 1) 0) tree = (tree1, coll1)"
    and "ipc_splay_tree_split coll1 (MACH_PORT_MAKE i 0) coll1 = (coll, small)"
    and "ipc_splay_tree_pick coll = Some (name, e)"
    and "(name, e) \<in> set (ist_list tree)" and "MACH_PORT_INDEX name = i"
    and "ipc_splay_tree_pick (ipc_splay_tree_delete coll name) \<noteq> None \<longleftrightarrow>
      i \<in> indices (filter (\<lambda>x. fst x \<noteq> name) (ist_list tree))"
    and "let tree2 = (if ipc_splay_tree_pick (ipc_splay_tree_delete coll name) \<noteq> None
          then fst (ipc_splay_tree_join tree1 (ipc_splay_tree_delete coll name)) else tree1)
        in ist_list (fst (ipc_splay_tree_join tree2 small)) = filter (\<lambda>x. fst x \<noteq> name) (ist_list tree) \<and>
        ist_ok (fst (ipc_splay_tree_join tree2 small))"
proof -
  let ?xs = "ist_list tree"
  have asc: "ascending ?xs" using ist_ok_ascending [OF ok] .
  obtain tree1 coll1 where s1: "ipc_splay_tree_split tree (MACH_PORT_MAKE (i + 1) 0) tree = (tree1, coll1)"
    and l1: "ist_list tree1 = filter (\<lambda>x. Suc i \<le> MACH_PORT_INDEX (fst x)) ?xs"
      "ist_list coll1 = filter (\<lambda>x. MACH_PORT_INDEX (fst x) < Suc i) ?xs" "ist_ok tree1" "ist_ok coll1"
    using split_index [OF ok i, of tree] unfolding Suc_eq_plus1 by blast
  have i': "i < 2 ^ 24" using i by simp
  obtain coll small where s2: "ipc_splay_tree_split coll1 (MACH_PORT_MAKE i 0) coll1 = (coll, small)"
    and l2: "ist_list coll = filter (\<lambda>x. i \<le> MACH_PORT_INDEX (fst x)) (ist_list coll1)"
      "ist_list small = filter (\<lambda>x. MACH_PORT_INDEX (fst x) < i) (ist_list coll1)" "ist_ok coll" "ist_ok small"
    using split_index [OF l1(4) i', of coll1] by blast
  have "ist_list coll \<noteq> []" using col by (auto simp: l2 l1 indices_def filter_empty_conv)
  then obtain name e where pick: "ipc_splay_tree_pick coll = Some (name, e)" "(name, e) \<in> set (ist_list coll)"
    using pick_spec by blast
  then have ne: "(name, e) \<in> set ?xs" "MACH_PORT_INDEX name = i" by (auto simp: l2 l1)
  have small: "ist_list small = filter (\<lambda>x. MACH_PORT_INDEX (fst x) < i) ?xs"
    by (auto simp: l2 l1 intro: filter_cong)
  let ?rest = "ipc_splay_tree_delete coll name"
  have "map_of (ist_list coll) name = Some e"
    using pick(2) ascending_distinct [OF ist_ok_ascending [OF l2(3)]] by simp
  note del = delete_spec [OF l2(3) this]
  have whole: "ist_list small @ ist_list ?rest @ ist_list tree1 = filter (\<lambda>x. fst x \<noteq> name) ?xs"
    using tree_without [OF asc i ne(2)] by (simp add: small del l2(1) l1)
  then have asc': "ascending (ist_list small @ ist_list ?rest @ ist_list tree1)"
    using ascending_filter [OF asc] by simp
  then have "ascending (ist_list ?rest @ ist_list tree1)" using ascending_appendD by blast
  note j1 = join_ok [OF l1(3) del(2) this]
  show thesis
  proof (rule that [OF s1 s2 pick(1) ne])
    show "ipc_splay_tree_pick ?rest \<noteq> None \<longleftrightarrow> i \<in> indices (filter (\<lambda>x. fst x \<noteq> name) ?xs)"
      by (force simp: pick_None del l2(1) l1 indices_def filter_empty_conv)
    define tree2 where "tree2 = (if ipc_splay_tree_pick ?rest \<noteq> None
      then fst (ipc_splay_tree_join tree1 ?rest) else tree1)"
    then have "ist_list tree2 = ist_list ?rest @ ist_list tree1" "ist_ok tree2"
      using j1 l1(3) by (auto simp: pick_None)
    then show "let tree2 = (if ipc_splay_tree_pick ?rest \<noteq> None
          then fst (ipc_splay_tree_join tree1 ?rest) else tree1)
        in ist_list (fst (ipc_splay_tree_join tree2 small)) = filter (\<lambda>x. fst x \<noteq> name) ?xs \<and>
          ist_ok (fst (ipc_splay_tree_join tree2 small))"
      using join_ok [of tree2 small] l2(4) asc' whole unfolding tree2_def [symmetric] Let_def by simp
  qed
qed

text \<open>What the move leaves: the tree without the chosen name, its entry in the slot.\<close>

lemma dealloc_move_result:
  assumes ok: "space_ok its sid {In_table i} g s" and its: "entry_sizes its"
    and col: "collides (ie_bits (is_table s ! i))"
  defines "t \<equiv> is_table s" and "xs \<equiv> ist_list (is_tree s)"
  obtains name e tree g' table' where "(name, e) \<in> set xs" and "MACH_PORT_INDEX name = i"
    and "dealloc_move g sid s i = Some (g', s\<lparr>is_tree := tree, is_table := table',
      is_tree_total := is_tree_total s - 1,
      is_tree_hash := (if IE_BITS_TYPE (ie_bits e) = MACH_PORT_TYPE_SEND
        then is_tree_hash s - 1 else is_tree_hash s)\<rparr>)"
    and "ist_list tree = filter (\<lambda>x. fst x \<noteq> name) xs" and "ist_ok tree"
    and "same_fields (t[i := (t ! i)\<lparr>ie_bits := (if i \<in> indices (filter (\<lambda>x. fst x \<noteq> name) xs)
        then (ie_bits e OR MACH_PORT_GEN name) OR IE_BITS_COLLISION else ie_bits e OR MACH_PORT_GEN name),
        ie_object := ie_object e, ie_request := ie_request e\<rparr>]) table'"
    and "lh_ok table'" and "gh_ok g'"
    and "entered table' = (if IE_BITS_TYPE (ie_bits e) = MACH_PORT_TYPE_SEND
      then insert i (entered t) else entered t)"
    and "gh_map g' = (if IE_BITS_TYPE (ie_bits e) = MACH_PORT_TYPE_SEND
      then (gh_map g)((sid, ie_object e) := None) else gh_map g)"
proof -
  note ok' = space_okD [OF ok]
  have i: "0 < i" "i < length t" using ok'(11,12) by (auto simp: pending_ok_def t_def)
  have i24: "Suc i < 2 ^ 24" using i(2) sizes_less(1) [OF its ok'(1)] unfolding t_def by linarith
  have idx: "i \<in> indices (ist_list (is_tree s))" using col ok'(7) i(2) by (simp add: coll_ok_def t_def)
  obtain tree1 coll1 coll small name e where
    cut: "ipc_splay_tree_split (is_tree s) (MACH_PORT_MAKE (i + 1) 0) (is_tree s) = (tree1, coll1)"
      "ipc_splay_tree_split coll1 (MACH_PORT_MAKE i 0) coll1 = (coll, small)"
      "ipc_splay_tree_pick coll = Some (name, e)"
    and ne: "(name, e) \<in> set xs" "MACH_PORT_INDEX name = i"
    and more: "ipc_splay_tree_pick (ipc_splay_tree_delete coll name) \<noteq> None \<longleftrightarrow>
      i \<in> indices (filter (\<lambda>x. fst x \<noteq> name) xs)"
    and tree: "let tree2 = (if ipc_splay_tree_pick (ipc_splay_tree_delete coll name) \<noteq> None
          then fst (ipc_splay_tree_join tree1 (ipc_splay_tree_delete coll name)) else tree1)
        in ist_list (fst (ipc_splay_tree_join tree2 small)) = filter (\<lambda>x. fst x \<noteq> name) xs \<and>
        ist_ok (fst (ipc_splay_tree_join tree2 small))"
    using dealloc_cut [OF ok'(4) i24 idx] unfolding xs_def by blast
  define e1 where "e1 = (t ! i)\<lparr>ie_bits := ie_bits e OR MACH_PORT_GEN name, ie_object := ie_object e,
    ie_request := ie_request e\<rparr>"
  let ?s1 = "s\<lparr>is_tree := tree1, is_table := t[i := e1]\<rparr>"
  have ent: "entered t = table_sends {In_table i} t" "lh_ok t" "gh_ok g"
    and gmap: "gh_map g (sid, obj) = Some m \<longleftrightarrow> (m, obj) \<in> tree_sends {In_table i} xs"
    and gnone: "k \<in> entered t \<Longrightarrow> gh_map g (sid, ie_object (t ! k)) = None" for obj m k
    using ok'(10) by (simp_all add: hash_ok_def t_def xs_def)
  then have ni: "i \<notin> entered t" by (simp add: table_sends_def)
  have "length (t[i := e1]) = length t" "\<forall>k. ie_index (t[i := e1] ! k) = ie_index (t ! k)"
    "\<forall>k \<in> entered t. ie_object (t[i := e1] ! k) = ie_object (t ! k)"
    using ni i(2) by (auto simp: nth_list_update e1_def)
  note lh1 = lh_ok_objects [OF ent(2) this]
  have glob: "IE_BITS_TYPE (ie_bits e) = MACH_PORT_TYPE_SEND \<longrightarrow> gh_map g (sid, ie_object e) = Some name"
    using ne(1) gmap by (auto simp: tree_sends_def)
  have loc: "\<forall>k \<in> entered (t[i := e1]). gh_map g (sid, ie_object (t[i := e1] ! k)) = None"
  proof
    fix k assume "k \<in> entered (t[i := e1])"
    then show "gh_map g (sid, ie_object (t[i := e1] ! k)) = None"
      using gnone [of k] ni lh1(2) by (cases "k = i") auto
  qed
  have s1: "is_table ?s1 = t[i := e1]" "is_table_size ?s1 = length (t[i := e1])"
    "is_tree_hash ?s1 = is_tree_hash s" "i < length (t[i := e1])" "i \<notin> entered (t[i := e1])"
    "ie_object (t[i := e1] ! i) = ie_object e"
    using ok'(12) i(2) ni lh1(2) by (simp_all add: t_def e1_def)
  obtain g' table' where mh: "move_hash g sid ?s1 e name i = Some (g', ?s1\<lparr>is_table := table', is_tree_hash :=
        (if IE_BITS_TYPE (ie_bits e) = MACH_PORT_TYPE_SEND then is_tree_hash s - 1 else is_tree_hash s)\<rparr>)"
    and m: "same_fields (t[i := e1]) table'" "lh_ok table'"
    "entered table' = (if IE_BITS_TYPE (ie_bits e) = MACH_PORT_TYPE_SEND
      then insert i (entered (t[i := e1])) else entered (t[i := e1]))"
    "gh_ok g'" "gh_map g' = (if IE_BITS_TYPE (ie_bits e) = MACH_PORT_TYPE_SEND
      then (gh_map g)((sid, ie_object e) := None) else gh_map g)"
    by (rule move_hash_spec [OF s1(1-3) lh1(1) ent(3) i(1) s1(4-6) glob loc]) (rule that)
  let ?more = "i \<in> indices (filter (\<lambda>x. fst x \<noteq> name) xs)"
  define table'' where "table'' = (if ?more
    then set_bits table' i (ie_bits (table' ! i) OR IE_BITS_COLLISION) else table')"
  define tree2 where "tree2 = (if ?more then fst (ipc_splay_tree_join tree1 (ipc_splay_tree_delete coll name)) else tree1)"
  have len: "length table' = length t" using m(1) by (simp add: same_fields_def)
  have res: "dealloc_move g sid s i = Some (g', s\<lparr>is_tree := fst (ipc_splay_tree_join tree2 small),
      is_table := table'', is_tree_total := is_tree_total s - 1,
      is_tree_hash := (if IE_BITS_TYPE (ie_bits e) = MACH_PORT_TYPE_SEND
        then is_tree_hash s - 1 else is_tree_hash s)\<rparr>)"
    using mh unfolding dealloc_move_def cut(1) prod.case cut(2) Let_def cut(3) option.case t_def [symmetric]
      e1_def [symmetric] more by (simp add: table''_def tree2_def)
  have "same_hash table' table''" by (simp add: table''_def)
  note lh2 = same_hash_lh [OF this]
  have "same_fields (t[i := (t ! i)\<lparr>ie_bits := (if ?more
        then (ie_bits e OR MACH_PORT_GEN name) OR IE_BITS_COLLISION else ie_bits e OR MACH_PORT_GEN name),
        ie_object := ie_object e, ie_request := ie_request e\<rparr>]) table''"
    using m(1) i(2) len by (auto simp: same_fields_def table''_def e1_def nth_list_update)
  then show thesis
    using that [OF ne res] tree m(2-5) lh2 lh1(2) unfolding more tree2_def [symmetric] Let_def by simp
qed

lemma tree_sends_finite [simp]: "finite (tree_sends P xs)"
proof -
  have "tree_sends P xs \<subseteq> (\<lambda>(name, e). (name, ie_object e)) ` set xs" by (force simp: tree_sends_def)
  then show ?thesis by (rule finite_subset) simp
qed

text \<open>The send rights after a name has left the tree.\<close>

lemma tree_sends_without:
  assumes "ascending xs" and "(name, e) \<in> set xs"
  shows "tree_sends {} (filter (\<lambda>x. fst x \<noteq> name) xs) =
    (if IE_BITS_TYPE (ie_bits e) = MACH_PORT_TYPE_SEND
     then tree_sends {} xs - {(name, ie_object e)} else tree_sends {} xs)"
    and "IE_BITS_TYPE (ie_bits e) = MACH_PORT_TYPE_SEND \<Longrightarrow> (name, ie_object e) \<in> tree_sends {} xs"
proof -
  have "e' = e" if "(name, e') \<in> set xs" for e'
    using that assms(2) ascending_distinct [OF assms(1)] by (metis map_of_is_SomeI option.inject)
  then show "tree_sends {} (filter (\<lambda>x. fst x \<noteq> name) xs) =
    (if IE_BITS_TYPE (ie_bits e) = MACH_PORT_TYPE_SEND
     then tree_sends {} xs - {(name, ie_object e)} else tree_sends {} xs)"
    unfolding tree_sends_def by auto
  show "IE_BITS_TYPE (ie_bits e) = MACH_PORT_TYPE_SEND \<Longrightarrow> (name, ie_object e) \<in> tree_sends {} xs"
    using assms(2) by (auto simp: tree_sends_def)
qed

text \<open>
  A send right leaves the tree and is entered in the table: the two reverse hash tables are
  right again.
\<close>

lemma hash_ok_moved:
  assumes ok: "hash_ok sid P g t xs" and asc: "ascending xs" and ne: "(name, e) \<in> set xs"
    and P: "tree_sends P xs = tree_sends {} xs"
    and lh: "lh_ok t'" "entered t' = table_sends {} t'"
    and gh: "gh_ok g'" "gh_map g' = (if IE_BITS_TYPE (ie_bits e) = MACH_PORT_TYPE_SEND
      then (gh_map g)((sid, ie_object e) := None) else gh_map g)"
    and sends: "table_sends {} t' = (if IE_BITS_TYPE (ie_bits e) = MACH_PORT_TYPE_SEND
      then insert i (table_sends P t) else table_sends P t)"
    and obj: "ie_object (t' ! i) = ie_object e" "\<forall>k \<in> table_sends P t. ie_object (t' ! k) = ie_object (t ! k)"
  shows "hash_ok sid {} g' t' (filter (\<lambda>x. fst x \<noteq> name) xs)"
proof -
  have m: "gh_map g (sid, o') = Some n \<longleftrightarrow> (n, o') \<in> tree_sends {} xs" for n o'
    using ok P by (simp add: hash_ok_def)
  have none: "gh_map g (sid, ie_object (t ! k)) = None" if "k \<in> table_sends P t" for k
    using ok that by (simp add: hash_ok_def)
  note w = tree_sends_without [OF asc ne]
  have "gh_map g' (sid, o') = Some n \<longleftrightarrow> (n, o') \<in> tree_sends {} (filter (\<lambda>x. fst x \<noteq> name) xs)" for n o'
  proof (cases "IE_BITS_TYPE (ie_bits e) = MACH_PORT_TYPE_SEND")
    case True
    then have "gh_map g (sid, ie_object e) = Some name" using w(2) m by simp
    then show ?thesis using m [of o' n] unfolding w(1) gh(2) if_P [OF True] by (auto split: if_splits)
  next
    case False
    with m w(1) gh(2) show ?thesis by simp
  qed
  moreover have "gh_map g' (sid, ie_object (t' ! k)) = None" if "k \<in> table_sends {} t'" for k
    using that none [of k] obj gh(2) unfolding sends by (auto split: if_splits)
  ultimately show ?thesis using lh gh(1) by (simp add: hash_ok_def)
qed

lemma dealloc_move_ok:
  assumes ok: "space_ok its sid {In_table i} g s" and its: "entry_sizes its"
    and col: "collides (ie_bits (is_table s ! i))"
  obtains g' s' where "dealloc_move g sid s i = Some (g', s')" and "space_ok its sid {} g' s'"
    and "\<And>oname. MACH_PORT_INDEX oname = i \<Longrightarrow> MACH_PORT_GEN oname = gen_of (is_table s) i \<Longrightarrow>
      caps {} s' = (caps {In_table i} s)(oname := None)"
proof -
  let ?t = "is_table s" and ?xs = "ist_list (is_tree s)" and ?P = "{In_table i}"
  note ok' = space_okD [OF ok]
  obtain name e tree g' t' where ne: "(name, e) \<in> set ?xs" "MACH_PORT_INDEX name = i"
    and res: "dealloc_move g sid s i = Some (g', s\<lparr>is_tree := tree, is_table := t',
      is_tree_total := is_tree_total s - 1,
      is_tree_hash := (if IE_BITS_TYPE (ie_bits e) = MACH_PORT_TYPE_SEND
        then is_tree_hash s - 1 else is_tree_hash s)\<rparr>)"
    and tree: "ist_list tree = filter (\<lambda>x. fst x \<noteq> name) ?xs" "ist_ok tree"
    and sf: "same_fields (?t[i := (?t ! i)\<lparr>ie_bits := (if i \<in> indices (filter (\<lambda>x. fst x \<noteq> name) ?xs)
        then (ie_bits e OR MACH_PORT_GEN name) OR IE_BITS_COLLISION else ie_bits e OR MACH_PORT_GEN name),
        ie_object := ie_object e, ie_request := ie_request e\<rparr>]) t'"
    and lh: "lh_ok t'" and gh: "gh_ok g'"
    and ent: "entered t' = (if IE_BITS_TYPE (ie_bits e) = MACH_PORT_TYPE_SEND
      then insert i (entered ?t) else entered ?t)"
    and gm: "gh_map g' = (if IE_BITS_TYPE (ie_bits e) = MACH_PORT_TYPE_SEND
      then (gh_map g)((sid, ie_object e) := None) else gh_map g)"
    by (rule dealloc_move_result [OF ok its col]) (rule that)
  define xs' where "xs' = filter (\<lambda>x. fst x \<noteq> name) ?xs"
  define s' where "s' = s\<lparr>is_tree := tree, is_table := t', is_tree_total := is_tree_total s - 1,
      is_tree_hash := (if IE_BITS_TYPE (ie_bits e) = MACH_PORT_TYPE_SEND
        then is_tree_hash s - 1 else is_tree_hash s)\<rparr>"
  have i: "0 < i" "i < length ?t" using ok'(11,12) by (auto simp: pending_ok_def)
  have asc: "ascending ?xs" using ist_ok_ascending [OF ok'(4)] .
  have e: "ie_bits e AND NOT IE_BITS_RIGHT_MASK = 0" "IE_BITS_TYPE (ie_bits e) \<noteq> MACH_PORT_TYPE_NONE"
    using ok'(6) ne(1) by (auto simp: tree_ok_def)
  have ix: "indices ?xs = insert i (indices xs')" using indices_remove [OF ne(1)] by (simp add: ne(2) xs'_def)
  have len: "length t' = length ?t" using sf by (simp add: same_fields_def)
  have f: "type_of t' k = (if k = i then IE_BITS_TYPE (ie_bits e) else type_of ?t k)"
    "gen_of t' k = (if k = i then MACH_PORT_GEN name else gen_of ?t k)"
    "ie_object (t' ! k) = (if k = i then ie_object e else ie_object (?t ! k))"
    "ie_request (t' ! k) = (if k = i then ie_request e else ie_request (?t ! k))"
    "capability (t' ! k) = (if k = i then capability e else capability (?t ! k))"
    "k \<noteq> i \<Longrightarrow> ie_bits (t' ! k) = ie_bits (?t ! k)"
    "collides (ie_bits (t' ! i)) \<longleftrightarrow> i \<in> indices xs'" for k
    using same_fields_lookup [OF sf] i(2) moved_bits_fields [OF e(1), of name] right_bits_fields(3) [OF e(1)]
    by (auto simp: xs'_def entry_simps capability_def)
  have fs: "free_slots {} t' = free_slots ?P ?t"
    using e(2) by (auto simp: free_slots_def f(1) len)
  have old_sends: "i \<notin> table_sends ?P ?t" by (simp add: table_sends_def)
  have sends: "table_sends {} t' = (if IE_BITS_TYPE (ie_bits e) = MACH_PORT_TYPE_SEND
      then insert i (table_sends ?P ?t) else table_sends ?P ?t)"
    using i by (auto simp: table_sends_def f(1) len)
  have ent_old: "entered ?t = table_sends ?P ?t" using ok'(10) by (simp add: hash_ok_def)
  have "hash_ok sid {} g' t' xs'"
    unfolding xs'_def
    using old_sends by (intro hash_ok_moved [OF ok'(10) asc ne(1) _ lh _ gh gm sends])
      (auto simp: ent ent_old sends f(3))
  moreover have "free_ok {} t'"
  proof -
    have "linked t' 0 fl \<longleftrightarrow> linked ?t 0 fl" if "set fl = free_slots ?P ?t" for fl
      using that i(1) by (intro linked_cong) (auto simp: f(4) free_slots_def)
    moreover have "k \<noteq> i" if "k \<in> free_slots ?P ?t" for k using that by (auto simp: free_slots_def)
    ultimately show ?thesis using ok'(3) unfolding free_ok_def fs by (auto simp: f(3,6))
  qed
  moreover have "head_ok t'" using ok'(2) f(6) [of 0] i len by (auto simp: head_ok_def)
  moreover have "coll_ok {} t' xs'"
    unfolding coll_ok_def fs len
  proof (intro conjI allI ballI impI)
    fix k assume "k < length ?t"
    then show "collides (ie_bits (t' ! k)) \<longleftrightarrow> k \<in> indices xs'"
      using ok'(7) ix f(6) [of k] f(7) by (cases "k = i") (auto simp: coll_ok_def)
  next
    fix k assume "k \<in> indices xs'"
    then show "k \<notin> free_slots ?P ?t" using ok'(7) ix by (auto simp: coll_ok_def)
  next
    fix x assume x: "x \<in> set xs'" "0 < MACH_PORT_INDEX (fst x)" "MACH_PORT_INDEX (fst x) < length ?t"
    have "fst x \<noteq> name" "x \<in> set ?xs" using x(1) by (auto simp: xs'_def)
    then show "MACH_PORT_GEN (fst x) \<noteq> gen_of t' (MACH_PORT_INDEX (fst x))"
      using ok'(7) x(2,3) ne(2) name_eqI [of "fst x" name] by (auto simp: coll_ok_def f(2))
  qed
  moreover have "is_tree_total s - 1 = length xs'"
    using distinct_remove_length [OF ascending_distinct [OF asc] ne(1)] ok'(5) by (simp add: xs'_def)
  moreover have "small_count (is_table_size s) n xs' = small_count (is_table_size s) n ?xs" for n
    using i(2) ok'(12) by (simp add: small_count_def ix Int_insert_left)
  moreover have "(if IE_BITS_TYPE (ie_bits e) = MACH_PORT_TYPE_SEND
      then is_tree_hash s - 1 else is_tree_hash s) = card (tree_sends {} xs')"
    using ok'(9) tree_sends_without [OF asc ne(1)] by (simp add: xs'_def)
  moreover have "tree_ok {} xs'" using ok'(6) by (auto simp: tree_ok_def xs'_def)
  ultimately have ok2: "space_ok its sid {} g' s'"
    using ok' tree len unfolding space_ok_def s'_def by (simp add: sizes_ok_def pending_ok_def xs'_def)
  have use: "in_use {} s' k \<longleftrightarrow> in_use ?P s k" for k
    by (simp add: in_use_def fs len s'_def)
  have "caps {} s' = (caps ?P s)(oname := None)"
    if o: "MACH_PORT_INDEX oname = i" "MACH_PORT_GEN oname = gen_of ?t i" for oname
  proof
    fix m
    have gens: "MACH_PORT_GEN n \<noteq> gen_of ?t i" if "(n, x) \<in> set ?xs" "MACH_PORT_INDEX n = i" for n x
      using ok'(7) that i by (force simp: coll_ok_def)
    have used: "in_use ?P s i" using i by (simp add: in_use_def free_slots_def)
    have mo: "map_of ?xs name = Some e" using ne(1) ascending_distinct [OF asc] by simp
    show "caps {} s' m = ((caps ?P s)(oname := None)) m"
    proof (cases "MACH_PORT_INDEX m = i")
      case False
      then have "m \<noteq> name" "m \<noteq> oname" using ne(2) o(1) by auto
      then have "caps {} s' m = caps ?P s m"
        using False use by (intro caps_eqI) (simp_all add: s'_def f tree map_of_filter_neq)
      then show ?thesis using \<open>m \<noteq> oname\<close> by simp
    next
      case idx: True
      have eqn: "m = name \<longleftrightarrow> MACH_PORT_GEN name = MACH_PORT_GEN m"
        using idx ne(2) name_eqI by metis
      have eqo: "m = oname \<longleftrightarrow> MACH_PORT_GEN oname = MACH_PORT_GEN m"
        using idx o(1) name_eqI by metis
      have "caps {} s' m = (if m = name then Some (capability e) else map_option capability (map_of ?xs m))"
        using idx use [of i] used eqn unfolding s'_def
        by (auto simp: caps_def f(2,5) tree map_of_filter_neq Let_def)
      moreover have "caps ?P s m = (if m = oname then Some (capability (?t ! i)) else map_option capability (map_of ?xs m))"
        using idx used eqo o(2) by (auto simp: caps_def Let_def)
      moreover have "oname \<noteq> name" "map_of ?xs oname = None"
        using gens [of oname] o ne(1) by (auto simp: map_of_eq_None_iff)
      ultimately show ?thesis using mo by simp
    qed
  qed
  with res ok2 show thesis by (intro that) (simp_all add: s'_def)
qed

text \<open>The three cases together.\<close>

definition detached :: "ipc_space \<Rightarrow> mach_port_t \<Rightarrow> entry_ref \<Rightarrow> bool" where
  "detached s name r \<longleftrightarrow>
    (case r of
       In_table i \<Rightarrow> MACH_PORT_INDEX name = i \<and> i < is_table_size s \<and>
         MACH_PORT_GEN name = gen_of (is_table s) i
     | In_tree n \<Rightarrow> n = name)"

lemma ipc_entry_dealloc_spec:
  assumes ok: "space_ok its sid {r} g s" and its: "entry_sizes its" and r: "detached s name r"
  shows "\<exists>g' s'. ipc_entry_dealloc its g sid s name r = Some (g', s') \<and>
    space_ok its sid {} g' s' \<and> caps {} s' = (caps {r} s)(name := None)"
proof (cases r)
  case (In_table i)
  then have i: "MACH_PORT_INDEX name = i" "i < is_table_size s" "MACH_PORT_GEN name = gen_of (is_table s) i"
    using r by (simp_all add: detached_def)
  show ?thesis
  proof (cases "collides (ie_bits (is_table s ! i))")
    case True
    obtain g' s' where "dealloc_move g sid s i = Some (g', s')" "space_ok its sid {} g' s'"
      "caps {} s' = (caps {In_table i} s)(name := None)"
      by (rule dealloc_move_ok [OF ok [unfolded In_table] its True]) (use i in blast)
    then show ?thesis using True i In_table by (simp add: ipc_entry_dealloc_def)
  next
    case False
    with dealloc_free_ok [OF ok [unfolded In_table] False] i In_table show ?thesis
      by (simp add: ipc_entry_dealloc_def)
  qed
next
  case (In_tree n)
  then have "n = name" using r by (simp add: detached_def)
  with dealloc_tree_ok [of its sid name g s] ok In_tree show ?thesis
    by (simp add: ipc_entry_dealloc_def)
qed

end
