(* ===== verification/Entry_Grow.thy ===== *)
theory Entry_Grow
  imports Entry_Dealloc
begin

text \<open>
  \<^verbatim>\<open>ipc_entry_grow_table\<close>: the work it does once it has the memory (\<open>grow_commit\<close>) keeps the
  invariant of the space and the capability of every name, and the table has the new size.
\<close>

section \<open>Copying and rehashing\<close>

lemma length_grow_copy [simp]:
  "length t = osize \<Longrightarrow> osize \<le> sz \<Longrightarrow> length (grow_copy osize sz t) = sz"
  by (simp add: grow_copy_def)

lemma nth_grow_copy:
  assumes "length t = osize" and "osize \<le> sz" and "k < sz"
  shows "grow_copy osize sz t ! k = (if k < osize then (t ! k)\<lparr>ie_index := 0\<rparr> else entry_zero)"
  using assms by (simp add: grow_copy_def nth_append)

lemma lh_ok_empty:
  assumes "table \<noteq> []" and "\<forall>k < length table. ie_index (table ! k) = 0"
  shows "lh_ok table" and "entered table = {}"
  using assms by (auto simp: lh_ok_def lh_chain_def slot_def entered_def)

lemma grow_rehash_spec:
  assumes "lh_ok t" and "is_table s = t" "is_table_size s = length t" and "distinct is"
    and "\<forall>i \<in> set is. i < length t \<and> i \<notin> entered t"
    and "type_of t 0 = 0"
    and "inj_on (\<lambda>i. ie_object (t ! i))
      (entered t \<union> {i \<in> set is. type_of t i = MACH_PORT_TYPE_SEND})"
  shows "\<exists>t'. grow_rehash is s = Some (s\<lparr>is_table := t'\<rparr>) \<and> same_fields t t' \<and> lh_ok t' \<and>
    entered t' = entered t \<union> {i \<in> set is. type_of t i = MACH_PORT_TYPE_SEND}"
  using assms
proof (induction "is" arbitrary: s t)
  case Nil
  then show ?case by (intro exI [of _ t]) auto
next
  case (Cons i "is")
  show ?case
  proof (cases "type_of t i = MACH_PORT_TYPE_SEND")
    case True
    have "i \<noteq> 0" using True Cons.prems(6) sends_not_none by (metis MACH_PORT_TYPE_NONE_def)
    have lok: "local_ok s" using Cons.prems(1-3) by (simp add: local_ok_def)
    have i: "i < length t" "i \<notin> entered t" using Cons.prems(5) by auto
    have "local_map s (ie_object (t ! i)) = None"
    proof (rule ccontr)
      assume "local_map s (ie_object (t ! i)) \<noteq> None"
      then obtain k where k: "k \<in> entered t" "ie_object (t ! k) = ie_object (t ! i)"
        using local_map_Some [OF lok] Cons.prems(2) by auto
      with inj_onD [OF Cons.prems(7) k(2)] True i show False by auto
    qed
    then obtain t1 where t1: "ipc_hash_local_insert s (ie_object (t ! i)) i = Some (s\<lparr>is_table := t1\<rparr>)"
      "same_fields t t1" "entered t1 = insert i (entered t)" "local_ok (s\<lparr>is_table := t1\<rparr>)"
      using ipc_hash_local_insert_spec [OF lok, of "ie_object (t ! i)" i] \<open>i \<noteq> 0\<close> i(1) Cons.prems(2)
      by (auto simp: local_fits_def)
    note f = same_fields_lookup [OF t1(2)]
    have set: "{k \<in> set is. type_of t1 k = MACH_PORT_TYPE_SEND} = {k \<in> set is. type_of t k = MACH_PORT_TYPE_SEND}"
      by (simp add: f)
    have "\<exists>t'. grow_rehash is (s\<lparr>is_table := t1\<rparr>) = Some (s\<lparr>is_table := t1\<rparr>\<lparr>is_table := t'\<rparr>) \<and>
        same_fields t1 t' \<and> lh_ok t' \<and>
        entered t' = entered t1 \<union> {k \<in> set is. type_of t1 k = MACH_PORT_TYPE_SEND}"
    proof (rule Cons.IH)
      show "inj_on (\<lambda>k. ie_object (t1 ! k))
          (entered t1 \<union> {k \<in> set is. type_of t1 k = MACH_PORT_TYPE_SEND})"
        unfolding set t1(3) f using True by (intro inj_on_subset [OF Cons.prems(7)]) auto
    qed (use t1 Cons.prems f in \<open>auto simp: local_ok_def\<close>)
    then obtain t' where "grow_rehash is (s\<lparr>is_table := t1\<rparr>) = Some (s\<lparr>is_table := t'\<rparr>)"
      "same_fields t1 t'" "lh_ok t'"
      "entered t' = insert i (entered t) \<union> {k \<in> set is. type_of t k = MACH_PORT_TYPE_SEND}"
      using set t1(3) by auto
    then show ?thesis
      using True t1(1) Cons.prems(2) same_fields_trans [OF t1(2)]
      by (intro exI [of _ t']) (auto simp: Let_def)
  next
    case False
    have "\<exists>t'. grow_rehash is s = Some (s\<lparr>is_table := t'\<rparr>) \<and> same_fields t t' \<and> lh_ok t' \<and>
        entered t' = entered t \<union> {k \<in> set is. type_of t k = MACH_PORT_TYPE_SEND}"
      using Cons.prems False by (intro Cons.IH) (auto intro: inj_on_subset)
    with False Cons.prems(2) show ?thesis by auto
  qed
qed

section \<open>The new free slots\<close>

text \<open>The list that begins with the slot \<open>fi\<close>, where 0 is the end.\<close>

fun free_chain :: "ipc_entry list \<Rightarrow> nat \<Rightarrow> nat list \<Rightarrow> bool" where
  "free_chain t fi [] \<longleftrightarrow> fi = 0"
| "free_chain t fi (j # js) \<longleftrightarrow> fi = j \<and> linked t j js"

lemma linked_free_chain: "linked t h fl \<longleftrightarrow> free_chain t (ie_next (t ! h)) fl"
  by (cases fl) auto

lemma linked_set_next:
  assumes "h < length t" and "h \<notin> set fl"
  shows "linked (set_next t h fi) h fl \<longleftrightarrow> free_chain t fi fl"
proof (cases fl)
  case (Cons j js)
  have "linked (set_next t h fi) j js \<longleftrightarrow> linked t j js"
    using assms Cons by (intro linked_cong) auto
  with assms(1) Cons show ?thesis by auto
qed (use assms in simp)

lemma grow_free_spec:
  assumes "distinct is" and "\<forall>i \<in> set is. i < length t"
    and "free_chain t fi fl" and "set fl \<inter> set is = {}" and "grow_free is t fi = (t', fi')"
  shows "length t' = length t \<and>
    (\<forall>k. ie_bits (t' ! k) = (if k \<in> set is \<and> ie_bits (t ! k) = 0 then IE_BITS_GEN_MASK else ie_bits (t ! k)) \<and>
      ie_object (t' ! k) = ie_object (t ! k) \<and> ie_index (t' ! k) = ie_index (t ! k) \<and>
      (k \<in> set is \<and> ie_bits (t ! k) = 0 \<or> ie_request (t' ! k) = ie_request (t ! k))) \<and>
    free_chain t' fi' (rev (filter (\<lambda>i. ie_bits (t ! i) = 0) is) @ fl)"
  using assms
proof (induction "is" arbitrary: t fi fl)
  case (Cons i "is")
  show ?case
  proof (cases "ie_bits (t ! i) = 0")
    case True
    define t1 where "t1 = t[i := (t ! i)\<lparr>ie_bits := IE_BITS_GEN_MASK, ie_request := fi\<rparr>]"
    have i: "i < length t" "i \<notin> set is" "i \<notin> set fl" using Cons.prems by auto
    have f: "ie_bits (t1 ! k) = (if k = i then IE_BITS_GEN_MASK else ie_bits (t ! k))"
      "ie_object (t1 ! k) = ie_object (t ! k)" "ie_index (t1 ! k) = ie_index (t ! k)"
      "ie_request (t1 ! k) = (if k = i then fi else ie_request (t ! k))" for k
      using i(1) by (auto simp: nth_list_update t1_def)
    have ch: "free_chain t1 i (i # fl)"
    proof (cases fl)
      case (Cons j js)
      have "linked t1 j js \<longleftrightarrow> linked t j js" using i(3) Cons by (intro linked_cong) (auto simp: f(4))
      with \<open>free_chain t fi fl\<close> Cons show ?thesis by (simp add: f(4))
    qed (use Cons.prems f(4) in simp)
    have fl: "filter (\<lambda>k. ie_bits (t1 ! k) = 0) is = filter (\<lambda>k. ie_bits (t ! k) = 0) is"
      using i(2) by (intro filter_cong) (auto simp: f(1))
    have "grow_free is t1 i = (t', fi')" "set (i # fl) \<inter> set is = {}" "distinct is"
      "\<forall>k \<in> set is. k < length t1"
      using Cons.prems True i(2) by (auto simp: t1_def)
    note IH = Cons.IH [OF this(3,4) ch this(2,1), unfolded fl]
    show ?thesis
    proof (intro conjI allI)
      show "length t' = length t" using IH by (simp add: t1_def)
      show "free_chain t' fi' (rev (filter (\<lambda>i. ie_bits (t ! i) = 0) (i # is)) @ fl)"
        using IH True by simp
    next
      fix k
      show "ie_bits (t' ! k) = (if k \<in> set (i # is) \<and> ie_bits (t ! k) = 0 then IE_BITS_GEN_MASK else ie_bits (t ! k))"
        "ie_object (t' ! k) = ie_object (t ! k)" "ie_index (t' ! k) = ie_index (t ! k)"
        "k \<in> set (i # is) \<and> ie_bits (t ! k) = 0 \<or> ie_request (t' ! k) = ie_request (t ! k)"
        using conjunct1 [OF conjunct2 [OF IH], THEN spec, of k] True i(2) by (cases "k = i"; simp add: f)+
    qed
  next
    case False
    with Cons.IH [of t fi fl] Cons.prems show ?thesis by auto
  qed
qed simp

section \<open>Counting the small names\<close>

lemma grow_count_simp:
  "grow_count x (n, i) =
   ((if MACH_PORT_INDEX (fst x) \<noteq> i then (Suc n, MACH_PORT_INDEX (fst x)) else (n, i)), False)"
  by (simp add: grow_count_def)

lemma grow_count_spec:
  assumes "ascending xs" and "\<forall>x \<in> set xs. index \<le> MACH_PORT_INDEX (fst x)"
  shows "fst (fst (traverse_fold grow_count xs (n, index))) = n + card (indices xs - {index}) \<and>
    snd (traverse_fold grow_count xs (n, index)) = xs"
  using assms
proof (induction xs arbitrary: n index)
  case Nil
  then show ?case by (simp add: indices_def)
next
  case (Cons x xs)
  let ?i = "MACH_PORT_INDEX (fst x)"
  have ge: "\<forall>y \<in> set xs. ?i \<le> MACH_PORT_INDEX (fst y)"
    using Cons.prems(1) by (auto simp: above_def intro: MACH_PORT_INDEX_mono less_imp_le)
  have ix: "indices (x # xs) = insert ?i (indices xs)" by (simp add: indices_def)
  have IH: "fst (fst (traverse_fold grow_count xs (m, ?i))) = m + card (indices xs - {?i})"
    "snd (traverse_fold grow_count xs (m, ?i)) = xs" for m
    using Cons.IH [OF _ ge, of m] Cons.prems(1) by auto
  show ?case
  proof (cases "?i = index")
    case True
    with IH [of n] ix show ?thesis by (simp add: grow_count_simp split_beta)
  next
    case False
    have "index \<notin> indices xs"
      using ge Cons.prems(2) False by (fastforce simp: indices_def)
    then have "card (indices (x # xs) - {index}) = Suc (card (indices xs - {?i}))"
      using False unfolding ix by (simp add: card.insert_remove)
    with False IH [of "Suc n"] show ?thesis by (simp add: grow_count_simp split_beta)
  qed
qed

section \<open>Moving entries into the new slots\<close>

text \<open>
  The state of the loop that moves entries: \<open>zs\<close> are the entries that are still in the tree, \<open>todo\<close>
  those of them the loop has yet to see.  A new slot (from \<open>osize\<close> on) is zero until it is used;
  its collision bit speaks of the entries the loop has passed and left in the tree.
\<close>

definition move_inv ::
    "space_id \<Rightarrow> ipc_entry list \<Rightarrow> nat \<Rightarrow> ipc_hash_global \<Rightarrow> ipc_space \<Rightarrow>
     (mach_port_t \<times> ipc_entry) list \<Rightarrow> (mach_port_t \<times> ipc_entry) list \<Rightarrow> bool" where
  "move_inv sid t0 osize g s zs todo \<longleftrightarrow>
    length (is_table s) = length t0 \<and> is_table_size s = length t0 \<and> 0 < osize \<and>
    (\<forall>k < osize. ie_bits (is_table s ! k) = ie_bits (t0 ! k) \<and> ie_object (is_table s ! k) = ie_object (t0 ! k) \<and>
      ie_request (is_table s ! k) = ie_request (t0 ! k)) \<and>
    (\<forall>k. osize \<le> k \<longrightarrow> k < length t0 \<longrightarrow>
      (type_of (is_table s) k = 0 \<longrightarrow> ie_bits (is_table s ! k) = 0 \<and> ie_object (is_table s ! k) = IO_NULL) \<and>
      (collides (ie_bits (is_table s ! k)) \<longleftrightarrow> k \<in> indices (filter (\<lambda>x. x \<notin> set todo) zs)) \<and>
      (k \<in> indices (filter (\<lambda>x. x \<notin> set todo) zs) \<longrightarrow> type_of (is_table s) k \<noteq> 0)) \<and>
    (\<forall>x \<in> set zs. osize \<le> MACH_PORT_INDEX (fst x) \<longrightarrow> MACH_PORT_INDEX (fst x) < length t0 \<longrightarrow>
      type_of (is_table s) (MACH_PORT_INDEX (fst x)) \<noteq> 0 \<longrightarrow>
      MACH_PORT_GEN (fst x) \<noteq> gen_of (is_table s) (MACH_PORT_INDEX (fst x))) \<and>
    hash_ok sid {} g (is_table s) zs \<and> is_tree_total s = length zs \<and>
    is_tree_hash s = card (tree_sends {} zs) \<and> tree_ok {} zs \<and> ascending zs"

text \<open>The capabilities of the space while entries move.\<close>

definition move_caps :: "ipc_space \<Rightarrow> (mach_port_t \<times> ipc_entry) list \<Rightarrow> mach_port_t \<rightharpoonup> capability" where
  "move_caps s zs name =
    (let i = MACH_PORT_INDEX name
     in if in_use {} s i \<and> gen_of (is_table s) i = MACH_PORT_GEN name
        then Some (capability (is_table s ! i)) else map_option capability (map_of zs name))"

lemma move_invD:
  assumes "move_inv sid t0 osize g s zs todo"
  shows "length (is_table s) = length t0" "is_table_size s = length t0" "0 < osize"
    "k < osize \<Longrightarrow> ie_bits (is_table s ! k) = ie_bits (t0 ! k) \<and> ie_object (is_table s ! k) = ie_object (t0 ! k) \<and>
      ie_request (is_table s ! k) = ie_request (t0 ! k)"
    "osize \<le> k \<Longrightarrow> k < length t0 \<Longrightarrow> type_of (is_table s) k = 0 \<Longrightarrow>
      ie_bits (is_table s ! k) = 0 \<and> ie_object (is_table s ! k) = IO_NULL"
    "osize \<le> k \<Longrightarrow> k < length t0 \<Longrightarrow>
      collides (ie_bits (is_table s ! k)) \<longleftrightarrow> k \<in> indices (filter (\<lambda>x. x \<notin> set todo) zs)"
    "osize \<le> k \<Longrightarrow> k < length t0 \<Longrightarrow> k \<in> indices (filter (\<lambda>x. x \<notin> set todo) zs) \<Longrightarrow>
      type_of (is_table s) k \<noteq> 0"
    "x \<in> set zs \<Longrightarrow> osize \<le> MACH_PORT_INDEX (fst x) \<Longrightarrow> MACH_PORT_INDEX (fst x) < length t0 \<Longrightarrow>
      type_of (is_table s) (MACH_PORT_INDEX (fst x)) \<noteq> 0 \<Longrightarrow>
      MACH_PORT_GEN (fst x) \<noteq> gen_of (is_table s) (MACH_PORT_INDEX (fst x))"
    "hash_ok sid {} g (is_table s) zs" "is_tree_total s = length zs"
    "is_tree_hash s = card (tree_sends {} zs)" "tree_ok {} zs" "ascending zs"
  using assms unfolding move_inv_def by blast+

lemma indices_done:
  assumes "x \<in> set zs" and "x \<notin> set todo"
  shows "indices (filter (\<lambda>y. y \<notin> set todo) zs) =
    insert (MACH_PORT_INDEX (fst x)) (indices (filter (\<lambda>y. y \<notin> set (x # todo)) zs))"
  using assms by (auto simp: indices_def)

text \<open>A slot that is already used gets the collision bit.\<close>

lemma grow_move_collision:
  assumes inv: "move_inv sid t0 osize g s zs ((name, e) # todo)"
    and x: "(name, e) \<in> set zs" "(name, e) \<notin> set todo"
    and i: "osize \<le> MACH_PORT_INDEX name" "MACH_PORT_INDEX name < length t0"
    and used: "ie_bits (is_table s ! MACH_PORT_INDEX name) \<noteq> 0"
  defines "s' \<equiv> s\<lparr>is_table := set_bits (is_table s) (MACH_PORT_INDEX name)
    (ie_bits (is_table s ! MACH_PORT_INDEX name) OR IE_BITS_COLLISION)\<rparr>"
  shows "grow_move sid (name, e) (Some (g, s)) = (Some (g, s'), False)"
    and "move_inv sid t0 osize g s' zs todo" and "move_caps s' zs = move_caps s zs"
proof -
  let ?i = "MACH_PORT_INDEX name" and ?t = "is_table s"
  note iv = move_invD [OF inv]
  show "grow_move sid (name, e) (Some (g, s)) = (Some (g, s'), False)"
    using used by (simp add: grow_move_def s'_def Let_def)
  define t' where "t' = is_table s'"
  have s': "s' = s\<lparr>is_table := t'\<rparr>" by (simp add: t'_def s'_def)
  have ty: "type_of ?t ?i \<noteq> 0" using iv(5) [OF i] used by auto
  have f: "length t' = length ?t" "type_of t' k = type_of ?t k" "gen_of t' k = gen_of ?t k"
    "ie_object (t' ! k) = ie_object (?t ! k)" "ie_request (t' ! k) = ie_request (?t ! k)"
    "capability (t' ! k) = capability (?t ! k)" "k \<noteq> ?i \<Longrightarrow> ie_bits (t' ! k) = ie_bits (?t ! k)"
    "collides (ie_bits (t' ! ?i))" for k
    using i(2) iv(1) by (auto simp: t'_def s'_def capability_def entry_simps)
  have sl: "free_slots {} t' = free_slots {} ?t" "table_sends {} t' = table_sends {} ?t"
    by (simp_all add: free_slots_def table_sends_def f)
  have ix: "indices (filter (\<lambda>y. y \<notin> set todo) zs) =
      insert ?i (indices (filter (\<lambda>y. y \<notin> set ((name, e) # todo)) zs))"
    using indices_done [OF x] by simp
  have "same_hash ?t t'" by (simp add: t'_def s'_def)
  then have "hash_ok sid {} g t' zs" using hash_ok_cong [OF iv(9)] sl(2) by blast
  moreover have "(type_of t' k = 0 \<longrightarrow> ie_bits (t' ! k) = 0 \<and> ie_object (t' ! k) = IO_NULL) \<and>
      (collides (ie_bits (t' ! k)) \<longleftrightarrow> k \<in> indices (filter (\<lambda>x. x \<notin> set todo) zs)) \<and>
      (k \<in> indices (filter (\<lambda>x. x \<notin> set todo) zs) \<longrightarrow> type_of t' k \<noteq> 0)"
    if k: "osize \<le> k" "k < length t0" for k
    using iv(5-7) [OF k] ty f(8) unfolding ix by (cases "k = ?i") (auto simp: f)
  ultimately show "move_inv sid t0 osize g s' zs todo"
    using inv i(1) unfolding move_inv_def s' by (auto simp: f)
  show "move_caps s' zs = move_caps s zs"
    by (simp add: fun_eq_iff move_caps_def in_use_def s' sl f Let_def)
qed

text \<open>An entry moves to a slot that is still zero.\<close>

lemma grow_move_slot:
  assumes inv: "move_inv sid t0 osize g s zs ((name, e) # todo)"
    and x: "(name, e) \<in> set zs"
    and i: "osize \<le> MACH_PORT_INDEX name" "MACH_PORT_INDEX name < length t0"
    and zero: "ie_bits (is_table s ! MACH_PORT_INDEX name) = 0"
  defines "ix \<equiv> MACH_PORT_INDEX name" and "zs' \<equiv> filter (\<lambda>x. fst x \<noteq> name) zs"
  obtains g' t' where
    "grow_move sid (name, e) (Some (g, s)) = (Some (g', s\<lparr>is_table := t',
      is_tree_hash := card (tree_sends {} zs'), is_tree_total := is_tree_total s - 1\<rparr>), True)"
    and "length t' = length t0"
    and "\<And>k. k \<noteq> ix \<Longrightarrow> ie_bits (t' ! k) = ie_bits (is_table s ! k) \<and>
      ie_object (t' ! k) = ie_object (is_table s ! k) \<and> ie_request (t' ! k) = ie_request (is_table s ! k)"
    and "ie_bits (t' ! ix) = ie_bits e OR MACH_PORT_GEN name" "ie_object (t' ! ix) = ie_object e"
      "ie_request (t' ! ix) = ie_request e"
    and "hash_ok sid {} g' t' zs'"
proof -
  let ?t = "is_table s"
  note iv = move_invD [OF inv]
  have i0: "0 < ix" "ix < length ?t" using i iv(1,3) by (auto simp: ix_def)
  have e: "ie_bits e AND NOT IE_BITS_RIGHT_MASK = 0" using iv(12) x by (auto simp: tree_ok_def)
  have asc: "ascending zs" by (rule iv(13))
  define e1 where "e1 = (?t ! ix)\<lparr>ie_bits := ie_bits e OR MACH_PORT_GEN name, ie_object := ie_object e,
    ie_request := ie_request e\<rparr>"
  let ?s1 = "s\<lparr>is_table := ?t[ix := e1]\<rparr>"
  have h: "lh_ok ?t" "entered ?t = table_sends {} ?t" "gh_ok g"
    "\<And>o' m. gh_map g (sid, o') = Some m \<longleftrightarrow> (m, o') \<in> tree_sends {} zs"
    "\<And>k. k \<in> entered ?t \<Longrightarrow> gh_map g (sid, ie_object (?t ! k)) = None"
    using iv(9) by (simp_all add: hash_ok_def)
  have ni: "ix \<notin> entered ?t"
    using zero h(2) by (simp add: table_sends_def ix_def IE_BITS_TYPE_def MACH_PORT_TYPE_SEND_def)
  have "length (?t[ix := e1]) = length ?t" "\<forall>k. ie_index (?t[ix := e1] ! k) = ie_index (?t ! k)"
    "\<forall>k \<in> entered ?t. ie_object (?t[ix := e1] ! k) = ie_object (?t ! k)"
    using ni i0(2) by (auto simp: nth_list_update e1_def)
  note lh1 = lh_ok_objects [OF h(1) this]
  have glob: "IE_BITS_TYPE (ie_bits e) = MACH_PORT_TYPE_SEND \<longrightarrow> gh_map g (sid, ie_object e) = Some name"
    using x h(4) by (auto simp: tree_sends_def)
  have loc: "\<forall>k \<in> entered (?t[ix := e1]). gh_map g (sid, ie_object (?t[ix := e1] ! k)) = None"
  proof
    fix k assume "k \<in> entered (?t[ix := e1])"
    then show "gh_map g (sid, ie_object (?t[ix := e1] ! k)) = None"
      using h(5) [of k] ni lh1(2) by (cases "k = ix") auto
  qed
  have s1: "is_table ?s1 = ?t[ix := e1]" "is_table_size ?s1 = length (?t[ix := e1])"
    "is_tree_hash ?s1 = card (tree_sends {} zs)" "ix < length (?t[ix := e1])" "ix \<notin> entered (?t[ix := e1])"
    "ie_object (?t[ix := e1] ! ix) = ie_object e"
    using iv(1,2,11) i0(2) ni lh1(2) by (simp_all add: e1_def)
  obtain g' t' where mh: "move_hash g sid ?s1 e name ix = Some (g', ?s1\<lparr>is_table := t', is_tree_hash :=
        (if IE_BITS_TYPE (ie_bits e) = MACH_PORT_TYPE_SEND then card (tree_sends {} zs) - 1
         else card (tree_sends {} zs))\<rparr>)"
    and m: "same_fields (?t[ix := e1]) t'" "lh_ok t'"
    "entered t' = (if IE_BITS_TYPE (ie_bits e) = MACH_PORT_TYPE_SEND
      then insert ix (entered (?t[ix := e1])) else entered (?t[ix := e1]))"
    "gh_ok g'" "gh_map g' = (if IE_BITS_TYPE (ie_bits e) = MACH_PORT_TYPE_SEND
      then (gh_map g)((sid, ie_object e) := None) else gh_map g)"
    by (rule move_hash_spec [OF s1(1-3) lh1(1) h(3) i0(1) s1(4-6) glob loc]) (rule that)
  note f = same_fields_lookup [OF m(1)]
  have f': "k \<noteq> ix \<Longrightarrow> ie_bits (t' ! k) = ie_bits (?t ! k) \<and> ie_object (t' ! k) = ie_object (?t ! k) \<and>
      ie_request (t' ! k) = ie_request (?t ! k)"
    "ie_bits (t' ! ix) = ie_bits e OR MACH_PORT_GEN name" "ie_object (t' ! ix) = ie_object e"
    "ie_request (t' ! ix) = ie_request e" "length t' = length t0" for k
    using f i0(2) iv(1) by (simp_all add: e1_def)
  have sends: "table_sends {} t' = (if IE_BITS_TYPE (ie_bits e) = MACH_PORT_TYPE_SEND
      then insert ix (table_sends {} ?t) else table_sends {} ?t)"
    using i0 f' moved_bits_fields(1) [OF e, of name] ni h(2) iv(1)
    by (auto simp: table_sends_def) (metis f'(1))+
  have "entered t' = table_sends {} t'" using m(3) lh1(2) h(2) sends by simp
  moreover have "\<forall>k \<in> table_sends {} ?t. ie_object (t' ! k) = ie_object (?t ! k)" using f'(1) ni h(2) by metis
  ultimately have hash: "hash_ok sid {} g' t' zs'"
    unfolding zs'_def by (intro hash_ok_moved [OF iv(9) asc x refl m(2) _ m(4,5) sends f'(3)])
  have "card (tree_sends {} zs') = (if IE_BITS_TYPE (ie_bits e) = MACH_PORT_TYPE_SEND
      then card (tree_sends {} zs) - 1 else card (tree_sends {} zs))"
    using tree_sends_without [OF asc x] by (simp add: zs'_def)
  then have "grow_move sid (name, e) (Some (g, s)) = (Some (g', s\<lparr>is_table := t',
      is_tree_hash := card (tree_sends {} zs'), is_tree_total := is_tree_total s - 1\<rparr>), True)"
    using mh zero unfolding grow_move_def ix_def [symmetric] by (simp add: Let_def ix_def [symmetric] e1_def)
  then show thesis by (rule that [OF _ f'(5) f'(1-4) hash])
qed

text \<open>The fields the move may change.\<close>

definition moved :: "ipc_space \<Rightarrow> ipc_space \<Rightarrow> bool" where
  "moved s s' \<longleftrightarrow> (\<exists>t' h n. s' = s\<lparr>is_table := t', is_tree_hash := h, is_tree_total := n\<rparr>)"

lemma moved_refl: "moved s s"
  unfolding moved_def
  by (intro exI [of _ "is_table s"] exI [of _ "is_tree_hash s"] exI [of _ "is_tree_total s"]) simp

lemma moved_table: "moved s (s\<lparr>is_table := t\<rparr>)"
  unfolding moved_def
  by (intro exI [of _ t] exI [of _ "is_tree_hash s"] exI [of _ "is_tree_total s"]) simp

lemma moved_trans: "moved a b \<Longrightarrow> moved b c \<Longrightarrow> moved a c"
  unfolding moved_def by fastforce

lemma grow_move_slot_inv:
  assumes inv: "move_inv sid t0 osize g s zs ((name, e) # todo)"
    and x: "(name, e) \<in> set zs"
    and i: "osize \<le> MACH_PORT_INDEX name" "MACH_PORT_INDEX name < length t0"
    and zero: "ie_bits (is_table s ! MACH_PORT_INDEX name) = 0"
  obtains g' s' where "grow_move sid (name, e) (Some (g, s)) = (Some (g', s'), True)"
    and "move_inv sid t0 osize g' s' (filter (\<lambda>x. fst x \<noteq> name) zs) todo"
    and "move_caps s' (filter (\<lambda>x. fst x \<noteq> name) zs) = move_caps s zs"
    and "moved s s'"
proof -
  let ?i = "MACH_PORT_INDEX name" and ?t = "is_table s" and ?zs = "filter (\<lambda>x. fst x \<noteq> name) zs"
  note iv = move_invD [OF inv]
  obtain g' t' where res: "grow_move sid (name, e) (Some (g, s)) = (Some (g', s\<lparr>is_table := t',
      is_tree_hash := card (tree_sends {} ?zs), is_tree_total := is_tree_total s - 1\<rparr>), True)"
    and len: "length t' = length t0"
    and f: "\<And>k. k \<noteq> ?i \<Longrightarrow> ie_bits (t' ! k) = ie_bits (?t ! k) \<and>
      ie_object (t' ! k) = ie_object (?t ! k) \<and> ie_request (t' ! k) = ie_request (?t ! k)"
    and fi: "ie_bits (t' ! ?i) = ie_bits e OR MACH_PORT_GEN name" "ie_object (t' ! ?i) = ie_object e"
      "ie_request (t' ! ?i) = ie_request e"
    and hash: "hash_ok sid {} g' t' ?zs"
    by (rule grow_move_slot [OF inv x i zero]) (rule that)
  define s' where "s' = s\<lparr>is_table := t', is_tree_hash := card (tree_sends {} ?zs),
    is_tree_total := is_tree_total s - 1\<rparr>"
  have e: "ie_bits e AND NOT IE_BITS_RIGHT_MASK = 0" "IE_BITS_TYPE (ie_bits e) \<noteq> 0"
    using iv(12) x by (auto simp: tree_ok_def MACH_PORT_TYPE_NONE_def)
  note mb = moved_bits_fields [OF e(1), of name]
  have ti: "type_of t' ?i \<noteq> 0" "gen_of t' ?i = MACH_PORT_GEN name" "\<not> collides (ie_bits (t' ! ?i))"
    "capability (t' ! ?i) = capability e"
    using e mb right_bits_fields(3) [OF e(1)] by (simp_all add: fi capability_def)
  have dist: "distinct (map fst zs)" using ascending_distinct [OF iv(13)] .
  have uniq: "fst y = name \<longleftrightarrow> y = (name, e)" if "y \<in> set zs" for y
    using that x dist by (metis fst_conv map_of_is_SomeI option.inject prod.collapse)
  have todo: "filter (\<lambda>y. y \<notin> set todo) ?zs = filter (\<lambda>y. y \<notin> set ((name, e) # todo)) zs"
    using uniq by (auto intro!: filter_cong)
  have t0: "type_of ?t ?i = 0" using zero by (simp add: IE_BITS_TYPE_def)
  have none: "?i \<notin> indices (filter (\<lambda>y. y \<notin> set ((name, e) # todo)) zs)"
    using iv(7) [OF i] t0 by blast
  have "(type_of t' k = 0 \<longrightarrow> ie_bits (t' ! k) = 0 \<and> ie_object (t' ! k) = IO_NULL) \<and>
      (collides (ie_bits (t' ! k)) \<longleftrightarrow> k \<in> indices (filter (\<lambda>x. x \<notin> set todo) ?zs)) \<and>
      (k \<in> indices (filter (\<lambda>x. x \<notin> set todo) ?zs) \<longrightarrow> type_of t' k \<noteq> 0)"
    if k: "osize \<le> k" "k < length t0" for k
  proof (cases "k = ?i")
    case True
    then show ?thesis unfolding todo using ti none by blast
  next
    case False
    then show ?thesis unfolding todo using iv(5-7) [OF k] f [OF False] by simp
  qed
  moreover have "MACH_PORT_GEN (fst y) \<noteq> gen_of t' (MACH_PORT_INDEX (fst y))"
    if y: "y \<in> set ?zs" "osize \<le> MACH_PORT_INDEX (fst y)" "MACH_PORT_INDEX (fst y) < length t0"
      "type_of t' (MACH_PORT_INDEX (fst y)) \<noteq> 0" for y
  proof (cases "MACH_PORT_INDEX (fst y) = ?i")
    case True
    then show ?thesis using y(1) ti(2) name_eqI [of "fst y" name] by auto
  next
    case False
    then show ?thesis using y iv(8) [of y] f [OF False] by simp
  qed
  moreover have "is_tree_total s - 1 = length ?zs"
    using distinct_remove_length [OF dist x] iv(10) by simp
  moreover have "tree_ok {} ?zs" "ascending ?zs"
    using iv(12) ascending_filter [OF iv(13)] by (auto simp: tree_ok_def)
  moreover have "ie_bits (t' ! k) = ie_bits (t0 ! k) \<and> ie_object (t' ! k) = ie_object (t0 ! k) \<and>
      ie_request (t' ! k) = ie_request (t0 ! k)" if "k < osize" for k
    using that i(1) f [of k] iv(4) [OF that] by simp
  ultimately have inv': "move_inv sid t0 osize g' s' ?zs todo"
    using iv(2,3) len hash unfolding move_inv_def s'_def by simp
  have "move_caps s' ?zs m = move_caps s zs m" for m
  proof (cases "MACH_PORT_INDEX m = ?i")
    case True
    have eq: "m = name \<longleftrightarrow> MACH_PORT_GEN name = MACH_PORT_GEN m" using True name_eqI by metis
    have u: "\<not> in_use {} s ?i" "in_use {} s' ?i"
      using t0 ti(1) i iv(1,3) len by (auto simp: in_use_def free_slots_def s'_def MACH_PORT_TYPE_NONE_def)
    have "map_of zs name = Some e" using x dist by simp
    then show ?thesis
      using True u eq ti(2,4) by (auto simp: move_caps_def s'_def map_of_filter_neq Let_def)
  next
    case False
    then have "m \<noteq> name" by auto
    have "in_use {} s' (MACH_PORT_INDEX m) \<longleftrightarrow> in_use {} s (MACH_PORT_INDEX m)"
      using f [OF False] len iv(1) by (auto simp: in_use_def free_slots_def s'_def)
    then show ?thesis using f [OF False] \<open>m \<noteq> name\<close>
      by (simp add: move_caps_def s'_def map_of_filter_neq capability_def Let_def)
  qed
  then have "move_caps s' ?zs = move_caps s zs" by (simp add: fun_eq_iff)
  with res inv' show thesis by (intro that [of g' s']) (auto simp: s'_def moved_def)
qed

text \<open>The whole loop.  What it deletes from the list it sees, it deletes from the tree.\<close>

lemma grow_move_loop:
  assumes "move_inv sid t0 osize g s zs todo" and "set todo \<subseteq> set zs" and "distinct todo"
    and "\<forall>x \<in> set todo. osize \<le> MACH_PORT_INDEX (fst x) \<and> MACH_PORT_INDEX (fst x) < length t0"
  shows "\<exists>g' s' P. fst (traverse_fold (grow_move sid) todo (Some (g, s))) = Some (g', s') \<and>
    snd (traverse_fold (grow_move sid) todo (Some (g, s))) = filter P todo \<and>
    (\<forall>x. x \<notin> set todo \<longrightarrow> P x) \<and>
    move_inv sid t0 osize g' s' (filter P zs) [] \<and> move_caps s' (filter P zs) = move_caps s zs \<and>
    moved s s'"
  using assms
proof (induction todo arbitrary: g s zs)
  case Nil
  then show ?case by (intro exI [of _ g] exI [of _ s] exI [of _ "\<lambda>x. True"]) (simp add: moved_refl)
next
  case (Cons x todo)
  obtain name e where x: "x = (name, e)" by (cases x)
  have xz: "(name, e) \<in> set zs" "(name, e) \<notin> set todo" using Cons.prems x by auto
  have i: "osize \<le> MACH_PORT_INDEX name" "MACH_PORT_INDEX name < length t0" using Cons.prems(4) x by auto
  note inv = Cons.prems(1) [unfolded x]
  have rest: "set todo \<subseteq> set zs" "distinct todo"
    "\<forall>x \<in> set todo. osize \<le> MACH_PORT_INDEX (fst x) \<and> MACH_PORT_INDEX (fst x) < length t0"
    using Cons.prems(2-4) by auto
  show ?case
  proof (cases "ie_bits (is_table s ! MACH_PORT_INDEX name) = 0")
    case False
    note c = grow_move_collision [OF inv xz i False]
    let ?s = "s\<lparr>is_table := set_bits (is_table s) (MACH_PORT_INDEX name)
      (ie_bits (is_table s ! MACH_PORT_INDEX name) OR IE_BITS_COLLISION)\<rparr>"
    obtain g' s' P where IH: "fst (traverse_fold (grow_move sid) todo (Some (g, ?s))) = Some (g', s')"
      "snd (traverse_fold (grow_move sid) todo (Some (g, ?s))) = filter P todo"
      "\<forall>x. x \<notin> set todo \<longrightarrow> P x" "move_inv sid t0 osize g' s' (filter P zs) []"
      "move_caps s' (filter P zs) = move_caps ?s zs"
      "moved ?s s'"
      using Cons.IH [OF c(2) rest] by blast
    have "P x" using IH(3) xz(2) x by auto
    then have "traverse_fold (grow_move sid) (x # todo) (Some (g, s)) = (Some (g', s'), filter P (x # todo))"
      using c(1) IH(1,2) unfolding x by (simp add: split_beta prod_eq_iff)
    moreover have "moved s s'" using moved_trans [OF moved_table IH(6)] .
    ultimately show ?thesis
      using IH(3-5) c(3) by (intro exI [of _ g'] exI [of _ s'] exI [of _ P]) simp
  next
    case True
    obtain g1 s1 where m: "grow_move sid (name, e) (Some (g, s)) = (Some (g1, s1), True)"
      "move_inv sid t0 osize g1 s1 (filter (\<lambda>x. fst x \<noteq> name) zs) todo"
      "move_caps s1 (filter (\<lambda>x. fst x \<noteq> name) zs) = move_caps s zs"
      "moved s s1"
      by (rule grow_move_slot_inv [OF inv xz(1) i True]) (rule that)
    have dist: "distinct (map fst zs)" using ascending_distinct [OF move_invD(13) [OF inv]] .
    have uniq: "fst y = name \<longleftrightarrow> y = (name, e)" if "y \<in> set zs" for y
      using that xz(1) dist by (metis fst_conv map_of_is_SomeI option.inject prod.collapse)
    have "fst y \<noteq> name" if "y \<in> set todo" for y using that xz(2) rest(1) uniq [of y] by auto
    then have sub: "set todo \<subseteq> set (filter (\<lambda>x. fst x \<noteq> name) zs)" using rest(1) by auto
    obtain g' s' P where IH: "fst (traverse_fold (grow_move sid) todo (Some (g1, s1))) = Some (g', s')"
      "snd (traverse_fold (grow_move sid) todo (Some (g1, s1))) = filter P todo"
      "\<forall>x. x \<notin> set todo \<longrightarrow> P x"
      "move_inv sid t0 osize g' s' (filter P (filter (\<lambda>x. fst x \<noteq> name) zs)) []"
      "move_caps s' (filter P (filter (\<lambda>x. fst x \<noteq> name) zs)) = move_caps s1 (filter (\<lambda>x. fst x \<noteq> name) zs)"
      "moved s1 s'"
      using Cons.IH [OF m(2) sub rest(2,3)] by blast
    let ?P = "\<lambda>y. P y \<and> y \<noteq> (name, e)"
    have fl: "filter P (filter (\<lambda>x. fst x \<noteq> name) zs) = filter ?P zs"
      using uniq by (auto intro!: filter_cong)
    have fl2: "filter P todo = filter ?P (x # todo)" using xz(2) x by (auto intro!: filter_cong)
    have sh: "moved s s'" using moved_trans [OF m(4) IH(6)] .
    have "traverse_fold (grow_move sid) (x # todo) (Some (g, s)) = (Some (g', s'), filter ?P (x # todo))"
      using m(1) IH(1,2) fl2 unfolding x by (simp add: split_beta prod_eq_iff)
    moreover have "\<forall>y. y \<notin> set (x # todo) \<longrightarrow> ?P y" using IH(3) x by auto
    ultimately show ?thesis
      using IH(4,5) m(3) sh unfolding fl by (intro exI [of _ g'] exI [of _ s'] exI [of _ ?P]) simp
  qed
qed

end
