(* ===== verification/Entry_Grow_Commit.thy ===== *)
theory Entry_Grow_Commit
  imports Entry_Grow
begin

text \<open>
  The whole of the growth of a table: the tree is cut in four, the entries that fit are moved,
  the small ones counted, the tree is joined again and the free list extended.
\<close>

text \<open>The fields that neither the tree nor the table belong to.\<close>

definition same_header :: "ipc_space \<Rightarrow> ipc_space \<Rightarrow> bool" where
  "same_header s s' \<longleftrightarrow>
    is_references s' = is_references s \<and> is_active s' = is_active s \<and> is_growing s' = is_growing s \<and>
    is_table_size s' = is_table_size s \<and> is_table_next s' = is_table_next s"

section \<open>The tree\<close>

lemma move_inv_tree [simp]:
  "move_inv sid t0 osize g (s\<lparr>is_tree := tree\<rparr>) zs todo \<longleftrightarrow> move_inv sid t0 osize g s zs todo"
  "move_caps (s\<lparr>is_tree := tree\<rparr>) zs = move_caps s zs"
  "move_inv sid t0 osize g (s\<lparr>is_tree_small := n\<rparr>) zs todo \<longleftrightarrow> move_inv sid t0 osize g s zs todo"
  "move_caps (s\<lparr>is_tree_small := n\<rparr>) zs = move_caps s zs"
  by (simp_all add: move_inv_def move_caps_def in_use_def fun_eq_iff Let_def)

text \<open>The four regions of the tree.\<close>

lemma grow_cut:
  assumes ok: "ist_ok tree" and xs: "ist_list tree = xs" and sz: "osize \<le> sz" "sz \<le> nsize" "nsize < 2 ^ 24"
  obtains tree1 small1 small2 move1 move2 ignore where
    "ipc_splay_tree_split tree (MACH_PORT_MAKE nsize 0) tree = (tree1, small1)"
    and "ipc_splay_tree_split small1 (MACH_PORT_MAKE sz 0) small1 = (small2, move1)"
    and "ipc_splay_tree_split move1 (MACH_PORT_MAKE osize 0) move1 = (move2, ignore)"
    and "ist_ok tree1" "ist_ok small2" "ist_ok move2" "ist_ok ignore"
    and "ist_list move2 = filter (\<lambda>x. osize \<le> MACH_PORT_INDEX (fst x) \<and> MACH_PORT_INDEX (fst x) < sz) xs"
    and "ist_list small2 = filter (\<lambda>x. sz \<le> MACH_PORT_INDEX (fst x) \<and> MACH_PORT_INDEX (fst x) < nsize) xs"
    and "ist_list ignore @ ist_list move2 @ ist_list small2 @ ist_list tree1 = xs"
proof -
  have lt: "sz < 2 ^ 24" "osize < 2 ^ 24" using sz by linarith+
  have asc: "ascending xs" using ist_ok_ascending [OF ok] by (simp add: xs)
  obtain tree1 small1 where 1: "ipc_splay_tree_split tree (MACH_PORT_MAKE nsize 0) tree = (tree1, small1)"
    "ist_list tree1 = filter (\<lambda>x. nsize \<le> MACH_PORT_INDEX (fst x)) xs"
    "ist_list small1 = filter (\<lambda>x. MACH_PORT_INDEX (fst x) < nsize) xs" "ist_ok tree1" "ist_ok small1"
    by (rule split_index [OF ok sz(3), of tree, unfolded xs])
  obtain small2 move1 where 2: "ipc_splay_tree_split small1 (MACH_PORT_MAKE sz 0) small1 = (small2, move1)"
    "ist_list small2 = filter (\<lambda>x. sz \<le> MACH_PORT_INDEX (fst x)) (ist_list small1)"
    "ist_list move1 = filter (\<lambda>x. MACH_PORT_INDEX (fst x) < sz) (ist_list small1)" "ist_ok small2" "ist_ok move1"
    by (rule split_index [OF 1(5) lt(1), of small1])
  obtain move2 ignore where 3: "ipc_splay_tree_split move1 (MACH_PORT_MAKE osize 0) move1 = (move2, ignore)"
    "ist_list move2 = filter (\<lambda>x. osize \<le> MACH_PORT_INDEX (fst x)) (ist_list move1)"
    "ist_list ignore = filter (\<lambda>x. MACH_PORT_INDEX (fst x) < osize) (ist_list move1)" "ist_ok move2" "ist_ok ignore"
    by (rule split_index [OF 2(5) lt(2), of move1])
  have "ist_list ignore @ ist_list move2 = ist_list move1"
    unfolding 3 using ist_ok_ascending [OF 2(5)] lt(2) by (rule ascending_index_split)
  moreover have "ist_list move1 @ ist_list small2 = ist_list small1"
    unfolding 2 using ist_ok_ascending [OF 1(5)] lt(1) by (rule ascending_index_split)
  moreover have "ist_list small1 @ ist_list tree1 = xs"
    unfolding 1 using asc sz(3) by (rule ascending_index_split)
  ultimately have "ist_list ignore @ ist_list move2 @ ist_list small2 @ ist_list tree1 = xs"
    by (metis append.assoc)
  moreover have "ist_list move2 = filter (\<lambda>x. osize \<le> MACH_PORT_INDEX (fst x) \<and> MACH_PORT_INDEX (fst x) < sz) xs"
    unfolding 3(2) 2(3) 1(3) using sz by (auto intro!: filter_cong)
  moreover have "ist_list small2 = filter (\<lambda>x. sz \<le> MACH_PORT_INDEX (fst x) \<and> MACH_PORT_INDEX (fst x) < nsize) xs"
    unfolding 2(2) 1(3) by (auto intro!: filter_cong)
  ultimately show thesis using that 1(1,4) 2(1,4) 3(1,4,5) by blast
qed

text \<open>The joins put a sublist of the tree back together.\<close>

lemma grow_join:
  assumes "ist_ok tree1" "ist_ok small" "ist_ok move" "ist_ok ignore"
    and asc: "ascending (ist_list ignore @ ist_list move @ ist_list small @ ist_list tree1)"
  defines "tree \<equiv> fst (ipc_splay_tree_join (fst (ipc_splay_tree_join (fst (ipc_splay_tree_join tree1 small)) move)) ignore)"
  shows "ist_list tree = ist_list ignore @ ist_list move @ ist_list small @ ist_list tree1" and "ist_ok tree"
proof -
  have a: "ascending (ist_list move @ ist_list small @ ist_list tree1)" "ascending (ist_list small @ ist_list tree1)"
    using asc ascending_appendD by blast+
  note j1 = join_ok [OF assms(1,2) a(2)]
  note j2 = join_ok [OF j1(2) assms(3), unfolded j1(1), OF a(1)]
  note j3 = join_ok [OF j2(2) assms(4), unfolded j2(1), OF asc]
  show "ist_list tree = ist_list ignore @ ist_list move @ ist_list small @ ist_list tree1" and "ist_ok tree"
    using j3 by (simp_all add: tree_def)
qed

lemma grow_tree_spec:
  assumes ok: "ist_ok (is_tree s)" and xs: "ist_list (is_tree s) = xs"
    and sz: "osize \<le> length t0" "length t0 \<le> nsize" "nsize < 2 ^ 24"
    and inv: "move_inv sid t0 osize g s xs
      (filter (\<lambda>x. osize \<le> MACH_PORT_INDEX (fst x) \<and> MACH_PORT_INDEX (fst x) < length t0) xs)"
  obtains g' s' P where "grow_tree sid osize (length t0) nsize (g, s) = Some (g', s')"
    and "ist_ok (is_tree s')" and "ist_list (is_tree s') = filter P xs"
    and "\<forall>x. MACH_PORT_INDEX (fst x) < osize \<longrightarrow> P x"
    and "move_inv sid t0 osize g' s' (filter P xs) []"
    and "move_caps s' (filter P xs) = move_caps s xs"
    and "is_tree_small s' = small_count (length t0) nsize (filter P xs)"
    and "same_header s s'"
proof -
  let ?sz = "length t0"
  obtain tree1 small1 small2 move1 move2 ignore where
    cut: "ipc_splay_tree_split (is_tree s) (MACH_PORT_MAKE nsize 0) (is_tree s) = (tree1, small1)"
      "ipc_splay_tree_split small1 (MACH_PORT_MAKE ?sz 0) small1 = (small2, move1)"
      "ipc_splay_tree_split move1 (MACH_PORT_MAKE osize 0) move1 = (move2, ignore)"
    and oks: "ist_ok tree1" "ist_ok small2" "ist_ok move2" "ist_ok ignore"
    and ms: "ist_list move2 = filter (\<lambda>x. osize \<le> MACH_PORT_INDEX (fst x) \<and> MACH_PORT_INDEX (fst x) < ?sz) xs"
    and sms: "ist_list small2 = filter (\<lambda>x. ?sz \<le> MACH_PORT_INDEX (fst x) \<and> MACH_PORT_INDEX (fst x) < nsize) xs"
    and whole: "ist_list ignore @ ist_list move2 @ ist_list small2 @ ist_list tree1 = xs"
    by (rule grow_cut [OF ok xs sz]) (rule that)
  note iv = move_invD [OF inv]
  have len: "length (ist_list move2) \<le> is_tree_total s" "length (ist_list small2) \<le> is_tree_total s"
    using iv(10) unfolding ms sms by simp_all
  let ?s1 = "s\<lparr>is_tree := tree1\<rparr>"
  have "distinct (ist_list move2)"
    using ascending_distinct [OF ist_ok_ascending [OF oks(3)]] by (simp add: distinct_map)
  then have "\<exists>g' s' P. fst (traverse_fold (grow_move sid) (ist_list move2) (Some (g, ?s1))) = Some (g', s') \<and>
    snd (traverse_fold (grow_move sid) (ist_list move2) (Some (g, ?s1))) = filter P (ist_list move2) \<and>
    (\<forall>x. x \<notin> set (ist_list move2) \<longrightarrow> P x) \<and>
    move_inv sid t0 osize g' s' (filter P xs) [] \<and> move_caps s' (filter P xs) = move_caps ?s1 xs \<and> moved ?s1 s'"
    using inv by (intro grow_move_loop) (auto simp: ms)
  then obtain g' s' P where
    mv: "fst (traverse_fold (grow_move sid) (ist_list move2) (Some (g, ?s1))) = Some (g', s')"
      "snd (traverse_fold (grow_move sid) (ist_list move2) (Some (g, ?s1))) = filter P (ist_list move2)"
    and P: "\<forall>x. x \<notin> set (ist_list move2) \<longrightarrow> P x"
    and inv': "move_inv sid t0 osize g' s' (filter P xs) []" "move_caps s' (filter P xs) = move_caps s xs"
    and fr: "moved ?s1 s'"
    by auto
  obtain move3 where m3: "ipc_splay_traverse (is_tree_total s) (grow_move sid) move2 (Some (g, ?s1)) =
      Some (Some (g', s'), move3)" "ist_ok move3" "ist_list move3 = filter P (ist_list move2)"
    using traverse_spec [OF oks(3) len(1), of "grow_move sid" "Some (g, ?s1)"] mv by auto
  have "\<forall>x \<in> set (ist_list small2). 0 \<le> MACH_PORT_INDEX (fst x)" by simp
  note cnt = grow_count_spec [OF ist_ok_ascending [OF oks(2)] this, of 0]
  obtain small3 nosmall ix where s3: "ipc_splay_traverse (is_tree_total s) grow_count small2 (0, 0) =
      Some ((nosmall, ix), small3)" "ist_ok small3" "ist_list small3 = ist_list small2"
    "nosmall = card (indices (ist_list small2) - {0})"
    using traverse_spec [OF oks(2) len(2), of grow_count "(0, 0)"] cnt by (auto simp: prod_eq_iff)
  define tree where "tree = fst (ipc_splay_tree_join (fst (ipc_splay_tree_join
    (fst (ipc_splay_tree_join tree1 small3)) move3)) ignore)"
  have st: "is_tree s' = tree1" using fr by (auto simp: moved_def)
  have Px: "filter P (ist_list ignore) = ist_list ignore" "filter P (ist_list small2) = ist_list small2"
    "filter P (ist_list tree1) = ist_list tree1"
  proof -
    have "distinct xs" using ascending_distinct [OF iv(13)] by (simp add: distinct_map)
    then have "set (ist_list move2) \<inter> set (ist_list ignore) = {}"
      "set (ist_list move2) \<inter> set (ist_list small2) = {}" "set (ist_list move2) \<inter> set (ist_list tree1) = {}"
      unfolding whole [symmetric] by auto
    with P show "filter P (ist_list ignore) = ist_list ignore" "filter P (ist_list small2) = ist_list small2"
      "filter P (ist_list tree1) = ist_list tree1"
      unfolding filter_id_conv by blast+
  qed
  have flt: "ist_list ignore @ ist_list move3 @ ist_list small3 @ ist_list tree1 = filter P xs"
    unfolding whole [symmetric] by (simp add: m3(3) s3(3) Px)
  have "ascending (ist_list ignore @ ist_list move3 @ ist_list small3 @ ist_list tree1)"
    unfolding flt using ascending_filter [OF iv(13)] .
  note jn = grow_join [OF oks(1) s3(2) m3(2) oks(4) this, folded tree_def, unfolded flt]
  have res: "grow_tree sid osize ?sz nsize (g, s) = Some (g', s'\<lparr>is_tree_small := nosmall, is_tree := tree\<rparr>)"
    unfolding grow_tree_def Let_def prod.case cut m3(1) s3(1) option.case st tree_def ..
  have "indices (filter P xs) \<inter> {?sz..<nsize} = indices (ist_list small2) - {0}"
  proof (intro set_eqI iffI)
    fix k assume "k \<in> indices (filter P xs) \<inter> {?sz..<nsize}"
    then obtain x where "x \<in> set xs" "k = MACH_PORT_INDEX (fst x)" "?sz \<le> k" "k < nsize"
      unfolding indices_def by auto
    then show "k \<in> indices (ist_list small2) - {0}"
      using iv(3) sz(1) unfolding indices_def sms by auto
  next
    fix k assume "k \<in> indices (ist_list small2) - {0}"
    then obtain x where x: "x \<in> set (ist_list small2)" "k = MACH_PORT_INDEX (fst x)"
      unfolding indices_def by auto
    then have "x \<in> set xs" "?sz \<le> k" "k < nsize" unfolding sms by auto
    moreover have "P x" using P [rule_format, of x] calculation x(2) unfolding ms by auto
    ultimately show "k \<in> indices (filter P xs) \<inter> {?sz..<nsize}" using x(2) unfolding indices_def by auto
  qed
  then have "nosmall = small_count ?sz nsize (filter P xs)"
    using s3(4) by (simp add: small_count_def)
  moreover have "same_header s (s'\<lparr>is_tree_small := nosmall, is_tree := tree\<rparr>)"
    using fr by (auto simp: moved_def same_header_def)
  moreover have "\<forall>x. MACH_PORT_INDEX (fst x) < osize \<longrightarrow> P x" using P unfolding ms by auto
  ultimately show thesis
    using inv' jn by (intro that [OF res, of P]) simp_all
qed

section \<open>Starting the move\<close>

text \<open>After the copy and the rehash the loop's invariant holds with every entry still to be seen.\<close>

lemma grow_start:
  assumes ok: "space_ok its sid {} g s" and sz: "length (is_table s) = osize" "osize < sz"
  obtains t1 where
    "grow_rehash [0..<osize] (s\<lparr>is_table := grow_copy osize sz (is_table s), is_table_size := sz,
        is_table_next := n\<rparr>) =
      Some (s\<lparr>is_table := t1, is_table_size := sz, is_table_next := n\<rparr>)"
    and "length t1 = sz"
    and "\<forall>k < osize. ie_bits (t1 ! k) = ie_bits (is_table s ! k) \<and>
      ie_object (t1 ! k) = ie_object (is_table s ! k) \<and> ie_request (t1 ! k) = ie_request (is_table s ! k)"
    and "\<forall>k. osize \<le> k \<longrightarrow> k < sz \<longrightarrow> ie_bits (t1 ! k) = 0 \<and> ie_object (t1 ! k) = IO_NULL \<and>
      ie_request (t1 ! k) = 0"
    and "lh_ok t1" and "entered t1 = table_sends {} (is_table s)"
proof -
  let ?t = "is_table s" and ?c = "grow_copy osize sz (is_table s)"
  note ok' = space_okD [OF ok]
  have osz: "0 < osize" using ok'(2) sz(1) by (auto simp: head_ok_def)
  have len: "length ?c = sz" using sz by simp
  have nth: "?c ! k = (if k < osize then (?t ! k)\<lparr>ie_index := 0\<rparr> else entry_zero)" if "k < sz" for k
    using nth_grow_copy [OF sz(1)] sz(2) that by simp
  have "?c \<noteq> []" "\<forall>k < length ?c. ie_index (?c ! k) = 0"
    using len sz(2) nth by (auto simp: entry_zero_def)
  note lh0 = lh_ok_empty [OF this]
  have f: "k < osize \<Longrightarrow> ie_bits (?c ! k) = ie_bits (?t ! k) \<and> ie_object (?c ! k) = ie_object (?t ! k) \<and>
      ie_request (?c ! k) = ie_request (?t ! k)"
    "osize \<le> k \<Longrightarrow> k < sz \<Longrightarrow> ie_bits (?c ! k) = 0 \<and> ie_object (?c ! k) = IO_NULL \<and> ie_request (?c ! k) = 0" for k
    using nth [of k] sz(2) by (simp_all add: entry_zero_def)
  have t0: "type_of ?c 0 = 0" using f(1) [OF osz] head_ok_fields(1) [OF ok'(2)] by simp
  have sends: "{i \<in> set [0..<osize]. type_of ?c i = MACH_PORT_TYPE_SEND} = table_sends {} ?t"
    using f(1) t0 sz(1) sends_not_none
    by (auto simp: table_sends_def MACH_PORT_TYPE_NONE_def intro: gr0I)
  have "inj_on (\<lambda>i. ie_object (?t ! i)) (entered ?t)"
    using entered_inj [of ?t] ok'(10) unfolding hash_ok_def inj_on_def by blast
  then have inj: "inj_on (\<lambda>i. ie_object (?c ! i)) (table_sends {} ?t)"
    using ok'(10) f(1) sz(1) unfolding hash_ok_def inj_on_def table_sends_def by auto
  let ?s = "s\<lparr>is_table := ?c, is_table_size := sz, is_table_next := n\<rparr>"
  have "\<exists>t'. grow_rehash [0..<osize] ?s = Some (?s\<lparr>is_table := t'\<rparr>) \<and> same_fields ?c t' \<and> lh_ok t' \<and>
    entered t' = entered ?c \<union> {i \<in> set [0..<osize]. type_of ?c i = MACH_PORT_TYPE_SEND}"
    using sz(2) len lh0 t0 inj sends by (intro grow_rehash_spec) simp_all
  then obtain t1 where t1: "grow_rehash [0..<osize] ?s = Some (?s\<lparr>is_table := t1\<rparr>)" "same_fields ?c t1"
    "lh_ok t1" "entered t1 = table_sends {} ?t"
    unfolding sends lh0(2) by auto
  note ff = same_fields_lookup [OF t1(2)]
  show thesis
  proof (rule that [of t1])
    show "grow_rehash [0..<osize] ?s = Some (s\<lparr>is_table := t1, is_table_size := sz, is_table_next := n\<rparr>)"
      using t1(1) by simp
  qed (use t1 ff f len in simp_all)
qed

lemma grow_start_inv:
  fixes n :: nat
  assumes ok: "space_ok its sid {} g s" and sz: "length (is_table s) = osize" "osize < sz"
    and t1: "length t1 = sz" "lh_ok t1" "entered t1 = table_sends {} (is_table s)"
    and old: "\<forall>k < osize. ie_bits (t1 ! k) = ie_bits (is_table s ! k) \<and>
      ie_object (t1 ! k) = ie_object (is_table s ! k) \<and> ie_request (t1 ! k) = ie_request (is_table s ! k)"
    and new: "\<forall>k. osize \<le> k \<longrightarrow> k < sz \<longrightarrow> ie_bits (t1 ! k) = 0 \<and> ie_object (t1 ! k) = IO_NULL \<and>
      ie_request (t1 ! k) = 0"
  defines "s1 \<equiv> s\<lparr>is_table := t1, is_table_size := sz, is_table_next := n\<rparr>"
    and "xs \<equiv> ist_list (is_tree s)"
  shows "move_inv sid t1 osize g s1 xs
      (filter (\<lambda>x. osize \<le> MACH_PORT_INDEX (fst x) \<and> MACH_PORT_INDEX (fst x) < length t1) xs)"
    and "move_caps s1 xs = caps {} s"
    and "table_sends {} t1 = table_sends {} (is_table s)"
proof -
  let ?t = "is_table s"
  let ?ms = "filter (\<lambda>x. osize \<le> MACH_PORT_INDEX (fst x) \<and> MACH_PORT_INDEX (fst x) < length t1) xs"
  note ok' = space_okD [OF ok]
  have osz: "0 < osize" using ok'(2) sz(1) by (auto simp: head_ok_def)
  have nty: "type_of t1 k = 0" "\<not> collides (ie_bits (t1 ! k))" if "osize \<le> k" "k < sz" for k
    using new that by (simp_all add: IE_BITS_TYPE_def collides_def)
  show sends: "table_sends {} t1 = table_sends {} ?t"
  proof (intro set_eqI)
    fix k
    show "k \<in> table_sends {} t1 \<longleftrightarrow> k \<in> table_sends {} ?t"
      using old nty(1) [of k] sends_not_none sz t1(1)
      by (cases "k < osize") (auto simp: table_sends_def MACH_PORT_TYPE_NONE_def)
  qed
  have free: "k \<in> free_slots {} t1 \<longleftrightarrow> k \<in> free_slots {} ?t" if "k < osize" for k
    using that old sz t1(1) by (simp add: free_slots_def)
  have nf: "k \<in> free_slots {} t1" if "osize \<le> k" "k < sz" for k
    using that nty(1) [OF that] osz t1(1) by (simp add: free_slots_def MACH_PORT_TYPE_NONE_def)
  have seen: "k \<notin> indices (filter (\<lambda>x. x \<notin> set ?ms) xs)" if "osize \<le> k" "k < sz" for k
    using that t1(1) by (auto simp: indices_def)
  have "hash_ok sid {} g t1 xs"
    using ok'(10) t1(2,3) sends old sz(1) unfolding hash_ok_def xs_def
    by (simp add: table_sends_def)
  then show "move_inv sid t1 osize g s1 xs ?ms"
    using osz ok'(5,6,9) ist_ok_ascending [OF ok'(4)] nty new seen t1(1)
    unfolding move_inv_def s1_def xs_def by simp
  have "move_caps s1 xs m = caps {} s m" for m
  proof -
    have "in_use {} s1 (MACH_PORT_INDEX m) \<longleftrightarrow> in_use {} s (MACH_PORT_INDEX m)"
      using free nf sz t1(1) by (cases "MACH_PORT_INDEX m < osize") (auto simp: in_use_def s1_def)
    moreover have "MACH_PORT_INDEX m < osize" if "in_use {} s (MACH_PORT_INDEX m)"
      using that sz(1) by (simp add: in_use_def)
    ultimately show ?thesis
      using old
      by (auto simp: move_caps_def caps_def s1_def xs_def capability_def Let_def)
  qed
  then show "move_caps s1 xs = caps {} s" by (simp add: fun_eq_iff)
qed

section \<open>Finishing\<close>

lemma grow_finish:
  assumes inv: "move_inv sid t1 osize g' s' zs []" and zs: "ist_list (is_tree s') = zs" "ist_ok (is_tree s')"
    and old: "\<forall>k < osize. ie_bits (t1 ! k) = ie_bits (t ! k) \<and>
      ie_object (t1 ! k) = ie_object (t ! k) \<and> ie_request (t1 ! k) = ie_request (t ! k)"
    and t: "length t = osize" "osize < length t1" "head_ok t" "free_ok {} t" "coll_ok {} t xs"
    and sub: "set zs \<subseteq> set xs" "\<forall>x \<in> set xs. MACH_PORT_INDEX (fst x) < osize \<longrightarrow> x \<in> set zs"
    and its: "is_table_next s' < length its" "0 < is_table_next s'" "length t1 = its ! (is_table_next s' - 1)"
    and small: "is_tree_small s' = small_count (length t1) (its ! is_table_next s') zs"
    and gf: "grow_free (rev [osize..<length t1]) (is_table s') (ie_next (is_table s' ! 0)) = (t2, fi)"
  defines "s2 \<equiv> s'\<lparr>is_table := set_next t2 0 fi\<rparr>"
  shows "space_ok its sid {} g' s2" and "caps {} s2 = move_caps s' zs"
proof -
  let ?t = "is_table s'"
  note iv = move_invD [OF inv]
  have osz: "0 < osize" by (rule iv(3))
  have same: "ie_bits (?t ! k) = ie_bits (t ! k)" "ie_object (?t ! k) = ie_object (t ! k)"
    "ie_request (?t ! k) = ie_request (t ! k)" if "k < osize" for k
    using iv(4) [OF that] old that by simp_all
  have zero_free: "type_of ?t k = 0 \<longleftrightarrow> ie_bits (?t ! k) = 0" if "osize \<le> k" "k < length t1" for k
    using iv(5) [OF that] by (auto simp: IE_BITS_TYPE_def)
  obtain fl where fl: "linked t 0 fl" "distinct fl" "set fl = free_slots {} t"
    using free_okE [OF t(4)] .
  have fl_less: "k < osize" "k \<noteq> 0" if "k \<in> set fl" for k using that fl(3) t(1) by (auto simp: free_slots_def)
  have "linked ?t 0 fl"
    using fl(1) linked_cong [of 0 fl ?t t] same(3) osz fl_less by blast
  then have ch: "free_chain ?t (ie_next (?t ! 0)) fl" by (simp add: linked_free_chain)
  let ?is = "rev [osize..<length t1]"
  have gfs: "length t2 = length ?t \<and>
    (\<forall>k. ie_bits (t2 ! k) = (if k \<in> set ?is \<and> ie_bits (?t ! k) = 0 then IE_BITS_GEN_MASK else ie_bits (?t ! k)) \<and>
      ie_object (t2 ! k) = ie_object (?t ! k) \<and> ie_index (t2 ! k) = ie_index (?t ! k) \<and>
      (k \<in> set ?is \<and> ie_bits (?t ! k) = 0 \<or> ie_request (t2 ! k) = ie_request (?t ! k))) \<and>
    free_chain t2 fi (rev (filter (\<lambda>i. ie_bits (?t ! i) = 0) ?is) @ fl)"
  proof (rule grow_free_spec [OF _ _ ch _ gf])
    show "set fl \<inter> set ?is = {}" using fl_less(1) by fastforce
  qed (use iv(1) in simp_all)
  define T where "T = set_next t2 0 fi"
  have len: "length T = length t1" "length ?t = length t1" using gfs iv(1) by (simp_all add: T_def)
  have z: "0 < length t2" using gfs len(2) t(2) by linarith
  have f: "ie_bits (T ! k) = (if osize \<le> k \<and> k < length t1 \<and> ie_bits (?t ! k) = 0 then IE_BITS_GEN_MASK
      else ie_bits (?t ! k))" "same_hash ?t T"
    "k \<noteq> 0 \<Longrightarrow> \<not> (osize \<le> k \<and> k < length t1 \<and> ie_bits (?t ! k) = 0) \<Longrightarrow> ie_request (T ! k) = ie_request (?t ! k)" for k
    using gfs z by (auto simp: T_def same_hash_def)
  have gm: "IE_BITS_TYPE IE_BITS_GEN_MASK = 0" "IE_BITS_TYPE 0 = 0" "\<not> collides IE_BITS_GEN_MASK" "\<not> collides 0"
    "IE_BITS_GEN IE_BITS_GEN_MASK = IE_BITS_GEN_MASK"
    by (simp_all add: IE_BITS_fields IE_BITS_masks collides_def)
  have f2: "type_of T k = type_of ?t k" "collides (ie_bits (T ! k)) \<longleftrightarrow> collides (ie_bits (?t ! k))"
    "type_of ?t k \<noteq> 0 \<Longrightarrow> ie_bits (T ! k) = ie_bits (?t ! k)"
    "k < osize \<Longrightarrow> ie_bits (T ! k) = ie_bits (t ! k)" for k
    using f(1) [of k] gm same(1) [of k] by auto
  have fs: "free_slots {} T = free_slots {} ?t" "table_sends {} T = table_sends {} ?t"
    by (simp_all add: free_slots_def table_sends_def f2(1) len)
  have obj: "ie_object (T ! k) = ie_object (?t ! k)" for k using f(2) by (simp add: same_hash_def)
  have slots: "k \<in> free_slots {} ?t \<longleftrightarrow>
      k \<in> free_slots {} t \<or> osize \<le> k \<and> k < length t1 \<and> ie_bits (?t ! k) = 0" for k
    using same(1) [of k] zero_free [of k] t(1,2) osz len(2)
    by (cases "k < osize") (auto simp: free_slots_def MACH_PORT_TYPE_NONE_def)
  let ?fl = "rev (filter (\<lambda>i. ie_bits (?t ! i) = 0) ?is) @ fl"
  have flset: "set ?fl = free_slots {} T" "distinct ?fl" "0 \<notin> set ?fl"
  proof -
    show "set ?fl = free_slots {} T" using fl(3) slots unfolding fs by auto
    show "0 \<notin> set ?fl" using fl_less(2) osz by auto
    have "set (filter (\<lambda>i. ie_bits (?t ! i) = 0) ?is) \<inter> set fl = {}" using fl_less(1) by fastforce
    then show "distinct ?fl" using fl(2) by simp
  qed
  have "linked T 0 ?fl"
    using linked_set_next [OF z, of ?fl fi] gfs flset(3) by (simp add: T_def)
  moreover have "ie_bits (T ! k) = gen_of T k \<and> ie_object (T ! k) = IO_NULL" if "k \<in> free_slots {} T" for k
  proof (cases "k < osize")
    case True
    then have "k \<in> free_slots {} t" using that slots fs by auto
    then show ?thesis using t(4) f2(4) [OF True] obj same(2) [OF True] by (simp add: free_ok_def)
  next
    case False
    then have k: "osize \<le> k" "k < length t1" "ie_bits (?t ! k) = 0"
      using that slots [of k] t(1) unfolding fs by (auto simp: free_slots_def)
    then show ?thesis using f(1) gm(5) obj iv(5) [OF k(1,2)] zero_free [OF k(1,2)] by simp
  qed
  ultimately have "free_ok {} T" using flset unfolding free_ok_def by blast
  moreover have "head_ok T" using t(3) f2(4) [OF osz] len t(2) by (auto simp: head_ok_def)
  moreover have "coll_ok {} T zs"
  proof -
    have ix: "k \<in> indices xs \<longleftrightarrow> k \<in> indices zs" if "k < osize" for k
      using that sub unfolding indices_def by blast
    have used: "type_of ?t k \<noteq> 0" if "k \<in> indices zs" "osize \<le> k" "k < length t1" for k
      using iv(7) [OF that(2,3)] that(1) by simp
    have a: "collides (ie_bits (T ! k)) \<longleftrightarrow> k \<in> indices zs" if "k < length t1" for k
      using that iv(6) [of k] t(1,5) ix [of k] f2(2,4) [of k] same(1) [of k]
      by (cases "k < osize") (simp_all add: coll_ok_def)
    have b: "k \<notin> free_slots {} T" if "k \<in> indices zs" for k
      using that used [OF that] slots [of k] ix [of k] t(1,5) gm(2) unfolding fs
      by (cases "k < osize") (auto simp: coll_ok_def free_slots_def)
    have "MACH_PORT_GEN (fst x) \<noteq> gen_of T (MACH_PORT_INDEX (fst x))"
      if x: "x \<in> set zs" "0 < MACH_PORT_INDEX (fst x)" "MACH_PORT_INDEX (fst x) < length t1" for x
    proof (cases "MACH_PORT_INDEX (fst x) < osize")
      case True
      then show ?thesis using x sub(1) t(1,5) f2(4) [OF True] by (auto simp: coll_ok_def)
    next
      case False
      then have "type_of ?t (MACH_PORT_INDEX (fst x)) \<noteq> 0" using x used by (auto simp: indices_def)
      with False show ?thesis using iv(8) [OF x(1)] x(3) f2(3) by simp
    qed
    with a b show ?thesis by (simp add: coll_ok_def len)
  qed
  moreover have "hash_ok sid {} g' T zs" using hash_ok_cong [OF iv(9) f(2)] fs(2) by blast
  moreover have "sizes_ok its s2" using its iv(2) len by (simp add: sizes_ok_def s2_def T_def)
  moreover have s2: "s2 = s'\<lparr>is_table := T\<rparr>" by (simp add: s2_def T_def)
  ultimately show "space_ok its sid {} g' s2"
    using zs small iv(2,10-12) unfolding space_ok_def by (simp add: pending_ok_def)
  have "capability (T ! k) = capability (?t ! k) \<and> gen_of T k = gen_of ?t k" if "0 < k" "k < length T" "k \<notin> free_slots {} T" for k
  proof -
    have "type_of ?t k \<noteq> 0" using that unfolding fs by (auto simp: free_slots_def MACH_PORT_TYPE_NONE_def len)
    then have "ie_bits (T ! k) = ie_bits (?t ! k)" "ie_bits (?t ! k) \<noteq> 0" using f2(3) gm(2) by auto
    then show ?thesis using f(3) that(1) obj by (simp add: capability_def)
  qed
  then show "caps {} s2 = move_caps s' zs"
    unfolding s2 by (auto simp: fun_eq_iff caps_def move_caps_def in_use_def fs len zs(1) Let_def)
qed

section \<open>The growth as a whole\<close>

lemma grow_commit_spec:
  assumes ok: "space_ok its sid {} g s" and its: "entry_sizes its"
    and k: "is_table_size s < its ! k" "Suc k < length its"
  shows "\<exists>g' s'. grow_commit its sid (is_table_size s) k (g, s) = Some (g', s') \<and>
    space_ok its sid {} g' s' \<and> caps {} s' = caps {} s \<and>
    is_table_size s' = its ! k \<and> is_table_next s' = Suc k \<and> is_active s' = is_active s \<and>
    is_growing s' = is_growing s \<and> is_references s' = is_references s"
proof -
  let ?t = "is_table s" and ?xs = "ist_list (is_tree s)" and ?sz = "its ! k" and ?nsz = "its ! Suc k"
  define osize where "osize = is_table_size s"
  note ok' = space_okD [OF ok]
  have sz: "length ?t = osize" "osize < ?sz" using ok'(12) k(1) by (simp_all add: osize_def)
  have nsz: "?sz \<le> ?nsz" "?nsz < 2 ^ 24"
    using entry_sizes.monotone [OF its, of k "Suc k"] entry_sizes.fits [OF its k(2)] k(2) by simp_all
  obtain t1 where r: "grow_rehash [0..<osize] (s\<lparr>is_table := grow_copy osize ?sz ?t, is_table_size := ?sz,
        is_table_next := Suc k\<rparr>) = Some (s\<lparr>is_table := t1, is_table_size := ?sz, is_table_next := Suc k\<rparr>)"
    and t1: "length t1 = ?sz"
    and old: "\<forall>i < osize. ie_bits (t1 ! i) = ie_bits (?t ! i) \<and>
      ie_object (t1 ! i) = ie_object (?t ! i) \<and> ie_request (t1 ! i) = ie_request (?t ! i)"
    and new: "\<forall>i. osize \<le> i \<longrightarrow> i < ?sz \<longrightarrow> ie_bits (t1 ! i) = 0 \<and> ie_object (t1 ! i) = IO_NULL \<and>
      ie_request (t1 ! i) = 0"
    and lh: "lh_ok t1" "entered t1 = table_sends {} ?t"
    by (rule grow_start [OF ok sz]) (rule that)
  define s1 where "s1 = s\<lparr>is_table := t1, is_table_size := ?sz, is_table_next := Suc k\<rparr>"
  let ?ms = "filter (\<lambda>x. osize \<le> MACH_PORT_INDEX (fst x) \<and> MACH_PORT_INDEX (fst x) < length t1) ?xs"
  have st: "move_inv sid t1 osize g s1 ?xs ?ms" "move_caps s1 ?xs = caps {} s"
    using grow_start_inv(1,2) [OF ok sz t1 lh old new, of "Suc k"] by (simp_all add: s1_def)
  have "\<exists>g' s' P. (if is_tree_total s1 > 0 then grow_tree sid osize ?sz ?nsz (g, s1) else Some (g, s1)) = Some (g', s') \<and>
    ist_ok (is_tree s') \<and> ist_list (is_tree s') = filter P ?xs \<and>
    (\<forall>x. MACH_PORT_INDEX (fst x) < osize \<longrightarrow> P x) \<and>
    move_inv sid t1 osize g' s' (filter P ?xs) [] \<and> move_caps s' (filter P ?xs) = caps {} s \<and>
    is_tree_small s' = small_count (length t1) ?nsz (filter P ?xs) \<and> same_header s1 s'"
  proof (cases "is_tree_total s1 > 0")
    case True
    have "ist_ok (is_tree s1)" "ist_list (is_tree s1) = ?xs" using ok'(4) by (simp_all add: s1_def)
    from grow_tree_spec [OF this _ _ nsz(2) st(1)] sz(2) nsz(1) t1 st(2) True show ?thesis by (metis less_imp_le)
  next
    case False
    then have "?xs = []" using ok'(5) by (simp add: s1_def)
    with False st ok'(4,8) show ?thesis
      by (intro exI [of _ g] exI [of _ s1] exI [of _ "\<lambda>x. True"])
        (simp add: s1_def same_header_def small_count_def indices_def)
  qed
  then obtain g' s' P where
    gt: "(if is_tree_total s1 > 0 then grow_tree sid osize ?sz ?nsz (g, s1) else Some (g, s1)) = Some (g', s')"
    and tr: "ist_list (is_tree s') = filter P ?xs" "ist_ok (is_tree s')"
    and P: "\<forall>x. MACH_PORT_INDEX (fst x) < osize \<longrightarrow> P x"
    and inv: "move_inv sid t1 osize g' s' (filter P ?xs) []" "move_caps s' (filter P ?xs) = caps {} s"
    and small: "is_tree_small s' = small_count (length t1) ?nsz (filter P ?xs)" and hd: "same_header s1 s'"
    by blast
  obtain t2 fi where gf: "grow_free (rev [osize..<length t1]) (is_table s') (ie_next (is_table s' ! 0)) = (t2, fi)"
    by fastforce
  have nx: "is_table_next s' = Suc k" "is_table_size s' = ?sz" using hd by (simp_all add: same_header_def s1_def)
  have fin: "space_ok its sid {} g' (s'\<lparr>is_table := set_next t2 0 fi\<rparr>)"
    "caps {} (s'\<lparr>is_table := set_next t2 0 fi\<rparr>) = move_caps s' (filter P ?xs)"
    using grow_finish [OF inv(1) tr old sz(1) _ ok'(2,3,7) _ _ _ _ _ _ gf, of its] P sz(2) t1 nx k(2) small
    by simp_all
  have "grow_commit its sid osize k (g, s) = Some (g', s'\<lparr>is_table := set_next t2 0 fi\<rparr>)"
    unfolding grow_commit_def Let_def prod.case r option.case using gt gf t1
    unfolding s1_def [symmetric] by (simp split: if_splits)
  with fin nx hd inv(2) show ?thesis
    unfolding osize_def [symmetric] by (simp add: same_header_def s1_def)
qed

end
