(* ===== verification/Entry_Alloc.thy ===== *)
theory Entry_Alloc
  imports Entry_Grow_Commit
begin

text \<open>
  Allocation of entries: \<^verbatim>\<open>ipc_entry_grow_table\<close> under a schedule, \<^verbatim>\<open>ipc_entry_alloc\<close>,
  \<^verbatim>\<open>ipc_entry_alloc_name\<close> and the space \<^verbatim>\<open>ipc_space_create\<close> starts with.
\<close>


section \<open>The decision to grow\<close>

lemma grow_search_spec:
  assumes "entry_sizes its" and "0 < k" "k < length its" "psize = its ! (k - 1)"
    and "grow_search its target psize k = (psize', k')"
  shows "k \<le> k' \<and> k' < length its \<and> psize' = its ! (k' - 1) \<and>
    (psize' = its ! k' \<or> target \<le> its ! k')"
  using assms
proof (induction its target psize k rule: grow_search.induct)
  case (1 its target psize k)
  show ?case
  proof (cases "psize \<noteq> its ! k \<and> target > its ! k")
    case True
    then have k: "Suc k < length its"
      using entry_sizes.at_maximum [OF 1(2), of k] 1(3-5) by auto
    have gs: "grow_search its target (its ! k) (Suc k) = (psize', k')"
      using 1(4,6) True by (subst (asm) grow_search.simps) simp
    have "Suc k \<le> k' \<and> k' < length its \<and> psize' = its ! (k' - 1) \<and> (psize' = its ! k' \<or> target \<le> its ! k')"
      by (rule 1(1)) (use 1(2,4) True k gs in simp_all)
    then show ?thesis by linarith
  next
    case False
    with 1(4,6) have "psize' = psize" "k' = k" by (subst (asm) grow_search.simps, auto)+
    with False 1(4,5) show ?thesis by auto
  qed
qed

text \<open>
  A subscript the decision returns is one of a larger size that has a successor in the array:
  the new table fits, and the next size can be read.
\<close>

lemma grow_decide_spec:
  assumes its: "entry_sizes its" and nxt: "0 < nxt" "nxt < length its"
    and d: "grow_decide its target nxt = Inr k"
  shows "nxt \<le> k" and "Suc k < length its" and "its ! (nxt - 1) < its ! k"
    and "target = None \<Longrightarrow> k = nxt"
proof -
  have "nxt \<le> k \<and> k < length its \<and> its ! (k - 1) \<noteq> its ! k \<and> its ! (nxt - 1) \<noteq> its ! k \<and>
    (target = None \<longrightarrow> k = nxt)"
  proof (cases target)
    case None
    with d nxt show ?thesis by (auto simp: grow_decide_def Let_def split: if_splits)
  next
    case (Some tsize)
    obtain psize k' where s: "grow_search its tsize (its ! (nxt - 1)) nxt = (psize, k')" by fastforce
    from grow_search_spec [OF its nxt refl s] d Some s show ?thesis
      by (auto simp: grow_decide_def Let_def split: if_splits)
  qed
  moreover from this have "k \<noteq> length its - 1"
    using entry_sizes.at_maximum [OF its, of k] nxt(1) by auto
  ultimately have k: "nxt \<le> k \<and> Suc k < length its \<and> its ! (nxt - 1) \<noteq> its ! k \<and> (target = None \<longrightarrow> k = nxt)"
    by linarith
  then have "its ! (nxt - 1) \<le> its ! k" using entry_sizes.monotone [OF its, of "nxt - 1" k] by linarith
  with k show "nxt \<le> k" "Suc k < length its" "its ! (nxt - 1) < its ! k" "target = None \<Longrightarrow> k = nxt"
    by simp_all
qed

lemma grow_decide_None:
  assumes "entry_sizes its" and "0 < nxt" "nxt < length its"
  shows "grow_decide its None nxt = (if Suc nxt = length its then Inl KERN_NO_SPACE else Inr nxt)"
  using entry_sizes.at_maximum [OF assms(1), of nxt] assms(2,3) by (auto simp: grow_decide_def)

section \<open>Growing under a schedule\<close>

text \<open>
  What the other threads may do while the lock is released: if the space is still active
  afterwards, its invariant holds; a dead space stays dead; and they do not resize a table
  that is being grown.
\<close>

definition honest :: "nat list \<Rightarrow> space_id \<Rightarrow> unlocked \<Rightarrow> bool" where
  "honest its sid u \<longleftrightarrow>
    (\<forall>g s g' s'. others u (g, s) = (g', s') \<longrightarrow> is_active s' \<longrightarrow>
      is_active s \<and>
      (space_ok its sid {} g s \<longrightarrow> space_ok its sid {} g' s' \<and>
        (is_growing s \<longrightarrow> is_table_size s' = is_table_size s \<and> is_table_next s' = is_table_next s)))"

text \<open>Nobody else runs, and there is memory.\<close>

definition quiet :: "unlocked \<Rightarrow> bool" where
  "quiet u \<longleftrightarrow> got_memory u \<and> (\<forall>w. others u w = w)"

lemma quiet_honest: "quiet u \<Longrightarrow> honest its sid u"
  by (auto simp: quiet_def honest_def)

lemma space_ok_growing [simp]:
  "space_ok its sid P g (s\<lparr>is_growing := b\<rparr>) \<longleftrightarrow> space_ok its sid P g s"
  "caps P (s\<lparr>is_growing := b\<rparr>) = caps P s"
  by (simp_all add: space_ok_def sizes_ok_def pending_ok_def caps_def in_use_def fun_eq_iff Let_def)

text \<open>
  The growth keeps the invariant, whatever the others do, for every target; and a schedule of
  twice the number of sizes is long enough.
\<close>

lemma grow_table_safe:
  assumes its: "entry_sizes its" and "list_all (honest its sid) sched" and "space_ok its sid {} g s" "is_active s"
    and "2 * (length its - is_table_next s) \<le> length sched"
  shows "\<exists>kr sched' g' s'. ipc_entry_grow_table its sid target sched (g, s) = Some (kr, sched', g', s') \<and>
    list_all (honest its sid) sched' \<and> (is_active s' \<longrightarrow> space_ok its sid {} g' s')"
  using assms(2-)
proof (induction "length sched" arbitrary: sched g s rule: less_induct)
  case less
  note ok = space_okD [OF less.prems(2)]
  have nxt: "0 < is_table_next s" "is_table_next s < length its" "is_table_size s = its ! (is_table_next s - 1)"
    using ok(1) by (simp_all add: sizes_ok_def)
  then obtain u v sched2 where sched: "sched = u # v # sched2"
    using less.prems(4) by (cases sched; cases "tl sched") auto
  then have hon: "honest its sid u" "honest its sid v" "list_all (honest its sid) sched2"
    using less.prems(1) by simp_all
  obtain g1 s1 where u: "others u (g, s\<lparr>is_growing := True\<rparr>) = (g1, s1)" by fastforce
  obtain g0 s0 where u0: "others u (g, s) = (g0, s0)" by fastforce
  show ?case
  proof (cases "is_growing s")
    case True
    then have "is_active s0 \<longrightarrow> space_ok its sid {} g0 s0"
      using hon(1) u0 less.prems(2,3) unfolding honest_def by blast
    with True u0 hon sched show ?thesis by (simp add: ipc_entry_grow_table.simps)
  next
    case False
    show ?thesis
    proof (cases "grow_decide its target (is_table_next s)")
      case (Inl kr)
      with False less.prems show ?thesis by (simp add: ipc_entry_grow_table.simps)
    next
      case (Inr k)
      note dec = grow_decide_spec [OF its nxt(1,2) Inr]
      let ?s2 = "s1\<lparr>is_growing := False\<rparr>"
      have s1: "space_ok its sid {} g1 s1 \<and> is_table_size s1 = is_table_size s" if "is_active s1"
      proof -
        have "space_ok its sid {} g1 s1 \<and> is_table_size s1 = is_table_size (s\<lparr>is_growing := True\<rparr>)"
          using hon(1) [unfolded honest_def, rule_format, OF u that] less.prems(2) by simp
        then show ?thesis by simp
      qed
      show ?thesis
      proof (cases "got_memory u \<and> is_active s1")
        case no: False
        obtain gv sv where v: "others v (g1, ?s2) = (gv, sv)" by fastforce
        have "\<not> is_active sv" if "\<not> is_active s1"
          using hon(2) [unfolded honest_def, rule_format, OF v] that by auto
        with no s1 u v Inr False sched hon show ?thesis
          by (cases "got_memory u") (simp_all add: ipc_entry_grow_table.simps)
      next
        case go: True
        have "space_ok its sid {} g1 ?s2" "is_table_size ?s2 < its ! k"
          using s1 go dec(3) nxt(3) by simp_all
        from grow_commit_spec [OF this(1) its this(2) dec(2)] obtain g3 s3 where
          gc: "grow_commit its sid (is_table_size s) k (g1, ?s2) = Some (g3, s3)"
          and s3: "space_ok its sid {} g3 s3" "is_table_next s3 = Suc k"
          using s1 go by auto
        obtain gv sv where v: "others v (g3, s3) = (gv, sv)" by fastforce
        have ok': "is_active sv \<longrightarrow> space_ok its sid {} gv sv"
          using hon(2) [unfolded honest_def, rule_format, OF v] s3(1) by blast
        have step: "ipc_entry_grow_table its sid target sched (g, s) =
          (if \<not> is_active sv \<or> is_table_next sv \<noteq> Suc k then Some (KERN_SUCCESS, sched2, gv, sv)
           else if grow_again its k sv then ipc_entry_grow_table its sid target sched2 (gv, sv)
           else Some (KERN_SUCCESS, sched2, gv, sv))"
          using go u v gc Inr False sched nxt(3)
          by (subst ipc_entry_grow_table.simps) simp
        show ?thesis
        proof (cases "is_active sv \<and> is_table_next sv = Suc k \<and> grow_again its k sv")
          case True
          then have "\<exists>kr sched' g' s'. ipc_entry_grow_table its sid target sched2 (gv, sv) = Some (kr, sched', g', s') \<and>
              list_all (honest its sid) sched' \<and> (is_active s' \<longrightarrow> space_ok its sid {} g' s')"
            using sched hon(3) ok' less.prems(4) dec(1) by (intro less.hyps) auto
          with True step show ?thesis by simp
        next
          case False
          with step ok' hon(3) show ?thesis by auto
        qed
      qed
    qed
  qed
qed

text \<open>
  Without interference the table grows by at least one size, no name is lost, and each size
  takes two releases of the lock.
\<close>

lemma grow_table_quiet:
  assumes its: "entry_sizes its" and "list_all quiet sched" and "space_ok its sid {} g s" "is_active s"
    and "\<not> is_growing s" and "Suc (is_table_next s) < length its"
    and "2 * (length its - 1 - is_table_next s) \<le> length sched"
  shows "\<exists>j g' s'. 0 < j \<and>
    ipc_entry_grow_table its sid None sched (g, s) = Some (KERN_SUCCESS, drop (2 * j) sched, g', s') \<and>
    space_ok its sid {} g' s' \<and> caps {} s' = caps {} s \<and> is_active s' \<and> \<not> is_growing s' \<and>
    is_table_next s' = is_table_next s + j"
  using assms(2-)
proof (induction "length sched" arbitrary: sched g s rule: less_induct)
  case less
  let ?k = "is_table_next s"
  have nxt: "0 < ?k" "?k < length its" "is_table_size s = its ! (?k - 1)"
    using space_okD(1) [OF less.prems(2)] by (simp_all add: sizes_ok_def)
  have d: "grow_decide its None ?k = Inr ?k"
    using grow_decide_None [OF its nxt(1,2)] less.prems(5) by simp
  obtain u v sched2 where sched: "sched = u # v # sched2"
    using less.prems(5,6) by (cases sched; cases "tl sched") auto
  then have q: "got_memory u" "others u (a, b) = (a, b)" "others v (a, b) = (a, b)" "list_all quiet sched2" for a b
    using less.prems(1) by (simp_all add: quiet_def)
  have "space_ok its sid {} g (s\<lparr>is_growing := False\<rparr>)" "is_table_size (s\<lparr>is_growing := False\<rparr>) < its ! ?k"
    using less.prems(2) grow_decide_spec(3) [OF its nxt(1,2) d] nxt(3) by simp_all
  from grow_commit_spec [OF this(1) its this(2) less.prems(5)] obtain g3 s3 where
    gc: "grow_commit its sid (is_table_size s) ?k (g, s\<lparr>is_growing := False\<rparr>) = Some (g3, s3)"
    and s3: "space_ok its sid {} g3 s3" "caps {} s3 = caps {} s" "is_table_next s3 = Suc ?k"
      "is_active s3" "\<not> is_growing s3"
    using less.prems(3) by auto
  have step: "ipc_entry_grow_table its sid None sched (g, s) =
    (if grow_again its ?k s3 then ipc_entry_grow_table its sid None sched2 (g3, s3)
     else Some (KERN_SUCCESS, sched2, g3, s3))"
    using q gc d less.prems(3,4) sched nxt(3) s3(3,4) by (subst ipc_entry_grow_table.simps) simp
  show ?case
  proof (cases "grow_again its ?k s3")
    case False
    with step s3 sched show ?thesis by (intro exI [of _ 1] exI [of _ g3] exI [of _ s3]) simp
  next
    case True
    have more: "Suc (is_table_next s3) < length its"
    proof (rule ccontr)
      assume "\<not> ?thesis"
      then have "its ! ?k = its ! Suc ?k" using entry_sizes.at_maximum [OF its, of "Suc ?k"] s3(3) less.prems(5) by auto
      then have "is_tree_small s3 = 0" using space_okD(8) [OF s3(1)] space_okD(1) [OF s3(1)] s3(3)
        by (simp add: small_count_def sizes_ok_def)
      with True show False by (simp add: grow_again_def)
    qed
    have "\<exists>j g' s'. 0 < j \<and>
      ipc_entry_grow_table its sid None sched2 (g3, s3) = Some (KERN_SUCCESS, drop (2 * j) sched2, g', s') \<and>
      space_ok its sid {} g' s' \<and> caps {} s' = caps {} s3 \<and> is_active s' \<and> \<not> is_growing s' \<and>
      is_table_next s' = is_table_next s3 + j"
      using s3 q(4) more less.prems(6) sched by (intro less.hyps) auto
    then obtain j g' s' where "0 < j"
      "ipc_entry_grow_table its sid None sched2 (g3, s3) = Some (KERN_SUCCESS, drop (2 * j) sched2, g', s')"
      "space_ok its sid {} g' s'" "caps {} s' = caps {} s3" "is_active s'" "\<not> is_growing s'"
      "is_table_next s' = is_table_next s3 + j" by blast
    with True step s3 sched show ?thesis by (intro exI [of _ "Suc j"] exI [of _ g'] exI [of _ s']) simp
  qed
qed

section \<open>Allocating an entry\<close>

definition fresh_entry ::
    "nat list \<Rightarrow> space_id \<Rightarrow> ipc_hash_global \<Rightarrow> ipc_space \<Rightarrow> mach_port_t \<Rightarrow> entry_ref \<Rightarrow>
     (mach_port_t \<rightharpoonup> capability) \<Rightarrow> bool" where
  "fresh_entry its sid g s name r old \<longleftrightarrow>
    old name = None \<and> space_ok its sid {r} g s \<and> caps {r} s = old(name \<mapsto> (0, IO_NULL, 0))"

lemma alloc_quiet:
  assumes its: "entry_sizes its" and "list_all quiet sched" and "space_ok its sid {} g s" "is_active s"
    and "\<not> is_growing s" and "2 * (length its - 1 - is_table_next s) \<le> length sched"
  shows "\<exists>res sched' g' s'. ipc_entry_alloc its sid sched (g, s) = Some (res, sched', g', s') \<and>
    (case res of
       Inl kr \<Rightarrow> kr = KERN_NO_SPACE \<and> Suc (is_table_next s') = length its \<and>
         free_slots {} (is_table s') = {} \<and> space_ok its sid {} g' s' \<and> caps {} s' = caps {} s
     | Inr (name, r) \<Rightarrow> MACH_PORT_VALID name \<and> r = In_table (MACH_PORT_INDEX name) \<and>
         fresh_entry its sid g' s' name r (caps {} s))"
  using assms(2-)
proof (induction "length sched" arbitrary: sched g s rule: less_induct)
  case less
  note get = ipc_entry_get_spec [OF less.prems(2) its]
  show ?case
  proof (cases "ipc_entry_get s")
    case (Inr r)
    with get less.prems(3) show ?thesis
      by (cases r) (auto simp: ipc_entry_alloc.simps fresh_entry_def)
  next
    case (Inl kr)
    with get have full: "free_slots {} (is_table s) = {}" by simp
    have nxt: "0 < is_table_next s" "is_table_next s < length its"
      using space_okD(1) [OF less.prems(2)] by (simp_all add: sizes_ok_def)
    show ?thesis
    proof (cases "Suc (is_table_next s) = length its")
      case True
      then have "ipc_entry_grow_table its sid None sched (g, s) = Some (KERN_NO_SPACE, sched, g, s)"
        using grow_decide_None [OF its nxt] less.prems(4) by (subst ipc_entry_grow_table.simps) simp
      with True Inl full less.prems(2,3) show ?thesis by (subst ipc_entry_alloc.simps) simp
    next
      case False
      then obtain j g' s' where gr: "0 < j"
        "ipc_entry_grow_table its sid None sched (g, s) = Some (KERN_SUCCESS, drop (2 * j) sched, g', s')"
        "space_ok its sid {} g' s'" "caps {} s' = caps {} s" "is_active s'" "\<not> is_growing s'"
        "is_table_next s' = is_table_next s + j"
        using grow_table_quiet [OF its less.prems(1-4) _ less.prems(5)] nxt(2) by auto
      have ne: "sched \<noteq> []" using less.prems(5) False nxt(2) by auto
      have "list_all quiet (drop (2 * j) sched)"
        using less.prems(1) set_drop_subset [of "2 * j" sched] by (auto simp: list_all_iff)
      moreover have "length (drop (2 * j) sched) < length sched" using gr(1) ne by (cases sched) auto
      ultimately have "\<exists>res sched' g'' s''. ipc_entry_alloc its sid (drop (2 * j) sched) (g', s') = Some (res, sched', g'', s'') \<and>
        (case res of
           Inl kr \<Rightarrow> kr = KERN_NO_SPACE \<and> Suc (is_table_next s'') = length its \<and>
             free_slots {} (is_table s'') = {} \<and> space_ok its sid {} g'' s'' \<and> caps {} s'' = caps {} s'
         | Inr (name, r) \<Rightarrow> MACH_PORT_VALID name \<and> r = In_table (MACH_PORT_INDEX name) \<and>
             fresh_entry its sid g'' s'' name r (caps {} s'))"
        using gr less.prems(5) by (intro less.hyps) auto
      moreover have "ipc_entry_alloc its sid sched (g, s) = ipc_entry_alloc its sid (drop (2 * j) sched) (g', s')"
        using Inl gr(1,2) less.prems(3) ne by (subst ipc_entry_alloc.simps) (cases sched, auto)
      ultimately show ?thesis unfolding gr(4) by simp
    qed
  qed
qed

section \<open>Allocating a name\<close>

text \<open>Making the predecessor \<open>p\<close> point past \<open>i\<close> takes \<open>i\<close> out of the list.\<close>

definition unlinks :: "ipc_entry list \<Rightarrow> nat \<Rightarrow> nat \<Rightarrow> nat \<Rightarrow> nat list \<Rightarrow> bool" where
  "unlinks table h p i fl \<longleftrightarrow>
    (\<forall>table'. ie_next (table' ! p) = ie_next (table ! i) \<longrightarrow>
      (\<forall>k. k \<noteq> p \<longrightarrow> k \<noteq> i \<longrightarrow> ie_next (table' ! k) = ie_next (table ! k)) \<longrightarrow>
      linked table' h (remove1 i fl))"

lemma free_pred_spec:
  assumes "linked table h fl" and "distinct (h # fl)" and "i \<in> set fl" and "length fl \<le> fuel"
  shows "\<exists>p. free_pred fuel table i h = Some p \<and> ie_next (table ! p) = i \<and> p \<in> insert h (set fl) \<and> p \<noteq> i \<and>
    unlinks table h p i fl"
  using assms
proof (induction fl arbitrary: h fuel)
  case (Cons j fl)
  obtain fuel' where fuel: "fuel = Suc fuel'" "length fl \<le> fuel'" using Cons.prems(4) by (cases fuel) auto
  show ?case
  proof (cases "j = i")
    case True
    have "linked table' h fl" if "ie_next (table' ! h) = ie_next (table ! i)"
      "\<forall>k. k \<noteq> h \<longrightarrow> k \<noteq> i \<longrightarrow> ie_next (table' ! k) = ie_next (table ! k)" for table'
    proof (rule linked_from [of table i fl])
      show "linked table i fl" using Cons.prems(1) True by simp
      show "ie_next (table' ! k) = ie_next (table ! k)" if "k \<in> set fl" for k
        using that Cons.prems(2) True \<open>\<forall>k. k \<noteq> h \<longrightarrow> k \<noteq> i \<longrightarrow> ie_next (table' ! k) = ie_next (table ! k)\<close> by auto
    qed (rule that(1))
    with True Cons.prems(1,2) fuel(1) show ?thesis by (intro exI [of _ h]) (auto simp: unlinks_def)
  next
    case False
    have "\<exists>p. free_pred fuel' table i j = Some p \<and> ie_next (table ! p) = i \<and> p \<in> insert j (set fl) \<and> p \<noteq> i \<and>
      unlinks table j p i fl"
      using Cons.prems False fuel(2) by (intro Cons.IH) auto
    then obtain p where p: "free_pred fuel' table i j = Some p" "ie_next (table ! p) = i" "p \<in> insert j (set fl)" "p \<noteq> i"
      "unlinks table j p i fl"
      by blast
    have "h \<noteq> p" "h \<noteq> i" using p(3) Cons.prems(2,3) by auto
    with p False Cons.prems(1) fuel(1) show ?thesis by (intro exI [of _ p]) (auto simp: unlinks_def)
  qed
qed simp

text \<open>A free slot is taken out of the middle of the free list.\<close>

lemma alloc_name_table_ok:
  assumes ok: "space_ok its sid {} g s" and i: "MACH_PORT_INDEX name \<in> free_slots {} (is_table s)"
  shows "\<exists>s'. alloc_name_table s (MACH_PORT_INDEX name) (MACH_PORT_GEN name) = Some s' \<and>
    fresh_entry its sid g s' name (In_table (MACH_PORT_INDEX name)) (caps {} s)"
proof -
  let ?t = "is_table s" and ?i = "MACH_PORT_INDEX name" and ?gen = "MACH_PORT_GEN name"
  note ok' = space_okD [OF ok]
  obtain fl where fl: "linked ?t 0 fl" "distinct fl" "set fl = free_slots {} ?t" using free_okE [OF ok'(3)] .
  have i0: "0 < ?i" "?i < length ?t" using i by (simp_all add: free_slots_def)
  have z: "0 < length ?t" using i0 by linarith
  have "set (0 # fl) \<subseteq> {..<length ?t}" "distinct (0 # fl)"
    using fl(2) z unfolding list.set distinct.simps fl(3) by (auto simp: free_slots_def)
  then have "length (0 # fl) \<le> length ?t"
    using card_mono [of "{..<length ?t}" "set (0 # fl)"] distinct_card [of "0 # fl"] by simp
  then have le: "length fl \<le> length ?t" by simp
  have "?i \<in> set fl" using i fl(3) by simp
  from free_pred_spec [OF fl(1) \<open>distinct (0 # fl)\<close> this le]
  obtain p where p: "free_pred (length ?t) ?t ?i 0 = Some p" "p \<in> insert 0 (set fl)" "p \<noteq> ?i"
    and lk: "unlinks ?t 0 p ?i fl"
    by blast
  let ?t1 = "set_next ?t p (ie_next (?t ! ?i))"
  let ?t2 = "set_next (set_bits ?t1 ?i ?gen) ?i 0"
  have pl: "p < length ?t" using p(2) z unfolding fl(3) by (auto simp: free_slots_def)
  have res: "alloc_name_table s ?i ?gen = Some (s\<lparr>is_table := ?t2\<rparr>)"
    using p(1) ok'(12) by (simp add: alloc_name_table_def Let_def)
  have t: "taken {} ?t ?i ?gen ?t2"
    using i0 pl p(2) fl(3) i unfolding taken_def by (auto simp: same_hash_def)
  have l: "linked ?t2 0 (remove1 ?i fl)" using i0 pl p(3) by (intro lk [unfolded unlinks_def, rule_format]) auto
  have d: "distinct (remove1 ?i fl)" "set (remove1 ?i fl) = free_slots {} ?t - {?i}"
    using fl(2,3) by (simp_all add: set_remove1_eq)
  have g: "?gen = IE_BITS_GEN ?gen" by (simp add: entry_simps)
  show ?thesis
    using res taken_ok [OF ok i t g l d] taken_caps [OF ok i t g refl refl] by (simp add: fresh_entry_def)
qed

text \<open>A new name of the tree.\<close>

lemma insert_list:
  fixes e :: ipc_entry
  assumes "ist_ok tree" and "map_of (ist_list tree) name = None"
  defines "xs \<equiv> ist_list tree" and "xs' \<equiv> ist_list (ipc_splay_tree_insert tree name e)"
  shows "set xs' = insert (name, e) (set xs)" and "length xs' = Suc (length xs)"
    and "map_of xs' = (map_of xs)(name \<mapsto> e)" and "ist_ok (ipc_splay_tree_insert tree name e)"
proof -
  have cut: "filter (\<lambda>x. fst x < name) xs @ filter (\<lambda>x. name < fst x) xs = xs"
    using ascending_cut [OF ist_ok_ascending [OF assms(1)] assms(2)] by (simp add: xs_def)
  note ins = insert_spec [OF assms(1,2), of e, folded xs_def xs'_def]
  let ?A = "filter (\<lambda>x. fst x < name) xs" and ?B = "filter (\<lambda>x. name < fst x) xs"
  show "set xs' = insert (name, e) (set xs)" "length xs' = Suc (length xs)"
    using arg_cong [OF cut, of set] arg_cong [OF cut, of length] unfolding ins(1) by auto
  show ok: "ist_ok (ipc_splay_tree_insert tree name e)" using insert_spec(2) [OF assms(1,2)] .
  have "map_of xs' m = ((map_of xs)(name \<mapsto> e)) m" for m
    using splay.lookup_insert [OF assms(1,2), of e m] lookup_spec(1) [OF ok surjective_pairing, of m]
      lookup_spec(1) [OF assms(1) surjective_pairing, of m] by (simp add: xs_def xs'_def)
  then show "map_of xs' = (map_of xs)(name \<mapsto> e)" by (rule ext)
qed

lemma alloc_name_tree_result:
  assumes ok: "space_ok its sid {} g s" and new: "map_of (ist_list (is_tree s)) name = None"
  defines "i \<equiv> MACH_PORT_INDEX name" and "xs \<equiv> ist_list (is_tree s)"
  obtains tree where "ist_ok tree" and "ist_list tree = xs"
    and "alloc_name_tree its s name = s\<lparr>is_tree := ipc_splay_tree_insert tree name entry_zero,
      is_tree_total := is_tree_total s + 1,
      is_table := (if i < is_table_size s
        then set_bits (is_table s) i (ie_bits (is_table s ! i) OR IE_BITS_COLLISION) else is_table s),
      is_tree_small := (if is_table_size s \<le> i \<and> i < its ! is_table_next s \<and> i \<notin> indices xs
        then is_tree_small s + 1 else is_tree_small s)\<rparr>"
proof -
  note ok' = space_okD [OF ok]
  let ?s1 = "s\<lparr>is_tree_total := is_tree_total s + 1\<rparr>"
  obtain tree where c: "ipc_entry_tree_collision ?s1 name = (i \<in> indices xs, ?s1\<lparr>is_tree := tree\<rparr>)"
    "ist_list tree = xs" "ist_ok tree"
    using tree_collision_spec [of ?s1 "{}" name] ok'(4,6) unfolding i_def xs_def by auto
  show thesis
  proof (cases "is_table_size s \<le> i \<and> i < its ! is_table_next s")
    case True
    then show thesis using that [OF c(3,2)] c(1)
      by (cases "i \<in> indices xs") (simp_all add: alloc_name_tree_def i_def [symmetric] Let_def)
  next
    case False
    then show thesis using that [OF ok'(4)] by (auto simp: alloc_name_tree_def i_def [symmetric] Let_def xs_def)
  qed
qed

lemma alloc_name_tree_ok:
  assumes ok: "space_ok its sid {} g s" and valid: "MACH_PORT_VALID name"
    and new: "map_of (ist_list (is_tree s)) name = None"
    and used: "0 < MACH_PORT_INDEX name \<Longrightarrow> MACH_PORT_INDEX name < length (is_table s) \<Longrightarrow>
      type_of (is_table s) (MACH_PORT_INDEX name) \<noteq> 0 \<and>
      gen_of (is_table s) (MACH_PORT_INDEX name) \<noteq> MACH_PORT_GEN name"
  shows "fresh_entry its sid g (alloc_name_tree its s name) name (In_tree name) (caps {} s)"
proof -
  let ?t = "is_table s" and ?xs = "ist_list (is_tree s)" and ?P = "{In_tree name}"
  define i where "i = MACH_PORT_INDEX name"
  note ok' = space_okD [OF ok]
  obtain tree where tree: "ist_ok tree" "ist_list tree = ?xs"
    and res: "alloc_name_tree its s name = s\<lparr>is_tree := ipc_splay_tree_insert tree name entry_zero,
      is_tree_total := is_tree_total s + 1,
      is_table := (if i < is_table_size s
        then set_bits ?t i (ie_bits (?t ! i) OR IE_BITS_COLLISION) else ?t),
      is_tree_small := (if is_table_size s \<le> i \<and> i < its ! is_table_next s \<and> i \<notin> indices ?xs
        then is_tree_small s + 1 else is_tree_small s)\<rparr>"
    by (rule alloc_name_tree_result [OF ok new, folded i_def]) (rule that)
  define xs' where "xs' = ist_list (ipc_splay_tree_insert tree name entry_zero)"
  define t' where "t' = (if i < is_table_size s
    then set_bits ?t i (ie_bits (?t ! i) OR IE_BITS_COLLISION) else ?t)"
  note ins = insert_list [OF tree(1), unfolded tree(2), OF new, of entry_zero, folded xs'_def]
  have ix: "indices xs' = insert i (indices ?xs)" using ins(1) by (simp add: indices_def i_def)
  have f: "length t' = length ?t" "type_of t' k = type_of ?t k" "gen_of t' k = gen_of ?t k"
    "ie_request (t' ! k) = ie_request (?t ! k)" "ie_object (t' ! k) = ie_object (?t ! k)"
    "capability (t' ! k) = capability (?t ! k)" "k \<noteq> i \<Longrightarrow> ie_bits (t' ! k) = ie_bits (?t ! k)"
    "i < length ?t \<Longrightarrow> ie_bits (t' ! i) = ie_bits (?t ! i) OR IE_BITS_COLLISION" for k
    using ok'(12) by (auto simp: t'_def capability_def entry_simps)
  have fs: "free_slots ?P t' = free_slots {} ?t" "table_sends ?P t' = table_sends {} ?t"
    "free_slots {} t' = free_slots {} ?t"
    by (simp_all add: free_slots_def table_sends_def f)
  have ni: "i \<notin> free_slots {} ?t"
    using used by (auto simp: free_slots_def i_def MACH_PORT_TYPE_NONE_def)
  have fresh: "fst x \<noteq> name" if "x \<in> set ?xs" for x
    using that new by (auto simp: map_of_eq_None_iff)
  have "free_ok ?P t'"
    using ok'(3) ni linked_cong [of 0 _ t' ?t] f(4,5,7) unfolding free_ok_def fs by (metis (no_types, lifting) f(3))
  moreover have "head_ok t'"
  proof (cases "i = 0")
    case True
    have "0 < length ?t" using ok'(2) by (simp add: head_ok_def)
    with True ok'(2) f(1,8) show ?thesis
      by (auto simp: head_ok_def entry_simps bit.conj_disj_distrib2)
  next
    case False
    with ok'(2) f(1) f(7) [of 0] show ?thesis by (auto simp: head_ok_def)
  qed
  moreover have "coll_ok ?P t' xs'"
    unfolding coll_ok_def fs f(1)
  proof (intro conjI allI ballI impI)
    fix k assume "k < length ?t"
    then show "collides (ie_bits (t' ! k)) \<longleftrightarrow> k \<in> indices xs'"
      using ok'(7) ix f(7) [of k] f(8) by (cases "k = i") (simp_all add: coll_ok_def entry_simps)
  next
    fix k assume "k \<in> indices xs'"
    then show "k \<notin> free_slots {} ?t" using ok'(7) ni ix by (auto simp: coll_ok_def)
  next
    fix x assume "x \<in> set xs'" "0 < MACH_PORT_INDEX (fst x)" "MACH_PORT_INDEX (fst x) < length ?t"
    then show "MACH_PORT_GEN (fst x) \<noteq> gen_of t' (MACH_PORT_INDEX (fst x))"
      using ok'(7) used ins(1) f(3) by (auto simp: coll_ok_def)
  qed
  moreover have "tree_ok ?P xs'"
    using ok'(6) valid ins(1) by (auto simp: tree_ok_def entry_zero_def)
  moreover have sends: "tree_sends ?P xs' = tree_sends {} ?xs"
    using ins(1) fresh by (auto simp: tree_sends_def)
  moreover have "same_hash ?t t'" by (simp add: t'_def)
  then have "hash_ok sid ?P g t' xs'" using hash_ok_cong [OF ok'(10)] fs(2) sends by blast
  moreover have "(if is_table_size s \<le> i \<and> i < its ! is_table_next s \<and> i \<notin> indices ?xs
        then is_tree_small s + 1 else is_tree_small s) =
      small_count (is_table_size s) (its ! is_table_next s) xs'"
    using ok'(8) unfolding small_count_def ix by (auto simp: Int_insert_left insert_absorb)
  moreover have "(name, entry_zero) \<in> set xs'" "ie_object entry_zero = IO_NULL"
    using ins(1) by (simp_all add: entry_zero_def)
  ultimately have "space_ok its sid ?P g (alloc_name_tree its s name)"
    using ok' ins f(1) unfolding res t'_def [symmetric] space_ok_def
    by (auto simp: sizes_ok_def pending_ok_def xs'_def [symmetric])
  moreover have "caps {} s name = None"
    using new used by (auto simp: caps_def in_use_def Let_def)
  moreover have "caps ?P (alloc_name_tree its s name) m = ((caps {} s)(name \<mapsto> (0, IO_NULL, 0))) m" for m
  proof (cases "m = name")
    case True
    have "capability entry_zero = (0, IO_NULL, 0)" by (simp add: capability_def entry_zero_def)
    with True used ins(3) show ?thesis unfolding res t'_def [symmetric]
      by (auto simp: caps_def in_use_def f fs xs'_def [symmetric] i_def Let_def)
  next
    case False
    then have "caps ?P (alloc_name_tree its s name) m = caps {} s m"
      unfolding res t'_def [symmetric]
      by (intro caps_eqI) (simp_all add: in_use_def f fs xs'_def [symmetric] ins(3))
    with False show ?thesis by simp
  qed
  ultimately show ?thesis by (simp add: fresh_entry_def fun_eq_iff)
qed

text \<open>An entry that is there already.\<close>

definition existing_entry ::
    "nat list \<Rightarrow> space_id \<Rightarrow> ipc_hash_global \<Rightarrow> ipc_space \<Rightarrow> mach_port_t \<Rightarrow> entry_ref \<Rightarrow>
     (mach_port_t \<rightharpoonup> capability) \<Rightarrow> bool" where
  "existing_entry its sid g s name r old \<longleftrightarrow>
    space_ok its sid {} g s \<and> caps {} s = old \<and>
    (\<exists>e. entry_at s r = Some e \<and> old name = Some (capability e))"

text \<open>The state in which a round gives up the lock: as before, but for the splayed tree.\<close>

definition round_pause ::
    "nat list \<Rightarrow> space_id \<Rightarrow> ipc_hash_global \<Rightarrow> ipc_space \<Rightarrow> ipc_space \<Rightarrow> bool" where
  "round_pause its sid g s s' \<longleftrightarrow>
    space_ok its sid {} g s' \<and> caps {} s' = caps {} s \<and> same_header s s'"

lemma alloc_name_round_spec:
  assumes ok: "space_ok its sid {} g s" and its: "entry_sizes its" and valid: "MACH_PORT_VALID name"
  shows "\<exists>round. alloc_name_round its have s name = Some round \<and>
    (case round of
       Round_found r s' \<Rightarrow>
         existing_entry its sid g s' name r (caps {} s) \<or> fresh_entry its sid g s' name r (caps {} s)
     | Round_grow s' \<Rightarrow> round_pause its sid g s s' \<and> Suc (is_table_next s) < length its
     | Round_need_memory s' \<Rightarrow> \<not> have \<and> round_pause its sid g s s')"
proof -
  let ?t = "is_table s" and ?xs = "ist_list (is_tree s)" and ?i = "MACH_PORT_INDEX name"
  note ok' = space_okD [OF ok]
  show ?thesis
  proof (cases "0 < ?i \<and> ?i < length ?t \<and> (type_of ?t ?i = 0 \<or> gen_of ?t ?i = MACH_PORT_GEN name)")
    case True
    show ?thesis
    proof (cases "type_of ?t ?i = 0")
      case free: True
      then have "?i \<in> free_slots {} ?t" using True by (simp add: free_slots_def MACH_PORT_TYPE_NONE_def)
      from alloc_name_table_ok [OF ok this] True free show ?thesis
        by (auto simp: alloc_name_round_def Let_def ok'(12))
    next
      case False
      then have "caps {} s name = Some (capability (?t ! ?i))"
        using True by (simp add: caps_def in_use_def free_slots_def MACH_PORT_TYPE_NONE_def)
      with True False ok show ?thesis
        by (simp add: alloc_name_round_def Let_def ok'(12) existing_entry_def entry_at_def)
    qed
  next
    case False
    then have used: "0 < ?i \<Longrightarrow> ?i < length ?t \<Longrightarrow> type_of ?t ?i \<noteq> 0 \<and> gen_of ?t ?i \<noteq> MACH_PORT_GEN name" by auto
    then have cn: "caps {} s name = map_option capability (map_of ?xs name)"
      by (auto simp: caps_def in_use_def Let_def)
    define found where "found = (if is_tree_total s > 0 then tree_lookup s name else (None, s))"
    have "\<exists>tree. found = (map_option (\<lambda>_. In_tree name) (map_of ?xs name), s\<lparr>is_tree := tree\<rparr>) \<and>
      ist_list tree = ?xs \<and> ist_ok tree"
    proof (cases "is_tree_total s > 0")
      case True
      then show ?thesis using tree_lookup_spec [OF ok'(4), of name] by (auto simp: found_def)
    next
      case False
      then have "?xs = []" using ok'(5) by simp
      then show ?thesis using False ok'(4) by (intro exI [of _ "is_tree s"]) (simp add: found_def)
    qed
    then obtain tree where fd: "found = (map_option (\<lambda>_. In_tree name) (map_of ?xs name), s\<lparr>is_tree := tree\<rparr>)"
      and tree: "ist_list tree = ?xs" "ist_ok tree" by blast
    let ?s = "s\<lparr>is_tree := tree\<rparr>"
    note spl = space_ok_splay [OF ok tree]
    have round: "alloc_name_round its have s name = Some
      (case map_of ?xs name of
         Some e \<Rightarrow> Round_found (In_tree name) ?s
       | None \<Rightarrow>
           if alloc_name_grow its ?s ?i then Round_grow ?s
           else if have then Round_found (In_tree name) (alloc_name_tree its ?s name)
           else Round_need_memory ?s)"
      using False fd unfolding alloc_name_round_def found_def [symmetric] Let_def
      by (auto simp: ok'(12) split: option.splits)
    have pause: "round_pause its sid g s ?s"
      using spl by (simp add: round_pause_def same_header_def)
    show ?thesis
    proof (cases "map_of ?xs name")
      case (Some e)
      with round spl cn tree(1) show ?thesis by (simp add: existing_entry_def entry_at_def)
    next
      case None
      have "fresh_entry its sid g (alloc_name_tree its ?s name) name (In_tree name) (caps {} ?s)"
        using None used tree(1) by (intro alloc_name_tree_ok [OF spl(1) valid]) simp_all
      moreover have "Suc (is_table_next s) < length its" if "alloc_name_grow its ?s ?i"
      proof -
        have "its ! (is_table_next s - 1) < its ! is_table_next s" "0 < is_table_next s" "is_table_next s < length its"
          using that ok'(1) by (auto simp: alloc_name_grow_def sizes_ok_def)
        then show ?thesis using entry_sizes.at_maximum [OF its, of "is_table_next s"] by auto
      qed
      ultimately show ?thesis using None round pause spl(2) by simp
    qed
  qed
qed

lemma alloc_name_quiet:
  assumes its: "entry_sizes its" and valid: "MACH_PORT_VALID name" and "list_all quiet sched"
    and "space_ok its sid {} g s" "is_active s" "\<not> is_growing s"
    and "2 * (length its - 1 - is_table_next s) + (if have then 0 else 1) \<le> length sched"
  shows "\<exists>r sched' g' s'. ipc_entry_alloc_name its sid have sched (g, s) name = Some (Inr r, sched', g', s') \<and>
    (existing_entry its sid g' s' name r (caps {} s) \<or> fresh_entry its sid g' s' name r (caps {} s))"
  using assms(3-)
proof (induction "length sched" arbitrary: sched g s "have" rule: less_induct)
  case less
  obtain round where r: "alloc_name_round its have s name = Some round"
    and spec: "case round of
       Round_found r s' \<Rightarrow>
         existing_entry its sid g s' name r (caps {} s) \<or> fresh_entry its sid g s' name r (caps {} s)
     | Round_grow s' \<Rightarrow> round_pause its sid g s s' \<and> Suc (is_table_next s) < length its
     | Round_need_memory s' \<Rightarrow> \<not> have \<and> round_pause its sid g s s'"
    using alloc_name_round_spec [OF less.prems(2) its valid, of "have"] by blast
  show ?case
  proof (cases round)
    case (Round_found e s1)
    with r spec less.prems(3) show ?thesis by (subst ipc_entry_alloc_name.simps) simp
  next
    case (Round_grow s1)
    then have p: "space_ok its sid {} g s1" "caps {} s1 = caps {} s" "is_active s1" "\<not> is_growing s1"
      "is_table_next s1 = is_table_next s" "Suc (is_table_next s1) < length its"
      using spec less.prems(3,4) by (auto simp: round_pause_def same_header_def)
    then obtain j g' s' where gr: "0 < j"
      "ipc_entry_grow_table its sid None sched (g, s1) = Some (KERN_SUCCESS, drop (2 * j) sched, g', s')"
      "space_ok its sid {} g' s'" "caps {} s' = caps {} s1" "is_active s'" "\<not> is_growing s'"
      "is_table_next s' = is_table_next s1 + j"
      using grow_table_quiet [OF its less.prems(1) p(1,3,4,6)] less.prems(5) by auto
    have ne: "sched \<noteq> []" using less.prems(5) p(5,6) by auto
    have "list_all quiet (drop (2 * j) sched)"
      using less.prems(1) set_drop_subset [of "2 * j" sched] by (auto simp: list_all_iff)
    moreover have "is_table_next s + j < length its"
      using space_okD(1) [OF gr(3)] gr(7) p(5) by (simp add: sizes_ok_def)
    then have "2 * (length its - 1 - is_table_next s') + (if have then 0 else 1) \<le> length (drop (2 * j) sched)"
      using less.prems(5) gr(7) p(5) by (cases "have") simp_all
    moreover have "length (drop (2 * j) sched) < length sched" using gr(1) ne by (cases sched) simp_all
    ultimately have "\<exists>r sched' g'' s''. ipc_entry_alloc_name its sid have (drop (2 * j) sched) (g', s') name =
        Some (Inr r, sched', g'', s'') \<and>
      (existing_entry its sid g'' s'' name r (caps {} s') \<or> fresh_entry its sid g'' s'' name r (caps {} s'))"
      using gr(3,5,6) by (intro less.hyps)
    moreover have "ipc_entry_alloc_name its sid have sched (g, s) name =
        ipc_entry_alloc_name its sid have (drop (2 * j) sched) (g', s') name"
      using r Round_grow gr(1,2) less.prems(3) ne by (subst ipc_entry_alloc_name.simps) (cases sched, auto)
    ultimately show ?thesis using gr(4) p(2) by simp
  next
    case (Round_need_memory s1)
    then have p: "space_ok its sid {} g s1" "caps {} s1 = caps {} s" "is_active s1" "\<not> is_growing s1"
      "is_table_next s1 = is_table_next s" "\<not> have"
      using spec less.prems(3,4) by (auto simp: round_pause_def same_header_def)
    then obtain u sched2 where sched: "sched = u # sched2" using less.prems(5) by (cases sched) auto
    then have q: "got_memory u" "others u (g, s1) = (g, s1)" "list_all quiet sched2"
      using less.prems(1) by (simp_all add: quiet_def)
    have "\<exists>r sched' g' s'. ipc_entry_alloc_name its sid True sched2 (g, s1) name = Some (Inr r, sched', g', s') \<and>
      (existing_entry its sid g' s' name r (caps {} s1) \<or> fresh_entry its sid g' s' name r (caps {} s1))"
      using p q sched less.prems(5) by (intro less.hyps) auto
    moreover have "ipc_entry_alloc_name its sid have sched (g, s) name = ipc_entry_alloc_name its sid True sched2 (g, s1) name"
      using r Round_need_memory q sched less.prems(3) by (subst ipc_entry_alloc_name.simps) simp
    ultimately show ?thesis using p(2) by simp
  qed
qed

section \<open>A new space\<close>

lemma initial_table_length [simp]: "length (initial_table n) = n"
  by (simp add: initial_table_def set_next_def)

lemma initial_table_nth:
  assumes "k < n"
  shows "initial_table n ! k =
    entry_zero\<lparr>ie_bits := IE_BITS_GEN_MASK, ie_request := if k = n - 1 then 0 else k + 1\<rparr>"
  using assms by (auto simp: initial_table_def set_next_def nth_list_update)

lemma initial_table_linked:
  assumes "k < n"
  shows "linked (initial_table n) k [Suc k..<n]"
  using assms
proof (induction "n - k" arbitrary: k)
  case (Suc d)
  show ?case
  proof (cases "Suc k = n")
    case True
    with Suc.prems show ?thesis by (simp add: initial_table_nth)
  next
    case False
    with Suc have "linked (initial_table n) (Suc k) [Suc (Suc k)..<n]" by simp
    with False Suc.prems show ?thesis by (simp add: upt_rec [of "Suc k"] initial_table_nth)
  qed
qed simp

lemma gen_mask_fields:
  "IE_BITS_TYPE IE_BITS_GEN_MASK = 0" "IE_BITS_GEN IE_BITS_GEN_MASK = IE_BITS_GEN_MASK"
  "\<not> collides IE_BITS_GEN_MASK"
  by (simp_all add: IE_BITS_fields IE_BITS_masks collides_def)

lemma initial_table_fields:
  assumes "k < n"
  shows "ie_bits (initial_table n ! k) = IE_BITS_GEN_MASK" "ie_object (initial_table n ! k) = IO_NULL"
    "ie_index (initial_table n ! k) = 0"
  using assms by (simp_all add: initial_table_nth entry_zero_def)

lemma initial_table_Nil [simp]: "initial_table n = [] \<longleftrightarrow> n = 0"
  by (simp flip: length_0_conv)

lemma initial_free_slots: "free_slots {} (initial_table n) = {1..<n}"
  by (auto simp: free_slots_def initial_table_fields gen_mask_fields MACH_PORT_TYPE_NONE_def)

lemma initial_free_ok: "0 < n \<Longrightarrow> free_ok {} (initial_table n)"
  using initial_table_linked [of 0 n] unfolding free_ok_def initial_free_slots
  by (intro conjI exI [of _ "[1..<n]"]) (auto simp: initial_table_fields gen_mask_fields)

lemma initial_hash_ok:
  assumes "0 < n" and "gh_ok g" and "\<forall>obj. gh_map g (sid, obj) = None"
  shows "hash_ok sid {} g (initial_table n) []"
proof -
  have slot: "slot (initial_table n) h = 0" if "h < n" for h
    using that by (simp add: slot_def initial_table_fields gen_mask_fields)
  have "lh_ok (initial_table n)"
    using assms(1) by (intro lh_okI) (auto simp: slot lh_chain_def)
  moreover have "entered (initial_table n) = {}" by (auto simp: entered_def slot)
  moreover have "table_sends {} (initial_table n) = {}"
    by (auto simp: table_sends_def initial_table_fields gen_mask_fields MACH_PORT_TYPE_SEND_def)
  ultimately show ?thesis using assms(2,3) by (simp add: hash_ok_def tree_sends_def)
qed

lemma space_create_spec:
  assumes its: "entry_sizes its" and i: "Suc initial < length its" and gh: "gh_ok g"
    and none: "\<forall>obj. gh_map g (sid, obj) = None"
    and c: "ipc_space_create its initial True True tree = Inr s"
  shows "space_ok its sid {} g s" and "caps {} s = Map.empty" and "is_active s" "\<not> is_growing s"
    and "is_table_next s = Suc initial"
proof -
  let ?n = "its ! initial"
  have n: "0 < ?n" using entry_sizes.positive [OF its, of initial] i by simp
  have s: "is_table s = initial_table ?n" "is_table_size s = ?n" "is_table_next s = Suc initial"
    "ist_list (is_tree s) = []" "ist_ok (is_tree s)" "is_tree_total s = 0" "is_tree_small s = 0"
    "is_tree_hash s = 0" "is_active s" "\<not> is_growing s"
    using c by (auto simp: ipc_space_create_def Let_def ipc_splay_tree_init_def ist_ok_def ist_list_def)
  have "head_ok (initial_table ?n)"
    using n by (simp add: head_ok_def initial_table_fields gen_mask_fields entry_simps)
  then show "space_ok its sid {} g s"
    using i n initial_free_ok [OF n] initial_hash_ok [OF n gh none]
    by (simp add: space_ok_def sizes_ok_def s pending_ok_def tree_ok_def small_count_def tree_sends_def
        coll_ok_def indices_def initial_table_fields gen_mask_fields)
  show "caps {} s = Map.empty"
    by (auto simp: caps_def s in_use_def initial_free_slots fun_eq_iff Let_def)
  show "is_active s" "\<not> is_growing s" "is_table_next s = Suc initial" by (simp_all add: s)
qed

end
