(* ===== verification/Ipc_Marequest.thy ===== *)
theory Ipc_Marequest
  imports Reverse_Hash
begin

text \<open>
  The table of msg-accepted requests, \<^verbatim>\<open>src/kernel/ipc/ipc_marequest.c\<close>: a hash table with the key
  space and name, of requests that the messages refer to by their addresses.  This theory
  has the table and the operations on it; \<^verbatim>\<open>ipc_marequest_create\<close> and \<^verbatim>\<open>ipc_marequest_destroy\<close>,
  which also change entries, are with the rights.
\<close>

section \<open>The table\<close>

record ipc_marequest =
  imar_space :: space_id
  imar_name :: mach_port_t
  imar_soright :: ipc_object_t

text \<open>\<open>imar_at\<close> is the memory of the requests; a bucket is the list of addresses linked through \<^verbatim>\<open>imar_next\<close>.\<close>

record ipc_marequests =
  ipc_marequest_size :: "32 word"
  ipc_marequest_mask :: "32 word"
  ipc_marequest_table :: "32 word list list"
  imar_at :: "32 word \<Rightarrow> ipc_marequest"

definition MACH_PORT_NGEN :: "mach_port_t \<Rightarrow> 32 word" where
  "MACH_PORT_NGEN name = MACH_PORT_MAKE 0 (MACH_PORT_GEN name)"

definition IMAR_HASH :: "ipc_marequests \<Rightarrow> space_id \<Rightarrow> mach_port_t \<Rightarrow> nat" where
  "IMAR_HASH m space name =
    unat ((drop_bit 4 space + word_of_nat (MACH_PORT_INDEX name) + MACH_PORT_NGEN name)
      AND ipc_marequest_mask m)"

definition ipc_marequest_init :: "32 word \<Rightarrow> 32 word \<Rightarrow> (32 word \<Rightarrow> ipc_marequest) \<Rightarrow> ipc_marequests option" where
  "ipc_marequest_init size0 ipc_marequest_max memory =
    (let size1 = (if size0 = 0
                  then (let s = drop_bit 8 ipc_marequest_max in if s < 16 then 16 else s)
                  else size0);
         mask1 = size1 - 1
     in map_option
          (\<lambda>(sz, mk). \<lparr>ipc_marequest_size = sz, ipc_marequest_mask = mk,
                         ipc_marequest_table = replicate (unat sz) [], imar_at = memory\<rparr>)
          (if size1 AND mask1 \<noteq> 0 then round_up_loop 33 1 mask1 else Some (size1, mask1)))"

text \<open>The search of a bucket, and the bucket without the request that was found.\<close>

fun imar_search ::
    "(32 word \<Rightarrow> ipc_marequest) \<Rightarrow> space_id \<Rightarrow> mach_port_t \<Rightarrow> 32 word list \<Rightarrow> (32 word \<times> 32 word list) option"
where
  "imar_search mem space name [] = None"
| "imar_search mem space name (this # rest) =
    (if imar_space (mem this) = space \<and> imar_name (mem this) = name then Some (this, rest)
     else map_option (\<lambda>(found, rest'). (found, this # rest')) (imar_search mem space name rest))"

definition set_imarb :: "ipc_marequests \<Rightarrow> nat \<Rightarrow> 32 word list \<Rightarrow> ipc_marequests" where
  "set_imarb m i b = m\<lparr>ipc_marequest_table := (ipc_marequest_table m)[i := b]\<rparr>"

text \<open>The request is unlinked; \<open>None\<close> where the code asserts that there is one.\<close>

definition imar_unlink :: "ipc_marequests \<Rightarrow> space_id \<Rightarrow> mach_port_t \<Rightarrow> (32 word \<times> ipc_marequests) option" where
  "imar_unlink m space name =
    (let i = IMAR_HASH m space name
     in map_option (\<lambda>(this, rest). (this, set_imarb m i rest))
          (imar_search (imar_at m) space name (ipc_marequest_table m ! i)))"

definition set_imar_name :: "ipc_marequests \<Rightarrow> 32 word \<Rightarrow> mach_port_t \<Rightarrow> ipc_marequests" where
  "set_imar_name m a name = m\<lparr>imar_at := (imar_at m)(a := (imar_at m a)\<lparr>imar_name := name\<rparr>)\<rparr>"

text \<open>The request is linked at the front of the bucket of its space and name.\<close>

definition imar_link :: "ipc_marequests \<Rightarrow> space_id \<Rightarrow> mach_port_t \<Rightarrow> 32 word \<Rightarrow> ipc_marequests" where
  "imar_link m space name a =
    (let i = IMAR_HASH m space name in set_imarb m i (a # ipc_marequest_table m ! i))"

definition ipc_marequest_cancel :: "ipc_marequests \<Rightarrow> space_id \<Rightarrow> mach_port_t \<Rightarrow> ipc_marequests option" where
  "ipc_marequest_cancel m space name =
    map_option (\<lambda>(a, m'). set_imar_name m' a MACH_PORT_NULL) (imar_unlink m space name)"

definition ipc_marequest_rename ::
    "ipc_marequests \<Rightarrow> space_id \<Rightarrow> mach_port_t \<Rightarrow> mach_port_t \<Rightarrow> ipc_marequests option" where
  "ipc_marequest_rename m space old new =
    map_option (\<lambda>(a, m'). imar_link (set_imar_name m' a new) space new a) (imar_unlink m space old)"

text \<open>A new request at the address \<open>a\<close> is filled in and linked.\<close>

definition imar_enter :: "ipc_marequests \<Rightarrow> 32 word \<Rightarrow> ipc_marequest \<Rightarrow> ipc_marequests" where
  "imar_enter m a r =
    imar_link (m\<lparr>imar_at := (imar_at m)(a := r)\<rparr>) (imar_space r) (imar_name r) a"

section \<open>Invariant and contents\<close>

abbreviation imar_key :: "ipc_marequest \<Rightarrow> space_id \<times> mach_port_t" where
  "imar_key r \<equiv> (imar_space r, imar_name r)"

definition imar_ok :: "ipc_marequests \<Rightarrow> bool" where
  "imar_ok m \<longleftrightarrow>
    unat (ipc_marequest_mask m) < length (ipc_marequest_table m) \<and>
    (\<forall>i < length (ipc_marequest_table m). \<forall>a \<in> set (ipc_marequest_table m ! i).
      IMAR_HASH m (imar_space (imar_at m a)) (imar_name (imar_at m a)) = i) \<and>
    (\<forall>i < length (ipc_marequest_table m).
      distinct (map (\<lambda>a. imar_key (imar_at m a)) (ipc_marequest_table m ! i)))"

definition imar_map :: "ipc_marequests \<Rightarrow> space_id \<times> mach_port_t \<rightharpoonup> 32 word" where
  "imar_map m k = map_option fst (imar_search (imar_at m) (fst k) (snd k)
    (ipc_marequest_table m ! IMAR_HASH m (fst k) (snd k)))"

definition imar_linked :: "ipc_marequests \<Rightarrow> 32 word set" where
  "imar_linked m = (\<Union>b \<in> set (ipc_marequest_table m). set b)"

lemma imar_linked_iff:
  "a \<in> imar_linked m \<longleftrightarrow> (\<exists>i < length (ipc_marequest_table m). a \<in> set (ipc_marequest_table m ! i))"
  unfolding imar_linked_def by (auto simp: in_set_conv_nth [of _ "ipc_marequest_table m"] intro: nth_mem)

lemma IMAR_HASH_less: "imar_ok m \<Longrightarrow> IMAR_HASH m s n < length (ipc_marequest_table m)"
proof -
  assume "imar_ok m"
  moreover have "IMAR_HASH m s n \<le> unat (ipc_marequest_mask m)"
    unfolding IMAR_HASH_def by (intro word_le_nat_alt [THEN iffD1] word_and_le1)
  ultimately show ?thesis by (simp add: imar_ok_def)
qed

lemma imar_search_Some:
  assumes "imar_search mem s n b = Some (a, rest)"
  shows "a \<in> set b" and "imar_key (mem a) = (s, n)" and "set rest \<subseteq> set b"
    and "distinct (map (\<lambda>a. imar_key (mem a)) b) \<Longrightarrow> set rest = {x \<in> set b. imar_key (mem x) \<noteq> (s, n)} \<and>
      distinct (map (\<lambda>a. imar_key (mem a)) rest)"
  using assms
proof (induction b arbitrary: a rest)
  case (Cons x b)
  { case 1 then show ?case using Cons.IH(1) by (auto split: if_splits) }
  { case 2 then show ?case using Cons.IH(2) by (auto split: if_splits) }
  { case 3 then show ?case using Cons.IH(3) by (auto split: if_splits) }
  { case 4
    show ?case
    proof (cases "imar_key (mem x) = (s, n)")
      case True
      with 4 have "rest = b" by simp
      moreover have "imar_key (mem y) \<noteq> (s, n)" if "y \<in> set b" for y
        using 4(1) that True by (force simp: image_iff)
      ultimately show ?thesis using 4(1) True by auto
    next
      case False
      with 4 obtain rest' where "imar_search mem s n b = Some (a, rest')" "rest = x # rest'"
        by (auto split: if_splits)
      with Cons.IH(4) [of a rest'] 4(1) False show ?thesis by auto
    qed }
qed simp_all

lemma imar_search_None: "imar_search mem s n b = None \<longleftrightarrow> (\<forall>a \<in> set b. imar_key (mem a) \<noteq> (s, n))"
  by (induction b) auto

lemma imar_search_iff:
  assumes "distinct (map (\<lambda>a. imar_key (mem a)) b)"
  shows "map_option fst (imar_search mem s n b) = Some a \<longleftrightarrow> a \<in> set b \<and> imar_key (mem a) = (s, n)"
proof (cases "imar_search mem s n b")
  case None
  then have "\<forall>a \<in> set b. imar_key (mem a) \<noteq> (s, n)" by (simp only: imar_search_None not_False_eq_True)
  with None show ?thesis by auto
next
  case (Some r)
  then obtain a' rest where r: "imar_search mem s n b = Some (a', rest)" by (cases r) auto
  note f = imar_search_Some(1,2) [OF r]
  have "a = a'" if "a \<in> set b" "imar_key (mem a) = (s, n)"
    using assms that f by (metis (mono_tags, lifting) distinct_map inj_on_def)
  with r f show ?thesis by auto
qed

lemma imar_map_Some:
  assumes "imar_ok m"
  shows "imar_map m (s, n) = Some a \<longleftrightarrow> a \<in> imar_linked m \<and> imar_key (imar_at m a) = (s, n)"
proof -
  let ?i = "IMAR_HASH m s n"
  have i: "?i < length (ipc_marequest_table m)" using assms by (rule IMAR_HASH_less)
  have "imar_map m (s, n) = Some a \<longleftrightarrow> a \<in> set (ipc_marequest_table m ! ?i) \<and> imar_key (imar_at m a) = (s, n)"
    unfolding imar_map_def using imar_search_iff assms i by (simp add: imar_ok_def)
  moreover have "a \<in> set (ipc_marequest_table m ! ?i)" if "a \<in> imar_linked m" "imar_key (imar_at m a) = (s, n)"
    using that assms by (fastforce simp: imar_linked_iff imar_ok_def)
  moreover have "set (ipc_marequest_table m ! ?i) \<subseteq> imar_linked m"
    using i by (auto simp: imar_linked_iff)
  ultimately show ?thesis by blast
qed

lemma imar_linked_inj:
  assumes "imar_ok m" "a \<in> imar_linked m" "b \<in> imar_linked m" "imar_key (imar_at m a) = imar_key (imar_at m b)"
  shows "a = b"
proof -
  let ?k = "(imar_space (imar_at m a), imar_name (imar_at m a))"
  have "imar_map m ?k = Some a" "imar_map m ?k = Some b" using assms by (simp_all add: imar_map_Some)
  then show ?thesis by simp
qed

lemma imar_map_eqI:
  assumes "imar_ok m'" and "\<And>s n a. a \<in> imar_linked m' \<and> imar_key (imar_at m' a) = (s, n) \<longleftrightarrow> f (s, n) = Some a"
  shows "imar_map m' = f"
proof (rule ext)
  fix k :: "space_id \<times> mach_port_t"
  obtain s n where k: "k = (s, n)" by (cases k)
  have "imar_map m' (s, n) = Some a \<longleftrightarrow> f (s, n) = Some a" for a
    using imar_map_Some [OF assms(1)] assms(2) by simp
  then show "imar_map m' k = f k" unfolding k by (metis not_Some_eq)
qed

section \<open>The operations\<close>

lemma IMAR_HASH_cong: "ipc_marequest_mask m' = ipc_marequest_mask m \<Longrightarrow> IMAR_HASH m' = IMAR_HASH m"
  by (simp add: IMAR_HASH_def fun_eq_iff)

lemma set_imarb_simps [simp]:
  "ipc_marequest_mask (set_imarb m i b) = ipc_marequest_mask m" "imar_at (set_imarb m i b) = imar_at m"
  "ipc_marequest_table (set_imarb m i b) = (ipc_marequest_table m)[i := b]"
  by (simp_all add: set_imarb_def)

lemma imar_ok_set_imarb:
  assumes "imar_ok m" and "i < length (ipc_marequest_table m)"
    and "\<forall>a \<in> set b. IMAR_HASH m (imar_space (imar_at m a)) (imar_name (imar_at m a)) = i"
    and "distinct (map (\<lambda>a. imar_key (imar_at m a)) b)"
  shows "imar_ok (set_imarb m i b)"
  using assms IMAR_HASH_cong [of "set_imarb m i b" m] by (auto simp: imar_ok_def nth_list_update)

lemma imar_linked_set_imarb:
  assumes "imar_ok m" and "i < length (ipc_marequest_table m)"
  shows "a \<in> imar_linked (set_imarb m i b) \<longleftrightarrow>
    a \<in> set b \<or> a \<in> imar_linked m \<and> a \<notin> set (ipc_marequest_table m ! i)"
proof -
  have "a \<notin> set (ipc_marequest_table m ! i)" if "a \<in> set (ipc_marequest_table m ! j)" "j < length (ipc_marequest_table m)" "j \<noteq> i" for j
    using assms that unfolding imar_ok_def by metis
  then show ?thesis using assms(2) by (auto simp: imar_linked_iff nth_list_update split: if_splits)
qed

lemma imar_unlink_spec:
  assumes ok: "imar_ok m" and a: "imar_map m (s, n) = Some a"
  shows "\<exists>m'. imar_unlink m s n = Some (a, m') \<and> imar_ok m' \<and> imar_at m' = imar_at m \<and>
    imar_linked m' = imar_linked m - {a} \<and> ipc_marequest_mask m' = ipc_marequest_mask m"
proof -
  let ?i = "IMAR_HASH m s n" and ?key = "\<lambda>a. imar_key (imar_at m a)"
  let ?b = "ipc_marequest_table m ! ?i"
  have i: "?i < length (ipc_marequest_table m)" using ok by (rule IMAR_HASH_less)
  obtain rest where r: "imar_search (imar_at m) s n ?b = Some (a, rest)"
    using a by (auto simp: imar_map_def)
  have d: "distinct (map ?key ?b)" and h: "\<forall>x \<in> set ?b. IMAR_HASH m (imar_space (imar_at m x)) (imar_name (imar_at m x)) = ?i"
    using ok i by (simp_all add: imar_ok_def)
  note f = imar_search_Some [OF r]
  have rest: "set rest = set ?b - {a}" "distinct (map ?key rest)"
  proof -
    have "x = a" if "x \<in> set ?b" "?key x = (s, n)" for x
      using d that f(1,2) by (metis (mono_tags, lifting) distinct_map inj_on_def)
    then show "set rest = set ?b - {a}" using f(2) f(4) [OF d] by auto
    show "distinct (map ?key rest)" using f(4) [OF d] by simp
  qed
  have "imar_ok (set_imarb m ?i rest)" using rest h by (intro imar_ok_set_imarb [OF ok i]) auto
  moreover have "imar_linked (set_imarb m ?i rest) = imar_linked m - {a}"
  proof -
    have "set ?b \<subseteq> imar_linked m" using i by (auto simp: imar_linked_iff)
    then show ?thesis using imar_linked_set_imarb [OF ok i, of _ rest] rest(1) f(1) by blast
  qed
  ultimately show ?thesis using r by (simp add: imar_unlink_def Let_def)
qed

lemma imar_link_spec:
  assumes ok: "imar_ok m" and key: "imar_key (imar_at m a) = (s, n)" and new: "imar_map m (s, n) = None"
  shows "imar_ok (imar_link m s n a)" and "imar_linked (imar_link m s n a) = insert a (imar_linked m)"
    and "imar_at (imar_link m s n a) = imar_at m"
proof -
  let ?i = "IMAR_HASH m s n"
  let ?b = "ipc_marequest_table m ! ?i"
  have i: "?i < length (ipc_marequest_table m)" using ok by (rule IMAR_HASH_less)
  have "\<forall>x \<in> set ?b. imar_key (imar_at m x) \<noteq> (s, n)"
    using new unfolding imar_map_def by (simp only: fst_conv snd_conv option.map_disc_iff imar_search_None not_False_eq_True)
  then have "distinct (map (\<lambda>x. imar_key (imar_at m x)) (a # ?b))" using ok i key by (auto simp: imar_ok_def)
  moreover have "\<forall>x \<in> set (a # ?b). IMAR_HASH m (imar_space (imar_at m x)) (imar_name (imar_at m x)) = ?i"
    using ok i key by (auto simp: imar_ok_def)
  ultimately show "imar_ok (imar_link m s n a)"
    unfolding imar_link_def Let_def by (intro imar_ok_set_imarb [OF ok i])
  show "imar_linked (imar_link m s n a) = insert a (imar_linked m)"
    unfolding imar_link_def Let_def using imar_linked_set_imarb [OF ok i, of _ "a # ?b"] i by (auto simp: imar_linked_iff)
  show "imar_at (imar_link m s n a) = imar_at m" by (simp add: imar_link_def Let_def)
qed

lemma imar_ok_memory:
  assumes "imar_ok m" and "a \<notin> imar_linked m"
  shows "imar_ok (m\<lparr>imar_at := (imar_at m)(a := r)\<rparr>)"
    and "imar_linked (m\<lparr>imar_at := (imar_at m)(a := r)\<rparr>) = imar_linked m"
    and "imar_map (m\<lparr>imar_at := (imar_at m)(a := r)\<rparr>) = imar_map m"
proof -
  let ?m = "m\<lparr>imar_at := (imar_at m)(a := r)\<rparr>"
  have ne: "x \<noteq> a" if "i < length (ipc_marequest_table m)" "x \<in> set (ipc_marequest_table m ! i)" for i x
    using assms(2) that by (auto simp: imar_linked_iff)
  have "distinct (map (\<lambda>x. imar_key (imar_at ?m x)) (ipc_marequest_table m ! i))"
    if i: "i < length (ipc_marequest_table m)" for i
  proof -
    have "map (\<lambda>x. imar_key (imar_at ?m x)) (ipc_marequest_table m ! i) =
        map (\<lambda>x. imar_key (imar_at m x)) (ipc_marequest_table m ! i)"
      using ne [OF i] by (intro map_cong refl) simp
    then show ?thesis using assms(1) i by (simp only: imar_ok_def)
  qed
  then show ok: "imar_ok ?m"
    using assms(1) ne IMAR_HASH_cong [of ?m m] by (simp add: imar_ok_def)
  show linked: "imar_linked ?m = imar_linked m" by (simp add: imar_linked_def)
  show "imar_map ?m = imar_map m"
    using imar_map_Some [OF assms(1)] assms(2) linked by (intro imar_map_eqI [OF ok]) auto
qed

lemma imar_map_unlinked:
  assumes ok: "imar_ok m" and a: "imar_map m (s, n) = Some a"
    and m1: "imar_ok m1" "imar_at m1 = imar_at m" "imar_linked m1 = imar_linked m - {a}"
  shows "imar_map m1 = (imar_map m)((s, n) := None)"
proof (rule imar_map_eqI [OF m1(1)])
  fix s' n' b
  have "a \<in> imar_linked m" "imar_key (imar_at m a) = (s, n)" using imar_map_Some [OF ok] a by simp_all
  then have "b = a \<longleftrightarrow> imar_key (imar_at m b) = (s, n)" if "b \<in> imar_linked m"
    using imar_linked_inj [OF ok, of b a] that by auto
  then show "b \<in> imar_linked m1 \<and> imar_key (imar_at m1 b) = (s', n') \<longleftrightarrow> ((imar_map m)((s, n) := None)) (s', n') = Some b"
    unfolding m1(2,3) using imar_map_Some [OF ok, of s' n' b] by (cases "(s', n') = (s, n)") auto
qed

lemma cancel_spec:
  assumes ok: "imar_ok m" and a: "imar_map m (s, n) = Some a"
  shows "\<exists>m'. ipc_marequest_cancel m s n = Some m' \<and> imar_ok m' \<and>
    imar_map m' = (imar_map m)((s, n) := None) \<and>
    imar_at m' = (imar_at m)(a := (imar_at m a)\<lparr>imar_name := MACH_PORT_NULL\<rparr>)"
proof -
  obtain m1 where m1: "imar_unlink m s n = Some (a, m1)" "imar_ok m1" "imar_at m1 = imar_at m"
    "imar_linked m1 = imar_linked m - {a}"
    using imar_unlink_spec [OF assms] by blast
  have "imar_map m1 = (imar_map m)((s, n) := None)"
    using m1(2-4) by (rule imar_map_unlinked [OF ok a])
  then show ?thesis
    using m1 imar_ok_memory [OF m1(2), of a] by (simp add: ipc_marequest_cancel_def set_imar_name_def)
qed

lemma rename_spec:
  assumes ok: "imar_ok m" and a: "imar_map m (s, old) = Some a" and new: "imar_map m (s, new) = None"
  shows "\<exists>m'. ipc_marequest_rename m s old new = Some m' \<and> imar_ok m' \<and>
    imar_map m' = (imar_map m)((s, old) := None, (s, new) := Some a)"
proof -
  obtain m1 where m1: "imar_unlink m s old = Some (a, m1)" "imar_ok m1" "imar_at m1 = imar_at m"
    "imar_linked m1 = imar_linked m - {a}"
    using imar_unlink_spec [OF ok a] by blast
  let ?m = "set_imar_name m1 a new"
  have u: "imar_map m1 = (imar_map m)((s, old) := None)"
    using m1(2-4) by (rule imar_map_unlinked [OF ok a])
  have k: "imar_key (imar_at m a) = (s, old)" using imar_map_Some [OF ok] a by simp
  note mem = imar_ok_memory [OF m1(2), of a "(imar_at m1 a)\<lparr>imar_name := new\<rparr>", folded set_imar_name_def]
  have m2: "imar_ok ?m" "imar_linked ?m = imar_linked m1" "imar_map ?m = imar_map m1" using mem m1(4) by simp_all
  have "imar_key (imar_at ?m a) = (s, new)" "imar_map ?m (s, new) = None"
    using k m1(3) m2(3) u new by (simp_all add: set_imar_name_def)
  note l = imar_link_spec [OF m2(1) this]
  have "imar_map (imar_link ?m s new a) = (imar_map m)((s, old) := None, (s, new) := Some a)"
  proof (rule imar_map_eqI [OF l(1)])
    fix s' n b
    show "b \<in> imar_linked (imar_link ?m s new a) \<and> imar_key (imar_at (imar_link ?m s new a) b) = (s', n) \<longleftrightarrow>
      ((imar_map m)((s, old) := None, (s, new) := Some a)) (s', n) = Some b"
      unfolding l(2,3) m2(2) m1(4) using imar_map_Some [OF ok, of s' n b] a new k m1(3)
      by (auto simp: set_imar_name_def)
  qed
  with l(1) m1(1) show ?thesis by (simp add: ipc_marequest_rename_def)
qed

lemma enter_spec:
  assumes ok: "imar_ok m" and a: "a \<notin> imar_linked m" and new: "imar_map m (imar_key r) = None"
  shows "imar_ok (imar_enter m a r)" and "imar_map (imar_enter m a r) = (imar_map m)(imar_key r \<mapsto> a)"
    and "imar_at (imar_enter m a r) = (imar_at m)(a := r)"
proof -
  let ?m = "m\<lparr>imar_at := (imar_at m)(a := r)\<rparr>"
  note mem = imar_ok_memory [OF ok a, of r]
  have "imar_key (imar_at ?m a) = imar_key r" "imar_map ?m (imar_key r) = None" using mem(3) new by simp_all
  note l = imar_link_spec [OF mem(1) this]
  show "imar_ok (imar_enter m a r)" "imar_at (imar_enter m a r) = (imar_at m)(a := r)"
    using l by (simp_all add: imar_enter_def)
  show "imar_map (imar_enter m a r) = (imar_map m)(imar_key r \<mapsto> a)"
    unfolding imar_enter_def
  proof (rule imar_map_eqI [OF l(1)])
    fix s' n b
    show "b \<in> imar_linked (imar_link ?m (imar_space r) (imar_name r) a) \<and>
        imar_key (imar_at (imar_link ?m (imar_space r) (imar_name r) a) b) = (s', n) \<longleftrightarrow>
      ((imar_map m)(imar_key r \<mapsto> a)) (s', n) = Some b"
      unfolding l(2,3) mem(2) using imar_map_Some [OF ok, of s' n b] a new by auto
  qed
qed

end
