(* ===== verification/Ipc_State.thy ===== *)
theory Ipc_State
  imports Ipc_Entry Ipc_Marequest
begin

text \<open>
  The objects of Mach IPC and the state the operations on ports and rights work on:
  \<^verbatim>\<open>struct ipc_port\<close> (\<^verbatim>\<open>src/kernel/ipc/ipc_port.h\<close>), \<^verbatim>\<open>struct ipc_pset\<close> (\<^verbatim>\<open>ipc_pset.h\<close>), message queues
  (\<^verbatim>\<open>ipc_mqueue.h\<close>) and kernel messages (\<^verbatim>\<open>ipc_kmsg.h\<close>, \<^verbatim>\<open>src/kernel/mach/message.h\<close>).

  Ports, port sets and spaces are known by their addresses.  The union of receiver,
  destination and time stamp of a port is one field, \<open>ip_receiver\<close>, with \<open>ip_destination\<close> and
  \<open>ip_timestamp\<close> as other names.  Counters are 32 bit words, as the C type \<^verbatim>\<open>unsigned int\<close>.
  A message queue is the list of its messages and the list of the threads that wait; a
  waiting thread is a value in that list, with the fields the senders look at.  Messages
  that the kernel sends, threads it wakes and objects it frees are recorded, in their
  order, as events.
\<close>

section \<open>Names of objects\<close>

type_synonym ipc_port_t = ipc_object_t
type_synonym ipc_pset_t = ipc_object_t

abbreviation IP_NULL :: ipc_port_t where "IP_NULL \<equiv> IO_NULL"
abbreviation IP_DEAD :: ipc_port_t where "IP_DEAD \<equiv> IO_DEAD"
abbreviation IPS_NULL :: ipc_pset_t where "IPS_NULL \<equiv> IO_NULL"

definition IO_VALID :: "ipc_object_t \<Rightarrow> bool" where
  "IO_VALID io \<longleftrightarrow> io \<noteq> IO_NULL \<and> io \<noteq> IO_DEAD"

definition IO_BITS_KOTYPE :: "32 word" where "IO_BITS_KOTYPE = 0x0000ffff"
definition IO_BITS_ACTIVE :: "32 word" where "IO_BITS_ACTIVE = 0x80000000"

text \<open>\<^verbatim>\<open>((int)(io)->io_bits < 0)\<close>\<close>

definition io_active :: "32 word \<Rightarrow> bool" where
  "io_active io_bits \<longleftrightarrow> sint io_bits < 0"

definition io_makebits :: "bool \<Rightarrow> 32 word \<Rightarrow> 32 word \<Rightarrow> 32 word" where
  "io_makebits active otype kotype =
    ((if active then IO_BITS_ACTIVE else 0) OR push_bit 16 otype OR kotype)"

definition IOT_PORT :: "32 word" where "IOT_PORT = 0"
definition IOT_PORT_SET :: "32 word" where "IOT_PORT_SET = 1"

section \<open>Messages and queues\<close>

type_synonym mach_msg_return_t = "32 word"

definition MACH_MSG_SUCCESS :: mach_msg_return_t where "MACH_MSG_SUCCESS = 0"
definition MACH_MSG_VM_KERNEL :: mach_msg_return_t where "MACH_MSG_VM_KERNEL = 0x400"
definition MACH_RCV_TOO_LARGE :: mach_msg_return_t where "MACH_RCV_TOO_LARGE = 0x10004004"
definition MACH_RCV_PORT_CHANGED :: mach_msg_return_t where "MACH_RCV_PORT_CHANGED = 0x10004006"
definition MACH_RCV_PORT_DIED :: mach_msg_return_t where "MACH_RCV_PORT_DIED = 0x10004009"
definition MACH_RCV_HEADER_ERROR :: mach_msg_return_t where "MACH_RCV_HEADER_ERROR = 0x1000400b"
definition MACH_RCV_BODY_ERROR :: mach_msg_return_t where "MACH_RCV_BODY_ERROR = 0x1000400c"
definition MACH_RCV_INVALID_TYPE :: mach_msg_return_t where "MACH_RCV_INVALID_TYPE = 0x1000400d"
definition MACH_RCV_SCATTER_SMALL :: mach_msg_return_t where "MACH_RCV_SCATTER_SMALL = 0x1000400e"

definition MACH_RCV_LARGE :: "32 word" where "MACH_RCV_LARGE = 0x800"
definition MACH_RCV_OLD_FORMAT :: "32 word" where "MACH_RCV_OLD_FORMAT = 0x8000"
definition MACH_MSGH_BITS_COMPLEX :: "32 word" where "MACH_MSGH_BITS_COMPLEX = 0x80000000"
definition MACH_MSGH_BITS_OLD_FORMAT :: "32 word" where "MACH_MSGH_BITS_OLD_FORMAT = 0x08000000"

text \<open>What the name of a capability in a message says: how it is made, or what it is.\<close>

datatype mach_msg_type_name =
    MACH_MSG_TYPE_MOVE_RECEIVE
  | MACH_MSG_TYPE_MOVE_SEND
  | MACH_MSG_TYPE_MOVE_SEND_ONCE
  | MACH_MSG_TYPE_COPY_SEND
  | MACH_MSG_TYPE_MAKE_SEND
  | MACH_MSG_TYPE_MAKE_SEND_ONCE

abbreviation MACH_MSG_TYPE_PORT_RECEIVE :: mach_msg_type_name where
  "MACH_MSG_TYPE_PORT_RECEIVE \<equiv> MACH_MSG_TYPE_MOVE_RECEIVE"
abbreviation MACH_MSG_TYPE_PORT_SEND :: mach_msg_type_name where
  "MACH_MSG_TYPE_PORT_SEND \<equiv> MACH_MSG_TYPE_MOVE_SEND"
abbreviation MACH_MSG_TYPE_PORT_SEND_ONCE :: mach_msg_type_name where
  "MACH_MSG_TYPE_PORT_SEND_ONCE \<equiv> MACH_MSG_TYPE_MOVE_SEND_ONCE"

text \<open>
  The descriptors of a message body: a port right, out-of-line memory (its size, and whether
  the copy option is \<^verbatim>\<open>MACH_MSG_OVERWRITE\<close>), an out-of-line array of port rights (the count, the
  same option, and the rights).
\<close>

datatype mach_msg_descriptor =
    MACH_MSG_PORT_DESCRIPTOR ipc_object_t mach_msg_type_name
  | MACH_MSG_OOL_DESCRIPTOR "32 word" bool
  | MACH_MSG_OOL_PORTS_DESCRIPTOR "32 word" bool mach_msg_type_name "ipc_object_t list"

text \<open>
  The data of a message after its header: that of a message of the kernel, which is one word after the byte order record or,
  in the old format, after its type; or data that is nowhere looked at.
\<close>

record mach_msg_type =
  msgt_name :: "8 word"
  msgt_size :: "8 word"
  msgt_number :: "12 word"
  msgt_inline :: bool
  msgt_longform :: bool
  msgt_deallocate :: bool

datatype msg_data = No_data | NDR_data "32 word" | Typed_data mach_msg_type "32 word"

text \<open>
  A message; \<open>ikm_marequest\<close> is the address of its msg-accepted request, 0 if it has none, and \<open>ikm_sender\<close> the
  two words of the security identifier of the sender.
\<close>

record ipc_kmsg =
  msgh_bits :: "32 word"
  msgh_size :: "32 word"
  msgh_remote_port :: ipc_object_t
  msgh_local_port :: ipc_object_t
  msgh_body :: "mach_msg_descriptor list"
  ikm_marequest :: "32 word"
  msgh_reserved :: "32 word"
  msgh_id :: "32 word"
  msgh_data :: msg_data
  ikm_sender :: "32 word \<times> 32 word"

text \<open>
  A thread that waits for a message; \<open>ith_list\<close> is its scatter list.  \<open>ith_memory\<close> says whether
  memory for a new scatter list is there when one has to be made for this thread.
\<close>

record ipc_thread =
  ith_name :: nat
  ith_state :: mach_msg_return_t
  ith_rcv_option :: "32 word"
  ith_msize :: "32 word"
  ith_list :: "mach_msg_descriptor list option"
  ith_kmsg :: "ipc_kmsg option"
  ith_seqno :: "32 word"
  ith_memory :: bool

record ipc_mqueue =
  imq_messages :: "ipc_kmsg list"
  imq_threads :: "ipc_thread list"

section \<open>Ports and port sets\<close>

text \<open>
  A request of the table of dead-name requests.  The union of the send-once right and the
  link of the free list is one field.  The first element of the table is its header: its
  link is the head of the free list, and instead of a name it has the table's size, which
  here is a field of the table, the subscript of its size in \<^verbatim>\<open>ipc_table_dnrequests\<close>.
\<close>

record ipc_port_request =
  ipr_soright :: ipc_port_t
  ipr_name :: mach_port_t

definition ipr_next :: "ipc_port_request \<Rightarrow> nat" where
  "ipr_next ipr = unat (ipr_soright ipr)"

record ipr_table =
  ipr_address :: "32 word"
  ipr_size :: nat
  ipr_requests :: "ipc_port_request list"

record ipc_port =
  ip_references :: "32 word"
  ip_bits :: "32 word"
  ip_receiver :: "32 word"
  ip_receiver_name :: mach_port_t
  ip_mscount :: "32 word"
  ip_srights :: "32 word"
  ip_sorights :: "32 word"
  ip_nsrequest :: ipc_port_t
  ip_pdrequest :: ipc_port_t
  ip_dnrequests :: "ipr_table option"
  ip_pset :: ipc_pset_t
  ip_seqno :: "32 word"
  ip_msgcount :: "32 word"
  ip_qlimit :: "32 word"
  ip_messages :: ipc_mqueue
  ip_blocked :: "ipc_thread list"

abbreviation ip_destination :: "ipc_port \<Rightarrow> ipc_port_t" where "ip_destination \<equiv> ip_receiver"
abbreviation ip_timestamp :: "ipc_port \<Rightarrow> 32 word" where "ip_timestamp \<equiv> ip_receiver"
abbreviation ip_active :: "ipc_port \<Rightarrow> bool" where "ip_active port \<equiv> io_active (ip_bits port)"
abbreviation ip_kotype :: "ipc_port \<Rightarrow> 32 word" where "ip_kotype port \<equiv> ip_bits port AND IO_BITS_KOTYPE"

record ipc_pset =
  ips_references :: "32 word"
  ips_bits :: "32 word"
  ips_local_name :: mach_port_t
  ips_messages :: ipc_mqueue

abbreviation ips_active :: "ipc_pset \<Rightarrow> bool" where "ips_active pset \<equiv> io_active (ips_bits pset)"

section \<open>The state\<close>

text \<open>
  What the code hands to other parts of the kernel: the notifications it asks
  \<^verbatim>\<open>ipc_notify.c\<close> for, threads it makes runnable, objects it gives back, messages it gives to
  \<^verbatim>\<open>ipc_kmsg_destroy\<close> and kernel objects it gives to \<^verbatim>\<open>ipc_kobject_destroy\<close>.
\<close>

datatype ipc_event =
    Notify_no_senders ipc_port_t "32 word"
  | Notify_send_once ipc_port_t
  | Notify_dead_name ipc_port_t mach_port_t
  | Notify_port_deleted ipc_port_t mach_port_t
  | Notify_port_deleted_compat ipc_port_t mach_port_t
  | Thread_go ipc_thread
  | Free_port ipc_port_t
  | Free_pset ipc_pset_t
  | Free_space space_id
  | Notify_port_destroyed ipc_port_t ipc_port_t
  | Notify_port_destroyed_compat ipc_port_t ipc_port_t
  | Notify_msg_accepted_compat ipc_port_t mach_port_t
  | Free_marequest "32 word"
  | Kmsg_destroy ipc_kmsg
  | Kobject_destroy ipc_port_t

text \<open>
  The configuration: the arrays of table sizes of \<^verbatim>\<open>ipc_table.c\<close> and the array \<^verbatim>\<open>trailer_size\<close>,
  which is not among the sources.
\<close>

record ipc_config =
  ipc_table_entries :: "nat list"
  ipc_table_dnrequests :: "nat list"
  trailer_size :: "nat \<Rightarrow> 32 word"

record ipc_state =
  st_ports :: "ipc_port_t \<Rightarrow> ipc_port"
  st_psets :: "ipc_pset_t \<Rightarrow> ipc_pset"
  st_spaces :: "space_id \<Rightarrow> ipc_space"
  st_hash :: ipc_hash_global
  st_marequests :: ipc_marequests
  st_timestamp :: "32 word"
  st_events :: "ipc_event list"

definition set_port :: "ipc_state \<Rightarrow> ipc_port_t \<Rightarrow> ipc_port \<Rightarrow> ipc_state" where
  "set_port st p port = st\<lparr>st_ports := (st_ports st)(p := port)\<rparr>"

definition set_pset :: "ipc_state \<Rightarrow> ipc_pset_t \<Rightarrow> ipc_pset \<Rightarrow> ipc_state" where
  "set_pset st p pset = st\<lparr>st_psets := (st_psets st)(p := pset)\<rparr>"

definition set_space :: "ipc_state \<Rightarrow> space_id \<Rightarrow> ipc_space \<Rightarrow> ipc_state" where
  "set_space st sid space = st\<lparr>st_spaces := (st_spaces st)(sid := space)\<rparr>"

definition emit :: "ipc_state \<Rightarrow> ipc_event list \<Rightarrow> ipc_state" where
  "emit st es = st\<lparr>st_events := st_events st @ es\<rparr>"

text \<open>\<^verbatim>\<open>ip_check_unlock\<close> and \<^verbatim>\<open>ips_check_unlock\<close>: an object without references is freed.\<close>

definition ip_check_unlock :: "ipc_state \<Rightarrow> ipc_port_t \<Rightarrow> ipc_state" where
  "ip_check_unlock st p =
    (if ip_references (st_ports st p) = 0 then emit st [Free_port p] else st)"

definition ips_check_unlock :: "ipc_state \<Rightarrow> ipc_pset_t \<Rightarrow> ipc_state" where
  "ips_check_unlock st p =
    (if ips_references (st_psets st p) = 0 then emit st [Free_pset p] else st)"

definition ipc_port_release :: "ipc_state \<Rightarrow> ipc_port_t \<Rightarrow> ipc_state" where
  "ipc_port_release st p =
    (let port = st_ports st p
     in ip_check_unlock (set_port st p (port\<lparr>ip_references := ip_references port - 1\<rparr>)) p)"

definition ipc_port_reference :: "ipc_state \<Rightarrow> ipc_port_t \<Rightarrow> ipc_state" where
  "ipc_port_reference st p =
    (let port = st_ports st p in set_port st p (port\<lparr>ip_references := ip_references port + 1\<rparr>))"

named_theorems state_simps \<open>reading an updated state\<close>

lemmas [state_simps] = set_port_def set_pset_def set_space_def emit_def

lemma io_active_bit: "io_active bits \<longleftrightarrow> bit bits 31"
  using bit_last_iff [of bits] by (simp add: io_active_def)

lemma io_active_makebits [simp]: "io_active (io_makebits True otype kotype) \<longleftrightarrow> True"
  by (simp add: io_active_bit io_makebits_def IO_BITS_ACTIVE_def bit_simps) 

lemma io_active_clear [simp]: "\<not> io_active (bits AND NOT IO_BITS_ACTIVE)"
  by (simp add: io_active_bit IO_BITS_ACTIVE_def bit_simps)

end
