(* ===== verification/Ipc_Mqueue.thy ===== *)
theory Ipc_Mqueue
  imports Ipc_State
begin

text \<open>
  Message queues and port sets: the scatter check of \<^verbatim>\<open>src/kernel/ipc/ipc_kmsg.c\<close>,
  \<^verbatim>\<open>ipc_mqueue_move\<close> and \<^verbatim>\<open>ipc_mqueue_changed\<close> of \<^verbatim>\<open>ipc_mqueue.c\<close>, and \<^verbatim>\<open>ipc_pset.c\<close>.
\<close>

section \<open>The scatter check\<close>

fun is_port_descriptor :: "mach_msg_descriptor \<Rightarrow> bool" where
  "is_port_descriptor (MACH_MSG_PORT_DESCRIPTOR obj disposition) = True"
| "is_port_descriptor d = False"

text \<open>
  The loop over the gather list and the scatter list; the result is an error, or whether there
  is a size error.  \<open>scount\<close> is the scatter list's descriptor count, \<open>large\<close> is \<^verbatim>\<open>MACH_RCV_LARGE\<close>.
\<close>

fun scatter_loop ::
    "bool \<Rightarrow> nat \<Rightarrow> bool \<Rightarrow> mach_msg_descriptor list \<Rightarrow> mach_msg_descriptor list \<Rightarrow> mach_msg_return_t + bool" where
  "scatter_loop large scount size_error [] sl = Inr size_error"
| "scatter_loop large scount size_error (g # gs) sl =
    (if is_port_descriptor g then scatter_loop large scount size_error gs sl
     else if scount = 0 then (if \<not> large then Inl MACH_RCV_SCATTER_SMALL else Inr True)
     else
       case dropWhile is_port_descriptor sl of
         [] \<Rightarrow> Inr size_error
       | s # ss \<Rightarrow>
           (case g of
              MACH_MSG_OOL_DESCRIPTOR gsize _ \<Rightarrow>
                (case s of
                   MACH_MSG_OOL_DESCRIPTOR ssize overwrite \<Rightarrow>
                     if overwrite \<and> gsize > ssize then
                       (if \<not> large then Inl MACH_RCV_SCATTER_SMALL else scatter_loop large scount True gs ss)
                     else scatter_loop large scount size_error gs ss
                 | _ \<Rightarrow> Inl MACH_RCV_INVALID_TYPE)
            | MACH_MSG_OOL_PORTS_DESCRIPTOR gcount _ _ _ \<Rightarrow>
                (case s of
                   MACH_MSG_OOL_PORTS_DESCRIPTOR sc overwrite _ _ \<Rightarrow>
                     if overwrite \<and> gcount > sc then
                       (if \<not> large then Inl MACH_RCV_SCATTER_SMALL else scatter_loop large scount True gs ss)
                     else scatter_loop large scount size_error gs ss
                 | _ \<Rightarrow> Inl MACH_RCV_INVALID_TYPE)
            | MACH_MSG_PORT_DESCRIPTOR _ _ \<Rightarrow> Inl MACH_RCV_INVALID_TYPE))"

text \<open>
  The scatter list made from the gather list: types, sizes and counts.  What the code leaves
  uninitialised in the new list is zero here: the copy options and the rights.
\<close>

fun scatter_of :: "mach_msg_descriptor \<Rightarrow> mach_msg_descriptor" where
  "scatter_of (MACH_MSG_PORT_DESCRIPTOR obj disposition) = MACH_MSG_PORT_DESCRIPTOR IO_NULL disposition"
| "scatter_of (MACH_MSG_OOL_DESCRIPTOR gsize overwrite) = MACH_MSG_OOL_DESCRIPTOR gsize False"
| "scatter_of (MACH_MSG_OOL_PORTS_DESCRIPTOR gcount overwrite disposition objects) =
    MACH_MSG_OOL_PORTS_DESCRIPTOR gcount False disposition []"

definition ipc_kmsg_check_scatter ::
    "ipc_kmsg \<Rightarrow> 32 word \<Rightarrow> bool \<Rightarrow> mach_msg_descriptor list \<Rightarrow> mach_msg_return_t \<times> mach_msg_descriptor list" where
  "ipc_kmsg_check_scatter kmsg option memory sl =
    (case scatter_loop (option AND MACH_RCV_LARGE \<noteq> 0) (length sl) False (msgh_body kmsg) sl of
       Inl mr \<Rightarrow> (mr, sl)
     | Inr size_error \<Rightarrow>
         if size_error then
           (if \<not> memory then (MACH_MSG_VM_KERNEL OR MACH_RCV_BODY_ERROR, sl)
            else (MACH_RCV_SCATTER_SMALL, map scatter_of (msgh_body kmsg)))
         else (MACH_MSG_SUCCESS, sl))"

section \<open>Message queues\<close>

definition ipc_mqueue_init :: ipc_mqueue where
  "ipc_mqueue_init = \<lparr>imq_messages = [], imq_threads = []\<rparr>"

definition sizeof_mach_msg_header :: "32 word" where "sizeof_mach_msg_header = 24"

definition REQUESTED_TRAILER_SIZE :: "ipc_config \<Rightarrow> 32 word \<Rightarrow> 32 word" where
  "REQUESTED_TRAILER_SIZE cfg option = trailer_size cfg (unat (drop_bit 24 option AND 0xf))"

text \<open>
  A message is offered to one waiting thread: the thread as it is woken, and whether the
  thread has taken the message.  The first function is for messages of the old format.
\<close>

definition offer_old :: "ipc_kmsg \<Rightarrow> ipc_thread \<Rightarrow> ipc_thread \<times> bool" where
  "offer_old kmsg th =
    (if ith_rcv_option th AND MACH_RCV_OLD_FORMAT = 0 then (th\<lparr>ith_state := MACH_RCV_HEADER_ERROR\<rparr>, True)
     else if msgh_size kmsg \<le> ith_msize th then (th\<lparr>ith_state := MACH_MSG_SUCCESS\<rparr>, True)
     else (th\<lparr>ith_state := MACH_RCV_TOO_LARGE, ith_msize := msgh_size kmsg\<rparr>, False))"

definition offer_new :: "ipc_config \<Rightarrow> ipc_kmsg \<Rightarrow> ipc_thread \<Rightarrow> ipc_thread \<times> bool" where
  "offer_new cfg kmsg th =
    (let complex = (msgh_bits kmsg AND MACH_MSGH_BITS_COMPLEX \<noteq> 0); option = ith_rcv_option th
     in if option AND MACH_RCV_OLD_FORMAT \<noteq> 0 then
          (if complex \<or> msgh_size kmsg > sizeof_mach_msg_header \<or> ith_msize th < sizeof_mach_msg_header
           then (th\<lparr>ith_state := MACH_RCV_HEADER_ERROR\<rparr>, True)
           else (th\<lparr>ith_state := MACH_MSG_SUCCESS\<rparr>, True))
        else if msgh_size kmsg > ith_msize th - REQUESTED_TRAILER_SIZE cfg option then
          (if option AND MACH_RCV_LARGE \<noteq> 0
           then (th\<lparr>ith_state := MACH_RCV_TOO_LARGE, ith_msize := msgh_size kmsg\<rparr>, False)
           else (th\<lparr>ith_state := MACH_RCV_TOO_LARGE\<rparr>, True))
        else
          (case (if complex then ith_list th else None) of
             None \<Rightarrow> (th\<lparr>ith_state := MACH_MSG_SUCCESS\<rparr>, True)
           | Some sl \<Rightarrow>
               let (mr, sl') = ipc_kmsg_check_scatter kmsg option (ith_memory th) sl;
                   th' = th\<lparr>ith_state := mr, ith_list := Some sl'\<rparr>
               in if mr = MACH_MSG_SUCCESS then (th', True)
                  else if mr = MACH_RCV_INVALID_TYPE \<or> mr AND MACH_MSG_VM_KERNEL \<noteq> 0 then (th', False)
                  else if option AND MACH_RCV_LARGE \<noteq> 0 then (th'\<lparr>ith_msize := msgh_size kmsg\<rparr>, False)
                  else (th', True)))"

definition offer :: "ipc_config \<Rightarrow> ipc_kmsg \<Rightarrow> ipc_thread \<Rightarrow> ipc_thread \<times> bool" where
  "offer cfg kmsg th =
    (if msgh_bits kmsg AND MACH_MSGH_BITS_OLD_FORMAT \<noteq> 0 then offer_old kmsg th else offer_new cfg kmsg th)"

text \<open>
  The loop over the waiting threads: they are woken one after another until one takes the
  message.  The result is whether one did, the threads still waiting, the sequence number
  and the threads woken.
\<close>

fun deliver ::
    "ipc_config \<Rightarrow> ipc_kmsg \<Rightarrow> ipc_thread list \<Rightarrow> 32 word \<Rightarrow> bool \<times> ipc_thread list \<times> 32 word \<times> ipc_event list" where
  "deliver cfg kmsg [] seqno = (False, [], seqno, [])"
| "deliver cfg kmsg (th # ths) seqno =
    (let (th', taken) = offer cfg kmsg th
     in if taken then (True, ths, seqno + 1, [Thread_go (th'\<lparr>ith_kmsg := Some kmsg, ith_seqno := seqno\<rparr>)])
        else let (r, ths', seqno', es) = deliver cfg kmsg ths seqno in (r, ths', seqno', Thread_go th' # es))"

text \<open>
  \<^verbatim>\<open>ipc_mqueue_move\<close>: the messages for \<open>port\<close> go from the source queue to the destination's
  waiting threads or to the end of its queue.  The result is the rest of the source, the
  destination, the sequence number of the port and the threads woken.
\<close>

fun mqueue_move_loop ::
    "ipc_config \<Rightarrow> ipc_port_t \<Rightarrow> ipc_kmsg list \<Rightarrow> ipc_mqueue \<Rightarrow> 32 word \<Rightarrow>
     ipc_kmsg list \<times> ipc_mqueue \<times> 32 word \<times> ipc_event list" where
  "mqueue_move_loop cfg port [] dest seqno = ([], dest, seqno, [])"
| "mqueue_move_loop cfg port (kmsg # kmsgs) dest seqno =
    (if msgh_remote_port kmsg \<noteq> port then
       let (rest, dest', seqno', es) = mqueue_move_loop cfg port kmsgs dest seqno
       in (kmsg # rest, dest', seqno', es)
     else
       let (taken, ths, seqno1, es1) = deliver cfg kmsg (imq_threads dest) seqno;
           dest1 = dest\<lparr>imq_threads := ths\<rparr>;
           dest2 = (if taken then dest1 else dest1\<lparr>imq_messages := imq_messages dest1 @ [kmsg]\<rparr>);
           (rest, dest', seqno', es) = mqueue_move_loop cfg port kmsgs dest2 seqno1
       in (rest, dest', seqno', es1 @ es))"

definition ipc_mqueue_move ::
    "ipc_config \<Rightarrow> ipc_mqueue \<Rightarrow> ipc_mqueue \<Rightarrow> ipc_port_t \<Rightarrow> 32 word \<Rightarrow>
     ipc_mqueue \<times> ipc_mqueue \<times> 32 word \<times> ipc_event list" where
  "ipc_mqueue_move cfg dest source port seqno =
    (let (rest, dest', seqno', es) = mqueue_move_loop cfg port (imq_messages source) dest seqno
     in (dest', source\<lparr>imq_messages := rest\<rparr>, seqno', es))"

definition ipc_mqueue_changed :: "ipc_mqueue \<Rightarrow> mach_msg_return_t \<Rightarrow> ipc_mqueue \<times> ipc_event list" where
  "ipc_mqueue_changed mqueue mr =
    (mqueue\<lparr>imq_threads := []\<rparr>, map (\<lambda>th. Thread_go (th\<lparr>ith_state := mr\<rparr>)) (imq_threads mqueue))"

section \<open>Port sets\<close>

definition ipc_pset_add :: "ipc_config \<Rightarrow> ipc_state \<Rightarrow> ipc_pset_t \<Rightarrow> ipc_port_t \<Rightarrow> ipc_state" where
  "ipc_pset_add cfg st ps p =
    (let port = st_ports st p; pset = st_psets st ps;
         (dest, source, seqno, es1) =
           ipc_mqueue_move cfg (ips_messages pset) (ip_messages port) p (ip_seqno port);
         (source', es2) = ipc_mqueue_changed source MACH_RCV_PORT_CHANGED
     in emit (set_pset (set_port st p
               (port\<lparr>ip_pset := ps, ip_seqno := seqno, ip_messages := source'\<rparr>)) ps
               (pset\<lparr>ips_references := ips_references pset + 1, ips_messages := dest\<rparr>)) (es1 @ es2))"

definition ipc_pset_remove :: "ipc_config \<Rightarrow> ipc_state \<Rightarrow> ipc_pset_t \<Rightarrow> ipc_port_t \<Rightarrow> ipc_state" where
  "ipc_pset_remove cfg st ps p =
    (let port = st_ports st p; pset = st_psets st ps;
         (dest, source, seqno, es) =
           ipc_mqueue_move cfg (ip_messages port) (ips_messages pset) p (ip_seqno port)
     in emit (set_pset (set_port st p
               (port\<lparr>ip_pset := IPS_NULL, ip_seqno := seqno, ip_messages := dest\<rparr>)) ps
               (pset\<lparr>ips_references := ips_references pset - 1, ips_messages := source\<rparr>)) es)"

definition ipc_pset_move :: "ipc_config \<Rightarrow> ipc_state \<Rightarrow> ipc_port_t \<Rightarrow> ipc_pset_t \<Rightarrow> kern_return_t \<times> ipc_state" where
  "ipc_pset_move cfg st p nset =
    (let oset = ip_pset (st_ports st p)
     in if oset = nset then (if nset = IPS_NULL then KERN_NOT_IN_SET else KERN_SUCCESS, st)
        else if oset = IPS_NULL then (KERN_SUCCESS, ipc_pset_add cfg st nset p)
        else if nset = IPS_NULL then
          let st1 = ipc_pset_remove cfg st oset p
          in (if ips_active (st_psets st1 oset) then (KERN_SUCCESS, st1)
              else (KERN_NOT_IN_SET, ips_check_unlock st1 oset))
        else (KERN_SUCCESS, ips_check_unlock (ipc_pset_add cfg (ipc_pset_remove cfg st oset p) nset p) oset))"

definition ipc_pset_destroy :: "ipc_state \<Rightarrow> ipc_pset_t \<Rightarrow> ipc_state" where
  "ipc_pset_destroy st ps =
    (let pset = st_psets st ps;
         (mq, es) = ipc_mqueue_changed (ips_messages pset) MACH_RCV_PORT_DIED;
         pset' = pset\<lparr>ips_bits := ips_bits pset AND NOT IO_BITS_ACTIVE, ips_messages := mq,
                      ips_references := ips_references pset - 1\<rparr>
     in ips_check_unlock (emit (set_pset st ps pset') es) ps)"

section \<open>No message is lost\<close>

text \<open>The messages that woken threads carry away.\<close>

fun taken_messages :: "ipc_event list \<Rightarrow> ipc_kmsg list" where
  "taken_messages [] = []"
| "taken_messages (Thread_go th # es) =
    (case ith_kmsg th of None \<Rightarrow> taken_messages es | Some kmsg \<Rightarrow> kmsg # taken_messages es)"
| "taken_messages (e # es) = taken_messages es"

text \<open>In a queue that is in order either no message or no thread waits, and no waiting thread has a message.\<close>

definition mqueue_ok :: "ipc_mqueue \<Rightarrow> bool" where
  "mqueue_ok mq \<longleftrightarrow>
    (imq_messages mq = [] \<or> imq_threads mq = []) \<and> list_all (\<lambda>th. ith_kmsg th = None) (imq_threads mq)"

lemma taken_messages_append [simp]: "taken_messages (es @ es') = taken_messages es @ taken_messages es'"
  by (induction es rule: taken_messages.induct) (auto split: option.splits)

lemma offer_kmsg: "offer cfg kmsg th = (th', taken) \<Longrightarrow> ith_kmsg th' = ith_kmsg th"
  by (auto simp: offer_def offer_old_def offer_new_def Let_def split: if_splits option.splits prod.splits)

lemma deliver_spec:
  assumes "deliver cfg kmsg ths seqno = (taken, ths', seqno', es)" and "list_all (\<lambda>th. ith_kmsg th = None) ths"
  shows "taken_messages es = (if taken then [kmsg] else []) \<and> list_all (\<lambda>th. ith_kmsg th = None) ths' \<and>
    (\<not> taken \<longrightarrow> ths' = []) \<and> seqno' = seqno + (if taken then 1 else 0)"
  using assms
  by (induction ths arbitrary: taken ths' seqno' es)
    (auto simp: Let_def split: prod.splits if_splits dest: offer_kmsg)

lemma mqueue_move_loop_spec:
  assumes "mqueue_move_loop cfg port kmsgs dest seqno = (rest, dest', seqno', es)" and "mqueue_ok dest"
  shows "rest = filter (\<lambda>k. msgh_remote_port k \<noteq> port) kmsgs \<and>
    taken_messages es @ imq_messages dest' = imq_messages dest @ filter (\<lambda>k. msgh_remote_port k = port) kmsgs \<and>
    seqno' = seqno + word_of_nat (length (taken_messages es)) \<and> mqueue_ok dest'"
  using assms
proof (induction kmsgs arbitrary: dest seqno rest dest' seqno' es)
  case (Cons kmsg kmsgs)
  show ?case
  proof (cases "msgh_remote_port kmsg = port")
    case False
    obtain r where "mqueue_move_loop cfg port kmsgs dest seqno = (r, dest', seqno', es)" "rest = kmsg # r"
      using Cons.prems(1) False by (auto split: prod.splits)
    with Cons.IH [OF this(1) Cons.prems(2)] False show ?thesis by simp
  next
    case True
    obtain taken ths seqno1 es1 where d: "deliver cfg kmsg (imq_threads dest) seqno = (taken, ths, seqno1, es1)"
      by (cases "deliver cfg kmsg (imq_threads dest) seqno") auto
    let ?dest = "if taken then dest\<lparr>imq_threads := ths\<rparr>
      else dest\<lparr>imq_threads := ths, imq_messages := imq_messages dest @ [kmsg]\<rparr>"
    obtain es2 where l: "mqueue_move_loop cfg port kmsgs ?dest seqno1 = (rest, dest', seqno', es2)" "es = es1 @ es2"
      using Cons.prems(1) True d by (cases taken) (auto simp: Let_def split: prod.splits)
    have ds: "taken_messages es1 = (if taken then [kmsg] else [])" "\<not> taken \<Longrightarrow> ths = []"
      "list_all (\<lambda>th. ith_kmsg th = None) ths" "seqno1 = seqno + (if taken then 1 else 0)"
      using deliver_spec [OF d] Cons.prems(2) by (simp_all add: mqueue_ok_def)
    have e: "taken \<Longrightarrow> imq_messages dest = []"
      using d Cons.prems(2) by (auto simp: mqueue_ok_def)
    have "mqueue_ok ?dest" using ds(2,3) e by (cases taken) (simp_all add: mqueue_ok_def)
    from Cons.IH [OF l(1) this] show ?thesis using l(2) ds e True by (cases taken) (simp_all add: add.commute add.left_commute)
  qed
qed simp

lemma ipc_mqueue_move_spec:
  assumes "ipc_mqueue_move cfg dest source port seqno = (dest', source', seqno', es)" and "mqueue_ok dest"
  shows "source' = source\<lparr>imq_messages := filter (\<lambda>k. msgh_remote_port k \<noteq> port) (imq_messages source)\<rparr> \<and>
    taken_messages es @ imq_messages dest' =
      imq_messages dest @ filter (\<lambda>k. msgh_remote_port k = port) (imq_messages source) \<and>
    seqno' = seqno + word_of_nat (length (taken_messages es)) \<and> mqueue_ok dest'"
proof -
  obtain rest where "mqueue_move_loop cfg port (imq_messages source) dest seqno = (rest, dest', seqno', es)"
    "source' = source\<lparr>imq_messages := rest\<rparr>"
    using assms(1) by (auto simp: ipc_mqueue_move_def split: prod.splits)
  with mqueue_move_loop_spec [OF this(1) assms(2)] show ?thesis by simp
qed

end
