(* ===== verification/Ipc_Port.thy ===== *)
theory Ipc_Port
  imports Ipc_Mqueue
begin

text \<open>
  Ports, \<^verbatim>\<open>src/kernel/ipc/ipc_port.c\<close>: the table of dead-name requests, the other requests, the
  counts of rights, and the check that a port queued in a message makes no circle.

  An operation that changes one locked port is a function of the port; the interim are
  functions of the state.  Where the lock is released in between, the answer of the memory
  allocator and what the other threads do are arguments.
\<close>

section \<open>Time stamps\<close>

definition ipc_port_timestamp :: "ipc_state \<Rightarrow> 32 word \<times> ipc_state" where
  "ipc_port_timestamp st = (st_timestamp st, st\<lparr>st_timestamp := st_timestamp st + 1\<rparr>)"

definition IP_TIMESTAMP_ORDER :: "32 word \<Rightarrow> 32 word \<Rightarrow> bool" where
  "IP_TIMESTAMP_ORDER one two \<longleftrightarrow> sint (one - two) < 0"

section \<open>Dead-name requests\<close>

definition set_ipr_next :: "ipc_port_request list \<Rightarrow> nat \<Rightarrow> nat \<Rightarrow> ipc_port_request list" where
  "set_ipr_next table i n = table[i := (table ! i)\<lparr>ipr_soright := word_of_nat n\<rparr>]"

definition ipc_port_dnrequest ::
    "ipc_port \<Rightarrow> mach_port_t \<Rightarrow> ipc_port_t \<Rightarrow> kern_return_t + nat \<times> ipc_port" where
  "ipc_port_dnrequest port name soright =
    (case ip_dnrequests port of
       None \<Rightarrow> Inl KERN_NO_SPACE
     | Some tab \<Rightarrow>
         let table = ipr_requests tab; index = ipr_next (table ! 0)
         in if index = 0 then Inl KERN_NO_SPACE
            else
              let table1 = set_ipr_next table 0 (ipr_next (table ! index));
                  table2 = table1[index := \<lparr>ipr_soright = soright, ipr_name = name\<rparr>]
              in Inr (index, port\<lparr>ip_dnrequests := Some (tab\<lparr>ipr_requests := table2\<rparr>)\<rparr>))"

definition ipc_port_dncancel :: "ipc_port \<Rightarrow> mach_port_t \<Rightarrow> nat \<Rightarrow> ipc_port_t \<times> ipc_port" where
  "ipc_port_dncancel port name index =
    (case ip_dnrequests port of
       None \<Rightarrow> (IP_NULL, port)
     | Some tab \<Rightarrow>
         let table = ipr_requests tab;
             dnrequest = ipr_soright (table ! index);
             table1 = table[index := \<lparr>ipr_soright = word_of_nat (ipr_next (table ! 0)), ipr_name = MACH_PORT_NULL\<rparr>];
             table2 = set_ipr_next table1 0 index
         in (dnrequest, port\<lparr>ip_dnrequests := Some (tab\<lparr>ipr_requests := table2\<rparr>)\<rparr>))"

definition ipc_port_dnrename :: "ipc_port \<Rightarrow> nat \<Rightarrow> mach_port_t \<Rightarrow> mach_port_t \<Rightarrow> ipc_port" where
  "ipc_port_dnrename port index oname nname =
    (case ip_dnrequests port of
       None \<Rightarrow> port
     | Some tab \<Rightarrow>
         let table = ipr_requests tab
         in port\<lparr>ip_dnrequests := Some (tab\<lparr>ipr_requests := table[index := (table ! index)\<lparr>ipr_name := nname\<rparr>]\<rparr>)\<rparr>)"

text \<open>The search for a size that reaches the target.\<close>

function dn_search :: "nat list \<Rightarrow> nat \<Rightarrow> nat \<Rightarrow> nat" where
  "dn_search its target k =
    (if k < length its \<and> its ! k \<noteq> 0 \<and> its ! k < target then dn_search its target (Suc k) else k)"
  by pat_completeness auto
termination
  by (relation "measure (\<lambda>(its, target, k). length its - k)") auto

text \<open>The new elements \<open>osize\<close> to \<open>nsize - 1\<close> are pushed on the free list, one after the other.\<close>

fun dn_free :: "nat list \<Rightarrow> ipc_port_request list \<Rightarrow> nat \<Rightarrow> ipc_port_request list \<times> nat" where
  "dn_free [] table free = (table, free)"
| "dn_free (i # is) table free =
    dn_free is (table[i := \<lparr>ipr_soright = word_of_nat free, ipr_name = MACH_PORT_NULL\<rparr>]) i"

text \<open>
  The new table: \<open>memory\<close> is what was in it before, its header excepted the old requests are
  copied to its front.
\<close>

definition dn_table :: "nat list \<Rightarrow> nat \<Rightarrow> 32 word \<Rightarrow> ipc_port_request list \<Rightarrow> ipr_table option \<Rightarrow> ipr_table" where
  "dn_table its k addr memory otable =
    (let (osize, free, old) =
           (case otable of
              None \<Rightarrow> (1, 0, [])
            | Some tab \<Rightarrow> (its ! ipr_size tab, ipr_next (ipr_requests tab ! 0),
                           drop 1 (take (its ! ipr_size tab) (ipr_requests tab))));
         ntable = take 1 memory @ old @ drop (1 + length old) memory;
         (ntable1, free1) = dn_free [osize..<its ! k] ntable free
     in \<lparr>ipr_address = addr, ipr_size = k, ipr_requests = set_ipr_next ntable1 0 free1\<rparr>)"

text \<open>
  \<^verbatim>\<open>ipc_port_dngrow\<close>: \<open>alloc\<close> is what \<^verbatim>\<open>it_dnrequests_alloc\<close> returns, an address and the contents
  of the memory; \<open>interim\<close> is what happens to the port while it is not locked; a port left without
  references is freed by the caller of this function in the model.  The old table is
  compared by its address, and by its size once more after the lock is taken.
\<close>

definition ipc_port_dngrow ::
    "nat list \<Rightarrow> nat option \<Rightarrow> (32 word \<times> ipc_port_request list) option \<Rightarrow> (ipc_port \<Rightarrow> ipc_port) \<Rightarrow> ipc_port \<Rightarrow>
     kern_return_t \<times> ipc_port" where
  "ipc_port_dngrow its target alloc interim port =
    (let otable = ip_dnrequests port;
         k0 = (case otable of None \<Rightarrow> 0 | Some tab \<Rightarrow> Suc (ipr_size tab));
         k = (case target of None \<Rightarrow> k0 | Some tsize \<Rightarrow> dn_search its tsize k0)
     in if (case target of None \<Rightarrow> False
            | Some tsize \<Rightarrow> (case otable of None \<Rightarrow> False | Some tab \<Rightarrow> tsize \<le> its ! ipr_size tab))
        then (KERN_SUCCESS, port)
        else if target \<noteq> None \<and> its ! k = 0 then (KERN_NO_SPACE, port)
        else
          let port1 = interim (port\<lparr>ip_references := ip_references port + 1\<rparr>);
              port2 = port1\<lparr>ip_references := ip_references port1 - 1\<rparr>
          in if its ! k = 0 then (KERN_RESOURCE_SHORTAGE, port2)
             else
               (case alloc of
                  None \<Rightarrow> (KERN_RESOURCE_SHORTAGE, port2)
                | Some (addr, memory) \<Rightarrow>
                    if ip_active port2 \<and>
                       map_option ipr_address (ip_dnrequests port2) = map_option ipr_address otable \<and>
                       (case ip_dnrequests port2 of None \<Rightarrow> True | Some tab \<Rightarrow> Suc (ipr_size tab) = k)
                    then (KERN_SUCCESS, port2\<lparr>ip_dnrequests := Some (dn_table its k addr memory (ip_dnrequests port2))\<rparr>)
                    else (KERN_SUCCESS, port2)))"

section \<open>Other requests and settings\<close>

definition ipc_port_pdrequest :: "ipc_port \<Rightarrow> ipc_port_t \<Rightarrow> ipc_port_t \<times> ipc_port" where
  "ipc_port_pdrequest port notify = (ip_pdrequest port, port\<lparr>ip_pdrequest := notify\<rparr>)"

definition ipc_port_nsrequest ::
    "ipc_state \<Rightarrow> ipc_port_t \<Rightarrow> 32 word \<Rightarrow> ipc_port_t \<Rightarrow> ipc_port_t \<times> ipc_state" where
  "ipc_port_nsrequest st p sync notify =
    (let port = st_ports st p; previous = ip_nsrequest port; mscount = ip_mscount port
     in if ip_srights port = 0 \<and> sync \<le> mscount \<and> notify \<noteq> IP_NULL
        then (previous, emit (set_port st p (port\<lparr>ip_nsrequest := IP_NULL\<rparr>)) [Notify_no_senders notify mscount])
        else (previous, set_port st p (port\<lparr>ip_nsrequest := notify\<rparr>)))"

definition ipc_port_set_qlimit :: "ipc_state \<Rightarrow> ipc_port_t \<Rightarrow> 32 word \<Rightarrow> ipc_state" where
  "ipc_port_set_qlimit st p qlimit =
    (let port = st_ports st p;
         wakeup = (if qlimit > ip_qlimit port then unat (qlimit - ip_qlimit port) else 0)
     in emit (set_port st p (port\<lparr>ip_blocked := drop wakeup (ip_blocked port), ip_qlimit := qlimit\<rparr>))
          (map (\<lambda>th. Thread_go (th\<lparr>ith_state := MACH_MSG_SUCCESS\<rparr>)) (take wakeup (ip_blocked port))))"

definition set_seqno :: "ipc_state \<Rightarrow> ipc_port_t \<Rightarrow> 32 word \<Rightarrow> ipc_state" where
  "set_seqno st p seqno = set_port st p ((st_ports st p)\<lparr>ip_seqno := seqno\<rparr>)"

definition ipc_port_set_seqno :: "ipc_config \<Rightarrow> ipc_state \<Rightarrow> ipc_port_t \<Rightarrow> 32 word \<Rightarrow> ipc_state" where
  "ipc_port_set_seqno cfg st p seqno =
    (let pset = ip_pset (st_ports st p)
     in if pset \<noteq> IPS_NULL then
          (if \<not> ips_active (st_psets st pset)
           then set_seqno (ips_check_unlock (ipc_pset_remove cfg st pset p) pset) p seqno
           else set_seqno st p seqno)
        else set_seqno st p seqno)"

definition ipc_port_clear_receiver :: "ipc_config \<Rightarrow> ipc_state \<Rightarrow> ipc_port_t \<Rightarrow> ipc_state" where
  "ipc_port_clear_receiver cfg st p =
    (let pset = ip_pset (st_ports st p);
         st1 = (if pset \<noteq> IPS_NULL then ips_check_unlock (ipc_pset_remove cfg st pset p) pset
                else let port = st_ports st p; (mq, es) = ipc_mqueue_changed (ip_messages port) MACH_RCV_PORT_DIED
                     in emit (set_port st p (port\<lparr>ip_messages := mq\<rparr>)) es)
     in set_port st1 p ((st_ports st1 p)\<lparr>ip_mscount := 0, ip_seqno := 0\<rparr>))"

section \<open>New ports\<close>

definition MACH_PORT_QLIMIT_DEFAULT :: "32 word" where "MACH_PORT_QLIMIT_DEFAULT = 5"

definition ipc_port_init :: "ipc_port \<Rightarrow> space_id \<Rightarrow> mach_port_t \<Rightarrow> ipc_port" where
  "ipc_port_init port space name =
    port\<lparr>ip_receiver := space, ip_receiver_name := name, ip_mscount := 0, ip_srights := 0,
         ip_sorights := 0, ip_nsrequest := IP_NULL, ip_pdrequest := IP_NULL, ip_dnrequests := None,
         ip_pset := IPS_NULL, ip_seqno := 0, ip_msgcount := 0, ip_qlimit := MACH_PORT_QLIMIT_DEFAULT,
         ip_messages := ipc_mqueue_init, ip_blocked := []\<rparr>"

text \<open>\<open>alloc\<close> is the address that \<^verbatim>\<open>io_alloc\<close> returns.\<close>

definition ipc_port_alloc_special ::
    "ipc_state \<Rightarrow> ipc_port_t \<Rightarrow> space_id \<Rightarrow> ipc_port_t \<times> ipc_state" where
  "ipc_port_alloc_special st alloc space =
    (if alloc = IP_NULL then (IP_NULL, st)
     else (alloc, set_port st alloc (ipc_port_init
             ((st_ports st alloc)\<lparr>ip_references := 1, ip_bits := io_makebits True IOT_PORT 0\<rparr>) space 1)))"

section \<open>Send and send-once rights\<close>

text \<open>
  The last send right goes: the registered no-senders request, if there is one, is taken
  out and answered with the make-send count.  The code has these lines in six places.
\<close>

definition drop_send :: "ipc_port \<Rightarrow> ipc_port \<times> ipc_event list" where
  "drop_send port =
    (let srights = ip_srights port - 1; port1 = port\<lparr>ip_srights := srights\<rparr>
     in if srights = 0 \<and> ip_nsrequest port \<noteq> IP_NULL
        then (port1\<lparr>ip_nsrequest := IP_NULL\<rparr>, [Notify_no_senders (ip_nsrequest port) (ip_mscount port)])
        else (port1, []))"

definition ipc_port_make_send :: "ipc_state \<Rightarrow> ipc_port_t \<Rightarrow> ipc_port_t \<times> ipc_state" where
  "ipc_port_make_send st p =
    (let port = st_ports st p
     in (p, set_port st p (port\<lparr>ip_mscount := ip_mscount port + 1, ip_srights := ip_srights port + 1,
                                 ip_references := ip_references port + 1\<rparr>)))"

text \<open>Copying and releasing assert that there is a send right; where that fails the result is \<open>None\<close>.\<close>

definition ipc_port_copy_send :: "ipc_state \<Rightarrow> ipc_port_t \<Rightarrow> (ipc_port_t \<times> ipc_state) option" where
  "ipc_port_copy_send st p =
    (if \<not> IO_VALID p then Some (p, st)
     else
       let port = st_ports st p
       in if ip_active port
          then (if ip_srights port = 0 then None
                else Some (p, set_port st p (port\<lparr>ip_references := ip_references port + 1, ip_srights := ip_srights port + 1\<rparr>)))
          else Some (IP_DEAD, st))"

definition ipc_port_release_send :: "ipc_state \<Rightarrow> ipc_port_t \<Rightarrow> ipc_state option" where
  "ipc_port_release_send st p =
    (let port = (st_ports st p)\<lparr>ip_references := ip_references (st_ports st p) - 1\<rparr>
     in if \<not> IO_VALID p then None
        else if \<not> ip_active port then Some (ip_check_unlock (set_port st p port) p)
        else if ip_srights port = 0 then None
        else case drop_send port of (port', es) \<Rightarrow> Some (emit (set_port st p port') es))"

definition ipc_port_make_sonce :: "ipc_state \<Rightarrow> ipc_port_t \<Rightarrow> ipc_port_t \<times> ipc_state" where
  "ipc_port_make_sonce st p =
    (let port = st_ports st p
     in (p, set_port st p (port\<lparr>ip_sorights := ip_sorights port + 1, ip_references := ip_references port + 1\<rparr>)))"

definition ipc_port_release_sonce :: "ipc_state \<Rightarrow> ipc_port_t \<Rightarrow> ipc_state" where
  "ipc_port_release_sonce st p =
    (let port = (st_ports st p)\<lparr>ip_references := ip_references (st_ports st p) - 1\<rparr>
     in if \<not> ip_active port then ip_check_unlock (set_port st p port) p
        else set_port st p (port\<lparr>ip_sorights := ip_sorights port - 1\<rparr>))"

text \<open>A send-once right for the receiver of a name; \<^verbatim>\<open>IP_NULL\<close> when the name is no receive right.\<close>

definition ipc_port_lookup_notify :: "ipc_state \<Rightarrow> space_id \<Rightarrow> mach_port_t \<Rightarrow> ipc_port_t \<times> ipc_state" where
  "ipc_port_lookup_notify st sid name =
    (case ipc_entry_lookup (st_spaces st sid) name of
       (None, space) \<Rightarrow> (IP_NULL, set_space st sid space)
     | (Some r, space) \<Rightarrow>
         let st1 = set_space st sid space
         in (case entry_at space r of
               None \<Rightarrow> (IP_NULL, st1)
             | Some entry \<Rightarrow>
                 if ie_bits entry AND MACH_PORT_TYPE_RECEIVE = 0 then (IP_NULL, st1)
                 else ipc_port_make_sonce st1 (ie_object entry)))"

definition ipc_port_copyout_receiver :: "ipc_state \<Rightarrow> ipc_port_t \<Rightarrow> space_id \<Rightarrow> mach_port_t \<times> ipc_state" where
  "ipc_port_copyout_receiver st p space =
    (if \<not> IO_VALID p then (MACH_PORT_NULL, st)
     else
       let port = st_ports st p
       in (if ip_receiver port = space then ip_receiver_name port else MACH_PORT_NULL,
           ipc_port_release st p))"

section \<open>Circularity\<close>

definition in_transit :: "ipc_port \<Rightarrow> bool" where
  "in_transit port \<longleftrightarrow> ip_active port \<and> ip_receiver_name port = MACH_PORT_NULL \<and> ip_destination port \<noteq> IP_NULL"

text \<open>The search for the end of the chain; \<open>None\<close> when it has not ended after \<open>fuel\<close> steps.\<close>

fun chain_end :: "nat \<Rightarrow> (ipc_port_t \<Rightarrow> ipc_port) \<Rightarrow> ipc_port_t \<Rightarrow> ipc_port_t option" where
  "chain_end 0 ports base = None"
| "chain_end (Suc fuel) ports base =
    (if in_transit (ports base) then chain_end fuel ports (ip_destination (ports base)) else Some base)"

definition put_in_transit :: "ipc_state \<Rightarrow> ipc_port_t \<Rightarrow> ipc_port_t \<Rightarrow> ipc_state" where
  "put_in_transit st p dest =
    (let st1 = ipc_port_reference st dest in set_port st1 p ((st_ports st1 p)\<lparr>ip_receiver := dest\<rparr>))"

text \<open>
  \<open>try\<close> says whether the attempt to lock the destination succeeds; \<open>interim\<close> is what happens before
  the lock for multiple ports is taken.
\<close>

definition ipc_port_check_circularity ::
    "nat \<Rightarrow> bool \<Rightarrow> (ipc_state \<Rightarrow> ipc_state) \<Rightarrow> ipc_state \<Rightarrow> ipc_port_t \<Rightarrow> ipc_port_t \<Rightarrow> (bool \<times> ipc_state) option" where
  "ipc_port_check_circularity fuel try interim st p dest =
    (if p = dest then Some (True, st)
     else if try \<and> \<not> in_transit (st_ports st dest) then Some (False, put_in_transit st p dest)
     else
       let st1 = interim st
       in map_option (\<lambda>base. if p = base then (True, st1) else (False, put_in_transit st1 p dest))
            (chain_end fuel (st_ports st1) dest))"

end
