(* ===== verification/Example_Space.thy ===== *)
theory Example_Space
  imports Entry_Alloc Ipc_Port
begin

text \<open>
  Concrete inputs for the laws: the sizes 2, 4, 4 for the table, a global hash table of four
  buckets, a space made by \<open>ipc_space_create\<close> and a state with it.
\<close>

section \<open>Trees and spaces\<close>

definition example_tree :: "nat ipc_splay_tree" where
  "example_tree =
    ipc_splay_tree_insert
      (ipc_splay_tree_insert
        \<lparr>ist_name = 0, ist_root = ITE_NULL, ist_ltree = [], ist_rtree = [], ist_current = ITE_NULL,
         ist_parent = []\<rparr> 0x305 1)
      0x107 2"

lemma example_tree_ok: "ist_ok example_tree"
  by code_simp

lemma example_tree_list: "ist_list example_tree = [(0x107, 2), (0x305, 1)]"
  by code_simp

definition example_sizes :: "nat list" where
  "example_sizes = [2, 4, 4]"

definition example_hash :: ipc_hash_global where
  "example_hash = \<lparr>ipc_hash_global_size = 4, ipc_hash_global_mask = 3, ipc_hash_global_table = [[], [], [], []]\<rparr>"

definition blank_tree :: "ipc_entry ipc_splay_tree" where
  "blank_tree = \<lparr>ist_name = 0, ist_root = ITE_NULL, ist_ltree = [], ist_rtree = [],
     ist_current = ITE_NULL, ist_parent = []\<rparr>"

definition example_space :: ipc_space where
  "example_space =
    \<lparr>is_references = 2, is_active = True, is_growing = False, is_table = initial_table 2,
     is_table_size = 2, is_table_next = 1, is_tree = blank_tree, is_tree_total = 0,
     is_tree_small = 0, is_tree_hash = 0, is_notify = IO_NULL\<rparr>"

definition idle :: unlocked where
  "idle = \<lparr>got_memory = True, others = (\<lambda>w. w)\<rparr>"

lemma idle_quiet [simp]: "quiet idle"
  by (simp add: quiet_def idle_def)

lemma example_sizes_ok: "entry_sizes example_sizes"
proof
  fix i j :: nat
  assume "i < j" "j < length example_sizes - 1"
  then have "i = 0" "j = 1" by (simp_all add: example_sizes_def)
  then show "example_sizes ! i < example_sizes ! j" by (simp add: example_sizes_def)
next
  fix i assume "i < length example_sizes"
  then have "i = 0 \<or> i = 1 \<or> i = 2" by (auto simp: example_sizes_def)
  then show "example_sizes ! i \<le> MACH_PORT_INDEX MACH_PORT_DEAD"
    by (auto simp: example_sizes_def MACH_PORT_INDEX_DEAD)
qed (simp_all add: example_sizes_def)

lemma example_hash_ok: "ipc_hash_init 4 0 = Some example_hash" "gh_ok example_hash" "gh_map example_hash = Map.empty"
proof -
  show init: "ipc_hash_init 4 0 = Some example_hash" by code_simp
  show "gh_ok example_hash" "gh_map example_hash = Map.empty"
    using ipc_hash_init_spec [of 4 0] init by auto
qed

lemma example_space_create: "ipc_space_create example_sizes 0 True True blank_tree = Inr example_space"
  by (simp add: ipc_space_create_def example_sizes_def example_space_def ipc_splay_tree_init_def blank_tree_def)

lemma example_space_ok:
  "space_ok example_sizes 16 {} example_hash example_space" "caps {} example_space = Map.empty"
  "is_active example_space" "\<not> is_growing example_space" "is_table_next example_space = 1"
  using space_create_spec [OF example_sizes_ok, of 0 example_hash 16 blank_tree example_space]
    example_hash_ok example_space_create
  by (simp_all add: example_sizes_def)

text \<open>The same space after the first allocation: slot 1 is taken, with generation 0.\<close>

definition example_got :: ipc_space where
  "example_got = example_space\<lparr>is_table :=
    [\<lparr>ie_bits = IE_BITS_GEN_MASK, ie_object = IO_NULL, ie_request = 0, ie_index = 0\<rparr>,
     \<lparr>ie_bits = 0, ie_object = IO_NULL, ie_request = 0, ie_index = 0\<rparr>]\<rparr>"

lemma example_get:
  "ipc_entry_get example_space = Inr (0x100, In_table 1, example_got)" "detached example_got 0x100 (In_table 1)"
  by code_simp+

section \<open>Ports and states\<close>

definition no_messages :: ipc_mqueue where
  "no_messages = \<lparr>imq_messages = [], imq_threads = []\<rparr>"

text \<open>A port that is not in use, and a live port without rights, received by nobody.\<close>

definition blank_port :: ipc_port where
  "blank_port = \<lparr>ip_references = 0, ip_bits = 0, ip_receiver = 0, ip_receiver_name = MACH_PORT_NULL, ip_mscount = 0,
     ip_srights = 0, ip_sorights = 0, ip_nsrequest = IP_NULL, ip_pdrequest = IP_NULL, ip_dnrequests = None,
     ip_pset = IPS_NULL, ip_seqno = 0, ip_msgcount = 0, ip_qlimit = 5, ip_messages = no_messages, ip_blocked = []\<rparr>"

definition live_port :: ipc_port where
  "live_port = blank_port\<lparr>ip_references := 1, ip_bits := IO_BITS_ACTIVE\<rparr>"

definition blank_pset :: ipc_pset where
  "blank_pset = \<lparr>ips_references = 1, ips_bits = IO_BITS_ACTIVE, ips_local_name = MACH_PORT_NULL, ips_messages = no_messages\<rparr>"

definition example_marequests :: ipc_marequests where
  "example_marequests = \<lparr>ipc_marequest_size = 2, ipc_marequest_mask = 1, ipc_marequest_table = [[], []],
     imar_at = (\<lambda>_. \<lparr>imar_space = 0, imar_name = MACH_PORT_NULL, imar_soright = IO_NULL\<rparr>)\<rparr>"

definition example_config :: ipc_config where
  "example_config = \<lparr>ipc_table_entries = example_sizes, ipc_table_dnrequests = [3, 5, 0], trailer_size = (\<lambda>_. 0)\<rparr>"

text \<open>No port is in use, and there is one space, with no names.\<close>

definition example_state :: ipc_state where
  "example_state = \<lparr>st_ports = (\<lambda>_. blank_port), st_psets = (\<lambda>_. blank_pset), st_spaces = (\<lambda>_. example_space),
     st_hash = example_hash, st_marequests = example_marequests, st_timestamp = 0, st_events = []\<rparr>"

lemma blank_port_inactive [simp]: "\<not> ip_active blank_port"
  by (simp add: blank_port_def io_active_bit)

lemma live_port_active [simp]: "ip_active live_port"
  by (simp add: live_port_def io_active_bit IO_BITS_ACTIVE_def bit_simps)

lemma io_active_ACTIVE [simp]: "io_active IO_BITS_ACTIVE"
  by (simp add: io_active_bit IO_BITS_ACTIVE_def bit_simps)

end
