(* ===== verification/Space_Laws.thy ===== *)
theory Space_Laws
  imports Example_Space
begin

text \<open>
  The laws of the name-space layer: what a client of \<^verbatim>\<open>ipc_splay.c\<close>, \<^verbatim>\<open>ipc_table.c\<close>,
  \<^verbatim>\<open>ipc_hash.c\<close>, \<^verbatim>\<open>ipc_entry.c\<close> and \<^verbatim>\<open>ipc_space_create\<close> may rely on.  The abstract view of a space is
  \<open>caps\<close>, the map from names to capabilities; each law of an operation on entries says what the
  operation does to that map and that it keeps the invariant \<open>space_ok\<close>.

  Each law with hypotheses is applied at a concrete input by the theorem after it.
\<close>

section \<open>Name trees\<close>

text \<open>
  C34: Inserting a name that is not in the tree makes lookups of that name return the entry and
  changes no other lookup, and it keeps the invariant of the tree.
\<close>

theorem splay_insert_lookup:
  assumes "ist_ok splay" and "fst (ipc_splay_tree_lookup splay name) = None"
  shows "ist_ok (ipc_splay_tree_insert splay name entry) \<and>
    (\<forall>m. fst (ipc_splay_tree_lookup (ipc_splay_tree_insert splay name entry) m) =
      (if m = name then Some entry else fst (ipc_splay_tree_lookup splay m)))"
proof -
  have "map_of (ist_list splay) name = None"
    using assms(2) lookup_spec(1) [OF assms(1) surjective_pairing, of name] by simp
  note ins = splay.lookup_insert [OF assms(1) this, of entry] splay.insert_law [OF assms(1) this, of entry]
  show ?thesis using ins(2) by (simp add: ins(1))
qed

theorem splay_insert_lookup_witness:
  "fst (ipc_splay_tree_lookup (ipc_splay_tree_insert example_tree 0x209 7) 0x305) = Some 1"
proof -
  have "fst (ipc_splay_tree_lookup example_tree 0x209) = None" by code_simp
  moreover have "fst (ipc_splay_tree_lookup example_tree 0x305) = Some 1" by code_simp
  ultimately show ?thesis using splay_insert_lookup [of example_tree "0x209" 7] example_tree_ok by simp
qed

text \<open>
  Deleting a name that is in the tree makes lookups of that name fail and changes no other
  lookup, and it keeps the invariant of the tree.
\<close>

theorem splay_delete_lookup:
  assumes "ist_ok splay" and "fst (ipc_splay_tree_lookup splay name) \<noteq> None"
  shows "ist_ok (ipc_splay_tree_delete splay name) \<and>
    (\<forall>m. fst (ipc_splay_tree_lookup (ipc_splay_tree_delete splay name) m) =
      (if m = name then None else fst (ipc_splay_tree_lookup splay m)))"
proof -
  obtain e where "map_of (ist_list splay) name = Some e"
    using assms(2) lookup_spec(1) [OF assms(1) surjective_pairing, of name] by auto
  note del = splay.lookup_delete [OF assms(1) this] splay.delete_law [OF assms(1) this]
  show ?thesis using del(2) by (simp add: del(1))
qed

theorem splay_delete_lookup_witness:
  "fst (ipc_splay_tree_lookup (ipc_splay_tree_delete example_tree 0x107) 0x305) = Some 1"
proof -
  have "fst (ipc_splay_tree_lookup example_tree 0x107) \<noteq> None" by code_simp
  moreover have "fst (ipc_splay_tree_lookup example_tree 0x305) = Some 1" by code_simp
  ultimately show ?thesis using splay_delete_lookup [of example_tree "0x107"] example_tree_ok by simp
qed

text \<open>
  Splitting a tree at a name and joining the two parts again gives a tree with the same
  lookups; the first part has the names from the given one on, the second part those below.
\<close>

theorem splay_split_join:
  assumes "ist_ok splay" and "ipc_splay_tree_split splay name small0 = (big, small)"
  shows "(\<forall>m. fst (ipc_splay_tree_lookup big m) =
        (if name \<le> m then fst (ipc_splay_tree_lookup splay m) else None)) \<and>
    (\<forall>m. fst (ipc_splay_tree_lookup small m) =
        (if m < name then fst (ipc_splay_tree_lookup splay m) else None)) \<and>
    ist_ok (fst (ipc_splay_tree_join big small)) \<and>
    (\<forall>m. fst (ipc_splay_tree_lookup (fst (ipc_splay_tree_join big small)) m) =
        fst (ipc_splay_tree_lookup splay m))"
proof -
  obtain t' s' where j: "ipc_splay_tree_join big small = (t', s')" by fastforce
  have look: "fst (ipc_splay_tree_lookup t m) = map_of (ist_list t) m" if "ist_ok t" for t :: "'a ipc_splay_tree" and m
    using lookup_spec(1) [OF that surjective_pairing] by simp
  have filter: "map_of (filter (\<lambda>x. Q (fst x)) xs) m = (if Q m then map_of xs m else None)"
    for Q and xs :: "(mach_port_t \<times> 'a) list" and m
    by (induction xs) auto
  note sp = splay.split_law [OF assms] and js = splay.join_split [OF assms j]
  show ?thesis using sp js assms(1) j by (simp add: look filter [of "\<lambda>m. name \<le> m"] filter [of "\<lambda>m. m < name"])
qed

theorem splay_split_join_witness:
  "fst (ipc_splay_tree_lookup (fst (ipc_splay_tree_join
      (fst (ipc_splay_tree_split example_tree 0x200 example_tree))
      (snd (ipc_splay_tree_split example_tree 0x200 example_tree)))) 0x107) = Some 2"
proof -
  have "fst (ipc_splay_tree_lookup example_tree 0x107) = Some 2" by code_simp
  then show ?thesis
    using splay_split_join [OF example_tree_ok surjective_pairing, of "0x200" example_tree] by simp
qed

text \<open>
  C35: A traversal ends, visits the entries in ascending order of their names, each once, and
  leaves exactly those that the loop's body did not ask to delete: fuel for the number of
  entries is enough, whatever the body deletes on the way.
\<close>

theorem splay_traverse_fold:
  assumes "ist_ok splay"
  shows "\<exists>splay'. ipc_splay_traverse (length (ist_list splay)) body splay st =
      Some (fst (traverse_fold body (ist_list splay) st), splay') \<and>
    ist_ok splay' \<and> ist_list splay' = snd (traverse_fold body (ist_list splay) st) \<and>
    sorted_wrt (<) (map fst (ist_list splay))"
proof -
  have "sorted_wrt (<) (map fst (ist_list splay))"
    using ist_ok_ascending [OF assms] by (simp add: ascending_def)
  then show ?thesis using traverse_spec [OF assms order_refl, of body st] by blast
qed

theorem splay_traverse_fold_witness:
  "\<exists>splay'. ipc_splay_traverse 2 (\<lambda>x st. (snd x # st, fst x = 0x107)) example_tree [] = Some ([1, 2], splay') \<and>
    ist_list splay' = [(0x305, 1)]"
proof -
  have "length (ist_list example_tree) = 2" by (simp add: example_tree_list)
  from splay_traverse_fold [OF example_tree_ok, of "\<lambda>x st. (snd x # st, fst x = 0x107)" "[]", unfolded this]
  show ?thesis by (auto simp: example_tree_list)
qed

text \<open>
  C36: The test for a collision is exact: with valid names in the tree it says yes iff a name of
  the tree has the same index as the given one, and it changes nothing but the shape of the tree.
\<close>

theorem tree_collision_exact:
  assumes "ist_ok (is_tree space)" and "\<forall>x \<in> set (ist_list (is_tree space)). MACH_PORT_VALID (fst x)"
  shows "fst (ipc_entry_tree_collision space name) =
      (\<exists>x \<in> set (ist_list (is_tree space)). MACH_PORT_INDEX (fst x) = MACH_PORT_INDEX name) \<and>
    (\<exists>tree. snd (ipc_entry_tree_collision space name) = space\<lparr>is_tree := tree\<rparr> \<and>
      ist_ok tree \<and> ist_list tree = ist_list (is_tree space))"
proof -
  obtain lo hi tree where b: "ipc_splay_tree_bounds (is_tree space) name = (lo, hi, tree)"
    by (cases "ipc_splay_tree_bounds (is_tree space) name") auto
  have "(m, e) \<in> set (ist_list (is_tree space)) \<Longrightarrow> MACH_PORT_VALID m" for m e using assms(2) by auto
  note col = splay.bounds_collision [OF assms(1) b this]
  show ?thesis
    using col splay.bounds_law [OF assms(1) b] by (auto simp: ipc_entry_tree_collision_def b)
qed

theorem tree_collision_exact_witness:
  "\<not> fst (ipc_entry_tree_collision example_space 0x305)"
  using tree_collision_exact [of example_space "0x305"] space_okD(4) [OF example_space_ok(1)]
  by (simp add: example_space_def blank_tree_def ist_list_def)

section \<open>Sizes of tables\<close>

text \<open>
  C37: For every page size from 64 bytes to 64 kilobytes, \<^verbatim>\<open>ipc_table_init\<close> fills the array of table
  sizes so that it ascends strictly up to the last element, which repeats the one before; every
  size is positive and no subscript of a table of that size, with any generation, makes the
  name \<^verbatim>\<open>MACH_PORT_DEAD\<close>.
\<close>

theorem table_sizes:
  assumes "6 \<le> p" and "p \<le> 16" and "its = fst (ipc_table_init (2 ^ p))"
  shows "2 \<le> length its \<and> its ! (length its - 1) = its ! (length its - 2) \<and>
    (\<forall>j < length its - 1. \<forall>i < j. its ! i < its ! j) \<and>
    (\<forall>k < length its. 0 < its ! k \<and> (\<forall>index < its ! k. \<forall>gen. MACH_PORT_MAKE index gen \<noteq> MACH_PORT_DEAD))"
proof -
  have its: "entry_sizes its" using entry_sizes_init [OF assms(1,2)] assms(3) by simp
  have "MACH_PORT_MAKE index gen \<noteq> MACH_PORT_DEAD" if "k < length its" "index < its ! k" for k index gen
  proof
    assume "MACH_PORT_MAKE index gen = MACH_PORT_DEAD"
    moreover have "index < 2 ^ 24 - 1"
      using entry_sizes.largest [OF its that(1)] that(2) by (simp add: MACH_PORT_INDEX_DEAD)
    moreover from this have "MACH_PORT_INDEX (MACH_PORT_MAKE index gen) = index"
      by (intro MACH_PORT_INDEX_MAKE) simp
    ultimately show False by (simp add: MACH_PORT_INDEX_DEAD)
  qed
  then show ?thesis
    using entry_sizes.two [OF its] entry_sizes.last_two [OF its] entry_sizes.increasing [OF its]
      entry_sizes.positive [OF its] by blast
qed

theorem table_sizes_witness: "0 < fst (ipc_table_init 4096) ! 0"
  using table_sizes [of 12 "fst (ipc_table_init 4096)"] by (auto dest: spec [of _ 0])

section \<open>Reverse hash tables\<close>

text \<open>
  C33: The local table by linear probing: entering an object that is not there ends, and then a
  lookup finds it and every object that was there before; removing it again gives the same
  lookups as at first.  The invariant is that no empty slot lies between an entry and its home.
\<close>

theorem local_hash_round_trip:
  assumes "local_ok space" and "local_map space obj = None" and "local_fits space obj index"
  shows "\<exists>space1 space2. ipc_hash_local_insert space obj index = Some space1 \<and> local_ok space1 \<and>
    (\<forall>o'. map_option (map_option snd) (ipc_hash_local_lookup space1 o') =
      (if o' = obj then Some (Some index) else map_option (map_option snd) (ipc_hash_local_lookup space o'))) \<and>
    ipc_hash_local_delete space1 obj index = Some space2 \<and> local_ok space2 \<and>
    (\<forall>o'. map_option (map_option snd) (ipc_hash_local_lookup space2 o') =
      map_option (map_option snd) (ipc_hash_local_lookup space o'))"
proof -
  have look: "map_option (map_option snd) (ipc_hash_local_lookup s k) = Some (local_map s k)" if "local_ok s" for s k
    using ipc_hash_local_lookup_spec [OF that, of k] by auto
  obtain s1 where s1: "ipc_hash_local_insert space obj index = Some s1" "local_ok s1"
    "local_map s1 = (local_map space)(obj \<mapsto> index)"
    using local_hash.insert [OF assms] by blast
  obtain s2 where s2: "ipc_hash_local_delete s1 obj index = Some s2" "local_ok s2"
    "local_map s2 = (local_map s1)(obj := None)"
    using local_hash.delete [OF s1(2), of obj index] s1(3) by auto
  show ?thesis using s1 s2 assms(1,2) by (simp add: look fun_eq_iff del: map_option_eq_Some)
qed

definition example_rights :: ipc_space where
  "example_rights = example_space\<lparr>is_table :=
    [\<lparr>ie_bits = IE_BITS_GEN_MASK, ie_object = IO_NULL, ie_request = 0, ie_index = 0\<rparr>,
     \<lparr>ie_bits = MACH_PORT_TYPE_SEND, ie_object = 0x80, ie_request = 0, ie_index = 0\<rparr>]\<rparr>"

lemma example_rights_ok:
  "local_ok example_rights" "local_map example_rights = Map.empty" "local_fits example_rights 0x80 1"
proof -
  have slot: "slot (is_table example_rights) h = 0" if "h < 2" for h
    using that by (cases h) (auto simp: slot_def example_rights_def less_Suc_eq numeral_2_eq_2)
  then have e: "entered (is_table example_rights) = {}"
    by (auto simp: entered_def example_rights_def numeral_2_eq_2)
  have "lh_ok (is_table example_rights)"
    using slot by (intro lh_okI) (auto simp: lh_chain_def example_rights_def numeral_2_eq_2)
  then show ok: "local_ok example_rights"
    by (simp add: local_ok_def example_rights_def example_space_def)
  show "local_map example_rights = Map.empty"
    by (simp add: fun_eq_iff local_map_def e)
  show "local_fits example_rights 0x80 1"
    using e by (simp add: local_fits_def example_rights_def IO_NULL_def)
qed

theorem local_hash_round_trip_witness:
  "\<exists>space1. ipc_hash_local_insert example_rights 0x80 1 = Some space1 \<and>
    map_option (map_option snd) (ipc_hash_local_lookup space1 0x80) = Some (Some 1)"
proof -
  have "local_map example_rights 0x80 = None" by (simp add: example_rights_ok(2))
  from local_hash_round_trip [OF example_rights_ok(1) this example_rights_ok(3)]
  show ?thesis by (elim exE conjE, intro exI conjI) (assumption, simp)
qed

text \<open>
  The global table of buckets with move-to-front: entering the name of an object of a space
  makes a lookup find it and changes no other answer, and removing it gives the answers as at
  first.  The space's count of entered names goes up by one and back.
\<close>

theorem global_hash_round_trip:
  assumes "gh_ok g" and "fst (ipc_hash_global_lookup g sid obj) = None"
    and "ipc_hash_global_insert g sid space obj name = (g1, space1)"
    and "ipc_hash_global_delete g1 sid space1 obj name = (g2, space2)"
  shows "gh_ok g1 \<and> (\<forall>sid' o'. fst (ipc_hash_global_lookup g1 sid' o') =
      (if sid' = sid \<and> o' = obj then Some name else fst (ipc_hash_global_lookup g sid' o'))) \<and>
    is_tree_hash space1 = is_tree_hash space + 1 \<and> gh_ok g2 \<and>
    (\<forall>sid' o'. fst (ipc_hash_global_lookup g2 sid' o') = fst (ipc_hash_global_lookup g sid' o')) \<and> space2 = space"
proof -
  have look: "fst (ipc_hash_global_lookup h sid' o') = gh_map h (sid', o')" if "gh_ok h" for h sid' o'
    using global_lookup_spec [OF that, of sid' o'] by (auto simp: prod_eq_iff)
  have none: "gh_map g (sid, obj) = None" using assms(1,2) by (simp add: look)
  note ins = global_insert_spec [OF assms(1) none, of space name]
  have g1: "g1 = fst (ipc_hash_global_insert g sid space obj name)" using assms(3) by simp
  have "gh_map g1 (sid, obj) = Some name" "gh_ok g1" using ins g1 by simp_all
  note del = global_delete_spec [OF this(2,1), of space1]
  have g2: "g2 = fst (ipc_hash_global_delete g1 sid space1 obj name)" using assms(4) by simp
  have "space1 = space\<lparr>is_tree_hash := is_tree_hash space + 1\<rparr>" "space2 = space1\<lparr>is_tree_hash := is_tree_hash space1 - 1\<rparr>"
    using assms(3,4) by (auto simp: ipc_hash_global_insert_def ipc_hash_global_delete_def Let_def)
  then show ?thesis using ins del none assms(1) by (auto simp: look g1 g2)
qed

theorem global_hash_round_trip_witness:
  "fst (ipc_hash_global_lookup (fst (ipc_hash_global_insert example_hash 16 example_space 0x80 0x305)) 16 0x80)
    = Some 0x305"
proof -
  have "fst (ipc_hash_global_lookup example_hash 16 0x80) = None" by code_simp
  from global_hash_round_trip [OF example_hash_ok(2) this surjective_pairing surjective_pairing]
  show ?thesis by simp
qed

text \<open>
  For every configured size from 2 to $2^{31}$ that is a 32-bit number, the initialisation
  rounds it up to the next power of two, ends, and gives an empty table whose mask selects
  exactly its buckets.
\<close>

theorem hash_init_power_of_two:
  assumes "2 \<le> unat size0" "unat size0 \<le> 2 ^ 31"
  shows "\<exists>k g. ipc_hash_init size0 tmax = Some g \<and> ipc_hash_global_size g = 2 ^ k \<and> k \<le> 31 \<and>
    unat size0 \<le> 2 ^ k \<and> 2 ^ k < 2 * unat size0 \<and> ipc_hash_global_mask g = 2 ^ k - 1 \<and>
    length (ipc_hash_global_table g) = 2 ^ k \<and> gh_ok g \<and>
    (\<forall>sid obj. fst (ipc_hash_global_lookup g sid obj) = None)"
proof -
  obtain k g where g: "ipc_hash_init size0 tmax = Some g" "ipc_hash_global_size g = 2 ^ k" "k \<le> 31"
    "unat size0 \<le> 2 ^ k" "2 ^ k < 2 * unat size0" "ipc_hash_global_mask g = 2 ^ k - 1" "gh_ok g" "gh_map g = Map.empty"
    using ipc_hash_init_spec [OF assms, of tmax] by blast
  have "length (ipc_hash_global_table g) = unat (ipc_hash_global_size g)"
    using g(1) by (auto simp: ipc_hash_init_def Let_def split: if_splits option.splits prod.splits)
  then have "length (ipc_hash_global_table g) = 2 ^ k" using g(2,3) unat_two_power(1) [of k] by simp
  moreover have "fst (ipc_hash_global_lookup g sid obj) = None" for sid obj
    using global_lookup_spec [OF g(7), of sid obj] g(8) by (auto simp: prod_eq_iff)
  ultimately show ?thesis using g by blast
qed

theorem hash_init_power_of_two_witness: "\<exists>g. ipc_hash_init 5 0 = Some g \<and> ipc_hash_global_mask g = 7"
proof -
  have u: "unat (5 :: 32 word) = 5" by simp
  obtain k g where g: "ipc_hash_init 5 0 = Some g" "unat (5 :: 32 word) \<le> 2 ^ k" "2 ^ k < 2 * unat (5 :: 32 word)"
    "ipc_hash_global_mask g = 2 ^ k - 1"
    using hash_init_power_of_two [of 5 0] u by auto
  then have "k < 4" "2 < k" using power_less_imp_less_exp [of "2::nat" k 4] power_less_imp_less_exp [of "2::nat" 2 k] u
    by simp_all
  then have "k = 3" by simp
  with g show ?thesis by simp
qed

section \<open>Spaces and entries\<close>

text \<open>
  Creating a space fails with \<^verbatim>\<open>KERN_RESOURCE_SHORTAGE\<close> iff one of the two allocations does; else
  the new space is active, has no names, and its free list, tree and hash tables meet the
  invariant of spaces.
\<close>

theorem space_create:
  assumes "entry_sizes its" and "Suc initial < length its" and "gh_ok g"
    and "\<forall>obj. fst (ipc_hash_global_lookup g sid obj) = None"
  shows "case ipc_space_create its initial space_memory table_memory tree of
      Inl kr \<Rightarrow> kr = KERN_RESOURCE_SHORTAGE \<and> \<not> (space_memory \<and> table_memory)
    | Inr s \<Rightarrow> space_memory \<and> table_memory \<and> space_ok its sid {} g s \<and> caps {} s = Map.empty \<and>
        is_active s \<and> \<not> is_growing s \<and> is_references s = 2"
proof (cases "space_memory \<and> table_memory")
  case True
  then obtain s where s: "ipc_space_create its initial True True tree = Inr s" "is_references s = 2"
    by (simp add: ipc_space_create_def Let_def)
  have "\<forall>obj. gh_map g (sid, obj) = None" using assms(4) by (simp add: global_lookup_spec(1) [OF assms(3)])
  from space_create_spec [OF assms(1-3) this s(1)] True s show ?thesis by simp
next
  case False
  then show ?thesis by (auto simp: ipc_space_create_def)
qed

theorem space_create_witness: "space_ok example_sizes 16 {} example_hash example_space"
proof -
  have "\<forall>obj. fst (ipc_hash_global_lookup example_hash 16 obj) = None"
    by (simp add: global_lookup_spec(1) [OF example_hash_ok(2)] example_hash_ok(3))
  moreover have "Suc 0 < length example_sizes" by (simp add: example_sizes_def)
  ultimately show ?thesis
    using space_create [OF example_sizes_ok _ example_hash_ok(2), of 0 16 True True blank_tree]
    by (simp add: example_space_create)
qed

text \<open>
  C23: A lookup returns the entry of the capability that the name stands for, and nothing when
  the name stands for none; it changes at most the shape of the tree.  The exception is
  the name of index 0 whose generation is that of the head of the free list.
\<close>

theorem entry_lookup:
  assumes "space_ok its sid {} g s" and "\<not> shadowed name"
  shows "(case caps {} s name of
      None \<Rightarrow> fst (ipc_entry_lookup s name) = None
    | Some c \<Rightarrow> (\<exists>r e. fst (ipc_entry_lookup s name) = Some r \<and> entry_at s r = Some e \<and> capability e = c)) \<and>
    space_ok its sid {} g (snd (ipc_entry_lookup s name)) \<and>
    caps {} (snd (ipc_entry_lookup s name)) = caps {} s"
proof -
  obtain r tree where l: "ipc_entry_lookup s name = (r, s\<lparr>is_tree := tree\<rparr>)"
    "ist_list tree = ist_list (is_tree s)" "ist_ok tree"
    "case caps {} s name of None \<Rightarrow> r = None
     | Some c \<Rightarrow> (\<exists>ref e. r = Some ref \<and> entry_at s ref = Some e \<and> capability e = c)"
    using ipc_entry_lookup_spec [OF assms] by blast
  then show ?thesis using space_ok_splay [OF assms(1) l(2,3)] by (auto split: option.splits)
qed

theorem entry_lookup_witness: "fst (ipc_entry_lookup example_space 0x105) = None"
proof -
  have "\<not> shadowed 0x105" by code_simp
  from entry_lookup [OF example_space_ok(1) this] show ?thesis by (simp add: example_space_ok(2))
qed

text \<open>
  \<^verbatim>\<open>ipc_entry_get\<close> fails iff no slot of the table is free; else it hands out a valid name that
  stood for nothing, in a slot of the table, and no other name changes.
\<close>

theorem entry_get:
  assumes "space_ok its sid {} g s" and "entry_sizes its"
  shows "case ipc_entry_get s of
      Inl kr \<Rightarrow> kr = KERN_NO_SPACE \<and> free_slots {} (is_table s) = {}
    | Inr (name, r, s') \<Rightarrow>
        free_slots {} (is_table s) \<noteq> {} \<and> MACH_PORT_VALID name \<and> r = In_table (MACH_PORT_INDEX name) \<and>
        caps {} s name = None \<and> space_ok its sid {r} g s' \<and> caps {r} s' = (caps {} s)(name \<mapsto> (0, IO_NULL, 0)) \<and>
        is_tree s' = is_tree s"
proof -
  have "free_slots {} (is_table s) \<noteq> {}" if "ipc_entry_get s = Inr z" for z
  proof
    assume none: "free_slots {} (is_table s) = {}"
    obtain fl where "linked (is_table s) 0 fl" "set fl = free_slots {} (is_table s)"
      by (rule free_okE [OF space_okD(3) [OF assms(1)]])
    then have "ie_next (is_table s ! 0) = 0" using none by simp
    with that show False by (simp add: ipc_entry_get_def)
  qed
  moreover have "is_tree s' = is_tree s" if "ipc_entry_get s = Inr (name, r, s')" for name r s'
    using that by (auto simp: ipc_entry_get_def Let_def split: if_splits)
  ultimately show ?thesis
    using ipc_entry_get_spec [OF assms] by (cases "ipc_entry_get s") (simp_all split: prod.splits)
qed

theorem entry_get_witness: "space_ok example_sizes 16 {In_table 1} example_hash example_got"
  using entry_get [OF example_space_ok(1) example_sizes_ok, unfolded example_get(1) sum.case prod.case] by blast

text \<open>
  C6: \<^verbatim>\<open>ipc_entry_dealloc\<close> of an entry that has no object and is in no hash table removes its name and
  no other: if the slot has colliding names in the tree, one of them moves into the slot, with its
  reverse hash entry; and the invariant of the space holds again.
\<close>

theorem entry_dealloc:
  assumes "space_ok its sid {r} g s" and "entry_sizes its" and "detached s name r"
  shows "\<exists>g' s'. ipc_entry_dealloc its g sid s name r = Some (g', s') \<and>
    space_ok its sid {} g' s' \<and> caps {} s' = (caps {r} s)(name := None)"
  using assms by (rule ipc_entry_dealloc_spec)

theorem entry_dealloc_witness:
  "\<exists>g' s'. ipc_entry_dealloc example_sizes example_hash 16 example_got 0x100 (In_table 1) = Some (g', s') \<and>
    caps {} s' = Map.empty"
proof -
  note get = ipc_entry_get_spec [OF example_space_ok(1) example_sizes_ok]
  from entry_dealloc [OF _ example_sizes_ok example_get(2), of 16 example_hash] get show ?thesis
    by (auto simp: example_get(1) example_space_ok(2) fun_eq_iff)
qed

text \<open>
  C4: Growing the table is invisible to the holder of names: moving the entries of the tree
  that fit, with their reverse hash entries, changes the capability of no name, ends, and
  keeps the invariant, for every next size.
\<close>

theorem grow_commit_invisible:
  assumes "space_ok its sid {} g s" and "entry_sizes its" and "is_table_size s < its ! k" and "Suc k < length its"
  shows "\<exists>g' s'. grow_commit its sid (is_table_size s) k (g, s) = Some (g', s') \<and>
    space_ok its sid {} g' s' \<and> caps {} s' = caps {} s \<and>
    is_table_size s' = its ! k \<and> is_table_next s' = Suc k \<and> is_active s' = is_active s \<and> is_growing s' = is_growing s"
  using grow_commit_spec [OF assms] by blast

theorem grow_commit_invisible_witness:
  "\<exists>g' s'. grow_commit example_sizes 16 2 1 (example_hash, example_space) = Some (g', s') \<and>
    is_table_size s' = 4 \<and> caps {} s' = Map.empty"
proof -
  have "is_table_size example_space = 2" by (simp add: example_space_def)
  with grow_commit_invisible [OF example_space_ok(1) example_sizes_ok, of 1] show ?thesis
    by (auto simp: example_sizes_def example_space_ok(2))
qed

text \<open>
  C20: Whatever the other threads do to the space while \<^verbatim>\<open>ipc_entry_grow_table\<close> has released the
  lock, as long as they keep the invariant and do not resize a table that is marked as growing,
  the call ends within two releases of the lock for each size, for every target, and if the
  space is still active afterwards its invariant holds.
\<close>

theorem grow_table_interference:
  assumes "entry_sizes its" and "list_all (honest its sid) sched" and "space_ok its sid {} g s" and "is_active s"
    and "2 * (length its - is_table_next s) \<le> length sched"
  shows "\<exists>kr sched' g' s'. ipc_entry_grow_table its sid target sched (g, s) = Some (kr, sched', g', s') \<and>
    (is_active s' \<longrightarrow> space_ok its sid {} g' s')"
  using grow_table_safe [OF assms, of target] by blast

definition death :: unlocked where
  "death = \<lparr>got_memory = True, others = (\<lambda>(g, s). (g, s\<lparr>is_active := False\<rparr>))\<rparr>"

theorem grow_table_interference_witness:
  "\<exists>kr sched' g' s'. ipc_entry_grow_table example_sizes 16 (Some 3) [death, idle, idle, idle]
      (example_hash, example_space) = Some (kr, sched', g', s') \<and>
    (is_active s' \<longrightarrow> space_ok example_sizes 16 {} g' s')"
proof -
  have "honest example_sizes 16 death" by (auto simp: honest_def death_def)
  then have "list_all (honest example_sizes 16) [death, idle, idle, idle]"
    by (simp add: quiet_honest)
  from grow_table_interference [OF example_sizes_ok this example_space_ok(1,3)] show ?thesis
    by (simp add: example_space_ok(5) example_sizes_def)
qed

text \<open>
  With memory and no interference, growing succeeds whenever the table has not its
  maximum size, and grows it by at least one size without changing a name.
\<close>

theorem grow_table_succeeds:
  assumes "entry_sizes its" and "list_all quiet sched" and "space_ok its sid {} g s" and "is_active s"
    and "\<not> is_growing s" and "Suc (is_table_next s) < length its"
    and "2 * (length its - 1 - is_table_next s) \<le> length sched"
  shows "\<exists>sched' g' s'. ipc_entry_grow_table its sid None sched (g, s) = Some (KERN_SUCCESS, sched', g', s') \<and>
    space_ok its sid {} g' s' \<and> caps {} s' = caps {} s \<and> is_table_size s < is_table_size s'"
proof -
  obtain j g' s' where gr: "0 < j"
    "ipc_entry_grow_table its sid None sched (g, s) = Some (KERN_SUCCESS, drop (2 * j) sched, g', s')"
    "space_ok its sid {} g' s'" "caps {} s' = caps {} s" "is_table_next s' = is_table_next s + j"
    using grow_table_quiet [OF assms] by blast
  have "is_table_size s = its ! (is_table_next s - 1)" "is_table_size s' = its ! (is_table_next s' - 1)"
    "0 < is_table_next s" "is_table_next s' < length its"
    using space_okD(1) [OF assms(3)] space_okD(1) [OF gr(3)] by (simp_all add: sizes_ok_def)
  then have "is_table_size s < is_table_size s'"
    using entry_sizes.increasing [OF assms(1), of "is_table_next s - 1" "is_table_next s' - 1"] gr(1,5) by simp
  with gr show ?thesis by blast
qed

theorem grow_table_succeeds_witness:
  "\<exists>sched' g' s'. ipc_entry_grow_table example_sizes 16 None [idle, idle] (example_hash, example_space) =
      Some (KERN_SUCCESS, sched', g', s') \<and> is_table_size example_space < is_table_size s'"
proof -
  have "list_all quiet [idle, idle]" by simp
  from grow_table_succeeds [OF example_sizes_ok this example_space_ok(1,3,4)] show ?thesis
    by (auto simp: example_space_ok(5) example_sizes_def)
qed

text \<open>
  C28: With memory and no interference, \<^verbatim>\<open>ipc_entry_alloc\<close> hands out a valid name that stood for
  nothing, growing the table when it is full, and fails only with \<^verbatim>\<open>KERN_NO_SPACE\<close>, when the table
  has its maximum size and no slot is free.
\<close>

theorem entry_alloc:
  assumes "entry_sizes its" and "list_all quiet sched" and "space_ok its sid {} g s" and "is_active s"
    and "\<not> is_growing s" and "2 * (length its - 1 - is_table_next s) \<le> length sched"
  shows "\<exists>res sched' g' s'. ipc_entry_alloc its sid sched (g, s) = Some (res, sched', g', s') \<and>
    (case res of
       Inl kr \<Rightarrow> kr = KERN_NO_SPACE \<and> Suc (is_table_next s') = length its \<and>
         free_slots {} (is_table s') = {} \<and> space_ok its sid {} g' s' \<and> caps {} s' = caps {} s
     | Inr (name, r) \<Rightarrow> MACH_PORT_VALID name \<and> r = In_table (MACH_PORT_INDEX name) \<and>
         caps {} s name = None \<and> space_ok its sid {r} g' s' \<and> caps {r} s' = (caps {} s)(name \<mapsto> (0, IO_NULL, 0)))"
  using alloc_quiet [OF assms] unfolding fresh_entry_def by blast

theorem entry_alloc_witness:
  "\<exists>res sched' g' s'. ipc_entry_alloc example_sizes 16 [idle, idle] (example_hash, example_space) =
      Some (res, sched', g', s') \<and> res \<noteq> Inl KERN_RESOURCE_SHORTAGE"
proof -
  have "list_all quiet [idle, idle]"
    "2 * (length example_sizes - 1 - is_table_next example_space) \<le> length [idle, idle]"
    by (simp_all add: example_space_ok(5) example_sizes_def)
  from entry_alloc [OF example_sizes_ok this(1) example_space_ok(1,3,4) this(2)] show ?thesis
    by (elim exE conjE, intro exI conjI) (assumption, auto)
qed

text \<open>
  C8: With memory and no interference, \<^verbatim>\<open>ipc_entry_alloc_name\<close> succeeds for every valid name: it
  returns the entry of the capability the name stands for, or a new entry of that very name,
  and changes no other name, wherever it puts the entry: in a free slot, in the tree, or in the
  table after growing it.
\<close>

theorem entry_alloc_name:
  assumes "entry_sizes its" and "MACH_PORT_VALID name" and "list_all quiet sched"
    and "space_ok its sid {} g s" and "is_active s" and "\<not> is_growing s"
    and "2 * (length its - 1 - is_table_next s) + 1 \<le> length sched"
  shows "\<exists>r sched' g' s'. ipc_entry_alloc_name its sid False sched (g, s) name = Some (Inr r, sched', g', s') \<and>
    (case caps {} s name of
       Some c \<Rightarrow> space_ok its sid {} g' s' \<and> caps {} s' = caps {} s \<and>
         (\<exists>e. entry_at s' r = Some e \<and> capability e = c)
     | None \<Rightarrow> space_ok its sid {r} g' s' \<and> caps {r} s' = (caps {} s)(name \<mapsto> (0, IO_NULL, 0)))"
proof -
  have "2 * (length its - 1 - is_table_next s) + (if False then 0 else 1) \<le> length sched" using assms(7) by simp
  from alloc_name_quiet [OF assms(1-6) this] show ?thesis
    unfolding existing_entry_def fresh_entry_def by (elim exE conjE disjE, intro exI conjI) auto
qed

theorem entry_alloc_name_witness:
  "\<exists>r sched' g' s'. ipc_entry_alloc_name example_sizes 16 False [idle, idle, idle] (example_hash, example_space) 0x305 =
      Some (Inr r, sched', g', s') \<and> caps {r} s' = [0x305 \<mapsto> (0, IO_NULL, 0)]"
proof -
  have "list_all quiet [idle, idle, idle]" "MACH_PORT_VALID 0x305" by simp code_simp
  from entry_alloc_name [OF example_sizes_ok this(2,1) example_space_ok(1,3,4)] show ?thesis
    by (auto simp: example_space_ok(2,5) example_sizes_def)
qed

text \<open>
  C39: The name 0x000000ff is valid and \<^verbatim>\<open>ipc_entry_alloc_name\<close> makes an entry for it in the tree, but
  \<^verbatim>\<open>ipc_entry_lookup\<close> never finds that entry: slot 0, the head of the free list, has generation
  0xff and no type.
\<close>

theorem lookup_misses_name_ff:
  assumes "entry_sizes its" and "list_all quiet sched" and "space_ok its sid {} g s" and "is_active s"
    and "\<not> is_growing s" and "2 * (length its - 1 - is_table_next s) + 1 \<le> length sched" and "caps {} s 0xff = None"
  shows "MACH_PORT_VALID 0xff \<and>
    (\<exists>r sched' g' s'. ipc_entry_alloc_name its sid False sched (g, s) 0xff = Some (Inr r, sched', g', s') \<and>
      caps {r} s' 0xff = Some (0, IO_NULL, 0) \<and> fst (ipc_entry_lookup s' 0xff) = None)"
proof -
  have valid: "MACH_PORT_VALID 0xff" by code_simp
  have "2 * (length its - 1 - is_table_next s) + (if False then 0 else 1) \<le> length sched" using assms(6) by simp
  from alloc_name_quiet [OF assms(1) valid assms(2-5) this] obtain r sched' g' s' where
    r: "ipc_entry_alloc_name its sid False sched (g, s) 0xff = Some (Inr r, sched', g', s')"
    "space_ok its sid {r} g' s'" "caps {r} s' = (caps {} s)(0xff \<mapsto> (0, IO_NULL, 0))"
    using assms(7) unfolding existing_entry_def fresh_entry_def by auto
  note ok = space_okD [OF r(2)]
  have "MACH_PORT_INDEX 0xff = 0" "MACH_PORT_GEN 0xff = IE_BITS_GEN_MASK" by code_simp+
  then have "fst (ipc_entry_lookup s' 0xff) = None"
    using head_ok_fields [OF ok(2)] ok(2,12)
    by (simp add: ipc_entry_lookup_def MACH_PORT_TYPE_NONE_def head_ok_def)
  with valid r show ?thesis by auto
qed

theorem lookup_misses_name_ff_witness:
  "\<exists>r sched' g' s'. ipc_entry_alloc_name example_sizes 16 False [idle, idle, idle] (example_hash, example_space) 0xff =
      Some (Inr r, sched', g', s') \<and> fst (ipc_entry_lookup s' 0xff) = None"
proof -
  have "list_all quiet [idle, idle, idle]" "caps {} example_space 0xff = None"
    "2 * (length example_sizes - 1 - is_table_next example_space) + 1 \<le> length [idle, idle, idle]"
    by (simp_all add: example_space_ok(2,5) example_sizes_def)
  from lookup_misses_name_ff [OF example_sizes_ok this(1) example_space_ok(1,3,4) this(3,2)] show ?thesis by blast
qed

section \<open>Reuse of names\<close>

text \<open>The names that a task gets which allocates an entry and gives it back, \<open>n\<close> times.\<close>

fun reused_names :: "nat list \<Rightarrow> space_id \<Rightarrow> nat \<Rightarrow> ipc_hash_global \<times> ipc_space \<Rightarrow> mach_port_t list" where
  "reused_names its sid 0 w = []"
| "reused_names its sid (Suc n) (g, s) =
    (case ipc_entry_get s of
       Inl kr \<Rightarrow> []
     | Inr (name, r, s1) \<Rightarrow>
         (case ipc_entry_dealloc its g sid s1 name r of
            None \<Rightarrow> []
          | Some w \<Rightarrow> name # reused_names its sid n w))"

lemma get_dealloc:
  assumes i: "ie_next (is_table s ! 0) = i" "0 < i" "i < length (is_table s)" "i < 2 ^ 24"
    and sz: "is_table_size s = length (is_table s)" and b: "ie_bits (is_table s ! i) = gen_of (is_table s) i"
  defines "gen \<equiv> ie_bits (is_table s ! i) + IE_BITS_GEN_ONE"
  shows "\<exists>s1. ipc_entry_get s = Inr (MACH_PORT_MAKE i gen, In_table i, s1) \<and>
    ipc_entry_dealloc its g sid s1 (MACH_PORT_MAKE i gen) (In_table i) =
      Some (g, s\<lparr>is_table := set_bits (is_table s) i gen\<rparr>)"
proof -
  let ?t = "is_table s"
  have gen: "gen = IE_BITS_GEN gen" using gen_increment [OF b] by (simp add: gen_def)
  let ?t1 = "set_next (set_bits (set_next ?t 0 (ie_next (?t ! i))) i gen) i 0"
  have get: "ipc_entry_get s = Inr (MACH_PORT_MAKE i gen, In_table i, s\<lparr>is_table := ?t1\<rparr>)"
    using i by (simp add: ipc_entry_get_def Let_def gen_def set_next_def)
  have t1: "?t1 ! i = (?t ! i)\<lparr>ie_bits := gen, ie_request := 0\<rparr>" "?t1 ! 0 = (?t ! 0)\<lparr>ie_request := ie_next (?t ! i)\<rparr>"
    "length ?t1 = length ?t" "\<And>k. k \<noteq> 0 \<Longrightarrow> k \<noteq> i \<Longrightarrow> ?t1 ! k = ?t ! k"
    using i less_trans [OF i(2,3)] by (simp_all add: set_next_def set_bits_def nth_list_update)
  have "is_table (dealloc_free (s\<lparr>is_table := ?t1\<rparr>) i) = set_bits ?t i gen"
  proof (rule nth_equalityI)
    show "length (is_table (dealloc_free (s\<lparr>is_table := ?t1\<rparr>) i)) = length (set_bits ?t i gen)"
      by (simp add: dealloc_free_def Let_def set_next_def set_bits_def)
    fix k assume "k < length (is_table (dealloc_free (s\<lparr>is_table := ?t1\<rparr>) i))"
    then have "k < length ?t" by (simp add: dealloc_free_def Let_def set_next_def set_bits_def)
    then show "is_table (dealloc_free (s\<lparr>is_table := ?t1\<rparr>) i) ! k = set_bits ?t i gen ! k"
      using i t1 gen unfolding dealloc_free_def Let_def
      by (cases "k = i"; cases "k = 0") (auto simp: set_next_def set_bits_def nth_list_update GEN_eq)
  qed
  then have "dealloc_free (s\<lparr>is_table := ?t1\<rparr>) i = s\<lparr>is_table := set_bits ?t i gen\<rparr>"
    by (simp add: dealloc_free_def Let_def)
  moreover have "\<not> collides (ie_bits (?t1 ! i))" using gen_only_fields(3) [OF gen] t1(1) by simp
  ultimately have "ipc_entry_dealloc its g sid (s\<lparr>is_table := ?t1\<rparr>) (MACH_PORT_MAKE i gen) (In_table i) =
      Some (g, s\<lparr>is_table := set_bits ?t i gen\<rparr>)"
    using i sz by (simp add: ipc_entry_dealloc_def Let_def MACH_PORT_INDEX_MAKE)
  with get show ?thesis by blast
qed

lemma reused_names_eq:
  assumes "ie_next (is_table s ! 0) = i" "0 < i" "i < length (is_table s)" "i < 2 ^ 24"
    and "is_table_size s = length (is_table s)" and "ie_bits (is_table s ! i) = gen_of (is_table s) i"
  shows "reused_names its sid n (g, s) =
    map (\<lambda>k. MACH_PORT_MAKE i (ie_bits (is_table s ! i) + of_nat (Suc k) * IE_BITS_GEN_ONE)) [0..<n]"
  using assms
proof (induction n arbitrary: s)
  case (Suc n)
  let ?gen = "ie_bits (is_table s ! i) + IE_BITS_GEN_ONE"
  let ?s = "s\<lparr>is_table := set_bits (is_table s) i ?gen\<rparr>"
  obtain s1 where "ipc_entry_get s = Inr (MACH_PORT_MAKE i ?gen, In_table i, s1)"
    "ipc_entry_dealloc its g sid s1 (MACH_PORT_MAKE i ?gen) (In_table i) = Some (g, ?s)"
    using get_dealloc [OF Suc.prems] by blast
  moreover have "reused_names its sid n (g, ?s) =
      map (\<lambda>k. MACH_PORT_MAKE i (ie_bits (is_table ?s ! i) + of_nat (Suc k) * IE_BITS_GEN_ONE)) [0..<n]"
    using Suc.prems gen_increment [OF Suc.prems(6)] by (intro Suc.IH) (simp_all add: set_bits_def nth_list_update)
  moreover have "ie_bits (is_table ?s ! i) = ?gen" using Suc.prems by (simp add: set_bits_def)
  ultimately show ?case
    by (simp add: upt_conv_Cons map_Suc_upt [symmetric] algebra_simps del: upt_Suc)
qed simp

lemma gen_add:
  assumes "bits = IE_BITS_GEN bits"
  shows "IE_BITS_GEN (bits + of_nat k * IE_BITS_GEN_ONE) = bits + of_nat k * IE_BITS_GEN_ONE"
proof (induction k)
  case (Suc k)
  have "IE_BITS_GEN (bits + of_nat k * IE_BITS_GEN_ONE + IE_BITS_GEN_ONE) = bits + of_nat k * IE_BITS_GEN_ONE + IE_BITS_GEN_ONE"
    using Suc by (intro gen_increment) simp
  then show ?case by (simp add: algebra_simps)
qed (use assms in simp)

lemma gen_multiple_eq: "of_nat j * IE_BITS_GEN_ONE = of_nat k * IE_BITS_GEN_ONE \<longleftrightarrow> j mod 256 = k mod 256"
proof -
  have m: "of_nat j * IE_BITS_GEN_ONE = (word_of_nat (j * 2 ^ 24) :: 32 word)" for j
    by (simp add: IE_BITS_GEN_ONE_def)
  have "of_nat j * IE_BITS_GEN_ONE = of_nat k * IE_BITS_GEN_ONE \<longleftrightarrow>
      (j * 2 ^ 24) mod (256 * 2 ^ 24) = (k * 2 ^ 24) mod (256 * 2 ^ 24)"
    unfolding m word_of_nat_eq_iff by (simp add: take_bit_eq_mod)
  also have "\<dots> \<longleftrightarrow> j mod 256 = k mod 256" unfolding mult_mod_left [symmetric] by simp
  finally show ?thesis .
qed

text \<open>
  A slot that is allocated and freed again and again gets the names of its index with the
  generations in turn: the name of one round is that of another iff the rounds differ by a
  multiple of 256.  So a stale name is not given out again before 255 others of its slot.
\<close>

theorem slot_reuse:
  assumes "space_ok its sid {} g s" and "entry_sizes its" and "free_slots {} (is_table s) \<noteq> {}" and "j < n" and "k < n"
  shows "length (reused_names its sid n (g, s)) = n \<and>
    MACH_PORT_INDEX (reused_names its sid n (g, s) ! j) = MACH_PORT_INDEX (reused_names its sid n (g, s) ! k) \<and>
    (reused_names its sid n (g, s) ! j = reused_names its sid n (g, s) ! k \<longleftrightarrow> j mod 256 = k mod 256)"
proof -
  note ok = space_okD [OF assms(1)]
  let ?t = "is_table s" and ?i = "ie_next (is_table s ! 0)"
  obtain fl where "linked ?t 0 fl" "distinct fl" "set fl = free_slots {} ?t" by (rule free_okE [OF ok(3)])
  with assms(3) have i: "?i \<in> free_slots {} ?t" by (cases fl) auto
  then have i0: "0 < ?i" "?i < length ?t" by (simp_all add: free_slots_def)
  moreover have i24: "?i < 2 ^ 24" using sizes_less(1) [OF assms(2) ok(1)] i0(2) by linarith
  moreover have b: "ie_bits (?t ! ?i) = gen_of ?t ?i" using ok(3) i by (auto simp: free_ok_def)
  ultimately have r: "reused_names its sid n (g, s) =
      map (\<lambda>k. MACH_PORT_MAKE ?i (ie_bits (?t ! ?i) + of_nat (Suc k) * IE_BITS_GEN_ONE)) [0..<n]"
    using ok(12) by (intro reused_names_eq) simp_all
  let ?b = "\<lambda>k. ie_bits (?t ! ?i) + of_nat (Suc k) * IE_BITS_GEN_ONE"
  have gen: "MACH_PORT_GEN (MACH_PORT_MAKE ?i (?b k)) = ?b k" for k
    using gen_add [OF b, of "Suc k"] by (simp only: MACH_PORT_GEN_MAKE GEN_eq IE_BITS_GEN_MASK_def)
  have "MACH_PORT_MAKE ?i (?b j) = MACH_PORT_MAKE ?i (?b k) \<longleftrightarrow> ?b j = ?b k" using gen by metis
  also have "\<dots> \<longleftrightarrow> Suc j mod 256 = Suc k mod 256" using gen_multiple_eq [of "Suc j" "Suc k"] by (simp only: add_left_cancel)
  also have "\<dots> \<longleftrightarrow> j mod 256 = k mod 256" by (auto simp: mod_Suc split: if_splits)
  finally show ?thesis using assms(4,5) i24 unfolding r by (simp add: MACH_PORT_INDEX_MAKE del: of_nat_Suc)
qed

theorem slot_reuse_witness:
  "reused_names example_sizes 16 300 (example_hash, example_space) ! 3 \<noteq>
    reused_names example_sizes 16 300 (example_hash, example_space) ! 200"
proof -
  have "1 \<in> free_slots {} (is_table example_space)"
    by (simp add: example_space_def initial_free_slots)
  then show ?thesis
    using slot_reuse [OF example_space_ok(1) example_sizes_ok, of 3 300 200] by auto
qed

end
