(* ===== verification/Port_Requests.thy ===== *)
theory Port_Requests
  imports Ipc_Port
begin

text \<open>
  The table of dead-name requests as an abstract table of slots: a request takes a free
  slot, a cancellation gives it back and returns what was registered.  The interface is a
  locale, with the consequence that \<^verbatim>\<open>ipc_right_dnrequest\<close> relies on: switching a registered
  request for another one never fails and keeps the slot.  The table of a port meets it,
  and growing the table changes no request.
\<close>

section \<open>The interface\<close>

locale request_table =
  fixes request :: "'t \<Rightarrow> mach_port_t \<Rightarrow> ipc_port_t \<Rightarrow> kern_return_t + nat \<times> 't"
    and cancel :: "'t \<Rightarrow> mach_port_t \<Rightarrow> nat \<Rightarrow> ipc_port_t \<times> 't"
    and contents :: "'t \<Rightarrow> nat \<rightharpoonup> mach_port_t \<times> ipc_port_t"
    and free :: "'t \<Rightarrow> nat list"
    and invar :: "'t \<Rightarrow> bool"
  assumes request_full: "invar t \<Longrightarrow> free t = [] \<Longrightarrow> request t name so = Inl KERN_NO_SPACE"
    and request_free: "invar t \<Longrightarrow> free t = i # is \<Longrightarrow> name \<noteq> MACH_PORT_NULL \<Longrightarrow>
      \<exists>t'. request t name so = Inr (i, t') \<and> invar t' \<and> free t' = is \<and> contents t i = None \<and>
        contents t' = (contents t)(i \<mapsto> (name, so))"
    and cancel_law: "invar t \<Longrightarrow> contents t i = Some (name, so) \<Longrightarrow>
      \<exists>t'. cancel t name i = (so, t') \<and> invar t' \<and> free t' = i # free t \<and> contents t' = (contents t)(i := None)"
begin

lemma switch:
  assumes "invar t" and "contents t i = Some (name, so)" and "name' \<noteq> MACH_PORT_NULL"
  shows "\<exists>t1 t2. cancel t name i = (so, t1) \<and> request t1 name' so' = Inr (i, t2) \<and> invar t2 \<and>
    free t2 = free t \<and> contents t2 = (contents t)(i \<mapsto> (name', so'))"
proof -
  obtain t1 where t1: "cancel t name i = (so, t1)" "invar t1" "free t1 = i # free t" "contents t1 = (contents t)(i := None)"
    using cancel_law [OF assms(1,2)] by blast
  obtain t2 where "request t1 name' so' = Inr (i, t2)" "invar t2" "free t2 = free t" "contents t2 = (contents t1)(i \<mapsto> (name', so'))"
    using request_free [OF t1(2,3) assms(3)] by blast
  with t1(1,4) show ?thesis by simp
qed

lemma request_cancel:
  assumes "invar t" and "name \<noteq> MACH_PORT_NULL" and "request t name so = Inr (i, t1)"
  shows "\<exists>t2. cancel t1 name i = (so, t2) \<and> invar t2 \<and> free t2 = free t \<and> contents t2 = contents t"
proof -
  obtain j js where f: "free t = j # js" using assms(1,3) request_full by (cases "free t") fastforce+
  then have t1: "i = j" "invar t1" "free t1 = js" "contents t j = None" "contents t1 = (contents t)(j \<mapsto> (name, so))"
    using request_free [OF assms(1) f assms(2), of so] assms(3) by auto
  then obtain t2 where "cancel t1 name i = (so, t2)" "invar t2" "free t2 = i # free t1" "contents t2 = (contents t1)(i := None)"
    using cancel_law [OF t1(2), of i name so] by auto
  with t1 f show ?thesis by (auto simp: fun_eq_iff)
qed

end

section \<open>The table of a port\<close>

primrec dn_linked :: "ipc_port_request list \<Rightarrow> nat \<Rightarrow> nat list \<Rightarrow> bool" where
  "dn_linked table i [] \<longleftrightarrow> ipr_next (table ! i) = 0"
| "dn_linked table i (j # js) \<longleftrightarrow> ipr_next (table ! i) = j \<and> dn_linked table j js"

definition dn_free_slots :: "ipc_port_request list \<Rightarrow> nat set" where
  "dn_free_slots table = {i. 0 < i \<and> i < length table \<and> ipr_name (table ! i) = MACH_PORT_NULL}"

definition dn_list_ok :: "ipc_port_request list \<Rightarrow> nat list \<Rightarrow> bool" where
  "dn_list_ok table fl \<longleftrightarrow>
    table \<noteq> [] \<and> length table < 2 ^ 32 \<and> dn_linked table 0 fl \<and> distinct fl \<and> set fl = dn_free_slots table"

text \<open>The free list of a table: at most as long as the table.\<close>

fun dn_chain :: "nat \<Rightarrow> ipc_port_request list \<Rightarrow> nat \<Rightarrow> nat list" where
  "dn_chain 0 table i = []"
| "dn_chain (Suc fuel) table i =
    (let j = ipr_next (table ! i) in if j = 0 then [] else j # dn_chain fuel table j)"

definition port_free :: "ipc_port \<Rightarrow> nat list" where
  "port_free port = (case ip_dnrequests port of None \<Rightarrow> []
    | Some tab \<Rightarrow> dn_chain (length (ipr_requests tab)) (ipr_requests tab) 0)"

definition dn_map :: "ipc_port_request list \<Rightarrow> nat \<rightharpoonup> mach_port_t \<times> ipc_port_t" where
  "dn_map table i =
    (if 0 < i \<and> i < length table \<and> ipr_name (table ! i) \<noteq> MACH_PORT_NULL
     then Some (ipr_name (table ! i), ipr_soright (table ! i)) else None)"

definition port_requests :: "ipc_port \<Rightarrow> nat \<rightharpoonup> mach_port_t \<times> ipc_port_t" where
  "port_requests port = (case ip_dnrequests port of None \<Rightarrow> Map.empty | Some tab \<Rightarrow> dn_map (ipr_requests tab))"

definition port_requests_ok :: "ipc_port \<Rightarrow> bool" where
  "port_requests_ok port \<longleftrightarrow>
    (case ip_dnrequests port of None \<Rightarrow> True | Some tab \<Rightarrow> \<exists>fl. dn_list_ok (ipr_requests tab) fl)"

lemma dn_linked_cong:
  assumes "dn_linked table i fl" and "\<forall>k \<in> insert i (set fl). ipr_next (table' ! k) = ipr_next (table ! k)"
  shows "dn_linked table' i fl"
  using assms by (induction fl arbitrary: i) auto

lemma dn_linked_start:
  assumes "dn_linked table i fl" and "ipr_next (table' ! j) = ipr_next (table ! i)"
    and "\<forall>k \<in> set fl. ipr_next (table' ! k) = ipr_next (table ! k)"
  shows "dn_linked table' j fl"
  using assms by (cases fl) (auto intro: dn_linked_cong)

lemma dn_chain_linked:
  assumes "dn_linked table i fl" and "0 \<notin> set fl" and "length fl < fuel"
  shows "dn_chain fuel table i = fl"
  using assms
proof (induction fl arbitrary: i fuel)
  case (Cons j js)
  then show ?case by (cases fuel) (auto simp: Let_def)
qed (case_tac fuel, auto)

lemma dn_list_length: "dn_list_ok table fl \<Longrightarrow> length fl < length table"
proof -
  assume ok: "dn_list_ok table fl"
  then have s: "set fl = dn_free_slots table" and "distinct fl" "table \<noteq> []" by (simp_all add: dn_list_ok_def)
  have "set fl \<subseteq> {1..<length table}" unfolding s by (auto simp: dn_free_slots_def)
  then have "length fl \<le> length table - 1"
    using card_mono [of "{1..<length table}" "set fl"] \<open>distinct fl\<close> by (simp add: distinct_card)
  with \<open>table \<noteq> []\<close> show ?thesis by (cases table) auto
qed

lemma dn_list_chain: "dn_list_ok table fl \<Longrightarrow> dn_chain (length table) table 0 = fl"
  using dn_list_length [of table fl] by (intro dn_chain_linked) (auto simp: dn_list_ok_def dn_free_slots_def)

lemma unat_small: "n < 2 ^ 32 \<Longrightarrow> unat (word_of_nat n :: 32 word) = n"
  by (simp add: unat_of_nat take_bit_nat_eq_self)

lemma set_ipr_next_nth:
  "table \<noteq> [] \<Longrightarrow> n < 2 ^ 32 \<Longrightarrow> ipr_next (set_ipr_next table 0 n ! 0) = n" "0 < i \<Longrightarrow> set_ipr_next table 0 n ! i = table ! i"
  by (simp_all add: set_ipr_next_def ipr_next_def unat_small)

lemma ipr_next_less: "ipr_next r < 2 ^ 32"
  using unsigned_less [of "ipr_soright r", where 'a = nat] by (simp add: ipr_next_def)

lemma dn_pop:
  fixes so :: ipc_port_t
  assumes ok: "dn_list_ok table (i # fl)" and "name \<noteq> MACH_PORT_NULL"
  defines "table' \<equiv> (set_ipr_next table 0 (ipr_next (table ! i)))[i := \<lparr>ipr_soright = so, ipr_name = name\<rparr>]"
  shows "dn_list_ok table' fl" and "dn_map table i = None" and "dn_map table' = (dn_map table)(i \<mapsto> (name, so))"
proof -
  have i: "0 < i" "i < length table" "ipr_name (table ! i) = MACH_PORT_NULL" "i \<notin> set fl" "0 \<notin> set fl"
    and fl: "distinct fl" "set fl = dn_free_slots table - {i}" "dn_linked table i fl"
    using ok by (auto simp: dn_list_ok_def dn_free_slots_def)
  have len: "length table' = length table" "length table < 2 ^ 32" "table \<noteq> []"
    using ok by (simp_all add: table'_def set_ipr_next_def dn_list_ok_def)
  have nth: "table' ! i = \<lparr>ipr_soright = so, ipr_name = name\<rparr>"
    "ipr_name (table' ! 0) = ipr_name (table ! 0)" "ipr_next (table' ! 0) = ipr_next (table ! i)"
    "\<And>k. k \<noteq> 0 \<Longrightarrow> k \<noteq> i \<Longrightarrow> table' ! k = table ! k"
    using i len by (auto simp: table'_def set_ipr_next_def nth_list_update ipr_next_def)
  have "dn_linked table' 0 fl"
    using i(4,5) nth(4) by (intro dn_linked_start [OF fl(3) nth(3)]) metis
  moreover have "dn_free_slots table' = dn_free_slots table - {i}"
    (is "?L = ?R")
  proof (rule set_eqI)
    fix k
    show "k \<in> ?L \<longleftrightarrow> k \<in> ?R"
      using nth(1) nth(4) [of k] assms(2) len(1) by (cases "k = i") (auto simp: dn_free_slots_def)
  qed
  moreover have "table' \<noteq> []" using len(1,3) by auto
  ultimately show "dn_list_ok table' fl" using fl(1,2) len(1,2) by (simp add: dn_list_ok_def)
  show "dn_map table i = None" using i by (simp add: dn_map_def)
  show "dn_map table' = (dn_map table)(i \<mapsto> (name, so))"
  proof (rule ext)
    fix k
    show "dn_map table' k = ((dn_map table)(i \<mapsto> (name, so))) k"
      using nth(1) nth(4) [of k] i assms(2) len(1) by (cases "k = i") (auto simp: dn_map_def)
  qed
qed

lemma dn_push:
  assumes ok: "dn_list_ok table fl" and i: "0 < i" "i < length table" "ipr_name (table ! i) \<noteq> MACH_PORT_NULL"
  defines "table' \<equiv> set_ipr_next (table[i := \<lparr>ipr_soright = word_of_nat (ipr_next (table ! 0)), ipr_name = MACH_PORT_NULL\<rparr>]) 0 i"
  shows "dn_list_ok table' (i # fl)" and "dn_map table' = (dn_map table)(i := None)"
proof -
  have fl: "distinct fl" "set fl = dn_free_slots table" "dn_linked table 0 fl" "i \<notin> set fl" "0 \<notin> set fl"
    using ok i by (auto simp: dn_list_ok_def dn_free_slots_def)
  have len: "length table' = length table" "length table < 2 ^ 32" "table \<noteq> []" "i < 2 ^ 32"
    using ok i by (simp_all add: table'_def set_ipr_next_def dn_list_ok_def)
  have nth: "ipr_name (table' ! i) = MACH_PORT_NULL" "ipr_next (table' ! i) = ipr_next (table ! 0)"
    "ipr_next (table' ! 0) = i" "ipr_name (table' ! 0) = ipr_name (table ! 0)"
    "\<And>k. k \<noteq> 0 \<Longrightarrow> k \<noteq> i \<Longrightarrow> table' ! k = table ! k"
    using i len by (auto simp: table'_def set_ipr_next_def nth_list_update ipr_next_def unat_small)
  have "dn_linked table' i fl"
    using fl(4,5) nth(5) by (intro dn_linked_start [OF fl(3) nth(2)]) metis
  moreover have "dn_free_slots table' = insert i (dn_free_slots table)"
    (is "?L = ?R")
  proof (rule set_eqI)
    fix k
    show "k \<in> ?L \<longleftrightarrow> k \<in> ?R"
      using nth(1) nth(5) [of k] i len(1) by (cases "k = i") (auto simp: dn_free_slots_def)
  qed
  ultimately show "dn_list_ok table' (i # fl)" using fl len nth(3) by (auto simp: dn_list_ok_def)
  show "dn_map table' = (dn_map table)(i := None)"
  proof (rule ext)
    fix k
    show "dn_map table' k = ((dn_map table)(i := None)) k"
      using nth(1) nth(5) [of k] i len(1) by (cases "k = i") (auto simp: dn_map_def)
  qed
qed

interpretation port_table: request_table ipc_port_dnrequest ipc_port_dncancel port_requests port_free port_requests_ok
proof
  fix t :: ipc_port and name so i "is"
  assume ok: "port_requests_ok t"
  show "ipc_port_dnrequest t name so = Inl KERN_NO_SPACE" if none: "port_free t = []"
  proof (cases "ip_dnrequests t")
    case (Some tab)
    with ok obtain fl where fl: "dn_list_ok (ipr_requests tab) fl" by (auto simp: port_requests_ok_def)
    then have "fl = []" using none Some dn_list_chain by (simp add: port_free_def)
    with fl Some show ?thesis by (simp add: ipc_port_dnrequest_def dn_list_ok_def)
  qed (simp add: ipc_port_dnrequest_def)
  show "\<exists>t'. ipc_port_dnrequest t name so = Inr (i, t') \<and> port_requests_ok t' \<and> port_free t' = is \<and>
      port_requests t i = None \<and> port_requests t' = (port_requests t)(i \<mapsto> (name, so))"
    if f: "port_free t = i # is" and n: "name \<noteq> MACH_PORT_NULL"
  proof -
    obtain tab where tab: "ip_dnrequests t = Some tab" using f by (auto simp: port_free_def split: option.splits)
    with ok obtain fl where "dn_list_ok (ipr_requests tab) fl" by (auto simp: port_requests_ok_def)
    then have fl: "dn_list_ok (ipr_requests tab) (i # is)" using f tab dn_list_chain by (simp add: port_free_def)
    note pop = dn_pop(1) [OF fl n, of so] dn_pop(2) [OF fl n] dn_pop(3) [OF fl n, of so]
    have "ipr_next (ipr_requests tab ! 0) = i" "i \<noteq> 0" using fl by (auto simp: dn_list_ok_def dn_free_slots_def)
    with pop tab dn_list_chain [OF pop(1)] show ?thesis
      by (auto simp: ipc_port_dnrequest_def Let_def port_requests_ok_def port_free_def port_requests_def)
  qed
  show "\<exists>t'. ipc_port_dncancel t name i = (so, t') \<and> port_requests_ok t' \<and> port_free t' = i # port_free t \<and>
      port_requests t' = (port_requests t)(i := None)"
    if c: "port_requests t i = Some (name, so)"
  proof -
    obtain tab where tab: "ip_dnrequests t = Some tab" using c by (auto simp: port_requests_def split: option.splits)
    with ok obtain fl where fl: "dn_list_ok (ipr_requests tab) fl" by (auto simp: port_requests_ok_def)
    have i: "0 < i" "i < length (ipr_requests tab)" "ipr_name (ipr_requests tab ! i) \<noteq> MACH_PORT_NULL"
      "ipr_soright (ipr_requests tab ! i) = so"
      using c tab by (auto simp: port_requests_def dn_map_def split: if_splits)
    note push = dn_push [OF fl i(1-3)]
    with tab i(4) dn_list_chain [OF push(1)] dn_list_chain [OF fl] show ?thesis
      by (auto simp: ipc_port_dncancel_def Let_def port_requests_ok_def port_free_def port_requests_def)
  qed
qed

section \<open>Growing the table\<close>

lemma dn_free_spec:
  assumes "dn_free js table f = (table', f')" and "dn_linked (set_ipr_next table 0 f) 0 fl"
    and "table \<noteq> []" and "length table < 2 ^ 32" and "distinct js" and "\<forall>j \<in> set js. 0 < j \<and> j < length table"
    and "0 \<notin> set fl" and "set js \<inter> set fl = {}" and "f < 2 ^ 32"
  shows "dn_linked (set_ipr_next table' 0 f') 0 (rev js @ fl) \<and> length table' = length table \<and>
    (\<forall>k. k \<notin> set js \<longrightarrow> table' ! k = table ! k) \<and> (\<forall>k \<in> set js. ipr_name (table' ! k) = MACH_PORT_NULL)"
  using assms
proof (induction js arbitrary: table f fl)
  case (Cons j js)
  let ?t = "table[j := \<lparr>ipr_soright = word_of_nat f, ipr_name = MACH_PORT_NULL\<rparr>]"
  have j: "0 < j" "j < length table" "j \<notin> set fl" "j < 2 ^ 32" using Cons.prems(4,6,8) by auto
  have "dn_linked (set_ipr_next ?t 0 j) j fl"
    using j Cons.prems(3,7,9)
    by (intro dn_linked_start [OF Cons.prems(2)])
      (auto simp: set_ipr_next_def ipr_next_def nth_list_update)
  then have l: "dn_linked (set_ipr_next ?t 0 j) 0 (j # fl)"
    using j Cons.prems(3) by (simp add: set_ipr_next_def ipr_next_def unat_small)
  have "dn_free js ?t j = (table', f')" using Cons.prems(1) by simp
  from Cons.IH [OF this l] j Cons.prems(3-8) show ?case by (auto simp: nth_list_update split: if_splits)
qed simp

text \<open>The elements from \<open>n\<close> on become free; those before keep what they have.\<close>

lemma dn_extend:
  assumes run: "dn_free [n..<m] t f = (t', f')" and l: "dn_linked (set_ipr_next t 0 f) 0 fl"
    and len: "length t = m" "m < 2 ^ 32" "0 < n" "n < m"
    and fl: "set fl = {i. 0 < i \<and> i < n \<and> ipr_name (t ! i) = MACH_PORT_NULL}" "distinct fl" and f: "f < 2 ^ 32"
  defines "new \<equiv> set_ipr_next t' 0 f'"
  shows "dn_list_ok new (rev [n..<m] @ fl)" and "length new = m"
    and "dn_map new = (\<lambda>i. if i < n then dn_map t i else None)"
proof -
  have spec: "dn_linked new 0 (rev [n..<m] @ fl) \<and> length t' = length t \<and> (\<forall>k. k \<notin> set [n..<m] \<longrightarrow> t' ! k = t ! k) \<and>
      (\<forall>k \<in> set [n..<m]. ipr_name (t' ! k) = MACH_PORT_NULL)"
    unfolding new_def
  proof (rule dn_free_spec [OF run l])
    show "0 \<notin> set fl" "set [n..<m] \<inter> set fl = {}" unfolding fl(1) by auto
  qed (use len f in auto)
  show len': "length new = m" using spec len(1) by (simp add: new_def set_ipr_next_def)
  have keep: "new ! i = t ! i" if "0 < i" "i < n" for i
    using spec that by (simp add: new_def set_ipr_next_nth(2))
  have free: "ipr_name (new ! i) = MACH_PORT_NULL" if "n \<le> i" "i < m" for i
    using spec that len(3) by (simp add: new_def set_ipr_next_nth(2))
  have "i \<in> dn_free_slots new \<longleftrightarrow> i \<in> set (rev [n..<m] @ fl)" for i
    unfolding set_append fl(1) using keep [of i] free [of i] len(3,4) len'
    by (cases "i < n") (auto simp: dn_free_slots_def)
  then have "dn_free_slots new = set (rev [n..<m] @ fl)" by blast
  moreover have "distinct (rev [n..<m] @ fl)" using fl(2) by (auto simp: fl(1))
  moreover have "new \<noteq> []" using len' len(4) by auto
  ultimately show "dn_list_ok new (rev [n..<m] @ fl)" using spec len' len(2) by (simp add: dn_list_ok_def)
  show "dn_map new = (\<lambda>i. if i < n then dn_map t i else None)"
  proof (rule ext)
    fix i
    show "dn_map new i = (if i < n then dn_map t i else None)"
      using keep [of i] free [of i] len len' by (cases "i < n") (auto simp: dn_map_def)
  qed
qed

text \<open>A table as long as its size says.\<close>

definition dn_sized :: "nat list \<Rightarrow> ipr_table \<Rightarrow> bool" where
  "dn_sized its tab \<longleftrightarrow> length (ipr_requests tab) = its ! ipr_size tab"

lemma dn_sized_pos: "dn_list_ok (ipr_requests tab) fl \<Longrightarrow> dn_sized its tab \<Longrightarrow> 0 < its ! ipr_size tab"
  by (metis dn_list_ok_def dn_sized_def length_greater_0_conv)

definition dn_result :: "nat list \<Rightarrow> nat \<Rightarrow> ipr_table \<Rightarrow> (nat \<rightharpoonup> mach_port_t \<times> ipc_port_t) \<Rightarrow> bool" where
  "dn_result its k new requests \<longleftrightarrow> (\<exists>fl. dn_list_ok (ipr_requests new) fl \<and> fl \<noteq> []) \<and>
    dn_sized its new \<and> ipr_size new = k \<and> dn_map (ipr_requests new) = requests"

lemma dn_table_first:
  assumes "length memory = its ! k" and "its ! k < 2 ^ 32" and "1 < its ! k"
  shows "dn_result its k (dn_table its k addr memory None) Map.empty"
proof -
  obtain t' f' where run: "dn_free [1..<its ! k] memory 0 = (t', f')" by (cases "dn_free [1..<its ! k] memory 0")
  have "memory \<noteq> []" using assms(1,3) by auto
  then have l: "dn_linked (set_ipr_next memory 0 0) 0 []" by (simp add: set_ipr_next_nth(1))
  have none: "set [] = {i. 0 < i \<and> i < (1::nat) \<and> ipr_name (memory ! i) = MACH_PORT_NULL}" by auto
  note ext = dn_extend [OF run l assms(1,2) _ assms(3) none]
  have new: "dn_table its k addr memory None = \<lparr>ipr_address = addr, ipr_size = k, ipr_requests = set_ipr_next t' 0 f'\<rparr>"
    using run \<open>memory \<noteq> []\<close> by (cases memory) (simp_all add: dn_table_def)
  have "dn_list_ok (set_ipr_next t' 0 f') (rev [1..<its ! k] @ [])" "length (set_ipr_next t' 0 f') = its ! k"
    "dn_map (set_ipr_next t' 0 f') = (\<lambda>i. if i < 1 then dn_map memory i else None)"
    by (intro ext(1) ext(2) ext(3); simp)+
  then show ?thesis using assms(3) unfolding new dn_result_def
    by (intro conjI exI [of _ "rev [1..<its ! k]"]) (auto simp: dn_sized_def dn_map_def)
qed

lemma dn_table_next:
  assumes mem: "length memory = its ! k" "its ! k < 2 ^ 32"
    and ok: "dn_list_ok (ipr_requests tab) fl" and sized: "dn_sized its tab" and grows: "its ! ipr_size tab < its ! k"
  shows "dn_result its k (dn_table its k addr memory (Some tab)) (dn_map (ipr_requests tab))"
proof -
  let ?n = "its ! ipr_size tab" and ?old = "ipr_requests tab"
  define t where "t = take 1 memory @ drop 1 ?old @ drop ?n memory"
  define f where "f = ipr_next (?old ! 0)"
  obtain t' f' where run: "dn_free [?n..<its ! k] t f = (t', f')" by (cases "dn_free [?n..<its ! k] t f")
  have n: "0 < ?n" "length ?old = ?n" using dn_sized_pos [OF ok sized] sized by (simp_all add: dn_sized_def)
  have len: "length t = its ! k" "t \<noteq> []" using n grows mem(1) by (auto simp: t_def)
  have nth: "t ! i = ?old ! i" if "0 < i" "i < ?n" for i
    using that n grows mem(1) by (cases i; cases memory) (auto simp: t_def nth_append)
  have s: "set fl = {i. 0 < i \<and> i < ?n \<and> ipr_name (t ! i) = MACH_PORT_NULL}" "distinct fl" "dn_linked ?old 0 fl"
  proof -
    have "set fl = dn_free_slots ?old" using ok by (simp add: dn_list_ok_def)
    also have "\<dots> = {i. 0 < i \<and> i < ?n \<and> ipr_name (t ! i) = MACH_PORT_NULL}"
      unfolding dn_free_slots_def using n(2) nth by auto
    finally show "set fl = {i. 0 < i \<and> i < ?n \<and> ipr_name (t ! i) = MACH_PORT_NULL}" .
  qed (use ok in \<open>simp_all add: dn_list_ok_def\<close>)
  have l: "dn_linked (set_ipr_next t 0 f) 0 fl"
    using nth s(1) len(2) ipr_next_less
    by (intro dn_linked_start [OF s(3)]) (auto simp: set_ipr_next_nth f_def)
  have f: "f < 2 ^ 32" using ipr_next_less by (simp add: f_def)
  note new = dn_extend [OF run l len(1) mem(2) n(1) grows s(1,2) f]
  have "dn_table its k addr memory (Some tab) = \<lparr>ipr_address = addr, ipr_size = k, ipr_requests = set_ipr_next t' 0 f'\<rparr>"
    using run n by (simp add: dn_table_def t_def f_def)
  moreover have "dn_map (set_ipr_next t' 0 f') = dn_map ?old"
    unfolding new(3) using nth n len(1) grows by (auto simp: dn_map_def fun_eq_iff)
  ultimately show ?thesis using new(1,2) grows unfolding dn_result_def
    by (intro conjI exI [of _ "rev [?n..<its ! k] @ fl"]) (simp_all add: dn_sized_def)
qed

text \<open>
  With memory there and no other table put in place meanwhile, growing keeps every request
  and leaves a free slot.
\<close>

lemma ipc_port_dngrow_spec:
  assumes ok: "port_requests_ok port" "case ip_dnrequests port of None \<Rightarrow> True | Some tab \<Rightarrow> dn_sized its tab"
    and k: "k = (case ip_dnrequests port of None \<Rightarrow> 0 | Some tab \<Rightarrow> Suc (ipr_size tab))"
    and grows: "case ip_dnrequests port of None \<Rightarrow> 1 < its ! k | Some tab \<Rightarrow> its ! ipr_size tab < its ! k"
    and mem: "length memory = its ! k" "its ! k < 2 ^ 32"
    and interim: "\<And>q. ip_dnrequests (interim q) = ip_dnrequests q" "\<And>q. ip_bits (interim q) = ip_bits q" "ip_active port"
  shows "\<exists>port'. ipc_port_dngrow its None (Some (addr, memory)) interim port = (KERN_SUCCESS, port') \<and>
    port_requests port' = port_requests port \<and> port_requests_ok port' \<and> port_free port' \<noteq> []"
proof -
  let ?new = "dn_table its k addr memory (ip_dnrequests port)"
  let ?port = "interim (port\<lparr>ip_references := ip_references port + 1\<rparr>)"
  let ?port' = "?port\<lparr>ip_references := ip_references ?port - 1, ip_dnrequests := Some ?new\<rparr>"
  have one: "1 < its ! k"
    using ok grows dn_sized_pos [of _ _ its] by (fastforce simp: port_requests_ok_def split: option.splits)
  have new: "dn_result its k ?new (port_requests port)"
    using ok grows mem one dn_table_first dn_table_next
    by (auto simp: port_requests_ok_def port_requests_def split: option.splits)
  then obtain fl where fl: "dn_list_ok (ipr_requests ?new) fl" "fl \<noteq> []" unfolding dn_result_def by blast
  have run: "ipc_port_dngrow its None (Some (addr, memory)) interim port = (KERN_SUCCESS, ?port')"
    using interim one k by (auto simp: ipc_port_dngrow_def Let_def split: option.splits)
  have "port_requests ?port' = port_requests port" "port_requests_ok ?port'" "port_free ?port' \<noteq> []"
    using new fl dn_list_chain [OF fl(1)]
    by (auto simp: dn_result_def port_requests_def port_requests_ok_def port_free_def split: option.splits)
  with run show ?thesis by blast
qed

end
