(* ===== verification/Port_Transit.thy ===== *)
theory Port_Transit
  imports Ipc_Port
begin

text \<open>
  Ports in messages: the relation from a port in transit to the port whose queue it is in.
  \<^verbatim>\<open>ipc_port_check_circularity\<close> keeps it free of cycles.
\<close>

definition transit :: "(ipc_port_t \<Rightarrow> ipc_port) \<Rightarrow> (ipc_port_t \<times> ipc_port_t) set" where
  "transit ports = {(p, q). in_transit (ports p) \<and> q = ip_destination (ports p)}"

text \<open>A port that is neither received by a space nor queued.\<close>

definition limbo :: "ipc_port \<Rightarrow> bool" where
  "limbo port \<longleftrightarrow> ip_active port \<and> ip_receiver_name port = MACH_PORT_NULL \<and> ip_destination port = IP_NULL"

lemma limbo_no_edge: "limbo (ports p) \<Longrightarrow> (p, q) \<notin> transit ports"
  by (simp add: limbo_def transit_def in_transit_def)

lemma transit_single: "(p, q) \<in> transit ports \<Longrightarrow> (p, q') \<in> transit ports \<Longrightarrow> q' = q"
  by (simp add: transit_def)

section \<open>The end of a chain\<close>

definition ahead :: "(ipc_port_t \<Rightarrow> ipc_port) \<Rightarrow> ipc_port_t \<Rightarrow> ipc_port_t set" where
  "ahead ports p = {q. (p, q) \<in> (transit ports)\<^sup>+}"

lemma finite_ports [simp]: "finite (S :: ipc_port_t set)"
  by simp

lemma ahead_less:
  assumes "acyclic (transit ports)" and "(p, q) \<in> transit ports"
  shows "card (ahead ports q) < card (ahead ports p)"
proof (rule psubset_card_mono)
  have "q \<in> ahead ports p" using assms(2) by (auto simp: ahead_def)
  moreover have "q \<notin> ahead ports q" using assms(1) by (simp add: ahead_def acyclic_def)
  moreover have "ahead ports q \<subseteq> ahead ports p" using assms(2) by (auto simp: ahead_def intro: trancl_into_trancl2)
  ultimately show "ahead ports q \<subset> ahead ports p" by blast
qed simp

text \<open>A chain is no longer than the number of ports in transit.\<close>

lemma ahead_bound: "card (ahead ports p) \<le> card {q. in_transit (ports q)}"
proof -
  have "ahead ports p \<subseteq> (\<lambda>q. ip_destination (ports q)) ` {q. in_transit (ports q)}"
  proof
    fix q
    assume "q \<in> ahead ports p"
    then obtain x where "(x, q) \<in> transit ports" by (auto simp: ahead_def elim: tranclE)
    then show "q \<in> (\<lambda>q. ip_destination (ports q)) ` {q. in_transit (ports q)}" by (auto simp: transit_def)
  qed
  then show ?thesis by (meson card_image_le card_mono finite_imageI finite_ports order_trans)
qed

lemma chain_end_spec:
  assumes "acyclic (transit ports)" and "card (ahead ports base) < fuel"
  shows "\<exists>q. chain_end fuel ports base = Some q \<and> (base, q) \<in> (transit ports)\<^sup>* \<and> \<not> in_transit (ports q)"
  using assms(2)
proof (induction fuel arbitrary: base)
  case (Suc fuel)
  show ?case
  proof (cases "in_transit (ports base)")
    case True
    then have edge: "(base, ip_destination (ports base)) \<in> transit ports" by (simp add: transit_def)
    then have "card (ahead ports (ip_destination (ports base))) < fuel"
      using ahead_less [OF assms(1)] Suc.prems by fastforce
    from Suc.IH [OF this] edge True show ?thesis by (auto intro: converse_rtrancl_into_rtrancl)
  qed auto
qed simp

lemma reaches_end:
  assumes "(base, q) \<in> (transit ports)\<^sup>*" and "\<not> in_transit (ports q)" and "\<not> in_transit (ports p)"
  shows "p = q \<longleftrightarrow> (base, p) \<in> (transit ports)\<^sup>*"
proof
  assume "(base, p) \<in> (transit ports)\<^sup>*"
  with assms(1) have "(p, q) \<in> (transit ports)\<^sup>* \<or> (q, p) \<in> (transit ports)\<^sup>*"
    by (intro single_valued_confluent) (auto simp: single_valued_def transit_def)
  moreover have "(p, x) \<notin> transit ports" "(q, x) \<notin> transit ports" for x using assms(2,3) by (simp_all add: transit_def)
  ultimately show "p = q" by (metis converse_rtranclE)
qed (use assms(1) in simp)

section \<open>The check\<close>

lemma transit_put:
  assumes "limbo (st_ports st p)" and "p \<noteq> dest" and "dest \<noteq> IP_NULL"
  shows "transit (st_ports (put_in_transit st p dest)) = insert (p, dest) (transit (st_ports st))"
proof -
  have "in_transit (st_ports (put_in_transit st p dest) q) \<longleftrightarrow> q = p \<or> in_transit (st_ports st q)" for q
    using assms by (auto simp: put_in_transit_def ipc_port_reference_def set_port_def Let_def in_transit_def limbo_def)
  moreover have "ip_destination (st_ports (put_in_transit st p dest) q) = (if q = p then dest else ip_destination (st_ports st q))" for q
    using assms(2) by (auto simp: put_in_transit_def ipc_port_reference_def set_port_def Let_def)
  moreover have "\<not> in_transit (st_ports st p)" using assms(1) by (simp add: limbo_def in_transit_def)
  ultimately show ?thesis by (auto simp: transit_def)
qed

definition transit_ready :: "ipc_state \<Rightarrow> ipc_port_t \<Rightarrow> bool" where
  "transit_ready st p \<longleftrightarrow> acyclic (transit (st_ports st)) \<and> limbo (st_ports st p)"

lemma put_acyclic:
  assumes "transit_ready st p" and "dest \<noteq> IP_NULL" and "(dest, p) \<notin> (transit (st_ports st))\<^sup>*"
  shows "transit (st_ports (put_in_transit st p dest)) = insert (p, dest) (transit (st_ports st))"
    and "acyclic (transit (st_ports (put_in_transit st p dest)))"
proof -
  have "p \<noteq> dest" using assms(3) by auto
  then show t: "transit (st_ports (put_in_transit st p dest)) = insert (p, dest) (transit (st_ports st))"
    using assms(1,2) by (intro transit_put) (simp_all add: transit_ready_def)
  show "acyclic (transit (st_ports (put_in_transit st p dest)))"
    using assms(1,3) unfolding t by (simp add: acyclic_insert transit_ready_def)
qed

text \<open>The state the decision is made in is the first one, or that after the multiple lock was taken.\<close>

lemma check_circularity_spec:
  assumes ready: "transit_ready st p" "transit_ready (interim st) p" and dest: "dest \<noteq> IP_NULL"
    and fuel: "card {q. in_transit (st_ports (interim st) q)} < fuel"
  shows "\<exists>circular st' cur. ipc_port_check_circularity fuel try interim st p dest = Some (circular, st') \<and>
    cur \<in> {st, interim st} \<and> (circular \<longleftrightarrow> (dest, p) \<in> (transit (st_ports cur))\<^sup>*) \<and>
    (if circular then st' = cur
     else transit (st_ports st') = insert (p, dest) (transit (st_ports cur)) \<and> acyclic (transit (st_ports st')))"
proof -
  consider (self) "p = dest" | (quick) "p \<noteq> dest" "try" "\<not> in_transit (st_ports st dest)"
    | (chain) "p \<noteq> dest" "\<not> (try \<and> \<not> in_transit (st_ports st dest))" by blast
  then show ?thesis
  proof cases
    case self
    then show ?thesis by (intro exI [of _ True] exI [of _ st]) (simp add: ipc_port_check_circularity_def)
  next
    case quick
    have "(dest, p) \<notin> (transit (st_ports st))\<^sup>*"
      using quick by (auto simp: transit_def elim: converse_rtranclE)
    with put_acyclic [OF ready(1) dest this] quick show ?thesis
      by (intro exI [of _ False] exI [of _ "put_in_transit st p dest"] exI [of _ st])
        (simp add: ipc_port_check_circularity_def)
  next
    case chain
    let ?ports = "st_ports (interim st)"
    have "card (ahead ?ports dest) < fuel" using ahead_bound [of ?ports dest] fuel by linarith
    then obtain q where q: "chain_end fuel ?ports dest = Some q" "(dest, q) \<in> (transit ?ports)\<^sup>*" "\<not> in_transit (?ports q)"
      using chain_end_spec ready(2) unfolding transit_ready_def by blast
    have "\<not> in_transit (?ports p)" using ready(2) by (simp add: transit_ready_def limbo_def in_transit_def)
    note e = reaches_end [OF q(2,3) this]
    have run: "ipc_port_check_circularity fuel try interim st p dest =
        Some (if p = q then (True, interim st) else (False, put_in_transit (interim st) p dest))"
      using chain q(1) by (auto simp: ipc_port_check_circularity_def Let_def)
    show ?thesis
    proof (cases "p = q")
      case True
      with run e show ?thesis by (intro exI [of _ True] exI [of _ "interim st"]) simp
    next
      case False
      with e have "(dest, p) \<notin> (transit ?ports)\<^sup>*" by simp
      with put_acyclic [OF ready(2) dest this] run False show ?thesis
        by (intro exI [of _ False] exI [of _ "put_in_transit (interim st) p dest"] exI [of _ "interim st"]) simp
    qed
  qed
qed

end
