(* ===== verification/Port_Laws.thy ===== *)
theory Port_Laws
  imports Port_Requests Port_Transit Example_Space
begin

text \<open>
  The laws of ports and of the queues they use: no circle of ports in messages, the
  requests of a port, the answer to a no-senders request over a sequence of operations,
  the order of time stamps, and messages that move between port sets.
\<close>

section \<open>Ports in messages\<close>

text \<open>
  C7: \<^verbatim>\<open>ipc_port_check_circularity\<close> ends, and it answers true iff the destination is, through
  the ports it is in transit to, inside the port that is to be queued.  Otherwise it makes
  the port one in transit, and the ports in transit are still without a cycle.  The answer is
  about the state in which the locks are held: the first state, or the one after
  the attempt to lock the destination failed.
\<close>

theorem circularity_exact:
  assumes "transit_ready st p" and "transit_ready (interim st) p" and "dest \<noteq> IP_NULL"
    and "card {q. in_transit (st_ports (interim st) q)} < fuel"
  shows "\<exists>circular st' cur. ipc_port_check_circularity fuel try interim st p dest = Some (circular, st') \<and>
    cur \<in> {st, interim st} \<and> (circular \<longleftrightarrow> (dest, p) \<in> (transit (st_ports cur))\<^sup>*) \<and>
    (if circular then st' = cur
     else transit (st_ports st') = insert (p, dest) (transit (st_ports cur)) \<and> acyclic (transit (st_ports st')))"
  using check_circularity_spec [of st p interim dest fuel] assms by blast

definition transit_state :: ipc_state where
  "transit_state = example_state\<lparr>st_ports := (\<lambda>_. blank_port)(8 := live_port,
     16 := live_port\<lparr>ip_receiver := 24\<rparr>, 24 := live_port\<lparr>ip_receiver := 96, ip_receiver_name := 0x100\<rparr>)\<rparr>"

lemma transit_state_edges: "transit (st_ports transit_state) = {(16, 24)}"
  by (auto simp: transit_def in_transit_def transit_state_def live_port_def blank_port_def io_active_bit IO_NULL_def
      MACH_PORT_NULL_def IO_BITS_ACTIVE_def bit_simps split: if_splits)

theorem circularity_exact_witness:
  "\<exists>circular st' cur. ipc_port_check_circularity 2 True (\<lambda>st. st) transit_state 8 16 = Some (circular, st') \<and>
    cur \<in> {transit_state, transit_state} \<and> (circular \<longleftrightarrow> (16, 8) \<in> (transit (st_ports cur))\<^sup>*) \<and>
    (if circular then st' = cur
     else transit (st_ports st') = insert (8, 16) (transit (st_ports cur)) \<and> acyclic (transit (st_ports st')))"
proof (rule circularity_exact [where interim = "\<lambda>st. st"])
  have "acyclic (transit (st_ports transit_state))"
    unfolding transit_state_edges by (intro wf_acyclic wf_subset [OF wf_measure [of unat]]) simp
  moreover have "limbo (st_ports transit_state 8)" by (simp add: limbo_def transit_state_def live_port_def blank_port_def IO_NULL_def)
  ultimately show "transit_ready transit_state 8" "transit_ready transit_state 8" by (simp_all add: transit_ready_def)
  have "{q. in_transit (st_ports transit_state q)} = {16}"
    using transit_state_edges by (auto simp: transit_def)
  then show "card {q. in_transit (st_ports transit_state q)} < 2" by simp
qed (simp add: IO_NULL_def)

section \<open>Requests of a port\<close>

text \<open>A port with a table of three slots, two of them free.\<close>

definition request_port :: ipc_port where
  "request_port = live_port\<lparr>ip_dnrequests := Some \<lparr>ipr_address = 0x4000, ipr_size = 0, ipr_requests =
     [\<lparr>ipr_soright = 1, ipr_name = 0\<rparr>, \<lparr>ipr_soright = 2, ipr_name = MACH_PORT_NULL\<rparr>,
      \<lparr>ipr_soright = 0, ipr_name = MACH_PORT_NULL\<rparr>]\<rparr>\<rparr>"

lemma request_port_ok: "port_requests_ok request_port"
proof -
  have "dn_list_ok (ipr_requests (the (ip_dnrequests request_port))) [1, 2]"
    by (auto simp: request_port_def dn_list_ok_def dn_free_slots_def ipr_next_def less_Suc_eq numeral_3_eq_3)
  then show ?thesis by (auto simp: port_requests_ok_def request_port_def)
qed

text \<open>
  A dead-name request is registered in a free slot of the table, in which there was
  none; cancelling it returns the send-once right that was registered, and leaves the requests
  and the free list as they were.
\<close>

theorem dnrequest_round_trip:
  assumes "port_requests_ok port" and "name \<noteq> MACH_PORT_NULL" and "ipc_port_dnrequest port name so = Inr (i, port1)"
  shows "\<exists>port2. ipc_port_dncancel port1 name i = (so, port2) \<and> port_requests_ok port2 \<and>
    port_free port2 = port_free port \<and> port_requests port2 = port_requests port"
  by (rule port_table.request_cancel [OF assms])

theorem dnrequest_round_trip_witness:
  "\<exists>i port1 port2. ipc_port_dnrequest request_port 0x100 32 = Inr (i, port1) \<and>
    ipc_port_dncancel port1 0x100 i = (32, port2) \<and> port_requests port2 = port_requests request_port"
proof -
  obtain port1 where run: "ipc_port_dnrequest request_port 0x100 32 = Inr (1, port1)"
    by (simp add: ipc_port_dnrequest_def request_port_def ipr_next_def Let_def)
  from dnrequest_round_trip [OF request_port_ok _ run] run show ?thesis by (auto simp: MACH_PORT_NULL_def)
qed

text \<open>
  Growing the table of dead-name requests, with memory there and no other thread growing it
  meanwhile, changes no request and leaves a free slot.
\<close>

theorem dngrow_keeps_requests:
  assumes "port_requests_ok port" and "case ip_dnrequests port of None \<Rightarrow> True | Some tab \<Rightarrow> dn_sized its tab"
    and "k = (case ip_dnrequests port of None \<Rightarrow> 0 | Some tab \<Rightarrow> Suc (ipr_size tab))"
    and "case ip_dnrequests port of None \<Rightarrow> 1 < its ! k | Some tab \<Rightarrow> its ! ipr_size tab < its ! k"
    and "length memory = its ! k" and "its ! k < 2 ^ 32"
    and "\<And>q. ip_dnrequests (interim q) = ip_dnrequests q" and "\<And>q. ip_bits (interim q) = ip_bits q" and "ip_active port"
  shows "\<exists>port'. ipc_port_dngrow its None (Some (addr, memory)) interim port = (KERN_SUCCESS, port') \<and>
    port_requests port' = port_requests port \<and> port_requests_ok port' \<and> port_free port' \<noteq> []"
  using assms by (rule ipc_port_dngrow_spec)

theorem dngrow_keeps_requests_witness:
  "\<exists>port'. ipc_port_dngrow [3, 5, 0] None (Some (0x5000, replicate 5 \<lparr>ipr_soright = 7, ipr_name = 9\<rparr>)) (\<lambda>q. q) request_port =
      (KERN_SUCCESS, port') \<and>
    port_requests port' = port_requests request_port \<and> port_requests_ok port' \<and> port_free port' \<noteq> []"
  by (rule dngrow_keeps_requests [OF request_port_ok, where k = 1])
    (simp_all add: request_port_def dn_sized_def live_port_def)

section \<open>Send rights\<close>

text \<open>Operations on send rights for a port, one after another.\<close>

datatype send_op = Make_send | Copy_send | Release_send

fun send_step :: "ipc_port_t \<Rightarrow> send_op \<Rightarrow> ipc_state \<Rightarrow> ipc_state option" where
  "send_step p Make_send st = Some (snd (ipc_port_make_send st p))"
| "send_step p Copy_send st = map_option snd (ipc_port_copy_send st p)"
| "send_step p Release_send st = ipc_port_release_send st p"

fun send_run :: "ipc_port_t \<Rightarrow> send_op list \<Rightarrow> ipc_state \<Rightarrow> ipc_state option" where
  "send_run p [] st = Some st"
| "send_run p (x # ops) st = Option.bind (send_step p x st) (send_run p ops)"

text \<open>The number of send rights after the operations; only rights that are there are copied and released.\<close>

fun send_balance :: "nat \<Rightarrow> send_op list \<Rightarrow> nat option" where
  "send_balance k [] = Some k"
| "send_balance k (Make_send # ops) = send_balance (k + 1) ops"
| "send_balance k (Copy_send # ops) = (if k = 0 then None else send_balance (k + 1) ops)"
| "send_balance k (Release_send # ops) = (if k = 0 then None else send_balance (k - 1) ops)"

text \<open>The operations up to the first that releases the last send right.\<close>

fun until_no_senders :: "nat \<Rightarrow> send_op list \<Rightarrow> send_op list option" where
  "until_no_senders k [] = None"
| "until_no_senders k (Release_send # ops) =
    (if k \<le> 1 then Some [Release_send] else map_option (Cons Release_send) (until_no_senders (k - 1) ops))"
| "until_no_senders k (x # ops) = map_option (Cons x) (until_no_senders (k + 1) ops)"

lemma send_step_live:
  assumes "IO_VALID p" and "ip_active (st_ports st p)"
  shows "send_step p x st = None \<longleftrightarrow> x \<noteq> Make_send \<and> ip_srights (st_ports st p) = 0"
    and "send_step p x st = Some st' \<Longrightarrow> ip_active (st_ports st' p)"
    and "send_step p x st = Some st' \<Longrightarrow>
      ip_srights (st_ports st' p) = (if x = Release_send then ip_srights (st_ports st p) - 1 else ip_srights (st_ports st p) + 1)"
    and "send_step p x st = Some st' \<Longrightarrow>
      ip_mscount (st_ports st' p) = (if x = Make_send then ip_mscount (st_ports st p) + 1 else ip_mscount (st_ports st p))"
    and "send_step p x st = Some st' \<Longrightarrow>
      ip_nsrequest (st_ports st' p) = (if x = Release_send \<and> ip_srights (st_ports st p) = 1 then IP_NULL else ip_nsrequest (st_ports st p))"
    and "send_step p x st = Some st' \<Longrightarrow> st_events st' = st_events st @
      (if x = Release_send \<and> ip_srights (st_ports st p) = 1 \<and> ip_nsrequest (st_ports st p) \<noteq> IP_NULL
       then [Notify_no_senders (ip_nsrequest (st_ports st p)) (ip_mscount (st_ports st p))] else [])"
  using assms(1,2)
  by (cases x; auto simp: ipc_port_make_send_def ipc_port_copy_send_def ipc_port_release_send_def drop_send_def
      state_simps Let_def split: if_splits)+

lemma unat_step:
  assumes "unat w + 1 < 2 ^ 32"
  shows "unat ((w :: 32 word) + 1) = unat w + 1"
  using assms by (simp add: unat_word_ariths)

lemma unat_is_one: "unat (w :: 32 word) = Suc 0 \<longleftrightarrow> w = 1"
  by (metis One_nat_def unat_1 unsigned_word_eqI)

lemma unat_back: "w \<noteq> 0 \<Longrightarrow> unat ((w :: 32 word) - 1) = unat w - 1"
  by (simp add: unat_minus_one)

text \<open>One operation on the count, and what is left of the others.\<close>

lemma send_step_balance:
  assumes "IO_VALID p" and "ip_active (st_ports st p)" and "unat (ip_srights (st_ports st p)) + length (x # ops) < 2 ^ 32"
  shows "case send_step p x st of
      None \<Rightarrow> send_balance (unat (ip_srights (st_ports st p))) (x # ops) = None
    | Some st' \<Rightarrow> send_balance (unat (ip_srights (st_ports st p))) (x # ops) = send_balance (unat (ip_srights (st_ports st' p))) ops \<and>
        unat (ip_srights (st_ports st' p)) + length ops < 2 ^ 32 \<and>
        (\<not> (x = Release_send \<and> ip_srights (st_ports st p) = 1) \<longrightarrow>
          until_no_senders (unat (ip_srights (st_ports st p))) (x # ops) = map_option (Cons x) (until_no_senders (unat (ip_srights (st_ports st' p))) ops))"
proof (cases "send_step p x st")
  case None
  then have "x \<noteq> Make_send" "ip_srights (st_ports st p) = 0" using send_step_live(1) [OF assms(1,2), of x] by simp_all
  then have "send_balance (unat (ip_srights (st_ports st p))) (x # ops) = None" by (cases x) simp_all
  with None show ?thesis by (simp only: option.case)
next
  case (Some st')
  let ?w = "ip_srights (st_ports st p)"
  define k k' where "k = unat ?w" and "k' = unat (ip_srights (st_ports st' p))"
  have w: "x \<noteq> Make_send \<Longrightarrow> ?w \<noteq> 0" using send_step_live(1) [OF assms(1,2), of x] Some by auto
  have k: "x \<noteq> Make_send \<Longrightarrow> k \<noteq> 0" "?w = 1 \<longleftrightarrow> k = 1" "k + 1 < 2 ^ 32" "k + length (x # ops) < 2 ^ 32"
    using w assms(3) by (auto simp: k_def unat_eq_0 unat_is_one)
  have k': "k' = (if x = Release_send then k - 1 else k + 1)"
    using send_step_live(3) [OF assms(1,2) Some] unat_back [OF w] unat_step [OF k(3) [unfolded k_def]] by (auto simp: k_def k'_def)
  have "send_balance k (x # ops) = send_balance k' ops" "k' + length ops < 2 ^ 32"
    "\<not> (x = Release_send \<and> k = 1) \<longrightarrow> until_no_senders k (x # ops) = map_option (Cons x) (until_no_senders k' ops)"
    using k(1,4) by (cases x; simp add: k'; linarith)+
  with Some show ?thesis by (simp only: option.case k(2) k_def [symmetric] k'_def [symmetric] simp_thms)
qed

lemma send_run_count:
  assumes "IO_VALID p" and "ip_active (st_ports st p)" and "unat (ip_srights (st_ports st p)) + length ops < 2 ^ 32"
  shows "map_option (\<lambda>st'. unat (ip_srights (st_ports st' p))) (send_run p ops st) = send_balance (unat (ip_srights (st_ports st p))) ops"
  using assms(2-)
proof (induction ops arbitrary: st)
  case (Cons x ops)
  note b = send_step_balance [OF assms(1) Cons.prems]
  show ?case
  proof (cases "send_step p x st")
    case None
    with b show ?thesis by simp
  next
    case (Some st')
    with b Cons.IH [OF send_step_live(2) [OF assms(1) Cons.prems(1) Some]] show ?thesis by simp
  qed
qed simp

lemma send_run_quiet:
  assumes "IO_VALID p" and "ip_active (st_ports st p)" and "ip_nsrequest (st_ports st p) = IP_NULL" and "send_run p ops st = Some st'"
  shows "ip_nsrequest (st_ports st' p) = IP_NULL \<and> st_events st' = st_events st"
  using assms(2-)
proof (induction ops arbitrary: st)
  case (Cons x ops)
  obtain st1 where s: "send_step p x st = Some st1" "send_run p ops st1 = Some st'" using Cons.prems(3) by (cases "send_step p x st") auto
  note step = send_step_live(2,5,6) [OF assms(1) Cons.prems(1) s(1)]
  from Cons.IH [OF step(1) _ s(2)] step(2,3) Cons.prems(2) show ?case by simp
qed simp

lemma send_run_notify:
  assumes "IO_VALID p" and "ip_active (st_ports st p)" and "ip_nsrequest (st_ports st p) = notify" and "notify \<noteq> IP_NULL"
    and "unat (ip_srights (st_ports st p)) + length ops < 2 ^ 32" and "send_run p ops st = Some st'"
  shows "case until_no_senders (unat (ip_srights (st_ports st p))) ops of
       None \<Rightarrow> ip_nsrequest (st_ports st' p) = notify \<and> st_events st' = st_events st
     | Some before \<Rightarrow>
         ip_nsrequest (st_ports st' p) = IP_NULL \<and>
         st_events st' = st_events st @ [Notify_no_senders notify
           (ip_mscount (st_ports st p) + word_of_nat (count_list before Make_send))]"
  using assms(2,3,5,6)
proof (induction ops arbitrary: st)
  case (Cons x ops)
  obtain st1 where s: "send_step p x st = Some st1" "send_run p ops st1 = Some st'" using Cons.prems(4) by (cases "send_step p x st") auto
  note step = send_step_live(2-6) [OF assms(1) Cons.prems(1) s(1)]
  have b: "unat (ip_srights (st_ports st1 p)) + length ops < 2 ^ 32"
    "\<not> (x = Release_send \<and> ip_srights (st_ports st p) = 1) \<longrightarrow>
      until_no_senders (unat (ip_srights (st_ports st p))) (x # ops) = map_option (Cons x) (until_no_senders (unat (ip_srights (st_ports st1 p))) ops)"
    using send_step_balance [OF assms(1) Cons.prems(1,3)] s(1) by simp_all
  show ?case
  proof (cases "x = Release_send \<and> ip_srights (st_ports st p) = 1")
    case True
    with step(4,5) Cons.prems(2) assms(4) have "ip_nsrequest (st_ports st1 p) = IP_NULL"
      "st_events st1 = st_events st @ [Notify_no_senders notify (ip_mscount (st_ports st p))]" by simp_all
    with send_run_quiet [OF assms(1) step(1) _ s(2)] True show ?thesis by simp
  next
    case False
    then have "ip_nsrequest (st_ports st1 p) = notify" "st_events st1 = st_events st"
      using step(4,5) Cons.prems(2) by auto
    with Cons.IH [OF step(1) _ b(1) s(2)] show ?thesis
      using step(3) b(2) False by (auto split: option.splits simp: add.assoc)
  qed
qed simp

text \<open>
  C25: Any sequence of making, copying and releasing send rights of a live port runs exactly when no right is
  copied or released that is not there, which the code asserts.  The count of send rights is then exact, and a registered
  no-senders request is answered exactly once, when the last send right goes for the first time, with the make-send count
  of that moment.
\<close>

theorem no_senders_once:
  assumes "IO_VALID p" and "ip_active (st_ports st p)" and "ip_nsrequest (st_ports st p) = notify" and "notify \<noteq> IP_NULL"
    and "unat (ip_srights (st_ports st p)) + length ops < 2 ^ 32"
  shows "case send_balance (unat (ip_srights (st_ports st p))) ops of
      None \<Rightarrow> send_run p ops st = None
    | Some k \<Rightarrow> \<exists>st'. send_run p ops st = Some st' \<and> unat (ip_srights (st_ports st' p)) = k \<and>
        (case until_no_senders (unat (ip_srights (st_ports st p))) ops of
           None \<Rightarrow> ip_nsrequest (st_ports st' p) = notify \<and> st_events st' = st_events st
         | Some before \<Rightarrow>
             ip_nsrequest (st_ports st' p) = IP_NULL \<and>
             st_events st' = st_events st @ [Notify_no_senders notify
               (ip_mscount (st_ports st p) + word_of_nat (count_list before Make_send))])"
proof (cases "send_run p ops st")
  case None
  with send_run_count [OF assms(1,2,5)] show ?thesis by simp
next
  case (Some st')
  with send_run_count [OF assms(1,2,5)] send_run_notify [OF assms(1-5) Some] show ?thesis by (simp flip: send_run_count [OF assms(1,2,5)])
qed

theorem no_senders_once_witness:
  "\<exists>st'. send_run 8 [Make_send, Copy_send, Release_send, Release_send, Make_send, Release_send]
     (example_state\<lparr>st_ports := (\<lambda>_. blank_port)(8 := live_port\<lparr>ip_nsrequest := 32\<rparr>)\<rparr>) = Some st' \<and>
     st_events st' = [Notify_no_senders 32 1]"
  (is "\<exists>st'. send_run 8 ?ops ?st = Some st' \<and> _")
proof -
  have "IO_VALID 8" "ip_active (st_ports ?st 8)" "ip_nsrequest (st_ports ?st 8) = 32" "(32 :: ipc_port_t) \<noteq> IP_NULL"
    "unat (ip_srights (st_ports ?st 8)) + length ?ops < 2 ^ 32"
    by (simp_all add: IO_VALID_def live_port_def blank_port_def IO_NULL_def IO_DEAD_def)
  from no_senders_once [OF this] show ?thesis by (auto simp: live_port_def blank_port_def example_state_def)
qed

section \<open>Time stamps\<close>

text \<open>
  Of two time stamps the earlier one is recognised, also when the 32 bit counter wrapped
  around in between, exactly when at most half of its range was used up in between.
\<close>

theorem timestamp_order:
  "IP_TIMESTAMP_ORDER (fst (ipc_port_timestamp st)) (fst (ipc_port_timestamp (((snd \<circ> ipc_port_timestamp) ^^ n) st)))
    \<longleftrightarrow> 0 < n mod 2 ^ 32 \<and> n mod 2 ^ 32 \<le> 2 ^ 31"
proof -
  have t: "st_timestamp (((snd \<circ> ipc_port_timestamp) ^^ n) st) = st_timestamp st + word_of_nat n"
    by (induction n) (simp_all add: ipc_port_timestamp_def algebra_simps)
  have sign: "io_active w \<longleftrightarrow> 2 ^ 31 \<le> unat w" for w :: "32 word"
  proof -
    have "unat w < 2 ^ 32" using unsigned_less [of w] by simp
    then have "unat w div 2 ^ 31 = (if 2 ^ 31 \<le> unat w then 1 else 0)" by (auto intro: div_nat_eqI)
    moreover have "bit w 31 \<longleftrightarrow> bit (unat w) 31" by (simp add: bit_unsigned_iff)
    ultimately show ?thesis by (simp add: io_active_bit bit_iff_odd [of "unat w"])
  qed
  have "io_active (- (word_of_nat n :: 32 word)) \<longleftrightarrow> 0 < n mod 2 ^ 32 \<and> n mod 2 ^ 32 \<le> 2 ^ 31"
  proof (cases "n mod 2 ^ 32 = 0")
    case True
    then have "(word_of_nat n :: 32 word) = 0" by (simp add: word_of_nat_eq_0_iff mod_eq_0_iff_dvd)
    with True show ?thesis by (simp add: sign)
  next
    case False
    have "unat (- (word_of_nat n :: 32 word)) = 2 ^ 32 - n mod 2 ^ 32"
    proof -
      have "uint (- (word_of_nat n :: 32 word)) = (- int n) mod 2 ^ 32"
        by (simp add: uint_word_ariths mod_minus_eq unsigned_of_nat take_bit_eq_mod zmod_int)
      also have "\<dots> = 2 ^ 32 - int (n mod 2 ^ 32)"
        using False zmod_int [of n "2 ^ 32"] by (simp add: zmod_zminus1_eq_if)
      finally show ?thesis by (simp add: unat_eq_nat_uint nat_diff_distrib)
    qed
    with False show ?thesis unfolding sign by auto
  qed
  then show ?thesis
    using t by (simp add: IP_TIMESTAMP_ORDER_def ipc_port_timestamp_def io_active_def [symmetric] io_active_bit)
qed

section \<open>Port sets\<close>

text \<open>
  Where the messages of a port wait: in the queue of its set, or in its own.  The queues are in
  order when every message waits in the queue of the port it is for.
\<close>

definition port_queue :: "ipc_state \<Rightarrow> ipc_port_t \<Rightarrow> ipc_mqueue" where
  "port_queue st p = (if ip_pset (st_ports st p) = IPS_NULL then ip_messages (st_ports st p)
    else ips_messages (st_psets st (ip_pset (st_ports st p))))"

definition queued :: "ipc_state \<Rightarrow> ipc_port_t \<Rightarrow> ipc_kmsg list" where
  "queued st p = filter (\<lambda>k. msgh_remote_port k = p) (imq_messages (port_queue st p))"

definition queues_ok :: "ipc_state \<Rightarrow> bool" where
  "queues_ok st \<longleftrightarrow>
    (\<forall>p. mqueue_ok (ip_messages (st_ports st p)) \<and>
      (\<forall>k \<in> set (imq_messages (ip_messages (st_ports st p))). msgh_remote_port k = p \<and> ip_pset (st_ports st p) = IPS_NULL)) \<and>
    (\<forall>ps. ps \<noteq> IPS_NULL \<longrightarrow> mqueue_ok (ips_messages (st_psets st ps)) \<and>
      (\<forall>k \<in> set (imq_messages (ips_messages (st_psets st ps))). ip_pset (st_ports st (msgh_remote_port k)) = ps))"

lemma deliver_none: "mqueue_move_loop cfg port kmsgs dest seqno = (rest, dest', seqno', es) \<Longrightarrow> imq_threads dest = [] \<Longrightarrow> es = []"
  by (induction kmsgs arbitrary: dest seqno rest dest' seqno' es) (fastforce split: if_splits prod.splits simp: Let_def)+

lemma move_messages:
  assumes m: "ipc_mqueue_move cfg dest source p seqno = (dest', source', seqno', es)" and ok: "mqueue_ok dest"
  shows "imq_messages source' = filter (\<lambda>k. msgh_remote_port k \<noteq> p) (imq_messages source)"
    and "imq_threads source' = imq_threads source"
    and "taken_messages es @ imq_messages dest' = imq_messages dest @ filter (\<lambda>k. msgh_remote_port k = p) (imq_messages source)"
    and "mqueue_ok dest'" and "\<forall>k \<in> set (taken_messages es). msgh_remote_port k = p"
proof -
  note spec = ipc_mqueue_move_spec [OF m ok]
  then show "imq_messages source' = filter (\<lambda>k. msgh_remote_port k \<noteq> p) (imq_messages source)"
    "imq_threads source' = imq_threads source" "mqueue_ok dest'"
    and eq: "taken_messages es @ imq_messages dest' = imq_messages dest @ filter (\<lambda>k. msgh_remote_port k = p) (imq_messages source)"
    by simp_all
  consider "imq_messages dest = []" | "imq_threads dest = []" using ok by (auto simp: mqueue_ok_def)
  then show "\<forall>k \<in> set (taken_messages es). msgh_remote_port k = p"
  proof cases
    case 1
    then have "set (taken_messages es) \<subseteq> set (filter (\<lambda>k. msgh_remote_port k = p) (imq_messages source))"
      using eq by (metis append_Nil set_append sup_ge1)
    then show ?thesis by auto
  next
    case 2
    then have "es = []" using m deliver_none by (fastforce simp: ipc_mqueue_move_def split: prod.splits)
    then show ?thesis by simp
  qed
qed

lemma filter_all_of: "\<forall>k \<in> set xs. f k = p \<Longrightarrow> filter (\<lambda>k. f k = q) xs = (if q = p then xs else [])"
  by (induction xs) auto

lemma changed_simps:
  "ipc_mqueue_changed mq mr = (mq', es) \<Longrightarrow> mqueue_ok mq \<Longrightarrow>
    imq_messages mq' = imq_messages mq \<and> taken_messages es = [] \<and> mqueue_ok mq'"
proof -
  have "list_all (\<lambda>th. ith_kmsg th = None) ths \<Longrightarrow> taken_messages (map (\<lambda>th. Thread_go (th\<lparr>ith_state := mr\<rparr>)) ths) = []" for ths
    by (induction ths) auto
  then show "ipc_mqueue_changed mq mr = (mq', es) \<Longrightarrow> mqueue_ok mq \<Longrightarrow>
      imq_messages mq' = imq_messages mq \<and> taken_messages es = [] \<and> mqueue_ok mq'"
    by (auto simp: ipc_mqueue_changed_def mqueue_ok_def)
qed

definition requeued :: "ipc_port_t \<Rightarrow> ipc_state \<Rightarrow> ipc_state \<Rightarrow> bool" where
  "requeued p st st' \<longleftrightarrow> queues_ok st' \<and>
    (\<exists>es. st_events st' = st_events st @ es \<and> taken_messages es @ queued st' p = queued st p) \<and>
    (\<forall>q. q \<noteq> p \<longrightarrow> queued st' q = queued st q)"

lemma requeued_trans:
  assumes "requeued p st st1" and "requeued p st1 st2"
  shows "requeued p st st2"
proof -
  obtain es es' where es: "st_events st1 = st_events st @ es" "taken_messages es @ queued st1 p = queued st p"
    "st_events st2 = st_events st1 @ es'" "taken_messages es' @ queued st2 p = queued st1 p"
    using assms by (auto simp: requeued_def)
  then have "st_events st2 = st_events st @ (es @ es')" "taken_messages (es @ es') @ queued st2 p = queued st p" by simp_all
  with assms show ?thesis unfolding requeued_def by metis
qed

lemma requeued_check:
  assumes "queues_ok st"
  shows "requeued p st (ips_check_unlock st ps)"
proof -
  have q: "queued (emit st es) = queued st" "queues_ok (emit st es) = queues_ok st" for es
    by (auto simp: fun_eq_iff queued_def port_queue_def queues_ok_def state_simps)
  have "requeued p st (emit st [Free_pset ps])"
    using assms unfolding requeued_def q by (intro conjI exI [of _ "[Free_pset ps]"]) (auto simp: state_simps)
  moreover have "requeued p st st" using assms by (auto simp: requeued_def intro: exI [of _ "[]"])
  ultimately show ?thesis by (simp add: ips_check_unlock_def)
qed

lemma pset_add_queues:
  assumes ok: "queues_ok st" and p: "ip_pset (st_ports st p) = IPS_NULL" and ps: "ps \<noteq> IPS_NULL"
  shows "requeued p st (ipc_pset_add cfg st ps p)" and "ip_pset (st_ports (ipc_pset_add cfg st ps p) p) = ps"
proof -
  let ?port = "st_ports st p" and ?pset = "st_psets st ps" and ?st = "ipc_pset_add cfg st ps p"
  obtain dest source seqno es1 where m: "ipc_mqueue_move cfg (ips_messages ?pset) (ip_messages ?port) p (ip_seqno ?port) = (dest, source, seqno, es1)"
    by (metis prod_cases4)
  obtain source' es2 where c: "ipc_mqueue_changed source MACH_RCV_PORT_CHANGED = (source', es2)" by fastforce
  have own: "mqueue_ok (ip_messages ?port)" "\<forall>k \<in> set (imq_messages (ip_messages ?port)). msgh_remote_port k = p"
    and set_ok: "mqueue_ok (ips_messages ?pset)" "\<forall>k \<in> set (imq_messages (ips_messages ?pset)). ip_pset (st_ports st (msgh_remote_port k)) = ps"
    using ok ps by (auto simp: queues_ok_def)
  note mv = move_messages [OF m set_ok(1)]
  have src: "imq_messages source = []" using mv(1) own(2) by simp
  have "mqueue_ok source" using own(1) mv(2) src by (simp add: mqueue_ok_def)
  note ch = changed_simps [OF c this]
  have st: "?st = emit (set_pset (set_port st p (?port\<lparr>ip_pset := ps, ip_seqno := seqno, ip_messages := source'\<rparr>)) ps
      (?pset\<lparr>ips_references := ips_references ?pset + 1, ips_messages := dest\<rparr>)) (es1 @ es2)"
    using m c by (simp add: ipc_pset_add_def Let_def)
  have msgs: "taken_messages es1 @ imq_messages dest = imq_messages (ips_messages ?pset) @ imq_messages (ip_messages ?port)"
    using mv(3) own(2) by simp
  then have mem: "set (imq_messages dest) \<subseteq> set (imq_messages (ips_messages ?pset)) \<union> set (imq_messages (ip_messages ?port))"
    by (metis set_append sup_ge2)
  have notp: "filter (\<lambda>k. msgh_remote_port k = p) (imq_messages (ips_messages ?pset)) = []"
    using set_ok(2) p ps by (auto simp: filter_empty_conv)
  have f: "filter (\<lambda>k. msgh_remote_port k = q) (taken_messages es1) @ filter (\<lambda>k. msgh_remote_port k = q) (imq_messages dest) =
      filter (\<lambda>k. msgh_remote_port k = q) (imq_messages (ips_messages ?pset)) @
      filter (\<lambda>k. msgh_remote_port k = q) (imq_messages (ip_messages ?port))" for q
    using arg_cong [OF msgs, of "filter (\<lambda>k. msgh_remote_port k = q)"] by simp
  note f' = f [unfolded filter_all_of [OF mv(5)] filter_all_of [OF own(2)]]
  show "ip_pset (st_ports ?st p) = ps" unfolding st by (simp add: state_simps)
  have "queues_ok ?st"
    unfolding queues_ok_def st using ok mem own(2) mv(4) ch src ps p
    by (auto simp: state_simps queues_ok_def)
  moreover have qd: "queued ?st q = filter (\<lambda>k. msgh_remote_port k = q)
      (imq_messages (if ip_pset (st_ports st q) = ps \<or> q = p then dest else port_queue st q))" for q
    unfolding st using ps by (auto simp: queued_def port_queue_def state_simps)
  have "taken_messages es1 @ queued ?st p = queued st p"
    using f' [of p] notp p filter_all_of [OF own(2), of p] unfolding qd by (simp add: queued_def port_queue_def)
  moreover have "queued ?st q = queued st q" if "q \<noteq> p" for q
    using f' [of q] that ps unfolding qd by (auto simp: queued_def port_queue_def)
  ultimately show "requeued p st ?st"
    unfolding requeued_def using ch by (intro conjI exI [of _ "es1 @ es2"]) (auto simp: st state_simps)
qed

lemma pset_remove_queues:
  assumes ok: "queues_ok st" and p: "ip_pset (st_ports st p) = ps" and ps: "ps \<noteq> IPS_NULL"
  shows "requeued p st (ipc_pset_remove cfg st ps p)" and "ip_pset (st_ports (ipc_pset_remove cfg st ps p) p) = IPS_NULL"
proof -
  let ?port = "st_ports st p" and ?pset = "st_psets st ps" and ?st = "ipc_pset_remove cfg st ps p"
  obtain dest source seqno es where m: "ipc_mqueue_move cfg (ip_messages ?port) (ips_messages ?pset) p (ip_seqno ?port) = (dest, source, seqno, es)"
    by (metis prod_cases4)
  have own: "mqueue_ok (ip_messages ?port)" "imq_messages (ip_messages ?port) = []"
    and set_ok: "mqueue_ok (ips_messages ?pset)" "\<forall>k \<in> set (imq_messages (ips_messages ?pset)). ip_pset (st_ports st (msgh_remote_port k)) = ps"
    using ok p ps by (auto simp: queues_ok_def) (metis list.set_intros(1) neq_Nil_conv)
  note mv = move_messages [OF m own(1)]
  have msgs: "taken_messages es @ imq_messages dest = filter (\<lambda>k. msgh_remote_port k = p) (imq_messages (ips_messages ?pset))"
    using mv(3) own(2) by simp
  have mem: "\<forall>k \<in> set (imq_messages dest). msgh_remote_port k = p"
  proof -
    have "set (imq_messages dest) \<subseteq> set (filter (\<lambda>k. msgh_remote_port k = p) (imq_messages (ips_messages ?pset)))"
      using msgs by (metis set_append sup_ge2)
    then show ?thesis by auto
  qed
  have src: "mqueue_ok source" using set_ok(1) mv(1,2) by (auto simp: mqueue_ok_def)
  have st: "?st = emit (set_pset (set_port st p (?port\<lparr>ip_pset := IPS_NULL, ip_seqno := seqno, ip_messages := dest\<rparr>)) ps
      (?pset\<lparr>ips_references := ips_references ?pset - 1, ips_messages := source\<rparr>)) es"
    using m by (simp add: ipc_pset_remove_def Let_def)
  show "ip_pset (st_ports ?st p) = IPS_NULL" unfolding st by (simp add: state_simps)
  have "mqueue_ok (ip_messages (st_ports ?st q)) \<and>
      (\<forall>k \<in> set (imq_messages (ip_messages (st_ports ?st q))). msgh_remote_port k = q \<and> ip_pset (st_ports ?st q) = IPS_NULL)" for q
    using ok mem mv(4) unfolding st by (cases "q = p") (simp_all add: state_simps queues_ok_def)
  moreover have "mqueue_ok (ips_messages (st_psets ?st x)) \<and>
      (\<forall>k \<in> set (imq_messages (ips_messages (st_psets ?st x))). ip_pset (st_ports ?st (msgh_remote_port k)) = x)"
    if x: "x \<noteq> IPS_NULL" for x
  proof (cases "x = ps")
    case True
    with src set_ok(2) mv(1) show ?thesis unfolding st by (simp add: state_simps)
  next
    case False
    have "mqueue_ok (ips_messages (st_psets st x)) \<and>
        (\<forall>k \<in> set (imq_messages (ips_messages (st_psets st x))). ip_pset (st_ports st (msgh_remote_port k)) = x)"
      using ok x by (simp add: queues_ok_def)
    with False p show ?thesis unfolding st by (auto simp: state_simps)
  qed
  ultimately have "queues_ok ?st" by (simp add: queues_ok_def)
  moreover have "queued ?st q = (if q = p then imq_messages dest else filter (\<lambda>k. msgh_remote_port k = q)
      (imq_messages (if ip_pset (st_ports st q) = ps then source else port_queue st q)))" for q
    unfolding st using ps mem by (auto simp: queued_def port_queue_def state_simps)
  then have "taken_messages es @ queued ?st p = queued st p" "\<And>q. q \<noteq> p \<Longrightarrow> queued ?st q = queued st q"
    using msgs mv(1) p ps by (auto simp: queued_def port_queue_def intro: filter_cong)
  ultimately show "requeued p st ?st"
    unfolding requeued_def by (intro conjI exI [of _ es]) (auto simp: st state_simps)
qed

lemma pset_move_requeued:
  assumes "queues_ok st" and "ipc_pset_move cfg st p nset = (kr, st')"
  shows "requeued p st st' \<and> ip_pset (st_ports st' p) = nset"
proof -
  let ?oset = "ip_pset (st_ports st p)"
  have free [simp]: "st_ports (ips_check_unlock s ps) = st_ports s" for s ps
    by (simp add: ips_check_unlock_def state_simps)
  consider (same) "?oset = nset" | (add) "?oset = IPS_NULL" "nset \<noteq> IPS_NULL" | (remove) "?oset \<noteq> IPS_NULL" "nset = IPS_NULL"
    | (move) "?oset \<noteq> IPS_NULL" "nset \<noteq> IPS_NULL" "?oset \<noteq> nset" by blast
  then show ?thesis
  proof cases
    case same
    then show ?thesis using assms by (auto simp: ipc_pset_move_def requeued_def Let_def intro: exI [of _ "[]"])
  next
    case add
    then show ?thesis using assms pset_add_queues [of st p nset cfg] by (auto simp: ipc_pset_move_def Let_def)
  next
    case remove
    let ?st = "ipc_pset_remove cfg st ?oset p"
    have r: "requeued p st ?st" "ip_pset (st_ports ?st p) = IPS_NULL"
      using pset_remove_queues [OF assms(1) refl remove(1)] by auto
    moreover have "st' = ?st \<or> st' = ips_check_unlock ?st ?oset"
      using assms(2) remove by (auto simp: ipc_pset_move_def Let_def split: if_splits)
    ultimately show ?thesis
      using requeued_check [of ?st p ?oset] requeued_trans [OF r(1)] remove(2) by (auto simp: requeued_def)
  next
    case move
    let ?st = "ipc_pset_remove cfg st ?oset p" and ?st2 = "ipc_pset_add cfg (ipc_pset_remove cfg st ?oset p) nset p"
    have r: "requeued p st ?st" "ip_pset (st_ports ?st p) = IPS_NULL"
      using pset_remove_queues [OF assms(1) refl move(1)] by auto
    then have a: "requeued p ?st ?st2" "ip_pset (st_ports ?st2 p) = nset"
      using pset_add_queues [of ?st p nset cfg] move(2) by (auto simp: requeued_def)
    have "st' = ips_check_unlock ?st2 ?oset" using assms(2) move by (simp add: ipc_pset_move_def Let_def)
    then show ?thesis
      using requeued_trans [OF requeued_trans [OF r(1) a(1)] requeued_check [of ?st2 p ?oset]] a by (simp add: requeued_def)
  qed
qed

text \<open>
  C24: Moving a port between port sets loses, duplicates and reorders no message: the
  messages that woken threads carry away, followed by those that wait in the new queue, are the
  messages that waited in the old one.  Messages of other ports stay where they are.
\<close>

theorem pset_move_keeps_messages:
  assumes "queues_ok st" and "ipc_pset_move cfg st p nset = (kr, st')"
  shows "queues_ok st' \<and> ip_pset (st_ports st' p) = nset \<and>
    (\<exists>es. st_events st' = st_events st @ es \<and> taken_messages es @ queued st' p = queued st p) \<and>
    (\<forall>q. q \<noteq> p \<longrightarrow> queued st' q = queued st q)"
  using pset_move_requeued [OF assms] by (simp add: requeued_def)

text \<open>Two messages for port 8 wait in the set 64, where port 16 has one, too.\<close>

definition example_kmsg :: "ipc_port_t \<Rightarrow> 32 word \<Rightarrow> ipc_kmsg" where
  "example_kmsg p n = \<lparr>msgh_bits = 0, msgh_size = n, msgh_remote_port = p, msgh_local_port = IO_NULL, msgh_body = [],
     ikm_marequest = 0, msgh_reserved = 0, msgh_id = 0, msgh_data = No_data, ikm_sender = (0, 0)\<rparr>"

definition pset_state :: ipc_state where
  "pset_state = example_state\<lparr>st_ports := (\<lambda>_. blank_port)(8 := live_port\<lparr>ip_pset := 64\<rparr>, 16 := live_port\<lparr>ip_pset := 64\<rparr>),
     st_psets := (\<lambda>_. blank_pset)(64 := blank_pset\<lparr>ips_messages :=
       \<lparr>imq_messages = [example_kmsg 8 24, example_kmsg 16 24, example_kmsg 8 32], imq_threads = []\<rparr>\<rparr>)\<rparr>"

theorem pset_move_keeps_messages_witness:
  "taken_messages (st_events (snd (ipc_pset_move example_config pset_state 8 72))) @
     queued (snd (ipc_pset_move example_config pset_state 8 72)) 8 = [example_kmsg 8 24, example_kmsg 8 32]"
proof -
  let ?r = "ipc_pset_move example_config pset_state 8 72"
  have "queues_ok pset_state"
    by (auto simp: queues_ok_def mqueue_ok_def pset_state_def blank_port_def live_port_def blank_pset_def no_messages_def example_kmsg_def)
  from pset_move_keeps_messages [OF this, of example_config 8 72 "fst ?r" "snd ?r"]
  obtain es where es: "st_events (snd ?r) = st_events pset_state @ es" "taken_messages es @ queued (snd ?r) 8 = queued pset_state 8"
    by auto
  moreover have "queued pset_state 8 = [example_kmsg 8 24, example_kmsg 8 32]" "st_events pset_state = []"
    by (simp_all add: queued_def port_queue_def pset_state_def example_kmsg_def example_state_def IO_NULL_def)
  ultimately show ?thesis by simp
qed

section \<open>Msg-accepted requests\<close>

text \<open>
  A msg-accepted request that is entered under a name of a space is found under that name,
  after a renaming under the new name only, and cancelling it leaves the table as it was
  for every name; each search of a bucket finds its request.
\<close>

theorem marequest_life:
  assumes "imar_ok m" and "a \<notin> imar_linked m" and "imar_space req = sid" and "imar_name req = old"
    and "imar_map m (sid, old) = None" and "imar_map m (sid, new) = None" and "new \<noteq> old"
  shows "\<exists>m1 m2. ipc_marequest_rename (imar_enter m a req) sid old new = Some m1 \<and> ipc_marequest_cancel m1 sid new = Some m2 \<and>
    imar_map (imar_enter m a req) = (imar_map m)((sid, old) \<mapsto> a) \<and>
    imar_map m1 = (imar_map m)((sid, new) \<mapsto> a) \<and> imar_map m2 = imar_map m \<and> imar_ok m2"
proof -
  let ?m = "imar_enter m a req"
  have e: "imar_ok ?m" "imar_map ?m = (imar_map m)((sid, old) \<mapsto> a)"
    using enter_spec [OF assms(1,2), of req] assms(3-5) by auto
  obtain m1 where m1: "ipc_marequest_rename ?m sid old new = Some m1" "imar_ok m1"
    "imar_map m1 = (imar_map ?m)((sid, old) := None, (sid, new) := Some a)"
    using rename_spec [OF e(1), of sid old a new] e(2) assms(6,7) by auto
  obtain m2 where m2: "ipc_marequest_cancel m1 sid new = Some m2" "imar_ok m2" "imar_map m2 = (imar_map m1)((sid, new) := None)"
    using cancel_spec [OF m1(2), of sid new a] m1(3) by auto
  have "imar_map m1 = (imar_map m)((sid, new) \<mapsto> a)" using m1(3) e(2) assms(5) by (auto simp: fun_eq_iff)
  moreover have "imar_map m2 = imar_map m" using m2(3) calculation assms(6) by (auto simp: fun_eq_iff)
  ultimately show ?thesis using m1(1) m2(1,2) e(2) by blast
qed

theorem marequest_life_witness:
  "\<exists>m1 m2. ipc_marequest_rename (imar_enter example_marequests 0x40 \<lparr>imar_space = 16, imar_name = 0x100, imar_soright = IO_NULL\<rparr>)
      16 0x100 0x200 = Some m1 \<and> ipc_marequest_cancel m1 16 0x200 = Some m2 \<and> imar_map m2 = imar_map example_marequests"
proof -
  have "imar_ok example_marequests" "imar_linked example_marequests = {}"
    by (auto simp: imar_ok_def imar_linked_def example_marequests_def less_Suc_eq)
  moreover have "imar_map example_marequests (16, 0x100) = None" "imar_map example_marequests (16, 0x200) = None" by code_simp+
  ultimately show ?thesis
    using marequest_life [where m = example_marequests and a = "0x40" and sid = 16 and old = "0x100" and new = "0x200"
      and req = "\<lparr>imar_space = 16, imar_name = 0x100, imar_soright = IO_NULL\<rparr>"] by auto
qed

end
