(* ===== verification/Ipc_Right.thy ===== *)
theory Ipc_Right
  imports Ipc_Port "HOL-Library.Monad_Syntax"
begin

text \<open>
  Capabilities, \<^verbatim>\<open>src/kernel/ipc/ipc_right.c\<close>: the operations on an entry of a space that do not
  destroy a port.  An entry is given by its name and by where it is; it is read from the
  state each time the code reads it.

  The result \<open>None\<close> stands for a run that stops: a panic, a failed assertion about the reverse
  hash tables or the table of msg-accepted requests, or a search of a hash table that
  does not end.  The laws show when there is a result.
\<close>

section \<open>Types and counts\<close>

definition MACH_PORT_TYPE_SEND_RECEIVE :: "32 word" where
  "MACH_PORT_TYPE_SEND_RECEIVE = MACH_PORT_TYPE_SEND OR MACH_PORT_TYPE_RECEIVE"
definition MACH_PORT_TYPE_SEND_RIGHTS :: "32 word" where
  "MACH_PORT_TYPE_SEND_RIGHTS = MACH_PORT_TYPE_SEND OR MACH_PORT_TYPE_SEND_ONCE"
definition MACH_PORT_TYPE_PORT_RIGHTS :: "32 word" where
  "MACH_PORT_TYPE_PORT_RIGHTS = MACH_PORT_TYPE_SEND_RIGHTS OR MACH_PORT_TYPE_RECEIVE"
definition MACH_PORT_TYPE_PORT_OR_DEAD :: "32 word" where
  "MACH_PORT_TYPE_PORT_OR_DEAD = MACH_PORT_TYPE_PORT_RIGHTS OR MACH_PORT_TYPE_DEAD_NAME"
definition MACH_PORT_TYPE_DNREQUEST :: "32 word" where "MACH_PORT_TYPE_DNREQUEST = 0x80000000"
definition MACH_PORT_TYPE_MAREQUEST :: "32 word" where "MACH_PORT_TYPE_MAREQUEST = 0x40000000"
definition MACH_PORT_TYPE_COMPAT :: "32 word" where "MACH_PORT_TYPE_COMPAT = 0x20000000"


definition MACH_PORT_UREFS_MAX :: "32 word" where "MACH_PORT_UREFS_MAX = push_bit 16 1 - 1"

text \<open>The counts are unsigned, the delta is signed: \<open>urefs + delta\<close> wraps around.\<close>

definition MACH_PORT_UREFS_OVERFLOW :: "32 word \<Rightarrow> 32 word \<Rightarrow> bool" where
  "MACH_PORT_UREFS_OVERFLOW urefs delta \<longleftrightarrow>
    sint delta > 0 \<and> (urefs + delta \<le> urefs \<or> urefs + delta > MACH_PORT_UREFS_MAX)"

definition MACH_PORT_UREFS_UNDERFLOW :: "32 word \<Rightarrow> 32 word \<Rightarrow> bool" where
  "MACH_PORT_UREFS_UNDERFLOW urefs delta \<longleftrightarrow> sint delta < 0 \<and> - delta > urefs"

definition has :: "ipc_entry_bits_t \<Rightarrow> 32 word \<Rightarrow> bool" where
  "has bits m \<longleftrightarrow> bits AND m \<noteq> 0"

section \<open>Reading and writing an entry\<close>

definition get_entry :: "ipc_state \<Rightarrow> space_id \<Rightarrow> entry_ref \<Rightarrow> ipc_entry" where
  "get_entry st sid r = the (entry_at (st_spaces st sid) r)"

definition upd_entry :: "ipc_state \<Rightarrow> space_id \<Rightarrow> entry_ref \<Rightarrow> (ipc_entry \<Rightarrow> ipc_entry) \<Rightarrow> ipc_state" where
  "upd_entry st sid r f = set_space st sid (set_entry (st_spaces st sid) r (f (get_entry st sid r)))"

definition upd_port :: "ipc_state \<Rightarrow> ipc_port_t \<Rightarrow> (ipc_port \<Rightarrow> ipc_port) \<Rightarrow> ipc_state" where
  "upd_port st p f = set_port st p (f (st_ports st p))"

text \<open>The operations on entries and hash tables, on the state.\<close>

definition set_world :: "ipc_state \<Rightarrow> space_id \<Rightarrow> ipc_hash_global \<times> ipc_space \<Rightarrow> ipc_state" where
  "set_world st sid w = (set_space st sid (snd w))\<lparr>st_hash := fst w\<rparr>"

definition hash_insert :: "ipc_state \<Rightarrow> space_id \<Rightarrow> ipc_object_t \<Rightarrow> mach_port_t \<Rightarrow> entry_ref \<Rightarrow> ipc_state option" where
  "hash_insert st sid obj name r =
    map_option (set_world st sid) (ipc_hash_insert (st_hash st) sid (st_spaces st sid) obj name r)"

definition hash_delete :: "ipc_state \<Rightarrow> space_id \<Rightarrow> ipc_object_t \<Rightarrow> mach_port_t \<Rightarrow> entry_ref \<Rightarrow> ipc_state option" where
  "hash_delete st sid obj name r =
    map_option (set_world st sid) (ipc_hash_delete (st_hash st) sid (st_spaces st sid) obj name r)"

definition entry_dealloc :: "ipc_config \<Rightarrow> ipc_state \<Rightarrow> space_id \<Rightarrow> mach_port_t \<Rightarrow> entry_ref \<Rightarrow> ipc_state option" where
  "entry_dealloc cfg st sid name r =
    map_option (set_world st sid)
      (ipc_entry_dealloc (ipc_table_entries cfg) (st_hash st) sid (st_spaces st sid) name r)"

text \<open>\<^verbatim>\<open>if (bits & IE_BITS_MAREQUEST) ipc_marequest_cancel(space, name);\<close>\<close>

definition cancel_marequest :: "ipc_state \<Rightarrow> ipc_entry_bits_t \<Rightarrow> space_id \<Rightarrow> mach_port_t \<Rightarrow> ipc_state option" where
  "cancel_marequest st bits sid name =
    (if has bits IE_BITS_MAREQUEST
     then map_option (\<lambda>m. st\<lparr>st_marequests := m\<rparr>) (ipc_marequest_cancel (st_marequests st) sid name)
     else Some st)"

definition is_release :: "ipc_state \<Rightarrow> space_id \<Rightarrow> ipc_state" where
  "is_release st sid =
    (let space = st_spaces st sid; refs = is_references space - 1;
         st1 = set_space st sid (space\<lparr>is_references := refs\<rparr>)
     in if refs = 0 then emit st1 [Free_space sid] else st1)"

definition ip_release :: "ipc_state \<Rightarrow> ipc_port_t \<Rightarrow> ipc_state" where
  "ip_release st p = upd_port st p (\<lambda>port. port\<lparr>ip_references := ip_references port - 1\<rparr>)"

definition ip_reference :: "ipc_state \<Rightarrow> ipc_port_t \<Rightarrow> ipc_state" where
  "ip_reference st p = upd_port st p (\<lambda>port. port\<lparr>ip_references := ip_references port + 1\<rparr>)"

text \<open>\<open>drop_send\<close> on the state: the notification is made when the locks are released.\<close>

definition port_drop_send :: "ipc_state \<Rightarrow> ipc_port_t \<Rightarrow> ipc_event list \<times> ipc_state" where
  "port_drop_send st p = (case drop_send (st_ports st p) of (port, es) \<Rightarrow> (es, set_port st p port))"

definition port_deleted :: "ipc_port_t \<Rightarrow> mach_port_t \<Rightarrow> ipc_event list" where
  "port_deleted dnrequest name = (if dnrequest \<noteq> IP_NULL then [Notify_port_deleted dnrequest name] else [])"

definition ipc_space_make_notify :: "ipc_state \<Rightarrow> space_id \<Rightarrow> (ipc_port_t \<times> ipc_state) option" where
  "ipc_space_make_notify st sid = ipc_port_copy_send st (is_notify (st_spaces st sid))"

section \<open>Finding entries\<close>

definition ipc_right_lookup_write ::
    "ipc_state \<Rightarrow> space_id \<Rightarrow> mach_port_t \<Rightarrow> (kern_return_t + entry_ref) \<times> ipc_state" where
  "ipc_right_lookup_write st sid name =
    (if \<not> is_active (st_spaces st sid) then (Inl KERN_INVALID_TASK, st)
     else
       case ipc_entry_lookup (st_spaces st sid) name of
         (None, space) \<Rightarrow> (Inl KERN_INVALID_NAME, set_space st sid space)
       | (Some r, space) \<Rightarrow> (Inr r, set_space st sid space))"

definition ipc_right_reverse ::
    "ipc_state \<Rightarrow> space_id \<Rightarrow> ipc_object_t \<Rightarrow> ((mach_port_t \<times> entry_ref) option \<times> ipc_state) option" where
  "ipc_right_reverse st sid p =
    (let port = st_ports st p
     in if \<not> ip_active port then Some (None, st)
        else if ip_receiver port = sid then
          let name = ip_receiver_name port
          in case ipc_entry_lookup (st_spaces st sid) name of
               (None, space) \<Rightarrow> None
             | (Some r, space) \<Rightarrow> Some (Some (name, r), set_space st sid space)
        else
          map_option (\<lambda>(found, g). (found, st\<lparr>st_hash := g\<rparr>))
            (ipc_hash_lookup (st_hash st) sid (st_spaces st sid) p))"

section \<open>Dead-name requests and dead ports\<close>

definition ipc_right_dncancel ::
    "ipc_state \<Rightarrow> space_id \<Rightarrow> ipc_port_t \<Rightarrow> mach_port_t \<Rightarrow> entry_ref \<Rightarrow> ipc_port_t \<times> ipc_state" where
  "ipc_right_dncancel st sid p name r =
    (let entry = get_entry st sid r;
         (dnrequest, port) = ipc_port_dncancel (st_ports st p) name (ie_request entry);
         st1 = upd_entry (set_port st p port) sid r (\<lambda>e. e\<lparr>ie_request := 0\<rparr>)
     in if has (ie_bits entry) IE_BITS_COMPAT then (IP_NULL, is_release st1 sid) else (dnrequest, st1))"

definition ipc_right_dncancel_macro ::
    "ipc_state \<Rightarrow> space_id \<Rightarrow> ipc_port_t \<Rightarrow> mach_port_t \<Rightarrow> entry_ref \<Rightarrow> ipc_port_t \<times> ipc_state" where
  "ipc_right_dncancel_macro st sid p name r =
    (if ie_request (get_entry st sid r) = 0 then (IP_NULL, st) else ipc_right_dncancel st sid p name r)"

definition ipc_right_check ::
    "ipc_config \<Rightarrow> ipc_state \<Rightarrow> space_id \<Rightarrow> ipc_port_t \<Rightarrow> mach_port_t \<Rightarrow> entry_ref \<Rightarrow> (bool \<times> ipc_state) option" where
  "ipc_right_check cfg st sid p name r =
    (if ip_active (st_ports st p) then Some (False, st)
     else do {
       let bits = ie_bits (get_entry st sid r);
       (bits, st) \<leftarrow>
         (if has bits MACH_PORT_TYPE_SEND then do {
            st \<leftarrow> cancel_marequest st bits sid name;
            st \<leftarrow> hash_delete st sid p name r;
            Some (bits AND NOT IE_BITS_MAREQUEST, st)
          } else Some (bits, st));
       let st = ipc_port_release st p;
       if has bits IE_BITS_COMPAT then do {
         let st = upd_entry st sid r (\<lambda>e. e\<lparr>ie_request := 0, ie_object := IO_NULL\<rparr>);
         st \<leftarrow> entry_dealloc cfg st sid name r;
         Some (True, st)
       } else do {
         let bits = (bits AND NOT IE_BITS_TYPE_MASK) OR MACH_PORT_TYPE_DEAD_NAME;
         let bits = (if ie_request (get_entry st sid r) \<noteq> 0 then bits + 1 else bits);
         Some (True, upd_entry st sid r (\<lambda>e. e\<lparr>ie_request := 0, ie_bits := bits, ie_object := IO_NULL\<rparr>))
       }
     })"

definition ipc_right_inuse ::
    "ipc_state \<Rightarrow> space_id \<Rightarrow> mach_port_t \<Rightarrow> entry_ref \<Rightarrow> (bool \<times> ipc_state) option" where
  "ipc_right_inuse st sid name r =
    (let entry = get_entry st sid r; bits = ie_bits entry; type = IE_BITS_TYPE bits; p = ie_object entry
     in if type \<noteq> MACH_PORT_TYPE_NONE then
          (if has bits IE_BITS_COMPAT \<and> (type = MACH_PORT_TYPE_SEND \<or> type = MACH_PORT_TYPE_SEND_ONCE) \<and>
              \<not> ip_active (st_ports st p)
           then do {
             st \<leftarrow>
               (if type = MACH_PORT_TYPE_SEND then do {
                  st \<leftarrow> cancel_marequest st bits sid name;
                  hash_delete st sid p name r
                } else Some st);
             let st = ipc_port_release st p;
             Some (False, upd_entry st sid r (\<lambda>e. e\<lparr>ie_request := 0, ie_object := IO_NULL,
               ie_bits := ie_bits e AND NOT IE_BITS_RIGHT_MASK\<rparr>))
           }
           else Some (True, st))
        else Some (False, st))"

text \<open>
  \<^verbatim>\<open>ipc_right_dnrequest\<close>.  Each round that finds the table of requests full lets go of the
  locks: an element of the schedule has the answer of the memory allocator and what happens
  in between.
\<close>

type_synonym dn_schedule = "((32 word \<times> ipc_port_request list) option \<times> (ipc_state \<Rightarrow> ipc_state)) list"

definition port_dngrow ::
    "ipc_config \<Rightarrow> ipc_state \<Rightarrow> ipc_port_t \<Rightarrow> (32 word \<times> ipc_port_request list) option \<Rightarrow> (ipc_state \<Rightarrow> ipc_state) \<Rightarrow>
     kern_return_t \<times> ipc_state" where
  "port_dngrow cfg st p alloc interim =
    (let run = (\<lambda>port. interim (set_port st p port)); port = st_ports st p;
         (kr, port') = ipc_port_dngrow (ipc_table_dnrequests cfg) None alloc (\<lambda>port. st_ports (run port) p) port
     in (kr, ip_check_unlock (set_port (run (port\<lparr>ip_references := ip_references port + 1\<rparr>)) p port') p))"

datatype dn_round =
    Dn_return "kern_return_t + ipc_port_t" ipc_state
  | Dn_grow ipc_port_t ipc_state

definition dead_dnrequest ::
    "ipc_state \<Rightarrow> space_id \<Rightarrow> mach_port_t \<Rightarrow> entry_ref \<Rightarrow> ipc_entry_bits_t \<Rightarrow> bool \<Rightarrow> ipc_port_t \<Rightarrow> dn_round" where
  "dead_dnrequest st sid name r bits immediate notify =
    (if has bits MACH_PORT_TYPE_DEAD_NAME \<and> immediate \<and> notify \<noteq> IP_NULL then
       (if MACH_PORT_UREFS_OVERFLOW (IE_BITS_UREFS bits) 1 then Dn_return (Inl KERN_UREFS_OVERFLOW) st
        else Dn_return (Inr IP_NULL)
               (emit (upd_entry st sid r (\<lambda>e. e\<lparr>ie_bits := bits + 1\<rparr>)) [Notify_dead_name notify name]))
     else Dn_return (Inl (if has bits MACH_PORT_TYPE_PORT_OR_DEAD then KERN_INVALID_ARGUMENT else KERN_INVALID_RIGHT)) st)"

definition live_dnrequest ::
    "ipc_state \<Rightarrow> space_id \<Rightarrow> ipc_port_t \<Rightarrow> mach_port_t \<Rightarrow> entry_ref \<Rightarrow> ipc_entry_bits_t \<Rightarrow> ipc_port_t \<Rightarrow> dn_round" where
  "live_dnrequest st sid p name r bits notify =
    (if notify = IP_NULL then
       (if has bits IE_BITS_COMPAT then Dn_return (Inr IP_NULL) st
        else case ipc_right_dncancel_macro st sid p name r of (previous, st) \<Rightarrow> Dn_return (Inr previous) st)
     else
       case ipc_right_dncancel_macro st sid p name r of
         (previous, st) \<Rightarrow>
           (case ipc_port_dnrequest (st_ports st p) name notify of
              Inl kr \<Rightarrow> Dn_grow p st
            | Inr (request, port) \<Rightarrow>
                Dn_return (Inr previous)
                  (upd_entry (set_port st p port) sid r
                    (\<lambda>e. e\<lparr>ie_request := request, ie_bits := bits AND NOT IE_BITS_COMPAT\<rparr>))))"

definition dnrequest_round ::
    "ipc_config \<Rightarrow> ipc_state \<Rightarrow> space_id \<Rightarrow> mach_port_t \<Rightarrow> bool \<Rightarrow> ipc_port_t \<Rightarrow> dn_round option" where
  "dnrequest_round cfg st sid name immediate notify =
    (case ipc_right_lookup_write st sid name of
       (Inl kr, st) \<Rightarrow> Some (Dn_return (Inl kr) st)
     | (Inr r, st) \<Rightarrow>
         let entry = get_entry st sid r; bits = ie_bits entry; p = ie_object entry
         in if has bits MACH_PORT_TYPE_PORT_RIGHTS then do {
              (dead, st) \<leftarrow> ipc_right_check cfg st sid p name r;
              Some (if \<not> dead then live_dnrequest st sid p name r bits notify
                    else if has bits IE_BITS_COMPAT then Dn_return (Inl KERN_INVALID_NAME) st
                    else dead_dnrequest st sid name r (ie_bits (get_entry st sid r)) immediate notify)
            } else Some (dead_dnrequest st sid name r bits immediate notify))"

fun ipc_right_dnrequest ::
    "ipc_config \<Rightarrow> dn_schedule \<Rightarrow> ipc_state \<Rightarrow> space_id \<Rightarrow> mach_port_t \<Rightarrow> bool \<Rightarrow> ipc_port_t \<Rightarrow>
     ((kern_return_t + ipc_port_t) \<times> ipc_state) option" where
  "ipc_right_dnrequest cfg sched st sid name immediate notify =
    (case dnrequest_round cfg st sid name immediate notify of
       None \<Rightarrow> None
     | Some (Dn_return ret st) \<Rightarrow> Some (ret, st)
     | Some (Dn_grow p st) \<Rightarrow>
         (case sched of
            [] \<Rightarrow> None
          | (alloc, interim) # sched \<Rightarrow>
              (case port_dngrow cfg st p alloc interim of
                 (kr, st) \<Rightarrow> if kr \<noteq> KERN_SUCCESS then Some (Inl kr, st)
                           else ipc_right_dnrequest cfg sched st sid name immediate notify)))"

section \<open>Asking about a right\<close>

definition ipc_right_info ::
    "ipc_config \<Rightarrow> ipc_state \<Rightarrow> space_id \<Rightarrow> mach_port_t \<Rightarrow> entry_ref \<Rightarrow>
     ((kern_return_t + 32 word \<times> 32 word) \<times> ipc_state) option" where
  "ipc_right_info cfg st sid name r =
    do {
      let bits = ie_bits (get_entry st sid r);
      (dead, st) \<leftarrow>
        (if has bits MACH_PORT_TYPE_SEND_RIGHTS
         then ipc_right_check cfg st sid (ie_object (get_entry st sid r)) name r else Some (False, st));
      if dead \<and> has bits IE_BITS_COMPAT then Some (Inl KERN_INVALID_NAME, st)
      else do {
        let bits = (if dead then ie_bits (get_entry st sid r) else bits);
        let type = IE_BITS_TYPE bits;
        let type = (if has bits IE_BITS_COMPAT then type OR MACH_PORT_TYPE_COMPAT
                    else if ie_request (get_entry st sid r) \<noteq> 0 then type OR MACH_PORT_TYPE_DNREQUEST else type);
        let type = (if has bits IE_BITS_MAREQUEST then type OR MACH_PORT_TYPE_MAREQUEST else type);
        Some (Inr (type, IE_BITS_UREFS bits), st)
      }
    }"

end
