(* ===== verification/Right_Cell.thy ===== *)
theory Right_Cell
  imports Ipc_Right Entry_Dealloc
begin

text \<open>
  The entry of a capability as a cell of its space: how the invariant of the space and the map
  of its capabilities change when one entry is read, taken out of the reverse hash tables,
  overwritten and put back.  The operations on rights are sequences of these steps.
\<close>

section \<open>The invariant while an entry is worked on\<close>

text \<open>The invariant without the condition that entries being worked on have no object.\<close>

definition core_ok :: "nat list \<Rightarrow> space_id \<Rightarrow> entry_ref set \<Rightarrow> ipc_hash_global \<Rightarrow> ipc_space \<Rightarrow> bool" where
  "core_ok its sid P g s \<longleftrightarrow>
    sizes_ok its s \<and> head_ok (is_table s) \<and> free_ok P (is_table s) \<and>
    ist_ok (is_tree s) \<and> is_tree_total s = length (ist_list (is_tree s)) \<and>
    tree_ok P (ist_list (is_tree s)) \<and> coll_ok P (is_table s) (ist_list (is_tree s)) \<and>
    is_tree_small s = small_count (is_table_size s) (its ! is_table_next s) (ist_list (is_tree s)) \<and>
    is_tree_hash s = card (tree_sends P (ist_list (is_tree s))) \<and>
    hash_ok sid P g (is_table s) (ist_list (is_tree s))"

lemma space_ok_core: "space_ok its sid P g s \<longleftrightarrow> core_ok its sid P g s \<and> pending_ok P s"
  by (auto simp: space_ok_def core_ok_def)

lemma space_ok_core_empty: "space_ok its sid {} g s \<longleftrightarrow> core_ok its sid {} g s"
  by (simp add: space_ok_core pending_ok_def)

lemma core_okD:
  assumes "core_ok its sid P g s"
  shows "sizes_ok its s" "head_ok (is_table s)" "free_ok P (is_table s)" "ist_ok (is_tree s)"
    "is_tree_total s = length (ist_list (is_tree s))" "tree_ok P (ist_list (is_tree s))"
    "coll_ok P (is_table s) (ist_list (is_tree s))"
    "is_tree_small s = small_count (is_table_size s) (its ! is_table_next s) (ist_list (is_tree s))"
    "is_tree_hash s = card (tree_sends P (ist_list (is_tree s)))"
    "hash_ok sid P g (is_table s) (ist_list (is_tree s))" "is_table_size s = length (is_table s)"
  using assms by (simp_all add: core_ok_def sizes_ok_def)

text \<open>\<open>r\<close> is where the entry of \<open>name\<close> is.\<close>

definition cell :: "ipc_space \<Rightarrow> mach_port_t \<Rightarrow> entry_ref \<Rightarrow> bool" where
  "cell s name r \<longleftrightarrow> detached s name r \<and>
    (case r of In_table i \<Rightarrow> 0 < i | In_tree n \<Rightarrow> n \<in> fst ` set (ist_list (is_tree s)))"

text \<open>The generation and the collision bit belong to the slot, the rest to the capability.\<close>

definition same_slot :: "ipc_entry \<Rightarrow> ipc_entry \<Rightarrow> bool" where
  "same_slot e e' \<longleftrightarrow> ie_bits e' AND NOT IE_BITS_RIGHT_MASK = ie_bits e AND NOT IE_BITS_RIGHT_MASK \<and>
    ie_index e' = ie_index e"

lemma slot_fields:
  assumes "bits' AND NOT IE_BITS_RIGHT_MASK = bits AND NOT IE_BITS_RIGHT_MASK"
  shows "IE_BITS_GEN bits' = IE_BITS_GEN bits" and "collides bits' = collides bits"
proof -
  have m: "b AND IE_BITS_GEN_MASK = (b AND NOT IE_BITS_RIGHT_MASK) AND IE_BITS_GEN_MASK"
    "b AND IE_BITS_COLLISION = (b AND NOT IE_BITS_RIGHT_MASK) AND IE_BITS_COLLISION" for b
    by (simp_all add: IE_BITS_masks and.assoc)
  show "IE_BITS_GEN bits' = IE_BITS_GEN bits" and "collides bits' = collides bits"
    using assms m [of bits] m [of bits'] by (simp_all add: IE_BITS_GEN_def collides_def)
qed

text \<open>An entry of neither a free slot nor a send right: the hash tables do not know it.\<close>

definition unhashed :: "ipc_entry \<Rightarrow> bool" where
  "unhashed e \<longleftrightarrow> IE_BITS_TYPE (ie_bits e) \<noteq> MACH_PORT_TYPE_NONE \<and> IE_BITS_TYPE (ie_bits e) \<noteq> MACH_PORT_TYPE_SEND"

section \<open>Changing one entry\<close>

text \<open>
  An entry of the table and the index fields of the local hash table change.  The new hash
  table has the send rights that are there then.
\<close>

lemma table_change:
  assumes ok: "core_ok its sid P g s" and i: "0 < i" "i < length (is_table s)"
    and P: "P \<subseteq> {In_table i}" "P' \<subseteq> {In_table i}" and len: "length t' = length (is_table s)"
    and rest: "\<And>k. k \<noteq> i \<Longrightarrow> ie_bits (t' ! k) = ie_bits (is_table s ! k) \<and>
      ie_object (t' ! k) = ie_object (is_table s ! k) \<and> ie_request (t' ! k) = ie_request (is_table s ! k)"
    and slot: "ie_bits (t' ! i) AND NOT IE_BITS_RIGHT_MASK = ie_bits (is_table s ! i) AND NOT IE_BITS_RIGHT_MASK"
    and before: "In_table i \<in> P \<or> type_of (is_table s) i \<noteq> MACH_PORT_TYPE_NONE"
    and after: "In_table i \<in> P' \<or> type_of t' i \<noteq> MACH_PORT_TYPE_NONE"
    and lh: "lh_ok t'" "entered t' = table_sends P' t'"
    and glob: "\<And>k. k \<in> table_sends P' t' \<Longrightarrow> gh_map g (sid, ie_object (t' ! k)) = None"
  shows "core_ok its sid P' g (s\<lparr>is_table := t'\<rparr>)"
proof -
  let ?t = "is_table s" and ?xs = "ist_list (is_tree s)"
  note ok' = core_okD [OF ok]
  have f: "gen_of t' k = gen_of ?t k" "collides (ie_bits (t' ! k)) = collides (ie_bits (?t ! k))" for k
    using slot_fields [OF slot] rest by (cases "k = i"; simp)+
  have tree: "tree_ok P' ?xs = tree_ok P ?xs" "tree_sends P' ?xs = tree_sends P ?xs"
    using P by (auto simp: tree_ok_def tree_sends_def)
  have notin: "i \<notin> free_slots P ?t" using before by (auto simp: free_slots_def)
  have free: "free_slots P' t' = free_slots P ?t"
  proof (rule set_eqI)
    fix k
    show "k \<in> free_slots P' t' \<longleftrightarrow> k \<in> free_slots P ?t"
      using P before after i len rest [of k] by (cases "k = i") (auto simp: free_slots_def)
  qed
  have "free_ok P' t'"
  proof -
    obtain fl where fl: "linked ?t 0 fl" "distinct fl" "set fl = free_slots P ?t" using free_okE [OF ok'(3)] .
    have "linked t' 0 fl \<longleftrightarrow> linked ?t 0 fl"
    proof (rule linked_cong)
      fix k
      assume "k = 0 \<or> k \<in> set fl"
      then have "k \<noteq> i" using fl(3) notin i(1) by auto
      then show "ie_next (t' ! k) = ie_next (?t ! k)" using rest by simp
    qed
    moreover have "ie_bits (t' ! k) = gen_of t' k \<and> ie_object (t' ! k) = IO_NULL" if "k \<in> free_slots P ?t" for k
      using that notin ok'(3) rest [of k] by (cases "k = i") (auto simp: free_ok_def)
    ultimately show ?thesis using fl unfolding free_ok_def free by blast
  qed
  moreover have "head_ok t'" using ok'(2) i len rest [of 0] by (auto simp: head_ok_def)
  moreover have "coll_ok P' t' ?xs" using ok'(7) f len unfolding coll_ok_def free by simp
  moreover have "hash_ok sid P' g t' ?xs" using ok'(10) lh glob unfolding hash_ok_def tree(2) by simp
  ultimately show ?thesis using ok tree len unfolding core_ok_def sizes_ok_def by simp
qed

lemma fst_list_store [simp]: "fst ` set (list_store name x xs) = fst ` set xs"
  using map_fst_list_store [of name x xs] by (metis set_map)

lemma indices_fst: "indices zs = MACH_PORT_INDEX ` fst ` set zs"
  by (auto simp: indices_def)

lemma coll_ok_names:
  "coll_ok P table xs \<longleftrightarrow>
    (\<forall>i < length table. collides (ie_bits (table ! i)) \<longleftrightarrow> i \<in> indices xs) \<and>
    (\<forall>i \<in> indices xs. i \<notin> free_slots P table) \<and>
    (\<forall>n \<in> fst ` set xs. 0 < MACH_PORT_INDEX n \<longrightarrow> MACH_PORT_INDEX n < length table \<longrightarrow>
      MACH_PORT_GEN n \<noteq> gen_of table (MACH_PORT_INDEX n))"
  by (simp add: coll_ok_def)

lemma set_list_store:
  "(n, e) \<in> set (list_store name x xs) \<longleftrightarrow> (if n = name then e = x \<and> name \<in> fst ` set xs else (n, e) \<in> set xs)"
  by (auto simp: list_store_def image_iff split: if_splits) force+

lemma tree_change:
  assumes ok: "core_ok its sid P g s" and e: "map_of (ist_list (is_tree s)) n = Some e"
    and P: "P \<subseteq> {In_tree n}" "P' \<subseteq> {In_tree n}" 
    and slot: "ie_bits e' AND NOT IE_BITS_RIGHT_MASK = ie_bits e AND NOT IE_BITS_RIGHT_MASK"
    and after: "In_tree n \<in> P' \<or> IE_BITS_TYPE (ie_bits e') \<noteq> MACH_PORT_TYPE_NONE"
    and gh: "gh_ok g'" "\<And>m obj. gh_map g' (sid, obj) = Some m \<longleftrightarrow> (m, obj) \<in> tree_sends P' (list_store n e' (ist_list (is_tree s)))"
    and loc: "\<And>k. k \<in> table_sends P (is_table s) \<Longrightarrow> gh_map g' (sid, ie_object (is_table s ! k)) = None"
    and hc: "hc = card (tree_sends P' (list_store n e' (ist_list (is_tree s))))"
    and tree: "ist_list tree = list_store n e' (ist_list (is_tree s))" "ist_ok tree"
  shows "core_ok its sid P' g' (s\<lparr>is_tree := tree, is_tree_hash := hc\<rparr>)"
proof -
  let ?xs = "ist_list (is_tree s)" and ?xs' = "list_store n e' (ist_list (is_tree s))" and ?t = "is_table s"
  note ok' = core_okD [OF ok]
  have n: "(n, e) \<in> set ?xs" using e by (rule map_of_SomeD)
  have free: "free_slots P' ?t = free_slots P ?t" and sends: "table_sends P' ?t = table_sends P ?t"
    using P by (auto simp: free_slots_def table_sends_def)
  have ind: "indices ?xs' = indices ?xs" by (simp add: indices_fst)
  have "tree_ok P' ?xs'"
  proof -
    have tr: "MACH_PORT_VALID m \<and> ie_bits b AND NOT IE_BITS_RIGHT_MASK = 0 \<and>
        (IE_BITS_TYPE (ie_bits b) = MACH_PORT_TYPE_NONE \<longrightarrow> In_tree m \<in> P)" if "(m, b) \<in> set ?xs" for m b
      using ok'(6) that by (auto simp: tree_ok_def)
    have "MACH_PORT_VALID m \<and> ie_bits b AND NOT IE_BITS_RIGHT_MASK = 0 \<and>
        (IE_BITS_TYPE (ie_bits b) = MACH_PORT_TYPE_NONE \<longrightarrow> In_tree m \<in> P')" if "(m, b) \<in> set ?xs'" for m b
    proof (cases "m = n")
      case True
      with that tr [OF n] slot after show ?thesis by (auto simp: set_list_store)
    next
      case False
      with that tr [of m b] P(1) show ?thesis by (auto simp: set_list_store)
    qed
    then show ?thesis by (auto simp: tree_ok_def)
  qed
  moreover have "coll_ok P' ?t ?xs'" using ok'(7) unfolding coll_ok_names free ind fst_list_store .
  moreover have "hash_ok sid P' g' ?t ?xs'" using ok'(10) gh loc unfolding hash_ok_def sends by simp
  moreover have "free_ok P' ?t" using ok'(3) unfolding free_ok_def free by simp
  moreover have "length ?xs' = length ?xs" by (simp add: list_store_def)
  ultimately show ?thesis
    using ok hc tree unfolding core_ok_def sizes_ok_def small_count_def by (simp add: ind)
qed

text \<open>The send rights of the tree after an entry changed.\<close>

definition other_sends :: "mach_port_t \<Rightarrow> entry_ref set \<Rightarrow> (mach_port_t \<times> ipc_entry) list \<Rightarrow> (mach_port_t \<times> ipc_object_t) set" where
  "other_sends n P xs = {x \<in> tree_sends P xs. fst x \<noteq> n}"

lemma card_other_sends: "card (insert (n, obj) (other_sends n P xs)) - 1 = card (other_sends n P xs)"
  by (simp add: other_sends_def)

lemma tree_sends_store:
  assumes "ist_ok tree" and "map_of (ist_list tree) n = Some e" and "P \<subseteq> {In_tree n}" and "P' \<subseteq> {In_tree n}"
  shows "tree_sends P' (list_store n e' (ist_list tree)) =
      (if In_tree n \<notin> P' \<and> IE_BITS_TYPE (ie_bits e') = MACH_PORT_TYPE_SEND then insert (n, ie_object e') (other_sends n P (ist_list tree))
       else other_sends n P (ist_list tree))"
    and "tree_sends P (ist_list tree) =
      (if In_tree n \<notin> P \<and> IE_BITS_TYPE (ie_bits e) = MACH_PORT_TYPE_SEND then insert (n, ie_object e) (other_sends n P (ist_list tree))
       else other_sends n P (ist_list tree))"
proof -
  let ?xs = "ist_list tree"
  have n: "n \<in> fst ` set ?xs" using map_of_SomeD [OF assms(2)] by force
  have at: "(n, x) \<in> set ?xs \<longleftrightarrow> x = e" for x
    using assms(2) ascending_distinct [OF ist_ok_ascending [OF assms(1)]]
    by (metis map_of_eq_Some_iff option.inject)
  have "In_tree m \<notin> P" "In_tree m \<notin> P'" if "m \<noteq> n" for m using that assms(3,4) by auto
  then have mem: "(m, obj) \<in> tree_sends P' (list_store n e' ?xs) \<longleftrightarrow>
      (if m = n then In_tree n \<notin> P' \<and> IE_BITS_TYPE (ie_bits e') = MACH_PORT_TYPE_SEND \<and> obj = ie_object e'
       else (m, obj) \<in> tree_sends P ?xs)" for m obj
    using n by (auto simp: tree_sends_def set_list_store)
  show "tree_sends P' (list_store n e' ?xs) =
      (if In_tree n \<notin> P' \<and> IE_BITS_TYPE (ie_bits e') = MACH_PORT_TYPE_SEND then insert (n, ie_object e') (other_sends n P (ist_list tree))
       else other_sends n P (ist_list tree))"
    by (intro set_eqI, clarify) (simp add: mem other_sends_def)
  have "(n, obj) \<in> tree_sends P ?xs \<longleftrightarrow> In_tree n \<notin> P \<and> IE_BITS_TYPE (ie_bits e) = MACH_PORT_TYPE_SEND \<and> obj = ie_object e" for obj
    by (auto simp: tree_sends_def at)
  then have "(m, obj) \<in> tree_sends P ?xs \<longleftrightarrow> (m, obj) \<in> other_sends n P ?xs \<or>
      m = n \<and> In_tree n \<notin> P \<and> IE_BITS_TYPE (ie_bits e) = MACH_PORT_TYPE_SEND \<and> obj = ie_object e" for m obj
    by (auto simp: other_sends_def)
  then show "tree_sends P ?xs =
      (if In_tree n \<notin> P \<and> IE_BITS_TYPE (ie_bits e) = MACH_PORT_TYPE_SEND then insert (n, ie_object e) (other_sends n P (ist_list tree))
       else other_sends n P (ist_list tree))"
    by (intro set_eqI, clarify) auto
qed

section \<open>Overwriting an entry that is not hashed\<close>

lemma cell_update:
  assumes ok: "core_ok its sid P g s" and c: "cell s name r" and e: "entry_at s r = Some e" and slot: "same_slot e e'"
    and P: "P \<subseteq> {r}" "P' \<subseteq> {r}" and before: "r \<in> P \<or> unhashed e" and after: "r \<in> P' \<or> unhashed e'"
  shows "core_ok its sid P' g (set_entry s r e')"
proof (cases r)
  case (In_table i)
  let ?t = "is_table s"
  note ok' = core_okD [OF ok]
  have i: "0 < i" "i < length ?t" "e = ?t ! i"
    using c e In_table ok'(11) by (auto simp: cell_def entry_at_def split: if_splits)
  have sends: "table_sends P' (?t[i := e']) = table_sends P ?t" and notin: "i \<notin> table_sends P ?t"
    using P before after i In_table by (auto simp: table_sends_def unhashed_def nth_list_update)
  have obj: "ie_object (?t[i := e'] ! k) = ie_object (?t ! k)" if "k \<in> table_sends P ?t" for k
    using that notin by (cases "k = i") auto
  have ix: "\<forall>k. ie_index (?t[i := e'] ! k) = ie_index (?t ! k)"
    using slot i by (auto simp: same_slot_def nth_list_update)
  have lh: "lh_ok (?t[i := e'])" "entered (?t[i := e']) = table_sends P ?t"
    using lh_ok_objects [of ?t "?t[i := e']"] ok'(10) ix obj by (auto simp: hash_ok_def)
  have "core_ok its sid P' g (s\<lparr>is_table := ?t[i := e']\<rparr>)"
    using P In_table i slot before after lh sends obj ok'(10)
    by (intro table_change [OF ok i(1,2)]) (auto simp: same_slot_def unhashed_def hash_ok_def)
  then show ?thesis using In_table by (simp add: set_entry_def)
next
  case (In_tree n)
  have e': "map_of (ist_list (is_tree s)) n = Some e" using e In_tree by (simp add: entry_at_def)
  note ok' = core_okD [OF ok] and ts = tree_sends_store [OF core_okD(4) [OF ok] e' P [unfolded In_tree]]
  have same: "tree_sends P' (list_store n e' (ist_list (is_tree s))) = tree_sends P (ist_list (is_tree s))"
  proof -
    have "tree_sends P (ist_list (is_tree s)) = other_sends n P (ist_list (is_tree s))"
      using before In_tree by (subst ts(2)) (auto simp: unhashed_def)
    with after In_tree show ?thesis by (auto simp: ts(1) unhashed_def)
  qed
  have "core_ok its sid P' g (s\<lparr>is_tree := ist_store (is_tree s) n e', is_tree_hash := is_tree_hash s\<rparr>)"
    using P In_tree slot after ok'(4,9,10) same
    by (intro tree_change [OF ok e']) (auto simp: same_slot_def unhashed_def hash_ok_def ist_store_list ist_store_ok)
  then show ?thesis using In_tree by (simp add: set_entry_def)
qed

section \<open>The reverse hash tables\<close>

lemma list_store_same:
  assumes "ist_ok tree" and "map_of (ist_list tree) n = Some e"
  shows "list_store n e (ist_list tree) = ist_list tree"
proof -
  have "x = e" if "(n, x) \<in> set (ist_list tree)" for x
    using that assms(2) ascending_distinct [OF ist_ok_ascending [OF assms(1)]]
    by (metis map_of_eq_Some_iff option.inject)
  then show ?thesis unfolding list_store_def by (intro map_idI) auto
qed

text \<open>No entry of the space is a send right for the object.\<close>

definition unsent :: "entry_ref set \<Rightarrow> space_id \<Rightarrow> ipc_hash_global \<Rightarrow> ipc_space \<Rightarrow> ipc_object_t \<Rightarrow> bool" where
  "unsent P sid g s obj \<longleftrightarrow>
    gh_map g (sid, obj) = None \<and> (\<forall>i \<in> table_sends P (is_table s). ie_object (is_table s ! i) \<noteq> obj)"

text \<open>The fields of a space that no operation on its entries changes.\<close>

definition frame :: "ipc_space \<Rightarrow> ipc_space \<Rightarrow> bool" where
  "frame s s' \<longleftrightarrow> is_references s' = is_references s \<and> is_active s' = is_active s \<and> is_growing s' = is_growing s \<and>
    is_table_size s' = is_table_size s \<and> is_table_next s' = is_table_next s \<and> is_notify s' = is_notify s"

lemma same_fields_update:
  assumes "same_fields t t'"
  shows "t' ! k = (t ! k)\<lparr>ie_index := ie_index (t' ! k)\<rparr>"
  using assms by (simp add: same_fields_def)

lemma core_local_ok: "core_ok its sid P g s \<Longrightarrow> local_ok s \<and> entered (is_table s) = table_sends P (is_table s)"
  by (simp add: core_ok_def sizes_ok_def hash_ok_def local_ok_def)

lemma cell_unhash:
  assumes ok: "core_ok its sid {} g s" and c: "cell s name r" and e: "entry_at s r = Some e"
    and t: "IE_BITS_TYPE (ie_bits e) = MACH_PORT_TYPE_SEND"
  shows "\<exists>g' s' ix. ipc_hash_delete g sid s (ie_object e) name r = Some (g', s') \<and> core_ok its sid {r} g' s' \<and>
    cell s' name r \<and> entry_at s' r = Some (e\<lparr>ie_index := ix\<rparr>) \<and> frame s s' \<and> caps {r} s' = caps {} s \<and>
    unsent {r} sid g' s' (ie_object e)"
proof (cases r)
  case (In_table i)
  let ?t = "is_table s"
  note ok' = core_okD [OF ok]
  have i: "0 < i" "i < length ?t" "e = ?t ! i" "MACH_PORT_INDEX name = i" "MACH_PORT_GEN name = gen_of ?t i"
    using c e In_table ok'(11) by (auto simp: cell_def detached_def entry_at_def split: if_splits)
  have "i \<in> table_sends {} ?t" using i t by (simp add: table_sends_def)
  then have "local_map s (ie_object e) = Some i"
    using local_map_Some [of s "ie_object e" i] core_local_ok [OF ok] i(3) by simp
  then obtain t' where t': "ipc_hash_local_delete s (ie_object e) i = Some (s\<lparr>is_table := t'\<rparr>)"
    "same_fields ?t t'" "entered t' = entered ?t - {i}" "local_ok (s\<lparr>is_table := t'\<rparr>)"
    using ipc_hash_local_delete_spec core_local_ok [OF ok] by blast
  note f = same_fields_lookup [OF t'(2)]
  have sends: "table_sends {In_table i} t' = table_sends {} ?t - {i}"
    using f by (auto simp: table_sends_def)
  have used: "in_use {In_table i} (s\<lparr>is_table := t'\<rparr>) k = in_use {} s k" for k
    using f t i(1,2,3) sends_not_none by (auto simp: in_use_def free_slots_def)
  have "core_ok its sid {In_table i} g (s\<lparr>is_table := t'\<rparr>)"
    using f t i t'(3,4) core_local_ok [OF ok] sends ok'(10) sends_not_none
    by (intro table_change [OF ok i(1,2)]) (auto simp: local_ok_def hash_ok_def)
  moreover have "caps {In_table i} (s\<lparr>is_table := t'\<rparr>) = caps {} s"
    by (rule ext, rule caps_eqI) (simp_all add: used f capability_def)
  moreover have "ipc_hash_delete g sid s (ie_object e) name r = Some (g, s\<lparr>is_table := t'\<rparr>)"
    using t'(1) i In_table ok'(11) by (simp add: ipc_hash_delete_def)
  moreover have "entry_at (s\<lparr>is_table := t'\<rparr>) r = Some (e\<lparr>ie_index := ie_index (t' ! i)\<rparr>)"
    using In_table i ok'(11) same_fields_update [OF t'(2), of i] by (simp add: entry_at_def)
  moreover have "cell (s\<lparr>is_table := t'\<rparr>) name r" using c In_table f by (simp add: cell_def detached_def)
  moreover have "unsent {r} sid g (s\<lparr>is_table := t'\<rparr>) (ie_object e)"
  proof -
    have "ie_object (?t ! k) \<noteq> ie_object e" if "k \<in> table_sends {} ?t" "k \<noteq> i" for k
      using that entered_inj [of ?t k i] core_local_ok [OF ok] \<open>i \<in> table_sends {} ?t\<close> i(3) by (auto simp: local_ok_def)
    moreover have "gh_map g (sid, ie_object e) = None" using ok'(10) \<open>i \<in> table_sends {} ?t\<close> i(3) by (auto simp: hash_ok_def)
    ultimately show ?thesis using sends f In_table by (auto simp: unsent_def)
  qed
  ultimately show ?thesis using In_table by (intro exI conjI) (auto simp: frame_def)
next
  case (In_tree n)
  let ?xs = "ist_list (is_tree s)"
  note ok' = core_okD [OF ok]
  have n: "n = name" and e': "map_of ?xs n = Some e" using c e In_tree by (auto simp: cell_def detached_def entry_at_def)
  let ?g = "fst (ipc_hash_global_delete g sid s (ie_object e) name)" and ?s = "s\<lparr>is_tree_hash := is_tree_hash s - 1\<rparr>"
  have store: "list_store n e ?xs = ?xs" by (rule list_store_same [OF ok'(4) e'])
  have ts: "tree_sends {} ?xs = insert (n, ie_object e) (other_sends n {} ?xs)"
    "tree_sends {In_tree n} ?xs = other_sends n {} ?xs"
    using tree_sends_store(2) [OF ok'(4) e', of "{}" "{}"] tree_sends_store(1) [OF ok'(4) e', of "{}" "{In_tree n}" e] t
    by (simp_all add: store)
  have old: "gh_map g (sid, ie_object e) = Some name" using ok'(10) ts(1) n by (simp add: hash_ok_def)
  note del = global_delete_spec [OF _ old, of s]
  have gh: "gh_ok g" "\<And>m obj. gh_map g (sid, obj) = Some m \<longleftrightarrow> (m, obj) \<in> tree_sends {} ?xs"
    using ok'(10) by (simp_all add: hash_ok_def)
  have other: "(m, obj) \<in> other_sends n {} ?xs \<longleftrightarrow> gh_map g (sid, obj) = Some m \<and> obj \<noteq> ie_object e" for m obj
  proof -
    have "(m, obj) \<in> tree_sends {} ?xs \<longleftrightarrow> m = n \<and> obj = ie_object e \<or> (m, obj) \<in> other_sends n {} ?xs"
      by (subst ts(1)) auto
    moreover have "(m, obj) \<in> other_sends n {} ?xs \<Longrightarrow> m \<noteq> n" by (simp add: other_sends_def)
    ultimately show ?thesis using old n gh(2) [of obj m] by auto
  qed
  have hc: "is_tree_hash s - 1 = card (other_sends n {} ?xs)"
    using ok'(9) card_other_sends [of n "ie_object e" "{}" ?xs] ts(1) by metis
  have fin: "core_ok its sid {In_tree n} ?g (s\<lparr>is_tree := is_tree s, is_tree_hash := is_tree_hash s - 1\<rparr>)"
    using ok'(4,10) gh(1) del other hc ts(2)
    by (intro tree_change [OF ok e', where e' = e]) (auto simp: store hash_ok_def)
  have "unsent {r} sid ?g ?s (ie_object e)"
  proof -
    have "ie_object (is_table s ! k) \<noteq> ie_object e" if "k \<in> table_sends {} (is_table s)" for k
      using that ok'(10) old unfolding hash_ok_def by (metis option.distinct(1))
    then show ?thesis using del(2) gh(1) In_tree by (simp add: unsent_def table_sends_def)
  qed
  moreover have "ipc_hash_delete g sid s (ie_object e) name r = Some (?g, ?s)"
    using In_tree by (simp add: ipc_hash_delete_def ipc_hash_global_delete_def Let_def)
  moreover have "caps {r} ?s = caps {} s"
    using In_tree by (intro ext caps_eqI) (simp_all add: in_use_def free_slots_def)
  moreover have "cell ?s name r" "entry_at ?s r = Some (e\<lparr>ie_index := ie_index e\<rparr>)"
    using c e In_tree by (auto simp: cell_def detached_def entry_at_def)
  ultimately show ?thesis
    using fin In_tree by (intro exI [of _ ?g] exI [of _ ?s] exI [of _ "ie_index e"] conjI) (auto simp: frame_def)
qed

section \<open>The capability of an entry\<close>

text \<open>An entry that is in use, as a capability or for an operation under way.\<close>

definition alive :: "entry_ref set \<Rightarrow> entry_ref \<Rightarrow> ipc_entry \<Rightarrow> bool" where
  "alive P r e \<longleftrightarrow> r \<in> P \<or> IE_BITS_TYPE (ie_bits e) \<noteq> MACH_PORT_TYPE_NONE"

lemma cell_caps:
  assumes ok: "core_ok its sid P g s" and c: "cell s name r" and e: "entry_at s r = Some e" and slot: "same_slot e e'"
    and P: "P \<subseteq> {r}" "P' \<subseteq> {r}" and live: "alive P r e" "alive P' r e'"
  shows "caps P s name = Some (capability e)" and "caps P' (set_entry s r e') = (caps P s)(name \<mapsto> capability e')"
proof -
  note ok' = core_okD [OF ok] and f = slot_fields [OF slot [unfolded same_slot_def, THEN conjunct1]]
  show cap: "caps P s name = Some (capability e)"
  proof (cases r)
    case (In_table i)
    then show ?thesis
      using c e live(1) by (auto simp: cell_def detached_def entry_at_def caps_def in_use_def free_slots_def alive_def
          ok'(11) split: if_splits)
  next
    case (In_tree n)
    then have n: "n = name" "map_of (ist_list (is_tree s)) name = Some e" "name \<in> fst ` set (ist_list (is_tree s))"
      using c e by (auto simp: cell_def detached_def entry_at_def)
    then have "\<not> (in_use P s (MACH_PORT_INDEX name) \<and> gen_of (is_table s) (MACH_PORT_INDEX name) = MACH_PORT_GEN name)"
      using ok'(7) by (auto simp: coll_ok_names in_use_def)
    then show ?thesis using n(2) by (auto simp: caps_def Let_def)
  qed
  show "caps P' (set_entry s r e') = (caps P s)(name \<mapsto> capability e')"
  proof (cases r)
    case (In_table i)
    then have i: "0 < i" "i < length (is_table s)" "e = is_table s ! i" "MACH_PORT_INDEX name = i" "MACH_PORT_GEN name = gen_of (is_table s) i"
      using c e ok'(11) by (auto simp: cell_def detached_def entry_at_def split: if_splits)
    have used: "in_use P' (s\<lparr>is_table := (is_table s)[i := e']\<rparr>) k = in_use P s k" for k
      using In_table P live i by (cases "k = i") (auto simp: in_use_def free_slots_def alive_def)
    have "caps P' (s\<lparr>is_table := (is_table s)[i := e']\<rparr>) m = ((caps P s)(name \<mapsto> capability e')) m" for m
    proof (cases "MACH_PORT_INDEX m = i")
      case True
      have "m = name \<longleftrightarrow> MACH_PORT_GEN m = gen_of (is_table s) i" using True i(4,5) name_eqI by metis
      then show ?thesis
        using True i f In_table live(1) P unfolding caps_def used
        by (auto simp: Let_def in_use_def free_slots_def alive_def)
    next
      case False
      then show ?thesis using i(4) unfolding caps_def used by (auto simp: Let_def)
    qed
    then show ?thesis using In_table by (simp add: set_entry_def fun_eq_iff)
  next
    case (In_tree n)
    then have n: "n = name" "map_of (ist_list (is_tree s)) name = Some e" "name \<in> fst ` set (ist_list (is_tree s))"
      using c e by (auto simp: cell_def detached_def entry_at_def)
    have used: "in_use P' (s\<lparr>is_tree := ist_store (is_tree s) n e'\<rparr>) k = in_use P s k" for k
      using In_tree P by (auto simp: in_use_def free_slots_def)
    have "\<not> (in_use P s (MACH_PORT_INDEX name) \<and> gen_of (is_table s) (MACH_PORT_INDEX name) = MACH_PORT_GEN name)"
      using ok'(7) n(3) by (auto simp: coll_ok_names in_use_def)
    then have "caps P' (s\<lparr>is_tree := ist_store (is_tree s) n e'\<rparr>) m = ((caps P s)(name \<mapsto> capability e')) m" for m
      using n unfolding caps_def used by (auto simp: Let_def ist_store_list map_of_list_store)
    then show ?thesis using In_tree by (simp add: set_entry_def fun_eq_iff)
  qed
qed

lemma cell_set_entry:
  assumes "cell s name r" and "entry_at s r = Some e" and "same_slot e e'" and "is_table_size s = length (is_table s)"
  shows "cell (set_entry s r e') name r" and "entry_at (set_entry s r e') r = Some e'" and "frame s (set_entry s r e')"
  using assms slot_fields [OF assms(3) [unfolded same_slot_def, THEN conjunct1]]
  by (cases r; auto simp: cell_def detached_def entry_at_def set_entry_def frame_def ist_store_list map_of_list_store
      split: if_splits)+

lemma caps_same_fields:
  assumes "same_fields (is_table s) t'"
  shows "caps P (s\<lparr>is_table := t'\<rparr>) = caps P s"
  using same_fields_lookup [OF assms]
  by (intro ext caps_eqI) (auto simp: in_use_def free_slots_def capability_def)

lemma caps_tree_hash [simp]: "caps P (s\<lparr>is_tree_hash := h\<rparr>) = caps P s"
  by (intro ext caps_eqI) (auto simp: in_use_def)

text \<open>Putting a send right into the hash tables; then the entry becomes one.\<close>

lemma cell_hash:
  assumes ok: "core_ok its sid {r} g s" and c: "cell s name r" and e: "entry_at s r = Some e"
    and new: "unsent {r} sid g s (ie_object e)"
  shows "\<exists>g' s' ix. ipc_hash_insert g sid s (ie_object e) name r = Some (g', s') \<and> cell s' name r \<and>
    entry_at s' r = Some (e\<lparr>ie_index := ix\<rparr>) \<and> frame s s' \<and> is_table_size s' = length (is_table s') \<and>
    (\<forall>e'. same_slot (e\<lparr>ie_index := ix\<rparr>) e' \<and> IE_BITS_TYPE (ie_bits e') = MACH_PORT_TYPE_SEND \<and> ie_object e' = ie_object e \<longrightarrow>
      core_ok its sid {} g' (set_entry s' r e') \<and> caps {} (set_entry s' r e') = (caps {r} s)(name \<mapsto> capability e'))"
proof (cases r)
  case (In_table i)
  let ?t = "is_table s"
  note ok' = core_okD [OF ok]
  have i: "0 < i" "i < length ?t" "e = ?t ! i" "MACH_PORT_INDEX name = i"
    using c e In_table ok'(11) by (auto simp: cell_def detached_def entry_at_def split: if_splits)
  have lok: "local_ok s" "entered ?t = table_sends {r} ?t" using core_local_ok [OF ok] by simp_all
  have "local_map s (ie_object e) = None"
    using local_map_Some [OF lok(1), of "ie_object e"] new lok(2)
    by (cases "local_map s (ie_object e)") (auto simp: unsent_def)
  then obtain t' where t': "ipc_hash_local_insert s (ie_object e) i = Some (s\<lparr>is_table := t'\<rparr>)"
    "same_fields ?t t'" "entered t' = insert i (entered ?t)" "local_ok (s\<lparr>is_table := t'\<rparr>)"
    using ipc_hash_local_insert_spec [OF lok(1), of "ie_object e" i] i by (auto simp: local_fits_def)
  note f = same_fields_lookup [OF t'(2)]
  have at: "t' ! i = e\<lparr>ie_index := ie_index (t' ! i)\<rparr>" using same_fields_update [OF t'(2), of i] i(3) by simp
  have fin: "core_ok its sid {} g (s\<lparr>is_table := t'[i := e']\<rparr>)"
    if e': "same_slot (t' ! i) e'" "IE_BITS_TYPE (ie_bits e') = MACH_PORT_TYPE_SEND" "ie_object e' = ie_object e" for e'
  proof (rule table_change [OF ok i(1,2)])
    have ix: "\<forall>k. ie_index (t'[i := e'] ! k) = ie_index (t' ! k)" "\<forall>k \<in> entered t'. ie_object (t'[i := e'] ! k) = ie_object (t' ! k)"
      using e' f(2) [of i] f(4) i(2,3) by (auto simp: same_slot_def nth_list_update)
    have lh: "lh_ok (t'[i := e'])" "entered (t'[i := e']) = insert i (table_sends {r} ?t)"
      using lh_ok_objects [of t' "t'[i := e']"] t'(3,4) ix lok(2) by (auto simp: local_ok_def)
    have sends: "table_sends {} (t'[i := e']) = insert i (table_sends {r} ?t)"
      using e'(2) f i(1,2) In_table by (auto simp: table_sends_def nth_list_update)
    show "lh_ok (t'[i := e'])" "entered (t'[i := e']) = table_sends {} (t'[i := e'])" using lh sends by simp_all
    show "gh_map g (sid, ie_object (t'[i := e'] ! k)) = None" if "k \<in> table_sends {} (t'[i := e'])" for k
      using that sends e'(3) f i(2) new ok'(10) by (cases "k = i") (auto simp: unsent_def hash_ok_def)
    show "In_table i \<in> {} \<or> type_of (t'[i := e']) i \<noteq> MACH_PORT_TYPE_NONE" using e'(2) f(4) i(2) sends_not_none by simp
  qed (use In_table f i e' at in \<open>auto simp: same_slot_def\<close>)
  have ins: "ipc_hash_insert g sid s (ie_object e) name r = Some (g, s\<lparr>is_table := t'\<rparr>)"
    using t'(1) i In_table ok'(11) by (simp add: ipc_hash_insert_def)
  have cap: "caps {} (s\<lparr>is_table := t'[i := e']\<rparr>) = (caps {r} s)(name \<mapsto> capability e')"
    if e': "same_slot (t' ! i) e'" "IE_BITS_TYPE (ie_bits e') = MACH_PORT_TYPE_SEND" for e'
  proof -
    let ?e = "e'\<lparr>ie_index := ie_index e\<rparr>"
    have "caps {} (set_entry s r ?e) = (caps {r} s)(name \<mapsto> capability ?e)"
      using e' f(1) [of i] i(3) sends_not_none
      by (intro cell_caps [OF ok c e]) (auto simp: same_slot_def alive_def)
    moreover have "caps {} ((set_entry s r ?e)\<lparr>is_table := t'[i := e']\<rparr>) = caps {} (set_entry s r ?e)"
      using f i(2) In_table by (intro caps_same_fields) (auto simp: set_entry_def same_fields_def nth_list_update)
    ultimately show ?thesis using In_table by (simp add: set_entry_def capability_def)
  qed
  have ins: "ipc_hash_insert g sid s (ie_object e) name r = Some (g, s\<lparr>is_table := t'\<rparr>)"
    using t'(1) i In_table ok'(11) by (simp add: ipc_hash_insert_def)
  have c': "cell (s\<lparr>is_table := t'\<rparr>) name r" using c In_table f by (simp add: cell_def detached_def)
  have at': "entry_at (s\<lparr>is_table := t'\<rparr>) r = Some (e\<lparr>ie_index := ie_index (t' ! i)\<rparr>)"
    using In_table i ok'(11) at by (simp add: entry_at_def)
  show ?thesis
    using ins c' at' fin cap In_table f(4) ok'(11) at
    by (intro exI [of _ g] exI [of _ "s\<lparr>is_table := t'\<rparr>"] exI [of _ "ie_index (t' ! i)"])
      (auto simp: frame_def set_entry_def)
next
  case (In_tree n)
  let ?xs = "ist_list (is_tree s)"
  note ok' = core_okD [OF ok]
  let ?g = "fst (ipc_hash_global_insert g sid s (ie_object e) name)" and ?s = "s\<lparr>is_tree_hash := is_tree_hash s + 1\<rparr>"
  have n: "n = name" and e': "map_of ?xs n = Some e" using c e In_tree by (auto simp: cell_def detached_def entry_at_def)
  have gh: "gh_ok g" "\<And>m obj. gh_map g (sid, obj) = Some m \<longleftrightarrow> (m, obj) \<in> tree_sends {r} ?xs"
    "gh_map g (sid, ie_object e) = None"
    using ok'(10) new by (auto simp: hash_ok_def unsent_def)
  note ins = global_insert_spec [OF gh(1,3), of s name]
  have fin: "core_ok its sid {} ?g (s\<lparr>is_tree := ist_store (is_tree s) n x, is_tree_hash := is_tree_hash s + 1\<rparr>)"
    if x: "same_slot e x" "IE_BITS_TYPE (ie_bits x) = MACH_PORT_TYPE_SEND" "ie_object x = ie_object e" for x
  proof (rule tree_change [OF ok e'])
    have rest: "tree_sends {r} ?xs = other_sends n {r} ?xs"
      using tree_sends_store(2) [OF ok'(4) e', of "{r}" "{}"] In_tree by simp
    have ts: "tree_sends {} (list_store n x ?xs) = insert (n, ie_object e) (tree_sends {r} ?xs)"
      using tree_sends_store(1) [OF ok'(4) e', of "{r}" "{}" x] x In_tree rest by simp
    show "gh_map ?g (sid, obj) = Some m \<longleftrightarrow> (m, obj) \<in> tree_sends {} (list_store n x ?xs)" for m obj
      using ins(2) gh(2) [of obj m] gh(2) [of "ie_object e" m] gh(3) n unfolding ts by auto
    have "(n, ie_object e) \<notin> tree_sends {r} ?xs" using In_tree by (simp add: tree_sends_def)
    then show "is_tree_hash s + 1 = card (tree_sends {} (list_store n x ?xs))" using ok'(9) unfolding ts by simp
    show "gh_map ?g (sid, ie_object (is_table s ! k)) = None" if "k \<in> table_sends {r} (is_table s)" for k
      using that new ok'(10) unfolding ins(2) by (auto simp: unsent_def hash_ok_def)
  qed (use In_tree x ins ok'(4) sends_not_none in \<open>auto simp: same_slot_def ist_store_list ist_store_ok\<close>)
  have cap: "caps {} (s\<lparr>is_tree := ist_store (is_tree s) n x, is_tree_hash := is_tree_hash s + 1\<rparr>) = (caps {r} s)(name \<mapsto> capability x)"
    if x: "same_slot e x" "IE_BITS_TYPE (ie_bits x) = MACH_PORT_TYPE_SEND" for x
  proof -
    have "caps {} (set_entry s r x) = (caps {r} s)(name \<mapsto> capability x)"
      using x sends_not_none by (intro cell_caps [OF ok c e]) (auto simp: alive_def)
    then show ?thesis using In_tree by (simp add: set_entry_def)
  qed
  have ins': "ipc_hash_insert g sid s (ie_object e) name r = Some (?g, ?s)"
    using In_tree by (simp add: ipc_hash_insert_def ipc_hash_global_insert_def Let_def)
  have c': "cell ?s name r" "entry_at ?s r = Some (e\<lparr>ie_index := ie_index e\<rparr>)"
    using c e In_tree by (auto simp: cell_def detached_def entry_at_def)
  have se: "set_entry ?s r x = s\<lparr>is_tree := ist_store (is_tree s) n x, is_tree_hash := is_tree_hash s + 1\<rparr>" for x
    using In_tree by (cases s) (simp add: set_entry_def)
  have "core_ok its sid {} ?g (set_entry ?s r x)" "caps {} (set_entry ?s r x) = (caps {r} s)(name \<mapsto> capability x)"
    if "same_slot e x" "IE_BITS_TYPE (ie_bits x) = MACH_PORT_TYPE_SEND" "ie_object x = ie_object e" for x
    unfolding se using that fin cap by blast+
  then show ?thesis
    using ins' c' ok'(11)
    by (intro exI [of _ ?g] exI [of _ ?s] exI [of _ "ie_index e"] conjI) (auto simp: frame_def)
qed

end
