(* ===== verification/Ipc_Right_Copy.thy ===== *)
theory Ipc_Right_Copy
  imports Ipc_Right
begin

text \<open>
  Moving capabilities, \<^verbatim>\<open>src/kernel/ipc/ipc_right.c\<close>: into a message (\<^verbatim>\<open>ipc_right_copyin\<close> and its
  variants), out of a message (\<^verbatim>\<open>ipc_right_copyout\<close>), from one name to another
  (\<^verbatim>\<open>ipc_right_rename\<close>), and giving back a user reference (\<^verbatim>\<open>ipc_right_dealloc\<close>).
\<close>

section \<open>Copying in\<close>

definition ipc_right_copyin_check ::
    "ipc_state \<Rightarrow> space_id \<Rightarrow> mach_port_t \<Rightarrow> entry_ref \<Rightarrow> mach_msg_type_name \<Rightarrow> bool" where
  "ipc_right_copyin_check st sid name r msgt =
    (let entry = get_entry st sid r; bits = ie_bits entry
     in if msgt \<in> {MACH_MSG_TYPE_MAKE_SEND, MACH_MSG_TYPE_MAKE_SEND_ONCE, MACH_MSG_TYPE_MOVE_RECEIVE}
        then has bits MACH_PORT_TYPE_RECEIVE
        else if has bits MACH_PORT_TYPE_DEAD_NAME then True
        else if \<not> has bits MACH_PORT_TYPE_SEND_RIGHTS then False
        else if \<not> ip_active (st_ports st (ie_object entry)) then \<not> has bits IE_BITS_COMPAT
        else if msgt = MACH_MSG_TYPE_MOVE_SEND_ONCE then has bits MACH_PORT_TYPE_SEND_ONCE
        else has bits MACH_PORT_TYPE_SEND)"

type_synonym copyin_result = "((kern_return_t + ipc_object_t \<times> ipc_port_t) \<times> ipc_state) option"

definition make_send :: "ipc_state \<Rightarrow> ipc_port_t \<Rightarrow> ipc_state" where
  "make_send st p = upd_port st p (\<lambda>port. port\<lparr>ip_mscount := ip_mscount port + 1,
     ip_srights := ip_srights port + 1, ip_references := ip_references port + 1\<rparr>)"

definition copyin_make_send :: "ipc_state \<Rightarrow> space_id \<Rightarrow> entry_ref \<Rightarrow> copyin_result" where
  "copyin_make_send st sid r =
    (let entry = get_entry st sid r; p = ie_object entry
     in if \<not> has (ie_bits entry) MACH_PORT_TYPE_RECEIVE then Some (Inl KERN_INVALID_RIGHT, st)
        else Some (Inr (p, IP_NULL), make_send st p))"

definition copyin_make_send_once :: "ipc_state \<Rightarrow> space_id \<Rightarrow> entry_ref \<Rightarrow> copyin_result" where
  "copyin_make_send_once st sid r =
    (let entry = get_entry st sid r; p = ie_object entry
     in if \<not> has (ie_bits entry) MACH_PORT_TYPE_RECEIVE then Some (Inl KERN_INVALID_RIGHT, st)
        else Some (Inr (p, IP_NULL), upd_port st p (\<lambda>port. port\<lparr>ip_sorights := ip_sorights port + 1,
               ip_references := ip_references port + 1\<rparr>)))"

text \<open>The port is put in limbo.\<close>

definition into_limbo :: "ipc_config \<Rightarrow> ipc_state \<Rightarrow> ipc_port_t \<Rightarrow> ipc_state" where
  "into_limbo cfg st p =
    upd_port (ipc_port_clear_receiver cfg st p) p (\<lambda>port. port\<lparr>ip_receiver_name := MACH_PORT_NULL, ip_receiver := IP_NULL\<rparr>)"

definition copyin_move_receive :: "ipc_config \<Rightarrow> ipc_state \<Rightarrow> space_id \<Rightarrow> mach_port_t \<Rightarrow> entry_ref \<Rightarrow> copyin_result" where
  "copyin_move_receive cfg st sid name r =
    (let entry = get_entry st sid r; bits = ie_bits entry; p = ie_object entry
     in if \<not> has bits MACH_PORT_TYPE_RECEIVE then Some (Inl KERN_INVALID_RIGHT, st)
        else do {
          (dnrequest, st) \<leftarrow>
            (if has bits MACH_PORT_TYPE_SEND then do {
               st \<leftarrow> hash_insert st sid p name r;
               Some (IP_NULL, ip_reference st p)
             } else do {
               let (dnrequest, st) = ipc_right_dncancel_macro st sid p name r;
               st \<leftarrow> cancel_marequest st bits sid name;
               Some (dnrequest, upd_entry st sid r (\<lambda>e. e\<lparr>ie_object := IO_NULL\<rparr>))
             });
          let st = upd_entry st sid r (\<lambda>e. e\<lparr>ie_bits := bits AND NOT MACH_PORT_TYPE_RECEIVE\<rparr>);
          Some (Inr (p, dnrequest), into_limbo cfg st p)
        })"

definition copy_dead :: "bool \<Rightarrow> ipc_state \<Rightarrow> copyin_result" where
  "copy_dead deadok st = (if \<not> deadok then Some (Inl KERN_INVALID_RIGHT, st) else Some (Inr (IO_DEAD, IP_NULL), st))"

definition move_dead :: "bool \<Rightarrow> ipc_state \<Rightarrow> space_id \<Rightarrow> entry_ref \<Rightarrow> ipc_entry_bits_t \<Rightarrow> copyin_result" where
  "move_dead deadok st sid r bits =
    (if \<not> deadok then Some (Inl KERN_INVALID_RIGHT, st)
     else Some (Inr (IO_DEAD, IP_NULL),
            upd_entry st sid r (\<lambda>e. e\<lparr>ie_bits := if IE_BITS_UREFS bits = 1 then bits AND NOT MACH_PORT_TYPE_DEAD_NAME
                                               else bits - 1\<rparr>)))"

definition copyin_copy_send ::
    "ipc_config \<Rightarrow> ipc_state \<Rightarrow> space_id \<Rightarrow> mach_port_t \<Rightarrow> entry_ref \<Rightarrow> bool \<Rightarrow> copyin_result" where
  "copyin_copy_send cfg st sid name r deadok =
    (let entry = get_entry st sid r; bits = ie_bits entry; p = ie_object entry
     in if has bits MACH_PORT_TYPE_DEAD_NAME then copy_dead deadok st
        else if \<not> has bits MACH_PORT_TYPE_SEND_RIGHTS then Some (Inl KERN_INVALID_RIGHT, st)
        else do {
          (dead, st) \<leftarrow> ipc_right_check cfg st sid p name r;
          if dead then
            (if has bits IE_BITS_COMPAT then Some (Inl KERN_INVALID_NAME, st) else copy_dead deadok st)
          else if \<not> has bits MACH_PORT_TYPE_SEND then Some (Inl KERN_INVALID_RIGHT, st)
          else Some (Inr (p, IP_NULL), upd_port st p (\<lambda>port. port\<lparr>ip_srights := ip_srights port + 1,
                 ip_references := ip_references port + 1\<rparr>))
        })"

text \<open>
  The last send right of an entry without receive right is taken out: what
  \<^verbatim>\<open>ipc_right_copyin\<close> and \<^verbatim>\<open>ipc_right_copyin_two\<close> do with the entry.
\<close>

definition take_last_send ::
    "ipc_state \<Rightarrow> space_id \<Rightarrow> ipc_port_t \<Rightarrow> mach_port_t \<Rightarrow> entry_ref \<Rightarrow> ipc_entry_bits_t \<Rightarrow> (ipc_port_t \<times> ipc_state) option" where
  "take_last_send st sid p name r bits =
    do {
      let (dnrequest, st) = ipc_right_dncancel_macro st sid p name r;
      st \<leftarrow> hash_delete st sid p name r;
      st \<leftarrow> cancel_marequest st bits sid name;
      Some (dnrequest, upd_entry st sid r (\<lambda>e. e\<lparr>ie_object := IO_NULL\<rparr>))
    }"

definition copyin_move_send ::
    "ipc_config \<Rightarrow> ipc_state \<Rightarrow> space_id \<Rightarrow> mach_port_t \<Rightarrow> entry_ref \<Rightarrow> bool \<Rightarrow> copyin_result" where
  "copyin_move_send cfg st sid name r deadok =
    (let entry = get_entry st sid r; bits = ie_bits entry; p = ie_object entry
     in if has bits MACH_PORT_TYPE_DEAD_NAME then move_dead deadok st sid r bits
        else if \<not> has bits MACH_PORT_TYPE_SEND_RIGHTS then Some (Inl KERN_INVALID_RIGHT, st)
        else do {
          (dead, st) \<leftarrow> ipc_right_check cfg st sid p name r;
          if dead then
            (if has bits IE_BITS_COMPAT then Some (Inl KERN_INVALID_NAME, st)
             else move_dead deadok st sid r (ie_bits (get_entry st sid r)))
          else if \<not> has bits MACH_PORT_TYPE_SEND then Some (Inl KERN_INVALID_RIGHT, st)
          else if IE_BITS_UREFS bits = 1 then do {
            (dnrequest, st) \<leftarrow>
              (if has bits MACH_PORT_TYPE_RECEIVE then Some (IP_NULL, ip_reference st p)
               else take_last_send st sid p name r bits);
            Some (Inr (p, dnrequest),
              upd_entry st sid r (\<lambda>e. e\<lparr>ie_bits := bits AND NOT (IE_BITS_UREFS_MASK OR MACH_PORT_TYPE_SEND)\<rparr>))
          } else
            Some (Inr (p, IP_NULL),
              upd_entry (upd_port st p (\<lambda>port. port\<lparr>ip_srights := ip_srights port + 1,
                ip_references := ip_references port + 1\<rparr>)) sid r (\<lambda>e. e\<lparr>ie_bits := bits - 1\<rparr>))
        })"

definition copyin_move_send_once ::
    "ipc_config \<Rightarrow> ipc_state \<Rightarrow> space_id \<Rightarrow> mach_port_t \<Rightarrow> entry_ref \<Rightarrow> bool \<Rightarrow> copyin_result" where
  "copyin_move_send_once cfg st sid name r deadok =
    (let entry = get_entry st sid r; bits = ie_bits entry; p = ie_object entry
     in if has bits MACH_PORT_TYPE_DEAD_NAME then move_dead deadok st sid r bits
        else if \<not> has bits MACH_PORT_TYPE_SEND_RIGHTS then Some (Inl KERN_INVALID_RIGHT, st)
        else do {
          (dead, st) \<leftarrow> ipc_right_check cfg st sid p name r;
          if dead then
            (if has bits IE_BITS_COMPAT then Some (Inl KERN_INVALID_NAME, st)
             else move_dead deadok st sid r (ie_bits (get_entry st sid r)))
          else if \<not> has bits MACH_PORT_TYPE_SEND_ONCE then Some (Inl KERN_INVALID_RIGHT, st)
          else do {
            let (dnrequest, st) = ipc_right_dncancel_macro st sid p name r;
            Some (Inr (p, dnrequest), upd_entry st sid r (\<lambda>e. e\<lparr>ie_object := IO_NULL,
              ie_bits := bits AND NOT MACH_PORT_TYPE_SEND_ONCE\<rparr>))
          }
        })"

fun ipc_right_copyin ::
    "ipc_config \<Rightarrow> ipc_state \<Rightarrow> space_id \<Rightarrow> mach_port_t \<Rightarrow> entry_ref \<Rightarrow> mach_msg_type_name \<Rightarrow> bool \<Rightarrow> copyin_result" where
  "ipc_right_copyin cfg st sid name r MACH_MSG_TYPE_MAKE_SEND deadok = copyin_make_send st sid r"
| "ipc_right_copyin cfg st sid name r MACH_MSG_TYPE_MAKE_SEND_ONCE deadok = copyin_make_send_once st sid r"
| "ipc_right_copyin cfg st sid name r MACH_MSG_TYPE_MOVE_RECEIVE deadok = copyin_move_receive cfg st sid name r"
| "ipc_right_copyin cfg st sid name r MACH_MSG_TYPE_COPY_SEND deadok = copyin_copy_send cfg st sid name r deadok"
| "ipc_right_copyin cfg st sid name r MACH_MSG_TYPE_MOVE_SEND deadok = copyin_move_send cfg st sid name r deadok"
| "ipc_right_copyin cfg st sid name r MACH_MSG_TYPE_MOVE_SEND_ONCE deadok = copyin_move_send_once cfg st sid name r deadok"

definition ipc_right_copyin_undo ::
    "ipc_config \<Rightarrow> ipc_state \<Rightarrow> space_id \<Rightarrow> mach_port_t \<Rightarrow> entry_ref \<Rightarrow> mach_msg_type_name \<Rightarrow> ipc_object_t \<Rightarrow> ipc_port_t \<Rightarrow>
     ipc_state option" where
  "ipc_right_copyin_undo cfg st sid name r msgt obj soright =
    do {
      let bits = ie_bits (get_entry st sid r);
      st \<leftarrow>
        (if soright \<noteq> IP_NULL then
           Some (upd_entry st sid r (\<lambda>e. e\<lparr>ie_bits := (bits AND NOT IE_BITS_RIGHT_MASK) OR MACH_PORT_TYPE_DEAD_NAME OR 2\<rparr>))
         else if IE_BITS_TYPE bits = MACH_PORT_TYPE_NONE then
           Some (upd_entry st sid r (\<lambda>e. e\<lparr>ie_bits := (bits AND NOT IE_BITS_RIGHT_MASK) OR MACH_PORT_TYPE_DEAD_NAME OR 1\<rparr>))
         else do {
           let st = (if msgt \<noteq> MACH_MSG_TYPE_COPY_SEND then upd_entry st sid r (\<lambda>e. e\<lparr>ie_bits := bits + 1\<rparr>) else st);
           if IE_BITS_TYPE bits = MACH_PORT_TYPE_DEAD_NAME then Some st
           else map_option snd (ipc_right_check cfg st sid obj name r)
         });
      Some (if obj \<noteq> IO_DEAD then ipc_port_release st obj else st)
    }"

definition ipc_right_copyin_two ::
    "ipc_config \<Rightarrow> ipc_state \<Rightarrow> space_id \<Rightarrow> mach_port_t \<Rightarrow> entry_ref \<Rightarrow> copyin_result" where
  "ipc_right_copyin_two cfg st sid name r =
    (let entry = get_entry st sid r; bits = ie_bits entry; p = ie_object entry; urefs = IE_BITS_UREFS bits
     in if \<not> has bits MACH_PORT_TYPE_SEND then Some (Inl KERN_INVALID_RIGHT, st)
        else if urefs < 2 then Some (Inl KERN_INVALID_RIGHT, st)
        else do {
          (dead, st) \<leftarrow> ipc_right_check cfg st sid p name r;
          if dead then Some (Inl (if has bits IE_BITS_COMPAT then KERN_INVALID_NAME else KERN_INVALID_RIGHT), st)
          else if urefs = 2 then do {
            (dnrequest, st) \<leftarrow>
              (if has bits MACH_PORT_TYPE_RECEIVE then
                 Some (IP_NULL, upd_port st p (\<lambda>port. port\<lparr>ip_srights := ip_srights port + 1,
                   ip_references := ip_references port + 1 + 1\<rparr>))
               else map_option (\<lambda>(dnrequest, st). (dnrequest, upd_port st p (\<lambda>port. port\<lparr>ip_srights := ip_srights port + 1,
                   ip_references := ip_references port + 1\<rparr>))) (take_last_send st sid p name r bits));
            Some (Inr (p, dnrequest),
              upd_entry st sid r (\<lambda>e. e\<lparr>ie_bits := bits AND NOT (IE_BITS_UREFS_MASK OR MACH_PORT_TYPE_SEND)\<rparr>))
          } else
            Some (Inr (p, IP_NULL),
              upd_entry (upd_port st p (\<lambda>port. port\<lparr>ip_srights := ip_srights port + 2,
                ip_references := ip_references port + 1 + 1\<rparr>)) sid r (\<lambda>e. e\<lparr>ie_bits := bits - 2\<rparr>))
        })"

section \<open>Copying out\<close>

definition copyout_send ::
    "ipc_state \<Rightarrow> space_id \<Rightarrow> mach_port_t \<Rightarrow> entry_ref \<Rightarrow> bool \<Rightarrow> ipc_port_t \<Rightarrow> (kern_return_t \<times> ipc_state) option" where
  "copyout_send st sid name r overflow p =
    (let bits = ie_bits (get_entry st sid r); urefs = IE_BITS_UREFS bits;
         consume = upd_port st p (\<lambda>port. port\<lparr>ip_srights := ip_srights port - 1, ip_references := ip_references port - 1\<rparr>)
     in if has bits MACH_PORT_TYPE_SEND \<and> urefs + 1 = MACH_PORT_UREFS_MAX then
          Some (if overflow then (KERN_SUCCESS, consume) else (KERN_UREFS_OVERFLOW, st))
        else do {
          st \<leftarrow>
            (if has bits MACH_PORT_TYPE_SEND then Some consume
             else if has bits MACH_PORT_TYPE_RECEIVE then Some (ip_release st p)
             else hash_insert st sid p name r);
          Some (KERN_SUCCESS, upd_entry st sid r (\<lambda>e. e\<lparr>ie_bits := (bits OR MACH_PORT_TYPE_SEND) + 1\<rparr>))
        })"

definition copyout_receive ::
    "ipc_state \<Rightarrow> space_id \<Rightarrow> mach_port_t \<Rightarrow> entry_ref \<Rightarrow> ipc_port_t \<Rightarrow> (kern_return_t \<times> ipc_state) option" where
  "copyout_receive st sid name r p =
    do {
      let bits = ie_bits (get_entry st sid r);
      let dest = ip_destination (st_ports st p);
      let st = upd_port st p (\<lambda>port. port\<lparr>ip_receiver_name := name, ip_receiver := sid\<rparr>);
      st \<leftarrow> (if has bits MACH_PORT_TYPE_SEND then hash_delete (ip_release st p) sid p name r else Some st);
      let st = upd_entry st sid r (\<lambda>e. e\<lparr>ie_bits := bits OR MACH_PORT_TYPE_RECEIVE\<rparr>);
      Some (KERN_SUCCESS, if dest \<noteq> IP_NULL then ipc_port_release st dest else st)
    }"

definition ipc_right_copyout ::
    "ipc_state \<Rightarrow> space_id \<Rightarrow> mach_port_t \<Rightarrow> entry_ref \<Rightarrow> mach_msg_type_name \<Rightarrow> bool \<Rightarrow> ipc_object_t \<Rightarrow>
     (kern_return_t \<times> ipc_state) option" where
  "ipc_right_copyout st sid name r msgt overflow obj =
    (case msgt of
       MACH_MSG_TYPE_MOVE_SEND_ONCE \<Rightarrow>
         Some (KERN_SUCCESS, upd_entry st sid r (\<lambda>e. e\<lparr>ie_bits := ie_bits e OR (MACH_PORT_TYPE_SEND_ONCE OR 1)\<rparr>))
     | MACH_MSG_TYPE_MOVE_SEND \<Rightarrow> copyout_send st sid name r overflow obj
     | MACH_MSG_TYPE_MOVE_RECEIVE \<Rightarrow> copyout_receive st sid name r obj
     | _ \<Rightarrow> None)"

section \<open>Giving back a user reference\<close>

definition dealloc_dead :: "ipc_config \<Rightarrow> ipc_state \<Rightarrow> space_id \<Rightarrow> mach_port_t \<Rightarrow> entry_ref \<Rightarrow> ipc_entry_bits_t \<Rightarrow>
    (kern_return_t \<times> ipc_state) option" where
  "dealloc_dead cfg st sid name r bits =
    (if IE_BITS_UREFS bits = 1 then map_option (Pair KERN_SUCCESS) (entry_dealloc cfg st sid name r)
     else Some (KERN_SUCCESS, upd_entry st sid r (\<lambda>e. e\<lparr>ie_bits := bits - 1\<rparr>)))"

text \<open>
  The entry of a send-once right is given up, and the right is given back by a notification:
  the code has these lines in \<^verbatim>\<open>ipc_right_dealloc\<close> and \<^verbatim>\<open>ipc_right_delta\<close>.
\<close>

definition dealloc_send_once :: "ipc_config \<Rightarrow> ipc_state \<Rightarrow> space_id \<Rightarrow> ipc_port_t \<Rightarrow> mach_port_t \<Rightarrow> entry_ref \<Rightarrow>
    (kern_return_t \<times> ipc_state) option" where
  "dealloc_send_once cfg st sid p name r =
    do {
      let (dnrequest, st) = ipc_right_dncancel_macro st sid p name r;
      let st = upd_entry st sid r (\<lambda>e. e\<lparr>ie_object := IO_NULL\<rparr>);
      st \<leftarrow> entry_dealloc cfg st sid name r;
      Some (KERN_SUCCESS, emit st (Notify_send_once p # port_deleted dnrequest name))
    }"

text \<open>The last send right of an entry without receive right is given up; as well in \<^verbatim>\<open>ipc_right_delta\<close>.\<close>

definition dealloc_last_send :: "ipc_config \<Rightarrow> ipc_state \<Rightarrow> space_id \<Rightarrow> ipc_port_t \<Rightarrow> mach_port_t \<Rightarrow> entry_ref \<Rightarrow>
    ipc_entry_bits_t \<Rightarrow> (kern_return_t \<times> ipc_state) option" where
  "dealloc_last_send cfg st sid p name r bits =
    do {
      let (es, st) = port_drop_send st p;
      let (dnrequest, st) = ipc_right_dncancel_macro st sid p name r;
      st \<leftarrow> hash_delete st sid p name r;
      st \<leftarrow> cancel_marequest st bits sid name;
      let st = upd_entry (ip_release st p) sid r (\<lambda>e. e\<lparr>ie_object := IO_NULL\<rparr>);
      st \<leftarrow> entry_dealloc cfg st sid name r;
      Some (KERN_SUCCESS, emit st (es @ port_deleted dnrequest name))
    }"

definition ipc_right_dealloc ::
    "ipc_config \<Rightarrow> ipc_state \<Rightarrow> space_id \<Rightarrow> mach_port_t \<Rightarrow> entry_ref \<Rightarrow> (kern_return_t \<times> ipc_state) option" where
  "ipc_right_dealloc cfg st sid name r =
    (let entry = get_entry st sid r; bits = ie_bits entry; type = IE_BITS_TYPE bits; p = ie_object entry
     in if type = MACH_PORT_TYPE_DEAD_NAME then dealloc_dead cfg st sid name r bits
        else if type = MACH_PORT_TYPE_SEND_ONCE \<or> type = MACH_PORT_TYPE_SEND then do {
          (dead, st) \<leftarrow> ipc_right_check cfg st sid p name r;
          if dead then
            (if has bits IE_BITS_COMPAT then Some (KERN_INVALID_NAME, st)
             else dealloc_dead cfg st sid name r (ie_bits (get_entry st sid r)))
          else if type = MACH_PORT_TYPE_SEND_ONCE then dealloc_send_once cfg st sid p name r
          else if IE_BITS_UREFS bits = 1 then dealloc_last_send cfg st sid p name r bits
          else Some (KERN_SUCCESS, upd_entry st sid r (\<lambda>e. e\<lparr>ie_bits := bits - 1\<rparr>))
        }
        else if type = MACH_PORT_TYPE_SEND_RECEIVE then
          (if IE_BITS_UREFS bits = 1 then
             case port_drop_send st p of (es, st) \<Rightarrow>
               Some (KERN_SUCCESS, emit (upd_entry st sid r
                 (\<lambda>e. e\<lparr>ie_bits := bits AND NOT (IE_BITS_UREFS_MASK OR MACH_PORT_TYPE_SEND)\<rparr>)) es)
           else Some (KERN_SUCCESS, upd_entry st sid r (\<lambda>e. e\<lparr>ie_bits := bits - 1\<rparr>)))
        else Some (KERN_INVALID_RIGHT, st))"

section \<open>Renaming\<close>

definition rename_request ::
    "ipc_config \<Rightarrow> ipc_state \<Rightarrow> space_id \<Rightarrow> mach_port_t \<Rightarrow> entry_ref \<Rightarrow> mach_port_t \<Rightarrow>
     ((ipc_entry_bits_t \<times> nat \<times> ipc_object_t) option \<times> ipc_state) option" where
  "rename_request cfg st sid oname oref nname =
    (let oentry = get_entry st sid oref; bits = ie_bits oentry; request = ie_request oentry; obj = ie_object oentry
     in if request \<noteq> 0 then do {
          (dead, st) \<leftarrow> ipc_right_check cfg st sid obj oname oref;
          if dead then
            (if has bits IE_BITS_COMPAT then Some (None, st)
             else Some (Some (ie_bits (get_entry st sid oref), 0, IO_NULL), st))
          else
            Some (Some (bits, request, obj),
              upd_entry (upd_port st obj (\<lambda>port. ipc_port_dnrename port request oname nname)) sid oref
                (\<lambda>e. e\<lparr>ie_request := 0\<rparr>))
        } else Some (Some (bits, request, obj), st))"

definition rename_object ::
    "ipc_state \<Rightarrow> space_id \<Rightarrow> ipc_entry_bits_t \<Rightarrow> ipc_object_t \<Rightarrow> mach_port_t \<Rightarrow> entry_ref \<Rightarrow> mach_port_t \<Rightarrow> entry_ref \<Rightarrow>
     ipc_state option" where
  "rename_object st sid bits obj oname oref nname nref =
    (let type = IE_BITS_TYPE bits
     in if type = MACH_PORT_TYPE_SEND then do {
          st \<leftarrow> hash_delete st sid obj oname oref;
          hash_insert st sid obj nname nref
        }
        else if type = MACH_PORT_TYPE_RECEIVE \<or> type = MACH_PORT_TYPE_SEND_RECEIVE then
          Some (upd_port st obj (\<lambda>port. port\<lparr>ip_receiver_name := nname\<rparr>))
        else if type = MACH_PORT_TYPE_PORT_SET then
          Some (set_pset st obj ((st_psets st obj)\<lparr>ips_local_name := nname\<rparr>))
        else if type = MACH_PORT_TYPE_SEND_ONCE \<or> type = MACH_PORT_TYPE_DEAD_NAME then Some st
        else None)"

definition ipc_right_rename ::
    "ipc_config \<Rightarrow> ipc_state \<Rightarrow> space_id \<Rightarrow> mach_port_t \<Rightarrow> entry_ref \<Rightarrow> mach_port_t \<Rightarrow> entry_ref \<Rightarrow>
     (kern_return_t \<times> ipc_state) option" where
  "ipc_right_rename cfg st sid oname oref nname nref =
    do {
      (found, st) \<leftarrow> rename_request cfg st sid oname oref nname;
      case found of
        None \<Rightarrow> map_option (Pair KERN_INVALID_NAME) (entry_dealloc cfg st sid nname nref)
      | Some (bits, request, obj) \<Rightarrow> do {
          st \<leftarrow>
            (if has bits IE_BITS_MAREQUEST
             then map_option (\<lambda>m. st\<lparr>st_marequests := m\<rparr>) (ipc_marequest_rename (st_marequests st) sid oname nname)
             else Some st);
          let st = upd_entry st sid nref (\<lambda>e. e\<lparr>ie_bits := ie_bits e OR (bits AND IE_BITS_RIGHT_MASK),
                     ie_request := request, ie_object := obj\<rparr>);
          st \<leftarrow> rename_object st sid bits obj oname oref nname nref;
          let st = upd_entry st sid oref (\<lambda>e. e\<lparr>ie_object := IO_NULL\<rparr>);
          map_option (Pair KERN_SUCCESS) (entry_dealloc cfg st sid oname oref)
        }
    }"

section \<open>The old message format\<close>

text \<open>\<^verbatim>\<open>MSG_TYPE_PORT\<close>, with and without deallocation.\<close>

definition compat_port_dealloc ::
    "ipc_config \<Rightarrow> ipc_state \<Rightarrow> space_id \<Rightarrow> mach_port_t \<Rightarrow> entry_ref \<Rightarrow> ((kern_return_t + ipc_object_t) \<times> ipc_state) option" where
  "compat_port_dealloc cfg st sid name r =
    (let entry = get_entry st sid r; bits = ie_bits entry; p = ie_object entry
     in if IE_BITS_TYPE bits \<noteq> MACH_PORT_TYPE_SEND then Some (Inl KERN_INVALID_RIGHT, st)
        else do {
          (dead, st) \<leftarrow> ipc_right_check cfg st sid p name r;
          if dead then Some (Inl (if has bits IE_BITS_COMPAT then KERN_INVALID_NAME else KERN_INVALID_RIGHT), st)
          else do {
            let (dnrequest, st) = ipc_right_dncancel_macro st sid p name r;
            st \<leftarrow> cancel_marequest st bits sid name;
            st \<leftarrow> hash_delete st sid p name r;
            let st = upd_entry st sid r (\<lambda>e. e\<lparr>ie_object := IO_NULL\<rparr>);
            st \<leftarrow> entry_dealloc cfg st sid name r;
            Some (Inr p, emit st (port_deleted dnrequest name))
          }
        })"

definition compat_port ::
    "ipc_config \<Rightarrow> ipc_state \<Rightarrow> space_id \<Rightarrow> mach_port_t \<Rightarrow> entry_ref \<Rightarrow> ((kern_return_t + ipc_object_t) \<times> ipc_state) option" where
  "compat_port cfg st sid name r =
    (let entry = get_entry st sid r; bits = ie_bits entry; p = ie_object entry
     in if \<not> has bits MACH_PORT_TYPE_SEND_RECEIVE then Some (Inl KERN_INVALID_RIGHT, st)
        else do {
          (dead, st) \<leftarrow> ipc_right_check cfg st sid p name r;
          if dead then Some (Inl (if has bits IE_BITS_COMPAT then KERN_INVALID_NAME else KERN_INVALID_RIGHT), st)
          else Some (Inr p, upd_port st p (\<lambda>port. port\<lparr>
                 ip_mscount := ip_mscount port + (if has bits MACH_PORT_TYPE_SEND then 0 else 1),
                 ip_srights := ip_srights port + 1, ip_references := ip_references port + 1\<rparr>))
        })"

text \<open>\<^verbatim>\<open>MSG_TYPE_PORT_ALL\<close>, with and without deallocation.\<close>

definition compat_all_dealloc ::
    "ipc_config \<Rightarrow> ipc_state \<Rightarrow> space_id \<Rightarrow> mach_port_t \<Rightarrow> entry_ref \<Rightarrow> ((kern_return_t + ipc_object_t) \<times> ipc_state) option" where
  "compat_all_dealloc cfg st sid name r =
    (let entry = get_entry st sid r; bits = ie_bits entry; p = ie_object entry
     in if \<not> has bits MACH_PORT_TYPE_RECEIVE then Some (Inl KERN_INVALID_RIGHT, st)
        else do {
          let (dnrequest, st) = ipc_right_dncancel_macro st sid p name r;
          st \<leftarrow> cancel_marequest st bits sid name;
          let st = upd_entry st sid r (\<lambda>e. e\<lparr>ie_object := IO_NULL\<rparr>);
          st \<leftarrow> entry_dealloc cfg st sid name r;
          let (es, st) = (if has bits MACH_PORT_TYPE_SEND then port_drop_send st p else ([], st));
          Some (Inr p, emit (into_limbo cfg st p) (es @ port_deleted dnrequest name))
        })"

definition compat_all ::
    "ipc_config \<Rightarrow> ipc_state \<Rightarrow> space_id \<Rightarrow> mach_port_t \<Rightarrow> entry_ref \<Rightarrow> ((kern_return_t + ipc_object_t) \<times> ipc_state) option" where
  "compat_all cfg st sid name r =
    (let entry = get_entry st sid r; bits = ie_bits entry; p = ie_object entry
     in if \<not> has bits MACH_PORT_TYPE_RECEIVE then Some (Inl KERN_INVALID_RIGHT, st)
        else do {
          let (bits, st) =
            (if has bits MACH_PORT_TYPE_SEND then (bits, st)
             else (bits OR (MACH_PORT_TYPE_SEND OR 1), upd_port st p (\<lambda>port. port\<lparr>ip_srights := ip_srights port + 1\<rparr>)));
          st \<leftarrow> hash_insert st sid p name r;
          let st = upd_entry st sid r (\<lambda>e. e\<lparr>ie_bits := bits AND NOT MACH_PORT_TYPE_RECEIVE\<rparr>);
          Some (Inr p, ip_reference (into_limbo cfg st p) p)
        })"

definition ipc_right_copyin_compat ::
    "ipc_config \<Rightarrow> ipc_state \<Rightarrow> space_id \<Rightarrow> mach_port_t \<Rightarrow> entry_ref \<Rightarrow> bool \<Rightarrow> bool \<Rightarrow>
     ((kern_return_t + ipc_object_t) \<times> ipc_state) option" where
  "ipc_right_copyin_compat cfg st sid name r port_all dealloc =
    (if \<not> port_all then (if dealloc then compat_port_dealloc cfg st sid name r else compat_port cfg st sid name r)
     else (if dealloc then compat_all_dealloc cfg st sid name r else compat_all cfg st sid name r))"

definition header_send_once ::
    "ipc_config \<Rightarrow> ipc_state \<Rightarrow> space_id \<Rightarrow> ipc_port_t \<Rightarrow> mach_port_t \<Rightarrow> entry_ref \<Rightarrow> ipc_state option" where
  "header_send_once cfg st sid p name r =
    do {
      let (dnrequest, st) = ipc_right_dncancel_macro st sid p name r;
      let st = upd_entry st sid r (\<lambda>e. e\<lparr>ie_object := IO_NULL\<rparr>);
      st \<leftarrow> entry_dealloc cfg st sid name r;
      (notify, st) \<leftarrow> ipc_space_make_notify st sid;
      Some (emit st (port_deleted dnrequest name @
        (if IO_VALID notify then [Notify_port_deleted_compat notify name] else [])))
    }"

definition ipc_right_copyin_header ::
    "ipc_config \<Rightarrow> ipc_state \<Rightarrow> space_id \<Rightarrow> mach_port_t \<Rightarrow> entry_ref \<Rightarrow>
     ((kern_return_t + ipc_object_t \<times> mach_msg_type_name) \<times> ipc_state) option" where
  "ipc_right_copyin_header cfg st sid name r =
    (let entry = get_entry st sid r; bits = ie_bits entry; type = IE_BITS_TYPE bits; p = ie_object entry
     in if type = MACH_PORT_TYPE_PORT_SET \<or> type = MACH_PORT_TYPE_DEAD_NAME then Some (Inl KERN_INVALID_RIGHT, st)
        else if type = MACH_PORT_TYPE_RECEIVE then Some (Inr (p, MACH_MSG_TYPE_PORT_SEND), make_send st p)
        else if type \<in> {MACH_PORT_TYPE_SEND, MACH_PORT_TYPE_SEND_RECEIVE, MACH_PORT_TYPE_SEND_ONCE} then do {
          (dead, st) \<leftarrow> ipc_right_check cfg st sid p name r;
          if dead then Some (Inl (if has bits IE_BITS_COMPAT then KERN_INVALID_NAME else KERN_INVALID_RIGHT), st)
          else if type = MACH_PORT_TYPE_SEND_ONCE then
            map_option (Pair (Inr (p, MACH_MSG_TYPE_PORT_SEND_ONCE))) (header_send_once cfg st sid p name r)
          else Some (Inr (p, MACH_MSG_TYPE_PORT_SEND), upd_port st p (\<lambda>port. port\<lparr>ip_srights := ip_srights port + 1,
                 ip_references := ip_references port + 1\<rparr>))
        }
        else None)"

end
