(* ===== verification/Right_State.thy ===== *)
theory Right_State
  imports Right_Cell Ipc_Right_Copy
begin

text \<open>
  The steps of the operations on rights, on the state: the lemmas of \<^verbatim>\<open>Right_Cell\<close> for the
  entry of a name in a space of the state, and what each step leaves as it is.
\<close>

section \<open>What a step leaves as it is\<close>

text \<open>Two states that differ in one space and in the global hash table at most.\<close>

definition outside :: "space_id \<Rightarrow> ipc_state \<Rightarrow> ipc_state \<Rightarrow> bool" where
  "outside sid st st' \<longleftrightarrow> st_ports st' = st_ports st \<and> st_psets st' = st_psets st \<and>
    st_marequests st' = st_marequests st \<and> st_timestamp st' = st_timestamp st \<and> st_events st' = st_events st \<and>
    (\<forall>x. x \<noteq> sid \<longrightarrow> st_spaces st' x = st_spaces st x)"

lemma outside_trans: "outside sid st st' \<Longrightarrow> outside sid st' st'' \<Longrightarrow> outside sid st st''"
  by (simp add: outside_def)

lemma outside_set_world [simp]: "outside sid st (set_world st sid w)"
  by (simp add: outside_def set_world_def set_space_def)

lemma outside_upd_entry [simp]: "outside sid st (upd_entry st sid r f)"
  by (simp add: outside_def upd_entry_def set_space_def)

lemma set_world_simps [simp]:
  "st_hash (set_world st sid w) = fst w" "st_spaces (set_world st sid w) sid = snd w"
  by (simp_all add: set_world_def set_space_def)

lemma upd_entry_simps [simp]:
  "st_hash (upd_entry st sid r f) = st_hash st"
  "st_spaces (upd_entry st sid r f) sid = set_entry (st_spaces st sid) r (f (get_entry st sid r))"
  "st_ports (upd_entry st sid r f) = st_ports st" "st_events (upd_entry st sid r f) = st_events st"
  by (simp_all add: upd_entry_def set_space_def)

lemma upd_port_simps [simp]:
  "st_hash (upd_port st p f) = st_hash st" "st_spaces (upd_port st p f) = st_spaces st"
  "st_ports (upd_port st p f) = (st_ports st)(p := f (st_ports st p))" "st_events (upd_port st p f) = st_events st"
  "st_hash (set_port st p port) = st_hash st" "st_spaces (set_port st p port) = st_spaces st"
  "st_ports (set_port st p port) = (st_ports st)(p := port)" "st_events (set_port st p port) = st_events st"
  by (simp_all add: upd_port_def set_port_def)

lemma emit_simps [simp]:
  "st_hash (emit st es) = st_hash st" "st_spaces (emit st es) = st_spaces st" "st_ports (emit st es) = st_ports st"
  "st_events (emit st es) = st_events st @ es"
  by (simp_all add: emit_def)

lemma release_simps [simp]:
  "st_hash (ipc_port_release st p) = st_hash st" "st_spaces (ipc_port_release st p) = st_spaces st"
  "st_ports (ipc_port_release st p) = (st_ports st)(p := (st_ports st p)\<lparr>ip_references := ip_references (st_ports st p) - 1\<rparr>)"
  by (simp_all add: ipc_port_release_def ip_check_unlock_def Let_def)

section \<open>An entry of the state\<close>

definition holds ::
    "ipc_config \<Rightarrow> ipc_state \<Rightarrow> space_id \<Rightarrow> entry_ref set \<Rightarrow> mach_port_t \<Rightarrow> entry_ref \<Rightarrow> ipc_entry \<Rightarrow> bool" where
  "holds cfg st sid P name r e \<longleftrightarrow>
    core_ok (ipc_table_entries cfg) sid P (st_hash st) (st_spaces st sid) \<and>
    cell (st_spaces st sid) name r \<and> entry_at (st_spaces st sid) r = Some e"

definition st_ok :: "ipc_config \<Rightarrow> ipc_state \<Rightarrow> space_id \<Rightarrow> bool" where
  "st_ok cfg st sid \<longleftrightarrow> space_ok (ipc_table_entries cfg) sid {} (st_hash st) (st_spaces st sid)"

abbreviation st_caps :: "ipc_state \<Rightarrow> space_id \<Rightarrow> mach_port_t \<rightharpoonup> capability" where
  "st_caps st sid \<equiv> caps {} (st_spaces st sid)"

lemma holds_cong:
  assumes "st_hash st' = st_hash st" and "st_spaces st' sid = st_spaces st sid"
  shows "holds cfg st' sid P name r e = holds cfg st sid P name r e"
  using assms by (simp add: holds_def)

lemma holds_get: "holds cfg st sid P name r e \<Longrightarrow> get_entry st sid r = e"
  by (simp add: holds_def get_entry_def)

lemma holds_st_ok: "holds cfg st sid {} name r e \<Longrightarrow> st_ok cfg st sid"
  by (simp add: holds_def st_ok_def space_ok_core_empty)

lemma holds_update:
  assumes h: "holds cfg st sid P name r e" and "same_slot e (f e)" and "P \<subseteq> {r}" and "P' \<subseteq> {r}"
    and "r \<in> P \<or> unhashed e" and "r \<in> P' \<or> unhashed (f e)"
  shows "holds cfg (upd_entry st sid r f) sid P' name r (f e)"
    and "caps P' (st_spaces (upd_entry st sid r f) sid) = (caps P (st_spaces st sid))(name \<mapsto> capability (f e))"
    and "caps P (st_spaces st sid) name = Some (capability e)"
proof -
  note h' = h [unfolded holds_def]
  have g: "get_entry st sid r = e" using h by (rule holds_get)
  have "is_table_size (st_spaces st sid) = length (is_table (st_spaces st sid))" using h' core_okD(11) by blast
  note c = cell_set_entry [OF _ _ assms(2) this, of name r]
  show "holds cfg (upd_entry st sid r f) sid P' name r (f e)"
    unfolding holds_def using h' c cell_update [of _ _ P _ _ name r e "f e" P'] assms g by simp
  have a: "alive P r e" "alive P' r (f e)" using assms(5,6) by (auto simp: alive_def unhashed_def)
  show "caps P' (st_spaces (upd_entry st sid r f) sid) = (caps P (st_spaces st sid))(name \<mapsto> capability (f e))"
    and "caps P (st_spaces st sid) name = Some (capability e)"
    using cell_caps [of _ _ P _ _ name r e "f e" P'] h' assms(2-4) a g by auto
qed

text \<open>An entry without a right in the hash tables can be taken as one that is worked on, and back.\<close>

lemma core_pend:
  assumes ok: "core_ok its sid P g s" and c: "cell s name r" and e: "entry_at s r = Some e" and u: "unhashed e"
    and P: "P \<subseteq> {r}" "P' \<subseteq> {r}"
  shows "core_ok its sid P' g s" and "caps P' s = caps P s"
proof -
  note ok' = core_okD [OF ok]
  have used: "in_use P' s k = in_use P s k" for k
    using P u c e ok'(11) by (cases r) (auto simp: in_use_def free_slots_def unhashed_def entry_at_def split: if_splits)
  show "caps P' s = caps P s" by (intro ext caps_eqI) (simp_all add: used)
  show "core_ok its sid P' g s"
  proof (cases r)
    case (In_table i)
    have i: "0 < i" "i < length (is_table s)" "e = is_table s ! i"
      using c e In_table ok'(11) by (auto simp: cell_def entry_at_def split: if_splits)
    have sends: "table_sends P' (is_table s) = table_sends P (is_table s)"
      using P u i In_table by (auto simp: table_sends_def unhashed_def)
    have "core_ok its sid P' g (s\<lparr>is_table := is_table s\<rparr>)"
      using P In_table i u sends ok'(10)
      by (intro table_change [OF ok i(1,2)]) (auto simp: unhashed_def hash_ok_def)
    then show ?thesis by simp
  next
    case (In_tree n)
    have e': "map_of (ist_list (is_tree s)) n = Some e" using e In_tree by (simp add: entry_at_def)
    note store = list_store_same [OF ok'(4) e']
    note ts = tree_sends_store(1) [OF ok'(4) e' P [unfolded In_tree], of e, unfolded store]
      tree_sends_store(2) [OF ok'(4) e' P [unfolded In_tree]]
    have same: "tree_sends P' (ist_list (is_tree s)) = tree_sends P (ist_list (is_tree s))"
      using u by (subst ts(1), subst ts(2)) (auto simp: unhashed_def)
    have "core_ok its sid P' g (s\<lparr>is_tree := is_tree s, is_tree_hash := is_tree_hash s\<rparr>)"
      using P In_tree u ok'(4,9,10) same
      by (intro tree_change [OF ok e', where e' = e]) (auto simp: unhashed_def hash_ok_def store)
    then show ?thesis by simp
  qed
qed

lemma holds_pend:
  assumes "holds cfg st sid P name r e" and "unhashed e" and "P \<subseteq> {r}" and "P' \<subseteq> {r}"
  shows "holds cfg st sid P' name r e" and "caps P' (st_spaces st sid) = caps P (st_spaces st sid)"
  using assms core_pend [of _ _ P _ _ name r e P'] unfolding holds_def by blast+

section \<open>Hashing and deallocating\<close>

lemma hash_delete_spec:
  assumes h: "holds cfg st sid {} name r e" and t: "IE_BITS_TYPE (ie_bits e) = MACH_PORT_TYPE_SEND"
  shows "\<exists>st' ix. hash_delete st sid (ie_object e) name r = Some st' \<and> outside sid st st' \<and>
    holds cfg st' sid {r} name r (e\<lparr>ie_index := ix\<rparr>) \<and> frame (st_spaces st sid) (st_spaces st' sid) \<and>
    caps {r} (st_spaces st' sid) = st_caps st sid \<and> unsent {r} sid (st_hash st') (st_spaces st' sid) (ie_object e)"
proof -
  obtain g' s' ix where d: "ipc_hash_delete (st_hash st) sid (st_spaces st sid) (ie_object e) name r = Some (g', s')"
    "core_ok (ipc_table_entries cfg) sid {r} g' s'" "cell s' name r" "entry_at s' r = Some (e\<lparr>ie_index := ix\<rparr>)"
    "frame (st_spaces st sid) s'" "caps {r} s' = st_caps st sid" "unsent {r} sid g' s' (ie_object e)"
    using cell_unhash [OF _ _ _ t] h unfolding holds_def by blast
  then show ?thesis
    by (intro exI [of _ "set_world st sid (g', s')"] exI [of _ ix]) (simp add: hash_delete_def holds_def)
qed

text \<open>After \<open>hash_insert\<close> the entry is to become a send right for the object.\<close>

lemma hash_insert_spec:
  assumes h: "holds cfg st sid {r} name r e" and new: "unsent {r} sid (st_hash st) (st_spaces st sid) (ie_object e)"
  shows "\<exists>st' ix. hash_insert st sid (ie_object e) name r = Some st' \<and> outside sid st st' \<and>
    frame (st_spaces st sid) (st_spaces st' sid) \<and> get_entry st' sid r = e\<lparr>ie_index := ix\<rparr> \<and>
    (\<forall>f. same_slot (e\<lparr>ie_index := ix\<rparr>) (f (e\<lparr>ie_index := ix\<rparr>)) \<and>
         IE_BITS_TYPE (ie_bits (f (e\<lparr>ie_index := ix\<rparr>))) = MACH_PORT_TYPE_SEND \<and>
         ie_object (f (e\<lparr>ie_index := ix\<rparr>)) = ie_object e \<longrightarrow>
      holds cfg (upd_entry st' sid r f) sid {} name r (f (e\<lparr>ie_index := ix\<rparr>)) \<and>
      st_caps (upd_entry st' sid r f) sid = (caps {r} (st_spaces st sid))(name \<mapsto> capability (f (e\<lparr>ie_index := ix\<rparr>))))"
proof -
  obtain g' s' ix where d: "ipc_hash_insert (st_hash st) sid (st_spaces st sid) (ie_object e) name r = Some (g', s')"
    "cell s' name r" "entry_at s' r = Some (e\<lparr>ie_index := ix\<rparr>)" "frame (st_spaces st sid) s'"
    "is_table_size s' = length (is_table s')"
    "\<And>e'. same_slot (e\<lparr>ie_index := ix\<rparr>) e' \<Longrightarrow> IE_BITS_TYPE (ie_bits e') = MACH_PORT_TYPE_SEND \<Longrightarrow> ie_object e' = ie_object e \<Longrightarrow>
      core_ok (ipc_table_entries cfg) sid {} g' (set_entry s' r e') \<and>
      caps {} (set_entry s' r e') = (caps {r} (st_spaces st sid))(name \<mapsto> capability e')"
    using cell_hash [of "ipc_table_entries cfg" sid r "st_hash st" "st_spaces st sid" name e] h new unfolding holds_def by blast
  let ?st = "set_world st sid (g', s')" and ?e = "e\<lparr>ie_index := ix\<rparr>"
  have g: "get_entry ?st sid r = ?e" using d(3) by (simp add: get_entry_def)
  have "holds cfg (upd_entry ?st sid r f) sid {} name r (f ?e) \<and>
      st_caps (upd_entry ?st sid r f) sid = (caps {r} (st_spaces st sid))(name \<mapsto> capability (f ?e))"
    if f: "same_slot ?e (f ?e)" "IE_BITS_TYPE (ie_bits (f ?e)) = MACH_PORT_TYPE_SEND" "ie_object (f ?e) = ie_object e" for f
    using d(6) [OF f] cell_set_entry [OF d(2,3) f(1) d(5)] g by (simp add: holds_def)
  then show ?thesis using d(1,4) g by (intro exI [of _ ?st] exI [of _ ix]) (simp add: hash_insert_def)
qed

lemma entry_dealloc_spec:
  assumes h: "holds cfg st sid {r} name r e" and e: "ie_object e = IO_NULL" and its: "entry_sizes (ipc_table_entries cfg)"
  shows "\<exists>st'. entry_dealloc cfg st sid name r = Some st' \<and> outside sid st st' \<and> st_ok cfg st' sid \<and>
    st_caps st' sid = (caps {r} (st_spaces st sid))(name := None)"
proof -
  let ?s = "st_spaces st sid"
  have h': "core_ok (ipc_table_entries cfg) sid {r} (st_hash st) ?s" "cell ?s name r" "entry_at ?s r = Some e"
    using h by (simp_all add: holds_def)
  have "pending_ok {r} ?s"
    using h'(2,3) e core_okD(11) [OF h'(1)]
    by (cases r) (auto simp: pending_ok_def cell_def entry_at_def split: if_splits dest: map_of_SomeD)
  then have "space_ok (ipc_table_entries cfg) sid {r} (st_hash st) ?s" using h'(1) by (simp add: space_ok_core)
  from ipc_entry_dealloc_spec [OF this its, of name] h'(2)
  obtain g' s' where "ipc_entry_dealloc (ipc_table_entries cfg) (st_hash st) sid ?s name r = Some (g', s')"
    "space_ok (ipc_table_entries cfg) sid {} g' s'" "caps {} s' = (caps {r} ?s)(name := None)"
    unfolding cell_def by blast
  then show ?thesis
    by (intro exI [of _ "set_world st sid (g', s')"]) (simp add: entry_dealloc_def st_ok_def)
qed

end
