(* ===== verification/Right_Bits.thy ===== *)
theory Right_Bits
  imports Ipc_Right
begin

text \<open>
  The bits of an entry: the types of capabilities and the count of user references, with what
  the assertions of \<^verbatim>\<open>src/kernel/ipc/ipc_right.c\<close> say of them as an invariant.
\<close>

section \<open>Counting user references\<close>

text \<open>Adding to the bits adds to the count and touches nothing else, if the sum fits the field.\<close>

lemma UREFS_MASK_mask: "IE_BITS_UREFS_MASK = mask 16"
  by (simp add: IE_BITS_UREFS_MASK_def mask_eq_exp_minus_1)

lemma urefs_fits: "x \<le> MACH_PORT_UREFS_MAX \<Longrightarrow> x AND IE_BITS_UREFS_MASK = x"
proof -
  assume "x \<le> MACH_PORT_UREFS_MAX"
  then have "uint x < 2 ^ 16" by (simp add: MACH_PORT_UREFS_MAX_def push_bit_eq_mult word_le_def)
  then show ?thesis by (simp add: UREFS_MASK_mask mask_eq_iff)
qed

lemma urefs_delta:
  assumes "IE_BITS_UREFS bits + d \<le> MACH_PORT_UREFS_MAX"
  shows "(bits + d) AND NOT IE_BITS_UREFS_MASK = bits AND NOT IE_BITS_UREFS_MASK"
    and "IE_BITS_UREFS (bits + d) = IE_BITS_UREFS bits + d"
proof -
  let ?hi = "bits AND NOT IE_BITS_UREFS_MASK" and ?lo = "IE_BITS_UREFS bits + d"
  have lo: "?lo AND IE_BITS_UREFS_MASK = ?lo" using urefs_fits [OF assms] .
  have "?hi AND ?lo = ?hi AND (?lo AND IE_BITS_UREFS_MASK)" using lo by simp
  also have "\<dots> = (?hi AND IE_BITS_UREFS_MASK) AND ?lo" by (simp add: ac_simps)
  also have "\<dots> = 0" by (simp add: and.assoc)
  finally have split: "?hi + ?lo = ?hi OR ?lo" by (simp add: disjunctive_add_eq_or)
  have "?hi AND IE_BITS_UREFS bits = 0" by (rule bit_word_eqI) (auto simp: IE_BITS_UREFS_def bit_simps)
  then have "?hi + IE_BITS_UREFS bits = ?hi OR IE_BITS_UREFS bits" by (simp add: disjunctive_add_eq_or)
  also have "\<dots> = bits" unfolding IE_BITS_UREFS_def by (metis bit.conj_disj_distrib bit.disj_cancel_left and.right_neutral)
  finally have sum: "bits + d = ?hi OR ?lo" using split by (simp add: add.assoc [symmetric])
  have low: "bit ?lo n \<Longrightarrow> bit IE_BITS_UREFS_MASK n" for n using lo by (metis bit_and_iff)
  show "(bits + d) AND NOT IE_BITS_UREFS_MASK = ?hi"
    unfolding sum by (rule bit_word_eqI) (use low in \<open>auto simp: bit_simps\<close>)
  show "IE_BITS_UREFS (bits + d) = ?lo"
    unfolding sum IE_BITS_UREFS_def [of "?hi OR ?lo"] by (rule bit_word_eqI) (use low in \<open>auto simp: bit_simps\<close>)
qed

section \<open>Fields of changed bits\<close>

lemmas right_consts = MACH_PORT_TYPE_NONE_def MACH_PORT_TYPE_SEND_def MACH_PORT_TYPE_RECEIVE_def MACH_PORT_TYPE_SEND_ONCE_def
  MACH_PORT_TYPE_PORT_SET_def MACH_PORT_TYPE_DEAD_NAME_def MACH_PORT_TYPE_SEND_RECEIVE_def MACH_PORT_TYPE_SEND_RIGHTS_def
  MACH_PORT_TYPE_PORT_RIGHTS_def MACH_PORT_TYPE_PORT_OR_DEAD_def IE_BITS_masks

lemma has_type:
  "has bits MACH_PORT_TYPE_SEND \<longleftrightarrow> IE_BITS_TYPE bits AND MACH_PORT_TYPE_SEND \<noteq> 0"
  "has bits MACH_PORT_TYPE_RECEIVE \<longleftrightarrow> IE_BITS_TYPE bits AND MACH_PORT_TYPE_RECEIVE \<noteq> 0"
  "has bits MACH_PORT_TYPE_SEND_ONCE \<longleftrightarrow> IE_BITS_TYPE bits AND MACH_PORT_TYPE_SEND_ONCE \<noteq> 0"
  "has bits MACH_PORT_TYPE_PORT_SET \<longleftrightarrow> IE_BITS_TYPE bits AND MACH_PORT_TYPE_PORT_SET \<noteq> 0"
  "has bits MACH_PORT_TYPE_DEAD_NAME \<longleftrightarrow> IE_BITS_TYPE bits AND MACH_PORT_TYPE_DEAD_NAME \<noteq> 0"
  "has bits MACH_PORT_TYPE_SEND_RECEIVE \<longleftrightarrow> IE_BITS_TYPE bits AND MACH_PORT_TYPE_SEND_RECEIVE \<noteq> 0"
  "has bits MACH_PORT_TYPE_SEND_RIGHTS \<longleftrightarrow> IE_BITS_TYPE bits AND MACH_PORT_TYPE_SEND_RIGHTS \<noteq> 0"
  "has bits MACH_PORT_TYPE_PORT_RIGHTS \<longleftrightarrow> IE_BITS_TYPE bits AND MACH_PORT_TYPE_PORT_RIGHTS \<noteq> 0"
  "has bits MACH_PORT_TYPE_PORT_OR_DEAD \<longleftrightarrow> IE_BITS_TYPE bits AND MACH_PORT_TYPE_PORT_OR_DEAD \<noteq> 0"
  by (simp_all add: has_def IE_BITS_TYPE_def right_consts and.assoc)

lemma fields_AND:
  "IE_BITS_TYPE (bits AND m) = IE_BITS_TYPE bits AND m" "IE_BITS_UREFS (bits AND m) = IE_BITS_UREFS bits AND m"
  "has (bits AND m) k \<longleftrightarrow> has bits (m AND k)"
  by (simp_all add: IE_BITS_fields has_def ac_simps)

lemma fields_OR:
  "IE_BITS_TYPE (bits OR m) = IE_BITS_TYPE bits OR (m AND IE_BITS_TYPE_MASK)"
  "IE_BITS_UREFS (bits OR m) = IE_BITS_UREFS bits OR (m AND IE_BITS_UREFS_MASK)"
  "has (bits OR m) k \<longleftrightarrow> has bits k \<or> has m k"
  by (simp_all add: IE_BITS_fields has_def mask_OR or_eq_0_iff)

lemma fields_zero: "has bits 0 = False" "has bits (k AND m) \<longleftrightarrow> has (bits AND k) m"
  by (simp_all add: has_def ac_simps)

lemma fields_masked:
  "IE_BITS_TYPE bits AND IE_BITS_TYPE_MASK = IE_BITS_TYPE bits" "IE_BITS_UREFS bits AND IE_BITS_UREFS_MASK = IE_BITS_UREFS bits"
  by (simp_all add: IE_BITS_fields and.assoc)

text \<open>What only the count of references tells apart.\<close>

lemma delta_fields:
  assumes "IE_BITS_UREFS bits + d \<le> MACH_PORT_UREFS_MAX"
  shows "IE_BITS_TYPE (bits + d) = IE_BITS_TYPE bits" and "has (bits + d) IE_BITS_MAREQUEST = has bits IE_BITS_MAREQUEST"
    and "has (bits + d) IE_BITS_COMPAT = has bits IE_BITS_COMPAT"
    and "(bits + d) AND NOT IE_BITS_RIGHT_MASK = bits AND NOT IE_BITS_RIGHT_MASK"
proof -
  note eq = urefs_delta(1) [OF assms]
  have m: "b AND k = (b AND NOT IE_BITS_UREFS_MASK) AND k" if "k AND IE_BITS_UREFS_MASK = 0" for b k :: "32 word"
  proof -
    have "bit k n \<Longrightarrow> \<not> bit IE_BITS_UREFS_MASK n" for n using that by (metis bit_0_eq bit_and_iff bot_apply bot_bool_def)
    then show ?thesis by (intro bit_word_eqI) (auto simp: bit_simps)
  qed
  have "b AND IE_BITS_TYPE_MASK = (b AND NOT IE_BITS_UREFS_MASK) AND IE_BITS_TYPE_MASK"
    "b AND IE_BITS_MAREQUEST = (b AND NOT IE_BITS_UREFS_MASK) AND IE_BITS_MAREQUEST"
    "b AND IE_BITS_COMPAT = (b AND NOT IE_BITS_UREFS_MASK) AND IE_BITS_COMPAT"
    "b AND NOT IE_BITS_RIGHT_MASK = (b AND NOT IE_BITS_UREFS_MASK) AND NOT IE_BITS_RIGHT_MASK" for b
    by (rule m, simp add: IE_BITS_masks)+
  then show "IE_BITS_TYPE (bits + d) = IE_BITS_TYPE bits" "has (bits + d) IE_BITS_MAREQUEST = has bits IE_BITS_MAREQUEST"
    "has (bits + d) IE_BITS_COMPAT = has bits IE_BITS_COMPAT"
    "(bits + d) AND NOT IE_BITS_RIGHT_MASK = bits AND NOT IE_BITS_RIGHT_MASK"
    unfolding IE_BITS_TYPE_def has_def using eq by metis+
qed

end
