(* ===== verification/Right_Steps.thy ===== *)
theory Right_Steps
  imports Right_State Right_Bits Port_Requests
begin

text \<open>
  The steps that the operations on rights share, on the entry of a name: overwriting the entry,
  cancelling its dead-name request and its msg-accepted request.  What a step does to
  the ports is said up to their tables of dead-name requests.
\<close>

section \<open>Overwriting an entry that stays what it is\<close>

lemma cell_update_keep:
  assumes ok: "core_ok its sid P g s" and c: "cell s name r" and e: "entry_at s r = Some e" and slot: "same_slot e e'"
    and P: "P \<subseteq> {r}" and live: "alive P r e" and t: "IE_BITS_TYPE (ie_bits e') = IE_BITS_TYPE (ie_bits e)"
    and obj: "ie_object e' = ie_object e"
  shows "core_ok its sid P g (set_entry s r e')"
proof (cases r)
  case (In_table i)
  let ?t = "is_table s"
  note ok' = core_okD [OF ok]
  have i: "0 < i" "i < length ?t" "e = ?t ! i"
    using c e In_table ok'(11) by (auto simp: cell_def entry_at_def split: if_splits)
  have sends: "table_sends P (?t[i := e']) = table_sends P ?t" using t i by (auto simp: table_sends_def nth_list_update)
  have objs: "ie_object (?t[i := e'] ! k) = ie_object (?t ! k)" for k using obj i by (cases "k = i") auto
  have ix: "\<forall>k. ie_index (?t[i := e'] ! k) = ie_index (?t ! k)"
    using slot i by (auto simp: same_slot_def nth_list_update)
  have lh: "lh_ok (?t[i := e'])" "entered (?t[i := e']) = table_sends P ?t"
    using lh_ok_objects [of ?t "?t[i := e']"] ok'(10) ix objs by (auto simp: hash_ok_def)
  have "core_ok its sid P g (s\<lparr>is_table := ?t[i := e']\<rparr>)"
    using P In_table i slot live t lh sends objs ok'(10)
    by (intro table_change [OF ok i(1,2)]) (auto simp: same_slot_def alive_def hash_ok_def)
  then show ?thesis using In_table by (simp add: set_entry_def)
next
  case (In_tree n)
  have e': "map_of (ist_list (is_tree s)) n = Some e" using e In_tree by (simp add: entry_at_def)
  note ok' = core_okD [OF ok] and ts = tree_sends_store [OF core_okD(4) [OF ok] e' P [unfolded In_tree] P [unfolded In_tree]]
  have same: "tree_sends P (list_store n e' (ist_list (is_tree s))) = tree_sends P (ist_list (is_tree s))"
    by (subst ts(1), subst ts(2)) (simp add: t obj)
  have "core_ok its sid P g (s\<lparr>is_tree := ist_store (is_tree s) n e', is_tree_hash := is_tree_hash s\<rparr>)"
    using P In_tree slot live t ok'(4,9,10) same
    by (intro tree_change [OF ok e']) (auto simp: same_slot_def alive_def hash_ok_def ist_store_list ist_store_ok)
  then show ?thesis using In_tree by (simp add: set_entry_def)
qed

lemma holds_keep:
  assumes h: "holds cfg st sid P name r e" and f: "same_slot e (f e)" "IE_BITS_TYPE (ie_bits (f e)) = IE_BITS_TYPE (ie_bits e)"
    "ie_object (f e) = ie_object e" and P: "P \<subseteq> {r}" and live: "alive P r e"
  shows "holds cfg (upd_entry st sid r f) sid P name r (f e)"
    and "caps P (st_spaces (upd_entry st sid r f) sid) = (caps P (st_spaces st sid))(name \<mapsto> capability (f e))"
proof -
  note h' = h [unfolded holds_def]
  have g: "get_entry st sid r = e" using h by (rule holds_get)
  have "is_table_size (st_spaces st sid) = length (is_table (st_spaces st sid))" using h' core_okD(11) by blast
  note c = cell_set_entry [OF _ _ f(1) this, of name r]
  show "holds cfg (upd_entry st sid r f) sid P name r (f e)"
    unfolding holds_def using h' c cell_update_keep [of _ _ P _ _ name r e "f e"] assms g by simp
  have "alive P r (f e)" using live f(2) by (simp add: alive_def)
  then show "caps P (st_spaces (upd_entry st sid r f) sid) = (caps P (st_spaces st sid))(name \<mapsto> capability (f e))"
    using cell_caps [of _ _ P _ _ name r e "f e" P] h' f(1) P live g by auto
qed

text \<open>The references of a space are of no concern to its entries.\<close>

lemma references_simps [simp]:
  "core_ok its sid P g (s\<lparr>is_references := n\<rparr>) = core_ok its sid P g s" "cell (s\<lparr>is_references := n\<rparr>) = cell s"
  "entry_at (s\<lparr>is_references := n\<rparr>) = entry_at s" "caps P (s\<lparr>is_references := n\<rparr>) = caps P s"
  "unsent P sid g (s\<lparr>is_references := n\<rparr>) obj = unsent P sid g s obj"
  by (auto simp: core_ok_def sizes_ok_def cell_def detached_def entry_at_def fun_eq_iff caps_def in_use_def unsent_def Let_def
      split: entry_ref.splits)

lemma upd_entry_other [simp]: "x \<noteq> sid \<Longrightarrow> st_spaces (upd_entry st sid r f) x = st_spaces st x"
  by (simp add: upd_entry_def set_space_def)

lemma upd_rest [simp]:
  "st_marequests (upd_entry st sid r f) = st_marequests st" "st_psets (upd_entry st sid r f) = st_psets st"
  "st_timestamp (upd_entry st sid r f) = st_timestamp st" "st_marequests (set_port st p port) = st_marequests st"
  "st_psets (set_port st p port) = st_psets st" "st_timestamp (set_port st p port) = st_timestamp st"
  "st_marequests (upd_port st p g) = st_marequests st" "st_psets (upd_port st p g) = st_psets st"
  "st_timestamp (upd_port st p g) = st_timestamp st" "st_marequests (emit st es) = st_marequests st"
  by (simp_all add: upd_entry_def set_space_def set_port_def upd_port_def emit_def)

section \<open>What a step does to the ports\<close>

definition bare :: "ipc_port \<Rightarrow> ipc_port" where
  "bare port = port\<lparr>ip_dnrequests := None\<rparr>"

lemma bare_fields [simp]:
  "ip_references (bare port) = ip_references port" "ip_bits (bare port) = ip_bits port" "ip_receiver (bare port) = ip_receiver port"
  "ip_srights (bare port) = ip_srights port" "ip_sorights (bare port) = ip_sorights port" "ip_mscount (bare port) = ip_mscount port"
  by (simp_all add: bare_def)

lemma bare_dncancel: "bare (snd (ipc_port_dncancel port name i)) = bare port"
  by (auto simp: bare_def ipc_port_dncancel_def Let_def split: option.splits)

lemma dncancel_bits [simp]:
  "ip_bits (snd (ipc_port_dncancel port name i)) = ip_bits port" "ip_srights (snd (ipc_port_dncancel port name i)) = ip_srights port"
  using arg_cong [OF bare_dncancel [of port name i], of ip_bits] arg_cong [OF bare_dncancel [of port name i], of ip_srights]
  by simp_all

text \<open>A state that differs at most in one space, the hash table, and the tables of requests.\<close>

definition beside :: "space_id \<Rightarrow> ipc_state \<Rightarrow> ipc_state \<Rightarrow> bool" where
  "beside sid st st' \<longleftrightarrow> (\<forall>q. bare (st_ports st' q) = bare (st_ports st q)) \<and>
    st_psets st' = st_psets st \<and> st_timestamp st' = st_timestamp st \<and> st_events st' = st_events st \<and>
    (\<forall>x. x \<noteq> sid \<longrightarrow> st_spaces st' x = st_spaces st x)"

lemma beside_refl [simp]: "beside sid st st"
  by (simp add: beside_def)

lemma beside_trans: "beside sid st st' \<Longrightarrow> beside sid st' st'' \<Longrightarrow> beside sid st st''"
  by (simp add: beside_def)

lemma beside_outside: "outside sid st st' \<Longrightarrow> beside sid st st'"
  by (simp add: beside_def outside_def)

lemma beside_upd_entry [simp]: "beside sid st (upd_entry st' sid r f) \<longleftrightarrow> beside sid st st'"
  by (simp add: beside_def upd_entry_def set_space_def)

lemma beside_active: "beside sid st st' \<Longrightarrow> ip_active (st_ports st' p) \<longleftrightarrow> ip_active (st_ports st p)"
  by (metis beside_def bare_fields(2))

section \<open>Cancelling requests\<close>

text \<open>What is registered with the port for an entry.\<close>

definition registered :: "ipc_state \<Rightarrow> ipc_port_t \<Rightarrow> nat \<Rightarrow> ipc_port_t" where
  "registered st p i = (case port_requests (st_ports st p) i of None \<Rightarrow> IP_NULL | Some (name, so) \<Rightarrow> so)"

definition linked_request :: "ipc_state \<Rightarrow> mach_port_t \<Rightarrow> ipc_port_t \<Rightarrow> nat \<Rightarrow> bool" where
  "linked_request st name p i \<longleftrightarrow>
    (i \<noteq> 0 \<longrightarrow> port_requests_ok (st_ports st p) \<and> (\<exists>so. port_requests (st_ports st p) i = Some (name, so)))"

lemma registered_none [simp]: "registered st p 0 = IP_NULL"
  by (auto simp: registered_def port_requests_def dn_map_def split: option.splits)

lemma dncancel_step:
  assumes h: "holds cfg st sid P name r e" and P: "P \<subseteq> {r}" and live: "alive P r e"
    and nc: "\<not> has (ie_bits e) IE_BITS_COMPAT" and req: "linked_request st name p (ie_request e)"
  shows "\<exists>st'. ipc_right_dncancel_macro st sid p name r = (registered st p (ie_request e), st') \<and>
    holds cfg st' sid P name r (e\<lparr>ie_request := 0\<rparr>) \<and>
    caps P (st_spaces st' sid) = (caps P (st_spaces st sid))(name \<mapsto> capability (e\<lparr>ie_request := 0\<rparr>)) \<and>
    beside sid st st' \<and> st_hash st' = st_hash st \<and> st_marequests st' = st_marequests st"
proof (cases "ie_request e = 0")
  case True
  then have same: "e\<lparr>ie_request := 0\<rparr> = e" by (cases e) simp
  have "caps P (st_spaces st sid) name = Some (capability e)"
    using cell_caps(1) [of _ _ P _ _ name r e e P] h P live by (auto simp: holds_def same_slot_def)
  with True h holds_get [OF h] show ?thesis
    unfolding same by (intro exI [of _ st] conjI) (simp_all add: ipc_right_dncancel_macro_def fun_upd_idem)
next
  case False
  with req obtain so where so: "port_requests_ok (st_ports st p)" "port_requests (st_ports st p) (ie_request e) = Some (name, so)"
    by (auto simp: linked_request_def)
  obtain port where c: "ipc_port_dncancel (st_ports st p) name (ie_request e) = (so, port)"
    using port_table.cancel_law [OF so] by blast
  let ?st = "set_port st p port" and ?f = "\<lambda>e. e\<lparr>ie_request := 0\<rparr>"
  have h': "holds cfg ?st sid P name r e" using h holds_cong [of ?st st sid cfg P name r e] by simp
  have s: "same_slot e (?f e)" by (simp add: same_slot_def)
  note k = holds_keep [where f = ?f, OF h' s _ _ P live]
  have "bare port = bare (st_ports st p)" using bare_dncancel [of "st_ports st p" name "ie_request e"] c by simp
  then have "beside sid st ?st" by (auto simp: beside_def set_port_def)
  moreover have "ipc_right_dncancel_macro st sid p name r = (registered st p (ie_request e), upd_entry ?st sid r ?f)"
    using False nc c so(2) holds_get [OF h]
    by (simp add: ipc_right_dncancel_macro_def ipc_right_dncancel_def registered_def Let_def)
  ultimately show ?thesis using k by (intro exI [of _ "upd_entry ?st sid r ?f"]) simp
qed

text \<open>A msg-accepted request is there if the bit says so.\<close>

definition linked_marequest :: "ipc_state \<Rightarrow> space_id \<Rightarrow> mach_port_t \<Rightarrow> ipc_entry_bits_t \<Rightarrow> bool" where
  "linked_marequest st sid name bits \<longleftrightarrow>
    (has bits IE_BITS_MAREQUEST \<longrightarrow> imar_ok (st_marequests st) \<and> imar_map (st_marequests st) (sid, name) \<noteq> None)"

lemma marequest_step:
  assumes "linked_marequest st sid name bits"
  shows "\<exists>m. cancel_marequest st bits sid name = Some (st\<lparr>st_marequests := m\<rparr>) \<and>
    (if has bits IE_BITS_MAREQUEST then imar_ok m \<and> imar_map m = (imar_map (st_marequests st))((sid, name) := None)
     else m = st_marequests st)"
proof (cases "has bits IE_BITS_MAREQUEST")
  case True
  with assms obtain a where a: "imar_ok (st_marequests st)" "imar_map (st_marequests st) (sid, name) = Some a"
    by (auto simp: linked_marequest_def)
  from cancel_spec [OF this] True show ?thesis by (auto simp: cancel_marequest_def)
qed (auto simp: cancel_marequest_def)

lemma beside_marequests [simp]: "beside sid st (st'\<lparr>st_marequests := m\<rparr>) \<longleftrightarrow> beside sid st st'"
  by (simp add: beside_def)

lemma holds_marequests [simp]: "holds cfg (st\<lparr>st_marequests := m\<rparr>) sid P name r e = holds cfg st sid P name r e"
  by (rule holds_cong) simp_all

end
