(* ===== verification/Ipc_Destroy.thy ===== *)
theory Ipc_Destroy
  imports Ipc_Right_Copy
begin

text \<open>
  The death of a port and of rights: \<^verbatim>\<open>ipc_port_destroy\<close> with the functions around it
  (\<^verbatim>\<open>src/kernel/ipc/ipc_port.c\<close>), and \<^verbatim>\<open>ipc_right_clean\<close>, \<^verbatim>\<open>ipc_right_destroy\<close> and
  \<^verbatim>\<open>ipc_right_delta\<close> (\<^verbatim>\<open>ipc_right.c\<close>).

  A queued message is given to \<^verbatim>\<open>ipc_kmsg_destroy\<close> as an event; what that does to the rights in
  the message is \<^verbatim>\<open>ipc_object_destroy\<close>, in the theory of objects.  The arguments \<open>fuel\<close>, \<open>try\<close> and
  \<open>interim\<close> are those of \<open>ipc_port_check_circularity\<close>.
\<close>

section \<open>Destroying a port\<close>

definition ipr_spacep :: "ipc_port_t \<Rightarrow> bool" where "ipr_spacep soright \<longleftrightarrow> soright AND 1 \<noteq> 0"
definition ipr_space :: "ipc_port_t \<Rightarrow> space_id" where "ipr_space soright = soright AND NOT 1"
definition ipr_spacem :: "space_id \<Rightarrow> ipc_port_t" where "ipr_spacem space = space OR 1"

abbreviation ip_pdsendp :: "ipc_port_t \<Rightarrow> bool" where "ip_pdsendp \<equiv> ipr_spacep"
abbreviation ip_pdsend :: "ipc_port_t \<Rightarrow> ipc_port_t" where "ip_pdsend \<equiv> ipr_space"

text \<open>
  The first part of \<^verbatim>\<open>ipc_right_destroy\<close> for a port right, and its branch for a dead port;
  \<^verbatim>\<open>ipc_port_delete_compat\<close> calls \<^verbatim>\<open>ipc_right_destroy\<close> for an entry of a dead port.
\<close>

definition destroy_unhash ::
    "ipc_state \<Rightarrow> space_id \<Rightarrow> ipc_port_t \<Rightarrow> mach_port_t \<Rightarrow> entry_ref \<Rightarrow> ipc_entry_bits_t \<Rightarrow> ipc_state option" where
  "destroy_unhash st sid p name r bits =
    do {
      st \<leftarrow> cancel_marequest st bits sid name;
      if IE_BITS_TYPE bits = MACH_PORT_TYPE_SEND then hash_delete st sid p name r else Some st
    }"

definition destroy_dead ::
    "ipc_config \<Rightarrow> ipc_state \<Rightarrow> space_id \<Rightarrow> ipc_port_t \<Rightarrow> mach_port_t \<Rightarrow> entry_ref \<Rightarrow> ipc_entry_bits_t \<Rightarrow>
     (kern_return_t \<times> ipc_state) option" where
  "destroy_dead cfg st sid p name r bits =
    do {
      let st = upd_entry (ipc_port_release st p) sid r (\<lambda>e. e\<lparr>ie_request := 0, ie_object := IO_NULL\<rparr>);
      st \<leftarrow> entry_dealloc cfg st sid name r;
      Some (if has bits IE_BITS_COMPAT then KERN_INVALID_NAME else KERN_SUCCESS, st)
    }"

definition ipc_port_delete_compat ::
    "ipc_config \<Rightarrow> ipc_state \<Rightarrow> ipc_port_t \<Rightarrow> space_id \<Rightarrow> mach_port_t \<Rightarrow> ipc_state option" where
  "ipc_port_delete_compat cfg st p sid name =
    (case ipc_right_lookup_write st sid name of
       (Inl kr, st) \<Rightarrow> Some (is_release st sid)
     | (Inr r, st) \<Rightarrow>
         let entry = get_entry st sid r; bits = ie_bits entry
         in if ie_object entry = p then do {
              (sright, st) \<leftarrow> ipc_space_make_notify st sid;
              st \<leftarrow> destroy_unhash st sid p name r bits;
              (kr, st) \<leftarrow> destroy_dead cfg st sid p name r bits;
              Some (is_release (if IO_VALID sright then emit st [Notify_port_deleted_compat sright name] else st) sid)
            } else Some (is_release st sid))"

text \<open>The backup port: \<open>False\<close> when the port was sent to it.\<close>

definition destroy_backup ::
    "nat \<Rightarrow> bool \<Rightarrow> (ipc_state \<Rightarrow> ipc_state) \<Rightarrow> ipc_state \<Rightarrow> ipc_port_t \<Rightarrow> (bool \<times> ipc_state) option" where
  "destroy_backup fuel try interim st p =
    (let pdrequest = ip_pdrequest (st_ports st p)
     in if pdrequest = IP_NULL then Some (True, st)
        else do {
          let st = upd_port st p (\<lambda>port. port\<lparr>ip_pdrequest := IP_NULL, ip_receiver_name := MACH_PORT_NULL, ip_receiver := IP_NULL\<rparr>);
          if ip_pdsendp pdrequest then do {
            let sright = ip_pdsend pdrequest;
            (circular, st) \<leftarrow> ipc_port_check_circularity fuel try interim st p sright;
            if \<not> circular then Some (False, emit st [Notify_port_destroyed_compat sright p])
            else map_option (Pair True) (ipc_port_release_send st sright)
          } else do {
            (circular, st) \<leftarrow> ipc_port_check_circularity fuel try interim st p pdrequest;
            Some (if \<not> circular then (False, emit st [Notify_port_destroyed pdrequest p])
                  else (True, ipc_port_release_sonce st pdrequest))
          }
        })"

fun destroy_messages :: "ipc_state \<Rightarrow> ipc_port_t \<Rightarrow> ipc_kmsg list \<Rightarrow> ipc_state" where
  "destroy_messages st p [] = st"
| "destroy_messages st p (kmsg # kmsgs) =
    destroy_messages
      (emit (ipc_port_release (upd_port st p (\<lambda>port. port\<lparr>ip_messages := (ip_messages port)\<lparr>imq_messages := kmsgs\<rparr>\<rparr>)) p)
        [Kmsg_destroy (kmsg\<lparr>msgh_remote_port := MACH_PORT_NULL\<rparr>)]) p kmsgs"

fun destroy_requests :: "ipc_config \<Rightarrow> ipc_state \<Rightarrow> ipc_port_t \<Rightarrow> ipc_port_request list \<Rightarrow> ipc_state option" where
  "destroy_requests cfg st p [] = Some st"
| "destroy_requests cfg st p (ipr # iprs) =
    (let name = ipr_name ipr; soright = ipr_soright ipr
     in if name = MACH_PORT_NULL then destroy_requests cfg st p iprs
        else if ipr_spacep soright then do {
          st \<leftarrow> ipc_port_delete_compat cfg st p (ipr_space soright) name;
          destroy_requests cfg st p iprs
        } else destroy_requests cfg (emit st [Notify_dead_name soright name]) p iprs)"

text \<open>The port dies: blocked senders are woken, the port becomes inactive and gets its time of death.\<close>

definition port_die :: "ipc_state \<Rightarrow> ipc_port_t \<Rightarrow> ipc_state" where
  "port_die st p =
    (let port = st_ports st p;
         (timestamp, st) = ipc_port_timestamp st;
         st = set_port st p (port\<lparr>ip_blocked := [], ip_bits := ip_bits port AND NOT IO_BITS_ACTIVE, ip_receiver := timestamp\<rparr>);
         st = emit st (map (\<lambda>th. Thread_go (th\<lparr>ith_state := MACH_MSG_SUCCESS\<rparr>)) (ip_blocked port))
     in if ip_nsrequest port \<noteq> IP_NULL then emit st [Notify_send_once (ip_nsrequest port)] else st)"

definition ipc_port_destroy ::
    "ipc_config \<Rightarrow> nat \<Rightarrow> bool \<Rightarrow> (ipc_state \<Rightarrow> ipc_state) \<Rightarrow> ipc_state \<Rightarrow> ipc_port_t \<Rightarrow> ipc_state option" where
  "ipc_port_destroy cfg fuel try interim st p =
    do {
      (go, st) \<leftarrow> destroy_backup fuel try interim st p;
      if \<not> go then Some st
      else do {
        let st = port_die st p;
        let st = destroy_messages st p (imq_messages (ip_messages (st_ports st p)));
        st \<leftarrow>
          (case ip_dnrequests (st_ports st p) of
             None \<Rightarrow> Some st
           | Some tab \<Rightarrow> destroy_requests cfg st p
               (drop 1 (take (ipc_table_dnrequests cfg ! ipr_size tab) (ipr_requests tab))));
        let st = (if ip_kotype (st_ports st p) \<noteq> 0 then emit st [Kobject_destroy p] else st);
        Some (ipc_port_release st p)
      }
    }"

definition ipc_port_release_receive ::
    "ipc_config \<Rightarrow> nat \<Rightarrow> bool \<Rightarrow> (ipc_state \<Rightarrow> ipc_state) \<Rightarrow> ipc_state \<Rightarrow> ipc_port_t \<Rightarrow> ipc_state option" where
  "ipc_port_release_receive cfg fuel try interim st p =
    do {
      let dest = ip_destination (st_ports st p);
      st \<leftarrow> ipc_port_destroy cfg fuel try interim st p;
      Some (if dest \<noteq> IP_NULL then ipc_port_release st dest else st)
    }"

definition ipc_port_dealloc_special ::
    "ipc_config \<Rightarrow> nat \<Rightarrow> bool \<Rightarrow> (ipc_state \<Rightarrow> ipc_state) \<Rightarrow> ipc_state \<Rightarrow> ipc_port_t \<Rightarrow> ipc_state option" where
  "ipc_port_dealloc_special cfg fuel try interim st p =
    ipc_port_destroy cfg fuel try interim
      (ipc_port_clear_receiver cfg (upd_port st p (\<lambda>port. port\<lparr>ip_receiver_name := MACH_PORT_NULL, ip_receiver := 0\<rparr>)) p) p"

section \<open>Destroying rights\<close>

text \<open>
  The rights of an entry of a live port are given up: the send right, then the receive
  right, the send-once right or the reference.  The same in \<^verbatim>\<open>ipc_right_clean\<close> and
  \<^verbatim>\<open>ipc_right_destroy\<close>.
\<close>

definition destroy_rights ::
    "ipc_config \<Rightarrow> nat \<Rightarrow> bool \<Rightarrow> (ipc_state \<Rightarrow> ipc_state) \<Rightarrow> ipc_state \<Rightarrow> ipc_port_t \<Rightarrow> mach_port_t \<Rightarrow> 32 word \<Rightarrow>
     ipc_port_t \<Rightarrow> ipc_state option" where
  "destroy_rights cfg fuel try interim st p name type dnrequest =
    do {
      let (es, st) = (if has type MACH_PORT_TYPE_SEND then port_drop_send st p else ([], st));
      st \<leftarrow>
        (if has type MACH_PORT_TYPE_RECEIVE
         then ipc_port_destroy cfg fuel try interim (ipc_port_clear_receiver cfg st p) p
         else if has type MACH_PORT_TYPE_SEND_ONCE then Some (emit st [Notify_send_once p])
         else Some (ip_release st p));
      Some (emit st (es @ port_deleted dnrequest name))
    }"

definition port_type :: "32 word \<Rightarrow> bool" where
  "port_type type \<longleftrightarrow> type \<in> {MACH_PORT_TYPE_SEND, MACH_PORT_TYPE_RECEIVE, MACH_PORT_TYPE_SEND_RECEIVE, MACH_PORT_TYPE_SEND_ONCE}"

definition ipc_right_clean ::
    "ipc_config \<Rightarrow> nat \<Rightarrow> bool \<Rightarrow> (ipc_state \<Rightarrow> ipc_state) \<Rightarrow> ipc_state \<Rightarrow> space_id \<Rightarrow> mach_port_t \<Rightarrow> entry_ref \<Rightarrow> ipc_state option" where
  "ipc_right_clean cfg fuel try interim st sid name r =
    (let entry = get_entry st sid r; type = IE_BITS_TYPE (ie_bits entry); p = ie_object entry
     in if type = MACH_PORT_TYPE_DEAD_NAME then Some st
        else if type = MACH_PORT_TYPE_PORT_SET then Some (ipc_pset_destroy st p)
        else if port_type type then
          (if \<not> ip_active (st_ports st p) then Some (ipc_port_release st p)
           else case ipc_right_dncancel_macro st sid p name r of
                  (dnrequest, st) \<Rightarrow> destroy_rights cfg fuel try interim st p name type dnrequest)
        else None)"

definition ipc_right_destroy ::
    "ipc_config \<Rightarrow> nat \<Rightarrow> bool \<Rightarrow> (ipc_state \<Rightarrow> ipc_state) \<Rightarrow> ipc_state \<Rightarrow> space_id \<Rightarrow> mach_port_t \<Rightarrow> entry_ref \<Rightarrow>
     (kern_return_t \<times> ipc_state) option" where
  "ipc_right_destroy cfg fuel try interim st sid name r =
    (let entry = get_entry st sid r; bits = ie_bits entry; type = IE_BITS_TYPE bits; p = ie_object entry
     in if type = MACH_PORT_TYPE_DEAD_NAME then map_option (Pair KERN_SUCCESS) (entry_dealloc cfg st sid name r)
        else if type = MACH_PORT_TYPE_PORT_SET then do {
          st \<leftarrow> entry_dealloc cfg (upd_entry st sid r (\<lambda>e. e\<lparr>ie_object := IO_NULL\<rparr>)) sid name r;
          Some (KERN_SUCCESS, ipc_pset_destroy st p)
        }
        else if port_type type then do {
          st \<leftarrow> destroy_unhash st sid p name r bits;
          if \<not> ip_active (st_ports st p) then destroy_dead cfg st sid p name r bits
          else do {
            let (dnrequest, st) = ipc_right_dncancel_macro st sid p name r;
            st \<leftarrow> entry_dealloc cfg (upd_entry st sid r (\<lambda>e. e\<lparr>ie_object := IO_NULL\<rparr>)) sid name r;
            st \<leftarrow> destroy_rights cfg fuel try interim st p name type dnrequest;
            Some (KERN_SUCCESS, st)
          }
        }
        else None)"

section \<open>Changing a count of user references\<close>

datatype mach_port_right =
    MACH_PORT_RIGHT_SEND
  | MACH_PORT_RIGHT_RECEIVE
  | MACH_PORT_RIGHT_SEND_ONCE
  | MACH_PORT_RIGHT_PORT_SET
  | MACH_PORT_RIGHT_DEAD_NAME

definition delta_pset ::
    "ipc_config \<Rightarrow> ipc_state \<Rightarrow> space_id \<Rightarrow> mach_port_t \<Rightarrow> entry_ref \<Rightarrow> 32 word \<Rightarrow> (kern_return_t \<times> ipc_state) option" where
  "delta_pset cfg st sid name r delta =
    (let entry = get_entry st sid r
     in if \<not> has (ie_bits entry) MACH_PORT_TYPE_PORT_SET then Some (KERN_INVALID_RIGHT, st)
        else if delta = 0 then Some (KERN_SUCCESS, st)
        else if delta \<noteq> - 1 then Some (KERN_INVALID_VALUE, st)
        else do {
          st \<leftarrow> entry_dealloc cfg (upd_entry st sid r (\<lambda>e. e\<lparr>ie_object := IO_NULL\<rparr>)) sid name r;
          Some (KERN_SUCCESS, ipc_pset_destroy st (ie_object entry))
        })"

text \<open>What becomes of the entry when its receive right goes, and the dead-name request it had.\<close>

definition delta_receive_entry ::
    "ipc_config \<Rightarrow> ipc_state \<Rightarrow> space_id \<Rightarrow> ipc_port_t \<Rightarrow> mach_port_t \<Rightarrow> entry_ref \<Rightarrow> ipc_entry_bits_t \<Rightarrow>
     (ipc_port_t \<times> ipc_state) option" where
  "delta_receive_entry cfg st sid p name r bits =
    (if \<not> has bits IE_BITS_COMPAT \<and> has bits MACH_PORT_TYPE_SEND then do {
       let bits = (bits AND NOT IE_BITS_TYPE_MASK) OR MACH_PORT_TYPE_DEAD_NAME;
       let bits = (if ie_request (get_entry st sid r) \<noteq> 0 then bits + 1 else bits);
       Some (IP_NULL, upd_entry st sid r (\<lambda>e. e\<lparr>ie_request := 0, ie_bits := bits, ie_object := IO_NULL\<rparr>))
     } else do {
       let (dnrequest, st) =
         (if has bits IE_BITS_COMPAT then ipc_right_dncancel st sid p name r
          else ipc_right_dncancel_macro st sid p name r);
       st \<leftarrow> entry_dealloc cfg (upd_entry st sid r (\<lambda>e. e\<lparr>ie_object := IO_NULL\<rparr>)) sid name r;
       Some (dnrequest, st)
     })"

definition delta_receive ::
    "ipc_config \<Rightarrow> nat \<Rightarrow> bool \<Rightarrow> (ipc_state \<Rightarrow> ipc_state) \<Rightarrow> ipc_state \<Rightarrow> space_id \<Rightarrow> mach_port_t \<Rightarrow> entry_ref \<Rightarrow> 32 word \<Rightarrow>
     (kern_return_t \<times> ipc_state) option" where
  "delta_receive cfg fuel try interim st sid name r delta =
    (let entry = get_entry st sid r; bits = ie_bits entry; p = ie_object entry
     in if \<not> has bits MACH_PORT_TYPE_RECEIVE then Some (KERN_INVALID_RIGHT, st)
        else if delta = 0 then Some (KERN_SUCCESS, st)
        else if delta \<noteq> - 1 then Some (KERN_INVALID_VALUE, st)
        else do {
          st \<leftarrow> cancel_marequest st bits sid name;
          (dnrequest, st) \<leftarrow> delta_receive_entry cfg st sid p name r (bits AND NOT IE_BITS_MAREQUEST);
          st \<leftarrow> ipc_port_destroy cfg fuel try interim (ipc_port_clear_receiver cfg st p) p;
          Some (KERN_SUCCESS, emit st (port_deleted dnrequest name))
        })"

definition delta_send_once ::
    "ipc_config \<Rightarrow> ipc_state \<Rightarrow> space_id \<Rightarrow> mach_port_t \<Rightarrow> entry_ref \<Rightarrow> 32 word \<Rightarrow> (kern_return_t \<times> ipc_state) option" where
  "delta_send_once cfg st sid name r delta =
    (let entry = get_entry st sid r; bits = ie_bits entry; p = ie_object entry
     in if \<not> has bits MACH_PORT_TYPE_SEND_ONCE then Some (KERN_INVALID_RIGHT, st)
        else do {
          (dead, st) \<leftarrow> ipc_right_check cfg st sid p name r;
          if dead then Some (if has bits IE_BITS_COMPAT then KERN_INVALID_NAME else KERN_INVALID_RIGHT, st)
          else if sint delta > 0 \<or> sint delta < - 1 then Some (KERN_INVALID_VALUE, st)
          else if delta = 0 then Some (KERN_SUCCESS, st)
          else dealloc_send_once cfg st sid p name r
        })"

definition dead_name_delta ::
    "ipc_config \<Rightarrow> ipc_state \<Rightarrow> space_id \<Rightarrow> mach_port_t \<Rightarrow> entry_ref \<Rightarrow> ipc_entry_bits_t \<Rightarrow> 32 word \<Rightarrow>
     (kern_return_t \<times> ipc_state) option" where
  "dead_name_delta cfg st sid name r bits delta =
    (let urefs = IE_BITS_UREFS bits
     in if MACH_PORT_UREFS_UNDERFLOW urefs delta then Some (KERN_INVALID_VALUE, st)
        else if MACH_PORT_UREFS_OVERFLOW urefs delta then Some (KERN_UREFS_OVERFLOW, st)
        else if urefs + delta = 0 then map_option (Pair KERN_SUCCESS) (entry_dealloc cfg st sid name r)
        else Some (KERN_SUCCESS, upd_entry st sid r (\<lambda>e. e\<lparr>ie_bits := bits + delta\<rparr>)))"

definition delta_dead_name ::
    "ipc_config \<Rightarrow> ipc_state \<Rightarrow> space_id \<Rightarrow> mach_port_t \<Rightarrow> entry_ref \<Rightarrow> 32 word \<Rightarrow> (kern_return_t \<times> ipc_state) option" where
  "delta_dead_name cfg st sid name r delta =
    (let entry = get_entry st sid r; bits = ie_bits entry; p = ie_object entry
     in if has bits MACH_PORT_TYPE_SEND_RIGHTS then do {
          (dead, st) \<leftarrow> ipc_right_check cfg st sid p name r;
          if \<not> dead then Some (KERN_INVALID_RIGHT, st)
          else if has bits IE_BITS_COMPAT then Some (KERN_INVALID_NAME, st)
          else dead_name_delta cfg st sid name r (ie_bits (get_entry st sid r)) delta
        }
        else if \<not> has bits MACH_PORT_TYPE_DEAD_NAME then Some (KERN_INVALID_RIGHT, st)
        else dead_name_delta cfg st sid name r bits delta)"

definition delta_send ::
    "ipc_config \<Rightarrow> ipc_state \<Rightarrow> space_id \<Rightarrow> mach_port_t \<Rightarrow> entry_ref \<Rightarrow> 32 word \<Rightarrow> (kern_return_t \<times> ipc_state) option" where
  "delta_send cfg st sid name r delta =
    (let entry = get_entry st sid r; bits = ie_bits entry; p = ie_object entry; urefs = IE_BITS_UREFS bits
     in if \<not> has bits MACH_PORT_TYPE_SEND then Some (KERN_INVALID_RIGHT, st)
        else do {
          (dead, st) \<leftarrow> ipc_right_check cfg st sid p name r;
          if dead then Some (if has bits IE_BITS_COMPAT then KERN_INVALID_NAME else KERN_INVALID_RIGHT, st)
          else if MACH_PORT_UREFS_UNDERFLOW urefs delta then Some (KERN_INVALID_VALUE, st)
          else if MACH_PORT_UREFS_OVERFLOW (urefs + 1) delta then Some (KERN_UREFS_OVERFLOW, st)
          else if urefs + delta = 0 then
            (if has bits MACH_PORT_TYPE_RECEIVE then
               case port_drop_send st p of (es, st) \<Rightarrow>
                 Some (KERN_SUCCESS, emit (upd_entry st sid r
                   (\<lambda>e. e\<lparr>ie_bits := bits AND NOT (IE_BITS_UREFS_MASK OR MACH_PORT_TYPE_SEND)\<rparr>)) es)
             else dealloc_last_send cfg st sid p name r bits)
          else Some (KERN_SUCCESS, upd_entry st sid r (\<lambda>e. e\<lparr>ie_bits := bits + delta\<rparr>))
        })"

fun ipc_right_delta ::
    "ipc_config \<Rightarrow> nat \<Rightarrow> bool \<Rightarrow> (ipc_state \<Rightarrow> ipc_state) \<Rightarrow> ipc_state \<Rightarrow> space_id \<Rightarrow> mach_port_t \<Rightarrow> entry_ref \<Rightarrow>
     mach_port_right \<Rightarrow> 32 word \<Rightarrow> (kern_return_t \<times> ipc_state) option" where
  "ipc_right_delta cfg fuel try interim st sid name r MACH_PORT_RIGHT_PORT_SET delta = delta_pset cfg st sid name r delta"
| "ipc_right_delta cfg fuel try interim st sid name r MACH_PORT_RIGHT_RECEIVE delta =
    delta_receive cfg fuel try interim st sid name r delta"
| "ipc_right_delta cfg fuel try interim st sid name r MACH_PORT_RIGHT_SEND_ONCE delta = delta_send_once cfg st sid name r delta"
| "ipc_right_delta cfg fuel try interim st sid name r MACH_PORT_RIGHT_DEAD_NAME delta = delta_dead_name cfg st sid name r delta"
| "ipc_right_delta cfg fuel try interim st sid name r MACH_PORT_RIGHT_SEND delta = delta_send cfg st sid name r delta"

end
