(* ===== verification/Ipc_Object.thy ===== *)
theory Ipc_Object
  imports Ipc_Destroy
begin

text \<open>
  Objects and the spaces they are named in, \<^verbatim>\<open>src/kernel/ipc/ipc_object.c\<close>, with the
  allocation of ports and port sets on top of it.  These operations take the lock of the space
  themselves and put together what the theories of entries and rights have.

  A schedule is that of \<open>ipc_entry_alloc\<close>: what happens to the space while its lock is
  released.  \<open>object\<close> is the address that \<^verbatim>\<open>io_alloc\<close> returns.
\<close>

section \<open>Allocating\<close>

type_synonym 'a object_result = "((kern_return_t + 'a) \<times> schedule \<times> ipc_state) option"

definition entry_alloc :: "ipc_config \<Rightarrow> schedule \<Rightarrow> ipc_state \<Rightarrow> space_id \<Rightarrow> (mach_port_t \<times> entry_ref) object_result" where
  "entry_alloc cfg sched st sid =
    map_option (\<lambda>(ret, sched, w). (ret, sched, set_world st sid w))
      (ipc_entry_alloc (ipc_table_entries cfg) sid sched (st_hash st, st_spaces st sid))"

definition entry_alloc_name ::
    "ipc_config \<Rightarrow> schedule \<Rightarrow> ipc_state \<Rightarrow> space_id \<Rightarrow> mach_port_t \<Rightarrow> entry_ref object_result" where
  "entry_alloc_name cfg sched st sid name =
    map_option (\<lambda>(ret, sched, w). (ret, sched, set_world st sid w))
      (ipc_entry_alloc_name (ipc_table_entries cfg) sid False sched (st_hash st, st_spaces st sid) name)"

primrec MACH_PORT_TYPE :: "mach_port_right \<Rightarrow> 32 word" where
  "MACH_PORT_TYPE MACH_PORT_RIGHT_SEND = MACH_PORT_TYPE_SEND"
| "MACH_PORT_TYPE MACH_PORT_RIGHT_RECEIVE = MACH_PORT_TYPE_RECEIVE"
| "MACH_PORT_TYPE MACH_PORT_RIGHT_SEND_ONCE = MACH_PORT_TYPE_SEND_ONCE"
| "MACH_PORT_TYPE MACH_PORT_RIGHT_PORT_SET = MACH_PORT_TYPE_PORT_SET"
| "MACH_PORT_TYPE MACH_PORT_RIGHT_DEAD_NAME = MACH_PORT_TYPE_DEAD_NAME"

definition ipc_object_translate ::
    "ipc_state \<Rightarrow> space_id \<Rightarrow> mach_port_t \<Rightarrow> mach_port_right \<Rightarrow> (kern_return_t + ipc_object_t) \<times> ipc_state" where
  "ipc_object_translate st sid name right =
    (case ipc_right_lookup_write st sid name of
       (Inl kr, st) \<Rightarrow> (Inl kr, st)
     | (Inr r, st) \<Rightarrow>
         let entry = get_entry st sid r
         in if \<not> has (ie_bits entry) (MACH_PORT_TYPE right) then (Inl KERN_INVALID_RIGHT, st)
            else (Inr (ie_object entry), st))"

definition add_bits :: "ipc_state \<Rightarrow> space_id \<Rightarrow> entry_ref \<Rightarrow> 32 word \<Rightarrow> ipc_state" where
  "add_bits st sid r m = upd_entry st sid r (\<lambda>e. e\<lparr>ie_bits := ie_bits e OR m\<rparr>)"

definition ipc_object_alloc_dead :: "ipc_config \<Rightarrow> schedule \<Rightarrow> ipc_state \<Rightarrow> space_id \<Rightarrow> mach_port_t object_result" where
  "ipc_object_alloc_dead cfg sched st sid =
    do {
      (ret, sched, st) \<leftarrow> entry_alloc cfg sched st sid;
      case ret of
        Inl kr \<Rightarrow> Some (Inl kr, sched, st)
      | Inr (name, r) \<Rightarrow> Some (Inr name, sched, add_bits st sid r (MACH_PORT_TYPE_DEAD_NAME OR 1))
    }"

definition ipc_object_alloc_dead_name ::
    "ipc_config \<Rightarrow> schedule \<Rightarrow> ipc_state \<Rightarrow> space_id \<Rightarrow> mach_port_t \<Rightarrow> unit object_result" where
  "ipc_object_alloc_dead_name cfg sched st sid name =
    do {
      (ret, sched, st) \<leftarrow> entry_alloc_name cfg sched st sid name;
      case ret of
        Inl kr \<Rightarrow> Some (Inl kr, sched, st)
      | Inr r \<Rightarrow> do {
          (inuse, st) \<leftarrow> ipc_right_inuse st sid name r;
          if inuse then Some (Inl KERN_NAME_EXISTS, sched, st)
          else Some (Inr (), sched, add_bits st sid r (MACH_PORT_TYPE_DEAD_NAME OR 1))
        }
    }"

text \<open>A new object of the type \<open>otype\<close> has one reference, for the entry.\<close>

definition new_object :: "ipc_state \<Rightarrow> ipc_object_t \<Rightarrow> 32 word \<Rightarrow> ipc_state" where
  "new_object st obj otype =
    (if otype = IOT_PORT_SET
     then set_pset st obj ((st_psets st obj)\<lparr>ips_references := 1, ips_bits := io_makebits True otype 0\<rparr>)
     else upd_port st obj (\<lambda>port. port\<lparr>ip_references := 1, ip_bits := io_makebits True otype 0\<rparr>))"

definition fill_entry :: "ipc_state \<Rightarrow> space_id \<Rightarrow> entry_ref \<Rightarrow> 32 word \<Rightarrow> ipc_object_t \<Rightarrow> ipc_state" where
  "fill_entry st sid r m obj = upd_entry st sid r (\<lambda>e. e\<lparr>ie_bits := ie_bits e OR m, ie_object := obj\<rparr>)"

definition ipc_object_alloc ::
    "ipc_config \<Rightarrow> schedule \<Rightarrow> ipc_object_t \<Rightarrow> ipc_state \<Rightarrow> space_id \<Rightarrow> 32 word \<Rightarrow> 32 word \<Rightarrow> 32 word \<Rightarrow>
     (mach_port_t \<times> ipc_object_t) object_result" where
  "ipc_object_alloc cfg sched object st sid otype type urefs =
    (if object = IO_NULL then Some (Inl KERN_RESOURCE_SHORTAGE, sched, st)
     else do {
       (ret, sched, st) \<leftarrow> entry_alloc cfg sched st sid;
       case ret of
         Inl kr \<Rightarrow> Some (Inl kr, sched, st)
       | Inr (name, r) \<Rightarrow>
           Some (Inr (name, object), sched, new_object (fill_entry st sid r (type OR urefs) object) object otype)
     })"

definition ipc_object_alloc_name ::
    "ipc_config \<Rightarrow> schedule \<Rightarrow> ipc_object_t \<Rightarrow> ipc_state \<Rightarrow> space_id \<Rightarrow> 32 word \<Rightarrow> 32 word \<Rightarrow> 32 word \<Rightarrow> mach_port_t \<Rightarrow>
     ipc_object_t object_result" where
  "ipc_object_alloc_name cfg sched object st sid otype type urefs name =
    (if object = IO_NULL then Some (Inl KERN_RESOURCE_SHORTAGE, sched, st)
     else do {
       (ret, sched, st) \<leftarrow> entry_alloc_name cfg sched st sid name;
       case ret of
         Inl kr \<Rightarrow> Some (Inl kr, sched, st)
       | Inr r \<Rightarrow> do {
           (inuse, st) \<leftarrow> ipc_right_inuse st sid name r;
           if inuse then Some (Inl KERN_NAME_EXISTS, sched, st)
           else Some (Inr object, sched, new_object (fill_entry st sid r (type OR urefs) object) object otype)
         }
     })"

section \<open>Ports and port sets\<close>

definition ipc_port_alloc ::
    "ipc_config \<Rightarrow> schedule \<Rightarrow> ipc_object_t \<Rightarrow> ipc_state \<Rightarrow> space_id \<Rightarrow> (mach_port_t \<times> ipc_port_t) object_result" where
  "ipc_port_alloc cfg sched object st sid =
    do {
      (ret, sched, st) \<leftarrow> ipc_object_alloc cfg sched object st sid IOT_PORT MACH_PORT_TYPE_RECEIVE 0;
      case ret of
        Inl kr \<Rightarrow> Some (Inl kr, sched, st)
      | Inr (name, p) \<Rightarrow> Some (Inr (name, p), sched, upd_port st p (\<lambda>port. ipc_port_init port sid name))
    }"

definition ipc_port_alloc_name ::
    "ipc_config \<Rightarrow> schedule \<Rightarrow> ipc_object_t \<Rightarrow> ipc_state \<Rightarrow> space_id \<Rightarrow> mach_port_t \<Rightarrow> ipc_port_t object_result" where
  "ipc_port_alloc_name cfg sched object st sid name =
    do {
      (ret, sched, st) \<leftarrow> ipc_object_alloc_name cfg sched object st sid IOT_PORT MACH_PORT_TYPE_RECEIVE 0 name;
      case ret of
        Inl kr \<Rightarrow> Some (Inl kr, sched, st)
      | Inr p \<Rightarrow> Some (Inr p, sched, upd_port st p (\<lambda>port. ipc_port_init port sid name))
    }"

definition pset_init :: "ipc_state \<Rightarrow> ipc_pset_t \<Rightarrow> mach_port_t \<Rightarrow> ipc_state" where
  "pset_init st ps name = set_pset st ps ((st_psets st ps)\<lparr>ips_local_name := name, ips_messages := ipc_mqueue_init\<rparr>)"

definition ipc_pset_alloc ::
    "ipc_config \<Rightarrow> schedule \<Rightarrow> ipc_object_t \<Rightarrow> ipc_state \<Rightarrow> space_id \<Rightarrow> (mach_port_t \<times> ipc_pset_t) object_result" where
  "ipc_pset_alloc cfg sched object st sid =
    do {
      (ret, sched, st) \<leftarrow> ipc_object_alloc cfg sched object st sid IOT_PORT_SET MACH_PORT_TYPE_PORT_SET 0;
      case ret of
        Inl kr \<Rightarrow> Some (Inl kr, sched, st)
      | Inr (name, ps) \<Rightarrow> Some (Inr (name, ps), sched, pset_init st ps name)
    }"

definition ipc_pset_alloc_name ::
    "ipc_config \<Rightarrow> schedule \<Rightarrow> ipc_object_t \<Rightarrow> ipc_state \<Rightarrow> space_id \<Rightarrow> mach_port_t \<Rightarrow> ipc_pset_t object_result" where
  "ipc_pset_alloc_name cfg sched object st sid name =
    do {
      (ret, sched, st) \<leftarrow> ipc_object_alloc_name cfg sched object st sid IOT_PORT_SET MACH_PORT_TYPE_PORT_SET 0 name;
      case ret of
        Inl kr \<Rightarrow> Some (Inl kr, sched, st)
      | Inr ps \<Rightarrow> Some (Inr ps, sched, pset_init st ps name)
    }"

section \<open>Copying in\<close>

fun ipc_object_copyin_type :: "mach_msg_type_name \<Rightarrow> mach_msg_type_name" where
  "ipc_object_copyin_type MACH_MSG_TYPE_MOVE_RECEIVE = MACH_MSG_TYPE_PORT_RECEIVE"
| "ipc_object_copyin_type MACH_MSG_TYPE_MOVE_SEND_ONCE = MACH_MSG_TYPE_PORT_SEND_ONCE"
| "ipc_object_copyin_type MACH_MSG_TYPE_MAKE_SEND_ONCE = MACH_MSG_TYPE_PORT_SEND_ONCE"
| "ipc_object_copyin_type MACH_MSG_TYPE_MOVE_SEND = MACH_MSG_TYPE_PORT_SEND"
| "ipc_object_copyin_type MACH_MSG_TYPE_MAKE_SEND = MACH_MSG_TYPE_PORT_SEND"
| "ipc_object_copyin_type MACH_MSG_TYPE_COPY_SEND = MACH_MSG_TYPE_PORT_SEND"

definition ipc_object_copyin ::
    "ipc_config \<Rightarrow> ipc_state \<Rightarrow> space_id \<Rightarrow> mach_port_t \<Rightarrow> mach_msg_type_name \<Rightarrow>
     ((kern_return_t + ipc_object_t) \<times> ipc_state) option" where
  "ipc_object_copyin cfg st sid name msgt =
    (case ipc_right_lookup_write st sid name of
       (Inl kr, st) \<Rightarrow> Some (Inl kr, st)
     | (Inr r, st) \<Rightarrow> do {
         (ret, st) \<leftarrow> ipc_right_copyin cfg st sid name r msgt True;
         st \<leftarrow> (if IE_BITS_TYPE (ie_bits (get_entry st sid r)) = MACH_PORT_TYPE_NONE
                then entry_dealloc cfg st sid name r else Some st);
         case ret of
           Inl kr \<Rightarrow> Some (Inl kr, st)
         | Inr (obj, soright) \<Rightarrow> Some (Inr obj, emit st (port_deleted soright name))
       })"

definition ipc_object_copyin_from_kernel :: "ipc_state \<Rightarrow> ipc_object_t \<Rightarrow> mach_msg_type_name \<Rightarrow> ipc_state" where
  "ipc_object_copyin_from_kernel st p msgt =
    (case msgt of
       MACH_MSG_TYPE_MOVE_RECEIVE \<Rightarrow>
         upd_port st p (\<lambda>port. port\<lparr>ip_mscount := 0, ip_receiver_name := MACH_PORT_NULL, ip_receiver := IP_NULL\<rparr>)
     | MACH_MSG_TYPE_COPY_SEND \<Rightarrow>
         upd_port st p (\<lambda>port. port\<lparr>ip_srights := (if ip_active port then ip_srights port + 1 else ip_srights port),
           ip_references := ip_references port + 1\<rparr>)
     | MACH_MSG_TYPE_MAKE_SEND \<Rightarrow> make_send st p
     | MACH_MSG_TYPE_MAKE_SEND_ONCE \<Rightarrow>
         upd_port st p (\<lambda>port. port\<lparr>ip_references := ip_references port + 1, ip_sorights := ip_sorights port + 1\<rparr>)
     | MACH_MSG_TYPE_MOVE_SEND \<Rightarrow> st
     | MACH_MSG_TYPE_MOVE_SEND_ONCE \<Rightarrow> st)"

definition ipc_object_destroy ::
    "ipc_config \<Rightarrow> nat \<Rightarrow> bool \<Rightarrow> (ipc_state \<Rightarrow> ipc_state) \<Rightarrow> ipc_state \<Rightarrow> ipc_object_t \<Rightarrow> mach_msg_type_name \<Rightarrow> ipc_state option" where
  "ipc_object_destroy cfg fuel try interim st p msgt =
    (case msgt of
       MACH_MSG_TYPE_MOVE_SEND \<Rightarrow> ipc_port_release_send st p
     | MACH_MSG_TYPE_MOVE_SEND_ONCE \<Rightarrow> Some (emit st [Notify_send_once p])
     | MACH_MSG_TYPE_MOVE_RECEIVE \<Rightarrow> ipc_port_release_receive cfg fuel try interim st p
     | _ \<Rightarrow> None)"

section \<open>Copying out\<close>

text \<open>
  The entry that gets the capability: one the space has already, or a new one.  \<open>Inl\<close> is an
  early return.
\<close>

function copyout_entry ::
    "ipc_config \<Rightarrow> schedule \<Rightarrow> ipc_state \<Rightarrow> space_id \<Rightarrow> ipc_object_t \<Rightarrow> mach_msg_type_name \<Rightarrow>
     (mach_port_t \<times> entry_ref) object_result" where
  "copyout_entry cfg sched st sid p msgt =
    (if \<not> is_active (st_spaces st sid) then Some (Inl KERN_INVALID_TASK, sched, st)
     else do {
       (found, st) \<leftarrow> (if msgt \<noteq> MACH_MSG_TYPE_PORT_SEND_ONCE then ipc_right_reverse st sid p else Some (None, st));
       case found of
         Some (name, r) \<Rightarrow> Some (Inr (name, r), sched, st)
       | None \<Rightarrow>
           (case ipc_entry_get (st_spaces st sid) of
              Inl _ \<Rightarrow>
                (case ipc_entry_grow_table (ipc_table_entries cfg) sid None sched (st_hash st, st_spaces st sid) of
                   None \<Rightarrow> None
                 | Some (kr, sched', w) \<Rightarrow>
                     if kr \<noteq> KERN_SUCCESS then Some (Inl kr, sched', set_world st sid w)
                     else if length sched' < length sched then copyout_entry cfg sched' (set_world st sid w) sid p msgt
                     else None)
            | Inr (name, r, space) \<Rightarrow> do {
                let st = set_space st sid space;
                if \<not> ip_active (st_ports st p)
                then map_option (\<lambda>st. (Inl KERN_INVALID_CAPABILITY, sched, st)) (entry_dealloc cfg st sid name r)
                else Some (Inr (name, r), sched, upd_entry st sid r (\<lambda>e. e\<lparr>ie_object := p\<rparr>))
              })
     })"
  by pat_completeness auto
termination
  by (relation "measure (\<lambda>(cfg, sched, st, sid, p, msgt). length sched)") auto

definition ipc_object_copyout ::
    "ipc_config \<Rightarrow> schedule \<Rightarrow> ipc_state \<Rightarrow> space_id \<Rightarrow> ipc_object_t \<Rightarrow> mach_msg_type_name \<Rightarrow> bool \<Rightarrow> mach_port_t object_result" where
  "ipc_object_copyout cfg sched st sid p msgt overflow =
    do {
      (ret, sched, st) \<leftarrow> copyout_entry cfg sched st sid p msgt;
      case ret of
        Inl kr \<Rightarrow> Some (Inl kr, sched, st)
      | Inr (name, r) \<Rightarrow> do {
          (kr, st) \<leftarrow> ipc_right_copyout st sid name r msgt overflow p;
          Some (if kr = KERN_SUCCESS then Inr name else Inl kr, sched, st)
        }
    }"

definition ipc_object_copyout_name ::
    "ipc_config \<Rightarrow> schedule \<Rightarrow> ipc_state \<Rightarrow> space_id \<Rightarrow> ipc_object_t \<Rightarrow> mach_msg_type_name \<Rightarrow> bool \<Rightarrow> mach_port_t \<Rightarrow>
     (kern_return_t \<times> schedule \<times> ipc_state) option" where
  "ipc_object_copyout_name cfg sched st sid p msgt overflow name =
    do {
      (ret, sched, st) \<leftarrow> entry_alloc_name cfg sched st sid name;
      case ret of
        Inl kr \<Rightarrow> Some (kr, sched, st)
      | Inr r \<Rightarrow> do {
          (found, st) \<leftarrow> (if msgt \<noteq> MACH_MSG_TYPE_PORT_SEND_ONCE then ipc_right_reverse st sid p else Some (None, st));
          case found of
            Some (oname, oref) \<Rightarrow>
              if name \<noteq> oname then
                map_option (\<lambda>st. (KERN_RIGHT_EXISTS, sched, st))
                  (if IE_BITS_TYPE (ie_bits (get_entry st sid r)) = MACH_PORT_TYPE_NONE
                   then entry_dealloc cfg st sid name r else Some st)
              else map_option (\<lambda>(kr, st). (kr, sched, st)) (ipc_right_copyout st sid name r msgt overflow p)
          | None \<Rightarrow> do {
              (inuse, st) \<leftarrow> ipc_right_inuse st sid name r;
              if inuse then Some (KERN_NAME_EXISTS, sched, st)
              else if \<not> ip_active (st_ports st p)
              then map_option (\<lambda>st. (KERN_INVALID_CAPABILITY, sched, st)) (entry_dealloc cfg st sid name r)
              else map_option (\<lambda>(kr, st). (kr, sched, st))
                     (ipc_right_copyout (upd_entry st sid r (\<lambda>e. e\<lparr>ie_object := p\<rparr>)) sid name r msgt overflow p)
            }
        }
    }"

definition ipc_object_copyout_dest ::
    "ipc_state \<Rightarrow> space_id \<Rightarrow> ipc_object_t \<Rightarrow> mach_msg_type_name \<Rightarrow> (mach_port_t \<times> ipc_state) option" where
  "ipc_object_copyout_dest st sid p msgt =
    (let st = ip_release st p; mine = (ip_receiver (st_ports st p) = sid);
         name = (if mine then ip_receiver_name (st_ports st p) else MACH_PORT_NULL)
     in case msgt of
          MACH_MSG_TYPE_MOVE_SEND \<Rightarrow>
            (case port_drop_send st p of (es, st) \<Rightarrow> Some (name, emit st es))
        | MACH_MSG_TYPE_MOVE_SEND_ONCE \<Rightarrow>
            Some (name, if mine then upd_port st p (\<lambda>port. port\<lparr>ip_sorights := ip_sorights port - 1\<rparr>)
                        else emit (ip_reference st p) [Notify_send_once p])
        | _ \<Rightarrow> None)"

section \<open>Renaming\<close>

definition ipc_object_rename ::
    "ipc_config \<Rightarrow> schedule \<Rightarrow> ipc_state \<Rightarrow> space_id \<Rightarrow> mach_port_t \<Rightarrow> mach_port_t \<Rightarrow>
     (kern_return_t \<times> schedule \<times> ipc_state) option" where
  "ipc_object_rename cfg sched st sid oname nname =
    do {
      (ret, sched, st) \<leftarrow> entry_alloc_name cfg sched st sid nname;
      case ret of
        Inl kr \<Rightarrow> Some (kr, sched, st)
      | Inr nref \<Rightarrow> do {
          (inuse, st) \<leftarrow> ipc_right_inuse st sid nname nref;
          if inuse then Some (KERN_NAME_EXISTS, sched, st)
          else do {
            let (found, st) =
              (if oname = nname then (None, st)
               else case ipc_entry_lookup (st_spaces st sid) oname of (found, space) \<Rightarrow> (found, set_space st sid space));
            case found of
              None \<Rightarrow> map_option (\<lambda>st. (KERN_INVALID_NAME, sched, st)) (entry_dealloc cfg st sid nname nref)
            | Some oref \<Rightarrow>
                map_option (\<lambda>(kr, st). (kr, sched, st)) (ipc_right_rename cfg st sid oname oref nname nref)
          }
        }
    }"

definition ipc_port_copyout_send ::
    "ipc_config \<Rightarrow> schedule \<Rightarrow> ipc_state \<Rightarrow> ipc_port_t \<Rightarrow> space_id \<Rightarrow> (mach_port_t \<times> schedule \<times> ipc_state) option" where
  "ipc_port_copyout_send cfg sched st sright sid =
    (if IO_VALID sright then do {
       (ret, sched, st) \<leftarrow> ipc_object_copyout cfg sched st sid sright MACH_MSG_TYPE_PORT_SEND True;
       case ret of
         Inr name \<Rightarrow> Some (name, sched, st)
       | Inl kr \<Rightarrow> map_option (\<lambda>st. (if kr = KERN_INVALID_CAPABILITY then MACH_PORT_DEAD else MACH_PORT_NULL, sched, st))
                     (ipc_port_release_send st sright)
     } else Some (sright, sched, st))"

section \<open>The old message format\<close>

definition ipc_object_copyin_compat ::
    "ipc_config \<Rightarrow> ipc_state \<Rightarrow> space_id \<Rightarrow> mach_port_t \<Rightarrow> bool \<Rightarrow> bool \<Rightarrow> ((kern_return_t + ipc_object_t) \<times> ipc_state) option" where
  "ipc_object_copyin_compat cfg st sid name port_all dealloc =
    (case ipc_right_lookup_write st sid name of
       (Inl kr, st) \<Rightarrow> Some (Inl kr, st)
     | (Inr r, st) \<Rightarrow> ipc_right_copyin_compat cfg st sid name r port_all dealloc)"

definition ipc_object_copyin_header ::
    "ipc_config \<Rightarrow> ipc_state \<Rightarrow> space_id \<Rightarrow> mach_port_t \<Rightarrow>
     ((kern_return_t + ipc_object_t \<times> mach_msg_type_name) \<times> ipc_state) option" where
  "ipc_object_copyin_header cfg st sid name =
    (case ipc_right_lookup_write st sid name of
       (Inl kr, st) \<Rightarrow> Some (Inl kr, st)
     | (Inr r, st) \<Rightarrow> ipc_right_copyin_header cfg st sid name r)"

end
