(* ===== verification/Right_Ops.thy ===== *)
theory Right_Ops
  imports Right_Steps Ipc_Object Port_Transit
begin

text \<open>
  The operations on the right of a name, as changes of the map from names to capabilities and
  of the counts of the port.  The rights of the old interface, marked with \<^verbatim>\<open>IE_BITS_COMPAT\<close>,
  are left out: they register the space itself for the death of the port.
\<close>

section \<open>Well-formed rights\<close>

text \<open>
  What the assertions of \<^verbatim>\<open>ipc_right.c\<close> say of the bits of an entry: the type is one of six, the count
  of user references fits the type, a msg-accepted request is for a port the entry can send to or
  receive from, exactly the dead names have no object, and only entries of ports have a request.
\<close>

definition urefs_ok :: "32 word \<Rightarrow> 32 word \<Rightarrow> bool" where
  "urefs_ok type urefs \<longleftrightarrow>
    (type = MACH_PORT_TYPE_SEND \<or> type = MACH_PORT_TYPE_SEND_RECEIVE) \<and> 0 < urefs \<and> urefs < MACH_PORT_UREFS_MAX \<or>
    type = MACH_PORT_TYPE_RECEIVE \<and> urefs = 0 \<or> type = MACH_PORT_TYPE_SEND_ONCE \<and> urefs = 1 \<or>
    type = MACH_PORT_TYPE_PORT_SET \<and> urefs = 0 \<or> type = MACH_PORT_TYPE_DEAD_NAME \<and> 0 < urefs"

definition right_ok :: "capability \<Rightarrow> bool" where
  "right_ok c \<longleftrightarrow>
    (case c of (bits, obj, request) \<Rightarrow>
      urefs_ok (IE_BITS_TYPE bits) (IE_BITS_UREFS bits) \<and>
      (has bits IE_BITS_MAREQUEST \<longrightarrow> has bits MACH_PORT_TYPE_SEND_RECEIVE) \<and>
      (obj = IO_NULL \<longleftrightarrow> IE_BITS_TYPE bits = MACH_PORT_TYPE_DEAD_NAME) \<and>
      (request \<noteq> 0 \<longrightarrow> has bits MACH_PORT_TYPE_PORT_RIGHTS))"

lemma cap_fields [simp]:
  "IE_BITS_TYPE (bits AND IE_BITS_RIGHT_MASK) = IE_BITS_TYPE bits" "IE_BITS_UREFS (bits AND IE_BITS_RIGHT_MASK) = IE_BITS_UREFS bits"
  "has (bits AND IE_BITS_RIGHT_MASK) IE_BITS_MAREQUEST = has bits IE_BITS_MAREQUEST"
  "has (bits AND IE_BITS_RIGHT_MASK) IE_BITS_COMPAT = has bits IE_BITS_COMPAT"
  by (simp_all add: IE_BITS_fields has_def and.assoc IE_BITS_masks)

text \<open>The bits of a right are its type, its user references and its two flags.\<close>

lemma right_bits:
  "bits AND IE_BITS_RIGHT_MASK = IE_BITS_TYPE bits OR IE_BITS_UREFS bits OR
    (if has bits IE_BITS_MAREQUEST then IE_BITS_MAREQUEST else 0) OR (if has bits IE_BITS_COMPAT then IE_BITS_COMPAT else 0)"
proof -
  have "b AND m = (if b AND m \<noteq> 0 then m else 0)" if "m = 2 ^ n" for b m :: "32 word" and n
    using that by (auto simp: and_exp_eq_0_iff_not_bit bit_simps intro!: bit_word_eqI)
  from this [of IE_BITS_MAREQUEST 21] this [of IE_BITS_COMPAT 22]
  have one: "(if has bits IE_BITS_MAREQUEST then IE_BITS_MAREQUEST else 0) = bits AND IE_BITS_MAREQUEST"
    "(if has bits IE_BITS_COMPAT then IE_BITS_COMPAT else 0) = bits AND IE_BITS_COMPAT"
    unfolding has_def by (simp_all add: IE_BITS_masks)
  have m: "IE_BITS_RIGHT_MASK = IE_BITS_TYPE_MASK OR IE_BITS_UREFS_MASK OR IE_BITS_MAREQUEST OR IE_BITS_COMPAT"
    by (simp add: IE_BITS_masks)
  show ?thesis unfolding one IE_BITS_fields m by (simp only: bit.conj_disj_distrib)
qed

text \<open>
  A right of a name, with the entry it is in, and the requests it is linked to; not one of the
  compatibility mode.
\<close>

definition right_at :: "ipc_config \<Rightarrow> ipc_state \<Rightarrow> space_id \<Rightarrow> mach_port_t \<Rightarrow> entry_ref \<Rightarrow> ipc_entry \<Rightarrow> bool" where
  "right_at cfg st sid name r e \<longleftrightarrow>
    holds cfg st sid {} name r e \<and> right_ok (capability e) \<and> \<not> has (ie_bits e) IE_BITS_COMPAT \<and>
    entry_sizes (ipc_table_entries cfg) \<and> linked_request st name (ie_object e) (ie_request e) \<and>
    linked_marequest st sid name (ie_bits e)"

lemma right_atD:
  assumes "right_at cfg st sid name r e"
  shows "holds cfg st sid {} name r e" "right_ok (capability e)" "\<not> has (ie_bits e) IE_BITS_COMPAT"
    "entry_sizes (ipc_table_entries cfg)" "linked_request st name (ie_object e) (ie_request e)"
    "linked_marequest st sid name (ie_bits e)" "get_entry st sid r = e"
  using assms holds_get by (auto simp: right_at_def)

text \<open>The types a right can have, with what its user references are then.\<close>

lemma right_cases:
  assumes "right_ok (capability e)"
  obtains (send) "IE_BITS_TYPE (ie_bits e) = MACH_PORT_TYPE_SEND" "0 < IE_BITS_UREFS (ie_bits e)" "IE_BITS_UREFS (ie_bits e) < MACH_PORT_UREFS_MAX"
  | (send_receive) "IE_BITS_TYPE (ie_bits e) = MACH_PORT_TYPE_SEND_RECEIVE" "0 < IE_BITS_UREFS (ie_bits e)" "IE_BITS_UREFS (ie_bits e) < MACH_PORT_UREFS_MAX"
  | (receive) "IE_BITS_TYPE (ie_bits e) = MACH_PORT_TYPE_RECEIVE" "IE_BITS_UREFS (ie_bits e) = 0"
  | (send_once) "IE_BITS_TYPE (ie_bits e) = MACH_PORT_TYPE_SEND_ONCE" "IE_BITS_UREFS (ie_bits e) = 1"
  | (port_set) "IE_BITS_TYPE (ie_bits e) = MACH_PORT_TYPE_PORT_SET" "IE_BITS_UREFS (ie_bits e) = 0"
  | (dead_name) "IE_BITS_TYPE (ie_bits e) = MACH_PORT_TYPE_DEAD_NAME" "0 < IE_BITS_UREFS (ie_bits e)"
  using assms by (auto simp: right_ok_def capability_def urefs_ok_def)

text \<open>The msg-accepted request of a name is gone.\<close>

definition uncalled :: "space_id \<Rightarrow> mach_port_t \<Rightarrow> ipc_entry_bits_t \<Rightarrow> ipc_state \<Rightarrow> ipc_state \<Rightarrow> bool" where
  "uncalled sid name bits st st' \<longleftrightarrow>
    (if has bits IE_BITS_MAREQUEST
     then imar_ok (st_marequests st') \<and> imar_map (st_marequests st') = (imar_map (st_marequests st))((sid, name) := None)
     else st_marequests st' = st_marequests st)"

lemma uncalled_simps [simp]:
  "uncalled sid name bits st (upd_entry st' x r f) = uncalled sid name bits st st'"
  "uncalled sid name bits st (upd_port st' p g) = uncalled sid name bits st st'"
  "uncalled sid name bits st (emit st' es) = uncalled sid name bits st st'"
  by (simp_all add: uncalled_def)

lemma right_ok_iff:
  "right_ok (capability e) \<longleftrightarrow>
    urefs_ok (IE_BITS_TYPE (ie_bits e)) (IE_BITS_UREFS (ie_bits e)) \<and>
    (has (ie_bits e) IE_BITS_MAREQUEST \<longrightarrow> IE_BITS_TYPE (ie_bits e) AND MACH_PORT_TYPE_SEND_RECEIVE \<noteq> 0) \<and>
    (ie_object e = IO_NULL \<longleftrightarrow> IE_BITS_TYPE (ie_bits e) = MACH_PORT_TYPE_DEAD_NAME) \<and>
    (ie_request e \<noteq> 0 \<longrightarrow> IE_BITS_TYPE (ie_bits e) AND MACH_PORT_TYPE_PORT_RIGHTS \<noteq> 0)"
  by (simp add: right_ok_def capability_def has_type)

section \<open>Taking a send right out\<close>

lemma same_slot_simps [simp]:
  "same_slot e (e\<lparr>ie_request := n\<rparr>)" "same_slot e (e\<lparr>ie_object := obj\<rparr>)" "same_slot e e"
  by (simp_all add: same_slot_def)

text \<open>The object of an entry that is worked on is cleared.\<close>

lemma clear_object:
  assumes "holds cfg st sid {r} name r e"
  shows "holds cfg (upd_entry st sid r (\<lambda>e. e\<lparr>ie_object := IO_NULL\<rparr>)) sid {r} name r (e\<lparr>ie_object := IO_NULL\<rparr>)"
    and "caps {r} (st_spaces (upd_entry st sid r (\<lambda>e. e\<lparr>ie_object := IO_NULL\<rparr>)) sid) =
      (caps {r} (st_spaces st sid))(name \<mapsto> capability (e\<lparr>ie_object := IO_NULL\<rparr>))"
  using holds_update [OF assms, where P' = "{r}" and f = "\<lambda>e. e\<lparr>ie_object := IO_NULL\<rparr>"] by simp_all

lemma take_last_send_spec:
  assumes at: "right_at cfg st sid name r e" and t: "IE_BITS_TYPE (ie_bits e) = MACH_PORT_TYPE_SEND"
  shows "\<exists>st' ix. take_last_send st sid (ie_object e) name r (ie_bits e) = Some (registered st (ie_object e) (ie_request e), st') \<and>
    holds cfg st' sid {r} name r (e\<lparr>ie_request := 0, ie_index := ix, ie_object := IO_NULL\<rparr>) \<and>
    caps {r} (st_spaces st' sid) = (st_caps st sid)(name \<mapsto> (ie_bits e AND IE_BITS_RIGHT_MASK, IO_NULL, 0)) \<and>
    beside sid st st' \<and> uncalled sid name (ie_bits e) st st'"
proof -
  note at' = right_atD [OF at]
  have "alive {} r e" using t by (simp add: alive_def right_consts)
  from dncancel_step [OF at'(1) _ this at'(3,5)] obtain st1 where
    st1: "ipc_right_dncancel_macro st sid (ie_object e) name r = (registered st (ie_object e) (ie_request e), st1)"
      "holds cfg st1 sid {} name r (e\<lparr>ie_request := 0\<rparr>)"
      "st_caps st1 sid = (st_caps st sid)(name \<mapsto> capability (e\<lparr>ie_request := 0\<rparr>))"
      "beside sid st st1" "st_marequests st1 = st_marequests st"
    by blast
  from hash_delete_spec [OF st1(2)] t obtain st2 ix where
    st2: "hash_delete st1 sid (ie_object e) name r = Some st2" "outside sid st1 st2"
      "holds cfg st2 sid {r} name r (e\<lparr>ie_request := 0, ie_index := ix\<rparr>)" "caps {r} (st_spaces st2 sid) = st_caps st1 sid"
    by auto
  have m2: "st_marequests st2 = st_marequests st" using st2(2) st1(5) by (simp add: outside_def)
  then have "linked_marequest st2 sid name (ie_bits e)" using at'(6) by (simp add: linked_marequest_def)
  from marequest_step [OF this] obtain m where
    m: "cancel_marequest st2 (ie_bits e) sid name = Some (st2\<lparr>st_marequests := m\<rparr>)"
      "uncalled sid name (ie_bits e) st (st2\<lparr>st_marequests := m\<rparr>)"
    unfolding uncalled_def m2 by auto
  let ?st = "upd_entry (st2\<lparr>st_marequests := m\<rparr>) sid r (\<lambda>e. e\<lparr>ie_object := IO_NULL\<rparr>)"
  have "holds cfg (st2\<lparr>st_marequests := m\<rparr>) sid {r} name r (e\<lparr>ie_request := 0, ie_index := ix\<rparr>)" using st2(3) by simp
  note c = clear_object [OF this]
  have "beside sid st ?st" using beside_trans [OF st1(4) beside_outside [OF st2(2)]] by simp
  moreover have "uncalled sid name (ie_bits e) st ?st" using m(2) by simp
  moreover have "caps {r} (st_spaces ?st sid) = (st_caps st sid)(name \<mapsto> (ie_bits e AND IE_BITS_RIGHT_MASK, IO_NULL, 0))"
    using c(2) st2(4) st1(3) by (simp add: capability_def)
  ultimately show ?thesis
    using st1(1) st2(1) m(1) c(1) by (intro exI [of _ ?st] exI [of _ ix]) (simp add: take_last_send_def)
qed

section \<open>The balance of a port\<close>

text \<open>
  The share that an entry has in the counts of its port: one send right however many user
  references it has, one send-once right, and one reference.  A right in a message has a share, too.
\<close>

definition send_share :: "ipc_entry_bits_t \<Rightarrow> 32 word" where
  "send_share bits = (if has bits MACH_PORT_TYPE_SEND then 1 else 0)"

definition sonce_share :: "ipc_entry_bits_t \<Rightarrow> 32 word" where
  "sonce_share bits = (if has bits MACH_PORT_TYPE_SEND_ONCE then 1 else 0)"

definition ref_share :: "ipc_entry_bits_t \<Rightarrow> 32 word" where
  "ref_share bits = (if has bits MACH_PORT_TYPE_PORT_RIGHTS then 1 else 0)"

fun hand_bits :: "mach_msg_type_name \<Rightarrow> ipc_entry_bits_t" where
  "hand_bits MACH_MSG_TYPE_MOVE_RECEIVE = MACH_PORT_TYPE_RECEIVE"
| "hand_bits MACH_MSG_TYPE_MOVE_SEND = MACH_PORT_TYPE_SEND"
| "hand_bits MACH_MSG_TYPE_MOVE_SEND_ONCE = MACH_PORT_TYPE_SEND_ONCE"
| "hand_bits MACH_MSG_TYPE_COPY_SEND = MACH_PORT_TYPE_SEND"
| "hand_bits MACH_MSG_TYPE_MAKE_SEND = MACH_PORT_TYPE_SEND"
| "hand_bits MACH_MSG_TYPE_MAKE_SEND_ONCE = MACH_PORT_TYPE_SEND_ONCE"

text \<open>The counts of a port change by what the entry and the message have more after a step than before.\<close>

definition balanced :: "ipc_port \<Rightarrow> ipc_entry_bits_t \<Rightarrow> ipc_entry_bits_t \<Rightarrow> ipc_port \<Rightarrow> ipc_entry_bits_t \<Rightarrow> ipc_entry_bits_t \<Rightarrow> bool" where
  "balanced port bits hand port' bits' hand' \<longleftrightarrow>
    ip_srights port' + send_share bits + send_share hand = ip_srights port + send_share bits' + send_share hand' \<and>
    ip_sorights port' + sonce_share bits + sonce_share hand = ip_sorights port + sonce_share bits' + sonce_share hand' \<and>
    ip_references port' + ref_share bits + ref_share hand = ip_references port + ref_share bits' + ref_share hand'"

lemma share_simps [simp]:
  "send_share 0 = 0" "sonce_share 0 = 0" "ref_share 0 = 0"
  "send_share MACH_PORT_TYPE_SEND = 1" "sonce_share MACH_PORT_TYPE_SEND = 0" "ref_share MACH_PORT_TYPE_SEND = 1"
  "send_share MACH_PORT_TYPE_SEND_ONCE = 0" "sonce_share MACH_PORT_TYPE_SEND_ONCE = 1" "ref_share MACH_PORT_TYPE_SEND_ONCE = 1"
  "send_share MACH_PORT_TYPE_RECEIVE = 0" "sonce_share MACH_PORT_TYPE_RECEIVE = 0" "ref_share MACH_PORT_TYPE_RECEIVE = 1"
  "send_share MACH_PORT_TYPE_SEND_RECEIVE = 1" "sonce_share MACH_PORT_TYPE_SEND_RECEIVE = 0" "ref_share MACH_PORT_TYPE_SEND_RECEIVE = 1"
  "send_share MACH_PORT_TYPE_NONE = 0" "sonce_share MACH_PORT_TYPE_NONE = 0" "ref_share MACH_PORT_TYPE_NONE = 0"
  "send_share MACH_PORT_TYPE_DEAD_NAME = 0" "sonce_share MACH_PORT_TYPE_DEAD_NAME = 0" "ref_share MACH_PORT_TYPE_DEAD_NAME = 0"
  by (simp_all add: send_share_def sonce_share_def ref_share_def has_def right_consts)

lemma share_type:
  assumes "IE_BITS_TYPE bits = t"
  shows "send_share bits = send_share t" "sonce_share bits = sonce_share t" "ref_share bits = ref_share t"
proof -
  have "IE_BITS_TYPE t = t" using assms fields_masked(1) [of bits] by (simp add: IE_BITS_TYPE_def)
  with assms show "send_share bits = send_share t" "sonce_share bits = sonce_share t" "ref_share bits = ref_share t"
    unfolding send_share_def sonce_share_def ref_share_def has_type by simp_all
qed

text \<open>An entry without a right is worked on until it is deallocated.\<close>

definition pending :: "entry_ref \<Rightarrow> ipc_entry \<Rightarrow> entry_ref set" where
  "pending r e = (if IE_BITS_TYPE (ie_bits e) = MACH_PORT_TYPE_NONE then {r} else {})"

definition settled :: "ipc_entry \<Rightarrow> bool" where
  "settled e \<longleftrightarrow> (if IE_BITS_TYPE (ie_bits e) = MACH_PORT_TYPE_NONE then ie_object e = IO_NULL
    else right_ok (capability e))"

text \<open>
  The right of a name changes from what is in \<open>e\<close> to what is in \<open>e'\<close>, with the rights \<open>hand\<close> before and
  \<open>hand'\<close> after it in a message; nothing else changes but the port and requests.
\<close>

definition transferred ::
    "ipc_config \<Rightarrow> ipc_state \<Rightarrow> space_id \<Rightarrow> mach_port_t \<Rightarrow> entry_ref \<Rightarrow> ipc_entry \<Rightarrow> ipc_entry_bits_t \<Rightarrow>
     ipc_state \<Rightarrow> ipc_entry \<Rightarrow> ipc_entry_bits_t \<Rightarrow> bool" where
  "transferred cfg st sid name r e hand st' e' hand' \<longleftrightarrow>
    holds cfg st' sid (pending r e') name r e' \<and> settled e' \<and>
    caps (pending r e') (st_spaces st' sid) = (st_caps st sid)(name \<mapsto> capability e') \<and>
    balanced (st_ports st (ie_object e)) (ie_bits e) hand (st_ports st' (ie_object e)) (ie_bits e') hand' \<and>
    (\<forall>q. q \<noteq> ie_object e \<longrightarrow> bare (st_ports st' q) = bare (st_ports st q)) \<and>
    (\<forall>x. x \<noteq> sid \<longrightarrow> st_spaces st' x = st_spaces st x)"

section \<open>Copying a right in\<close>

lemma right_alive:
  assumes "right_at cfg st sid name r e"
  shows "alive {} r e" and "pending r e = {}" and "settled e" and "st_caps st sid name = Some (capability e)"
proof -
  note at' = right_atD [OF assms]
  show a: "alive {} r e" and "pending r e = {}" and "settled e"
    using at'(2) by (cases rule: right_cases [OF at'(2)]; simp add: alive_def pending_def settled_def right_consts)+
  then show "st_caps st sid name = Some (capability e)"
    using cell_caps(1) [of _ _ "{}" _ _ name r e e "{}"] at'(1) by (auto simp: holds_def)
qed

text \<open>Only the port changes.\<close>

lemma moved_port:
  assumes at: "right_at cfg st sid name r e"
    and "balanced (st_ports st (ie_object e)) (ie_bits e) hand (f (st_ports st (ie_object e))) (ie_bits e) hand'"
  shows "transferred cfg st sid name r e hand (upd_port st (ie_object e) f) e hand'"
  using right_alive [OF at] right_atD [OF at] holds_cong [of "upd_port st (ie_object e) f" st sid cfg "{}" name r e] assms(2)
  by (simp add: transferred_def fun_upd_idem)

lemma copyin_make_send_spec:
  assumes at: "right_at cfg st sid name r e" and t: "has (ie_bits e) MACH_PORT_TYPE_RECEIVE"
  shows "\<exists>st'. copyin_make_send st sid r = Some (Inr (ie_object e, IP_NULL), st') \<and> transferred cfg st sid name r e 0 st' e MACH_PORT_TYPE_SEND"
proof (intro exI conjI)
  show "copyin_make_send st sid r = Some (Inr (ie_object e, IP_NULL), make_send st (ie_object e))"
    using t right_atD(7) [OF at] by (simp add: copyin_make_send_def Let_def)
  show "transferred cfg st sid name r e 0 (make_send st (ie_object e)) e MACH_PORT_TYPE_SEND"
    unfolding make_send_def by (rule moved_port [OF at]) (simp add: balanced_def)
qed

lemma copyin_make_send_once_spec:
  assumes at: "right_at cfg st sid name r e" and t: "has (ie_bits e) MACH_PORT_TYPE_RECEIVE"
  shows "\<exists>st'. copyin_make_send_once st sid r = Some (Inr (ie_object e, IP_NULL), st') \<and> transferred cfg st sid name r e 0 st' e MACH_PORT_TYPE_SEND_ONCE"
proof (intro exI conjI)
  let ?f = "\<lambda>port. port\<lparr>ip_sorights := ip_sorights port + 1, ip_references := ip_references port + 1\<rparr>"
  show "copyin_make_send_once st sid r = Some (Inr (ie_object e, IP_NULL), upd_port st (ie_object e) ?f)"
    using t right_atD(7) [OF at] by (simp add: copyin_make_send_once_def Let_def)
  show "transferred cfg st sid name r e 0 (upd_port st (ie_object e) ?f) e MACH_PORT_TYPE_SEND_ONCE"
    by (rule moved_port [OF at]) (simp add: balanced_def)
qed

lemma check_live: "ip_active (st_ports st p) \<Longrightarrow> ipc_right_check cfg st sid p name r = Some (False, st)"
  by (simp add: ipc_right_check_def)

text \<open>Which of the tests on the type of an entry succeed.\<close>

lemma right_tests:
  assumes "right_ok (capability e)"
  shows "has (ie_bits e) MACH_PORT_TYPE_DEAD_NAME \<longleftrightarrow> IE_BITS_TYPE (ie_bits e) = MACH_PORT_TYPE_DEAD_NAME"
    and "has (ie_bits e) MACH_PORT_TYPE_SEND_ONCE \<longleftrightarrow> IE_BITS_TYPE (ie_bits e) = MACH_PORT_TYPE_SEND_ONCE"
    and "has (ie_bits e) MACH_PORT_TYPE_PORT_SET \<longleftrightarrow> IE_BITS_TYPE (ie_bits e) = MACH_PORT_TYPE_PORT_SET"
    and "has (ie_bits e) MACH_PORT_TYPE_SEND \<longleftrightarrow> IE_BITS_TYPE (ie_bits e) \<in> {MACH_PORT_TYPE_SEND, MACH_PORT_TYPE_SEND_RECEIVE}"
    and "has (ie_bits e) MACH_PORT_TYPE_RECEIVE \<longleftrightarrow> IE_BITS_TYPE (ie_bits e) \<in> {MACH_PORT_TYPE_RECEIVE, MACH_PORT_TYPE_SEND_RECEIVE}"
    and "has (ie_bits e) MACH_PORT_TYPE_SEND_RIGHTS \<longleftrightarrow>
      IE_BITS_TYPE (ie_bits e) \<in> {MACH_PORT_TYPE_SEND, MACH_PORT_TYPE_SEND_RECEIVE, MACH_PORT_TYPE_SEND_ONCE}"
  unfolding has_type by (rule right_cases [OF assms]; simp add: right_consts; fail)+

lemma type_distinct [simp]:
  "MACH_PORT_TYPE_DEAD_NAME \<noteq> MACH_PORT_TYPE_SEND" "MACH_PORT_TYPE_SEND \<noteq> MACH_PORT_TYPE_DEAD_NAME"
  "MACH_PORT_TYPE_DEAD_NAME \<noteq> MACH_PORT_TYPE_SEND_RECEIVE" "MACH_PORT_TYPE_SEND_RECEIVE \<noteq> MACH_PORT_TYPE_DEAD_NAME"
  "MACH_PORT_TYPE_DEAD_NAME \<noteq> MACH_PORT_TYPE_SEND_ONCE" "MACH_PORT_TYPE_SEND_ONCE \<noteq> MACH_PORT_TYPE_DEAD_NAME"
  "MACH_PORT_TYPE_DEAD_NAME \<noteq> MACH_PORT_TYPE_RECEIVE" "MACH_PORT_TYPE_RECEIVE \<noteq> MACH_PORT_TYPE_DEAD_NAME"
  "MACH_PORT_TYPE_SEND \<noteq> MACH_PORT_TYPE_SEND_RECEIVE" "MACH_PORT_TYPE_SEND_RECEIVE \<noteq> MACH_PORT_TYPE_SEND"
  "MACH_PORT_TYPE_SEND \<noteq> MACH_PORT_TYPE_RECEIVE" "MACH_PORT_TYPE_RECEIVE \<noteq> MACH_PORT_TYPE_SEND"
  "MACH_PORT_TYPE_SEND \<noteq> MACH_PORT_TYPE_SEND_ONCE" "MACH_PORT_TYPE_SEND_ONCE \<noteq> MACH_PORT_TYPE_SEND"
  "MACH_PORT_TYPE_RECEIVE \<noteq> MACH_PORT_TYPE_SEND_RECEIVE" "MACH_PORT_TYPE_SEND_RECEIVE \<noteq> MACH_PORT_TYPE_RECEIVE"
  "MACH_PORT_TYPE_RECEIVE \<noteq> MACH_PORT_TYPE_SEND_ONCE" "MACH_PORT_TYPE_SEND_ONCE \<noteq> MACH_PORT_TYPE_RECEIVE"
  "MACH_PORT_TYPE_SEND_ONCE \<noteq> MACH_PORT_TYPE_SEND_RECEIVE" "MACH_PORT_TYPE_SEND_RECEIVE \<noteq> MACH_PORT_TYPE_SEND_ONCE"
  by (simp_all add: right_consts)

lemma copyin_copy_send_spec:
  assumes at: "right_at cfg st sid name r e" and t: "has (ie_bits e) MACH_PORT_TYPE_SEND" and live: "ip_active (st_ports st (ie_object e))"
  shows "\<exists>st'. copyin_copy_send cfg st sid name r deadok = Some (Inr (ie_object e, IP_NULL), st') \<and>
    transferred cfg st sid name r e 0 st' e MACH_PORT_TYPE_SEND"
proof (intro exI conjI)
  let ?f = "\<lambda>port. port\<lparr>ip_srights := ip_srights port + 1, ip_references := ip_references port + 1\<rparr>"
  have "\<not> has (ie_bits e) MACH_PORT_TYPE_DEAD_NAME" "has (ie_bits e) MACH_PORT_TYPE_SEND_RIGHTS"
    using t unfolding right_tests [OF right_atD(2) [OF at]] by auto
  with t live right_atD(7) [OF at]
  show "copyin_copy_send cfg st sid name r deadok = Some (Inr (ie_object e, IP_NULL), upd_port st (ie_object e) ?f)"
    by (simp add: copyin_copy_send_def check_live Let_def)
  show "transferred cfg st sid name r e 0 (upd_port st (ie_object e) ?f) e MACH_PORT_TYPE_SEND"
    by (rule moved_port [OF at]) (simp add: balanced_def)
qed

text \<open>The bits of an entry that gives up its send right, its last one, and of one that gives up a reference.\<close>

lemma drop_send_bits:
  fixes bits :: ipc_entry_bits_t
  defines "bits' \<equiv> bits AND NOT (IE_BITS_UREFS_MASK OR MACH_PORT_TYPE_SEND)"
  shows "bits' AND NOT IE_BITS_RIGHT_MASK = bits AND NOT IE_BITS_RIGHT_MASK"
    and "IE_BITS_TYPE bits = MACH_PORT_TYPE_SEND \<Longrightarrow> IE_BITS_TYPE bits' = MACH_PORT_TYPE_NONE"
    and "IE_BITS_TYPE bits = MACH_PORT_TYPE_SEND_RECEIVE \<Longrightarrow> IE_BITS_TYPE bits' = MACH_PORT_TYPE_RECEIVE"
    and "IE_BITS_UREFS bits' = 0" and "has bits' IE_BITS_MAREQUEST = has bits IE_BITS_MAREQUEST"
    and "has bits' IE_BITS_COMPAT = has bits IE_BITS_COMPAT"
proof -
  show "bits' AND NOT IE_BITS_RIGHT_MASK = bits AND NOT IE_BITS_RIGHT_MASK" "has bits' IE_BITS_MAREQUEST = has bits IE_BITS_MAREQUEST"
    "has bits' IE_BITS_COMPAT = has bits IE_BITS_COMPAT"
    by (simp_all add: bits'_def has_def and.assoc right_consts)
  show "IE_BITS_TYPE bits = MACH_PORT_TYPE_SEND \<Longrightarrow> IE_BITS_TYPE bits' = MACH_PORT_TYPE_NONE"
    "IE_BITS_TYPE bits = MACH_PORT_TYPE_SEND_RECEIVE \<Longrightarrow> IE_BITS_TYPE bits' = MACH_PORT_TYPE_RECEIVE"
    unfolding bits'_def fields_AND by (simp_all add: right_consts)
  show "IE_BITS_UREFS bits' = 0" by (simp add: bits'_def IE_BITS_UREFS_def and.assoc right_consts)
qed

text \<open>Steps beside the port, then one of the port.\<close>

lemma moved_beside:
  assumes b: "beside sid st st1" and h: "holds cfg st1 sid (pending r e') name r e'" and s: "settled e'"
    and c: "caps (pending r e') (st_spaces st1 sid) = (st_caps st sid)(name \<mapsto> capability e')"
    and bal: "balanced (st_ports st (ie_object e)) (ie_bits e) hand (f (st_ports st1 (ie_object e))) (ie_bits e') hand'"
  shows "transferred cfg st sid name r e hand (upd_port st1 (ie_object e) f) e' hand'"
  using assms holds_cong [of "upd_port st1 (ie_object e) f" st1 sid cfg "pending r e'" name r e']
  by (simp add: transferred_def beside_def)

lemma moved_beside_id:
  assumes b: "beside sid st st1" and h: "holds cfg st1 sid (pending r e') name r e'" and s: "settled e'"
    and c: "caps (pending r e') (st_spaces st1 sid) = (st_caps st sid)(name \<mapsto> capability e')"
    and bal: "balanced (st_ports st (ie_object e)) (ie_bits e) hand (st_ports st (ie_object e)) (ie_bits e') hand'"
  shows "transferred cfg st sid name r e hand st1 e' hand'"
proof -
  have "balanced port bits hand port' bits' hand' \<longleftrightarrow> balanced port bits hand (bare port') bits' hand'" for port bits port' bits'
    by (simp add: balanced_def)
  then have "balanced (st_ports st (ie_object e)) (ie_bits e) hand (st_ports st1 (ie_object e)) (ie_bits e') hand'"
    using b bal unfolding beside_def by metis
  with assms show ?thesis by (simp add: transferred_def beside_def)
qed

lemma move_last_send_spec:
  assumes at: "right_at cfg st sid name r e" and t: "IE_BITS_TYPE (ie_bits e) = MACH_PORT_TYPE_SEND"
  shows "\<exists>st' e'. take_last_send st sid (ie_object e) name r (ie_bits e) = Some (registered st (ie_object e) (ie_request e), st') \<and>
    transferred cfg st sid name r e 0
      (upd_entry st' sid r (\<lambda>x. x\<lparr>ie_bits := ie_bits e AND NOT (IE_BITS_UREFS_MASK OR MACH_PORT_TYPE_SEND)\<rparr>)) e' MACH_PORT_TYPE_SEND \<and>
    IE_BITS_TYPE (ie_bits e') = MACH_PORT_TYPE_NONE"
proof -
  let ?bits = "ie_bits e AND NOT (IE_BITS_UREFS_MASK OR MACH_PORT_TYPE_SEND)"
  obtain st' ix where st': "take_last_send st sid (ie_object e) name r (ie_bits e) = Some (registered st (ie_object e) (ie_request e), st')"
    "holds cfg st' sid {r} name r (e\<lparr>ie_request := 0, ie_index := ix, ie_object := IO_NULL\<rparr>)"
    "caps {r} (st_spaces st' sid) = (st_caps st sid)(name \<mapsto> (ie_bits e AND IE_BITS_RIGHT_MASK, IO_NULL, 0))" "beside sid st st'"
    using take_last_send_spec [OF at t] by blast
  let ?e = "e\<lparr>ie_request := 0, ie_index := ix, ie_object := IO_NULL, ie_bits := ?bits\<rparr>" and ?f = "\<lambda>x. x\<lparr>ie_bits := ?bits\<rparr>"
  note bits = drop_send_bits [of "ie_bits e"]
  have none: "IE_BITS_TYPE ?bits = MACH_PORT_TYPE_NONE" using bits(2) t .
  have "same_slot (e\<lparr>ie_request := 0, ie_index := ix, ie_object := IO_NULL\<rparr>) (?f (e\<lparr>ie_request := 0, ie_index := ix, ie_object := IO_NULL\<rparr>))"
    using bits(1) by (simp add: same_slot_def)
  note u = holds_update [where f = ?f, OF st'(2) this, of "{r}"]
  have "transferred cfg st sid name r e 0 (upd_entry st' sid r ?f) ?e MACH_PORT_TYPE_SEND"
  proof (rule moved_beside_id)
    have p: "pending r ?e = {r}" using none by (simp add: pending_def)
    show "holds cfg (upd_entry st' sid r ?f) sid (pending r ?e) name r ?e" unfolding p using u(1) by simp
    show "caps (pending r ?e) (st_spaces (upd_entry st' sid r ?f) sid) = (st_caps st sid)(name \<mapsto> capability ?e)"
      unfolding p using u(2) st'(3) by simp
    show "settled ?e" using none by (simp add: settled_def)
    show "balanced (st_ports st (ie_object e)) (ie_bits e) 0 (st_ports st (ie_object e)) (ie_bits ?e) MACH_PORT_TYPE_SEND"
      using share_type [OF t] share_type [OF none] by (simp add: balanced_def)
  qed (use st'(4) in simp)
  with st'(1) none show ?thesis by (intro exI [of _ st'] exI [of _ ?e]) simp
qed

text \<open>Changing the count of user references of an entry that keeps its type.\<close>

lemma urefs_step:
  assumes at: "right_at cfg st sid name r e" and b: "beside sid st st1" and h: "holds cfg st1 sid {} name r e"
    and c: "st_caps st1 sid = st_caps st sid" and d: "IE_BITS_UREFS (ie_bits e) + d \<le> MACH_PORT_UREFS_MAX"
    and ok: "right_ok (capability (e\<lparr>ie_bits := ie_bits e + d\<rparr>))"
  shows "holds cfg (upd_entry st1 sid r (\<lambda>x. x\<lparr>ie_bits := ie_bits e + d\<rparr>)) sid {} name r (e\<lparr>ie_bits := ie_bits e + d\<rparr>)"
    and "st_caps (upd_entry st1 sid r (\<lambda>x. x\<lparr>ie_bits := ie_bits e + d\<rparr>)) sid =
      (st_caps st sid)(name \<mapsto> capability (e\<lparr>ie_bits := ie_bits e + d\<rparr>))"
    and "pending r (e\<lparr>ie_bits := ie_bits e + d\<rparr>) = {}" and "settled (e\<lparr>ie_bits := ie_bits e + d\<rparr>)"
proof -
  note f = delta_fields [OF d] and a = right_alive [OF at]
  have s: "same_slot e ((\<lambda>x. x\<lparr>ie_bits := ie_bits e + d\<rparr>) e)" using f(4) by (simp add: same_slot_def)
  note k = holds_keep [where f = "\<lambda>x. x\<lparr>ie_bits := ie_bits e + d\<rparr>", OF h s _ _ _ a(1)]
  show "holds cfg (upd_entry st1 sid r (\<lambda>x. x\<lparr>ie_bits := ie_bits e + d\<rparr>)) sid {} name r (e\<lparr>ie_bits := ie_bits e + d\<rparr>)"
    "st_caps (upd_entry st1 sid r (\<lambda>x. x\<lparr>ie_bits := ie_bits e + d\<rparr>)) sid =
      (st_caps st sid)(name \<mapsto> capability (e\<lparr>ie_bits := ie_bits e + d\<rparr>))"
    using k f(1) c by simp_all
  show "pending r (e\<lparr>ie_bits := ie_bits e + d\<rparr>) = {}" "settled (e\<lparr>ie_bits := ie_bits e + d\<rparr>)"
    using a(1) f(1) ok by (auto simp: pending_def settled_def alive_def)
qed

lemma send_urefs:
  assumes "right_ok (capability e)" and "IE_BITS_TYPE (ie_bits e) \<in> {MACH_PORT_TYPE_SEND, MACH_PORT_TYPE_SEND_RECEIVE}"
  shows "0 < IE_BITS_UREFS (ie_bits e)" and "IE_BITS_UREFS (ie_bits e) < MACH_PORT_UREFS_MAX"
  using assms by (auto simp: right_ok_iff urefs_ok_def right_consts)

lemma right_ok_delta:
  assumes ok: "right_ok (capability e)" and d: "0 < IE_BITS_UREFS (ie_bits e) + d" "IE_BITS_UREFS (ie_bits e) + d \<le> MACH_PORT_UREFS_MAX"
    and t: "IE_BITS_TYPE (ie_bits e) = MACH_PORT_TYPE_DEAD_NAME \<or>
      IE_BITS_TYPE (ie_bits e) \<in> {MACH_PORT_TYPE_SEND, MACH_PORT_TYPE_SEND_RECEIVE} \<and> IE_BITS_UREFS (ie_bits e) + d < MACH_PORT_UREFS_MAX"
  shows "right_ok (capability (e\<lparr>ie_bits := ie_bits e + d\<rparr>))"
proof -
  have "urefs_ok (IE_BITS_TYPE (ie_bits e)) (IE_BITS_UREFS (ie_bits e) + d)" using t d(1) unfolding urefs_ok_def by blast
  then show ?thesis
    using ok by (simp add: right_ok_iff delta_fields [OF d(2)] urefs_delta(2) [OF d(2)])
qed

lemma urefs_back:
  assumes "0 < IE_BITS_UREFS bits" and "IE_BITS_UREFS bits \<noteq> 1"
  shows "0 < IE_BITS_UREFS bits + - 1" and "IE_BITS_UREFS bits + - 1 < IE_BITS_UREFS bits"
    and "IE_BITS_UREFS bits + - 1 \<le> MACH_PORT_UREFS_MAX"
proof -
  have max: "IE_BITS_UREFS bits \<le> MACH_PORT_UREFS_MAX"
    using word_and_le2 [of bits IE_BITS_UREFS_MASK] by (simp add: IE_BITS_UREFS_def IE_BITS_UREFS_MASK_def MACH_PORT_UREFS_MAX_def push_bit_eq_mult word_and_le1)
  have n: "unat (IE_BITS_UREFS bits + - 1) = unat (IE_BITS_UREFS bits) - 1" "0 < unat (IE_BITS_UREFS bits)"
    using assms(1) by (simp_all add: unat_minus_one word_gt_0 unat_gt_0)
  moreover have "unat (IE_BITS_UREFS bits) \<noteq> 1" using assms(2) by (metis unat_1 unsigned_word_eqI)
  ultimately show "0 < IE_BITS_UREFS bits + - 1" "IE_BITS_UREFS bits + - 1 < IE_BITS_UREFS bits"
    unfolding word_less_nat_alt by simp_all
  then show "IE_BITS_UREFS bits + - 1 \<le> MACH_PORT_UREFS_MAX" using max by simp
qed

lemma copyin_move_send_spec:
  assumes at: "right_at cfg st sid name r e" and t: "has (ie_bits e) MACH_PORT_TYPE_SEND" and live: "ip_active (st_ports st (ie_object e))"
  shows "\<exists>st' so e'. copyin_move_send cfg st sid name r deadok = Some (Inr (ie_object e, so), st') \<and>
    transferred cfg st sid name r e 0 st' e' MACH_PORT_TYPE_SEND \<and>
    so = (if IE_BITS_TYPE (ie_bits e') = MACH_PORT_TYPE_NONE then registered st (ie_object e) (ie_request e) else IP_NULL)"
proof -
  note at' = right_atD [OF at] and a = right_alive [OF at]
  let ?p = "ie_object e" and ?bits = "ie_bits e"
  have tests: "\<not> has ?bits MACH_PORT_TYPE_DEAD_NAME" "has ?bits MACH_PORT_TYPE_SEND_RIGHTS"
    and types: "IE_BITS_TYPE ?bits = MACH_PORT_TYPE_SEND \<or> IE_BITS_TYPE ?bits = MACH_PORT_TYPE_SEND_RECEIVE"
    using t unfolding right_tests [OF at'(2)] by auto
  then have u: "0 < IE_BITS_UREFS ?bits" "IE_BITS_UREFS ?bits < MACH_PORT_UREFS_MAX"
    using send_urefs [OF at'(2)] by auto
  consider (more) "IE_BITS_UREFS ?bits \<noteq> 1" | (receive) "IE_BITS_UREFS ?bits = 1" "IE_BITS_TYPE ?bits = MACH_PORT_TYPE_SEND_RECEIVE"
    | (last) "IE_BITS_UREFS ?bits = 1" "IE_BITS_TYPE ?bits = MACH_PORT_TYPE_SEND" using types by blast
  then show ?thesis
  proof cases
    case more
    let ?f = "\<lambda>port. port\<lparr>ip_srights := ip_srights port + 1, ip_references := ip_references port + 1\<rparr>"
    let ?st = "upd_entry (upd_port st ?p ?f) sid r (\<lambda>x. x\<lparr>ie_bits := ?bits + - 1\<rparr>)" and ?e = "e\<lparr>ie_bits := ?bits + - 1\<rparr>"
    note b = urefs_back [OF u(1) more]
    have "right_ok (capability ?e)" using right_ok_delta [OF at'(2) b(1,3)] types b(2) u(2) by auto
    note s = urefs_step [OF at beside_refl at'(1) refl b(3) this]
    have "transferred cfg st sid name r e 0 ?st ?e MACH_PORT_TYPE_SEND"
      using s holds_cong [of ?st "upd_entry st sid r (\<lambda>x. x\<lparr>ie_bits := ?bits + - 1\<rparr>)" sid cfg "{}" name r ?e] at'(7)
        share_type [OF delta_fields(1) [OF b(3)]] share_type [OF refl, of ?bits]
      by (simp add: transferred_def balanced_def get_entry_def)
    moreover have "copyin_move_send cfg st sid name r deadok = Some (Inr (?p, IP_NULL), ?st)"
      using more tests t live at'(7) by (simp add: copyin_move_send_def check_live Let_def)
    moreover have "IE_BITS_TYPE (ie_bits ?e) \<noteq> MACH_PORT_TYPE_NONE" using a(2) s(3) by (auto simp: pending_def split: if_splits)
    ultimately show ?thesis by (intro exI [of _ ?st] exI [of _ IP_NULL] exI [of _ ?e]) simp
  next
    case last
    then have "\<not> has ?bits MACH_PORT_TYPE_RECEIVE" unfolding right_tests [OF at'(2)] by simp
    moreover obtain st' e' where "take_last_send st sid ?p name r ?bits = Some (registered st ?p (ie_request e), st')"
      "transferred cfg st sid name r e 0 (upd_entry st' sid r (\<lambda>x. x\<lparr>ie_bits := ?bits AND NOT (IE_BITS_UREFS_MASK OR MACH_PORT_TYPE_SEND)\<rparr>)) e' MACH_PORT_TYPE_SEND"
      "IE_BITS_TYPE (ie_bits e') = MACH_PORT_TYPE_NONE"
      using move_last_send_spec [OF at last(2)] by blast
    ultimately show ?thesis
      using last(1) tests t live at'(7) by (simp add: copyin_move_send_def check_live Let_def) blast
  next
    case receive
    let ?b = "?bits AND NOT (IE_BITS_UREFS_MASK OR MACH_PORT_TYPE_SEND)"
    let ?f = "\<lambda>x. x\<lparr>ie_bits := ?b\<rparr>" and ?e = "e\<lparr>ie_bits := ?b\<rparr>"
    let ?st = "upd_entry (ip_reference st ?p) sid r ?f"
    note b = drop_send_bits [of ?bits]
    have type: "IE_BITS_TYPE ?b = MACH_PORT_TYPE_RECEIVE" using b(3) receive(2) .
    have "has ?bits MACH_PORT_TYPE_RECEIVE" using receive(2) unfolding right_tests [OF at'(2)] by simp
    then have run: "copyin_move_send cfg st sid name r deadok = Some (Inr (?p, IP_NULL), ?st)"
      using receive(1) tests t live at'(7) by (simp add: copyin_move_send_def check_live Let_def)
    have h: "holds cfg (ip_reference st ?p) sid {} name r e"
      using at'(1) holds_cong [of "ip_reference st ?p" st sid cfg "{}" name r e] by (simp add: ip_reference_def)
    have "same_slot e (?f e)" "unhashed e" "unhashed (?f e)"
      using b(1) receive(2) type by (simp_all add: same_slot_def unhashed_def right_consts)
    then have u: "holds cfg ?st sid {} name r ?e" "st_caps ?st sid = (st_caps st sid)(name \<mapsto> capability ?e)"
      using holds_update [where f = ?f, OF h, of "{}"] by (simp_all add: ip_reference_def)
    have "right_ok (capability ?e)"
      using at'(2) b(4,5) type receive(2) by (simp add: right_ok_iff urefs_ok_def right_consts)
    then have "settled ?e" "pending r ?e = {}" using type by (simp_all add: settled_def pending_def right_consts)
    then have "transferred cfg st sid name r e 0 ?st ?e MACH_PORT_TYPE_SEND"
      using u share_type [OF type] share_type [OF receive(2)] by (simp add: transferred_def balanced_def ip_reference_def)
    with run type show ?thesis by (intro exI [of _ ?st] exI [of _ IP_NULL] exI [of _ ?e]) (simp add: right_consts)
  qed
qed

lemma copyin_move_send_once_spec:
  assumes at: "right_at cfg st sid name r e" and t: "has (ie_bits e) MACH_PORT_TYPE_SEND_ONCE" and live: "ip_active (st_ports st (ie_object e))"
  shows "\<exists>st' e'. copyin_move_send_once cfg st sid name r deadok = Some (Inr (ie_object e, registered st (ie_object e) (ie_request e)), st') \<and>
    transferred cfg st sid name r e 0 st' e' MACH_PORT_TYPE_SEND_ONCE \<and> IE_BITS_TYPE (ie_bits e') = MACH_PORT_TYPE_NONE"
proof -
  note at' = right_atD [OF at] and a = right_alive [OF at]
  let ?p = "ie_object e" and ?b = "ie_bits e AND NOT MACH_PORT_TYPE_SEND_ONCE"
  let ?f = "\<lambda>x. x\<lparr>ie_object := IO_NULL, ie_bits := ?b\<rparr>"
  let ?e = "e\<lparr>ie_request := 0, ie_object := IO_NULL, ie_bits := ?b\<rparr>"
  have type: "IE_BITS_TYPE (ie_bits e) = MACH_PORT_TYPE_SEND_ONCE" and tests: "\<not> has (ie_bits e) MACH_PORT_TYPE_DEAD_NAME" "has (ie_bits e) MACH_PORT_TYPE_SEND_RIGHTS"
    using t unfolding right_tests [OF at'(2)] by auto
  have none: "IE_BITS_TYPE ?b = MACH_PORT_TYPE_NONE" using type unfolding fields_AND by (simp add: right_consts)
  obtain st1 where st1: "ipc_right_dncancel_macro st sid ?p name r = (registered st ?p (ie_request e), st1)"
    "holds cfg st1 sid {} name r (e\<lparr>ie_request := 0\<rparr>)" "st_caps st1 sid = (st_caps st sid)(name \<mapsto> capability (e\<lparr>ie_request := 0\<rparr>))" "beside sid st st1"
    using dncancel_step [OF at'(1) _ a(1) at'(3,5)] by blast
  have s: "same_slot (e\<lparr>ie_request := 0\<rparr>) (?f (e\<lparr>ie_request := 0\<rparr>))" "unhashed (e\<lparr>ie_request := 0\<rparr>)"
    using type by (simp_all add: same_slot_def unhashed_def and.assoc right_consts)
  note u = holds_update [where f = ?f and P' = "{r}", OF st1(2) s(1)]
  have "transferred cfg st sid name r e 0 (upd_entry st1 sid r ?f) ?e MACH_PORT_TYPE_SEND_ONCE"
  proof (rule moved_beside_id)
    have p: "pending r ?e = {r}" using none by (simp add: pending_def)
    show "holds cfg (upd_entry st1 sid r ?f) sid (pending r ?e) name r ?e"
      "caps (pending r ?e) (st_spaces (upd_entry st1 sid r ?f) sid) = (st_caps st sid)(name \<mapsto> capability ?e)"
      unfolding p using u s(2) st1(3) by simp_all
    show "settled ?e" using none by (simp add: settled_def)
    show "balanced (st_ports st ?p) (ie_bits e) 0 (st_ports st ?p) (ie_bits ?e) MACH_PORT_TYPE_SEND_ONCE"
      using share_type [OF type] share_type [OF none] by (simp add: balanced_def)
  qed (use st1(4) in simp)
  with st1(1) tests t live at'(7) none show ?thesis
    by (intro exI [of _ "upd_entry st1 sid r ?f"] exI [of _ ?e]) (simp add: copyin_move_send_once_def check_live Let_def)
qed

lemma limbo_frame:
  shows "st_spaces (into_limbo cfg st p) = st_spaces st" "st_hash (into_limbo cfg st p) = st_hash st"
    "q \<noteq> p \<Longrightarrow> st_ports (into_limbo cfg st p) q = st_ports st q"
    "ip_srights (st_ports (into_limbo cfg st p) p) = ip_srights (st_ports st p)"
    "ip_sorights (st_ports (into_limbo cfg st p) p) = ip_sorights (st_ports st p)"
    "ip_references (st_ports (into_limbo cfg st p) p) = ip_references (st_ports st p)"
    "limbo (st_ports (into_limbo cfg st p) p) = ip_active (st_ports st p)"
    "st_marequests (into_limbo cfg st p) = st_marequests st"
  by (simp_all add: into_limbo_def ipc_port_clear_receiver_def ipc_pset_remove_def ips_check_unlock_def limbo_def
      ipc_mqueue_changed_def upd_port_def state_simps Let_def split: prod.split)

lemma moved_limbo:
  assumes "transferred cfg st sid name r e hand st' e' hand'"
  shows "transferred cfg st sid name r e hand (into_limbo cfg st' (ie_object e)) e' hand'"
  using assms holds_cong [of "into_limbo cfg st' (ie_object e)" st' sid cfg "pending r e'" name r e']
  by (simp add: transferred_def limbo_frame balanced_def)

text \<open>The bits of an entry that loses its receive right.\<close>

lemma drop_receive_bits:
  fixes bits :: ipc_entry_bits_t
  defines "bits' \<equiv> bits AND NOT MACH_PORT_TYPE_RECEIVE"
  shows "bits' AND NOT IE_BITS_RIGHT_MASK = bits AND NOT IE_BITS_RIGHT_MASK"
    and "IE_BITS_TYPE bits = MACH_PORT_TYPE_RECEIVE \<Longrightarrow> IE_BITS_TYPE bits' = MACH_PORT_TYPE_NONE"
    and "IE_BITS_TYPE bits = MACH_PORT_TYPE_SEND_RECEIVE \<Longrightarrow> IE_BITS_TYPE bits' = MACH_PORT_TYPE_SEND"
    and "IE_BITS_UREFS bits' = IE_BITS_UREFS bits" and "has bits' IE_BITS_MAREQUEST = has bits IE_BITS_MAREQUEST"
proof -
  show "bits' AND NOT IE_BITS_RIGHT_MASK = bits AND NOT IE_BITS_RIGHT_MASK" "has bits' IE_BITS_MAREQUEST = has bits IE_BITS_MAREQUEST"
    "IE_BITS_UREFS bits' = IE_BITS_UREFS bits"
    by (simp_all add: bits'_def has_def IE_BITS_UREFS_def and.assoc right_consts)
  show "IE_BITS_TYPE bits = MACH_PORT_TYPE_RECEIVE \<Longrightarrow> IE_BITS_TYPE bits' = MACH_PORT_TYPE_NONE"
    "IE_BITS_TYPE bits = MACH_PORT_TYPE_SEND_RECEIVE \<Longrightarrow> IE_BITS_TYPE bits' = MACH_PORT_TYPE_SEND"
    unfolding bits'_def fields_AND by (simp_all add: right_consts)
qed

text \<open>Without a send right the entry goes; with one it becomes a send right, which the hash tables must know.\<close>

lemma move_only_receive:
  assumes at: "right_at cfg st sid name r e" and t: "IE_BITS_TYPE (ie_bits e) = MACH_PORT_TYPE_RECEIVE"
  shows "\<exists>st' e'. copyin_move_receive cfg st sid name r = Some (Inr (ie_object e, registered st (ie_object e) (ie_request e)), st') \<and>
    transferred cfg st sid name r e 0 st' e' MACH_PORT_TYPE_RECEIVE \<and> IE_BITS_TYPE (ie_bits e') = MACH_PORT_TYPE_NONE"
proof -
  note at' = right_atD [OF at] and a = right_alive [OF at] and b = drop_receive_bits [of "ie_bits e"]
  let ?p = "ie_object e" and ?b = "ie_bits e AND NOT MACH_PORT_TYPE_RECEIVE"
  let ?f = "\<lambda>x. x\<lparr>ie_object := IO_NULL\<rparr>" and ?g = "\<lambda>x. x\<lparr>ie_bits := ?b\<rparr>" and ?e1 = "e\<lparr>ie_request := 0\<rparr>"
  let ?e = "e\<lparr>ie_request := 0, ie_object := IO_NULL, ie_bits := ?b\<rparr>"
  have tests: "has (ie_bits e) MACH_PORT_TYPE_RECEIVE" "\<not> has (ie_bits e) MACH_PORT_TYPE_SEND"
    using t unfolding right_tests [OF at'(2)] by auto
  have none: "IE_BITS_TYPE ?b = MACH_PORT_TYPE_NONE" using b(2) t .
  obtain st1 where st1: "ipc_right_dncancel_macro st sid ?p name r = (registered st ?p (ie_request e), st1)"
    "holds cfg st1 sid {} name r ?e1" "st_caps st1 sid = (st_caps st sid)(name \<mapsto> capability ?e1)" "beside sid st st1"
    "st_marequests st1 = st_marequests st"
    using dncancel_step [OF at'(1) _ a(1) at'(3,5)] by blast
  have "linked_marequest st1 sid name (ie_bits e)" using at'(6) st1(5) by (simp add: linked_marequest_def)
  then obtain m where m: "cancel_marequest st1 (ie_bits e) sid name = Some (st1\<lparr>st_marequests := m\<rparr>)"
    using marequest_step by blast
  let ?st1 = "st1\<lparr>st_marequests := m\<rparr>"
  let ?st2 = "upd_entry ?st1 sid r ?f" and ?st3 = "upd_entry (upd_entry ?st1 sid r ?f) sid r ?g"
  have un: "unhashed ?e1" using t by (simp add: unhashed_def right_consts)
  have "holds cfg ?st1 sid {} name r ?e1" using st1(2) by simp
  from holds_update [where f = ?f and P' = "{r}", OF this] un
  have h2: "holds cfg ?st2 sid {r} name r (e\<lparr>ie_request := 0, ie_object := IO_NULL\<rparr>)"
    "caps {r} (st_spaces ?st2 sid) = (st_caps st sid)(name \<mapsto> capability (e\<lparr>ie_request := 0, ie_object := IO_NULL\<rparr>))"
    using st1(3) by simp_all
  have "same_slot (e\<lparr>ie_request := 0, ie_object := IO_NULL\<rparr>) (?g (e\<lparr>ie_request := 0, ie_object := IO_NULL\<rparr>))"
    using b(1) by (simp add: same_slot_def)
  note u = holds_update [where f = ?g and P' = "{r}", OF h2(1) this]
  have "transferred cfg st sid name r e 0 ?st3 ?e MACH_PORT_TYPE_RECEIVE"
  proof (rule moved_beside_id)
    have p: "pending r ?e = {r}" using none by (simp add: pending_def)
    show "holds cfg ?st3 sid (pending r ?e) name r ?e" "caps (pending r ?e) (st_spaces ?st3 sid) = (st_caps st sid)(name \<mapsto> capability ?e)"
      unfolding p using u h2(2) by simp_all
    show "settled ?e" using none by (simp add: settled_def)
    show "balanced (st_ports st ?p) (ie_bits e) 0 (st_ports st ?p) (ie_bits ?e) MACH_PORT_TYPE_RECEIVE"
      using share_type [OF t] share_type [OF none] by (simp add: balanced_def)
  qed (use st1(4) in simp)
  from moved_limbo [OF this] st1(1) m tests at'(7) none show ?thesis
    by (intro exI [of _ "into_limbo cfg ?st3 ?p"] exI [of _ ?e]) (simp add: copyin_move_receive_def Let_def)
qed

lemma move_receive_keep_send:
  assumes at: "right_at cfg st sid name r e" and t: "IE_BITS_TYPE (ie_bits e) = MACH_PORT_TYPE_SEND_RECEIVE"
    and new: "unsent {} sid (st_hash st) (st_spaces st sid) (ie_object e)"
  shows "\<exists>st' e'. copyin_move_receive cfg st sid name r = Some (Inr (ie_object e, IP_NULL), st') \<and>
    transferred cfg st sid name r e 0 st' e' MACH_PORT_TYPE_RECEIVE \<and> IE_BITS_TYPE (ie_bits e') = MACH_PORT_TYPE_SEND"
proof -
  note at' = right_atD [OF at] and b = drop_receive_bits [of "ie_bits e"]
  let ?p = "ie_object e" and ?b = "ie_bits e AND NOT MACH_PORT_TYPE_RECEIVE"
  let ?g = "\<lambda>x. x\<lparr>ie_bits := ?b\<rparr>"
  have tests: "has (ie_bits e) MACH_PORT_TYPE_RECEIVE" "has (ie_bits e) MACH_PORT_TYPE_SEND"
    using t unfolding right_tests [OF at'(2)] by auto
  have send: "IE_BITS_TYPE ?b = MACH_PORT_TYPE_SEND" using b(3) t .
  have "unhashed e" using t by (simp add: unhashed_def right_consts)
  then have h: "holds cfg st sid {r} name r e" "caps {r} (st_spaces st sid) = st_caps st sid"
    using holds_pend [OF at'(1), of "{r}"] by simp_all
  have "unsent {r} sid (st_hash st) (st_spaces st sid) ?p" using new by (auto simp: unsent_def table_sends_def)
  from hash_insert_spec [OF h(1) this] obtain st1 ix where st1: "hash_insert st sid ?p name r = Some st1" "outside sid st st1"
    and fin: "\<And>f. same_slot (e\<lparr>ie_index := ix\<rparr>) (f (e\<lparr>ie_index := ix\<rparr>)) \<Longrightarrow>
        IE_BITS_TYPE (ie_bits (f (e\<lparr>ie_index := ix\<rparr>))) = MACH_PORT_TYPE_SEND \<Longrightarrow> ie_object (f (e\<lparr>ie_index := ix\<rparr>)) = ?p \<Longrightarrow>
      holds cfg (upd_entry st1 sid r f) sid {} name r (f (e\<lparr>ie_index := ix\<rparr>)) \<and>
      st_caps (upd_entry st1 sid r f) sid = (caps {r} (st_spaces st sid))(name \<mapsto> capability (f (e\<lparr>ie_index := ix\<rparr>)))"
    by blast
  let ?e = "e\<lparr>ie_index := ix, ie_bits := ?b\<rparr>" and ?st = "upd_entry (ip_reference st1 ?p) sid r ?g"
  have f: "holds cfg (upd_entry st1 sid r ?g) sid {} name r ?e" "st_caps (upd_entry st1 sid r ?g) sid = (st_caps st sid)(name \<mapsto> capability ?e)"
    using fin [of ?g] b(1) send h(2) by (simp_all add: same_slot_def)
  have same: "?st = upd_port (upd_entry st1 sid r ?g) ?p (\<lambda>port. port\<lparr>ip_references := ip_references port + 1\<rparr>)"
    by (simp add: upd_entry_def ip_reference_def upd_port_def set_port_def set_space_def get_entry_def)
  have "right_ok (capability ?e)"
    using at'(2) b(4,5) send t by (simp add: right_ok_iff urefs_ok_def right_consts)
  then have s: "settled ?e" "pending r ?e = {}" using send by (simp_all add: settled_def pending_def right_consts)
  have "transferred cfg st sid name r e 0 ?st ?e MACH_PORT_TYPE_RECEIVE"
    unfolding same
  proof (rule moved_beside)
    have "st_ports (upd_entry st1 sid r ?g) ?p = st_ports st ?p" using st1(2) by (simp add: outside_def)
    then show "balanced (st_ports st ?p) (ie_bits e) 0 ((st_ports (upd_entry st1 sid r ?g) ?p)\<lparr>ip_references :=
        ip_references (st_ports (upd_entry st1 sid r ?g) ?p) + 1\<rparr>) (ie_bits ?e) MACH_PORT_TYPE_RECEIVE"
      using share_type [OF t] share_type [OF send] by (simp add: balanced_def)
  qed (use f s beside_outside [OF st1(2)] in simp_all)
  from moved_limbo [OF this] st1(1) tests at'(7) send show ?thesis
    by (intro exI [of _ "into_limbo cfg ?st ?p"] exI [of _ ?e]) (simp add: copyin_move_receive_def Let_def)
qed

section \<open>Rights for dead ports\<close>

definition dead_bits :: "ipc_entry_bits_t \<Rightarrow> nat \<Rightarrow> ipc_entry_bits_t" where
  "dead_bits bits request =
    (let b = (bits AND NOT IE_BITS_TYPE_MASK) OR MACH_PORT_TYPE_DEAD_NAME in if request \<noteq> 0 then b + 1 else b)"

lemma dead_bits_fields:
  assumes "\<not> has bits IE_BITS_MAREQUEST" and "\<not> has bits IE_BITS_COMPAT" and u: "IE_BITS_UREFS bits < MACH_PORT_UREFS_MAX"
  shows "dead_bits bits request AND NOT IE_BITS_RIGHT_MASK = bits AND NOT IE_BITS_RIGHT_MASK"
    and "IE_BITS_TYPE (dead_bits bits request) = MACH_PORT_TYPE_DEAD_NAME"
    and "IE_BITS_UREFS (dead_bits bits request) = IE_BITS_UREFS bits + (if request \<noteq> 0 then 1 else 0)"
    and "\<not> has (dead_bits bits request) IE_BITS_MAREQUEST" and "\<not> has (dead_bits bits request) IE_BITS_COMPAT"
proof -
  let ?b = "(bits AND NOT IE_BITS_TYPE_MASK) OR MACH_PORT_TYPE_DEAD_NAME"
  have b: "?b AND NOT IE_BITS_RIGHT_MASK = bits AND NOT IE_BITS_RIGHT_MASK" "IE_BITS_TYPE ?b = MACH_PORT_TYPE_DEAD_NAME"
    "IE_BITS_UREFS ?b = IE_BITS_UREFS bits" "\<not> has ?b IE_BITS_MAREQUEST" "\<not> has ?b IE_BITS_COMPAT"
    using assms(1,2) by (simp_all add: IE_BITS_fields has_def mask_OR and.assoc right_consts)
  have "IE_BITS_UREFS ?b + 1 \<le> MACH_PORT_UREFS_MAX" using u by (simp add: b(3) inc_le)
  note d = delta_fields [OF this] urefs_delta(2) [OF this]
  show "dead_bits bits request AND NOT IE_BITS_RIGHT_MASK = bits AND NOT IE_BITS_RIGHT_MASK"
    "IE_BITS_TYPE (dead_bits bits request) = MACH_PORT_TYPE_DEAD_NAME"
    "IE_BITS_UREFS (dead_bits bits request) = IE_BITS_UREFS bits + (if request \<noteq> 0 then 1 else 0)"
    "\<not> has (dead_bits bits request) IE_BITS_MAREQUEST" "\<not> has (dead_bits bits request) IE_BITS_COMPAT"
    using b d by (simp_all add: dead_bits_def Let_def)
qed

text \<open>
  The right is for a dead port: it becomes a dead name with the same user references, and one
  more for a dead-name request; the reference to the port is given back.
\<close>

definition buried :: "ipc_config \<Rightarrow> ipc_state \<Rightarrow> space_id \<Rightarrow> mach_port_t \<Rightarrow> entry_ref \<Rightarrow> ipc_entry \<Rightarrow> ipc_state \<Rightarrow> ipc_entry \<Rightarrow> bool" where
  "buried cfg st sid name r e st' e' \<longleftrightarrow>
    holds cfg st' sid {} name r e' \<and> st_caps st' sid = (st_caps st sid)(name \<mapsto> capability e') \<and>
    capability e' = (MACH_PORT_TYPE_DEAD_NAME OR (IE_BITS_UREFS (ie_bits e) + (if ie_request e \<noteq> 0 then 1 else 0)), IO_NULL, 0) \<and>
    IE_BITS_TYPE (ie_bits e') = MACH_PORT_TYPE_DEAD_NAME \<and>
    IE_BITS_UREFS (ie_bits e') = IE_BITS_UREFS (ie_bits e) + (if ie_request e \<noteq> 0 then 1 else 0) \<and>
    right_ok (capability e') \<and> \<not> has (ie_bits e') IE_BITS_COMPAT \<and>
    st_ports st' = (st_ports st)(ie_object e := (st_ports st (ie_object e))\<lparr>ip_references := ip_references (st_ports st (ie_object e)) - 1\<rparr>) \<and>
    st_events st' = st_events st @ (if ip_references (st_ports st (ie_object e)) = 1 then [Free_port (ie_object e)] else []) \<and>
    uncalled sid name (ie_bits e) st st' \<and> (\<forall>x. x \<noteq> sid \<longrightarrow> st_spaces st' x = st_spaces st x)"

lemma release_events:
  "st_events (ipc_port_release st p) = st_events st @ (if ip_references (st_ports st p) = 1 then [Free_port p] else [])"
  "st_marequests (ipc_port_release st p) = st_marequests st"
  by (auto simp: ipc_port_release_def ip_check_unlock_def state_simps Let_def)

lemma bury:
  assumes h: "holds cfg st1 sid P name r e1" and P: "P \<subseteq> {r}" "r \<in> P \<or> unhashed e1"
    and e1: "e1 = e\<lparr>ie_index := ix\<rparr>" and b: "\<not> has bits IE_BITS_MAREQUEST" "\<not> has bits IE_BITS_COMPAT" "IE_BITS_UREFS bits = IE_BITS_UREFS (ie_bits e)"
      "bits AND NOT IE_BITS_RIGHT_MASK = ie_bits e AND NOT IE_BITS_RIGHT_MASK"
    and u: "0 < IE_BITS_UREFS (ie_bits e)" "IE_BITS_UREFS (ie_bits e) < MACH_PORT_UREFS_MAX"
    and c: "caps P (st_spaces st1 sid) = st_caps st sid" and o: "st_ports st1 = st_ports st" "st_events st1 = st_events st"
      "uncalled sid name (ie_bits e) st st1" "\<forall>x. x \<noteq> sid \<longrightarrow> st_spaces st1 x = st_spaces st x"
  defines "f \<equiv> \<lambda>x. x\<lparr>ie_request := 0, ie_bits := dead_bits bits (ie_request e), ie_object := IO_NULL\<rparr>"
  shows "buried cfg st sid name r e (upd_entry (ipc_port_release st1 (ie_object e)) sid r f) (f e1)"
proof -
  let ?st = "ipc_port_release st1 (ie_object e)"
  note d = dead_bits_fields [OF b(1,2), of "ie_request e"]
  have u': "IE_BITS_UREFS bits < MACH_PORT_UREFS_MAX" using b(3) u(2) by simp
  note d = d [OF u']
  have h': "holds cfg ?st sid P name r e1" using h holds_cong [of ?st st1 sid cfg P name r e1] by simp
  have s: "same_slot e1 (f e1)" "unhashed (f e1)" using d(1,2) b(4) e1 by (simp_all add: same_slot_def unhashed_def f_def right_consts)
  note up = holds_update [where f = f, OF h' s(1) P(1) _ P(2), of "{}"]
  have cap: "capability (f e1) = (MACH_PORT_TYPE_DEAD_NAME OR (IE_BITS_UREFS (ie_bits e) + (if ie_request e \<noteq> 0 then 1 else 0)), IO_NULL, 0)"
    using d(2-5) b(3) by (simp add: capability_def f_def right_bits)
  have pos: "0 < IE_BITS_UREFS (ie_bits e) + (if ie_request e \<noteq> 0 then 1 else 0)"
    using u by (auto simp: word_less_nat_alt unat_word_ariths(1) MACH_PORT_UREFS_MAX_def)
  have ok: "right_ok (capability (f e1))"
    using d(2-4) b(3) pos by (simp add: right_ok_iff urefs_ok_def f_def)
  show ?thesis
    unfolding buried_def
  proof (intro conjI)
    show "uncalled sid name (ie_bits e) st (upd_entry ?st sid r f)" using o(3) by (simp add: uncalled_def release_events)
    show "st_caps (upd_entry ?st sid r f) sid = (st_caps st sid)(name \<mapsto> capability (f e1))" using up(2) s(2) c by simp
    show "holds cfg (upd_entry ?st sid r f) sid {} name r (f e1)" using up(1) s(2) by simp
    show "st_ports (upd_entry ?st sid r f) = (st_ports st)(ie_object e := (st_ports st (ie_object e))\<lparr>ip_references := ip_references (st_ports st (ie_object e)) - 1\<rparr>)"
      "st_events (upd_entry ?st sid r f) = st_events st @ (if ip_references (st_ports st (ie_object e)) = 1 then [Free_port (ie_object e)] else [])"
      using o by (simp_all add: release_events)
    show "\<not> has (ie_bits (f e1)) IE_BITS_COMPAT" "IE_BITS_TYPE (ie_bits (f e1)) = MACH_PORT_TYPE_DEAD_NAME"
      "IE_BITS_UREFS (ie_bits (f e1)) = IE_BITS_UREFS (ie_bits e) + (if ie_request e \<noteq> 0 then 1 else 0)"
      using d(2,3,5) b(3) by (simp_all add: f_def)
    show "\<forall>x. x \<noteq> sid \<longrightarrow> st_spaces (upd_entry ?st sid r f) x = st_spaces st x" using o(4) by simp
  qed (use cap ok in auto)
qed

lemma check_dead_spec:
  assumes at: "right_at cfg st sid name r e" and dead: "\<not> ip_active (st_ports st (ie_object e))"
    and t: "IE_BITS_TYPE (ie_bits e) \<in> {MACH_PORT_TYPE_SEND, MACH_PORT_TYPE_SEND_ONCE}"
  shows "\<exists>st' e'. ipc_right_check cfg st sid (ie_object e) name r = Some (True, st') \<and> buried cfg st sid name r e st' e'"
proof -
  note at' = right_atD [OF at]
  let ?p = "ie_object e" and ?f = "\<lambda>b x. x\<lparr>ie_request := 0, ie_bits := dead_bits b (ie_request e), ie_object := IO_NULL\<rparr>"
  have u: "0 < IE_BITS_UREFS (ie_bits e)" "IE_BITS_UREFS (ie_bits e) < MACH_PORT_UREFS_MAX"
    using at'(2) t by (auto simp: right_ok_iff urefs_ok_def right_consts MACH_PORT_UREFS_MAX_def push_bit_eq_mult)
  show ?thesis
  proof (cases "IE_BITS_TYPE (ie_bits e) = MACH_PORT_TYPE_SEND")
    case True
    have has: "has (ie_bits e) MACH_PORT_TYPE_SEND" using True unfolding right_tests [OF at'(2)] by simp
    obtain m where m: "cancel_marequest st (ie_bits e) sid name = Some (st\<lparr>st_marequests := m\<rparr>)"
      "uncalled sid name (ie_bits e) st (st\<lparr>st_marequests := m\<rparr>)"
      using marequest_step [OF at'(6)] unfolding uncalled_def by auto
    have h: "holds cfg (st\<lparr>st_marequests := m\<rparr>) sid {} name r e" using at'(1) by simp
    obtain st2 ix where st2: "hash_delete (st\<lparr>st_marequests := m\<rparr>) sid ?p name r = Some st2" "outside sid (st\<lparr>st_marequests := m\<rparr>) st2"
      "holds cfg st2 sid {r} name r (e\<lparr>ie_index := ix\<rparr>)" "caps {r} (st_spaces st2 sid) = st_caps st sid"
      using hash_delete_spec [OF h True] by auto
    let ?b = "ie_bits e AND NOT IE_BITS_MAREQUEST"
    have b: "\<not> has ?b IE_BITS_MAREQUEST" "\<not> has ?b IE_BITS_COMPAT" "IE_BITS_UREFS ?b = IE_BITS_UREFS (ie_bits e)"
      "?b AND NOT IE_BITS_RIGHT_MASK = ie_bits e AND NOT IE_BITS_RIGHT_MASK"
      using at'(3) by (simp_all add: has_def IE_BITS_UREFS_def and.assoc right_consts)
    have o: "st_ports st2 = st_ports st" "st_events st2 = st_events st" "uncalled sid name (ie_bits e) st st2"
      "\<forall>x. x \<noteq> sid \<longrightarrow> st_spaces st2 x = st_spaces st x"
      using st2(2) m(2) by (simp_all add: outside_def uncalled_def split: if_splits)
    have g: "get_entry (ipc_port_release st2 ?p) sid r = e\<lparr>ie_index := ix\<rparr>"
      using holds_get [OF st2(3)] by (simp add: get_entry_def)
    have "buried cfg st sid name r e (upd_entry (ipc_port_release st2 ?p) sid r (?f ?b)) (?f ?b (e\<lparr>ie_index := ix\<rparr>))"
      by (rule bury [OF st2(3) _ _ refl b u st2(4) o]) simp_all
    moreover have "ipc_right_check cfg st sid ?p name r = Some (True, upd_entry (ipc_port_release st2 ?p) sid r (?f ?b))"
      using dead has m(1) st2(1) b(2) g at'(7) by (simp add: ipc_right_check_def dead_bits_def Let_def)
    ultimately show ?thesis by blast
  next
    case False
    then have once: "IE_BITS_TYPE (ie_bits e) = MACH_PORT_TYPE_SEND_ONCE" using t by simp
    then have has: "\<not> has (ie_bits e) MACH_PORT_TYPE_SEND" unfolding right_tests [OF at'(2)] by simp
    have b: "\<not> has (ie_bits e) IE_BITS_MAREQUEST" using at'(2) once by (simp add: right_ok_iff right_consts)
    have un: "unhashed (e\<lparr>ie_index := ie_index e\<rparr>)" using once by (simp add: unhashed_def right_consts)
    have h: "holds cfg st sid {} name r (e\<lparr>ie_index := ie_index e\<rparr>)" using at'(1) by simp
    have "uncalled sid name (ie_bits e) st st" using b by (simp add: uncalled_def)
    then have "buried cfg st sid name r e (upd_entry (ipc_port_release st ?p) sid r (?f (ie_bits e))) (?f (ie_bits e) (e\<lparr>ie_index := ie_index e\<rparr>))"
      using un by (intro bury [OF h _ _ refl b at'(3) refl refl u]) simp_all
    moreover have "get_entry (ipc_port_release st ?p) sid r = e" using at'(7) by (simp add: get_entry_def)
    then have "ipc_right_check cfg st sid ?p name r = Some (True, upd_entry (ipc_port_release st ?p) sid r (?f (ie_bits e)))"
      using dead has at'(3,7) by (simp add: ipc_right_check_def dead_bits_def Let_def)
    ultimately show ?thesis by blast
  qed
qed

end
