(* ===== verification/Right_Release.thy ===== *)
theory Right_Release
  imports Right_Ops
begin

text \<open>
  Giving back a user reference: \<^verbatim>\<open>ipc_right_dealloc\<close> as a change of the capabilities of the space and
  the counts of the port.
\<close>

section \<open>The port changes, the right does not\<close>

lemma right_at_port:
  assumes "right_at cfg st sid name r e" and "\<And>port. ip_dnrequests (f port) = ip_dnrequests port"
  shows "right_at cfg (upd_port st p f) sid name r e"
proof -
  have "port_requests (f port) = port_requests port" "port_requests_ok (f port) = port_requests_ok port" for port
    using assms(2) [of port] by (simp_all add: port_requests_def port_requests_ok_def)
  then show ?thesis
    using assms(1) holds_cong [of "upd_port st p f" st sid cfg "{}" name r e]
    by (auto simp: right_at_def linked_request_def linked_marequest_def)
qed

lemma registered_port: "(\<And>port. ip_dnrequests (f port) = ip_dnrequests port) \<Longrightarrow> registered (upd_port st p f) q i = registered st q i"
  by (simp add: registered_def port_requests_def)

lemma drop_send_requests [simp]: "ip_dnrequests (fst (drop_send port)) = ip_dnrequests port"
  by (simp add: drop_send_def Let_def)

lemma port_drop_send_upd: "port_drop_send st p = (snd (drop_send (st_ports st p)), upd_port st p (\<lambda>port. fst (drop_send port)))"
  by (simp add: port_drop_send_def upd_port_def split: prod.split)

lemma drop_send_counts:
  "ip_srights (fst (drop_send port)) = ip_srights port - 1" "ip_sorights (fst (drop_send port)) = ip_sorights port"
  "ip_references (fst (drop_send port)) = ip_references port"
  by (simp_all add: drop_send_def Let_def)

lemma beside_upd_entry_left [simp]: "beside sid (upd_entry st sid r f) st' \<longleftrightarrow> beside sid st st'"
  by (simp add: beside_def)

section \<open>Giving up the name\<close>

definition removed :: "ipc_config \<Rightarrow> ipc_state \<Rightarrow> space_id \<Rightarrow> mach_port_t \<Rightarrow> ipc_state \<Rightarrow> bool" where
  "removed cfg st sid name st' \<longleftrightarrow> st_ok cfg st' sid \<and> st_caps st' sid = (st_caps st sid)(name := None) \<and>
    (\<forall>x. x \<noteq> sid \<longrightarrow> st_spaces st' x = st_spaces st x)"

lemma removed_emit [simp]: "removed cfg st sid name (emit st' es) = removed cfg st sid name st'"
  by (simp add: removed_def st_ok_def)

lemma upd_release_commute: "upd_entry (ip_release st p) sid r f = ip_release (upd_entry st sid r f) p"
  by (simp add: upd_entry_def ip_release_def upd_port_def set_port_def set_space_def get_entry_def)

lemma dealloc_last_send_steps:
  "dealloc_last_send cfg st sid p name r bits =
    do {
      (dnrequest, st1) \<leftarrow> take_last_send (snd (port_drop_send st p)) sid p name r bits;
      st2 \<leftarrow> entry_dealloc cfg (ip_release st1 p) sid name r;
      Some (KERN_SUCCESS, emit st2 (fst (port_drop_send st p) @ port_deleted dnrequest name))
    }"
  by (auto simp: dealloc_last_send_def take_last_send_def upd_release_commute split: prod.splits Option.bind_splits)

lemma dealloc_last_send_spec:
  assumes at: "right_at cfg st sid name r e" and t: "IE_BITS_TYPE (ie_bits e) = MACH_PORT_TYPE_SEND"
  defines "p \<equiv> ie_object e"
  shows "\<exists>st'. dealloc_last_send cfg st sid p name r (ie_bits e) = Some (KERN_SUCCESS, st') \<and> removed cfg st sid name st' \<and>
    bare (st_ports st' p) = bare ((fst (drop_send (st_ports st p)))\<lparr>ip_references := ip_references (st_ports st p) - 1\<rparr>) \<and>
    (\<forall>q. q \<noteq> p \<longrightarrow> bare (st_ports st' q) = bare (st_ports st q)) \<and>
    st_events st' = st_events st @ snd (drop_send (st_ports st p)) @ port_deleted (registered st p (ie_request e)) name"
proof -
  let ?st = "upd_port st p (\<lambda>port. fst (drop_send port))"
  have at0: "right_at cfg ?st sid name r e" by (rule right_at_port [OF at]) simp
  obtain st1 ix where st1: "take_last_send ?st sid p name r (ie_bits e) = Some (registered st p (ie_request e), st1)"
    "holds cfg st1 sid {r} name r (e\<lparr>ie_request := 0, ie_index := ix, ie_object := IO_NULL\<rparr>)"
    "caps {r} (st_spaces st1 sid) = (st_caps st sid)(name \<mapsto> (ie_bits e AND IE_BITS_RIGHT_MASK, IO_NULL, 0))"
    "beside sid ?st st1"
    using take_last_send_spec [OF at0 t] registered_port [of "\<lambda>port. fst (drop_send port)" st p] by (auto simp: p_def)
  have h: "holds cfg (ip_release st1 p) sid {r} name r (e\<lparr>ie_request := 0, ie_index := ix, ie_object := IO_NULL\<rparr>)"
    using st1(2) holds_cong [of "ip_release st1 p" st1 sid cfg "{r}" name r] by (simp add: ip_release_def)
  obtain st2 where st2: "entry_dealloc cfg (ip_release st1 p) sid name r = Some st2" "outside sid (ip_release st1 p) st2" "st_ok cfg st2 sid"
    "st_caps st2 sid = (st_caps st sid)(name := None)"
    using entry_dealloc_spec [OF h _ right_atD(4) [OF at]] st1(3) by (auto simp: ip_release_def)
  let ?st' = "emit st2 (snd (drop_send (st_ports st p)) @ port_deleted (registered st p (ie_request e)) name)"
  have run: "dealloc_last_send cfg st sid p name r (ie_bits e) = Some (KERN_SUCCESS, ?st')"
    using st1(1) st2(1) by (simp add: dealloc_last_send_steps port_drop_send_upd)
  have b: "bare (st_ports st1 q) = bare (st_ports ?st q)" "st_events st1 = st_events st" "x \<noteq> sid \<longrightarrow> st_spaces st1 x = st_spaces st x" for q x
    using st1(4) by (simp_all add: beside_def)
  have o: "st_ports st2 = st_ports (ip_release st1 p)" "st_events st2 = st_events st1" "x \<noteq> sid \<longrightarrow> st_spaces st2 x = st_spaces st1 x" for x
    using st2(2) by (simp_all add: outside_def ip_release_def)
  have "bare (st_ports st2 p) = bare ((fst (drop_send (st_ports st p)))\<lparr>ip_references := ip_references (st_ports st p) - 1\<rparr>)"
  proof -
    have "bare (st_ports st2 p) = (bare (st_ports st1 p))\<lparr>ip_references := ip_references (bare (st_ports st1 p)) - 1\<rparr>"
      using o(1) by (simp add: ip_release_def bare_def)
    also have "\<dots> = bare ((fst (drop_send (st_ports st p)))\<lparr>ip_references := ip_references (st_ports st p) - 1\<rparr>)"
      unfolding b(1) by (simp add: bare_def drop_send_counts)
    finally show ?thesis .
  qed
  moreover have "bare (st_ports st2 q) = bare (st_ports st q)" if "q \<noteq> p" for q
    using that b(1) o(1) by (simp add: ip_release_def)
  ultimately show ?thesis
    using run st2(3,4) b(2,3) o(2,3) by (intro exI [of _ ?st']) (auto simp: removed_def st_ok_def)
qed

text \<open>The entry of a send-once right goes, the right itself goes into the notification.\<close>

lemma dealloc_send_once_spec:
  assumes at: "right_at cfg st sid name r e" and t: "IE_BITS_TYPE (ie_bits e) = MACH_PORT_TYPE_SEND_ONCE"
  defines "p \<equiv> ie_object e"
  shows "\<exists>st'. dealloc_send_once cfg st sid p name r = Some (KERN_SUCCESS, st') \<and> removed cfg st sid name st' \<and>
    (\<forall>q. bare (st_ports st' q) = bare (st_ports st q)) \<and>
    st_events st' = st_events st @ Notify_send_once p # port_deleted (registered st p (ie_request e)) name"
proof -
  note at' = right_atD [OF at] and a = right_alive [OF at]
  let ?f = "\<lambda>x. x\<lparr>ie_object := IO_NULL\<rparr>" and ?e = "e\<lparr>ie_request := 0\<rparr>"
  obtain st1 where st1: "ipc_right_dncancel_macro st sid p name r = (registered st p (ie_request e), st1)"
    "holds cfg st1 sid {} name r ?e" "st_caps st1 sid = (st_caps st sid)(name \<mapsto> capability ?e)" "beside sid st st1"
    using dncancel_step [OF at'(1) _ a(1) at'(3,5)] by (auto simp: p_def)
  have "unhashed ?e" using t by (simp add: unhashed_def right_consts)
  then have h: "holds cfg (upd_entry st1 sid r ?f) sid {r} name r (?f ?e)"
    "caps {r} (st_spaces (upd_entry st1 sid r ?f) sid) = (st_caps st sid)(name \<mapsto> capability (?f ?e))"
    using holds_update [where f = ?f and P' = "{r}", OF st1(2)] st1(3) by simp_all
  obtain st2 where st2: "entry_dealloc cfg (upd_entry st1 sid r ?f) sid name r = Some st2" "outside sid (upd_entry st1 sid r ?f) st2" "st_ok cfg st2 sid"
    "st_caps st2 sid = (st_caps st sid)(name := None)"
    using entry_dealloc_spec [OF h(1) _ at'(4)] h(2) by auto
  have b: "beside sid st st2" by (rule beside_trans [OF st1(4)]) (use beside_outside [OF st2(2)] in simp)
  let ?st' = "emit st2 (Notify_send_once p # port_deleted (registered st p (ie_request e)) name)"
  have "dealloc_send_once cfg st sid p name r = Some (KERN_SUCCESS, ?st')"
    using st1(1) st2(1) by (simp add: dealloc_send_once_def)
  moreover have o: "\<forall>q. bare (st_ports st2 q) = bare (st_ports st q)" "st_events st2 = st_events st"
      "\<forall>x. x \<noteq> sid \<longrightarrow> st_spaces st2 x = st_spaces st x"
    using b unfolding beside_def by blast+
  moreover have "removed cfg st sid name st2" unfolding removed_def using o(3) st2(3,4) by blast
  ultimately show ?thesis by (intro exI [of _ ?st']) simp
qed

lemma dead_remove:
  assumes at: "right_at cfg st sid name r e" and t: "IE_BITS_TYPE (ie_bits e) = MACH_PORT_TYPE_DEAD_NAME"
  shows "\<exists>st'. entry_dealloc cfg st sid name r = Some st' \<and> removed cfg st sid name st' \<and> st_ports st' = st_ports st \<and> st_events st' = st_events st"
proof -
  note at' = right_atD [OF at]
  have "unhashed e" "ie_object e = IO_NULL" using t at'(2) by (simp_all add: unhashed_def right_ok_iff right_consts)
  then have h: "holds cfg st sid {r} name r e" "caps {r} (st_spaces st sid) = st_caps st sid"
    using holds_pend [OF at'(1), of "{r}"] by simp_all
  obtain st2 where "entry_dealloc cfg st sid name r = Some st2" "outside sid st st2" "st_ok cfg st2 sid"
    "st_caps st2 sid = (st_caps st sid)(name := None)"
    using entry_dealloc_spec [OF h(1) \<open>ie_object e = IO_NULL\<close> at'(4)] h(2) by auto
  then show ?thesis by (intro exI [of _ st2]) (simp add: removed_def outside_def)
qed

section \<open>Giving back a user reference\<close>

text \<open>
  What \<^verbatim>\<open>ipc_right_dealloc\<close> is for the holder of the name: the abstract operation on its capability.
\<close>

definition dealloc_cap :: "capability \<Rightarrow> capability option" where
  "dealloc_cap c =
    (case c of (bits, obj, request) \<Rightarrow>
      if IE_BITS_UREFS bits \<noteq> 1 then Some ((bits - 1) AND IE_BITS_RIGHT_MASK, obj, request)
      else if IE_BITS_TYPE bits = MACH_PORT_TYPE_SEND_RECEIVE
      then Some (bits AND NOT (IE_BITS_UREFS_MASK OR MACH_PORT_TYPE_SEND), obj, request)
      else None)"

text \<open>The notifications it makes: for the last send right of the port, for a send-once right that is not used,
  and for a dead-name request that goes with the name.\<close>

definition dealloc_events :: "ipc_state \<Rightarrow> mach_port_t \<Rightarrow> capability \<Rightarrow> ipc_event list" where
  "dealloc_events st name c =
    (case c of (bits, p, request) \<Rightarrow>
      if IE_BITS_UREFS bits \<noteq> 1 then []
      else if IE_BITS_TYPE bits = MACH_PORT_TYPE_SEND_RECEIVE then snd (drop_send (st_ports st p))
      else if IE_BITS_TYPE bits = MACH_PORT_TYPE_SEND
      then snd (drop_send (st_ports st p)) @ port_deleted (registered st p request) name
      else if IE_BITS_TYPE bits = MACH_PORT_TYPE_SEND_ONCE
      then Notify_send_once p # port_deleted (registered st p request) name
      else [])"

lemma right_mask_add: "((b AND IE_BITS_RIGHT_MASK) + d) AND IE_BITS_RIGHT_MASK = (b + d) AND IE_BITS_RIGHT_MASK"
proof -
  have mask: "IE_BITS_RIGHT_MASK = mask 23" by (simp add: IE_BITS_RIGHT_MASK_def mask_eq_exp_minus_1)
  have m: "uint (x AND IE_BITS_RIGHT_MASK) = uint x mod 2 ^ 23" for x :: "32 word"
    unfolding mask by (simp add: unsigned_take_bit_eq take_bit_eq_mod [of 23 "uint x"] flip: take_bit_eq_mask)
  have "uint (((b AND IE_BITS_RIGHT_MASK) + d) AND IE_BITS_RIGHT_MASK) = uint ((b + d) AND IE_BITS_RIGHT_MASK)"
    unfolding m by (simp add: uint_word_ariths m mod_mod_cancel mod_simps)
  then show ?thesis by (rule word_uint_eqI)
qed

lemma dealloc_cap_entry:
  "IE_BITS_UREFS (ie_bits e) \<noteq> 1 \<Longrightarrow> dealloc_cap (capability e) = Some (capability (e\<lparr>ie_bits := ie_bits e + - 1\<rparr>))"
  "IE_BITS_UREFS (ie_bits e) = 1 \<Longrightarrow> IE_BITS_TYPE (ie_bits e) = MACH_PORT_TYPE_SEND_RECEIVE \<Longrightarrow>
    dealloc_cap (capability e) = Some (capability (e\<lparr>ie_bits := ie_bits e AND NOT (IE_BITS_UREFS_MASK OR MACH_PORT_TYPE_SEND)\<rparr>))"
  "IE_BITS_UREFS (ie_bits e) = 1 \<Longrightarrow> IE_BITS_TYPE (ie_bits e) \<noteq> MACH_PORT_TYPE_SEND_RECEIVE \<Longrightarrow> dealloc_cap (capability e) = None"
proof -
  have "(bits AND IE_BITS_RIGHT_MASK) AND m = (bits AND m) AND IE_BITS_RIGHT_MASK" for bits m by (simp add: ac_simps)
  then show
    "IE_BITS_UREFS (ie_bits e) \<noteq> 1 \<Longrightarrow> dealloc_cap (capability e) = Some (capability (e\<lparr>ie_bits := ie_bits e + - 1\<rparr>))"
    "IE_BITS_UREFS (ie_bits e) = 1 \<Longrightarrow> IE_BITS_TYPE (ie_bits e) = MACH_PORT_TYPE_SEND_RECEIVE \<Longrightarrow>
      dealloc_cap (capability e) = Some (capability (e\<lparr>ie_bits := ie_bits e AND NOT (IE_BITS_UREFS_MASK OR MACH_PORT_TYPE_SEND)\<rparr>))"
    "IE_BITS_UREFS (ie_bits e) = 1 \<Longrightarrow> IE_BITS_TYPE (ie_bits e) \<noteq> MACH_PORT_TYPE_SEND_RECEIVE \<Longrightarrow> dealloc_cap (capability e) = None"
    using right_mask_add [of "ie_bits e" "- 1"] by (simp_all add: dealloc_cap_def capability_def del: bit.de_Morgan_disj)
qed

definition cap_bits :: "capability option \<Rightarrow> ipc_entry_bits_t" where
  "cap_bits c = (case c of None \<Rightarrow> 0 | Some (bits, obj, request) \<Rightarrow> bits)"

text \<open>The result of giving back one user reference of a right of a live port, or of a dead name.\<close>

definition given_back :: "ipc_config \<Rightarrow> ipc_state \<Rightarrow> space_id \<Rightarrow> mach_port_t \<Rightarrow> ipc_entry \<Rightarrow> ipc_state \<Rightarrow> bool" where
  "given_back cfg st sid name e st' \<longleftrightarrow>
    st_ok cfg st' sid \<and> st_caps st' sid = (st_caps st sid)(name := dealloc_cap (capability e)) \<and>
    balanced (st_ports st (ie_object e)) (ie_bits e) 0 (st_ports st' (ie_object e)) (cap_bits (dealloc_cap (capability e)))
      (if IE_BITS_TYPE (ie_bits e) = MACH_PORT_TYPE_SEND_ONCE then MACH_PORT_TYPE_SEND_ONCE else 0) \<and>
    (\<forall>q. q \<noteq> ie_object e \<longrightarrow> bare (st_ports st' q) = bare (st_ports st q)) \<and>
    st_events st' = st_events st @ dealloc_events st name (capability e) \<and>
    (\<forall>x. x \<noteq> sid \<longrightarrow> st_spaces st' x = st_spaces st x)"

lemma dealloc_events_entry:
  "IE_BITS_UREFS (ie_bits e) \<noteq> 1 \<Longrightarrow> dealloc_events st name (capability e) = []"
  by (simp add: dealloc_events_def capability_def)

lemma cap_bits_entry [simp]: "cap_bits (Some (capability e)) = ie_bits e AND IE_BITS_RIGHT_MASK" "cap_bits None = 0"
  by (simp_all add: cap_bits_def capability_def)

lemma share_masked [simp]:
  "send_share (bits AND IE_BITS_RIGHT_MASK) = send_share bits" "sonce_share (bits AND IE_BITS_RIGHT_MASK) = sonce_share bits"
  "ref_share (bits AND IE_BITS_RIGHT_MASK) = ref_share bits"
  by (simp_all add: send_share_def sonce_share_def ref_share_def has_type)

lemma give_back_one:
  assumes at: "right_at cfg st sid name r e" and u: "IE_BITS_UREFS (ie_bits e) \<noteq> 1"
    and t: "IE_BITS_TYPE (ie_bits e) \<in> {MACH_PORT_TYPE_SEND, MACH_PORT_TYPE_SEND_RECEIVE, MACH_PORT_TYPE_DEAD_NAME}"
  shows "given_back cfg st sid name e (upd_entry st sid r (\<lambda>x. x\<lparr>ie_bits := ie_bits e + - 1\<rparr>))"
proof -
  note at' = right_atD [OF at]
  let ?st = "upd_entry st sid r (\<lambda>x. x\<lparr>ie_bits := ie_bits e + - 1\<rparr>)" and ?e = "e\<lparr>ie_bits := ie_bits e + - 1\<rparr>"
  have "0 < IE_BITS_UREFS (ie_bits e)" using t at'(2) by (auto simp: right_ok_iff urefs_ok_def right_consts)
  note b = urefs_back [OF this u]
  have "right_ok (capability ?e)" using right_ok_delta [OF at'(2) b(1,3)] t b(2) send_urefs(2) [OF at'(2)] by auto
  note s = urefs_step [OF at beside_refl at'(1) refl b(3) this]
  have "IE_BITS_TYPE (ie_bits e) \<noteq> MACH_PORT_TYPE_SEND_ONCE" using t by auto
  moreover have "send_share (ie_bits e + - 1) = send_share (ie_bits e)" "sonce_share (ie_bits e + - 1) = sonce_share (ie_bits e)"
    "ref_share (ie_bits e + - 1) = ref_share (ie_bits e)"
    using share_type [OF delta_fields(1) [OF b(3)]] share_type [OF refl, of "ie_bits e"] by simp_all
  ultimately show ?thesis
    using holds_st_ok [OF s(1)] s(2) dealloc_cap_entry(1) [OF u] dealloc_events_entry [OF u]
    by (simp add: given_back_def balanced_def del: upd_entry_simps(2))
qed

lemma give_back_last_send:
  assumes at: "right_at cfg st sid name r e" and t: "IE_BITS_TYPE (ie_bits e) = MACH_PORT_TYPE_SEND" and u: "IE_BITS_UREFS (ie_bits e) = 1"
  shows "\<exists>st'. dealloc_last_send cfg st sid (ie_object e) name r (ie_bits e) = Some (KERN_SUCCESS, st') \<and> given_back cfg st sid name e st'"
proof -
  let ?p = "ie_object e"
  obtain st' where st': "dealloc_last_send cfg st sid ?p name r (ie_bits e) = Some (KERN_SUCCESS, st')" "removed cfg st sid name st'"
    "bare (st_ports st' ?p) = bare ((fst (drop_send (st_ports st ?p)))\<lparr>ip_references := ip_references (st_ports st ?p) - 1\<rparr>)"
    "\<forall>q. q \<noteq> ?p \<longrightarrow> bare (st_ports st' q) = bare (st_ports st q)"
    "st_events st' = st_events st @ snd (drop_send (st_ports st ?p)) @ port_deleted (registered st ?p (ie_request e)) name"
    using dealloc_last_send_spec [OF at t] by blast
  have "balanced (st_ports st ?p) (ie_bits e) 0 (st_ports st' ?p) 0 0"
    using share_type [OF t] arg_cong [OF st'(3), of ip_srights] arg_cong [OF st'(3), of ip_sorights] arg_cong [OF st'(3), of ip_references]
    by (simp add: balanced_def drop_send_counts)
  then have "given_back cfg st sid name e st'"
    using st'(2,4,5) t u dealloc_cap_entry(3) [OF u]
    by (simp add: given_back_def removed_def dealloc_events_def capability_def)
  with st'(1) show ?thesis by blast
qed

lemma give_back_send_once:
  assumes at: "right_at cfg st sid name r e" and t: "IE_BITS_TYPE (ie_bits e) = MACH_PORT_TYPE_SEND_ONCE"
  shows "\<exists>st'. dealloc_send_once cfg st sid (ie_object e) name r = Some (KERN_SUCCESS, st') \<and> given_back cfg st sid name e st'"
proof -
  let ?p = "ie_object e"
  have u: "IE_BITS_UREFS (ie_bits e) = 1" using right_atD(2) [OF at] t by (simp add: right_ok_iff urefs_ok_def right_consts)
  obtain st' where st': "dealloc_send_once cfg st sid ?p name r = Some (KERN_SUCCESS, st')" "removed cfg st sid name st'"
    "\<forall>q. bare (st_ports st' q) = bare (st_ports st q)"
    "st_events st' = st_events st @ Notify_send_once ?p # port_deleted (registered st ?p (ie_request e)) name"
    using dealloc_send_once_spec [OF at t] by blast
  have "balanced (st_ports st ?p) (ie_bits e) 0 (st_ports st' ?p) 0 MACH_PORT_TYPE_SEND_ONCE"
    using share_type [OF t] st'(3) [rule_format, of ?p] bare_fields [of "st_ports st ?p"] bare_fields [of "st_ports st' ?p"]
    by (simp add: balanced_def)
  then have "given_back cfg st sid name e st'"
    using st'(2-4) t u dealloc_cap_entry(3) [OF u]
    by (simp add: given_back_def removed_def dealloc_events_def capability_def)
  with st'(1) show ?thesis by blast
qed

lemma give_back_dead_name:
  assumes at: "right_at cfg st sid name r e" and t: "IE_BITS_TYPE (ie_bits e) = MACH_PORT_TYPE_DEAD_NAME"
  shows "\<exists>st'. dealloc_dead cfg st sid name r (ie_bits e) = Some (KERN_SUCCESS, st') \<and> given_back cfg st sid name e st'"
proof (cases "IE_BITS_UREFS (ie_bits e) = 1")
  case True
  obtain st' where st': "entry_dealloc cfg st sid name r = Some st'" "removed cfg st sid name st'" "st_ports st' = st_ports st" "st_events st' = st_events st"
    using dead_remove [OF at t] by blast
  have "given_back cfg st sid name e st'"
    using st'(2-4) t True dealloc_cap_entry(3) [OF True] share_type [OF t]
    by (simp add: given_back_def removed_def dealloc_events_def capability_def balanced_def)
  with st'(1) True show ?thesis by (simp add: dealloc_dead_def)
next
  case False
  with give_back_one [OF at False] t show ?thesis by (simp add: dealloc_dead_def)
qed

lemma give_back_send_receive:
  assumes at: "right_at cfg st sid name r e" and t: "IE_BITS_TYPE (ie_bits e) = MACH_PORT_TYPE_SEND_RECEIVE" and u: "IE_BITS_UREFS (ie_bits e) = 1"
  defines "f \<equiv> \<lambda>x. x\<lparr>ie_bits := ie_bits e AND NOT (IE_BITS_UREFS_MASK OR MACH_PORT_TYPE_SEND)\<rparr>"
  shows "given_back cfg st sid name e (emit (upd_entry (upd_port st (ie_object e) (\<lambda>port. fst (drop_send port))) sid r f) (snd (drop_send (st_ports st (ie_object e)))))"
proof -
  let ?st = "upd_port st (ie_object e) (\<lambda>port. fst (drop_send port))" and ?b = "ie_bits e AND NOT (IE_BITS_UREFS_MASK OR MACH_PORT_TYPE_SEND)"
  note b = drop_send_bits [of "ie_bits e"] and at' = right_atD [OF at]
  have type: "IE_BITS_TYPE ?b = MACH_PORT_TYPE_RECEIVE" using b(3) t .
  have h: "holds cfg ?st sid {} name r e" using at'(1) holds_cong [of ?st st sid cfg "{}" name r e] by simp
  have "same_slot e (f e)" "unhashed e" "unhashed (f e)"
    using b(1) t type by (simp_all add: f_def same_slot_def unhashed_def right_consts)
  then have up: "st_ok cfg (upd_entry ?st sid r f) sid" "st_caps (upd_entry ?st sid r f) sid = (st_caps st sid)(name \<mapsto> capability (f e))"
    using holds_update [where f = f, OF h, of "{}"] holds_st_ok by (simp_all add: del: upd_entry_simps(2))
  have "dealloc_cap (capability e) = Some (capability (f e))" using dealloc_cap_entry(2) [OF u t] by (simp add: f_def)
  moreover have "balanced (st_ports st (ie_object e)) (ie_bits e) 0 (fst (drop_send (st_ports st (ie_object e)))) (ie_bits (f e)) 0"
    using share_type [OF t] share_type [OF type] by (simp add: balanced_def drop_send_counts f_def)
  then have "balanced (st_ports st (ie_object e)) (ie_bits e) 0 (fst (drop_send (st_ports st (ie_object e)))) (ie_bits (f e) AND IE_BITS_RIGHT_MASK) 0"
    by (simp add: balanced_def)
  moreover have "dealloc_events st name (capability e) = snd (drop_send (st_ports st (ie_object e)))"
    using t u by (simp add: dealloc_events_def capability_def)
  ultimately show ?thesis
    using up t by (simp add: given_back_def st_ok_def del: upd_entry_simps(2))
qed

lemma dealloc_live_spec:
  assumes at: "right_at cfg st sid name r e"
    and live: "IE_BITS_TYPE (ie_bits e) \<noteq> MACH_PORT_TYPE_DEAD_NAME \<longrightarrow> ip_active (st_ports st (ie_object e))"
    and t: "IE_BITS_TYPE (ie_bits e) \<notin> {MACH_PORT_TYPE_RECEIVE, MACH_PORT_TYPE_PORT_SET}"
  shows "\<exists>st'. ipc_right_dealloc cfg st sid name r = Some (KERN_SUCCESS, st') \<and> given_back cfg st sid name e st'"
proof -
  note at' = right_atD [OF at]
  from at'(2) show ?thesis
  proof (cases rule: right_cases)
    case send
    then have c: "ipc_right_check cfg st sid (ie_object e) name r = Some (False, st)" using live by (simp add: check_live)
    show ?thesis
    proof (cases "IE_BITS_UREFS (ie_bits e) = 1")
      case True
      with give_back_last_send [OF at send(1) True] c send(1) at'(7) show ?thesis by (simp add: ipc_right_dealloc_def Let_def)
    next
      case False
      with give_back_one [OF at False] c send(1) at'(7) show ?thesis by (simp add: ipc_right_dealloc_def Let_def)
    qed
  next
    case send_receive
    show ?thesis
    proof (cases "IE_BITS_UREFS (ie_bits e) = 1")
      case True
      with give_back_send_receive [OF at send_receive(1) True] send_receive(1) at'(7) show ?thesis
        by (simp add: ipc_right_dealloc_def port_drop_send_upd Let_def)
    next
      case False
      with give_back_one [OF at False] send_receive(1) at'(7) show ?thesis by (simp add: ipc_right_dealloc_def Let_def)
    qed
  next
    case send_once
    then have "ipc_right_check cfg st sid (ie_object e) name r = Some (False, st)" using live by (simp add: check_live)
    with give_back_send_once [OF at send_once(1)] send_once(1) at'(7) show ?thesis by (simp add: ipc_right_dealloc_def Let_def)
  next
    case dead_name
    with give_back_dead_name [OF at dead_name(1)] at'(7) show ?thesis by (simp add: ipc_right_dealloc_def Let_def)
  qed (use t in auto)
qed

text \<open>The right of a dead port is first turned into a dead name.\<close>

lemma buried_right_at:
  assumes at: "right_at cfg st sid name r e" and b: "buried cfg st sid name r e st' e'"
  shows "right_at cfg st' sid name r e'"
proof -
  have ok: "right_ok (capability e')" "IE_BITS_TYPE (ie_bits e') = MACH_PORT_TYPE_DEAD_NAME" using b unfolding buried_def by blast+
  then have "ie_request e' = 0" "\<not> has (ie_bits e') IE_BITS_MAREQUEST" by (auto simp: right_ok_iff right_consts)
  with b right_atD(4) [OF at] show ?thesis
    by (auto simp: right_at_def buried_def linked_request_def linked_marequest_def)
qed

lemma dealloc_dying_spec:
  assumes at: "right_at cfg st sid name r e" and dead: "\<not> ip_active (st_ports st (ie_object e))"
    and t: "IE_BITS_TYPE (ie_bits e) \<in> {MACH_PORT_TYPE_SEND, MACH_PORT_TYPE_SEND_ONCE}"
  shows "\<exists>st1 e1 st'. ipc_right_dealloc cfg st sid name r = Some (KERN_SUCCESS, st') \<and>
    buried cfg st sid name r e st1 e1 \<and> given_back cfg st1 sid name e1 st'"
proof -
  note at' = right_atD [OF at]
  obtain st1 e1 where c: "ipc_right_check cfg st sid (ie_object e) name r = Some (True, st1)" "buried cfg st sid name r e st1 e1"
    using check_dead_spec [OF at dead t] by blast
  note at1 = buried_right_at [OF at c(2)]
  have "IE_BITS_TYPE (ie_bits e1) = MACH_PORT_TYPE_DEAD_NAME" using c(2) by (simp add: buried_def)
  from give_back_dead_name [OF at1 this] obtain st' where
    st': "dealloc_dead cfg st1 sid name r (ie_bits e1) = Some (KERN_SUCCESS, st')" "given_back cfg st1 sid name e1 st'" by blast
  have "ipc_right_dealloc cfg st sid name r = Some (KERN_SUCCESS, st')"
    using c(1) st'(1) t at'(3,7) right_atD(7) [OF at1] by (auto simp: ipc_right_dealloc_def Let_def)
  with c(2) st'(2) show ?thesis by blast
qed

end
