(* ===== verification/Right_Receive.thy ===== *)
theory Right_Receive
  imports Right_Ops
begin

text \<open>
  Taking a right out of a message: \<^verbatim>\<open>ipc_right_copyout\<close> as a change of the map from names to
  capabilities and of the counts of the port.
\<close>

text \<open>An entry that is to get the right: one that has a right for the port already, or a new one.\<close>

definition fresh_at :: "ipc_config \<Rightarrow> ipc_state \<Rightarrow> space_id \<Rightarrow> mach_port_t \<Rightarrow> entry_ref \<Rightarrow> ipc_entry \<Rightarrow> bool" where
  "fresh_at cfg st sid name r e \<longleftrightarrow>
    holds cfg st sid {r} name r e \<and> ie_bits e AND IE_BITS_RIGHT_MASK = 0 \<and> ie_object e \<noteq> IO_NULL \<and> ie_request e = 0 \<and>
    unsent {r} sid (st_hash st) (st_spaces st sid) (ie_object e)"

text \<open>
  The right \<open>hand\<close> of a message is now in the entry; the counts of the port change by what is there
  less.  The ports in \<open>D\<close> may have changed, too.
\<close>

definition received ::
    "ipc_config \<Rightarrow> ipc_state \<Rightarrow> space_id \<Rightarrow> mach_port_t \<Rightarrow> entry_ref \<Rightarrow> ipc_entry \<Rightarrow> ipc_entry_bits_t \<Rightarrow> ipc_port_t set \<Rightarrow>
     ipc_state \<Rightarrow> ipc_entry \<Rightarrow> bool" where
  "received cfg st sid name r e hand D st' e' \<longleftrightarrow>
    holds cfg st' sid {} name r e' \<and> right_ok (capability e') \<and>
    st_caps st' sid = (caps (pending r e) (st_spaces st sid))(name \<mapsto> capability e') \<and>
    balanced (st_ports st (ie_object e)) (ie_bits e) hand (st_ports st' (ie_object e)) (ie_bits e') 0 \<and>
    (\<forall>q. q \<notin> insert (ie_object e) D \<longrightarrow> st_ports st' q = st_ports st q) \<and>
    (\<forall>x. x \<noteq> sid \<longrightarrow> st_spaces st' x = st_spaces st x)"

lemma fresh_bits:
  assumes "bits AND IE_BITS_RIGHT_MASK = 0"
  shows "IE_BITS_TYPE bits = MACH_PORT_TYPE_NONE" "IE_BITS_UREFS bits = 0" "\<not> has bits IE_BITS_MAREQUEST" "\<not> has bits IE_BITS_COMPAT"
  using assms cap_fields [of bits] by (simp_all add: IE_BITS_fields has_def right_consts)

lemma or_send_bits:
  assumes "IE_BITS_UREFS bits + 1 \<le> MACH_PORT_UREFS_MAX"
  defines "bits' \<equiv> (bits OR MACH_PORT_TYPE_SEND) + 1"
  shows "bits' AND NOT IE_BITS_RIGHT_MASK = bits AND NOT IE_BITS_RIGHT_MASK"
    and "IE_BITS_TYPE bits' = IE_BITS_TYPE bits OR MACH_PORT_TYPE_SEND" and "IE_BITS_UREFS bits' = IE_BITS_UREFS bits + 1"
    and "has bits' IE_BITS_MAREQUEST = has bits IE_BITS_MAREQUEST" and "has bits' IE_BITS_COMPAT = has bits IE_BITS_COMPAT"
proof -
  have b: "(bits OR MACH_PORT_TYPE_SEND) AND NOT IE_BITS_RIGHT_MASK = bits AND NOT IE_BITS_RIGHT_MASK"
    "IE_BITS_TYPE (bits OR MACH_PORT_TYPE_SEND) = IE_BITS_TYPE bits OR MACH_PORT_TYPE_SEND"
    "IE_BITS_UREFS (bits OR MACH_PORT_TYPE_SEND) = IE_BITS_UREFS bits"
    "has (bits OR MACH_PORT_TYPE_SEND) IE_BITS_MAREQUEST = has bits IE_BITS_MAREQUEST"
    "has (bits OR MACH_PORT_TYPE_SEND) IE_BITS_COMPAT = has bits IE_BITS_COMPAT"
    by (simp_all add: IE_BITS_fields has_def mask_OR right_consts)
  have "IE_BITS_UREFS (bits OR MACH_PORT_TYPE_SEND) + 1 \<le> MACH_PORT_UREFS_MAX" using assms(1) b(3) by simp
  note d = delta_fields [OF this] urefs_delta(2) [OF this]
  show "bits' AND NOT IE_BITS_RIGHT_MASK = bits AND NOT IE_BITS_RIGHT_MASK" "IE_BITS_TYPE bits' = IE_BITS_TYPE bits OR MACH_PORT_TYPE_SEND"
    "IE_BITS_UREFS bits' = IE_BITS_UREFS bits + 1" "has bits' IE_BITS_MAREQUEST = has bits IE_BITS_MAREQUEST"
    "has bits' IE_BITS_COMPAT = has bits IE_BITS_COMPAT"
    using b d by (simp_all add: bits'_def)
qed

abbreviation less_send :: "ipc_port \<Rightarrow> ipc_port" where
  "less_send port \<equiv> port\<lparr>ip_srights := ip_srights port - 1, ip_references := ip_references port - 1\<rparr>"

lemma urefs_up:
  fixes u :: "32 word"
  assumes "u < MACH_PORT_UREFS_MAX" and "u + 1 \<noteq> MACH_PORT_UREFS_MAX"
  shows "u + 1 < MACH_PORT_UREFS_MAX" and "0 < u + 1"
proof -
  have u: "unat (u + 1) = unat u + 1" "unat u < 65535" "unat (u + 1) \<noteq> 65535"
    using assms by (auto simp: MACH_PORT_UREFS_MAX_def push_bit_eq_mult word_less_nat_alt unat_word_ariths word_unat_eq_iff)
  then show "u + 1 < MACH_PORT_UREFS_MAX" "0 < u + 1" by (simp_all add: MACH_PORT_UREFS_MAX_def push_bit_eq_mult word_less_nat_alt)
qed

lemma copyout_send_has:
  assumes at: "right_at cfg st sid name r e" and t: "IE_BITS_TYPE (ie_bits e) \<in> {MACH_PORT_TYPE_SEND, MACH_PORT_TYPE_SEND_RECEIVE}"
    and u: "IE_BITS_UREFS (ie_bits e) + 1 \<noteq> MACH_PORT_UREFS_MAX"
  shows "\<exists>st' e'. copyout_send st sid name r overflow (ie_object e) = Some (KERN_SUCCESS, st') \<and>
    received cfg st sid name r e MACH_PORT_TYPE_SEND {} st' e' \<and> IE_BITS_UREFS (ie_bits e') = IE_BITS_UREFS (ie_bits e) + 1"
proof -
  note at' = right_atD [OF at] and a = right_alive [OF at]
  let ?p = "ie_object e" and ?b = "(ie_bits e OR MACH_PORT_TYPE_SEND) + 1"
  let ?f = "\<lambda>x. x\<lparr>ie_bits := ?b\<rparr>" and ?st = "upd_port st ?p less_send"
  have has: "has (ie_bits e) MACH_PORT_TYPE_SEND" using t unfolding right_tests [OF at'(2)] .
  note max = urefs_up [OF send_urefs(2) [OF at'(2) t] u]
  note b = or_send_bits [OF less_imp_le [OF max(1)]]
  have type: "IE_BITS_TYPE ?b = IE_BITS_TYPE (ie_bits e)" using b(2) t by (auto simp: right_consts)
  have h: "holds cfg ?st sid {} name r e" using at'(1) holds_cong [of ?st st sid cfg "{}" name r e] by simp
  have s: "same_slot e (?f e)" using b(1) by (simp add: same_slot_def)
  note k = holds_keep [where f = ?f, OF h s _ _ _ a(1)]
  have ok: "right_ok (capability (?f e))"
    using at'(2) t max type b(3,4) by (simp add: right_ok_iff urefs_ok_def)
  have "received cfg st sid name r e MACH_PORT_TYPE_SEND {} (upd_entry ?st sid r ?f) (?f e)"
    using k type ok a(2) share_type [OF type] share_type [OF refl, of "ie_bits e"]
    by (simp add: received_def balanced_def del: upd_entry_simps(2))
  moreover have "copyout_send st sid name r overflow ?p = Some (KERN_SUCCESS, upd_entry ?st sid r ?f)"
    using has u at'(7) by (simp add: copyout_send_def Let_def)
  ultimately show ?thesis using b(3) by (intro exI [of _ "upd_entry ?st sid r ?f"] exI [of _ "?f e"]) simp
qed

text \<open>A receive right that gets a send right of the same port: one of the two references goes.\<close>

lemma copyout_send_receive:
  assumes at: "right_at cfg st sid name r e" and t: "IE_BITS_TYPE (ie_bits e) = MACH_PORT_TYPE_RECEIVE"
  shows "\<exists>st' e'. copyout_send st sid name r overflow (ie_object e) = Some (KERN_SUCCESS, st') \<and>
    received cfg st sid name r e MACH_PORT_TYPE_SEND {} st' e' \<and> IE_BITS_UREFS (ie_bits e') = 1"
proof -
  note at' = right_atD [OF at] and a = right_alive [OF at]
  let ?p = "ie_object e" and ?b = "(ie_bits e OR MACH_PORT_TYPE_SEND) + 1"
  let ?f = "\<lambda>x. x\<lparr>ie_bits := ?b\<rparr>" and ?st = "ip_release st ?p"
  have has: "\<not> has (ie_bits e) MACH_PORT_TYPE_SEND" "has (ie_bits e) MACH_PORT_TYPE_RECEIVE" using t unfolding right_tests [OF at'(2)] by simp_all
  have u: "IE_BITS_UREFS (ie_bits e) = 0" using at'(2) t by (auto simp: right_ok_iff urefs_ok_def)
  have "IE_BITS_UREFS (ie_bits e) + 1 \<le> MACH_PORT_UREFS_MAX" using u by (simp add: MACH_PORT_UREFS_MAX_def)
  note b = or_send_bits [OF this]
  have type: "IE_BITS_TYPE ?b = MACH_PORT_TYPE_SEND_RECEIVE" using b(2) t by (simp add: right_consts)
  have h: "holds cfg ?st sid {} name r e" using at'(1) holds_cong [of ?st st sid cfg "{}" name r e] by (simp add: ip_release_def)
  have s: "same_slot e (?f e)" using b(1) by (simp add: same_slot_def)
  have un: "unhashed e" "unhashed (?f e)" using t type by (simp_all add: unhashed_def right_consts)
  note k = holds_update [where f = ?f and P' = "{}", OF h s]
  have ok: "right_ok (capability (?f e))"
    using at'(2) t type b(3,4) u by (simp add: right_ok_iff urefs_ok_def MACH_PORT_UREFS_MAX_def) (simp add: right_consts)
  have "received cfg st sid name r e MACH_PORT_TYPE_SEND {} (upd_entry ?st sid r ?f) (?f e)"
    using k un ok a(2) share_type [OF type] share_type [OF t]
    by (simp add: received_def balanced_def ip_release_def del: upd_entry_simps(2))
  moreover have "copyout_send st sid name r overflow ?p = Some (KERN_SUCCESS, upd_entry ?st sid r ?f)"
    using has at'(7) by (simp add: copyout_send_def Let_def)
  ultimately show ?thesis using b(3) u by (intro exI [of _ "upd_entry ?st sid r ?f"] exI [of _ "?f e"]) simp
qed

lemma hash_insert_as:
  assumes h: "holds cfg st sid {r} name r e" and new: "unsent {r} sid (st_hash st) (st_spaces st sid) (ie_object e)"
    and f: "\<And>ix. same_slot (e\<lparr>ie_index := ix\<rparr>) (f (e\<lparr>ie_index := ix\<rparr>))"
      "\<And>ix. IE_BITS_TYPE (ie_bits (f (e\<lparr>ie_index := ix\<rparr>))) = MACH_PORT_TYPE_SEND" "\<And>ix. ie_object (f (e\<lparr>ie_index := ix\<rparr>)) = ie_object e"
  shows "\<exists>st' ix. hash_insert st sid (ie_object e) name r = Some st' \<and> outside sid st st' \<and>
    holds cfg (upd_entry st' sid r f) sid {} name r (f (e\<lparr>ie_index := ix\<rparr>)) \<and>
    st_caps (upd_entry st' sid r f) sid = (caps {r} (st_spaces st sid))(name \<mapsto> capability (f (e\<lparr>ie_index := ix\<rparr>)))"
  using hash_insert_spec [OF h new]
proof (elim exE conjE, goal_cases)
  case (1 st' ix)
  then show ?case using f by (intro exI [of _ st'] exI [of _ ix]) (simp del: upd_entry_simps(2))
qed

text \<open>A new entry for a send right is entered in the reverse hash tables.\<close>

lemma copyout_send_fresh:
  assumes at: "fresh_at cfg st sid name r e"
  shows "\<exists>st' e'. copyout_send st sid name r overflow (ie_object e) = Some (KERN_SUCCESS, st') \<and>
    received cfg st sid name r e MACH_PORT_TYPE_SEND {} st' e' \<and> capability e' = (MACH_PORT_TYPE_SEND OR 1, ie_object e, 0)"
proof -
  let ?p = "ie_object e" and ?b = "(ie_bits e OR MACH_PORT_TYPE_SEND) + 1" and ?f = "\<lambda>x. x\<lparr>ie_bits := (ie_bits e OR MACH_PORT_TYPE_SEND) + 1\<rparr>"
  note at' = at [unfolded fresh_at_def]
  have "ie_bits e AND IE_BITS_RIGHT_MASK = 0" using at' by simp
  note z = fresh_bits [OF this]
  have "IE_BITS_UREFS (ie_bits e) + 1 \<le> MACH_PORT_UREFS_MAX" using z at' by (simp add: MACH_PORT_UREFS_MAX_def)
  note b = or_send_bits [OF this]
  have type: "IE_BITS_TYPE ?b = MACH_PORT_TYPE_SEND" "IE_BITS_TYPE (ie_bits e) = MACH_PORT_TYPE_NONE" using b(2) z at' by (simp_all add: right_consts)
  have has: "\<not> has (ie_bits e) MACH_PORT_TYPE_SEND" "\<not> has (ie_bits e) MACH_PORT_TYPE_RECEIVE"
    using type(2) unfolding has_type by (simp_all add: right_consts)
  have h: "holds cfg st sid {r} name r e" "unsent {r} sid (st_hash st) (st_spaces st sid) ?p" and req: "ie_request e = 0" using at' by simp_all
  have slot: "same_slot (e\<lparr>ie_index := ix\<rparr>) (?f (e\<lparr>ie_index := ix\<rparr>))" for ix using b(1) by (simp add: same_slot_def)
  have "IE_BITS_TYPE (ie_bits (?f (e\<lparr>ie_index := ix\<rparr>))) = MACH_PORT_TYPE_SEND" "ie_object (?f (e\<lparr>ie_index := ix\<rparr>)) = ?p" for ix
    using type(1) by simp_all
  with hash_insert_as [where f = ?f, OF h slot] obtain st1 ix where st1: "hash_insert st sid ?p name r = Some st1" "outside sid st st1"
    "holds cfg (upd_entry st1 sid r ?f) sid {} name r (?f (e\<lparr>ie_index := ix\<rparr>))"
    "st_caps (upd_entry st1 sid r ?f) sid = (caps {r} (st_spaces st sid))(name \<mapsto> capability (?f (e\<lparr>ie_index := ix\<rparr>)))"
    by blast
  let ?e = "?f (e\<lparr>ie_index := ix\<rparr>)"
  have cap: "capability ?e = (MACH_PORT_TYPE_SEND OR 1, ?p, 0)"
    using type(1) b(3,4,5) z req by (simp add: capability_def right_bits)
  have ok: "right_ok (capability ?e)"
    using type(1) b(3,4) z at' by (simp add: right_ok_iff urefs_ok_def MACH_PORT_UREFS_MAX_def)
  have "received cfg st sid name r e MACH_PORT_TYPE_SEND {} (upd_entry st1 sid r ?f) ?e"
    using st1(2,3,4) ok type share_type [OF type(1)] share_type [OF type(2)]
    by (simp add: received_def balanced_def pending_def outside_def del: upd_entry_simps(2))
  moreover have "copyout_send st sid name r overflow ?p = Some (KERN_SUCCESS, upd_entry st1 sid r ?f)"
    using has at' holds_get [of cfg st sid "{r}" name r e] st1(1) by (simp add: copyout_send_def Let_def)
  ultimately show ?thesis using cap by (intro exI [of _ "upd_entry st1 sid r ?f"] exI [of _ ?e]) simp
qed

text \<open>A new entry that becomes a right that is not in the hash tables.\<close>

lemma fresh_step:
  assumes at: "fresh_at cfg st sid name r e" and f: "same_slot e (f e)" "unhashed (f e)" "right_ok (capability (f e))"
    and same: "st_hash st1 = st_hash st" "st_spaces st1 = st_spaces st"
    and bal: "balanced (st_ports st (ie_object e)) 0 hand (st_ports st1 (ie_object e)) (ie_bits (f e)) 0"
    and o: "\<forall>q. q \<notin> insert (ie_object e) D \<longrightarrow> st_ports st1 q = st_ports st q"
  shows "received cfg st sid name r e hand D (upd_entry st1 sid r f) (f e)"
proof -
  note at' = at [unfolded fresh_at_def]
  have "ie_bits e AND IE_BITS_RIGHT_MASK = 0" using at' by simp
  note z = fresh_bits [OF this]
  have h: "holds cfg st1 sid {r} name r e" using at' same holds_cong [of st1 st sid cfg "{r}" name r e] by simp
  note k = holds_update [where f = f and P' = "{}", OF h f(1)]
  show ?thesis
    using k f(2,3) bal o same share_type [OF z(1)] z(1)
    by (simp add: received_def balanced_def pending_def del: upd_entry_simps(2))
qed

lemma or_fields:
  assumes "m AND NOT IE_BITS_RIGHT_MASK = 0"
  shows "(bits OR m) AND NOT IE_BITS_RIGHT_MASK = bits AND NOT IE_BITS_RIGHT_MASK"
  using assms by (simp add: mask_OR)

lemma copyout_send_once_fresh:
  assumes at: "fresh_at cfg st sid name r e"
  defines "f \<equiv> \<lambda>x. x\<lparr>ie_bits := ie_bits x OR (MACH_PORT_TYPE_SEND_ONCE OR 1)\<rparr>"
  shows "received cfg st sid name r e MACH_PORT_TYPE_SEND_ONCE {} (upd_entry st sid r f) (f e)"
    and "capability (f e) = (MACH_PORT_TYPE_SEND_ONCE OR 1, ie_object e, 0)"
proof -
  note at' = at [unfolded fresh_at_def]
  have "ie_bits e AND IE_BITS_RIGHT_MASK = 0" using at' by simp
  note z = fresh_bits [OF this]
  have b: "IE_BITS_TYPE (ie_bits (f e)) = MACH_PORT_TYPE_SEND_ONCE" "IE_BITS_UREFS (ie_bits (f e)) = 1"
    "\<not> has (ie_bits (f e)) IE_BITS_MAREQUEST" "\<not> has (ie_bits (f e)) IE_BITS_COMPAT"
    using z by (simp_all add: f_def fields_OR) (simp_all add: has_def right_consts)
  have s: "same_slot e (f e)" using or_fields [of "MACH_PORT_TYPE_SEND_ONCE OR 1" "ie_bits e"] by (simp add: same_slot_def f_def right_consts)
  have k: "ie_object (f e) = ie_object e" "ie_request (f e) = 0" "ie_object e \<noteq> IO_NULL" using at' by (simp_all add: f_def)
  have ok: "right_ok (capability (f e))" using b k by (simp add: right_ok_iff urefs_ok_def)
  have un: "unhashed (f e)" using b(1) by (simp add: unhashed_def) (simp add: right_consts)
  show "received cfg st sid name r e MACH_PORT_TYPE_SEND_ONCE {} (upd_entry st sid r f) (f e)"
    using s ok un share_type [OF b(1)] by (intro fresh_step [OF at]) (simp_all add: balanced_def)
  show "capability (f e) = (MACH_PORT_TYPE_SEND_ONCE OR 1, ie_object e, 0)" using b k by (simp add: capability_def right_bits)
qed

text \<open>
  A receive right takes the port out of transit: the reference that was held of its destination goes.
\<close>

lemma release_rest [simp]:
  "st_hash (ipc_port_release st p) = st_hash st" "st_spaces (ipc_port_release st p) = st_spaces st"
  "q \<noteq> p \<Longrightarrow> st_ports (ipc_port_release st p) q = st_ports st q"
  by (auto simp: ipc_port_release_def ip_check_unlock_def state_simps Let_def)

lemma port_release_commute: "ipc_port_release (upd_entry st sid r f) p = upd_entry (ipc_port_release st p) sid r f"
  by (simp add: upd_entry_def ipc_port_release_def ip_check_unlock_def upd_port_def set_port_def set_space_def get_entry_def emit_def Let_def)

lemma receive_bits:
  assumes "\<not> has bits IE_BITS_COMPAT"
  defines "bits' \<equiv> bits OR MACH_PORT_TYPE_RECEIVE"
  shows "bits' AND NOT IE_BITS_RIGHT_MASK = bits AND NOT IE_BITS_RIGHT_MASK" and "IE_BITS_TYPE bits' = IE_BITS_TYPE bits OR MACH_PORT_TYPE_RECEIVE"
    and "IE_BITS_UREFS bits' = IE_BITS_UREFS bits" and "has bits' IE_BITS_MAREQUEST = has bits IE_BITS_MAREQUEST"
    and "\<not> has bits' IE_BITS_COMPAT"
  using assms by (simp_all add: bits'_def IE_BITS_fields has_def mask_OR right_consts)

lemma copyout_receive_fresh:
  assumes at: "fresh_at cfg st sid name r e" and d: "ip_destination (st_ports st (ie_object e)) \<noteq> ie_object e"
  defines "dest \<equiv> ip_destination (st_ports st (ie_object e))"
  shows "\<exists>st' e'. copyout_receive st sid name r (ie_object e) = Some (KERN_SUCCESS, st') \<and>
    received cfg st sid name r e MACH_PORT_TYPE_RECEIVE {dest} st' e' \<and> capability e' = (MACH_PORT_TYPE_RECEIVE, ie_object e, 0) \<and>
    ip_receiver (st_ports st' (ie_object e)) = sid \<and> ip_receiver_name (st_ports st' (ie_object e)) = name"
proof -
  let ?p = "ie_object e" and ?b = "ie_bits e OR MACH_PORT_TYPE_RECEIVE"
  let ?f = "\<lambda>x. x\<lparr>ie_bits := ?b\<rparr>" and ?st = "upd_port st ?p (\<lambda>port. port\<lparr>ip_receiver_name := name, ip_receiver := sid\<rparr>)"
  let ?st' = "if dest \<noteq> IP_NULL then ipc_port_release ?st dest else ?st"
  note at' = at [unfolded fresh_at_def]
  have "ie_bits e AND IE_BITS_RIGHT_MASK = 0" using at' by simp
  note z = fresh_bits [OF this] and b = receive_bits [OF fresh_bits(4) [OF this]]
  have type: "IE_BITS_TYPE ?b = MACH_PORT_TYPE_RECEIVE" using b(2) z(1) by (simp add: right_consts)
  have k: "ie_request e = 0" "?p \<noteq> IO_NULL" "get_entry st sid r = e" using at' holds_get by blast+
  have ok: "right_ok (capability (?f e))" using type b z(2,3) k by (simp add: right_ok_iff urefs_ok_def)
  have un: "unhashed (?f e)" using type by (simp add: unhashed_def) (simp add: right_consts)
  have port: "st_ports ?st' ?p = (st_ports st ?p)\<lparr>ip_receiver_name := name, ip_receiver := sid\<rparr>"
    using d by (simp add: dest_def [symmetric])
  have "received cfg st sid name r e MACH_PORT_TYPE_RECEIVE {dest} (upd_entry ?st' sid r ?f) (?f e)"
    using ok un b(1) share_type [OF type] port
    by (intro fresh_step [OF at]) (simp_all add: balanced_def same_slot_def)
  moreover have "copyout_receive st sid name r ?p = Some (KERN_SUCCESS, upd_entry ?st' sid r ?f)"
    using z(1) k unfolding copyout_receive_def has_type by (simp add: Let_def dest_def [symmetric] right_consts port_release_commute)
  moreover have "capability (?f e) = (MACH_PORT_TYPE_RECEIVE, ie_object e, 0)" using type b z k by (simp add: capability_def right_bits)
  ultimately show ?thesis using port by (intro exI [of _ "upd_entry ?st' sid r ?f"] exI [of _ "?f e"]) simp
qed

lemma copyout_receive_send:
  assumes at: "right_at cfg st sid name r e" and t: "IE_BITS_TYPE (ie_bits e) = MACH_PORT_TYPE_SEND"
    and d: "ip_destination (st_ports st (ie_object e)) \<noteq> ie_object e"
  defines "dest \<equiv> ip_destination (st_ports st (ie_object e))"
  shows "\<exists>st' e'. copyout_receive st sid name r (ie_object e) = Some (KERN_SUCCESS, st') \<and>
    received cfg st sid name r e MACH_PORT_TYPE_RECEIVE {dest} st' e' \<and> IE_BITS_UREFS (ie_bits e') = IE_BITS_UREFS (ie_bits e) \<and>
    ip_receiver (st_ports st' (ie_object e)) = sid \<and> ip_receiver_name (st_ports st' (ie_object e)) = name"
proof -
  note at' = right_atD [OF at] and a = right_alive [OF at]
  let ?p = "ie_object e" and ?b = "ie_bits e OR MACH_PORT_TYPE_RECEIVE"
  let ?f = "\<lambda>x. x\<lparr>ie_bits := ?b\<rparr>" and ?st = "ip_release (upd_port st ?p (\<lambda>port. port\<lparr>ip_receiver_name := name, ip_receiver := sid\<rparr>)) ?p"
  note b = receive_bits [OF at'(3)]
  have type: "IE_BITS_TYPE ?b = MACH_PORT_TYPE_SEND_RECEIVE" using b(2) t by (simp add: right_consts)
  have h: "holds cfg ?st sid {} name r e" using at'(1) holds_cong [of ?st st sid cfg "{}" name r e] by (simp add: ip_release_def)
  from hash_delete_spec [OF h t] obtain st1 ix where
    st1: "hash_delete ?st sid ?p name r = Some st1" "outside sid ?st st1" "holds cfg st1 sid {r} name r (e\<lparr>ie_index := ix\<rparr>)"
      "caps {r} (st_spaces st1 sid) = st_caps ?st sid" by blast
  let ?e = "e\<lparr>ie_index := ix\<rparr>" and ?st' = "if dest \<noteq> IP_NULL then ipc_port_release st1 dest else st1"
  have h': "holds cfg ?st' sid {r} name r ?e" using st1(3) holds_cong [of ?st' st1 sid cfg "{r}" name r ?e] by simp
  have s: "same_slot ?e (?f ?e)" using b(1) by (simp add: same_slot_def)
  have un: "unhashed (?f ?e)" using type by (simp add: unhashed_def) (simp add: right_consts)
  note k = holds_update [where f = ?f and P' = "{}", OF h' s]
  have ok: "right_ok (capability (?f ?e))"
    using at'(2) t type b(3,4) by (simp add: right_ok_iff urefs_ok_def) (simp add: right_consts)
  have ports: "st_ports st1 = st_ports ?st" "\<And>x. x \<noteq> sid \<Longrightarrow> st_spaces st1 x = st_spaces ?st x" using st1(2) by (simp_all add: outside_def)
  have port: "st_ports ?st' ?p = (st_ports st ?p)\<lparr>ip_receiver_name := name, ip_receiver := sid, ip_references := ip_references (st_ports st ?p) - 1\<rparr>"
    using d ports(1) by (simp add: dest_def [symmetric] ip_release_def)
  have sp: "q \<noteq> ?p \<Longrightarrow> q \<noteq> dest \<Longrightarrow> st_ports ?st' q = st_ports st q" for q using ports(1) by (simp add: ip_release_def)
  have ss: "x \<noteq> sid \<Longrightarrow> st_spaces ?st' x = st_spaces st x" "caps {r} (st_spaces ?st' sid) = st_caps st sid" for x
    using ports(2) st1(4) by (simp_all add: ip_release_def)
  have "received cfg st sid name r e MACH_PORT_TYPE_RECEIVE {dest} (upd_entry ?st' sid r ?f) (?f ?e)"
    using k un ok a(2) share_type [OF type] share_type [OF t] port sp ss
    by (simp add: received_def balanced_def del: upd_entry_simps(2))
  moreover have "copyout_receive st sid name r ?p = Some (KERN_SUCCESS, upd_entry ?st' sid r ?f)"
    using t at'(7) st1(1) unfolding copyout_receive_def has_type
    by (simp add: Let_def dest_def [symmetric] right_consts port_release_commute)
  ultimately show ?thesis using port b(3) by (intro exI [of _ "upd_entry ?st' sid r ?f"] exI [of _ "?f ?e"]) simp
qed

end
