(* ===== verification/Name_Rights.thy ===== *)
theory Name_Rights
  imports Right_Release Right_Receive
begin

text \<open>
  Rights by their names: looking up a name gives the entry that the operations on rights work on,
  and the specifications of these operations say what the calls on names do to the map from names
  to capabilities.
\<close>

section \<open>Looking up a name\<close>

lemma lookup_cell:
  assumes ok: "space_ok its sid {} g s" and l: "ipc_entry_lookup s name = (Some r, s')"
  shows "cell s' name r"
proof -
  note ok' = space_okD [OF ok]
  let ?i = "MACH_PORT_INDEX name"
  obtain tree where t: "tree_lookup s name = (map_option (\<lambda>_. In_tree name) (map_of (ist_list (is_tree s)) name), s\<lparr>is_tree := tree\<rparr>)"
    "ist_list tree = ist_list (is_tree s)"
    using tree_lookup_spec [OF ok'(4)] by blast
  have "map_of (ist_list (is_tree s)) name = Some e \<Longrightarrow> name \<in> fst ` set (ist_list (is_tree s))" for e
    by (force dest: map_of_SomeD)
  then have in_tree: "cell (s\<lparr>is_tree := tree\<rparr>) name (In_tree name)" if "map_of (ist_list (is_tree s)) name = Some e" for e
    using that t(2) by (simp add: cell_def detached_def)
  have "type_of (is_table s) ?i \<noteq> 0 \<Longrightarrow> 0 < ?i" using head_ok_fields(1) [OF ok'(2)] by (cases "?i = 0") auto
  then have "cell s name (In_table ?i)" if "?i < is_table_size s" "gen_of (is_table s) ?i = MACH_PORT_GEN name" "type_of (is_table s) ?i \<noteq> 0"
    using that ok'(12) by (simp add: cell_def detached_def)
  then show ?thesis
    using l t(1) in_tree
    by (cases "map_of (ist_list (is_tree s)) name") (auto simp: ipc_entry_lookup_def Let_def MACH_PORT_TYPE_NONE_def split: if_splits)
qed

lemma lookup_write_found:
  assumes ok: "st_ok cfg st sid" and act: "is_active (st_spaces st sid)" and n: "\<not> shadowed name" and c: "st_caps st sid name = Some c"
  shows "\<exists>r e tree. ipc_right_lookup_write st sid name = (Inr r, set_space st sid ((st_spaces st sid)\<lparr>is_tree := tree\<rparr>)) \<and>
    holds cfg (set_space st sid ((st_spaces st sid)\<lparr>is_tree := tree\<rparr>)) sid {} name r e \<and> capability e = c \<and>
    caps {} ((st_spaces st sid)\<lparr>is_tree := tree\<rparr>) = st_caps st sid \<and> ist_list tree = ist_list (is_tree (st_spaces st sid)) \<and> ist_ok tree"
proof -
  let ?s = "st_spaces st sid"
  have ok': "space_ok (ipc_table_entries cfg) sid {} (st_hash st) ?s" using ok by (simp add: st_ok_def)
  obtain r e tree where l: "ipc_entry_lookup ?s name = (Some r, ?s\<lparr>is_tree := tree\<rparr>)" "ist_list tree = ist_list (is_tree ?s)" "ist_ok tree"
    "entry_at ?s r = Some e" "capability e = c"
    using ipc_entry_lookup_spec [OF ok' n] c by auto
  note sp = space_ok_splay [OF ok' l(2,3)]
  have "entry_at (?s\<lparr>is_tree := tree\<rparr>) r = Some e" using l(2,4) by (cases r) (simp_all add: entry_at_def split: if_splits)
  then have "holds cfg (set_space st sid (?s\<lparr>is_tree := tree\<rparr>)) sid {} name r e"
    using sp(1) lookup_cell [OF ok' l(1)] by (simp add: holds_def set_space_def space_ok_core_empty)
  with l(1,2,3,5) act sp(2) show ?thesis
    by (intro exI [of _ r] exI [of _ e] exI [of _ tree]) (simp add: ipc_right_lookup_write_def)
qed

lemma lookup_write_missing:
  assumes ok: "st_ok cfg st sid" and act: "is_active (st_spaces st sid)" and n: "\<not> shadowed name" and c: "st_caps st sid name = None"
  shows "\<exists>tree. ipc_right_lookup_write st sid name = (Inl KERN_INVALID_NAME, set_space st sid ((st_spaces st sid)\<lparr>is_tree := tree\<rparr>)) \<and>
    st_ok cfg (set_space st sid ((st_spaces st sid)\<lparr>is_tree := tree\<rparr>)) sid \<and>
    caps {} ((st_spaces st sid)\<lparr>is_tree := tree\<rparr>) = st_caps st sid"
proof -
  let ?s = "st_spaces st sid"
  have ok': "space_ok (ipc_table_entries cfg) sid {} (st_hash st) ?s" using ok by (simp add: st_ok_def)
  obtain tree where l: "ipc_entry_lookup ?s name = (None, ?s\<lparr>is_tree := tree\<rparr>)" "ist_list tree = ist_list (is_tree ?s)" "ist_ok tree"
    using ipc_entry_lookup_spec [OF ok' n] c by auto
  note sp = space_ok_splay [OF ok' l(2,3)]
  show ?thesis using l(1) act sp by (intro exI [of _ tree]) (simp add: ipc_right_lookup_write_def st_ok_def set_space_def)
qed

section \<open>Taking a right out of an entry\<close>

text \<open>What \<^verbatim>\<open>ipc_right_copyin_check\<close> says of a right of the new interface.\<close>

lemma check_types:
  assumes at: "right_at cfg st sid name r e"
  shows "ipc_right_copyin_check st sid name r msgt \<longleftrightarrow>
    (if msgt \<in> {MACH_MSG_TYPE_MAKE_SEND, MACH_MSG_TYPE_MAKE_SEND_ONCE, MACH_MSG_TYPE_MOVE_RECEIVE}
     then IE_BITS_TYPE (ie_bits e) \<in> {MACH_PORT_TYPE_RECEIVE, MACH_PORT_TYPE_SEND_RECEIVE}
     else IE_BITS_TYPE (ie_bits e) = MACH_PORT_TYPE_DEAD_NAME \<or>
       IE_BITS_TYPE (ie_bits e) \<in> {MACH_PORT_TYPE_SEND, MACH_PORT_TYPE_SEND_RECEIVE, MACH_PORT_TYPE_SEND_ONCE} \<and>
       (ip_active (st_ports st (ie_object e)) \<longrightarrow>
         IE_BITS_TYPE (ie_bits e) \<in> (if msgt = MACH_MSG_TYPE_MOVE_SEND_ONCE then {MACH_PORT_TYPE_SEND_ONCE}
           else {MACH_PORT_TYPE_SEND, MACH_PORT_TYPE_SEND_RECEIVE})))"
  using right_atD(3,7) [OF at] right_tests [OF right_atD(2) [OF at]]
  by (simp add: ipc_right_copyin_check_def Let_def)

lemma copyin_live:
  assumes at: "right_at cfg st sid name r e" and check: "ipc_right_copyin_check st sid name r msgt"
    and live: "ip_active (st_ports st (ie_object e))" and t: "IE_BITS_TYPE (ie_bits e) \<noteq> MACH_PORT_TYPE_DEAD_NAME"
    and sole: "unsent {} sid (st_hash st) (st_spaces st sid) (ie_object e) \<or> IE_BITS_TYPE (ie_bits e) \<noteq> MACH_PORT_TYPE_SEND_RECEIVE"
  shows "\<exists>so st' e'. ipc_right_copyin cfg st sid name r msgt deadok = Some (Inr (ie_object e, so), st') \<and>
    transferred cfg st sid name r e 0 st' e' (hand_bits msgt)"
proof -
  note tests = right_tests [OF right_atD(2) [OF at]] and c = check [unfolded check_types [OF at]]
  show ?thesis
  proof (cases msgt)
    case MACH_MSG_TYPE_MOVE_RECEIVE
    with c have "IE_BITS_TYPE (ie_bits e) = MACH_PORT_TYPE_RECEIVE \<or> IE_BITS_TYPE (ie_bits e) = MACH_PORT_TYPE_SEND_RECEIVE" by simp
    then show ?thesis
    proof
      assume "IE_BITS_TYPE (ie_bits e) = MACH_PORT_TYPE_RECEIVE"
      from move_only_receive [OF at this] MACH_MSG_TYPE_MOVE_RECEIVE show ?thesis by auto
    next
      assume t: "IE_BITS_TYPE (ie_bits e) = MACH_PORT_TYPE_SEND_RECEIVE"
      with sole have "unsent {} sid (st_hash st) (st_spaces st sid) (ie_object e)" by blast
      from move_receive_keep_send [OF at t this] MACH_MSG_TYPE_MOVE_RECEIVE show ?thesis by auto
    qed
  next
    case MACH_MSG_TYPE_MOVE_SEND
    then have "has (ie_bits e) MACH_PORT_TYPE_SEND" using c t live tests by auto
    from copyin_move_send_spec [OF at this live, of deadok] MACH_MSG_TYPE_MOVE_SEND show ?thesis by (simp, blast)
  next
    case MACH_MSG_TYPE_MOVE_SEND_ONCE
    then have "has (ie_bits e) MACH_PORT_TYPE_SEND_ONCE" using c t live tests by auto
    from copyin_move_send_once_spec [OF at this live, of deadok] MACH_MSG_TYPE_MOVE_SEND_ONCE show ?thesis by (simp, blast)
  next
    case MACH_MSG_TYPE_COPY_SEND
    then have "has (ie_bits e) MACH_PORT_TYPE_SEND" using c t live tests by auto
    from copyin_copy_send_spec [OF at this live, of deadok] MACH_MSG_TYPE_COPY_SEND show ?thesis by (simp, blast)
  next
    case MACH_MSG_TYPE_MAKE_SEND
    then have "has (ie_bits e) MACH_PORT_TYPE_RECEIVE" using c tests by auto
    from copyin_make_send_spec [OF at this] MACH_MSG_TYPE_MAKE_SEND show ?thesis by auto
  next
    case MACH_MSG_TYPE_MAKE_SEND_ONCE
    then have "has (ie_bits e) MACH_PORT_TYPE_RECEIVE" using c tests by auto
    from copyin_make_send_once_spec [OF at this] MACH_MSG_TYPE_MAKE_SEND_ONCE show ?thesis by auto
  qed
qed

text \<open>A dead name, and the right of a dead port, which becomes a dead name first.\<close>

lemma none_bits:
  assumes "IE_BITS_TYPE bits = MACH_PORT_TYPE_DEAD_NAME"
  shows "(bits AND NOT MACH_PORT_TYPE_DEAD_NAME) AND NOT IE_BITS_RIGHT_MASK = bits AND NOT IE_BITS_RIGHT_MASK"
    and "IE_BITS_TYPE (bits AND NOT MACH_PORT_TYPE_DEAD_NAME) = MACH_PORT_TYPE_NONE"
proof -
  show "(bits AND NOT MACH_PORT_TYPE_DEAD_NAME) AND NOT IE_BITS_RIGHT_MASK = bits AND NOT IE_BITS_RIGHT_MASK"
    by (simp add: and.assoc right_consts)
  show "IE_BITS_TYPE (bits AND NOT MACH_PORT_TYPE_DEAD_NAME) = MACH_PORT_TYPE_NONE"
    unfolding fields_AND assms by (simp add: right_consts)
qed

lemma move_dead_spec:
  assumes at: "right_at cfg st sid name r e" and t: "IE_BITS_TYPE (ie_bits e) = MACH_PORT_TYPE_DEAD_NAME"
  shows "\<exists>st' e'. move_dead True st sid r (ie_bits e) = Some (Inr (IO_DEAD, IP_NULL), st') \<and> transferred cfg st sid name r e 0 st' e' 0"
proof (cases "IE_BITS_UREFS (ie_bits e) = 1")
  case True
  note at' = right_atD [OF at] and b = none_bits [OF t]
  let ?f = "\<lambda>x. x\<lparr>ie_bits := ie_bits e AND NOT MACH_PORT_TYPE_DEAD_NAME\<rparr>"
  have s: "same_slot e (?f e)" "unhashed e" using b(1) t by (simp_all add: same_slot_def unhashed_def right_consts)
  note u = holds_update [where f = ?f and P' = "{r}", OF at'(1) s(1)]
  have "ie_object e = IO_NULL" using at'(2) t by (simp add: right_ok_iff)
  then have "transferred cfg st sid name r e 0 (upd_entry st sid r ?f) (?f e) 0"
    using u s(2) b(2) share_type [OF b(2)] share_type [OF t]
    by (simp add: transferred_def pending_def settled_def balanced_def del: upd_entry_simps(2))
  then show ?thesis using True by (auto simp: move_dead_def)
next
  case False
  note at' = right_atD [OF at]
  have "0 < IE_BITS_UREFS (ie_bits e)" using t at'(2) by (auto simp: right_ok_iff urefs_ok_def right_consts)
  note b = urefs_back [OF this False]
  have "right_ok (capability (e\<lparr>ie_bits := ie_bits e + - 1\<rparr>))" using right_ok_delta [OF at'(2) b(1,3)] t by simp
  note s = urefs_step [OF at beside_refl at'(1) refl b(3) this]
  have "transferred cfg st sid name r e 0 (upd_entry st sid r (\<lambda>x. x\<lparr>ie_bits := ie_bits e + - 1\<rparr>)) (e\<lparr>ie_bits := ie_bits e + - 1\<rparr>) 0"
    using s share_type [OF delta_fields(1) [OF b(3)]] share_type [OF refl, of "ie_bits e"]
    by (simp add: transferred_def balanced_def del: upd_entry_simps(2))
  then show ?thesis using False by (auto simp: move_dead_def)
qed

lemma transferred_id: "right_at cfg st sid name r e \<Longrightarrow> transferred cfg st sid name r e 0 st e 0"
  using right_alive [of cfg st sid name r e] right_atD(1) [of cfg st sid name r e]
  by (auto simp: transferred_def balanced_def fun_upd_idem)

lemma copyin_dead_name:
  assumes at: "right_at cfg st sid name r e" and t: "IE_BITS_TYPE (ie_bits e) = MACH_PORT_TYPE_DEAD_NAME"
    and m: "msgt \<in> {MACH_MSG_TYPE_MOVE_SEND, MACH_MSG_TYPE_MOVE_SEND_ONCE, MACH_MSG_TYPE_COPY_SEND}"
  shows "\<exists>st' e'. ipc_right_copyin cfg st sid name r msgt True = Some (Inr (IO_DEAD, IP_NULL), st') \<and>
    transferred cfg st sid name r e 0 st' e' 0"
proof -
  note at' = right_atD [OF at]
  have d: "has (ie_bits e) MACH_PORT_TYPE_DEAD_NAME" using t right_tests(1) [OF at'(2)] by simp
  show ?thesis
    using m d at'(7) move_dead_spec [OF at t] transferred_id [OF at]
    by (auto simp: copyin_copy_send_def copyin_move_send_def copyin_move_send_once_def copy_dead_def Let_def)
qed

lemma copyin_dead_port:
  assumes at: "right_at cfg st sid name r e" and dead: "\<not> ip_active (st_ports st (ie_object e))"
    and t: "IE_BITS_TYPE (ie_bits e) \<in> {MACH_PORT_TYPE_SEND, MACH_PORT_TYPE_SEND_ONCE}"
    and m: "msgt \<in> {MACH_MSG_TYPE_MOVE_SEND, MACH_MSG_TYPE_MOVE_SEND_ONCE, MACH_MSG_TYPE_COPY_SEND}"
  shows "\<exists>st1 e1 st' e'. ipc_right_copyin cfg st sid name r msgt True = Some (Inr (IO_DEAD, IP_NULL), st') \<and>
    buried cfg st sid name r e st1 e1 \<and> transferred cfg st1 sid name r e1 0 st' e' 0"
proof -
  note at' = right_atD [OF at]
  obtain st1 e1 where c: "ipc_right_check cfg st sid (ie_object e) name r = Some (True, st1)" and b: "buried cfg st sid name r e st1 e1"
    using check_dead_spec [OF at dead t] by blast
  note at1 = buried_right_at [OF at b]
  have t1: "IE_BITS_TYPE (ie_bits e1) = MACH_PORT_TYPE_DEAD_NAME" using b by (simp add: buried_def)
  have h: "\<not> has (ie_bits e) MACH_PORT_TYPE_DEAD_NAME" "has (ie_bits e) MACH_PORT_TYPE_SEND_RIGHTS" "has (ie_bits e1) MACH_PORT_TYPE_DEAD_NAME"
    using t t1 right_tests [OF at'(2)] right_tests(1) [OF right_atD(2) [OF at1]] by auto
  have "ipc_right_copyin cfg st sid name r msgt True = ipc_right_copyin cfg st1 sid name r msgt True"
    using m c h at'(3,7) right_atD(7) [OF at1]
    by (auto simp: copyin_copy_send_def copyin_move_send_def copyin_move_send_once_def Let_def)
  with copyin_dead_name [OF at1 t1 m] b show ?thesis by (simp, blast)
qed

text \<open>The receive right of a port is for a live port, whose send rights are under the same name.\<close>

definition receiver_ok :: "ipc_state \<Rightarrow> space_id \<Rightarrow> ipc_entry \<Rightarrow> bool" where
  "receiver_ok st sid e \<longleftrightarrow>
    (has (ie_bits e) MACH_PORT_TYPE_RECEIVE \<longrightarrow>
      ip_active (st_ports st (ie_object e)) \<and> unsent {} sid (st_hash st) (st_spaces st sid) (ie_object e))"

text \<open>Every way of taking a right, whatever the state of the port.\<close>

lemma copyin_taken:
  assumes at: "right_at cfg st sid name r e" and rcv: "receiver_ok st sid e" and check: "ipc_right_copyin_check st sid name r msgt"
  shows "\<exists>obj so st' e'. ipc_right_copyin cfg st sid name r msgt True = Some (Inr (obj, so), st') \<and>
    (if IE_BITS_TYPE (ie_bits e) = MACH_PORT_TYPE_DEAD_NAME then obj = IO_DEAD \<and> transferred cfg st sid name r e 0 st' e' 0
     else if ip_active (st_ports st (ie_object e)) then obj = ie_object e \<and> transferred cfg st sid name r e 0 st' e' (hand_bits msgt)
     else obj = IO_DEAD \<and> (\<exists>st1 e1. buried cfg st sid name r e st1 e1 \<and> transferred cfg st1 sid name r e1 0 st' e' 0))"
proof -
  note tests = right_tests [OF right_atD(2) [OF at]] and c = check [unfolded check_types [OF at]]
  consider (dead_name) "IE_BITS_TYPE (ie_bits e) = MACH_PORT_TYPE_DEAD_NAME"
    | (live) "IE_BITS_TYPE (ie_bits e) \<noteq> MACH_PORT_TYPE_DEAD_NAME" "ip_active (st_ports st (ie_object e))"
    | (dead) "IE_BITS_TYPE (ie_bits e) \<noteq> MACH_PORT_TYPE_DEAD_NAME" "\<not> ip_active (st_ports st (ie_object e))" by blast
  then show ?thesis
  proof cases
    case dead_name
    then have "msgt \<in> {MACH_MSG_TYPE_MOVE_SEND, MACH_MSG_TYPE_MOVE_SEND_ONCE, MACH_MSG_TYPE_COPY_SEND}"
      using c by (cases msgt) auto
    from copyin_dead_name [OF at dead_name this] dead_name show ?thesis by auto
  next
    case live
    have "unsent {} sid (st_hash st) (st_spaces st sid) (ie_object e) \<or> IE_BITS_TYPE (ie_bits e) \<noteq> MACH_PORT_TYPE_SEND_RECEIVE"
      using rcv tests(5) by (auto simp: receiver_ok_def)
    from copyin_live [OF at check live(2,1) this, of True] live show ?thesis by simp
  next
    case dead
    have t: "IE_BITS_TYPE (ie_bits e) \<in> {MACH_PORT_TYPE_SEND, MACH_PORT_TYPE_SEND_ONCE}"
      and "msgt \<in> {MACH_MSG_TYPE_MOVE_SEND, MACH_MSG_TYPE_MOVE_SEND_ONCE, MACH_MSG_TYPE_COPY_SEND}"
      using c rcv dead tests(5) by (cases msgt; auto simp: receiver_ok_def)+
    from copyin_dead_port [OF at dead(2) this] dead show ?thesis by (simp, blast)
  qed
qed

lemma copyin_refused:
  assumes at: "right_at cfg st sid name r e" and check: "\<not> ipc_right_copyin_check st sid name r msgt"
  shows "ipc_right_copyin cfg st sid name r msgt deadok = Some (Inl KERN_INVALID_RIGHT, st)"
proof -
  note at' = right_atD [OF at] and tests = right_tests [OF right_atD(2) [OF at]]
  have "ip_active (st_ports st (ie_object e)) \<Longrightarrow> ipc_right_check cfg st sid (ie_object e) name r = Some (False, st)" by (rule check_live)
  then show ?thesis
    using check at'(3,7) tests
    by (cases msgt) (auto simp: ipc_right_copyin_check_def copyin_make_send_def copyin_make_send_once_def copyin_move_receive_def
      copyin_copy_send_def copyin_move_send_def copyin_move_send_once_def Let_def split: if_splits)
qed

end
