(* ===== verification/Object_Ops.thy ===== *)
theory Object_Ops
  imports Name_Rights
begin

text \<open>
  The calls on names as operations on the map from names to capabilities: what
  \<^verbatim>\<open>ipc_object_copyin\<close> does to it, with the lookup before and the deallocation of the entry after
  \<^verbatim>\<open>ipc_right_copyin\<close>.
\<close>

section \<open>Rights of a space\<close>

text \<open>
  A right of a name in an active space, with the requests that it is linked to.  It is not one of the
  compatibility mode, whose rights disappear with their port.
\<close>

definition named_right :: "ipc_config \<Rightarrow> ipc_state \<Rightarrow> space_id \<Rightarrow> mach_port_t \<Rightarrow> capability \<Rightarrow> bool" where
  "named_right cfg st sid name c \<longleftrightarrow>
    st_ok cfg st sid \<and> is_active (st_spaces st sid) \<and> \<not> shadowed name \<and> st_caps st sid name = Some c \<and> right_ok c \<and>
    entry_sizes (ipc_table_entries cfg) \<and>
    (case c of (bits, p, request) \<Rightarrow> \<not> has bits IE_BITS_COMPAT \<and> linked_request st name p request \<and> linked_marequest st sid name bits)"

text \<open>The receive right of a port is for a live port, whose send rights are under the same name.\<close>

definition receiver_named :: "ipc_state \<Rightarrow> space_id \<Rightarrow> capability \<Rightarrow> bool" where
  "receiver_named st sid c \<longleftrightarrow>
    (case c of (bits, p, request) \<Rightarrow> has bits MACH_PORT_TYPE_RECEIVE \<longrightarrow>
      ip_active (st_ports st p) \<and> unsent {} sid (st_hash st) (st_spaces st sid) p)"

definition splayed :: "ipc_state \<Rightarrow> space_id \<Rightarrow> ipc_entry ipc_splay_tree \<Rightarrow> ipc_state" where
  "splayed st sid tree = set_space st sid ((st_spaces st sid)\<lparr>is_tree := tree\<rparr>)"

lemma splayed_simps [simp]:
  "st_ports (splayed st sid tree) = st_ports st" "st_hash (splayed st sid tree) = st_hash st"
  "st_marequests (splayed st sid tree) = st_marequests st" "st_events (splayed st sid tree) = st_events st"
  "x \<noteq> sid \<Longrightarrow> st_spaces (splayed st sid tree) x = st_spaces st x"
  "unsent P sid g (st_spaces (splayed st sid tree) sid) p = unsent P sid g (st_spaces st sid) p"
  "linked_request (splayed st sid tree) name p i = linked_request st name p i"
  "linked_marequest (splayed st sid tree) sid name bits = linked_marequest st sid name bits"
  "registered (splayed st sid tree) p i = registered st p i"
  by (simp_all add: splayed_def set_space_def unsent_def linked_request_def linked_marequest_def registered_def)

lemma capability_eq: "capability e = (bits, p, request) \<longleftrightarrow> ie_bits e AND IE_BITS_RIGHT_MASK = bits \<and> ie_object e = p \<and> ie_request e = request"
  by (simp add: capability_def)

lemma capability_sel [simp]:
  "fst (capability e) = ie_bits e AND IE_BITS_RIGHT_MASK" "fst (snd (capability e)) = ie_object e" "snd (snd (capability e)) = ie_request e"
  by (simp_all add: capability_def)

lemma has_masked [simp]: "has (bits AND IE_BITS_RIGHT_MASK) MACH_PORT_TYPE_RECEIVE = has bits MACH_PORT_TYPE_RECEIVE"
  "has (bits AND IE_BITS_RIGHT_MASK) MACH_PORT_TYPE_SEND = has bits MACH_PORT_TYPE_SEND"
  by (simp_all add: has_type)

lemma linked_masked [simp]: "linked_marequest st sid name (bits AND IE_BITS_RIGHT_MASK) = linked_marequest st sid name bits"
  by (simp add: linked_marequest_def)

lemma named_lookup:
  assumes n: "named_right cfg st sid name c"
  shows "\<exists>r e tree. ipc_right_lookup_write st sid name = (Inr r, splayed st sid tree) \<and> right_at cfg (splayed st sid tree) sid name r e \<and>
    capability e = c \<and> st_caps (splayed st sid tree) sid = st_caps st sid \<and>
    receiver_ok (splayed st sid tree) sid e = receiver_named st sid c \<and> ist_list tree = ist_list (is_tree (st_spaces st sid)) \<and> ist_ok tree"
proof -
  note n' = n [unfolded named_right_def]
  obtain r e tree where l: "ipc_right_lookup_write st sid name = (Inr r, splayed st sid tree)"
    "holds cfg (splayed st sid tree) sid {} name r e" "capability e = c" "caps {} ((st_spaces st sid)\<lparr>is_tree := tree\<rparr>) = st_caps st sid"
    "ist_list tree = ist_list (is_tree (st_spaces st sid))" "ist_ok tree"
    unfolding splayed_def using lookup_write_found [of cfg st sid name c] n' by blast
  have "right_at cfg (splayed st sid tree) sid name r e"
    using n' l(2,3) by (auto simp: right_at_def capability_def)
  moreover have "receiver_ok (splayed st sid tree) sid e = receiver_named st sid c"
    using l(3) by (auto simp: receiver_ok_def receiver_named_def capability_def)
  moreover have "st_caps (splayed st sid tree) sid = st_caps st sid" using l(4) by (simp add: splayed_def set_space_def)
  ultimately show ?thesis using l(1,3,5,6) by blast
qed

section \<open>Taking a right from a name\<close>

text \<open>
  The right \<open>c\<close> of a name becomes \<open>c'\<close>, with the rights \<open>hand\<close> before and \<open>hand'\<close> after it in a message; only the
  port of the right changes, by what the two have more.
\<close>

definition exchanged ::
    "ipc_config \<Rightarrow> ipc_state \<Rightarrow> space_id \<Rightarrow> mach_port_t \<Rightarrow> capability \<Rightarrow> ipc_entry_bits_t \<Rightarrow> ipc_state \<Rightarrow> capability option \<Rightarrow>
     ipc_entry_bits_t \<Rightarrow> bool" where
  "exchanged cfg st sid name c hand st' c' hand' \<longleftrightarrow>
    st_ok cfg st' sid \<and> st_caps st' sid = (st_caps st sid)(name := c') \<and> pred_option right_ok c' \<and>
    (case c of (bits, p, request) \<Rightarrow>
      balanced (st_ports st p) bits hand (st_ports st' p) (cap_bits c') hand' \<and>
      (\<forall>q. q \<noteq> p \<longrightarrow> bare (st_ports st' q) = bare (st_ports st q))) \<and>
    (\<forall>x. x \<noteq> sid \<longrightarrow> st_spaces st' x = st_spaces st x)"

lemma transferred_finish:
  assumes t: "transferred cfg st sid name r e hand st' e' hand'" and its: "entry_sizes (ipc_table_entries cfg)"
  shows "\<exists>st'' c'. (if IE_BITS_TYPE (ie_bits (get_entry st' sid r)) = MACH_PORT_TYPE_NONE then entry_dealloc cfg st' sid name r else Some st') = Some st'' \<and>
    exchanged cfg st sid name (capability e) hand st'' c' hand'"
proof (cases "IE_BITS_TYPE (ie_bits e') = MACH_PORT_TYPE_NONE")
  case True
  note t' = t [unfolded transferred_def]
  have h: "holds cfg st' sid {r} name r e'" "ie_object e' = IO_NULL" and c: "caps {r} (st_spaces st' sid) = (st_caps st sid)(name \<mapsto> capability e')"
    using t' True by (simp_all add: pending_def settled_def)
  obtain st'' where d: "entry_dealloc cfg st' sid name r = Some st''" "outside sid st' st''" "st_ok cfg st'' sid"
    "st_caps st'' sid = (caps {r} (st_spaces st' sid))(name := None)"
    using entry_dealloc_spec [OF h its] by blast
  have "exchanged cfg st sid name (capability e) hand st'' None hand'"
    using d(2-4) c t' share_type [OF True] by (simp add: exchanged_def capability_def outside_def balanced_def)
  with d(1) True holds_get [OF h(1)] show ?thesis by auto
next
  case False
  note t' = t [unfolded transferred_def]
  have h: "holds cfg st' sid {} name r e'" "right_ok (capability e')" and c: "st_caps st' sid = (st_caps st sid)(name \<mapsto> capability e')"
    using t' False by (simp_all add: pending_def settled_def)
  have "exchanged cfg st sid name (capability e) hand st' (Some (capability e')) hand'"
    using holds_st_ok [OF h(1)] h(2) c t' by (simp add: exchanged_def balanced_def) (simp add: capability_def)
  with False holds_get [OF h(1)] show ?thesis by auto
qed

lemma exchanged_emit [simp]: "exchanged cfg st sid name c hand (emit st' es) c' hand' = exchanged cfg st sid name c hand st' c' hand'"
  by (simp add: exchanged_def st_ok_def)

lemma exchanged_splayed:
  "st_caps (splayed st sid tree) sid = st_caps st sid \<Longrightarrow>
    exchanged cfg (splayed st sid tree) sid name c hand st' c' hand' = exchanged cfg st sid name c hand st' c' hand'"
  by (cases c) (simp add: exchanged_def)

text \<open>The right that can be taken from a capability, by the type of the message.\<close>

definition copyin_allowed :: "ipc_state \<Rightarrow> capability \<Rightarrow> mach_msg_type_name \<Rightarrow> bool" where
  "copyin_allowed st c msgt \<longleftrightarrow>
    (case c of (bits, p, request) \<Rightarrow>
      if msgt \<in> {MACH_MSG_TYPE_MAKE_SEND, MACH_MSG_TYPE_MAKE_SEND_ONCE, MACH_MSG_TYPE_MOVE_RECEIVE}
      then IE_BITS_TYPE bits \<in> {MACH_PORT_TYPE_RECEIVE, MACH_PORT_TYPE_SEND_RECEIVE}
      else IE_BITS_TYPE bits = MACH_PORT_TYPE_DEAD_NAME \<or>
        IE_BITS_TYPE bits \<in> {MACH_PORT_TYPE_SEND, MACH_PORT_TYPE_SEND_RECEIVE, MACH_PORT_TYPE_SEND_ONCE} \<and>
        (ip_active (st_ports st p) \<longrightarrow>
          IE_BITS_TYPE bits \<in> (if msgt = MACH_MSG_TYPE_MOVE_SEND_ONCE then {MACH_PORT_TYPE_SEND_ONCE}
            else {MACH_PORT_TYPE_SEND, MACH_PORT_TYPE_SEND_RECEIVE})))"

lemma check_allowed:
  assumes "right_at cfg st sid name r e"
  shows "ipc_right_copyin_check st sid name r msgt \<longleftrightarrow> copyin_allowed st (capability e) msgt"
  unfolding check_types [OF assms] by (simp add: copyin_allowed_def capability_def)

definition object_taken ::
    "ipc_config \<Rightarrow> ipc_state \<Rightarrow> space_id \<Rightarrow> mach_port_t \<Rightarrow> capability \<Rightarrow> mach_msg_type_name \<Rightarrow> kern_return_t + ipc_object_t \<Rightarrow> ipc_state \<Rightarrow> bool" where
  "object_taken cfg st sid name c msgt ret st' \<longleftrightarrow>
    (case c of (bits, p, request) \<Rightarrow>
      if \<not> copyin_allowed st c msgt then ret = Inl KERN_INVALID_RIGHT \<and> exchanged cfg st sid name c 0 st' (Some c) 0
      else if IE_BITS_TYPE bits = MACH_PORT_TYPE_DEAD_NAME then ret = Inr IO_DEAD \<and> (\<exists>c'. exchanged cfg st sid name c 0 st' c' 0)
      else if ip_active (st_ports st p) then ret = Inr p \<and> (\<exists>c'. exchanged cfg st sid name c 0 st' c' (hand_bits msgt))
      else ret = Inr IO_DEAD \<and> st_ok cfg st' sid \<and> (\<exists>c'. st_caps st' sid = (st_caps st sid)(name := c') \<and> pred_option right_ok c'))"

lemma exchanged_id:
  assumes "right_at cfg st sid name r e"
  shows "exchanged cfg st sid name (capability e) 0 st (Some (capability e)) 0"
  using right_alive(4) [OF assms] right_atD(2) [OF assms] holds_st_ok [OF right_atD(1) [OF assms]]
  by (simp add: exchanged_def balanced_def fun_upd_idem split_beta)

lemma object_copyin_entry:
  assumes l: "ipc_right_lookup_write st sid name = (Inr r, st1)" and at: "right_at cfg st1 sid name r e" and rcv: "receiver_ok st1 sid e"
  shows "\<exists>ret st'. ipc_object_copyin cfg st sid name msgt = Some (ret, st') \<and> object_taken cfg st1 sid name (capability e) msgt ret st'"
proof (cases "ipc_right_copyin_check st1 sid name r msgt")
  case False
  have "IE_BITS_TYPE (ie_bits (get_entry st1 sid r)) \<noteq> MACH_PORT_TYPE_NONE"
    using right_alive(1) [OF at] right_atD(7) [OF at] by (simp add: alive_def)
  then have "ipc_object_copyin cfg st sid name msgt = Some (Inl KERN_INVALID_RIGHT, st1)"
    using l copyin_refused [OF at False] by (simp add: ipc_object_copyin_def)
  with exchanged_id [OF at] False check_allowed [OF at] show ?thesis
    by (auto simp: object_taken_def split: prod.split)
next
  case True
  obtain obj so st2 e2 where c: "ipc_right_copyin cfg st1 sid name r msgt True = Some (Inr (obj, so), st2)"
    and t: "if IE_BITS_TYPE (ie_bits e) = MACH_PORT_TYPE_DEAD_NAME then obj = IO_DEAD \<and> transferred cfg st1 sid name r e 0 st2 e2 0
     else if ip_active (st_ports st1 (ie_object e)) then obj = ie_object e \<and> transferred cfg st1 sid name r e 0 st2 e2 (hand_bits msgt)
     else obj = IO_DEAD \<and> (\<exists>st' e'. buried cfg st1 sid name r e st' e' \<and> transferred cfg st' sid name r e' 0 st2 e2 0)"
    using copyin_taken [OF at rcv True] by blast
  note its = right_atD(4) [OF at]
  have "\<exists>hand st' e'. transferred cfg st' sid name r e' 0 st2 e2 hand" using t by (auto split: if_splits)
  then obtain st3 where st3: "(if IE_BITS_TYPE (ie_bits (get_entry st2 sid r)) = MACH_PORT_TYPE_NONE then entry_dealloc cfg st2 sid name r else Some st2) = Some st3"
    using transferred_finish [OF _ its] by blast
  have ex: "\<exists>c'. exchanged cfg st' sid name (capability e') 0 st3 c' hand" if "transferred cfg st' sid name r e' 0 st2 e2 hand" for st' e' hand
    using transferred_finish [OF that its] st3 by auto
  let ?st = "emit st3 (port_deleted so name)"
  have "object_taken cfg st1 sid name (capability e) msgt (Inr obj) ?st"
  proof -
    have allowed: "copyin_allowed st1 (capability e) msgt" using True check_allowed [OF at] by simp
    consider (dead_name) "IE_BITS_TYPE (ie_bits e) = MACH_PORT_TYPE_DEAD_NAME"
      | (live) "IE_BITS_TYPE (ie_bits e) \<noteq> MACH_PORT_TYPE_DEAD_NAME" "ip_active (st_ports st1 (ie_object e))"
      | (dead) "IE_BITS_TYPE (ie_bits e) \<noteq> MACH_PORT_TYPE_DEAD_NAME" "\<not> ip_active (st_ports st1 (ie_object e))" by blast
    then show ?thesis
    proof cases
      case dead_name
      with t ex allowed show ?thesis by (simp add: object_taken_def split_beta)
    next
      case live
      with t ex allowed show ?thesis by (simp add: object_taken_def split_beta)
    next
      case dead
      then obtain st' e' where b: "obj = IO_DEAD" "buried cfg st1 sid name r e st' e'" "transferred cfg st' sid name r e' 0 st2 e2 0" using t by auto
      from ex [OF b(3)] obtain c' where "exchanged cfg st' sid name (capability e') 0 st3 c' 0" by blast
      with b(1,2) dead allowed show ?thesis by (auto simp: object_taken_def split_beta exchanged_def buried_def st_ok_def)
    qed
  qed
  moreover have "ipc_object_copyin cfg st sid name msgt = Some (Inr obj, ?st)"
    using l c st3 by (simp add: ipc_object_copyin_def)
  ultimately show ?thesis by blast
qed

text \<open>Taking a right by its name, in a space that is not in the way of others.\<close>

lemma copyin_allowed_splayed [simp]: "copyin_allowed (splayed st sid tree) c msgt = copyin_allowed st c msgt"
  by (cases c) (simp add: copyin_allowed_def)

lemma object_taken_splayed:
  "st_caps (splayed st sid tree) sid = st_caps st sid \<Longrightarrow>
    object_taken cfg (splayed st sid tree) sid name c msgt ret st' = object_taken cfg st sid name c msgt ret st'"
  by (cases c) (simp add: object_taken_def exchanged_splayed)

lemma object_copyin_spec:
  assumes n: "named_right cfg st sid name c" and rcv: "receiver_named st sid c"
  shows "\<exists>ret st'. ipc_object_copyin cfg st sid name msgt = Some (ret, st') \<and> object_taken cfg st sid name c msgt ret st'"
proof -
  obtain r e tree where l: "ipc_right_lookup_write st sid name = (Inr r, splayed st sid tree)" "right_at cfg (splayed st sid tree) sid name r e"
    "capability e = c" "st_caps (splayed st sid tree) sid = st_caps st sid" "receiver_ok (splayed st sid tree) sid e = receiver_named st sid c"
    using named_lookup [OF n] by blast
  from l(5) rcv have "receiver_ok (splayed st sid tree) sid e" by simp
  from object_copyin_entry [OF l(1,2) this, of msgt] show ?thesis unfolding l(3) object_taken_splayed [OF l(4)] .
qed

end
