(* ===== verification/Mach_Port.thy ===== *)
theory Mach_Port
  imports Ipc_Object
begin

text \<open>
  The system calls on the names of a space, \<^verbatim>\<open>src/kernel/ipc/mach_port.c\<close>.  Each of them checks its
  arguments, finds the entry of the name and hands it to the operations on rights and objects.
  A space is given by its identifier, \<open>IS_NULL\<close> is no space.  The numbers of rights and of message
  types are the caller's, so they can be illegal.
\<close>

section \<open>Arguments\<close>

definition IS_NULL :: space_id where "IS_NULL = 0"

definition MACH_PORT_QLIMIT_MAX :: "32 word" where "MACH_PORT_QLIMIT_MAX = 16"

definition port_right :: "32 word \<Rightarrow> mach_port_right option" where
  "port_right right =
    (if right = 0 then Some MACH_PORT_RIGHT_SEND else if right = 1 then Some MACH_PORT_RIGHT_RECEIVE
     else if right = 2 then Some MACH_PORT_RIGHT_SEND_ONCE else if right = 3 then Some MACH_PORT_RIGHT_PORT_SET
     else if right = 4 then Some MACH_PORT_RIGHT_DEAD_NAME else None)"

text \<open>\<^verbatim>\<open>MACH_MSG_TYPE_PORT_ANY\<close> and \<^verbatim>\<open>MACH_MSG_TYPE_PORT_ANY_RIGHT\<close>.\<close>

definition msg_type_any :: "32 word \<Rightarrow> mach_msg_type_name option" where
  "msg_type_any x =
    (if x = 16 then Some MACH_MSG_TYPE_MOVE_RECEIVE else if x = 17 then Some MACH_MSG_TYPE_MOVE_SEND
     else if x = 18 then Some MACH_MSG_TYPE_MOVE_SEND_ONCE else if x = 19 then Some MACH_MSG_TYPE_COPY_SEND
     else if x = 20 then Some MACH_MSG_TYPE_MAKE_SEND else if x = 21 then Some MACH_MSG_TYPE_MAKE_SEND_ONCE else None)"

definition msg_type_any_right :: "32 word \<Rightarrow> mach_msg_type_name option" where
  "msg_type_any_right x = (if x \<le> 18 then msg_type_any x else None)"

section \<open>Types and references\<close>

definition mach_port_type ::
    "ipc_config \<Rightarrow> ipc_state \<Rightarrow> space_id \<Rightarrow> mach_port_t \<Rightarrow> ((kern_return_t + 32 word) \<times> ipc_state) option" where
  "mach_port_type cfg st sid name =
    (if sid = IS_NULL then Some (Inl KERN_INVALID_TASK, st)
     else case ipc_right_lookup_write st sid name of
       (Inl kr, st) \<Rightarrow> Some (Inl kr, st)
     | (Inr r, st) \<Rightarrow> map_option (\<lambda>(ret, st). (case ret of Inl kr \<Rightarrow> Inl kr | Inr (type, urefs) \<Rightarrow> Inr type, st)) (ipc_right_info cfg st sid name r))"

text \<open>The number of references; \<open>None\<close> where an assertion fails.\<close>

definition refs_of :: "mach_port_right \<Rightarrow> 32 word \<Rightarrow> 32 word \<Rightarrow> 32 word option" where
  "refs_of right type urefs =
    (if has type (MACH_PORT_TYPE right) then
       case right of
         MACH_PORT_RIGHT_SEND_ONCE \<Rightarrow> if urefs = 1 then Some 1 else None
       | MACH_PORT_RIGHT_PORT_SET \<Rightarrow> Some 1
       | MACH_PORT_RIGHT_RECEIVE \<Rightarrow> Some 1
       | MACH_PORT_RIGHT_DEAD_NAME \<Rightarrow> if urefs > 0 then Some urefs else None
       | MACH_PORT_RIGHT_SEND \<Rightarrow> if urefs > 0 then Some urefs else None
     else Some 0)"

definition mach_port_get_refs ::
    "ipc_config \<Rightarrow> ipc_state \<Rightarrow> space_id \<Rightarrow> mach_port_t \<Rightarrow> 32 word \<Rightarrow> ((kern_return_t + 32 word) \<times> ipc_state) option" where
  "mach_port_get_refs cfg st sid name right =
    (if sid = IS_NULL then Some (Inl KERN_INVALID_TASK, st)
     else case port_right right of
       None \<Rightarrow> Some (Inl KERN_INVALID_VALUE, st)
     | Some right \<Rightarrow>
         (case ipc_right_lookup_write st sid name of
            (Inl kr, st) \<Rightarrow> Some (Inl kr, st)
          | (Inr r, st) \<Rightarrow> do {
              (ret, st) \<leftarrow> ipc_right_info cfg st sid name r;
              case ret of
                Inl kr \<Rightarrow> Some (Inl kr, st)
              | Inr (type, urefs) \<Rightarrow> map_option (\<lambda>n. (Inr n, st)) (refs_of right type urefs)
            }))"

definition mach_port_mod_refs ::
    "ipc_config \<Rightarrow> nat \<Rightarrow> bool \<Rightarrow> (ipc_state \<Rightarrow> ipc_state) \<Rightarrow> ipc_state \<Rightarrow> space_id \<Rightarrow> mach_port_t \<Rightarrow> 32 word \<Rightarrow> 32 word \<Rightarrow>
     (kern_return_t \<times> ipc_state) option" where
  "mach_port_mod_refs cfg fuel try interim st sid name right delta =
    (if sid = IS_NULL then Some (KERN_INVALID_TASK, st)
     else case port_right right of
       None \<Rightarrow> Some (KERN_INVALID_VALUE, st)
     | Some right \<Rightarrow>
         (case ipc_right_lookup_write st sid name of
            (Inl kr, st) \<Rightarrow> Some (kr, st)
          | (Inr r, st) \<Rightarrow> ipc_right_delta cfg fuel try interim st sid name r right delta))"

definition mach_port_deallocate :: "ipc_config \<Rightarrow> ipc_state \<Rightarrow> space_id \<Rightarrow> mach_port_t \<Rightarrow> (kern_return_t \<times> ipc_state) option" where
  "mach_port_deallocate cfg st sid name =
    (if sid = IS_NULL then Some (KERN_INVALID_TASK, st)
     else case ipc_right_lookup_write st sid name of
       (Inl kr, st) \<Rightarrow> Some (kr, st)
     | (Inr r, st) \<Rightarrow> ipc_right_dealloc cfg st sid name r)"

definition mach_port_destroy ::
    "ipc_config \<Rightarrow> nat \<Rightarrow> bool \<Rightarrow> (ipc_state \<Rightarrow> ipc_state) \<Rightarrow> ipc_state \<Rightarrow> space_id \<Rightarrow> mach_port_t \<Rightarrow> (kern_return_t \<times> ipc_state) option" where
  "mach_port_destroy cfg fuel try interim st sid name =
    (if sid = IS_NULL then Some (KERN_INVALID_TASK, st)
     else case ipc_right_lookup_write st sid name of
       (Inl kr, st) \<Rightarrow> Some (kr, st)
     | (Inr r, st) \<Rightarrow> ipc_right_destroy cfg fuel try interim st sid name r)"

section \<open>New names\<close>

definition mach_port_rename ::
    "ipc_config \<Rightarrow> schedule \<Rightarrow> ipc_state \<Rightarrow> space_id \<Rightarrow> mach_port_t \<Rightarrow> mach_port_t \<Rightarrow> (kern_return_t \<times> schedule \<times> ipc_state) option" where
  "mach_port_rename cfg sched st sid oname nname =
    (if sid = IS_NULL then Some (KERN_INVALID_TASK, sched, st)
     else if \<not> MACH_PORT_VALID nname then Some (KERN_INVALID_VALUE, sched, st)
     else ipc_object_rename cfg sched st sid oname nname)"

definition result_code :: "'a object_result \<Rightarrow> (kern_return_t \<times> schedule \<times> ipc_state) option" where
  "result_code = map_option (\<lambda>(ret, sched, st). (case ret of Inl kr \<Rightarrow> kr | Inr _ \<Rightarrow> KERN_SUCCESS, sched, st))"

definition mach_port_allocate_name ::
    "ipc_config \<Rightarrow> schedule \<Rightarrow> ipc_object_t \<Rightarrow> ipc_state \<Rightarrow> space_id \<Rightarrow> 32 word \<Rightarrow> mach_port_t \<Rightarrow>
     (kern_return_t \<times> schedule \<times> ipc_state) option" where
  "mach_port_allocate_name cfg sched object st sid right name =
    (if sid = IS_NULL then Some (KERN_INVALID_TASK, sched, st)
     else if \<not> MACH_PORT_VALID name then Some (KERN_INVALID_VALUE, sched, st)
     else case port_right right of
       Some MACH_PORT_RIGHT_RECEIVE \<Rightarrow> result_code (ipc_port_alloc_name cfg sched object st sid name)
     | Some MACH_PORT_RIGHT_PORT_SET \<Rightarrow> result_code (ipc_pset_alloc_name cfg sched object st sid name)
     | Some MACH_PORT_RIGHT_DEAD_NAME \<Rightarrow> result_code (ipc_object_alloc_dead_name cfg sched st sid name)
     | _ \<Rightarrow> Some (KERN_INVALID_VALUE, sched, st))"

definition result_name :: "(mach_port_t \<times> 'a) object_result \<Rightarrow> mach_port_t object_result" where
  "result_name = map_option (\<lambda>(ret, sched, st). (case ret of Inl kr \<Rightarrow> Inl kr | Inr (name, _) \<Rightarrow> Inr name, sched, st))"

definition mach_port_allocate ::
    "ipc_config \<Rightarrow> schedule \<Rightarrow> ipc_object_t \<Rightarrow> ipc_state \<Rightarrow> space_id \<Rightarrow> 32 word \<Rightarrow> mach_port_t object_result" where
  "mach_port_allocate cfg sched object st sid right =
    (if sid = IS_NULL then Some (Inl KERN_INVALID_TASK, sched, st)
     else case port_right right of
       Some MACH_PORT_RIGHT_RECEIVE \<Rightarrow> result_name (ipc_port_alloc cfg sched object st sid)
     | Some MACH_PORT_RIGHT_PORT_SET \<Rightarrow> result_name (ipc_pset_alloc cfg sched object st sid)
     | Some MACH_PORT_RIGHT_DEAD_NAME \<Rightarrow> ipc_object_alloc_dead cfg sched st sid
     | _ \<Rightarrow> Some (Inl KERN_INVALID_VALUE, sched, st))"

section \<open>Receive rights\<close>

definition with_receive ::
    "ipc_state \<Rightarrow> space_id \<Rightarrow> mach_port_t \<Rightarrow> (ipc_state \<Rightarrow> ipc_port_t \<Rightarrow> ipc_state) \<Rightarrow> kern_return_t \<times> ipc_state" where
  "with_receive st sid name f =
    (if sid = IS_NULL then (KERN_INVALID_TASK, st)
     else case ipc_object_translate st sid name MACH_PORT_RIGHT_RECEIVE of
       (Inl kr, st) \<Rightarrow> (kr, st)
     | (Inr p, st) \<Rightarrow> (KERN_SUCCESS, f st p))"

definition mach_port_set_qlimit :: "ipc_state \<Rightarrow> space_id \<Rightarrow> mach_port_t \<Rightarrow> 32 word \<Rightarrow> kern_return_t \<times> ipc_state" where
  "mach_port_set_qlimit st sid name qlimit =
    (if sid = IS_NULL then (KERN_INVALID_TASK, st)
     else if qlimit > MACH_PORT_QLIMIT_MAX then (KERN_INVALID_VALUE, st)
     else with_receive st sid name (\<lambda>st p. ipc_port_set_qlimit st p qlimit))"

definition mach_port_set_mscount :: "ipc_state \<Rightarrow> space_id \<Rightarrow> mach_port_t \<Rightarrow> 32 word \<Rightarrow> kern_return_t \<times> ipc_state" where
  "mach_port_set_mscount st sid name mscount = with_receive st sid name (\<lambda>st p. upd_port st p (\<lambda>port. port\<lparr>ip_mscount := mscount\<rparr>))"

definition mach_port_set_seqno :: "ipc_config \<Rightarrow> ipc_state \<Rightarrow> space_id \<Rightarrow> mach_port_t \<Rightarrow> 32 word \<Rightarrow> kern_return_t \<times> ipc_state" where
  "mach_port_set_seqno cfg st sid name seqno = with_receive st sid name (\<lambda>st p. ipc_port_set_seqno cfg st p seqno)"

definition mach_port_move_member ::
    "ipc_config \<Rightarrow> ipc_state \<Rightarrow> space_id \<Rightarrow> mach_port_t \<Rightarrow> mach_port_t \<Rightarrow> kern_return_t \<times> ipc_state" where
  "mach_port_move_member cfg st sid member after =
    (if sid = IS_NULL then (KERN_INVALID_TASK, st)
     else case ipc_right_lookup_write st sid member of
       (Inl kr, st) \<Rightarrow> (kr, st)
     | (Inr r, st) \<Rightarrow>
         let entry = get_entry st sid r; p = ie_object entry
         in if \<not> has (ie_bits entry) MACH_PORT_TYPE_RECEIVE then (KERN_INVALID_RIGHT, st)
            else if after = MACH_PORT_NULL then ipc_pset_move cfg st p IPS_NULL
            else
              (case ipc_entry_lookup (st_spaces st sid) after of
                 (None, space) \<Rightarrow> (KERN_INVALID_NAME, set_space st sid space)
               | (Some ra, space) \<Rightarrow>
                   let st = set_space st sid space; entry = get_entry st sid ra
                   in if \<not> has (ie_bits entry) MACH_PORT_TYPE_PORT_SET then (KERN_INVALID_RIGHT, st)
                      else ipc_pset_move cfg st p (ie_object entry)))"

record mach_port_status =
  mps_pset :: mach_port_t
  mps_seqno :: "32 word"
  mps_mscount :: "32 word"
  mps_qlimit :: "32 word"
  mps_msgcount :: "32 word"
  mps_sorights :: "32 word"
  mps_srights :: bool
  mps_pdrequest :: bool
  mps_nsrequest :: bool

definition receive_status :: "ipc_state \<Rightarrow> ipc_port_t \<Rightarrow> mach_port_t \<Rightarrow> mach_port_status" where
  "receive_status st p pset =
    (let port = st_ports st p
     in \<lparr>mps_pset = pset, mps_seqno = ip_seqno port, mps_mscount = ip_mscount port, mps_qlimit = ip_qlimit port,
         mps_msgcount = ip_msgcount port, mps_sorights = ip_sorights port, mps_srights = (ip_srights port > 0),
         mps_pdrequest = (ip_pdrequest port \<noteq> IP_NULL), mps_nsrequest = (ip_nsrequest port \<noteq> IP_NULL)\<rparr>)"

definition mach_port_get_receive_status ::
    "ipc_config \<Rightarrow> ipc_state \<Rightarrow> space_id \<Rightarrow> mach_port_t \<Rightarrow> (kern_return_t + mach_port_status) \<times> ipc_state" where
  "mach_port_get_receive_status cfg st sid name =
    (if sid = IS_NULL then (Inl KERN_INVALID_TASK, st)
     else case ipc_object_translate st sid name MACH_PORT_RIGHT_RECEIVE of
       (Inl kr, st) \<Rightarrow> (Inl kr, st)
     | (Inr p, st) \<Rightarrow>
         let pset = ip_pset (st_ports st p)
         in if pset = IPS_NULL then (Inr (receive_status st p MACH_PORT_NULL), st)
            else if \<not> ips_active (st_psets st pset) then
              let st = ips_check_unlock (ipc_pset_remove cfg st pset p) pset in (Inr (receive_status st p MACH_PORT_NULL), st)
            else (Inr (receive_status st p (ips_local_name (st_psets st pset))), st))"

section \<open>Notifications\<close>

definition MACH_NOTIFY_PORT_DESTROYED :: "32 word" where "MACH_NOTIFY_PORT_DESTROYED = 69"
definition MACH_NOTIFY_NO_SENDERS :: "32 word" where "MACH_NOTIFY_NO_SENDERS = 70"
definition MACH_NOTIFY_DEAD_NAME :: "32 word" where "MACH_NOTIFY_DEAD_NAME = 72"

text \<open>A send right in the place of a send-once right, from the old interface, is destroyed and not returned.\<close>

definition pdrequest_previous :: "ipc_state \<Rightarrow> ipc_port_t \<Rightarrow> (ipc_port_t \<times> ipc_state) option" where
  "pdrequest_previous st previous =
    (if previous \<noteq> IP_NULL \<and> ip_pdsendp previous then map_option (Pair IP_NULL) (ipc_port_release_send st (ip_pdsend previous)) else Some (previous, st))"

definition mach_port_request_notification ::
    "ipc_config \<Rightarrow> dn_schedule \<Rightarrow> ipc_state \<Rightarrow> space_id \<Rightarrow> mach_port_t \<Rightarrow> 32 word \<Rightarrow> 32 word \<Rightarrow> ipc_port_t \<Rightarrow>
     ((kern_return_t + ipc_port_t) \<times> ipc_state) option" where
  "mach_port_request_notification cfg sched st sid name msgid sync notify =
    (if sid = IS_NULL then Some (Inl KERN_INVALID_TASK, st)
     else if notify = IO_DEAD then Some (Inl KERN_INVALID_CAPABILITY, st)
     else if msgid = MACH_NOTIFY_PORT_DESTROYED then
       (if sync \<noteq> 0 then Some (Inl KERN_INVALID_VALUE, st)
        else case ipc_object_translate st sid name MACH_PORT_RIGHT_RECEIVE of
          (Inl kr, st) \<Rightarrow> Some (Inl kr, st)
        | (Inr p, st) \<Rightarrow>
            (case ipc_port_pdrequest (st_ports st p) notify of
               (previous, port) \<Rightarrow>
                 map_option (\<lambda>(previous, st). (Inr previous, st)) (pdrequest_previous (set_port st p port) previous)))
     else if msgid = MACH_NOTIFY_NO_SENDERS then
       (case ipc_object_translate st sid name MACH_PORT_RIGHT_RECEIVE of
          (Inl kr, st) \<Rightarrow> Some (Inl kr, st)
        | (Inr p, st) \<Rightarrow> (case ipc_port_nsrequest st p sync notify of (previous, st) \<Rightarrow> Some (Inr previous, st)))
     else if msgid = MACH_NOTIFY_DEAD_NAME then ipc_right_dnrequest cfg sched st sid name (sync \<noteq> 0) notify
     else Some (Inl KERN_INVALID_VALUE, st))"

section \<open>Rights of other spaces\<close>

definition mach_port_insert_right ::
    "ipc_config \<Rightarrow> schedule \<Rightarrow> ipc_state \<Rightarrow> space_id \<Rightarrow> mach_port_t \<Rightarrow> ipc_port_t \<Rightarrow> 32 word \<Rightarrow>
     (kern_return_t \<times> schedule \<times> ipc_state) option" where
  "mach_port_insert_right cfg sched st sid name poly polyPoly =
    (if sid = IS_NULL then Some (KERN_INVALID_TASK, sched, st)
     else if \<not> MACH_PORT_VALID name then Some (KERN_INVALID_VALUE, sched, st)
     else case msg_type_any_right polyPoly of
       None \<Rightarrow> Some (KERN_INVALID_VALUE, sched, st)
     | Some msgt \<Rightarrow>
         if \<not> IO_VALID poly then Some (KERN_INVALID_CAPABILITY, sched, st)
         else ipc_object_copyout_name cfg sched st sid poly msgt False name)"

definition mach_port_extract_right ::
    "ipc_config \<Rightarrow> ipc_state \<Rightarrow> space_id \<Rightarrow> mach_port_t \<Rightarrow> 32 word \<Rightarrow>
     ((kern_return_t + ipc_object_t \<times> mach_msg_type_name) \<times> ipc_state) option" where
  "mach_port_extract_right cfg st sid name msgtn =
    (if sid = IS_NULL then Some (Inl KERN_INVALID_TASK, st)
     else case msg_type_any msgtn of
       None \<Rightarrow> Some (Inl KERN_INVALID_VALUE, st)
     | Some msgt \<Rightarrow>
         map_option (\<lambda>(ret, st). (case ret of Inl kr \<Rightarrow> Inl kr | Inr poly \<Rightarrow> Inr (poly, ipc_object_copyin_type msgt), st))
           (ipc_object_copyin cfg st sid name msgt))"

end
