(* ===== verification/Call_Ops.thy ===== *)
theory Call_Ops
  imports Object_Ops Mach_Port
begin

text \<open>
  The system calls on one name as operations on its capability: giving back a user reference and
  asking for the type and the references.
\<close>

section \<open>Giving back a reference\<close>

lemma dealloc_cap_ok:
  assumes ok: "right_ok (capability e)" and t: "IE_BITS_TYPE (ie_bits e) \<notin> {MACH_PORT_TYPE_RECEIVE, MACH_PORT_TYPE_PORT_SET}"
  shows "pred_option right_ok (dealloc_cap (capability e))"
proof (cases "IE_BITS_UREFS (ie_bits e) = 1")
  case True
  show ?thesis
  proof (cases "IE_BITS_TYPE (ie_bits e) = MACH_PORT_TYPE_SEND_RECEIVE")
    case sr: True
    note b = drop_send_bits [of "ie_bits e"]
    have "right_ok (capability (e\<lparr>ie_bits := ie_bits e AND NOT (IE_BITS_UREFS_MASK OR MACH_PORT_TYPE_SEND)\<rparr>))"
      using ok sr b(3) [OF sr] b(4,5) by (simp add: right_ok_iff urefs_ok_def) (simp add: right_consts)
    then show ?thesis unfolding dealloc_cap_entry(2) [OF True sr] by simp
  next
    case False
    then show ?thesis unfolding dealloc_cap_entry(3) [OF True False] by simp
  qed
next
  case False
  then have k: "IE_BITS_TYPE (ie_bits e) \<in> {MACH_PORT_TYPE_SEND, MACH_PORT_TYPE_SEND_RECEIVE, MACH_PORT_TYPE_DEAD_NAME}"
    using ok t by (auto simp: right_ok_iff urefs_ok_def)
  have "0 < IE_BITS_UREFS (ie_bits e)" using k ok by (auto simp: right_ok_iff urefs_ok_def right_consts)
  note b = urefs_back [OF this False]
  have "right_ok (capability (e\<lparr>ie_bits := ie_bits e + - 1\<rparr>))" using right_ok_delta [OF ok b(1,3)] k b(2) send_urefs(2) [OF ok] by auto
  then show ?thesis unfolding dealloc_cap_entry(1) [OF False] by simp
qed

text \<open>The capability of a dead port becomes this.\<close>

definition dead_cap :: "capability \<Rightarrow> capability" where
  "dead_cap c = (case c of (bits, p, request) \<Rightarrow> (MACH_PORT_TYPE_DEAD_NAME OR (IE_BITS_UREFS bits + (if request \<noteq> 0 then 1 else 0)), IO_NULL, 0))"

definition deallocated :: "ipc_config \<Rightarrow> ipc_state \<Rightarrow> space_id \<Rightarrow> mach_port_t \<Rightarrow> capability \<Rightarrow> kern_return_t \<Rightarrow> ipc_state \<Rightarrow> bool" where
  "deallocated cfg st sid name c kr st' \<longleftrightarrow>
    (case c of (bits, p, request) \<Rightarrow>
      if IE_BITS_TYPE bits \<in> {MACH_PORT_TYPE_RECEIVE, MACH_PORT_TYPE_PORT_SET}
      then kr = KERN_INVALID_RIGHT \<and> exchanged cfg st sid name c 0 st' (Some c) 0 \<and> st_events st' = st_events st
      else kr = KERN_SUCCESS \<and>
        (if IE_BITS_TYPE bits = MACH_PORT_TYPE_DEAD_NAME \<or> ip_active (st_ports st p)
         then exchanged cfg st sid name c 0 st' (dealloc_cap c) (if IE_BITS_TYPE bits = MACH_PORT_TYPE_SEND_ONCE then MACH_PORT_TYPE_SEND_ONCE else 0) \<and>
           st_events st' = st_events st @ dealloc_events st name c
         else st_ok cfg st' sid \<and> st_caps st' sid = (st_caps st sid)(name := dealloc_cap (dead_cap c)) \<and> pred_option right_ok (dealloc_cap (dead_cap c))))"

lemma deallocated_splayed:
  "st_caps (splayed st sid tree) sid = st_caps st sid \<Longrightarrow>
    deallocated cfg (splayed st sid tree) sid name c kr st' = deallocated cfg st sid name c kr st'"
  by (cases c) (simp add: deallocated_def exchanged_splayed dealloc_events_def)

lemma given_back_exchanged:
  assumes "given_back cfg st sid name e st'" and "right_ok (capability e)" "IE_BITS_TYPE (ie_bits e) \<notin> {MACH_PORT_TYPE_RECEIVE, MACH_PORT_TYPE_PORT_SET}"
  shows "exchanged cfg st sid name (capability e) 0 st' (dealloc_cap (capability e))
    (if IE_BITS_TYPE (ie_bits e) = MACH_PORT_TYPE_SEND_ONCE then MACH_PORT_TYPE_SEND_ONCE else 0)"
  using assms(1) dealloc_cap_ok [OF assms(2,3)] by (simp add: given_back_def exchanged_def balanced_def split_beta)

lemma dealloc_entry:
  assumes at: "right_at cfg st sid name r e" and rcv: "receiver_ok st sid e"
  shows "\<exists>kr st'. ipc_right_dealloc cfg st sid name r = Some (kr, st') \<and> deallocated cfg st sid name (capability e) kr st'"
proof -
  note at' = right_atD [OF at]
  consider (refused) "IE_BITS_TYPE (ie_bits e) \<in> {MACH_PORT_TYPE_RECEIVE, MACH_PORT_TYPE_PORT_SET}"
    | (live) "IE_BITS_TYPE (ie_bits e) \<notin> {MACH_PORT_TYPE_RECEIVE, MACH_PORT_TYPE_PORT_SET}"
        "IE_BITS_TYPE (ie_bits e) = MACH_PORT_TYPE_DEAD_NAME \<or> ip_active (st_ports st (ie_object e))"
    | (dead) "IE_BITS_TYPE (ie_bits e) \<notin> {MACH_PORT_TYPE_RECEIVE, MACH_PORT_TYPE_PORT_SET}"
        "IE_BITS_TYPE (ie_bits e) \<noteq> MACH_PORT_TYPE_DEAD_NAME" "\<not> ip_active (st_ports st (ie_object e))" by blast
  then show ?thesis
  proof cases
    case refused
    then have "ipc_right_dealloc cfg st sid name r = Some (KERN_INVALID_RIGHT, st)"
      using at'(7) by (auto simp: ipc_right_dealloc_def Let_def right_consts)
    with refused exchanged_id [OF at] show ?thesis by (auto simp: deallocated_def split_beta)
  next
    case live
    then obtain st' where "ipc_right_dealloc cfg st sid name r = Some (KERN_SUCCESS, st')" "given_back cfg st sid name e st'"
      using dealloc_live_spec [OF at] by blast
    with live given_back_exchanged [OF _ at'(2) live(1)] show ?thesis
      by (auto simp: deallocated_def split_beta given_back_def)
  next
    case dead
    then have t: "IE_BITS_TYPE (ie_bits e) \<in> {MACH_PORT_TYPE_SEND, MACH_PORT_TYPE_SEND_ONCE}"
      using at'(2) rcv right_tests(5) [OF at'(2)] by (auto simp: right_ok_iff urefs_ok_def receiver_ok_def)
    obtain st1 e1 st' where d: "ipc_right_dealloc cfg st sid name r = Some (KERN_SUCCESS, st')" "buried cfg st sid name r e st1 e1"
      "given_back cfg st1 sid name e1 st'"
      using dealloc_dying_spec [OF at dead(3) t] by blast
    have c1: "capability e1 = dead_cap (capability e)" "right_ok (capability e1)" "IE_BITS_TYPE (ie_bits e1) = MACH_PORT_TYPE_DEAD_NAME"
      "st_caps st1 sid = (st_caps st sid)(name \<mapsto> capability e1)"
      using d(2) by (auto simp: buried_def dead_cap_def split_beta)
    have "pred_option right_ok (dealloc_cap (capability e1))" using dealloc_cap_ok [OF c1(2)] c1(3) by (simp add: right_consts)
    moreover have "st_ok cfg st' sid" "st_caps st' sid = (st_caps st sid)(name := dealloc_cap (capability e1))"
      using d(3) c1(4) by (simp_all add: given_back_def)
    ultimately show ?thesis using d(1) dead unfolding c1(1) by (auto simp: deallocated_def split_beta)
  qed
qed

lemma deallocate_spec:
  assumes n: "named_right cfg st sid name c" and rcv: "receiver_named st sid c" and s: "sid \<noteq> IS_NULL"
  shows "\<exists>kr st'. mach_port_deallocate cfg st sid name = Some (kr, st') \<and> deallocated cfg st sid name c kr st'"
proof -
  obtain r e tree where l: "ipc_right_lookup_write st sid name = (Inr r, splayed st sid tree)" "right_at cfg (splayed st sid tree) sid name r e"
    "capability e = c" "st_caps (splayed st sid tree) sid = st_caps st sid" "receiver_ok (splayed st sid tree) sid e = receiver_named st sid c"
    using named_lookup [OF n] by blast
  from l(5) rcv have "receiver_ok (splayed st sid tree) sid e" by simp
  from dealloc_entry [OF l(2) this] s l(1) show ?thesis
    unfolding l(3) deallocated_splayed [OF l(4)] by (simp add: mach_port_deallocate_def)
qed

end
