(* ===== verification/Ref_Counts.thy ===== *)
theory Ref_Counts
  imports Call_Ops
begin

text \<open>
  Changing a count of user references by an amount: the tests for overflow and underflow on machine
  words are those on integers, and \<^verbatim>\<open>mach_port_mod_refs\<close> does what it should with every amount.
\<close>

section \<open>The tests\<close>

lemma UREFS_MAX_int: "uint MACH_PORT_UREFS_MAX = 65535"
  by (simp add: MACH_PORT_UREFS_MAX_def push_bit_eq_mult)

lemma sint_bounds: "- 2147483648 \<le> sint (d :: 32 word)" "sint (d :: 32 word) < 2147483648"
  using sint_ge [of d] sint_lt [of d] by simp_all

lemma uint_plus_sint:
  fixes u d :: "32 word"
  assumes "0 \<le> uint u + sint d" and "uint u + sint d < 4294967296"
  shows "uint (u + d) = uint u + sint d"
proof -
  have "u + d = word_of_int (uint u + sint d)" by simp
  then have "uint (u + d) = (uint u + sint d) mod 4294967296" by (simp only: uint_word_of_int) simp
  with assms show ?thesis by simp
qed

lemma urefs_tests:
  fixes u d :: "32 word"
  assumes "u \<le> MACH_PORT_UREFS_MAX"
  shows "MACH_PORT_UREFS_OVERFLOW u d \<longleftrightarrow> 65535 < uint u + sint d"
    and "MACH_PORT_UREFS_UNDERFLOW u d \<longleftrightarrow> uint u + sint d < 0"
proof -
  have u: "0 \<le> uint u" "uint u \<le> 65535" using assms by (simp_all add: word_le_def UREFS_MAX_int)
  note b = sint_bounds [of d]
  show "MACH_PORT_UREFS_OVERFLOW u d \<longleftrightarrow> 65535 < uint u + sint d"
  proof (cases "0 < sint d")
    case True
    then have "uint (u + d) = uint u + sint d" using u b by (intro uint_plus_sint) linarith+
    with True show ?thesis by (simp add: MACH_PORT_UREFS_OVERFLOW_def word_le_def word_less_def UREFS_MAX_int)
  next
    case False
    with u show ?thesis by (simp add: MACH_PORT_UREFS_OVERFLOW_def)
  qed
  show "MACH_PORT_UREFS_UNDERFLOW u d \<longleftrightarrow> uint u + sint d < 0"
  proof (cases "sint d < 0")
    case True
    have "- d = word_of_int (- sint d)" by simp
    then have "uint (- d) = (- sint d) mod 4294967296" by (simp only: uint_word_of_int) simp
    then have "uint (- d) = - sint d" using True b by simp
    with True show ?thesis by (auto simp: MACH_PORT_UREFS_UNDERFLOW_def word_less_def)
  next
    case False
    with u show ?thesis unfolding MACH_PORT_UREFS_UNDERFLOW_def by linarith
  qed
qed

section \<open>Changing the references of a send right\<close>

text \<open>The capability with \<open>n\<close> references of its send right.\<close>

definition send_refs_cap :: "capability \<Rightarrow> int \<Rightarrow> capability option" where
  "send_refs_cap c n =
    (case c of (bits, p, request) \<Rightarrow>
      if n = 0
      then (if IE_BITS_TYPE bits = MACH_PORT_TYPE_SEND_RECEIVE then Some (bits AND NOT (IE_BITS_UREFS_MASK OR MACH_PORT_TYPE_SEND), p, request) else None)
      else Some ((bits AND NOT IE_BITS_UREFS_MASK) OR word_of_int n, p, request))"

lemma send_refs_entry:
  assumes d: "IE_BITS_UREFS (ie_bits e) + d \<le> MACH_PORT_UREFS_MAX" and n: "n = uint (IE_BITS_UREFS (ie_bits e) + d)" "n \<noteq> 0"
  shows "send_refs_cap (capability e) n = Some (capability (e\<lparr>ie_bits := ie_bits e + d\<rparr>))"
proof -
  let ?b = "ie_bits e"
  note f = urefs_delta [OF d]
  have "(?b + d) AND IE_BITS_RIGHT_MASK = ((?b + d) AND NOT IE_BITS_UREFS_MASK) AND IE_BITS_RIGHT_MASK OR ((?b + d) AND IE_BITS_UREFS_MASK)"
  proof -
    have "y AND r = ((y AND NOT m) AND r) OR (y AND (r AND m))" for y r m :: "32 word" by (rule bit_word_eqI) (auto simp: bit_simps)
    from this [of "?b + d" IE_BITS_RIGHT_MASK IE_BITS_UREFS_MASK]
    show ?thesis by (simp add: IE_BITS_RIGHT_MASK_def IE_BITS_UREFS_MASK_def)
  qed
  also have "\<dots> = (?b AND IE_BITS_RIGHT_MASK) AND NOT IE_BITS_UREFS_MASK OR word_of_int n"
    using f n(1) unfolding IE_BITS_UREFS_def [of "?b + d"] by (simp add: ac_simps)
  finally show ?thesis using n(2) by (simp add: send_refs_cap_def capability_def)
qed

lemma drop_sends_step:
  assumes at: "right_at cfg st sid name r e" and t: "IE_BITS_TYPE (ie_bits e) = MACH_PORT_TYPE_SEND_RECEIVE"
    and g: "\<And>port. ip_dnrequests (g port) = ip_dnrequests port"
  defines "f \<equiv> \<lambda>x. x\<lparr>ie_bits := ie_bits e AND NOT (IE_BITS_UREFS_MASK OR MACH_PORT_TYPE_SEND)\<rparr>"
  shows "st_ok cfg (upd_entry (upd_port st p g) sid r f) sid"
    and "st_caps (upd_entry (upd_port st p g) sid r f) sid = (st_caps st sid)(name := send_refs_cap (capability e) 0)"
    and "pred_option right_ok (send_refs_cap (capability e) 0)"
proof -
  note b = drop_send_bits [of "ie_bits e"] and at1 = right_at_port [where f = g and p = p, OF at g]
  have type: "IE_BITS_TYPE (ie_bits (f e)) = MACH_PORT_TYPE_RECEIVE" using b(3) t by (simp add: f_def)
  have "same_slot e (f e)" "unhashed e" "unhashed (f e)"
    using b(1) t type by (simp_all add: f_def same_slot_def unhashed_def right_consts)
  note up = holds_update [where f = f and P' = "{}", OF right_atD(1) [OF at1] this(1)] this
  have c: "send_refs_cap (capability e) 0 = Some (capability (f e))"
    using t by (simp add: send_refs_cap_def capability_def f_def) (simp add: ac_simps)
  show "st_ok cfg (upd_entry (upd_port st p g) sid r f) sid"
    "st_caps (upd_entry (upd_port st p g) sid r f) sid = (st_caps st sid)(name := send_refs_cap (capability e) 0)"
    using up holds_st_ok c by (simp_all del: upd_entry_simps(2))
  have "right_ok (capability (f e))"
    using right_atD(2) [OF at] t type b(4,5) by (simp add: right_ok_iff urefs_ok_def f_def) (simp add: right_consts)
  then show "pred_option right_ok (send_refs_cap (capability e) 0)" unfolding c by simp
qed

definition refs_changed :: "ipc_config \<Rightarrow> ipc_state \<Rightarrow> space_id \<Rightarrow> mach_port_t \<Rightarrow> capability option \<Rightarrow> ipc_state \<Rightarrow> bool" where
  "refs_changed cfg st sid name c' st' \<longleftrightarrow>
    st_ok cfg st' sid \<and> st_caps st' sid = (st_caps st sid)(name := c') \<and> pred_option right_ok c'"

lemma delta_send_entry:
  fixes delta :: "32 word"
  assumes at: "right_at cfg st sid name r e" and t: "IE_BITS_TYPE (ie_bits e) \<in> {MACH_PORT_TYPE_SEND, MACH_PORT_TYPE_SEND_RECEIVE}"
    and live: "ip_active (st_ports st (ie_object e))"
  defines "n \<equiv> uint (IE_BITS_UREFS (ie_bits e)) + sint delta"
  shows "\<exists>kr st'. delta_send cfg st sid name r delta = Some (kr, st') \<and>
    (if n < 0 then kr = KERN_INVALID_VALUE \<and> st' = st
     else if 65534 < n then kr = KERN_UREFS_OVERFLOW \<and> st' = st
     else kr = KERN_SUCCESS \<and> refs_changed cfg st sid name (send_refs_cap (capability e) n) st')"
proof -
  note at' = right_atD [OF at] and u = send_urefs [OF right_atD(2) [OF at] t]
  let ?u = "IE_BITS_UREFS (ie_bits e)" and ?p = "ie_object e"
  have has: "has (ie_bits e) MACH_PORT_TYPE_SEND" using t unfolding right_tests [OF at'(2)] .
  have u1: "uint (?u + 1) = uint ?u + 1" "?u + 1 \<le> MACH_PORT_UREFS_MAX" "?u \<le> MACH_PORT_UREFS_MAX"
    using u uint_plus_sint [of ?u 1] by (simp_all add: word_less_def word_le_def UREFS_MAX_int)
  have tests: "MACH_PORT_UREFS_UNDERFLOW ?u delta \<longleftrightarrow> n < 0" "MACH_PORT_UREFS_OVERFLOW (?u + 1) delta \<longleftrightarrow> 65534 < n"
    using urefs_tests(2) [OF u1(3), of delta] urefs_tests(1) [OF u1(2), of delta] unfolding u1(1) n_def by auto
  consider (bad) "n < 0 \<or> 65534 < n" | (zero) "n = 0" | (some) "0 < n" "n \<le> 65534" by linarith
  then show ?thesis
  proof cases
    case bad
    then show ?thesis using has tests check_live [OF live] at'(7) by (auto simp: delta_send_def Let_def)
  next
    case zero
    have z: "?u + delta = 0" using uint_plus_sint [of ?u delta] zero unfolding n_def by (simp add: word_uint_eq_iff)
    show ?thesis
    proof (cases "IE_BITS_TYPE (ie_bits e) = MACH_PORT_TYPE_SEND_RECEIVE")
      case True
      then have "has (ie_bits e) MACH_PORT_TYPE_RECEIVE" unfolding right_tests [OF at'(2)] by simp
      then show ?thesis
        using drop_sends_step(1,2) [where g = "\<lambda>port. fst (drop_send port)" and p = ?p, OF at True drop_send_requests]
          drop_sends_step(3) [OF at True, of "\<lambda>port. port"] has tests zero z check_live [OF live] at'(7)
        by (simp add: delta_send_def port_drop_send_upd Let_def refs_changed_def st_ok_def del: upd_entry_simps(2))
    next
      case False
      then have s: "IE_BITS_TYPE (ie_bits e) = MACH_PORT_TYPE_SEND" and "\<not> has (ie_bits e) MACH_PORT_TYPE_RECEIVE"
        using t unfolding right_tests [OF at'(2)] by auto
      moreover obtain st' where "dealloc_last_send cfg st sid ?p name r (ie_bits e) = Some (KERN_SUCCESS, st')" "removed cfg st sid name st'"
        using dealloc_last_send_spec [OF at s] by blast
      moreover have "send_refs_cap (capability e) 0 = None" using s by (simp add: send_refs_cap_def capability_def)
      ultimately show ?thesis using has tests zero z check_live [OF live] at'(7)
        by (simp add: delta_send_def Let_def refs_changed_def removed_def)
    qed
  next
    case some
    have n: "uint (?u + delta) = n" using uint_plus_sint [of ?u delta] some unfolding n_def by simp
    then have d: "?u + delta \<le> MACH_PORT_UREFS_MAX" "?u + delta < MACH_PORT_UREFS_MAX" "0 < ?u + delta" "?u + delta \<noteq> 0"
      using some by (auto simp: word_le_def word_less_def UREFS_MAX_int)
    have ok: "right_ok (capability (e\<lparr>ie_bits := ie_bits e + delta\<rparr>))" using right_ok_delta [OF at'(2) d(3,1)] t d(2) by blast
    note s = urefs_step [OF at beside_refl at'(1) refl d(1) ok]
    have "send_refs_cap (capability e) n = Some (capability (e\<lparr>ie_bits := ie_bits e + delta\<rparr>))"
      using send_refs_entry [OF d(1)] n some by simp
    then show ?thesis using s(2) ok holds_st_ok [OF s(1)] has tests some d(4) check_live [OF live] at'(7)
      by (simp add: delta_send_def Let_def refs_changed_def del: upd_entry_simps(2))
  qed
qed

lemma refs_changed_splayed:
  "st_caps (splayed st sid tree) sid = st_caps st sid \<Longrightarrow> refs_changed cfg (splayed st sid tree) sid name c' st' = refs_changed cfg st sid name c' st'"
  by (simp add: refs_changed_def)

lemma mod_refs_send_spec:
  fixes delta :: "32 word"
  assumes nr: "named_right cfg st sid name (bits, p, request)" and s: "sid \<noteq> IS_NULL"
    and t: "IE_BITS_TYPE bits \<in> {MACH_PORT_TYPE_SEND, MACH_PORT_TYPE_SEND_RECEIVE}" and live: "ip_active (st_ports st p)"
  defines "n \<equiv> uint (IE_BITS_UREFS bits) + sint delta"
  shows "\<exists>kr c' st'. mach_port_mod_refs cfg fuel try interim st sid name 0 delta = Some (kr, st') \<and> refs_changed cfg st sid name c' st' \<and>
    (kr, c') = (if n < 0 then (KERN_INVALID_VALUE, Some (bits, p, request)) else if 65534 < n then (KERN_UREFS_OVERFLOW, Some (bits, p, request))
      else (KERN_SUCCESS, send_refs_cap (bits, p, request) n))"
proof -
  obtain r e tree where l: "ipc_right_lookup_write st sid name = (Inr r, splayed st sid tree)" "right_at cfg (splayed st sid tree) sid name r e"
    "capability e = (bits, p, request)" "st_caps (splayed st sid tree) sid = st_caps st sid"
    using named_lookup [OF nr] by blast
  have e: "IE_BITS_TYPE (ie_bits e) = IE_BITS_TYPE bits" "IE_BITS_UREFS (ie_bits e) = IE_BITS_UREFS bits" "ie_object e = p"
    using l(3) by (auto simp: capability_def)
  have same: "refs_changed cfg (splayed st sid tree) sid name (Some (capability e)) (splayed st sid tree)"
    using right_alive(4) [OF l(2)] right_atD(2) [OF l(2)] holds_st_ok [OF right_atD(1) [OF l(2)]] by (simp add: refs_changed_def fun_upd_idem)
  obtain kr st' where d: "delta_send cfg (splayed st sid tree) sid name r delta = Some (kr, st')"
    "if n < 0 then kr = KERN_INVALID_VALUE \<and> st' = splayed st sid tree
     else if 65534 < n then kr = KERN_UREFS_OVERFLOW \<and> st' = splayed st sid tree
     else kr = KERN_SUCCESS \<and> refs_changed cfg (splayed st sid tree) sid name (send_refs_cap (capability e) n) st'"
    using delta_send_entry [OF l(2), of delta] t live unfolding e n_def by auto
  have "mach_port_mod_refs cfg fuel try interim st sid name 0 delta = Some (kr, st')"
    using s l(1) d(1) by (simp add: mach_port_mod_refs_def port_right_def)
  with d(2) same show ?thesis unfolding refs_changed_splayed [OF l(4)] l(3) by (auto split: if_splits)
qed

section \<open>Two calls for one thing\<close>

lemma dealloc_delta:
  assumes at: "right_at cfg st sid name r e" and live: "IE_BITS_TYPE (ie_bits e) = MACH_PORT_TYPE_DEAD_NAME \<or> ip_active (st_ports st (ie_object e))"
    and right: "IE_BITS_TYPE (ie_bits e) \<in> {MACH_PORT_TYPE_SEND, MACH_PORT_TYPE_SEND_RECEIVE} \<and> right = MACH_PORT_RIGHT_SEND \<or>
      IE_BITS_TYPE (ie_bits e) = MACH_PORT_TYPE_SEND_ONCE \<and> right = MACH_PORT_RIGHT_SEND_ONCE \<or>
      IE_BITS_TYPE (ie_bits e) = MACH_PORT_TYPE_DEAD_NAME \<and> right = MACH_PORT_RIGHT_DEAD_NAME"
  shows "ipc_right_delta cfg fuel try interim st sid name r right (- 1) = ipc_right_dealloc cfg st sid name r"
proof -
  note at' = right_atD [OF at] and tests = right_tests [OF right_atD(2) [OF at]]
  let ?u = "IE_BITS_UREFS (ie_bits e)"
  have one: "?u + - 1 = 0 \<longleftrightarrow> ?u = 1" by auto
  have over: "\<not> MACH_PORT_UREFS_OVERFLOW x (- 1)" for x by (simp add: MACH_PORT_UREFS_OVERFLOW_def)
  have under: "\<not> MACH_PORT_UREFS_UNDERFLOW ?u (- 1)" if "0 < ?u" using that by (simp add: MACH_PORT_UREFS_UNDERFLOW_def word_less_def linorder_not_less)
  have c: "ip_active (st_ports st (ie_object e)) \<Longrightarrow> ipc_right_check cfg st sid (ie_object e) name r = Some (False, st)" by (rule check_live)
  from right consider
    (send) "IE_BITS_TYPE (ie_bits e) = MACH_PORT_TYPE_SEND" "right = MACH_PORT_RIGHT_SEND"
    | (both) "IE_BITS_TYPE (ie_bits e) = MACH_PORT_TYPE_SEND_RECEIVE" "right = MACH_PORT_RIGHT_SEND"
    | (once) "IE_BITS_TYPE (ie_bits e) = MACH_PORT_TYPE_SEND_ONCE" "right = MACH_PORT_RIGHT_SEND_ONCE"
    | (dead) "IE_BITS_TYPE (ie_bits e) = MACH_PORT_TYPE_DEAD_NAME" "right = MACH_PORT_RIGHT_DEAD_NAME" by blast
  then show ?thesis
  proof cases
    case send
    then have "0 < ?u" using send_urefs(1) [OF at'(2)] by simp
    with send live c tests one over under at'(7) show ?thesis by (simp add: delta_send_def ipc_right_dealloc_def Let_def)
  next
    case both
    then have "0 < ?u" using send_urefs(1) [OF at'(2)] by simp
    with both live c tests one over under at'(7) show ?thesis by (simp add: delta_send_def ipc_right_dealloc_def Let_def)
  next
    case once
    with live c tests at'(7) show ?thesis by (simp add: delta_send_once_def ipc_right_dealloc_def Let_def)
  next
    case dead
    then have "0 < ?u" using at'(2) by (auto simp: right_ok_iff urefs_ok_def right_consts)
    with dead tests one over under at'(7) show ?thesis
      by (simp add: delta_dead_name_def dead_name_delta_def dealloc_dead_def ipc_right_dealloc_def Let_def)
  qed
qed

end
