(* ===== verification/Mach_Port_Names.thy ===== *)
theory Mach_Port_Names
  imports Mach_Port
begin

text \<open>
  The system calls that list a space, \<^verbatim>\<open>mach_port_names\<close> and \<^verbatim>\<open>mach_port_get_set_status\<close> of
  \<^verbatim>\<open>src/kernel/ipc/mach_port.c\<close>.  Both walk over the table and the tree of the space into memory
  that they have to allocate while the space is not locked.  The schedule has the answers of
  \<^verbatim>\<open>vm_allocate\<close> and what happens to the state meanwhile, a round of the loop for each element;
  \<open>page\<close> is the size of a page.
\<close>

section \<open>All names\<close>

text \<open>The page size is a power of two, so that clearing the bits of \<^verbatim>\<open>page_mask\<close> is rounding down to a multiple.\<close>

definition round_page :: "nat \<Rightarrow> nat \<Rightarrow> nat" where
  "round_page page n = (n + page - 1) div page * page"

type_synonym names_schedule = "(bool \<times> bool \<times> (ipc_state \<Rightarrow> ipc_state)) list"

text \<open>The loop that gets enough memory: the size of what it has got.\<close>

fun names_memory :: "nat \<Rightarrow> names_schedule \<Rightarrow> ipc_state \<Rightarrow> space_id \<Rightarrow> nat \<Rightarrow> ((kern_return_t + nat) \<times> ipc_state) option" where
  "names_memory page sched st sid sz =
    (if \<not> is_active (st_spaces st sid) then Some (Inl KERN_INVALID_TASK, st)
     else
       let bound = is_table_size (st_spaces st sid) + is_tree_total (st_spaces st sid); needed = round_page page (bound * 4)
       in if needed \<le> sz then Some (Inr sz, st)
          else case sched of
            [] \<Rightarrow> None
          | (addr1, addr2, interim) # sched \<Rightarrow>
              if \<not> addr1 then Some (Inl KERN_RESOURCE_SHORTAGE, st)
              else if \<not> addr2 then Some (Inl KERN_RESOURCE_SHORTAGE, st)
              else names_memory page sched (interim st) sid needed)"

text \<open>
  The type of an entry as the caller sees it; \<open>None\<close> for a right of the old interface that has died.
  A port that died after the call has begun is taken as alive.
\<close>

definition names_type :: "ipc_state \<Rightarrow> 32 word \<Rightarrow> ipc_entry \<Rightarrow> 32 word option" where
  "names_type st timestamp entry =
    (let bits = ie_bits entry; request = ie_request entry; port = st_ports st (ie_object entry);
         died = (has bits MACH_PORT_TYPE_SEND_RIGHTS \<and> \<not> ip_active port \<and> IP_TIMESTAMP_ORDER (ip_timestamp port) timestamp)
     in if died \<and> has bits IE_BITS_COMPAT then None
        else
          let dead = (bits AND NOT (IE_BITS_TYPE_MASK OR IE_BITS_MAREQUEST)) OR MACH_PORT_TYPE_DEAD_NAME;
              bits = (if died then (if request \<noteq> 0 then dead + 1 else dead) else bits);
              request = (if died then 0 else request);
              type = IE_BITS_TYPE bits;
              type = (if has bits IE_BITS_COMPAT then type OR MACH_PORT_TYPE_COMPAT
                      else if request \<noteq> 0 then type OR MACH_PORT_TYPE_DNREQUEST else type)
          in Some (if has bits IE_BITS_MAREQUEST then type OR MACH_PORT_TYPE_MAREQUEST else type))"

definition mach_port_names_helper ::
    "ipc_state \<Rightarrow> 32 word \<Rightarrow> ipc_entry \<Rightarrow> mach_port_t \<Rightarrow> (mach_port_t \<times> 32 word) list \<Rightarrow> (mach_port_t \<times> 32 word) list" where
  "mach_port_names_helper st timestamp entry name names =
    (case names_type st timestamp entry of None \<Rightarrow> names | Some type \<Rightarrow> names @ [(name, type)])"

definition names_slot ::
    "ipc_state \<Rightarrow> 32 word \<Rightarrow> ipc_entry list \<Rightarrow> nat \<Rightarrow> (mach_port_t \<times> 32 word) list \<Rightarrow> (mach_port_t \<times> 32 word) list" where
  "names_slot st timestamp table index names =
    (let bits = ie_bits (table ! index)
     in if IE_BITS_TYPE bits \<noteq> MACH_PORT_TYPE_NONE
        then mach_port_names_helper st timestamp (table ! index) (MACH_PORT_MAKEB index bits) names else names)"

definition names_list :: "ipc_state \<Rightarrow> space_id \<Rightarrow> ((mach_port_t \<times> 32 word) list \<times> ipc_state) option" where
  "names_list st sid =
    (let (timestamp, st) = ipc_port_timestamp st; space = st_spaces st sid;
         names = fold (names_slot st timestamp (is_table space)) [0..<is_table_size space] []
     in map_option (\<lambda>(names, tree). (names, set_space st sid (space\<lparr>is_tree := tree\<rparr>)))
          (ipc_splay_traverse (is_tree_total space)
            (\<lambda>(name, entry) names. (mach_port_names_helper st timestamp entry name names, False)) (is_tree space) names))"

definition mach_port_names ::
    "nat \<Rightarrow> names_schedule \<Rightarrow> ipc_state \<Rightarrow> space_id \<Rightarrow> ((kern_return_t + (mach_port_t \<times> 32 word) list) \<times> ipc_state) option" where
  "mach_port_names page sched st sid =
    (if sid = IS_NULL then Some (Inl KERN_INVALID_TASK, st)
     else do {
       (ret, st) \<leftarrow> names_memory page sched st sid 0;
       case ret of
         Inl kr \<Rightarrow> Some (Inl kr, st)
       | Inr sz \<Rightarrow> map_option (\<lambda>(names, st). (Inr names, st)) (names_list st sid)
     })"

section \<open>The members of a port set\<close>

text \<open>The names that have been written, and how many there are.\<close>

definition mach_port_gst_helper ::
    "ipc_state \<Rightarrow> ipc_pset_t \<Rightarrow> nat \<Rightarrow> ipc_entry \<Rightarrow> mach_port_t list \<times> nat \<Rightarrow> mach_port_t list \<times> nat" where
  "mach_port_gst_helper st pset maxnames entry acc =
    (if has (ie_bits entry) MACH_PORT_TYPE_RECEIVE then
       case acc of (names, actual) \<Rightarrow>
         let port = st_ports st (ie_object entry)
         in if pset = ip_pset port
            then (if actual < maxnames then names @ [ip_receiver_name port] else names, actual + 1) else (names, actual)
     else acc)"

definition gst_members :: "ipc_state \<Rightarrow> space_id \<Rightarrow> ipc_pset_t \<Rightarrow> nat \<Rightarrow> ((mach_port_t list \<times> nat) \<times> ipc_state) option" where
  "gst_members st sid pset maxnames =
    (let space = st_spaces st sid;
         acc = fold (\<lambda>index. mach_port_gst_helper st pset maxnames (is_table space ! index)) [0..<is_table_size space] ([], 0)
     in map_option (\<lambda>(acc, tree). (acc, set_space st sid (space\<lparr>is_tree := tree\<rparr>)))
          (ipc_splay_traverse (is_tree_total space)
            (\<lambda>(name, entry) acc. (mach_port_gst_helper st pset maxnames entry acc, False)) (is_tree space) acc))"

type_synonym gst_schedule = "(bool \<times> (ipc_state \<Rightarrow> ipc_state)) list"

fun gst_loop :: "nat \<Rightarrow> gst_schedule \<Rightarrow> ipc_state \<Rightarrow> space_id \<Rightarrow> mach_port_t \<Rightarrow> nat \<Rightarrow> ((kern_return_t + mach_port_t list) \<times> ipc_state) option" where
  "gst_loop page [] st sid name sz = None"
| "gst_loop page ((addr, interim) # sched) st sid name sz =
    (if \<not> addr then Some (Inl KERN_RESOURCE_SHORTAGE, st)
     else case ipc_right_lookup_write (interim st) sid name of
       (Inl kr, st) \<Rightarrow> Some (Inl kr, st)
     | (Inr r, st) \<Rightarrow>
         let entry = get_entry st sid r
         in if IE_BITS_TYPE (ie_bits entry) \<noteq> MACH_PORT_TYPE_PORT_SET then Some (Inl KERN_INVALID_RIGHT, st)
            else do {
              ((names, actual), st) \<leftarrow> gst_members st sid (ie_object entry) (sz div 4);
              if actual \<le> sz div 4 then Some (Inr names, st)
              else gst_loop page sched st sid name (round_page page (actual * 4) + page)
            })"

definition mach_port_get_set_status ::
    "nat \<Rightarrow> gst_schedule \<Rightarrow> ipc_state \<Rightarrow> space_id \<Rightarrow> mach_port_t \<Rightarrow> ((kern_return_t + mach_port_t list) \<times> ipc_state) option" where
  "mach_port_get_set_status page sched st sid name =
    (if sid = IS_NULL then Some (Inl KERN_INVALID_TASK, st) else gst_loop page sched st sid name page)"

end
