(* ===== verification/Space_Listing.thy ===== *)
theory Space_Listing
  imports Mach_Port_Names Object_Ops
begin

text \<open>
  The entries of a space in the order in which the listing calls visit them, and what the listings
  are: each name of the space once, with its capability.
\<close>

section \<open>The entries of a space\<close>

definition space_entries :: "ipc_space \<Rightarrow> (mach_port_t \<times> ipc_entry) list" where
  "space_entries s =
    map (\<lambda>i. (MACH_PORT_MAKEB i (ie_bits (is_table s ! i)), is_table s ! i))
      (filter (\<lambda>i. IE_BITS_TYPE (ie_bits (is_table s ! i)) \<noteq> MACH_PORT_TYPE_NONE) [0..<is_table_size s]) @
    ist_list (is_tree s)"

lemma MAKEB_eq:
  assumes "i < 2 ^ 24"
  shows "MACH_PORT_MAKEB i bits = name \<longleftrightarrow> MACH_PORT_INDEX name = i \<and> MACH_PORT_GEN name = IE_BITS_GEN bits"
  using MAKEB_INDEX_GEN [OF assms, of bits] name_eqI [of "MACH_PORT_MAKEB i bits" name] by metis

lemma distinct_slots:
  assumes "\<forall>i \<in> set xs. i < 2 ^ 24" and "distinct xs"
  shows "distinct (map (\<lambda>i. MACH_PORT_MAKEB i (b i)) xs)"
proof -
  have "inj_on (\<lambda>i. MACH_PORT_MAKEB i (b i)) (set xs)"
    using assms(1) MAKEB_INDEX_GEN(1) by (intro inj_on_inverseI [where g = MACH_PORT_INDEX]) simp
  then show ?thesis using assms(2) by (simp add: distinct_map)
qed

lemma map_of_slots:
  assumes "\<forall>i \<in> set xs. i < 2 ^ 24"
  shows "map_of (map (\<lambda>i. (MACH_PORT_MAKEB i (b i), v i)) xs) name =
      (if MACH_PORT_INDEX name \<in> set xs \<and> MACH_PORT_GEN name = IE_BITS_GEN (b (MACH_PORT_INDEX name)) then Some (v (MACH_PORT_INDEX name)) else None)"
  using assms
proof (induction xs)
  case (Cons x xs)
  then have "MACH_PORT_MAKEB x (b x) = name \<longleftrightarrow> MACH_PORT_INDEX name = x \<and> MACH_PORT_GEN name = IE_BITS_GEN (b x)"
    by (intro MAKEB_eq) simp
  with Cons show ?case by auto
qed simp

lemma space_entries_caps:
  assumes ok: "space_ok its sid {} g s" and its: "entry_sizes its"
  shows "distinct (map fst (space_entries s))"
    and "map_option capability (map_of (space_entries s) name) = caps {} s name"
    and "length (space_entries s) \<le> is_table_size s + is_tree_total s"
proof -
  note ok' = space_okD [OF ok]
  let ?t = "is_table s"
  let ?xs = "filter (\<lambda>i. IE_BITS_TYPE (ie_bits (?t ! i)) \<noteq> MACH_PORT_TYPE_NONE) [0..<is_table_size s]"
  have "is_table_size s \<le> MACH_PORT_INDEX MACH_PORT_DEAD"
    using ok'(1) entry_sizes.largest [OF its] unfolding sizes_ok_def by (metis less_imp_diff_less)
  then have small: "\<forall>i \<in> set ?xs. i < 2 ^ 24" using MACH_PORT_INDEX_bound [of MACH_PORT_DEAD] by auto
  have used: "i \<in> set ?xs \<longleftrightarrow> in_use {} s i" for i
    using head_ok_fields(1) [OF ok'(2)] ok'(12) by (cases "i = 0") (auto simp: in_use_def free_slots_def MACH_PORT_TYPE_NONE_def)
  have slots: "map_of (map (\<lambda>i. (MACH_PORT_MAKEB i (ie_bits (?t ! i)), ?t ! i)) ?xs) m =
      (if in_use {} s (MACH_PORT_INDEX m) \<and> MACH_PORT_GEN m = gen_of ?t (MACH_PORT_INDEX m) then Some (?t ! MACH_PORT_INDEX m) else None)" for m
    unfolding used [symmetric] by (rule map_of_slots [OF small])
  have tree: "distinct (map fst (ist_list (is_tree s)))" by (rule ascending_distinct [OF ist_ok_ascending [OF ok'(4)]])
  have "MACH_PORT_MAKEB i (ie_bits (?t ! i)) \<notin> fst ` set (ist_list (is_tree s))" if i: "i \<in> set ?xs" for i
  proof
    assume "MACH_PORT_MAKEB i (ie_bits (?t ! i)) \<in> fst ` set (ist_list (is_tree s))"
    then obtain x where x: "x \<in> set (ist_list (is_tree s))" "fst x = MACH_PORT_MAKEB i (ie_bits (?t ! i))" by force
    then have "MACH_PORT_INDEX (fst x) = i" "MACH_PORT_GEN (fst x) = gen_of ?t i"
      using MAKEB_INDEX_GEN [of i] small i by simp_all
    moreover have "0 < i" "i < length ?t" using i used [of i] by (simp_all add: in_use_def)
    ultimately show False using ok'(7) x(1) unfolding coll_ok_def by blast
  qed
  then show "distinct (map fst (space_entries s))"
    using tree distinct_slots [OF small, of "\<lambda>i. ie_bits (?t ! i)"] by (auto simp: space_entries_def comp_def)
  show "map_option capability (map_of (space_entries s) name) = caps {} s name"
    unfolding space_entries_def map_of_append map_add_def slots by (auto simp: caps_def Let_def split: option.splits)
  show "length (space_entries s) \<le> is_table_size s + is_tree_total s"
    using ok'(5) length_filter_le [of _ "[0..<is_table_size s]"] by (simp add: space_entries_def)
qed

section \<open>The list of names\<close>

text \<open>
  What the caller is to be told of a capability.  A right of a port that had died when the listing began is a dead name,
  except for a name of the old interface, which is no longer valid; every other right has its type, with the flags for
  the old interface, for a dead-name request and for a msg-accepted request.
\<close>

definition names_view :: "ipc_state \<Rightarrow> 32 word \<Rightarrow> capability \<Rightarrow> 32 word option" where
  "names_view st timestamp c =
    (case c of (bits, p, request) \<Rightarrow>
      if IE_BITS_TYPE bits \<in> {MACH_PORT_TYPE_SEND, MACH_PORT_TYPE_SEND_RECEIVE, MACH_PORT_TYPE_SEND_ONCE} \<and>
         \<not> ip_active (st_ports st p) \<and> IP_TIMESTAMP_ORDER (ip_timestamp (st_ports st p)) timestamp
      then (if has bits IE_BITS_COMPAT then None else Some MACH_PORT_TYPE_DEAD_NAME)
      else Some (IE_BITS_TYPE bits OR
        (if has bits IE_BITS_COMPAT then MACH_PORT_TYPE_COMPAT else if request \<noteq> 0 then MACH_PORT_TYPE_DNREQUEST else 0) OR
        (if has bits IE_BITS_MAREQUEST then MACH_PORT_TYPE_MAREQUEST else 0)))"

lemma send_rights_types:
  assumes "right_ok (capability e)"
  shows "has (ie_bits e) MACH_PORT_TYPE_SEND_RIGHTS \<longleftrightarrow>
    IE_BITS_TYPE (ie_bits e) \<in> {MACH_PORT_TYPE_SEND, MACH_PORT_TYPE_SEND_RECEIVE, MACH_PORT_TYPE_SEND_ONCE}"
  using assms unfolding has_type by (auto simp: right_ok_iff urefs_ok_def right_consts)

lemma dead_name_bits:
  assumes ok: "right_ok (capability e)" and send: "has (ie_bits e) MACH_PORT_TYPE_SEND_RIGHTS" and "\<not> has (ie_bits e) IE_BITS_COMPAT"
  defines "d \<equiv> (ie_bits e AND NOT (IE_BITS_TYPE_MASK OR IE_BITS_MAREQUEST)) OR MACH_PORT_TYPE_DEAD_NAME"
  shows "IE_BITS_TYPE (if (request :: nat) \<noteq> 0 then d + 1 else d) = MACH_PORT_TYPE_DEAD_NAME"
    and "\<not> has (if request \<noteq> 0 then d + 1 else d) IE_BITS_COMPAT" and "\<not> has (if request \<noteq> 0 then d + 1 else d) IE_BITS_MAREQUEST"
proof -
  let ?b = "ie_bits e AND NOT IE_BITS_MAREQUEST"
  have "IE_BITS_UREFS (ie_bits e) < MACH_PORT_UREFS_MAX"
    using ok send unfolding has_type by (auto simp: right_ok_iff urefs_ok_def right_consts MACH_PORT_UREFS_MAX_def)
  then have b: "\<not> has ?b IE_BITS_MAREQUEST" "\<not> has ?b IE_BITS_COMPAT" "IE_BITS_UREFS ?b < MACH_PORT_UREFS_MAX"
    using assms(3) by (simp_all add: fields_AND has_def and.assoc) (simp_all add: IE_BITS_UREFS_def and.assoc right_consts)
  have "(if request \<noteq> 0 then d + 1 else d) = dead_bits ?b request" by (simp add: d_def dead_bits_def ac_simps)
  with dead_bits_fields(2,4,5) [OF b, of request]
  show "IE_BITS_TYPE (if request \<noteq> 0 then d + 1 else d) = MACH_PORT_TYPE_DEAD_NAME"
    and "\<not> has (if request \<noteq> 0 then d + 1 else d) IE_BITS_COMPAT" and "\<not> has (if request \<noteq> 0 then d + 1 else d) IE_BITS_MAREQUEST"
    by simp_all
qed

lemma names_type_view:
  assumes "right_ok (capability e)"
  shows "names_type st timestamp e = names_view st timestamp (capability e)"
proof (cases "has (ie_bits e) MACH_PORT_TYPE_SEND_RIGHTS \<and> \<not> ip_active (st_ports st (ie_object e)) \<and>
    IP_TIMESTAMP_ORDER (ip_timestamp (st_ports st (ie_object e))) timestamp")
  case died: True
  show ?thesis
  proof (cases "has (ie_bits e) IE_BITS_COMPAT")
    case True
    with died send_rights_types [OF assms] show ?thesis by (simp add: names_type_def names_view_def capability_def)
  next
    case False
    note d = dead_name_bits [OF assms _ False, of "ie_request e"]
    have died': "has (ie_bits e) MACH_PORT_TYPE_SEND_RIGHTS" "\<not> ip_active (st_ports st (ie_object e))"
      "IP_TIMESTAMP_ORDER (ip_timestamp (st_ports st (ie_object e))) timestamp" using died by simp_all
    note d = d [OF died'(1)]
    have "names_type st timestamp e = Some MACH_PORT_TYPE_DEAD_NAME"
      unfolding names_type_def Let_def by (simp only: died' False d simp_thms if_True if_False)
    moreover have "names_view st timestamp (capability e) = Some MACH_PORT_TYPE_DEAD_NAME"
      unfolding names_view_def capability_def prod.case cap_fields send_rights_types [OF assms, symmetric]
      by (simp only: died' False simp_thms if_True if_False)
    ultimately show ?thesis by simp
  qed
next
  case False
  then show ?thesis
    unfolding names_type_def names_view_def capability_def Let_def prod.case cap_fields send_rights_types [OF assms, symmetric]
    by (auto simp: or.assoc)
qed

lemma traverse_fold_keep: "traverse_fold (\<lambda>(name, entry) acc. (f name entry acc, False)) xs acc = (fold (\<lambda>(name, entry). f name entry) xs acc, xs)"
  by (induction xs arbitrary: acc) auto

definition names_of :: "ipc_state \<Rightarrow> 32 word \<Rightarrow> (mach_port_t \<times> ipc_entry) list \<Rightarrow> (mach_port_t \<times> 32 word) list" where
  "names_of st timestamp xs = List.concat (map (\<lambda>(name, e). case names_type st timestamp e of None \<Rightarrow> [] | Some type \<Rightarrow> [(name, type)]) xs)"

lemma names_of_fold: "fold (\<lambda>(name, e). mach_port_names_helper st ts e name) xs names = names @ names_of st ts xs"
  by (induction xs arbitrary: names) (auto simp: names_of_def mach_port_names_helper_def split: option.splits)

lemma names_slot_fold:
  "fold (names_slot st ts table) ixs names =
    names @ names_of st ts (map (\<lambda>i. (MACH_PORT_MAKEB i (ie_bits (table ! i)), table ! i))
      (filter (\<lambda>i. IE_BITS_TYPE (ie_bits (table ! i)) \<noteq> MACH_PORT_TYPE_NONE) ixs))"
  by (induction ixs arbitrary: names) (auto simp: names_of_def names_slot_def mach_port_names_helper_def Let_def split: option.splits)

lemma names_of_fst: "fst ` set (names_of st ts xs) \<subseteq> fst ` set xs"
  by (auto simp: names_of_def split: option.splits) force

lemma names_of_map:
  assumes "distinct (map fst xs)"
  shows "distinct (map fst (names_of st ts xs))" and "map_of (names_of st ts xs) name = Option.bind (map_of xs name) (names_type st ts)"
    and "length (names_of st ts xs) \<le> length xs"
proof -
  have c: "names_of st ts (x # xs) = (case names_type st ts (snd x) of None \<Rightarrow> [] | Some type \<Rightarrow> [(fst x, type)]) @ names_of st ts xs" for x xs
    by (simp add: names_of_def split_beta)
  have n: "names_of st ts [] = []" by (simp add: names_of_def)
  show "distinct (map fst (names_of st ts xs))"
    using assms by (induction xs) (use names_of_fst [of st ts] in \<open>auto simp: c n split: option.splits\<close>)
  show "length (names_of st ts xs) \<le> length xs" by (induction xs) (auto simp: c n split: option.splits)
  have "map_of (names_of st ts xs) name = None" if "name \<notin> fst ` set xs" for xs
    using names_of_fst [of st ts xs] that by (auto simp: map_of_eq_None_iff)
  then show "map_of (names_of st ts xs) name = Option.bind (map_of xs name) (names_type st ts)"
    using assms by (induction xs) (auto simp: c n split: option.splits)
qed

lemma names_list_spec:
  assumes ok: "st_ok cfg st sid" and its: "entry_sizes (ipc_table_entries cfg)" and rights: "\<forall>name c. st_caps st sid name = Some c \<longrightarrow> right_ok c"
  shows "\<exists>names st'. names_list st sid = Some (names, st') \<and> distinct (map fst names) \<and>
    (\<forall>name. map_of names name = Option.bind (st_caps st sid name) (names_view st (st_timestamp st))) \<and>
    length names \<le> is_table_size (st_spaces st sid) + is_tree_total (st_spaces st sid) \<and>
    st_ok cfg st' sid \<and> st_caps st' sid = st_caps st sid \<and> st_ports st' = st_ports st"
proof -
  let ?s = "st_spaces st sid" and ?ts = "st_timestamp st" and ?st = "st\<lparr>st_timestamp := st_timestamp st + 1\<rparr>"
  let ?f = "\<lambda>name entry names. mach_port_names_helper ?st ?ts entry name names"
  have ok': "space_ok (ipc_table_entries cfg) sid {} (st_hash st) ?s" using ok by (simp add: st_ok_def)
  note sp = space_okD [OF ok'] and ents = space_entries_caps [OF ok' its]
  have len: "length (ist_list (is_tree ?s)) \<le> is_tree_total ?s" using sp(5) by simp
  obtain tree where tr: "ipc_splay_traverse (is_tree_total ?s) (\<lambda>(name, entry) names. (?f name entry names, False)) (is_tree ?s)
      (fold (names_slot ?st ?ts (is_table ?s)) [0..<is_table_size ?s] []) =
    Some (fold (names_slot ?st ?ts (is_table ?s)) [0..<is_table_size ?s] [] @ names_of ?st ?ts (ist_list (is_tree ?s)), tree)"
    "ist_ok tree" "ist_list tree = ist_list (is_tree ?s)"
    using traverse_spec [OF sp(4) len, of "\<lambda>(name, entry) names. (?f name entry names, False)"
      "fold (names_slot ?st ?ts (is_table ?s)) [0..<is_table_size ?s] []"] unfolding traverse_fold_keep fst_conv snd_conv names_of_fold by blast
  have all: "fold (names_slot ?st ?ts (is_table ?s)) [0..<is_table_size ?s] [] @ names_of ?st ?ts (ist_list (is_tree ?s)) = names_of ?st ?ts (space_entries ?s)"
    unfolding names_slot_fold by (simp add: names_of_def space_entries_def)
  note m = names_of_map [OF ents(1), of ?st ?ts]
  have view: "map_of (names_of ?st ?ts (space_entries ?s)) name = Option.bind (st_caps st sid name) (names_view st ?ts)" for name
  proof -
    have "names_type ?st ?ts e = names_view st ?ts (capability e)" if "map_of (space_entries ?s) name = Some e" for e
    proof -
      have "st_caps st sid name = Some (capability e)" using ents(2) [of name] that by simp
      then have "right_ok (capability e)" using rights by blast
      from names_type_view [OF this, of st] show ?thesis by (simp add: names_type_def)
    qed
    then show ?thesis unfolding m(2) using ents(2) [of name, symmetric] by (cases "map_of (space_entries ?s) name") simp_all
  qed
  note spl = space_ok_splay [OF ok' tr(3,2)]
  have "names_list st sid = Some (names_of ?st ?ts (space_entries ?s), set_space ?st sid (?s\<lparr>is_tree := tree\<rparr>))"
    using tr(1) unfolding all by (simp add: names_list_def ipc_port_timestamp_def Let_def)
  with m(1,3) ents(3) view spl show ?thesis
    by (intro exI [of _ "names_of ?st ?ts (space_entries ?s)"] exI [of _ "set_space ?st sid (?s\<lparr>is_tree := tree\<rparr>)"])
      (simp add: st_ok_def set_space_def)
qed

text \<open>The memory is large enough for all names that the space can have.\<close>

lemma round_page_ge:
  assumes "0 < page"
  shows "n \<le> round_page page n"
proof -
  have "(n + page - 1) mod page < page" using assms by simp
  then have "n \<le> n + page - 1 - (n + page - 1) mod page" by linarith
  then show ?thesis by (simp only: round_page_def minus_mod_eq_div_mult)
qed

lemma names_memory_enough:
  assumes "names_memory page sched st sid sz = Some (Inr sz', st')"
  shows "is_active (st_spaces st' sid)" and "round_page page ((is_table_size (st_spaces st' sid) + is_tree_total (st_spaces st' sid)) * 4) \<le> sz'"
  using assms by (induction sched arbitrary: st sz) (auto simp: Let_def split: if_splits simp del: names_memory.simps simp: names_memory.simps [of page "[]"] names_memory.simps [of page "x # xs" for x xs])

section \<open>The members of a port set\<close>

definition member :: "ipc_state \<Rightarrow> ipc_pset_t \<Rightarrow> ipc_entry \<Rightarrow> bool" where
  "member st ps e \<longleftrightarrow> has (ie_bits e) MACH_PORT_TYPE_RECEIVE \<and> ip_pset (st_ports st (ie_object e)) = ps"

definition members_of :: "ipc_state \<Rightarrow> ipc_pset_t \<Rightarrow> ipc_entry list \<Rightarrow> mach_port_t list" where
  "members_of st ps es = map (\<lambda>e. ip_receiver_name (st_ports st (ie_object e))) (filter (member st ps) es)"

lemma members_of_append [simp]: "members_of st ps (xs @ ys) = members_of st ps xs @ members_of st ps ys"
  by (simp add: members_of_def)

lemma gst_fold:
  "fold (mach_port_gst_helper st ps maxnames) es (take maxnames ns, length ns) =
    (take maxnames (ns @ members_of st ps es), length (ns @ members_of st ps es))"
proof (induction es arbitrary: ns)
  case (Cons e es)
  have "mach_port_gst_helper st ps maxnames e (take maxnames ns, length ns) =
      (take maxnames (ns @ members_of st ps [e]), length (ns @ members_of st ps [e]))"
    by (auto simp: mach_port_gst_helper_def members_of_def member_def Let_def)
  moreover have "members_of st ps (e # es) = members_of st ps [e] @ members_of st ps es" by (simp add: members_of_def)
  ultimately show ?case using Cons [of "ns @ members_of st ps [e]"] by (simp only: fold_simps append.assoc)
qed (simp add: members_of_def)

lemma members_of_filter: "members_of st ps (filter (\<lambda>e. IE_BITS_TYPE (ie_bits e) \<noteq> MACH_PORT_TYPE_NONE) es) = members_of st ps es"
proof -
  have "\<not> member st ps e" if "IE_BITS_TYPE (ie_bits e) = MACH_PORT_TYPE_NONE" for e
    using that unfolding member_def has_type by (simp add: right_consts)
  then show ?thesis by (induction es) (auto simp: members_of_def)
qed

lemma gst_members_spec:
  fixes ps :: ipc_pset_t
  assumes ok: "st_ok cfg st sid" and its: "entry_sizes (ipc_table_entries cfg)"
  defines "ms \<equiv> members_of st ps (map snd (space_entries (st_spaces st sid)))"
  shows "\<exists>tree. gst_members st sid ps maxnames = Some ((take maxnames ms, length ms), splayed st sid tree) \<and>
    ist_list tree = ist_list (is_tree (st_spaces st sid)) \<and> ist_ok tree"
proof -
  let ?s = "st_spaces st sid" and ?h = "mach_port_gst_helper st ps maxnames"
  have ok': "space_ok (ipc_table_entries cfg) sid {} (st_hash st) ?s" using ok by (simp add: st_ok_def)
  note sp = space_okD [OF ok']
  have len: "length (ist_list (is_tree ?s)) \<le> is_tree_total ?s" using sp(5) by simp
  let ?t = "map ((!) (is_table ?s)) [0..<is_table_size ?s]"
  have f: "fold (\<lambda>i. ?h (is_table ?s ! i)) [0..<is_table_size ?s] ([], 0) = (take maxnames (members_of st ps ?t), length (members_of st ps ?t))"
    using gst_fold [of st ps maxnames ?t "[]"] by (simp add: fold_map comp_def)
  have "filter (\<lambda>e. IE_BITS_TYPE (ie_bits e) \<noteq> MACH_PORT_TYPE_NONE) ?t =
      map ((!) (is_table ?s)) (filter (\<lambda>i. IE_BITS_TYPE (ie_bits (is_table ?s ! i)) \<noteq> MACH_PORT_TYPE_NONE) [0..<is_table_size ?s])"
    by (simp add: filter_map comp_def)
  then have ms: "ms = members_of st ps ?t @ members_of st ps (map snd (ist_list (is_tree ?s)))"
    unfolding ms_def space_entries_def map_append members_of_append
    using members_of_filter [of st ps ?t] by (simp add: comp_def)
  have g: "fold (\<lambda>(name, e). ?h e) xs acc = fold ?h (map snd xs) acc" for xs :: "(mach_port_t \<times> ipc_entry) list" and acc
    by (induction xs arbitrary: acc) auto
  have fin: "fst (traverse_fold (\<lambda>(name, entry) acc. (?h entry acc, False)) (ist_list (is_tree ?s))
      (take maxnames (members_of st ps ?t), length (members_of st ps ?t))) = (take maxnames ms, length ms)"
    unfolding traverse_fold_keep fst_conv g gst_fold ms by simp
  obtain tree where "ipc_splay_traverse (is_tree_total ?s) (\<lambda>(name, entry) acc. (?h entry acc, False)) (is_tree ?s)
      (take maxnames (members_of st ps ?t), length (members_of st ps ?t)) = Some ((take maxnames ms, length ms), tree)"
    "ist_ok tree" "ist_list tree = ist_list (is_tree ?s)"
    using traverse_spec [OF sp(4) len, of "\<lambda>(name, entry) acc. (?h entry acc, False)" "(take maxnames (members_of st ps ?t), length (members_of st ps ?t))"]
    unfolding fin unfolding traverse_fold_keep snd_conv by blast
  then show ?thesis by (auto simp: gst_members_def f splayed_def Let_def)
qed

lemma splayed_named:
  assumes n: "named_right cfg st sid name c" and t: "ist_list tree = ist_list (is_tree (st_spaces st sid))" "ist_ok tree"
  shows "named_right cfg (splayed st sid tree) sid name c"
    and "space_entries (st_spaces (splayed st sid tree) sid) = space_entries (st_spaces st sid)"
    and "splayed (splayed st sid tree) sid tree' = splayed st sid tree'"
proof -
  note n' = n [unfolded named_right_def st_ok_def]
  have "space_ok (ipc_table_entries cfg) sid {} (st_hash st) (st_spaces st sid)" using n' by simp
  note ok = space_ok_splay [OF this t]
  have sp: "space_ok (ipc_table_entries cfg) sid {} (st_hash st) (st_spaces (splayed st sid tree) sid)"
    "caps {} (st_spaces (splayed st sid tree) sid) = st_caps st sid" "is_active (st_spaces (splayed st sid tree) sid)"
    using ok n' by (simp_all add: splayed_def set_space_def)
  then show "named_right cfg (splayed st sid tree) sid name c" using n' by (simp add: named_right_def st_ok_def split: prod.splits)
  show "space_entries (st_spaces (splayed st sid tree) sid) = space_entries (st_spaces st sid)"
    using t(1) by (simp add: space_entries_def splayed_def set_space_def)
  show "splayed (splayed st sid tree) sid tree' = splayed st sid tree'" by (simp add: splayed_def set_space_def)
qed

lemma members_splayed [simp]: "members_of (splayed st sid tree) ps es = members_of st ps es"
  by (simp add: members_of_def member_def [abs_def])

lemma gst_round:
  assumes n: "named_right cfg st sid name (bits, ps, request)" and t: "IE_BITS_TYPE bits = MACH_PORT_TYPE_PORT_SET"
  defines "ms \<equiv> members_of st ps (map snd (space_entries (st_spaces st sid)))"
  shows "\<exists>tree. gst_loop page ((True, \<lambda>x. x) # sched) st sid name sz =
      (if length ms \<le> sz div 4 then Some (Inr ms, splayed st sid tree)
       else gst_loop page sched (splayed st sid tree) sid name (round_page page (length ms * 4) + page)) \<and>
    ist_list tree = ist_list (is_tree (st_spaces st sid)) \<and> ist_ok tree"
proof -
  obtain r e tree where l: "ipc_right_lookup_write st sid name = (Inr r, splayed st sid tree)" "right_at cfg (splayed st sid tree) sid name r e"
    "capability e = (bits, ps, request)" "ist_list tree = ist_list (is_tree (st_spaces st sid))" "ist_ok tree"
    using named_lookup [OF n] by blast
  note sp = splayed_named [OF n l(4,5)]
  have its: "entry_sizes (ipc_table_entries cfg)" "st_ok cfg (splayed st sid tree) sid" using n sp(1) by (simp_all add: named_right_def)
  have e: "get_entry (splayed st sid tree) sid r = e" "ie_object e = ps" "IE_BITS_TYPE (ie_bits e) = MACH_PORT_TYPE_PORT_SET"
    using right_atD(7) [OF l(2)] l(3) t by (auto simp: capability_def)
  have tree: "is_tree (st_spaces (splayed st sid tree) sid) = tree" by (simp add: splayed_def set_space_def)
  obtain tree' where g: "gst_members (splayed st sid tree) sid ps (sz div 4) = Some ((take (sz div 4) ms, length ms), splayed st sid tree')"
    "ist_list tree' = ist_list tree" "ist_ok tree'"
    using gst_members_spec [OF its(2,1), of ps "sz div 4"] unfolding sp(2,3) members_splayed ms_def [symmetric] tree by blast
  show ?thesis
    using l(1,4) e g by (intro exI [of _ tree']) (simp add: Let_def)
qed

end
