(* ===== verification/Example_Rights.thy ===== *)
theory Example_Rights
  imports Right_Release Right_Receive Example_Space
begin

text \<open>
  Concrete rights for the laws: the space of \<open>example_state\<close> after its first entry has been taken,
  with the name 0x100, and a right of port 5 in that entry.
\<close>

definition got_state :: "ipc_port \<Rightarrow> ipc_state" where
  "got_state port = example_state\<lparr>st_spaces := (\<lambda>_. example_got), st_ports := (\<lambda>_. blank_port)(5 := port)\<rparr>"

definition got_entry :: "ipc_object_t \<Rightarrow> ipc_entry" where
  "got_entry obj = \<lparr>ie_bits = 0, ie_object = obj, ie_request = 0, ie_index = 0\<rparr>"

lemma got_holds: "holds example_config (got_state port) 16 {In_table 1} 0x100 (In_table 1) (got_entry IO_NULL)"
proof -
  have "core_ok example_sizes 16 {In_table 1} example_hash example_got"
    using ipc_entry_get_spec [OF example_space_ok(1) example_sizes_ok, unfolded example_get(1) sum.case prod.case]
    unfolding space_ok_core by blast
  moreover have "cell example_got 0x100 (In_table 1)" using example_get(2) by (simp add: cell_def)
  ultimately show ?thesis
    by (simp add: holds_def got_state_def example_state_def example_config_def entry_at_def example_got_def example_space_def got_entry_def)
qed

text \<open>The entry with a right that is not in the hash tables.\<close>

definition right_entry :: "ipc_entry_bits_t \<Rightarrow> ipc_object_t \<Rightarrow> ipc_entry" where
  "right_entry bits obj = (got_entry obj)\<lparr>ie_bits := bits\<rparr>"

definition right_state :: "ipc_entry_bits_t \<Rightarrow> ipc_object_t \<Rightarrow> ipc_port \<Rightarrow> ipc_state" where
  "right_state bits obj port = upd_entry (got_state port) 16 (In_table 1) (\<lambda>e. e\<lparr>ie_bits := bits, ie_object := obj\<rparr>)"

lemma right_state_at:
  assumes "bits AND NOT IE_BITS_RIGHT_MASK = 0" and "unhashed (right_entry bits obj)" and "right_ok (bits, obj, 0)"
    and "\<not> has bits IE_BITS_COMPAT" "\<not> has bits IE_BITS_MAREQUEST"
  shows "right_at example_config (right_state bits obj port) 16 0x100 (In_table 1) (right_entry bits obj)"
proof -
  let ?f = "\<lambda>e. e\<lparr>ie_bits := bits, ie_object := obj\<rparr>"
  have s: "same_slot (got_entry IO_NULL) (?f (got_entry IO_NULL))" using assms(1) by (simp add: same_slot_def got_entry_def)
  have e: "?f (got_entry IO_NULL) = right_entry bits obj" by (simp add: right_entry_def got_entry_def)
  have "bits AND IE_BITS_RIGHT_MASK = bits" using assms(1) by (metis and.right_neutral bit.conj_cancel_right bit.conj_disj_distrib bit.disj_cancel_right or.right_neutral)
  then have c: "capability (right_entry bits obj) = (bits, obj, 0)" by (simp add: capability_def right_entry_def got_entry_def)
  show ?thesis
    using holds_update(1) [where f = ?f and P' = "{}", OF got_holds s] assms(2-5) c
    unfolding e right_at_def right_state_def
    by (simp add: right_entry_def got_entry_def linked_request_def linked_marequest_def example_config_def example_sizes_ok)
qed

lemma right_state_caps:
  assumes "bits AND NOT IE_BITS_RIGHT_MASK = 0" and "unhashed (right_entry bits obj)"
  shows "st_caps (right_state bits obj port) 16 = [0x100 \<mapsto> capability (right_entry bits obj)]"
proof -
  let ?f = "\<lambda>e. e\<lparr>ie_bits := bits, ie_object := obj\<rparr>"
  have s: "same_slot (got_entry IO_NULL) (?f (got_entry IO_NULL))" using assms(1) by (simp add: same_slot_def got_entry_def)
  have e: "?f (got_entry IO_NULL) = right_entry bits obj" by (simp add: right_entry_def got_entry_def)
  have "caps {In_table 1} example_got = (caps {} example_space)(0x100 \<mapsto> (0, IO_NULL, 0))"
    using ipc_entry_get_spec [OF example_space_ok(1) example_sizes_ok, unfolded example_get(1) sum.case prod.case] by blast
  then have "caps {In_table 1} (st_spaces (got_state port) 16) = [0x100 \<mapsto> (0, IO_NULL, 0)]"
    unfolding example_space_ok(2) by (simp add: got_state_def)
  then show ?thesis
    using holds_update(2) [where f = ?f and P' = "{}", OF got_holds s] assms(2) unfolding e right_state_def by simp
qed

lemma right_state_ports [simp]: "st_ports (right_state bits obj port) 5 = port"
  by (simp add: right_state_def got_state_def)

lemma right_state_world:
  "is_table (st_spaces (right_state bits obj port) 16) =
    [\<lparr>ie_bits = IE_BITS_GEN_MASK, ie_object = IO_NULL, ie_request = 0, ie_index = 0\<rparr>, right_entry bits obj]"
  "st_hash (right_state bits obj port) = example_hash"
  by (simp_all add: right_state_def right_entry_def got_entry_def got_state_def example_got_def example_state_def get_entry_def entry_at_def
    upd_entry_def set_entry_def state_simps example_space_def)

lemma right_state_unsent:
  assumes "In_table 1 \<in> P \<or> IE_BITS_TYPE bits \<noteq> MACH_PORT_TYPE_SEND"
  shows "unsent P 16 (st_hash (right_state bits obj port)) (st_spaces (right_state bits obj port) 16) q"
proof -
  have "table_sends P (is_table (st_spaces (right_state bits obj port) 16)) = {}"
    using assms by (auto simp: right_state_world table_sends_def less_Suc_eq right_entry_def)
  then show ?thesis using example_hash_ok(3) by (simp add: unsent_def right_state_world)
qed

text \<open>The entry that is to get a right of port 5, and the entry with a send right of port 5 that it becomes.\<close>

definition fresh_state :: "ipc_port \<Rightarrow> ipc_state" where
  "fresh_state port = right_state 0 5 port"

lemma fresh_state_at: "fresh_at example_config (fresh_state port) 16 0x100 (In_table 1) (got_entry 5)"
proof -
  let ?f = "\<lambda>e. e\<lparr>ie_bits := 0, ie_object := 5\<rparr>"
  have s: "same_slot (got_entry IO_NULL) (?f (got_entry IO_NULL))" by (simp add: same_slot_def got_entry_def)
  have e: "?f (got_entry IO_NULL) = got_entry 5" by (simp add: got_entry_def)
  have "holds example_config (fresh_state port) 16 {In_table 1} 0x100 (In_table 1) (got_entry 5)"
    using holds_update(1) [where f = ?f and P' = "{In_table 1}", OF got_holds s] unfolding e fresh_state_def right_state_def by simp
  moreover have "unsent {In_table 1} 16 (st_hash (fresh_state port)) (st_spaces (fresh_state port) 16) 5"
    unfolding fresh_state_def by (rule right_state_unsent) simp
  ultimately show ?thesis by (simp add: fresh_at_def) (simp add: got_entry_def IO_NULL_def)
qed

end
