(* ===== verification/Right_Laws.thy ===== *)
theory Right_Laws
  imports Ref_Counts Space_Listing Example_Rights
begin

text \<open>
  The laws of rights: moving them into messages and out of them, giving back user references, what
  becomes of the rights of a dead port, and the system calls that do and list this.
\<close>

section \<open>Concrete rights\<close>

text \<open>A port with a receive right and a send right of two user references under the name 0x100.\<close>

definition both_state :: ipc_state where
  "both_state = right_state (MACH_PORT_TYPE_SEND_RECEIVE OR 2) 5 (live_port\<lparr>ip_srights := 1, ip_mscount := 1\<rparr>)"

definition both_entry :: ipc_entry where
  "both_entry = right_entry (MACH_PORT_TYPE_SEND_RECEIVE OR 2) 5"

lemma both_at: "right_at example_config both_state 16 0x100 (In_table 1) both_entry"
  unfolding both_state_def both_entry_def
proof (rule right_state_at)
  show "right_ok (MACH_PORT_TYPE_SEND_RECEIVE OR 2, 5, 0)" by code_simp
  show "unhashed (right_entry (MACH_PORT_TYPE_SEND_RECEIVE OR 2) 5)" by code_simp
  show "\<not> has (MACH_PORT_TYPE_SEND_RECEIVE OR 2) IE_BITS_COMPAT" "\<not> has (MACH_PORT_TYPE_SEND_RECEIVE OR 2) IE_BITS_MAREQUEST"
    "(MACH_PORT_TYPE_SEND_RECEIVE OR 2) AND NOT IE_BITS_RIGHT_MASK = 0" by code_simp+
qed

lemma both_receiver: "receiver_ok both_state 16 both_entry"
proof -
  have "IE_BITS_TYPE (MACH_PORT_TYPE_SEND_RECEIVE OR 2) \<noteq> MACH_PORT_TYPE_SEND" by code_simp
  then show ?thesis
    unfolding receiver_ok_def both_state_def both_entry_def by (simp add: right_state_unsent right_entry_def got_entry_def)
qed

lemma both_active: "is_active (st_spaces both_state 16)"
  by (simp add: both_state_def right_state_def got_state_def example_got_def example_space_def upd_entry_def set_entry_def state_simps)

lemma both_capability: "capability both_entry = (MACH_PORT_TYPE_SEND_RECEIVE OR 2, 5, 0)"
  by code_simp

lemma both_named:
  "named_right example_config both_state 16 0x100 (MACH_PORT_TYPE_SEND_RECEIVE OR 2, 5, 0)"
  "receiver_named both_state 16 (MACH_PORT_TYPE_SEND_RECEIVE OR 2, 5, 0)"
proof -
  note at = right_atD [OF both_at] and a = right_alive(4) [OF both_at]
  have "\<not> shadowed 0x100" by code_simp
  then show "named_right example_config both_state 16 0x100 (MACH_PORT_TYPE_SEND_RECEIVE OR 2, 5, 0)"
    using at a both_active holds_st_ok [OF at(1)] unfolding both_capability [symmetric]
    by (simp add: named_right_def split_beta)
  show "receiver_named both_state 16 (MACH_PORT_TYPE_SEND_RECEIVE OR 2, 5, 0)"
    using both_receiver unfolding both_capability [symmetric] by (simp add: receiver_ok_def receiver_named_def split_beta)
qed

section \<open>Rights in messages\<close>

text \<open>
  C1: \<^verbatim>\<open>ipc_object_copyin\<close> conserves rights.  When the name has a right, not of the
  compatibility mode, that fits the type of the message and its port is alive, the port is returned, in each of the six ways; the name has
  afterwards a well-formed right or none, the counts of send rights, of send-once rights and of
  references of the port change by exactly what the name and the message have more than before,
  and no other capability, port or space changes.
\<close>

theorem copyin_conserves:
  assumes "named_right cfg st sid name (bits, p, request)" and "receiver_named st sid (bits, p, request)"
    and "copyin_allowed st (bits, p, request) msgt" and "ip_active (st_ports st p)" and "IE_BITS_TYPE bits \<noteq> MACH_PORT_TYPE_DEAD_NAME"
  shows "\<exists>st' c'. ipc_object_copyin cfg st sid name msgt = Some (Inr p, st') \<and>
    exchanged cfg st sid name (bits, p, request) 0 st' c' (hand_bits msgt)"
  using object_copyin_spec [OF assms(1,2), of msgt] assms(3-5) by (auto simp: object_taken_def)

theorem copyin_conserves_witness:
  "\<exists>st' c'. ipc_object_copyin example_config both_state 16 0x100 MACH_MSG_TYPE_MOVE_SEND = Some (Inr 5, st') \<and>
    exchanged example_config both_state 16 0x100 (MACH_PORT_TYPE_SEND_RECEIVE OR 2, 5, 0) 0 st' c' MACH_PORT_TYPE_SEND"
proof -
  have "copyin_allowed both_state (MACH_PORT_TYPE_SEND_RECEIVE OR 2, 5, 0) MACH_MSG_TYPE_MOVE_SEND" by code_simp
  moreover have "ip_active (st_ports both_state 5)" by (simp add: both_state_def)
  moreover have "IE_BITS_TYPE (MACH_PORT_TYPE_SEND_RECEIVE OR 2) \<noteq> MACH_PORT_TYPE_DEAD_NAME" by code_simp
  ultimately show ?thesis using copyin_conserves [OF both_named, of MACH_MSG_TYPE_MOVE_SEND] by simp
qed

text \<open>
  C26: \<^verbatim>\<open>ipc_right_copyin_check\<close> is exact: it says that a right can be taken from a name if and only if
  \<^verbatim>\<open>ipc_right_copyin\<close> takes one; and when it does not, the state is left as it was and the error is
  \<^verbatim>\<open>KERN_INVALID_RIGHT\<close>.
\<close>

theorem copyin_check_exact:
  assumes "right_at cfg st sid name r e" and "receiver_ok st sid e"
  shows "if ipc_right_copyin_check st sid name r msgt
    then \<exists>x st'. ipc_right_copyin cfg st sid name r msgt True = Some (Inr x, st')
    else ipc_right_copyin cfg st sid name r msgt True = Some (Inl KERN_INVALID_RIGHT, st)"
  using copyin_taken [OF assms, of msgt] copyin_refused [OF assms(1), of msgt True] by auto

theorem copyin_check_exact_witness:
  "(\<exists>x st'. ipc_right_copyin example_config both_state 16 0x100 (In_table 1) MACH_MSG_TYPE_COPY_SEND True = Some (Inr x, st')) \<and>
    ipc_right_copyin example_config both_state 16 0x100 (In_table 1) MACH_MSG_TYPE_MOVE_SEND_ONCE True = Some (Inl KERN_INVALID_RIGHT, both_state)"
proof -
  have "ipc_right_copyin_check both_state 16 0x100 (In_table 1) MACH_MSG_TYPE_COPY_SEND" by code_simp
  moreover have "\<not> ipc_right_copyin_check both_state 16 0x100 (In_table 1) MACH_MSG_TYPE_MOVE_SEND_ONCE" by code_simp
  ultimately show ?thesis
    using copyin_check_exact [OF both_at both_receiver, of MACH_MSG_TYPE_COPY_SEND]
      copyin_check_exact [OF both_at both_receiver, of MACH_MSG_TYPE_MOVE_SEND_ONCE] by simp
qed

section \<open>Well-formed rights\<close>

text \<open>The rights of a space are those that the assertions of the code allow.\<close>

definition rights_ok :: "ipc_config \<Rightarrow> ipc_state \<Rightarrow> space_id \<Rightarrow> bool" where
  "rights_ok cfg st sid \<longleftrightarrow> st_ok cfg st sid \<and> (\<forall>name c. st_caps st sid name = Some c \<longrightarrow> right_ok c)"

lemma rights_ok_update:
  assumes "rights_ok cfg st sid" and "st_ok cfg st' sid" and "st_caps st' sid = (st_caps st sid)(name := c')" and "pred_option right_ok c'"
  shows "rights_ok cfg st' sid"
  using assms by (auto simp: rights_ok_def)

lemma object_taken_caps:
  assumes "object_taken cfg st sid name c msgt ret st'"
  shows "\<exists>c'. st_ok cfg st' sid \<and> st_caps st' sid = (st_caps st sid)(name := c') \<and> pred_option right_ok c'"
  using assms by (cases c) (auto simp: object_taken_def exchanged_def split: if_splits)

lemma deallocated_caps:
  assumes "deallocated cfg st sid name c kr st'"
  shows "\<exists>c'. st_ok cfg st' sid \<and> st_caps st' sid = (st_caps st sid)(name := c') \<and> pred_option right_ok c'"
proof (cases c)
  case (fields bits p request)
  then show ?thesis
    using assms unfolding deallocated_def exchanged_def
    by (cases "IE_BITS_TYPE bits \<in> {MACH_PORT_TYPE_RECEIVE, MACH_PORT_TYPE_PORT_SET}"; cases "IE_BITS_TYPE bits = MACH_PORT_TYPE_DEAD_NAME \<or> ip_active (st_ports st p)")
      (simp only: prod.case if_True if_False, blast)+
qed

text \<open>
  C5: the rights of a space stay well typed.  Every capability has one of the six types with a count of
  user references that fits it, is without object exactly when it is a dead name, and has requests
  only where they make sense; taking any kind of right from a name and giving back a reference keep
  this, with the structure of the space, whether they succeed or fail and whether the port is alive or
  dead.
\<close>

theorem rights_stay_typed:
  assumes "rights_ok cfg st sid" and "named_right cfg st sid name c" and "receiver_named st sid c" and "sid \<noteq> IS_NULL"
  shows "\<exists>ret st1 kr st2. ipc_object_copyin cfg st sid name msgt = Some (ret, st1) \<and> rights_ok cfg st1 sid \<and>
    mach_port_deallocate cfg st sid name = Some (kr, st2) \<and> rights_ok cfg st2 sid"
proof -
  obtain ret st1 where c: "ipc_object_copyin cfg st sid name msgt = Some (ret, st1)" "object_taken cfg st sid name c msgt ret st1"
    using object_copyin_spec [OF assms(2,3)] by blast
  obtain kr st2 where d: "mach_port_deallocate cfg st sid name = Some (kr, st2)" "deallocated cfg st sid name c kr st2"
    using deallocate_spec [OF assms(2-4)] by blast
  have "rights_ok cfg st1 sid" "rights_ok cfg st2 sid"
    using object_taken_caps [OF c(2)] deallocated_caps [OF d(2)] rights_ok_update [OF assms(1)] by blast+
  with c(1) d(1) show ?thesis by blast
qed

lemma both_rights: "rights_ok example_config both_state 16"
proof -
  have "st_caps both_state 16 = [0x100 \<mapsto> capability both_entry]"
    unfolding both_state_def both_entry_def by (rule right_state_caps) code_simp+
  then show ?thesis using both_named(1) right_atD(2) [OF both_at] by (simp add: rights_ok_def named_right_def)
qed

theorem rights_stay_typed_witness:
  "\<exists>ret st1 kr st2. ipc_object_copyin example_config both_state 16 0x100 MACH_MSG_TYPE_MOVE_RECEIVE = Some (ret, st1) \<and> rights_ok example_config st1 16 \<and>
    mach_port_deallocate example_config both_state 16 0x100 = Some (kr, st2) \<and> rights_ok example_config st2 16"
  using rights_stay_typed [OF both_rights both_named] by (simp add: IS_NULL_def)

section \<open>Dead ports\<close>

text \<open>
  C27: \<^verbatim>\<open>ipc_right_check\<close> turns the right of a dead port into a dead name: its user references are kept,
  with one more when a dead-name request was registered, the send right leaves the reverse hash
  tables, a msg-accepted request is cancelled, the reference to the port is given back and the port
  is freed exactly when it was the last one; nothing else changes.
\<close>

theorem right_check_dead:
  assumes "right_at cfg st sid name r e" and "\<not> ip_active (st_ports st (ie_object e))"
    and "IE_BITS_TYPE (ie_bits e) \<in> {MACH_PORT_TYPE_SEND, MACH_PORT_TYPE_SEND_ONCE}"
  shows "\<exists>st' e'. ipc_right_check cfg st sid (ie_object e) name r = Some (True, st') \<and> buried cfg st sid name r e st' e'"
  using check_dead_spec [OF assms] .

definition once_state :: "ipc_port \<Rightarrow> ipc_state" where
  "once_state port = right_state (MACH_PORT_TYPE_SEND_ONCE OR 1) 5 port"

definition once_entry :: ipc_entry where
  "once_entry = right_entry (MACH_PORT_TYPE_SEND_ONCE OR 1) 5"

lemma once_at: "right_at example_config (once_state port) 16 0x100 (In_table 1) once_entry"
  unfolding once_state_def once_entry_def
  by (rule right_state_at) code_simp+

theorem right_check_dead_witness:
  "\<exists>st' e'. ipc_right_check example_config (once_state (blank_port\<lparr>ip_references := 1\<rparr>)) 16 5 0x100 (In_table 1) = Some (True, st') \<and>
    buried example_config (once_state (blank_port\<lparr>ip_references := 1\<rparr>)) 16 0x100 (In_table 1) once_entry st' e'"
proof -
  have "ie_object once_entry = 5" "IE_BITS_TYPE (ie_bits once_entry) = MACH_PORT_TYPE_SEND_ONCE" by code_simp+
  moreover have "\<not> ip_active (st_ports (once_state (blank_port\<lparr>ip_references := 1\<rparr>)) 5)"
    using blank_port_inactive by (simp add: once_state_def)
  ultimately show ?thesis using right_check_dead [OF once_at, of "blank_port\<lparr>ip_references := 1\<rparr>"] by simp
qed

section \<open>User references\<close>

text \<open>
  C2: \<^verbatim>\<open>mach_port_deallocate\<close> implements the abstract operation \<open>dealloc_cap\<close> on the capability of a name:
  one reference less, or no capability when it was the last one and there is no receive right
  beside it; the right of a dead port counts as a dead name.  The notifications are those for the
  last send right, for a send-once right that is not used and for the dead-name request of the
  name; receive rights and port sets are refused and nothing changes.
\<close>

theorem deallocate_refines:
  assumes "named_right cfg st sid name c" and "receiver_named st sid c" and "sid \<noteq> IS_NULL"
  shows "\<exists>kr st'. mach_port_deallocate cfg st sid name = Some (kr, st') \<and> deallocated cfg st sid name c kr st'"
  using deallocate_spec [OF assms] .

theorem deallocate_refines_witness:
  "\<exists>kr st'. mach_port_deallocate example_config both_state 16 0x100 = Some (kr, st') \<and>
    deallocated example_config both_state 16 0x100 (MACH_PORT_TYPE_SEND_RECEIVE OR 2, 5, 0) kr st' \<and>
    dealloc_cap (MACH_PORT_TYPE_SEND_RECEIVE OR 2, 5, 0) = Some (MACH_PORT_TYPE_SEND_RECEIVE OR 1, 5, 0)"
proof -
  have "dealloc_cap (MACH_PORT_TYPE_SEND_RECEIVE OR 2, 5, 0) = Some (MACH_PORT_TYPE_SEND_RECEIVE OR 1, 5, 0)" by code_simp
  then show ?thesis using deallocate_refines [OF both_named] by (simp add: IS_NULL_def)
qed

text \<open>
  \<^verbatim>\<open>mach_port_deallocate\<close> and \<^verbatim>\<open>mach_port_mod_refs\<close> with the amount -1 are the same operation, for a send
  right, a send-once right and a dead name.
\<close>

theorem deallocate_is_mod_refs:
  assumes "named_right cfg st sid name (bits, p, request)" and "IE_BITS_TYPE bits = MACH_PORT_TYPE_DEAD_NAME \<or> ip_active (st_ports st p)"
    and "(IE_BITS_TYPE bits, right) \<in> {(MACH_PORT_TYPE_SEND, 0), (MACH_PORT_TYPE_SEND_RECEIVE, 0), (MACH_PORT_TYPE_SEND_ONCE, 2), (MACH_PORT_TYPE_DEAD_NAME, 4)}"
  shows "mach_port_mod_refs cfg fuel try interim st sid name right (- 1) = mach_port_deallocate cfg st sid name"
proof -
  obtain r e tree where l: "ipc_right_lookup_write st sid name = (Inr r, splayed st sid tree)" "right_at cfg (splayed st sid tree) sid name r e"
    "capability e = (bits, p, request)"
    using named_lookup [OF assms(1)] by blast
  have e: "IE_BITS_TYPE (ie_bits e) = IE_BITS_TYPE bits" "ie_object e = p" using l(3) by (auto simp: capability_def)
  have "ipc_right_delta cfg fuel try interim (splayed st sid tree) sid name r (the (port_right right)) (- 1) =
      ipc_right_dealloc cfg (splayed st sid tree) sid name r"
    using assms(2,3) e by (intro dealloc_delta [OF l(2)]) (auto simp: port_right_def)
  moreover have "port_right right = Some (the (port_right right))" using assms(3) by (auto simp: port_right_def)
  ultimately show ?thesis
    using l(1) by (cases "port_right right") (simp_all add: mach_port_mod_refs_def mach_port_deallocate_def)
qed

theorem deallocate_is_mod_refs_witness:
  "mach_port_mod_refs example_config 0 True (\<lambda>st. st) both_state 16 0x100 0 (- 1) = mach_port_deallocate example_config both_state 16 0x100"
proof -
  have "IE_BITS_TYPE (MACH_PORT_TYPE_SEND_RECEIVE OR 2) = MACH_PORT_TYPE_SEND_RECEIVE" by code_simp
  moreover have "ip_active (st_ports both_state 5)" by (simp add: both_state_def)
  ultimately show ?thesis by (intro deallocate_is_mod_refs [OF both_named(1)]) simp_all
qed

text \<open>
  the tests for overflow and underflow of a count of user references, which mix an unsigned count
  with a signed amount in 32 bits, are exact: they say of the integers whether the sum is above
  the maximum or below zero, and when they do not the sum on words is the sum.
\<close>

theorem urefs_tests_exact:
  assumes "u \<le> MACH_PORT_UREFS_MAX"
  shows "(MACH_PORT_UREFS_OVERFLOW u d \<longleftrightarrow> uint MACH_PORT_UREFS_MAX < uint u + sint d) \<and>
    (MACH_PORT_UREFS_UNDERFLOW u d \<longleftrightarrow> uint u + sint d < 0) \<and>
    (\<not> MACH_PORT_UREFS_OVERFLOW u d \<and> \<not> MACH_PORT_UREFS_UNDERFLOW u d \<longrightarrow> uint (u + d) = uint u + sint d)"
  using urefs_tests [OF assms, of d] uint_plus_sint [of u d] unfolding UREFS_MAX_int by auto

theorem urefs_tests_exact_witness:
  "MACH_PORT_UREFS_OVERFLOW 65535 1 \<and> MACH_PORT_UREFS_UNDERFLOW 1 (- 2) \<and> uint (3 + (- 2) :: 32 word) = 1"
  using urefs_tests_exact [of 65535 1] urefs_tests_exact [of 1 "- 2"] urefs_tests_exact [of 3 "- 2"]
  by (simp add: MACH_PORT_UREFS_MAX_def)

text \<open>
  C21: \<^verbatim>\<open>mach_port_mod_refs\<close> changes the references of a send right by every amount as on integers: a
  negative sum is refused with \<^verbatim>\<open>KERN_INVALID_VALUE\<close>, a sum that leaves no room for one more with
  \<^verbatim>\<open>KERN_UREFS_OVERFLOW\<close>, the sum 0 takes the send right away, and every other sum is the new count.
\<close>

theorem mod_refs_exact:
  assumes "named_right cfg st sid name (bits, p, request)" and "sid \<noteq> IS_NULL"
    and "IE_BITS_TYPE bits \<in> {MACH_PORT_TYPE_SEND, MACH_PORT_TYPE_SEND_RECEIVE}" and "ip_active (st_ports st p)"
  shows "\<exists>kr c' st'. mach_port_mod_refs cfg fuel attempt interim st sid name 0 delta = Some (kr, st') \<and> refs_changed cfg st sid name c' st' \<and>
    (kr, c') =
      (let n = uint (IE_BITS_UREFS bits) + sint delta
       in if n < 0 then (KERN_INVALID_VALUE, Some (bits, p, request))
          else if uint MACH_PORT_UREFS_MAX < n + 1 then (KERN_UREFS_OVERFLOW, Some (bits, p, request))
          else (KERN_SUCCESS, send_refs_cap (bits, p, request) n))"
proof -
  have room: "65535 < n + 1 \<longleftrightarrow> 65534 < n" for n :: int by auto
  show ?thesis
    using mod_refs_send_spec [OF assms, of fuel attempt interim delta] unfolding Let_def UREFS_MAX_int room .
qed

theorem mod_refs_exact_witness:
  "\<exists>st'. mach_port_mod_refs example_config 0 True (\<lambda>st. st) both_state 16 0x100 0 5 = Some (KERN_SUCCESS, st') \<and>
    refs_changed example_config both_state 16 0x100 (Some (MACH_PORT_TYPE_SEND_RECEIVE OR 7, 5, 0)) st'"
proof -
  have "IE_BITS_TYPE (MACH_PORT_TYPE_SEND_RECEIVE OR 2) = MACH_PORT_TYPE_SEND_RECEIVE" "IE_BITS_UREFS (MACH_PORT_TYPE_SEND_RECEIVE OR 2) = 2"
    "send_refs_cap (MACH_PORT_TYPE_SEND_RECEIVE OR 2, 5, 0) 7 = Some (MACH_PORT_TYPE_SEND_RECEIVE OR 7, 5, 0)" by code_simp+
  moreover have "ip_active (st_ports both_state 5)" by (simp add: both_state_def)
  ultimately show ?thesis using mod_refs_exact [OF both_named(1), where delta = 5 and fuel = 0 and attempt = True and interim = "\<lambda>st. st"]
    by (simp add: IS_NULL_def UREFS_MAX_int)
qed

section \<open>Receiving\<close>

lemma received_mono: "received cfg st sid name r e hand D st' e' \<Longrightarrow> D \<subseteq> D' \<Longrightarrow> received cfg st sid name r e hand D' st' e'"
  by (auto simp: received_def)

text \<open>
  C17: \<^verbatim>\<open>ipc_right_copyout\<close> conserves rights.  A right from a message is put into a new entry, or into one that
  has the send or the receive right of the same port already; the entry has then a well-formed
  right, the counts of the port change by exactly what is there more than before, and the only
  other port that changes is the one a receive right was in transit to.
\<close>

theorem copyout_conserves:
  assumes "fresh_at cfg st sid name r e \<and> msgt \<in> {MACH_MSG_TYPE_PORT_RECEIVE, MACH_MSG_TYPE_PORT_SEND, MACH_MSG_TYPE_PORT_SEND_ONCE} \<or>
      right_at cfg st sid name r e \<and>
      (msgt = MACH_MSG_TYPE_PORT_SEND \<and> IE_BITS_TYPE (ie_bits e) = MACH_PORT_TYPE_RECEIVE \<or>
       msgt = MACH_MSG_TYPE_PORT_SEND \<and> IE_BITS_TYPE (ie_bits e) \<in> {MACH_PORT_TYPE_SEND, MACH_PORT_TYPE_SEND_RECEIVE} \<and>
         IE_BITS_UREFS (ie_bits e) + 1 \<noteq> MACH_PORT_UREFS_MAX \<or>
       msgt = MACH_MSG_TYPE_PORT_RECEIVE \<and> IE_BITS_TYPE (ie_bits e) = MACH_PORT_TYPE_SEND)"
    and "msgt = MACH_MSG_TYPE_PORT_RECEIVE \<longrightarrow> ip_destination (st_ports st (ie_object e)) \<noteq> ie_object e"
  shows "\<exists>st' e'. ipc_right_copyout st sid name r msgt overflow (ie_object e) = Some (KERN_SUCCESS, st') \<and>
    received cfg st sid name r e (hand_bits msgt) {ip_destination (st_ports st (ie_object e))} st' e'"
proof -
  let ?D = "{ip_destination (st_ports st (ie_object e))}"
  have m: "received cfg st sid name r e hand ?D st' e'" if "received cfg st sid name r e hand {} st' e'" for hand st' e'
    using received_mono [OF that] by simp
  consider (fresh) "fresh_at cfg st sid name r e" "msgt = MACH_MSG_TYPE_PORT_SEND"
    | (fresh_receive) "fresh_at cfg st sid name r e" "msgt = MACH_MSG_TYPE_PORT_RECEIVE"
    | (fresh_once) "fresh_at cfg st sid name r e" "msgt = MACH_MSG_TYPE_PORT_SEND_ONCE"
    | (receive) "right_at cfg st sid name r e" "msgt = MACH_MSG_TYPE_PORT_SEND" "IE_BITS_TYPE (ie_bits e) = MACH_PORT_TYPE_RECEIVE"
    | (send) "right_at cfg st sid name r e" "msgt = MACH_MSG_TYPE_PORT_SEND" "IE_BITS_TYPE (ie_bits e) \<in> {MACH_PORT_TYPE_SEND, MACH_PORT_TYPE_SEND_RECEIVE}"
        "IE_BITS_UREFS (ie_bits e) + 1 \<noteq> MACH_PORT_UREFS_MAX"
    | (home) "right_at cfg st sid name r e" "msgt = MACH_MSG_TYPE_PORT_RECEIVE" "IE_BITS_TYPE (ie_bits e) = MACH_PORT_TYPE_SEND"
    using assms(1) by blast
  then show ?thesis
  proof cases
    case fresh
    then show ?thesis using copyout_send_fresh [OF fresh(1), of overflow] m by (simp add: ipc_right_copyout_def) blast
  next
    case fresh_receive
    then show ?thesis using copyout_receive_fresh [OF fresh_receive(1)] assms(2) by (simp add: ipc_right_copyout_def) blast
  next
    case fresh_once
    then show ?thesis using copyout_send_once_fresh(1) [OF fresh_once(1)] m by (simp add: ipc_right_copyout_def) blast
  next
    case receive
    then show ?thesis using copyout_send_receive [OF receive(1,3), of overflow] m by (simp add: ipc_right_copyout_def) blast
  next
    case send
    then show ?thesis using copyout_send_has [OF send(1,3,4), of overflow] m by (simp add: ipc_right_copyout_def) blast
  next
    case home
    then show ?thesis using copyout_receive_send [OF home(1,3)] assms(2) by (simp add: ipc_right_copyout_def) blast
  qed
qed

theorem copyout_conserves_witness:
  "\<exists>st' e'. ipc_right_copyout (fresh_state (live_port\<lparr>ip_srights := 1\<rparr>)) 16 0x100 (In_table 1) MACH_MSG_TYPE_PORT_SEND True 5 = Some (KERN_SUCCESS, st') \<and>
    received example_config (fresh_state (live_port\<lparr>ip_srights := 1\<rparr>)) 16 0x100 (In_table 1) (got_entry 5) MACH_PORT_TYPE_SEND {0} st' e'"
proof -
  have "ie_object (got_entry 5) = 5" "ip_destination (st_ports (fresh_state (live_port\<lparr>ip_srights := 1\<rparr>)) 5) = 0"
    by (simp_all add: got_entry_def fresh_state_def live_port_def blank_port_def)
  then show ?thesis
    using copyout_conserves [where msgt = MACH_MSG_TYPE_PORT_SEND and overflow = True and cfg = example_config and sid = 16 and name = "0x100" and
      r = "In_table 1" and e = "got_entry 5" and st = "fresh_state (live_port\<lparr>ip_srights := 1\<rparr>)"] fresh_state_at by simp
qed

lemma right_at_bits:
  assumes at: "right_at cfg st sid name r e" and d: "IE_BITS_UREFS (ie_bits e) + d \<le> MACH_PORT_UREFS_MAX"
    and ok: "right_ok (capability (e\<lparr>ie_bits := ie_bits e + d\<rparr>))"
  shows "right_at cfg (upd_entry st sid r (\<lambda>x. x\<lparr>ie_bits := ie_bits e + d\<rparr>)) sid name r (e\<lparr>ie_bits := ie_bits e + d\<rparr>)"
  using right_atD [OF at] urefs_step(1) [OF at beside_refl right_atD(1) [OF at] refl d ok] delta_fields [OF d] ok
  by (simp add: right_at_def linked_request_def linked_marequest_def)

lemma or_absorb:
  assumes "has bits MACH_PORT_TYPE_SEND"
  shows "bits OR MACH_PORT_TYPE_SEND = bits"
proof -
  have "bit bits 16" using assms and_exp_eq_0_iff_not_bit [of bits 16] by (simp add: has_def MACH_PORT_TYPE_SEND_def)
  then show ?thesis unfolding MACH_PORT_TYPE_SEND_def by (intro bit_word_eqI) (simp only: bit_or_iff bit_push_bit_iff bit_1_iff, auto)
qed

text \<open>
  a send right that goes into a message and comes back to the name, which has other references of it, is
  where it was: the space has the same capabilities, and all ports have the same state.
\<close>

theorem send_round_trip:
  assumes at: "right_at cfg st sid name r e" and t: "IE_BITS_TYPE (ie_bits e) \<in> {MACH_PORT_TYPE_SEND, MACH_PORT_TYPE_SEND_RECEIVE}"
    and live: "ip_active (st_ports st (ie_object e))" and u: "IE_BITS_UREFS (ie_bits e) \<noteq> 1"
  shows "\<exists>st1 st2. ipc_right_copyin cfg st sid name r MACH_MSG_TYPE_MOVE_SEND deadok = Some (Inr (ie_object e, IP_NULL), st1) \<and>
    ipc_right_copyout st1 sid name r MACH_MSG_TYPE_PORT_SEND overflow (ie_object e) = Some (KERN_SUCCESS, st2) \<and>
    st_ok cfg st2 sid \<and> st_caps st2 sid = st_caps st sid \<and> st_ports st2 = st_ports st \<and> st_events st2 = st_events st"
proof -
  note at' = right_atD [OF at] and tests = right_tests [OF right_atD(2) [OF at]]
  let ?p = "ie_object e" and ?b = "ie_bits e" and ?e = "e\<lparr>ie_bits := ie_bits e + - 1\<rparr>"
  let ?more = "\<lambda>port. port\<lparr>ip_srights := ip_srights port + 1, ip_references := ip_references port + 1\<rparr>"
  let ?st1 = "upd_entry (upd_port st ?p ?more) sid r (\<lambda>x. x\<lparr>ie_bits := ?b + - 1\<rparr>)"
  let ?st2 = "upd_entry (upd_port ?st1 ?p less_send) sid r (\<lambda>x. x\<lparr>ie_bits := ?b\<rparr>)"
  have "0 < IE_BITS_UREFS ?b" using send_urefs [OF at'(2) t] by simp
  note d = urefs_back [OF this u]
  have ok: "right_ok (capability ?e)" using right_ok_delta [OF at'(2) d(1,3)] t d(2) send_urefs(2) [OF at'(2) t] by auto
  have at0: "right_at cfg (upd_port st ?p ?more) sid name r e" using right_at_port [where f = ?more, OF at] by simp
  note at1 = right_at_bits [OF at0 d(3) ok]
  have at1': "right_at cfg (upd_port ?st1 ?p less_send) sid name r ?e" using right_at_port [where f = less_send, OF at1] by simp
  have e: "?e\<lparr>ie_bits := ie_bits ?e + 1\<rparr> = e" by simp
  have u1: "IE_BITS_UREFS (ie_bits ?e) + 1 = IE_BITS_UREFS ?b" using urefs_delta(2) [OF d(3)] by simp
  note max = send_urefs(2) [OF at'(2) t]
  have step: "IE_BITS_UREFS (ie_bits ?e) + 1 \<le> MACH_PORT_UREFS_MAX" "right_ok (capability (?e\<lparr>ie_bits := ie_bits ?e + 1\<rparr>))"
    unfolding u1 e using max at'(2) by simp_all
  note s1 = urefs_step [OF at0 beside_refl right_atD(1) [OF at0] refl d(3) ok]
    and s2 = urefs_step [OF at1' beside_refl right_atD(1) [OF at1'] refl step]
  have b: "ie_bits ?e + 1 = ?b" by simp
  have caps: "st_ok cfg ?st2 sid" "st_caps ?st2 sid = st_caps st sid"
    using holds_st_ok [OF s2(1)] s2(2) s1(2) right_alive(4) [OF at] unfolding b e
    by (simp_all add: fun_upd_idem del: upd_entry_simps(2))
  have rest: "st_ports ?st2 = st_ports st" "st_events ?st2 = st_events st" by (simp_all add: fun_upd_idem)
  have send: "has ?b MACH_PORT_TYPE_SEND" "has (ie_bits ?e) MACH_PORT_TYPE_SEND"
    using t tests(4) right_tests(4) [OF ok] delta_fields(1) [OF d(3)] by simp_all
  have "ipc_right_copyin cfg st sid name r MACH_MSG_TYPE_MOVE_SEND deadok = Some (Inr (?p, IP_NULL), ?st1)"
    using send(1) t tests u check_live [OF live] at'(7) by (auto simp: copyin_move_send_def Let_def)
  moreover have "ipc_right_copyout ?st1 sid name r MACH_MSG_TYPE_PORT_SEND overflow ?p = Some (KERN_SUCCESS, ?st2)"
    using send(2) or_absorb [OF send(2)] u1 less_imp_neq [OF max] right_atD(7) [OF at1] by (simp add: ipc_right_copyout_def copyout_send_def Let_def)
  ultimately show ?thesis using caps rest by blast
qed

theorem send_round_trip_witness:
  "\<exists>st1 st2. ipc_right_copyin example_config both_state 16 0x100 (In_table 1) MACH_MSG_TYPE_MOVE_SEND True = Some (Inr (5, IP_NULL), st1) \<and>
    ipc_right_copyout st1 16 0x100 (In_table 1) MACH_MSG_TYPE_PORT_SEND False 5 = Some (KERN_SUCCESS, st2) \<and>
    st_ok example_config st2 16 \<and> st_caps st2 16 = st_caps both_state 16 \<and> st_ports st2 = st_ports both_state \<and> st_events st2 = st_events both_state"
proof -
  have "IE_BITS_TYPE (ie_bits both_entry) = MACH_PORT_TYPE_SEND_RECEIVE" "IE_BITS_UREFS (ie_bits both_entry) = 2" "ie_object both_entry = 5" by code_simp+
  moreover have "ip_active (st_ports both_state 5)" by (simp add: both_state_def)
  ultimately show ?thesis using send_round_trip [OF both_at, of True False] by simp
qed

end
