(* ===== verification/Call_Laws.thy ===== *)
theory Call_Laws
  imports Right_Laws
begin

text \<open>The laws of the system calls that list a space.\<close>

section \<open>Auxiliary facts\<close>

lemma info_entry:
  assumes at: "right_at cfg st sid name r e" and rcv: "receiver_ok st sid e"
    and died: "\<not> ip_active (st_ports st (ie_object e)) \<longrightarrow> IP_TIMESTAMP_ORDER (ip_timestamp (st_ports st (ie_object e))) timestamp"
  shows "\<exists>type urefs st'. ipc_right_info cfg st sid name r = Some (Inr (type, urefs), st') \<and> names_type st timestamp e = Some type"
proof (cases "has (ie_bits e) MACH_PORT_TYPE_SEND_RIGHTS \<and> \<not> ip_active (st_ports st (ie_object e))")
  case True
  note at' = right_atD [OF at] and tests = right_tests [OF right_atD(2) [OF at]]
  have t: "IE_BITS_TYPE (ie_bits e) \<in> {MACH_PORT_TYPE_SEND, MACH_PORT_TYPE_SEND_ONCE}"
    using True rcv tests(5,6) by (auto simp: receiver_ok_def)
  obtain st' e' where c: "ipc_right_check cfg st sid (ie_object e) name r = Some (True, st')" "buried cfg st sid name r e st' e'"
    using check_dead_spec [OF at conjunct2 [OF True] t] by blast
  note at1 = buried_right_at [OF at c(2)]
  have "IE_BITS_TYPE (ie_bits e') = MACH_PORT_TYPE_DEAD_NAME" using c(2) by (simp add: buried_def)
  with right_atD(2) [OF at1] right_atD(3) [OF at1]
  have e': "IE_BITS_TYPE (ie_bits e') = MACH_PORT_TYPE_DEAD_NAME" "ie_request e' = 0" "\<not> has (ie_bits e') IE_BITS_COMPAT" "\<not> has (ie_bits e') IE_BITS_MAREQUEST"
    by (auto simp: right_ok_iff right_consts)
  have died': "has (ie_bits e) MACH_PORT_TYPE_SEND_RIGHTS" "\<not> ip_active (st_ports st (ie_object e))"
    "IP_TIMESTAMP_ORDER (ip_timestamp (st_ports st (ie_object e))) timestamp" using True died by simp_all
  note d = dead_name_bits [OF at'(2) died'(1) at'(3), of "ie_request e"]
  have "names_type st timestamp e = Some MACH_PORT_TYPE_DEAD_NAME"
    unfolding names_type_def Let_def by (simp only: died' at'(3) d simp_thms if_True if_False)
  moreover have "\<exists>urefs. ipc_right_info cfg st sid name r = Some (Inr (MACH_PORT_TYPE_DEAD_NAME, urefs), st')"
    using True c(1) e' at'(3,7) right_atD(7) [OF at1] by (simp add: ipc_right_info_def Let_def)
  ultimately show ?thesis by blast
next
  case False
  note at' = right_atD [OF at]
  have "(if has (ie_bits e) MACH_PORT_TYPE_SEND_RIGHTS then ipc_right_check cfg st sid (ie_object e) name r else Some (False, st)) = Some (False, st)"
    using False check_live by auto
  with False at'(3,7) show ?thesis by (auto simp: ipc_right_info_def names_type_def Let_def)
qed

section \<open>Listing a space\<close>

text \<open>
  C22: \<^verbatim>\<open>mach_port_names\<close> is an accurate snapshot of a space whose rights are well formed: when the loop has its
  memory, the list has each name of the space once and no other, with the type of its capability and the flags for its
  requests.  A right of a port that died before is listed as a dead name, and left out only when it is of the old interface;
  the two arrays are large enough for the list.
\<close>

theorem names_snapshot:
  assumes "names_memory page sched st sid 0 = Some (Inr sz, st1)" and "st_ok cfg st1 sid" and "entry_sizes (ipc_table_entries cfg)"
    and "sid \<noteq> IS_NULL" and "0 < page" and "\<forall>name c. st_caps st1 sid name = Some c \<longrightarrow> right_ok c"
  shows "\<exists>names st'. mach_port_names page sched st sid = Some (Inr names, st') \<and> distinct (map fst names) \<and>
    (\<forall>name. map_of names name = Option.bind (st_caps st1 sid name) (names_view st1 (st_timestamp st1))) \<and>
    4 * length names \<le> sz \<and> st_ok cfg st' sid \<and> st_caps st' sid = st_caps st1 sid"
proof -
  obtain names st' where n: "names_list st1 sid = Some (names, st')" "distinct (map fst names)"
    "\<forall>name. map_of names name = Option.bind (st_caps st1 sid name) (names_view st1 (st_timestamp st1))"
    "length names \<le> is_table_size (st_spaces st1 sid) + is_tree_total (st_spaces st1 sid)" "st_ok cfg st' sid" "st_caps st' sid = st_caps st1 sid"
    using names_list_spec [OF assms(2,3,6)] by blast
  have "(is_table_size (st_spaces st1 sid) + is_tree_total (st_spaces st1 sid)) * 4 \<le> sz"
    by (rule order_trans [OF round_page_ge [OF assms(5)] names_memory_enough(2) [OF assms(1)]])
  with mult_le_mono2 [OF n(4), of 4] have "4 * length names \<le> sz" by (simp add: mult.commute)
  with n assms(1,4) show ?thesis by (simp add: mach_port_names_def)
qed

lemma both_sizes: "is_table_size (st_spaces both_state 16) = 2" "is_tree_total (st_spaces both_state 16) = 0"
  by code_simp+

lemma both_memory: "names_memory 4096 [(True, True, \<lambda>st. st)] both_state 16 0 = Some (Inr 4096, both_state)"
  using both_active both_sizes by (simp add: round_page_def names_memory.simps)

theorem names_snapshot_witness:
  "\<exists>names st'. mach_port_names 4096 [(True, True, \<lambda>st. st)] both_state 16 = Some (Inr names, st') \<and>
    map_of names 0x100 = names_view both_state 0 (MACH_PORT_TYPE_SEND_RECEIVE OR 2, 5, 0) \<and>
    names_view both_state 0 (MACH_PORT_TYPE_SEND_RECEIVE OR 2, 5, 0) = Some MACH_PORT_TYPE_SEND_RECEIVE"
proof -
  have "st_timestamp both_state = 0" "names_view both_state 0 (MACH_PORT_TYPE_SEND_RECEIVE OR 2, 5, 0) = Some MACH_PORT_TYPE_SEND_RECEIVE" by code_simp+
  moreover have "st_caps both_state 16 0x100 = Some (MACH_PORT_TYPE_SEND_RECEIVE OR 2, 5, 0)" "st_ok example_config both_state 16" "entry_sizes (ipc_table_entries example_config)"
    using both_named(1) by (simp_all add: named_right_def)
  moreover from this(2,3) obtain names st' where "mach_port_names 4096 [(True, True, \<lambda>st. st)] both_state 16 = Some (Inr names, st')"
    "\<forall>name. map_of names name = Option.bind (st_caps both_state 16 name) (names_view both_state (st_timestamp both_state))"
    using names_snapshot [OF both_memory, of example_config] both_rights by (auto simp: IS_NULL_def rights_ok_def)
  ultimately show ?thesis by (intro exI [of _ names] exI [of _ st']) simp
qed

text \<open>
  \<^verbatim>\<open>mach_port_names\<close> and \<^verbatim>\<open>mach_port_type\<close> say the same of a right, as the comment on the first has it, when
  no port has died since the listing began: also of a right of a dead port, which the first only
  takes as a dead name and the second makes one.
\<close>

theorem names_agree_with_type:
  assumes "named_right cfg st sid name (bits, p, request)" and "receiver_named st sid (bits, p, request)" and "sid \<noteq> IS_NULL"
    and "ip_active (st_ports st p) \<or> IP_TIMESTAMP_ORDER (ip_timestamp (st_ports st p)) timestamp"
  shows "\<exists>type st'. mach_port_type cfg st sid name = Some (Inr type, st') \<and> names_view st timestamp (bits, p, request) = Some type"
proof -
  obtain r e tree where l: "ipc_right_lookup_write st sid name = (Inr r, splayed st sid tree)" "right_at cfg (splayed st sid tree) sid name r e"
    "capability e = (bits, p, request)" "receiver_ok (splayed st sid tree) sid e = receiver_named st sid (bits, p, request)"
    using named_lookup [OF assms(1)] by blast
  have e: "ie_object e = p" using l(3) by (simp add: capability_def)
  obtain type urefs st' where i: "ipc_right_info cfg (splayed st sid tree) sid name r = Some (Inr (type, urefs), st')"
    "names_type (splayed st sid tree) timestamp e = Some type"
    using info_entry [OF l(2), of timestamp] l(4) assms(2,4) e by auto
  have "names_type (splayed st sid tree) timestamp e = names_view st timestamp (bits, p, request)"
    unfolding l(3) [symmetric] names_type_view [OF right_atD(2) [OF l(2)], symmetric] by (simp add: names_type_def)
  with i l(1) assms(3) show ?thesis by (simp add: mach_port_type_def)
qed

theorem names_agree_with_type_witness:
  "\<exists>st'. mach_port_type example_config both_state 16 0x100 = Some (Inr MACH_PORT_TYPE_SEND_RECEIVE, st')"
proof -
  have "names_view both_state 0 (MACH_PORT_TYPE_SEND_RECEIVE OR 2, 5, 0) = Some MACH_PORT_TYPE_SEND_RECEIVE" by code_simp
  moreover have "ip_active (st_ports both_state 5)" by (simp add: both_state_def)
  ultimately show ?thesis using names_agree_with_type [OF both_named, of 0] by (simp add: IS_NULL_def)
qed

text \<open>The members of a set, when each receive right has the name that its port says.\<close>

lemma members_named:
  assumes ok: "st_ok cfg st sid" and its: "entry_sizes (ipc_table_entries cfg)"
    and names: "\<forall>n b p q. st_caps st sid n = Some (b, p, q) \<and> has b MACH_PORT_TYPE_RECEIVE \<longrightarrow> ip_receiver_name (st_ports st p) = n"
  defines "ents \<equiv> space_entries (st_spaces st sid)"
  shows "distinct (members_of st ps (map snd ents))"
    and "set (members_of st ps (map snd ents)) =
      {n. \<exists>b p q. st_caps st sid n = Some (b, p, q) \<and> has b MACH_PORT_TYPE_RECEIVE \<and> ip_pset (st_ports st p) = ps}"
proof -
  have "space_ok (ipc_table_entries cfg) sid {} (st_hash st) (st_spaces st sid)" using ok by (simp add: st_ok_def)
  note ec = space_entries_caps [OF this its, folded ents_def]
  have cap: "st_caps st sid n = Some (capability e)" if "(n, e) \<in> set ents" for n e
    using ec(2) [of n] map_of_is_SomeI [OF ec(1) that] by simp
  have "ip_receiver_name (st_ports st (ie_object e)) = n" if "(n, e) \<in> set ents" "member st ps e" for n e
  proof -
    have "has (ie_bits e AND IE_BITS_RIGHT_MASK) MACH_PORT_TYPE_RECEIVE" using that(2) by (simp add: member_def)
    then show ?thesis using cap [OF that(1)] names unfolding capability_def by blast
  qed
  then have ms: "members_of st ps (map snd ents) = map fst (filter (\<lambda>x. member st ps (snd x)) ents)"
    by (auto simp: members_of_def filter_map comp_def)
  have distinct: "distinct (map fst (filter f xs))" if "distinct (map fst xs)" for f and xs :: "(mach_port_t \<times> ipc_entry) list"
    using that by (simp add: distinct_map_filter)
  show "distinct (members_of st ps (map snd ents))" unfolding ms using distinct [OF ec(1)] .
  show "set (members_of st ps (map snd ents)) =
      {n. \<exists>b p q. st_caps st sid n = Some (b, p, q) \<and> has b MACH_PORT_TYPE_RECEIVE \<and> ip_pset (st_ports st p) = ps}" (is "?l = ?r")
  proof (intro set_eqI iffI)
    fix n assume "n \<in> ?l"
    then obtain e where "(n, e) \<in> set ents" "member st ps e" unfolding ms by auto
    with cap [of n e] show "n \<in> ?r" by (auto simp: capability_def member_def)
  next
    fix n assume "n \<in> ?r"
    then obtain b p q where c: "st_caps st sid n = Some (b, p, q)" "has b MACH_PORT_TYPE_RECEIVE" "ip_pset (st_ports st p) = ps" by blast
    then obtain e where e: "map_of ents n = Some e" "capability e = (b, p, q)" using ec(2) [of n] by (cases "map_of ents n") auto
    then have "member st ps e" using c(2,3) by (auto simp: member_def capability_def)
    with map_of_SomeD [OF e(1)] show "n \<in> ?l" unfolding ms by force
  qed
qed

text \<open>
  C32: \<^verbatim>\<open>mach_port_get_set_status\<close> returns after at most two rounds, if the space is left alone and there is
  memory, with the names of exactly the receive rights that are in the set, each once: the first
  guess of a page may be too small, the second one is not.
\<close>

theorem set_status_two_rounds:
  assumes n: "named_right cfg st sid name (bits, ps, request)" and t: "IE_BITS_TYPE bits = MACH_PORT_TYPE_PORT_SET" and s: "sid \<noteq> IS_NULL" and page: "0 < page"
    and names: "\<forall>n b p q. st_caps st sid n = Some (b, p, q) \<and> has b MACH_PORT_TYPE_RECEIVE \<longrightarrow> ip_receiver_name (st_ports st p) = n"
  shows "\<exists>ms st'. mach_port_get_set_status page ((True, \<lambda>x. x) # (True, \<lambda>x. x) # sched) st sid name = Some (Inr ms, st') \<and> distinct ms \<and>
    set ms = {n. \<exists>b p q. st_caps st sid n = Some (b, p, q) \<and> has b MACH_PORT_TYPE_RECEIVE \<and> ip_pset (st_ports st p) = ps}"
proof -
  let ?ms = "members_of st ps (map snd (space_entries (st_spaces st sid)))" and ?one = "(True, \<lambda>x. x) :: bool \<times> (ipc_state \<Rightarrow> ipc_state)"
  have "st_ok cfg st sid" "entry_sizes (ipc_table_entries cfg)" using n by (simp_all add: named_right_def)
  note ms = members_named [OF this names, of ps]
  obtain tree where g: "gst_loop page (?one # ?one # sched) st sid name page =
      (if length ?ms \<le> page div 4 then Some (Inr ?ms, splayed st sid tree)
       else gst_loop page (?one # sched) (splayed st sid tree) sid name (round_page page (length ?ms * 4) + page))"
    "ist_list tree = ist_list (is_tree (st_spaces st sid))" "ist_ok tree"
    using gst_round [OF n t, of page "?one # sched" page] by blast
  have "\<exists>st'. gst_loop page (?one # ?one # sched) st sid name page = Some (Inr ?ms, st')"
  proof (cases "length ?ms \<le> page div 4")
    case True
    with g(1) show ?thesis by simp
  next
    case False
    note sp = splayed_named [OF n g(2,3)]
    have "length ?ms \<le> (round_page page (length ?ms * 4) + page) div 4" using round_page_ge [OF page, of "length ?ms * 4"] by linarith
    then have "\<exists>st'. gst_loop page (?one # sched) (splayed st sid tree) sid name (round_page page (length ?ms * 4) + page) = Some (Inr ?ms, st')"
      using gst_round [OF sp(1) t, of page sched "round_page page (length ?ms * 4) + page"] unfolding members_splayed sp(2) by auto
    with g(1) False show ?thesis by simp
  qed
  with ms s show ?thesis by (auto simp: mach_port_get_set_status_def simp del: gst_loop.simps)
qed

lemma pset_named: "named_right example_config (right_state MACH_PORT_TYPE_PORT_SET 5 blank_port) 16 0x100 (MACH_PORT_TYPE_PORT_SET, 5, 0)"
  "st_caps (right_state MACH_PORT_TYPE_PORT_SET 5 blank_port) 16 = [0x100 \<mapsto> (MACH_PORT_TYPE_PORT_SET, 5, 0)]"
proof -
  let ?st = "right_state MACH_PORT_TYPE_PORT_SET 5 blank_port"
  have at: "right_at example_config ?st 16 0x100 (In_table 1) (right_entry MACH_PORT_TYPE_PORT_SET 5)"
    by (rule right_state_at) code_simp+
  have c: "capability (right_entry MACH_PORT_TYPE_PORT_SET 5) = (MACH_PORT_TYPE_PORT_SET, 5, 0)" by code_simp
  show caps: "st_caps ?st 16 = [0x100 \<mapsto> (MACH_PORT_TYPE_PORT_SET, 5, 0)]"
    unfolding c [symmetric] by (rule right_state_caps) code_simp+
  have "is_active (st_spaces ?st 16)" "\<not> shadowed 0x100" by code_simp+
  with right_atD [OF at] holds_st_ok [OF right_atD(1) [OF at]] caps
  show "named_right example_config ?st 16 0x100 (MACH_PORT_TYPE_PORT_SET, 5, 0)"
    unfolding c [symmetric] by (simp add: named_right_def split_beta)
qed

theorem set_status_two_rounds_witness:
  "\<exists>ms st'. mach_port_get_set_status 4096 [(True, \<lambda>x. x), (True, \<lambda>x. x)] (right_state MACH_PORT_TYPE_PORT_SET 5 blank_port) 16 0x100 = Some (Inr ms, st') \<and> ms = []"
proof -
  have h: "IE_BITS_TYPE MACH_PORT_TYPE_PORT_SET = MACH_PORT_TYPE_PORT_SET" "\<not> has MACH_PORT_TYPE_PORT_SET MACH_PORT_TYPE_RECEIVE" by code_simp+
  then have "\<forall>n b p q. st_caps (right_state MACH_PORT_TYPE_PORT_SET 5 blank_port) 16 n = Some (b, p, q) \<and> has b MACH_PORT_TYPE_RECEIVE \<longrightarrow>
      ip_receiver_name (st_ports (right_state MACH_PORT_TYPE_PORT_SET 5 blank_port) p) = n"
    unfolding pset_named(2) by (auto split: if_splits)
  from set_status_two_rounds [OF pset_named(1) h(1) _ _ this, of 4096 "[]"] h(2) show ?thesis
    unfolding pset_named(2) by (auto simp: IS_NULL_def split: if_splits)
qed

end
