(* ===== verification/Ipc_Compat.thy ===== *)
theory Ipc_Compat
  imports Ipc_Object
begin

text \<open>
  The rights of the old interface (\<^verbatim>\<open>MACH_IPC_COMPAT\<close>): an entry that is marked with \<^verbatim>\<open>IE_BITS_COMPAT\<close> disappears when
  its port dies, and registers its space with the port for that.  The operations that make such entries
  are \<^verbatim>\<open>ipc_port_alloc_compat\<close> of \<^verbatim>\<open>src/kernel/ipc/ipc_port.c\<close>, \<^verbatim>\<open>ipc_object_copyout_compat\<close> and
  \<^verbatim>\<open>ipc_object_copyout_name_compat\<close> of \<^verbatim>\<open>ipc_object.c\<close>.
\<close>

section \<open>References to a space\<close>

definition is_reference :: "ipc_state \<Rightarrow> space_id \<Rightarrow> ipc_state" where
  "is_reference st sid = (let space = st_spaces st sid in set_space st sid (space\<lparr>is_references := is_references space + 1\<rparr>))"

section \<open>A new port\<close>

text \<open>
  The table of requests that a new port starts with: the first request is that of the space, the others are
  on the free list.  \<open>memory\<close> is what the new table had in it.
\<close>

definition compat_table :: "nat list \<Rightarrow> 32 word \<Rightarrow> ipc_port_request list \<Rightarrow> space_id \<Rightarrow> mach_port_t \<Rightarrow> ipr_table" where
  "compat_table its addr memory sid name =
    (let (table, free) = dn_free [2..<its ! 0] memory 0;
         table1 = set_ipr_next table 0 free
     in \<lparr>ipr_address = addr, ipr_size = 0,
         ipr_requests = table1[1 := \<lparr>ipr_soright = ipr_spacem sid, ipr_name = name\<rparr>]\<rparr>)"

definition ipc_port_alloc_compat ::
    "ipc_config \<Rightarrow> schedule \<Rightarrow> ipc_object_t \<Rightarrow> (32 word \<times> ipc_port_request list) option \<Rightarrow> ipc_state \<Rightarrow> space_id \<Rightarrow>
     (mach_port_t \<times> ipc_port_t) object_result" where
  "ipc_port_alloc_compat cfg sched object alloc st sid =
    (if object = IP_NULL then Some (Inl KERN_RESOURCE_SHORTAGE, sched, st)
     else case alloc of
       None \<Rightarrow> Some (Inl KERN_RESOURCE_SHORTAGE, sched, st)
     | Some (addr, memory) \<Rightarrow> do {
         (ret, sched, st) \<leftarrow> entry_alloc cfg sched st sid;
         case ret of
           Inl kr \<Rightarrow> Some (Inl kr, sched, st)
         | Inr (name, r) \<Rightarrow> do {
             let st = upd_entry st sid r (\<lambda>e. e\<lparr>ie_object := object, ie_request := 1,
                        ie_bits := ie_bits e OR (IE_BITS_COMPAT OR MACH_PORT_TYPE_RECEIVE)\<rparr>);
             let st = upd_port (new_object st object IOT_PORT) object
                        (\<lambda>port. (ipc_port_init port sid name)\<lparr>ip_dnrequests :=
                          Some (compat_table (ipc_table_dnrequests cfg) addr memory sid name)\<rparr>);
             Some (Inr (name, object), sched, is_reference st sid)
           }
       })"

section \<open>Copying out\<close>

text \<open>
  What becomes of a new entry: the space is registered with the port, the port is dead, or the port has no room
  and its table has to grow.
\<close>

datatype compat_round =
    Compat_done "kern_return_t option" ipc_state
  | Compat_grow ipc_state

definition compat_register ::
    "ipc_config \<Rightarrow> ipc_state \<Rightarrow> space_id \<Rightarrow> ipc_port_t \<Rightarrow> mach_port_t \<Rightarrow> entry_ref \<Rightarrow> compat_round option" where
  "compat_register cfg st sid p name r =
    (if \<not> ip_active (st_ports st p)
     then map_option (Compat_done (Some KERN_INVALID_CAPABILITY)) (entry_dealloc cfg st sid name r)
     else case ipc_port_dnrequest (st_ports st p) name (ipr_spacem sid) of
       Inl kr \<Rightarrow> map_option Compat_grow (entry_dealloc cfg st sid name r)
     | Inr (request, port) \<Rightarrow>
         Some (Compat_done None (upd_entry (is_reference (set_port st p port) sid) sid r
           (\<lambda>e. e\<lparr>ie_object := p, ie_request := request, ie_bits := ie_bits e OR IE_BITS_COMPAT\<rparr>))))"

text \<open>
  The loops let go of the locks to grow the table of the space, with the schedule of \<open>ipc_entry_grow_table\<close>, and to
  grow the table of requests, with that of \<open>ipc_right_dnrequest\<close>.
\<close>

function compat_entry ::
    "ipc_config \<Rightarrow> schedule \<Rightarrow> dn_schedule \<Rightarrow> ipc_state \<Rightarrow> space_id \<Rightarrow> ipc_port_t \<Rightarrow> mach_msg_type_name \<Rightarrow>
     (mach_port_t \<times> entry_ref) object_result" where
  "compat_entry cfg sched dns st sid p msgt =
    (if \<not> is_active (st_spaces st sid) then Some (Inl KERN_INVALID_TASK, sched, st)
     else do {
       (found, st) \<leftarrow> (if msgt \<noteq> MACH_MSG_TYPE_PORT_SEND_ONCE then ipc_right_reverse st sid p else Some (None, st));
       case found of
         Some (name, r) \<Rightarrow> Some (Inr (name, r), sched, st)
       | None \<Rightarrow>
           (case ipc_entry_get (st_spaces st sid) of
              Inl _ \<Rightarrow>
                (case ipc_entry_grow_table (ipc_table_entries cfg) sid None sched (st_hash st, st_spaces st sid) of
                   None \<Rightarrow> None
                 | Some (kr, sched', w) \<Rightarrow>
                     if kr \<noteq> KERN_SUCCESS then Some (Inl kr, sched', set_world st sid w)
                     else if length sched' < length sched then compat_entry cfg sched' dns (set_world st sid w) sid p msgt
                     else None)
            | Inr (name, r, space) \<Rightarrow>
                (case compat_register cfg (set_space st sid space) sid p name r of
                   None \<Rightarrow> None
                 | Some (Compat_done (Some kr) st) \<Rightarrow> Some (Inl kr, sched, st)
                 | Some (Compat_done None st) \<Rightarrow> Some (Inr (name, r), sched, st)
                 | Some (Compat_grow st) \<Rightarrow>
                     (case dns of
                        [] \<Rightarrow> None
                      | (alloc, interim) # dns \<Rightarrow>
                          (case port_dngrow cfg st p alloc interim of
                             (kr, st) \<Rightarrow> if kr \<noteq> KERN_SUCCESS then Some (Inl kr, sched, st)
                                       else compat_entry cfg sched dns st sid p msgt))))
     })"
  by pat_completeness auto
termination
  by (relation "measure (\<lambda>(cfg, sched, dns, st, sid, p, msgt). length sched + length dns)") auto

definition ipc_object_copyout_compat ::
    "ipc_config \<Rightarrow> schedule \<Rightarrow> dn_schedule \<Rightarrow> ipc_state \<Rightarrow> space_id \<Rightarrow> ipc_object_t \<Rightarrow> mach_msg_type_name \<Rightarrow> mach_port_t object_result" where
  "ipc_object_copyout_compat cfg sched dns st sid p msgt =
    do {
      (ret, sched, st) \<leftarrow> compat_entry cfg sched dns st sid p msgt;
      case ret of
        Inl kr \<Rightarrow> Some (Inl kr, sched, st)
      | Inr (name, r) \<Rightarrow> do {
          (kr, st) \<leftarrow> ipc_right_copyout st sid name r msgt True p;
          Some (if kr = KERN_SUCCESS then Inr name else Inl kr, sched, st)
        }
    }"

text \<open>A name that is in use is refused, even if it is for the same port.\<close>

fun ipc_object_copyout_name_compat ::
    "ipc_config \<Rightarrow> schedule \<Rightarrow> dn_schedule \<Rightarrow> ipc_state \<Rightarrow> space_id \<Rightarrow> ipc_object_t \<Rightarrow> mach_msg_type_name \<Rightarrow> mach_port_t \<Rightarrow>
     (kern_return_t \<times> schedule \<times> ipc_state) option" where
  "ipc_object_copyout_name_compat cfg sched dns st sid p msgt name =
    do {
      (ret, sched, st) \<leftarrow> entry_alloc_name cfg sched st sid name;
      case ret of
        Inl kr \<Rightarrow> Some (kr, sched, st)
      | Inr r \<Rightarrow> do {
          (inuse, st) \<leftarrow> ipc_right_inuse st sid name r;
          if inuse then Some (KERN_NAME_EXISTS, sched, st)
          else do {
            (found, st) \<leftarrow> (if msgt \<noteq> MACH_MSG_TYPE_PORT_SEND_ONCE then ipc_right_reverse st sid p else Some (None, st));
            if found \<noteq> None then map_option (\<lambda>st. (KERN_RIGHT_EXISTS, sched, st)) (entry_dealloc cfg st sid name r)
            else
              (case compat_register cfg st sid p name r of
                 None \<Rightarrow> None
               | Some (Compat_done (Some kr) st) \<Rightarrow> Some (kr, sched, st)
               | Some (Compat_done None st) \<Rightarrow>
                   map_option (\<lambda>(kr, st). (kr, sched, st)) (ipc_right_copyout st sid name r msgt True p)
               | Some (Compat_grow st) \<Rightarrow>
                   (case dns of
                      [] \<Rightarrow> None
                    | (alloc, interim) # dns \<Rightarrow>
                        (case port_dngrow cfg st p alloc interim of
                           (kr, st) \<Rightarrow> if kr \<noteq> KERN_SUCCESS then Some (kr, sched, st)
                                     else ipc_object_copyout_name_compat cfg sched dns st sid p msgt name)))
          }
        }
    }"

definition ipc_port_copyout_send_compat ::
    "ipc_config \<Rightarrow> schedule \<Rightarrow> dn_schedule \<Rightarrow> ipc_state \<Rightarrow> ipc_port_t \<Rightarrow> space_id \<Rightarrow> (mach_port_t \<times> schedule \<times> ipc_state) option" where
  "ipc_port_copyout_send_compat cfg sched dns st sright sid =
    (if IO_VALID sright then do {
       (ret, sched, st) \<leftarrow> ipc_object_copyout_compat cfg sched dns st sid sright MACH_MSG_TYPE_PORT_SEND;
       case ret of
         Inr name \<Rightarrow> Some (name, sched, st)
       | Inl kr \<Rightarrow> map_option (\<lambda>st. (MACH_PORT_NULL, sched, st)) (ipc_port_release_send st sright)
     } else Some (sright, sched, st))"

text \<open>The carried type as the old message format has it: \<^verbatim>\<open>MSG_TYPE_PORT\<close> or \<^verbatim>\<open>MSG_TYPE_PORT_ALL\<close>.\<close>

fun ipc_object_copyout_type_compat :: "mach_msg_type_name \<Rightarrow> 32 word option" where
  "ipc_object_copyout_type_compat MACH_MSG_TYPE_MOVE_SEND = Some 6"
| "ipc_object_copyout_type_compat MACH_MSG_TYPE_MOVE_SEND_ONCE = Some 6"
| "ipc_object_copyout_type_compat MACH_MSG_TYPE_MOVE_RECEIVE = Some 5"
| "ipc_object_copyout_type_compat _ = None"

end
