(* ===== verification/Ipc_Space.thy ===== *)
theory Ipc_Space
  imports Ipc_Compat
begin

text \<open>
  Special spaces and the death of a space, \<^verbatim>\<open>src/kernel/ipc/ipc_space.c\<close> (the creation of a space is with the
  entries), and the msg-accepted requests that tie a message to an entry, \<^verbatim>\<open>ipc_marequest.c\<close>.
\<close>

section \<open>Spaces\<close>

text \<open>\<open>alloc\<close> is the address that \<^verbatim>\<open>is_alloc\<close> returns; the other fields keep what was in the memory.\<close>

definition ipc_space_create_special :: "ipc_state \<Rightarrow> space_id \<Rightarrow> (kern_return_t + space_id) \<times> ipc_state" where
  "ipc_space_create_special st alloc =
    (if alloc = 0 then (Inl KERN_RESOURCE_SHORTAGE, st)
     else (Inr alloc, set_space st alloc ((st_spaces st alloc)\<lparr>is_references := 1, is_active := False\<rparr>)))"

text \<open>The wait for a thread that grows the table: what happens until each of the wake-ups.\<close>

fun wait_growing :: "(ipc_state \<Rightarrow> ipc_state) list \<Rightarrow> ipc_state \<Rightarrow> space_id \<Rightarrow> ipc_state option" where
  "wait_growing waits st sid =
    (if \<not> is_growing (st_spaces st sid) then Some st
     else case waits of [] \<Rightarrow> None | interim # waits \<Rightarrow> wait_growing waits (interim st) sid)"

text \<open>
  The rights of the table and then those of the tree are cleaned.  The arguments of the check for circles, which
  a dying receive right with a backup port needs, are given for each name.  The entries of the tree stay
  readable until the traversal, which frees each of them after its turn, is done.
\<close>

type_synonym clean_args = "mach_port_t \<Rightarrow> nat \<times> bool \<times> (ipc_state \<Rightarrow> ipc_state)"

definition clean_right :: "ipc_config \<Rightarrow> clean_args \<Rightarrow> ipc_state \<Rightarrow> space_id \<Rightarrow> mach_port_t \<Rightarrow> entry_ref \<Rightarrow> ipc_state option" where
  "clean_right cfg args st sid name r = (case args name of (fuel, attempt, interim) \<Rightarrow> ipc_right_clean cfg fuel attempt interim st sid name r)"

definition clean_slot :: "ipc_config \<Rightarrow> clean_args \<Rightarrow> space_id \<Rightarrow> nat \<Rightarrow> ipc_state option \<Rightarrow> ipc_state option" where
  "clean_slot cfg args sid index ost =
    do {
      st \<leftarrow> ost;
      let entry = is_table (st_spaces st sid) ! index;
      if IE_BITS_TYPE (ie_bits entry) \<noteq> MACH_PORT_TYPE_NONE
      then clean_right cfg args st sid (MACH_PORT_MAKEB index (ie_bits entry)) (In_table index) else Some st
    }"

definition clean_tree :: "ipc_config \<Rightarrow> clean_args \<Rightarrow> space_id \<Rightarrow> mach_port_t \<times> ipc_entry \<Rightarrow> ipc_state option \<Rightarrow> ipc_state option \<times> bool" where
  "clean_tree cfg args sid tentry ost =
    (case tentry of (name, entry) \<Rightarrow>
      (do {
         st \<leftarrow> ost;
         let st = (if IE_BITS_TYPE (ie_bits entry) = MACH_PORT_TYPE_SEND
                then set_world st sid (ipc_hash_global_delete (st_hash st) sid (st_spaces st sid) (ie_object entry) name) else st);
         clean_right cfg args st sid name (In_tree name)
       }, True))"

definition ipc_space_destroy ::
    "ipc_config \<Rightarrow> (ipc_state \<Rightarrow> ipc_state) list \<Rightarrow> clean_args \<Rightarrow> ipc_state \<Rightarrow> space_id \<Rightarrow> ipc_state option" where
  "ipc_space_destroy cfg waits args st sid =
    (let space = st_spaces st sid; active = is_active space; st = set_space st sid (space\<lparr>is_active := False\<rparr>)
     in if \<not> active then Some st
        else do {
          st \<leftarrow> wait_growing waits st sid;
          st \<leftarrow> fold (clean_slot cfg args sid) [0..<is_table_size (st_spaces st sid)] (Some st);
          (ost, tree) \<leftarrow> ipc_splay_traverse (is_tree_total (st_spaces st sid)) (clean_tree cfg args sid) (is_tree (st_spaces st sid)) (Some st);
          st \<leftarrow> ost;
          let st = set_space st sid ((st_spaces st sid)\<lparr>is_tree := tree\<rparr>);
          let notify = is_notify (st_spaces st sid);
          st \<leftarrow> (if IO_VALID notify then ipc_port_release_send st notify else Some st);
          Some (is_release st sid)
        })"

section \<open>Msg-accepted requests\<close>

definition MACH_SEND_NOTIFY_IN_PROGRESS :: mach_msg_return_t where "MACH_SEND_NOTIFY_IN_PROGRESS = 0x10000006"
definition MACH_SEND_INVALID_NOTIFY :: mach_msg_return_t where "MACH_SEND_INVALID_NOTIFY = 0x1000000b"
definition MACH_SEND_NO_NOTIFY :: mach_msg_return_t where "MACH_SEND_NO_NOTIFY = 0x1000000e"

text \<open>The right that the notification goes to; \<open>None\<close> when the name is no receive right.\<close>

definition imar_soright_for :: "ipc_state \<Rightarrow> space_id \<Rightarrow> mach_port_t \<Rightarrow> ipc_port_t option \<times> ipc_state" where
  "imar_soright_for st sid notify =
    (if notify = MACH_PORT_NULL then (Some IP_NULL, st)
     else case ipc_port_lookup_notify st sid notify of
       (soright, st) \<Rightarrow> (if soright = IP_NULL then None else Some soright, st))"

text \<open>\<open>alloc\<close> is the address that \<^verbatim>\<open>imar_alloc\<close> returns.\<close>

definition ipc_marequest_create ::
    "32 word \<Rightarrow> ipc_state \<Rightarrow> space_id \<Rightarrow> ipc_port_t \<Rightarrow> mach_port_t \<Rightarrow> ((mach_msg_return_t + 32 word) \<times> ipc_state) option" where
  "ipc_marequest_create alloc st sid p notify =
    (if alloc = 0 then Some (Inl MACH_SEND_NO_NOTIFY, st)
     else if \<not> is_active (st_spaces st sid) then Some (Inl MACH_SEND_INVALID_NOTIFY, st)
     else do {
       (found, st) \<leftarrow> ipc_right_reverse st sid p;
       case found of
         Some (name, r) \<Rightarrow>
           (let bits = ie_bits (get_entry st sid r)
            in if has bits IE_BITS_MAREQUEST then Some (Inl MACH_SEND_NOTIFY_IN_PROGRESS, st)
               else case imar_soright_for st sid notify of
                 (None, st) \<Rightarrow> Some (Inl MACH_SEND_INVALID_NOTIFY, st)
               | (Some soright, st) \<Rightarrow>
                   (let st = is_reference (upd_entry st sid r (\<lambda>e. e\<lparr>ie_bits := bits OR IE_BITS_MAREQUEST\<rparr>)) sid
                    in Some (Inr alloc, st\<lparr>st_marequests := imar_enter (st_marequests st) alloc
                         \<lparr>imar_space = sid, imar_name = name, imar_soright = soright\<rparr>\<rparr>)))
       | None \<Rightarrow>
           (case imar_soright_for st sid notify of
              (None, st) \<Rightarrow> Some (Inl MACH_SEND_INVALID_NOTIFY, st)
            | (Some soright, st) \<Rightarrow>
                (let st = is_reference st sid; m = st_marequests st
                 in Some (Inr alloc, st\<lparr>st_marequests := m\<lparr>imar_at :=
                      (imar_at m)(alloc := \<lparr>imar_space = sid, imar_name = MACH_PORT_NULL, imar_soright = soright\<rparr>)\<rparr>\<rparr>)))
     })"

text \<open>
  The entry of the name loses the mark, in an active space; the result has the right for a notification
  in the old format.
\<close>

definition imar_settle :: "ipc_state \<Rightarrow> space_id \<Rightarrow> mach_port_t \<Rightarrow> ipc_port_t \<Rightarrow> (ipc_port_t \<times> ipc_state) option" where
  "imar_settle st sid name soright =
    (case ipc_entry_lookup (st_spaces st sid) name of
       (None, space) \<Rightarrow> None
     | (Some r, space) \<Rightarrow>
         (let st = set_space st sid space; bits = ie_bits (get_entry st sid r)
          in if \<not> has bits IE_BITS_MAREQUEST \<or> \<not> has bits MACH_PORT_TYPE_SEND_RECEIVE then None
             else
               let st = upd_entry st sid r (\<lambda>e. e\<lparr>ie_bits := bits AND NOT IE_BITS_MAREQUEST\<rparr>)
               in if soright = IP_NULL then ipc_space_make_notify st sid else Some (IP_NULL, st)))"

definition ipc_marequest_destroy :: "ipc_state \<Rightarrow> 32 word \<Rightarrow> ipc_state option" where
  "ipc_marequest_destroy st a =
    do {
      let req = imar_at (st_marequests st) a;
      let sid = imar_space req; let name = imar_name req; let soright = imar_soright req;
      (sright, st) \<leftarrow>
        (if name \<noteq> MACH_PORT_NULL then do {
           (this, m) \<leftarrow> imar_unlink (st_marequests st) sid name;
           if this \<noteq> a then None
           else if is_active (st_spaces st sid) then imar_settle (st\<lparr>st_marequests := m\<rparr>) sid name soright
           else Some (IP_NULL, st\<lparr>st_marequests := m\<rparr>)
         } else Some (IP_NULL, st));
      let st = emit (is_release st sid) [Free_marequest a];
      if soright = IP_NULL
      then Some (if IO_VALID sright then emit st [Notify_msg_accepted_compat sright name] else st)
      else None
    }"

end
