(* ===== verification/Port_Calls.thy ===== *)
theory Port_Calls
  imports Ipc_Space Mach_Port_Names
begin

text \<open>
  The system calls of the old interface, \<^verbatim>\<open>port_*\<close> of \<^verbatim>\<open>src/kernel/ipc/mach_port.c\<close>.  They see send-once rights and
  dead names as send rights, and answer nearly every error with \<^verbatim>\<open>KERN_INVALID_ARGUMENT\<close>.
\<close>

section \<open>Types\<close>

definition PORT_TYPE_SEND :: "32 word" where "PORT_TYPE_SEND = 1"
definition PORT_TYPE_RECEIVE_OWN :: "32 word" where "PORT_TYPE_RECEIVE_OWN = 7"
definition PORT_TYPE_SET :: "32 word" where "PORT_TYPE_SET = 9"

definition MACH_PORT_TYPE_ALL_RIGHTS :: "32 word" where
  "MACH_PORT_TYPE_ALL_RIGHTS = (MACH_PORT_TYPE_PORT_OR_DEAD OR MACH_PORT_TYPE_PORT_SET)"

definition PORT_BACKLOG_MAX :: "32 word" where "PORT_BACKLOG_MAX = MACH_PORT_QLIMIT_MAX"

text \<open>\<open>None\<close> is the panic for a strange type.\<close>

definition convert_port_type :: "32 word \<Rightarrow> 32 word option" where
  "convert_port_type type =
    (let rights = type AND MACH_PORT_TYPE_ALL_RIGHTS
     in if rights \<in> {MACH_PORT_TYPE_SEND, MACH_PORT_TYPE_SEND_ONCE, MACH_PORT_TYPE_DEAD_NAME} then Some PORT_TYPE_SEND
        else if rights \<in> {MACH_PORT_TYPE_RECEIVE, MACH_PORT_TYPE_SEND_RECEIVE} then Some PORT_TYPE_RECEIVE_OWN
        else if rights = MACH_PORT_TYPE_PORT_SET then Some PORT_TYPE_SET
        else None)"

text \<open>The answers that are passed on; any other error is \<^verbatim>\<open>KERN_INVALID_ARGUMENT\<close>.\<close>

definition compat_code :: "kern_return_t set \<Rightarrow> kern_return_t \<Rightarrow> kern_return_t" where
  "compat_code keep kr = (if kr = KERN_SUCCESS \<or> kr \<in> keep then kr else KERN_INVALID_ARGUMENT)"

definition compat_result :: "kern_return_t set \<Rightarrow> kern_return_t + 'a \<Rightarrow> kern_return_t + 'a" where
  "compat_result keep = map_sum (compat_code keep) id"

section \<open>Rights by their names\<close>

text \<open>The first steps of most calls: the entry of a name and its type, with the checks for dead rights.\<close>

definition port_info ::
    "ipc_config \<Rightarrow> ipc_state \<Rightarrow> space_id \<Rightarrow> mach_port_t \<Rightarrow> ((kern_return_t + entry_ref \<times> 32 word) \<times> ipc_state) option" where
  "port_info cfg st sid name =
    (case ipc_right_lookup_write st sid name of
       (Inl kr, st) \<Rightarrow> Some (Inl KERN_INVALID_ARGUMENT, st)
     | (Inr r, st) \<Rightarrow>
         map_option (\<lambda>(ret, st). (case ret of Inl kr \<Rightarrow> Inl KERN_INVALID_ARGUMENT | Inr (type, urefs) \<Rightarrow> Inr (r, type), st))
           (ipc_right_info cfg st sid name r))"

definition port_translate_compat ::
    "ipc_config \<Rightarrow> ipc_state \<Rightarrow> space_id \<Rightarrow> mach_port_t \<Rightarrow> ((kern_return_t + ipc_port_t) \<times> ipc_state) option" where
  "port_translate_compat cfg st sid name =
    map_option (\<lambda>(ret, st).
      (case ret of
         Inl kr \<Rightarrow> Inl kr
       | Inr (r, type) \<Rightarrow>
           if \<not> has type MACH_PORT_TYPE_RECEIVE
           then Inl (if has type MACH_PORT_TYPE_PORT_OR_DEAD then KERN_NOT_RECEIVER else KERN_INVALID_ARGUMENT)
           else Inr (ie_object (get_entry st sid r)), st))
      (port_info cfg st sid name)"

definition port_type_call ::
    "ipc_config \<Rightarrow> ipc_state \<Rightarrow> space_id \<Rightarrow> mach_port_t \<Rightarrow> ((kern_return_t + 32 word) \<times> ipc_state) option" where
  "port_type_call cfg st sid name =
    do {
      (ret, st) \<leftarrow> mach_port_type cfg st sid name;
      case ret of
        Inl kr \<Rightarrow> Some (Inl KERN_INVALID_ARGUMENT, st)
      | Inr type \<Rightarrow> map_option (\<lambda>t. (Inr t, st)) (convert_port_type type)
    }"

text \<open>\<open>copyout\<close> says whether the kernel can map the list again to convert it.\<close>

definition port_names ::
    "nat \<Rightarrow> names_schedule \<Rightarrow> bool \<Rightarrow> ipc_state \<Rightarrow> space_id \<Rightarrow> ((kern_return_t + (mach_port_t \<times> 32 word) list) \<times> ipc_state) option" where
  "port_names page sched copyout st sid =
    do {
      (ret, st) \<leftarrow> mach_port_names page sched st sid;
      case ret of
        Inl kr \<Rightarrow> Some (Inl (compat_code {KERN_RESOURCE_SHORTAGE} kr), st)
      | Inr names \<Rightarrow>
          if \<not> copyout then Some (Inl KERN_RESOURCE_SHORTAGE, st)
          else map_option (\<lambda>types. (Inr (zip (map fst names) types), st)) (those (map (convert_port_type \<circ> snd) names))
    }"

definition port_rename ::
    "ipc_config \<Rightarrow> schedule \<Rightarrow> ipc_state \<Rightarrow> space_id \<Rightarrow> mach_port_t \<Rightarrow> mach_port_t \<Rightarrow> (kern_return_t \<times> schedule \<times> ipc_state) option" where
  "port_rename cfg sched st sid old_name new_name =
    map_option (\<lambda>(kr, sched, st). (compat_code {KERN_NAME_EXISTS} kr, sched, st)) (mach_port_rename cfg sched st sid old_name new_name)"

definition port_allocate ::
    "ipc_config \<Rightarrow> schedule \<Rightarrow> ipc_object_t \<Rightarrow> (32 word \<times> ipc_port_request list) option \<Rightarrow> ipc_state \<Rightarrow> space_id \<Rightarrow> mach_port_t object_result" where
  "port_allocate cfg sched object alloc st sid =
    (if sid = IS_NULL then Some (Inl KERN_INVALID_ARGUMENT, sched, st)
     else map_option (\<lambda>(ret, sched, st). (compat_result {KERN_RESOURCE_SHORTAGE} ret, sched, st))
            (result_name (ipc_port_alloc_compat cfg sched object alloc st sid)))"

definition port_deallocate ::
    "ipc_config \<Rightarrow> nat \<Rightarrow> bool \<Rightarrow> (ipc_state \<Rightarrow> ipc_state) \<Rightarrow> ipc_state \<Rightarrow> space_id \<Rightarrow> mach_port_t \<Rightarrow> (kern_return_t \<times> ipc_state) option" where
  "port_deallocate cfg fuel attempt interim st sid name =
    (if sid = IS_NULL then Some (KERN_INVALID_ARGUMENT, st)
     else do {
       (ret, st) \<leftarrow> port_info cfg st sid name;
       case ret of
         Inl kr \<Rightarrow> Some (kr, st)
       | Inr (r, type) \<Rightarrow>
           if \<not> has type MACH_PORT_TYPE_PORT_OR_DEAD then Some (KERN_INVALID_ARGUMENT, st)
           else map_option (\<lambda>(kr, st). (KERN_SUCCESS, st)) (ipc_right_destroy cfg fuel attempt interim st sid name r)
     })"

section \<open>Receive rights\<close>

abbreviation ip_pdsendm :: "ipc_port_t \<Rightarrow> ipc_port_t" where "ip_pdsendm \<equiv> ipr_spacem"

definition port_set_backlog ::
    "ipc_config \<Rightarrow> ipc_state \<Rightarrow> space_id \<Rightarrow> mach_port_t \<Rightarrow> 32 word \<Rightarrow> (kern_return_t \<times> ipc_state) option" where
  "port_set_backlog cfg st sid name backlog =
    (if sid = IS_NULL \<or> sint backlog \<le> 0 \<or> backlog > PORT_BACKLOG_MAX then Some (KERN_INVALID_ARGUMENT, st)
     else map_option (\<lambda>(ret, st). (case ret of Inl kr \<Rightarrow> (kr, st) | Inr p \<Rightarrow> (KERN_SUCCESS, ipc_port_set_qlimit st p backlog)))
            (port_translate_compat cfg st sid name))"

definition port_set_backup ::
    "ipc_config \<Rightarrow> ipc_state \<Rightarrow> space_id \<Rightarrow> mach_port_t \<Rightarrow> ipc_port_t \<Rightarrow> ((kern_return_t + ipc_port_t) \<times> ipc_state) option" where
  "port_set_backup cfg st sid name backup =
    (if sid = IS_NULL then Some (Inl KERN_INVALID_ARGUMENT, st)
     else
       let backup = (if backup = IP_DEAD then IP_NULL else if backup \<noteq> IP_NULL then ip_pdsendm backup else backup)
       in do {
         (ret, st) \<leftarrow> port_translate_compat cfg st sid name;
         case ret of
           Inl kr \<Rightarrow> Some (Inl kr, st)
         | Inr p \<Rightarrow>
             (case ipc_port_pdrequest (st_ports st p) backup of
                (previous, port) \<Rightarrow>
                  let st = set_port st p port
                  in if previous = IP_NULL then Some (Inr IP_NULL, st)
                     else if ip_pdsendp previous then Some (Inr (ip_pdsend previous), st)
                     else Some (Inr IP_NULL, emit st [Notify_send_once previous]))
       })"

record port_status_info =
  ps_enabled :: mach_port_t
  ps_num_msgs :: "32 word"
  ps_backlog :: "32 word"
  ps_ownership :: bool
  ps_receive_rights :: bool

definition port_status ::
    "ipc_config \<Rightarrow> ipc_state \<Rightarrow> space_id \<Rightarrow> mach_port_t \<Rightarrow> ((kern_return_t + port_status_info) \<times> ipc_state) option" where
  "port_status cfg st sid name =
    (if sid = IS_NULL then Some (Inl KERN_INVALID_ARGUMENT, st)
     else do {
       (ret, st) \<leftarrow> port_info cfg st sid name;
       case ret of
         Inl kr \<Rightarrow> Some (Inl kr, st)
       | Inr (r, type) \<Rightarrow>
           if \<not> has type MACH_PORT_TYPE_PORT_OR_DEAD then Some (Inl KERN_INVALID_ARGUMENT, st)
           else if has type MACH_PORT_TYPE_RECEIVE then
             (let p = ie_object (get_entry st sid r); pset = ip_pset (st_ports st p);
                  (enabled, st) =
                    (if pset = IPS_NULL then (MACH_PORT_NULL, st)
                     else if \<not> ips_active (st_psets st pset)
                     then (MACH_PORT_NULL, ips_check_unlock (ipc_pset_remove cfg st pset p) pset)
                     else (ips_local_name (st_psets st pset), st))
              in Some (Inr \<lparr>ps_enabled = enabled, ps_num_msgs = ip_msgcount (st_ports st p), ps_backlog = ip_qlimit (st_ports st p),
                         ps_ownership = True, ps_receive_rights = True\<rparr>, st))
           else Some (Inr \<lparr>ps_enabled = MACH_PORT_NULL, ps_num_msgs = - 1, ps_backlog = 0, ps_ownership = False,
                        ps_receive_rights = False\<rparr>, st)
     })"

section \<open>Port sets\<close>

definition port_set_allocate ::
    "ipc_config \<Rightarrow> schedule \<Rightarrow> ipc_object_t \<Rightarrow> ipc_state \<Rightarrow> space_id \<Rightarrow> mach_port_t object_result" where
  "port_set_allocate cfg sched object st sid =
    (if sid = IS_NULL then Some (Inl KERN_INVALID_ARGUMENT, sched, st)
     else map_option (\<lambda>(ret, sched, st). (compat_result {KERN_RESOURCE_SHORTAGE} ret, sched, st))
            (result_name (ipc_pset_alloc cfg sched object st sid)))"

definition port_set_deallocate ::
    "ipc_config \<Rightarrow> nat \<Rightarrow> bool \<Rightarrow> (ipc_state \<Rightarrow> ipc_state) \<Rightarrow> ipc_state \<Rightarrow> space_id \<Rightarrow> mach_port_t \<Rightarrow> (kern_return_t \<times> ipc_state) option" where
  "port_set_deallocate cfg fuel attempt interim st sid name =
    (if sid = IS_NULL then Some (KERN_INVALID_ARGUMENT, st)
     else case ipc_right_lookup_write st sid name of
       (Inl kr, st) \<Rightarrow> Some (kr, st)
     | (Inr r, st) \<Rightarrow>
         if \<not> has (ie_bits (get_entry st sid r)) MACH_PORT_TYPE_PORT_SET then Some (KERN_INVALID_ARGUMENT, st)
         else ipc_right_destroy cfg fuel attempt interim st sid name r)"

definition port_set_add ::
    "ipc_config \<Rightarrow> ipc_state \<Rightarrow> space_id \<Rightarrow> mach_port_t \<Rightarrow> mach_port_t \<Rightarrow> (kern_return_t \<times> ipc_state) option" where
  "port_set_add cfg st sid set_name port_name =
    (if sid = IS_NULL then Some (KERN_INVALID_ARGUMENT, st)
     else map_option (\<lambda>(ret, st).
       (case ret of
          Inl kr \<Rightarrow> (kr, st)
        | Inr p \<Rightarrow>
            (case ipc_entry_lookup (st_spaces st sid) set_name of
               (None, space) \<Rightarrow> (KERN_INVALID_ARGUMENT, set_space st sid space)
             | (Some r, space) \<Rightarrow>
                 let st = set_space st sid space; entry = get_entry st sid r
                 in if \<not> has (ie_bits entry) MACH_PORT_TYPE_PORT_SET then (KERN_INVALID_ARGUMENT, st)
                    else ipc_pset_move cfg st p (ie_object entry))))
       (port_translate_compat cfg st sid port_name))"

definition port_set_remove :: "ipc_config \<Rightarrow> ipc_state \<Rightarrow> space_id \<Rightarrow> mach_port_t \<Rightarrow> (kern_return_t \<times> ipc_state) option" where
  "port_set_remove cfg st sid name =
    (if sid = IS_NULL then Some (KERN_INVALID_ARGUMENT, st)
     else map_option (\<lambda>(ret, st). (case ret of Inl kr \<Rightarrow> (kr, st) | Inr p \<Rightarrow> ipc_pset_move cfg st p IPS_NULL))
       (port_translate_compat cfg st sid name))"

definition port_set_status ::
    "nat \<Rightarrow> gst_schedule \<Rightarrow> ipc_state \<Rightarrow> space_id \<Rightarrow> mach_port_t \<Rightarrow> ((kern_return_t + mach_port_t list) \<times> ipc_state) option" where
  "port_set_status page sched st sid name =
    map_option (\<lambda>(ret, st). (compat_result {KERN_RESOURCE_SHORTAGE} ret, st)) (mach_port_get_set_status page sched st sid name)"

section \<open>Rights of other spaces\<close>

text \<open>The lines that \<^verbatim>\<open>port_insert_send\<close> and \<^verbatim>\<open>port_insert_receive\<close> share.\<close>

definition insert_compat ::
    "ipc_config \<Rightarrow> schedule \<Rightarrow> dn_schedule \<Rightarrow> ipc_state \<Rightarrow> space_id \<Rightarrow> ipc_port_t \<Rightarrow> mach_msg_type_name \<Rightarrow> mach_port_t \<Rightarrow>
     (kern_return_t \<times> schedule \<times> ipc_state) option" where
  "insert_compat cfg sched dns st sid p msgt name =
    (if sid = IS_NULL \<or> \<not> MACH_PORT_VALID name \<or> \<not> IO_VALID p then Some (KERN_INVALID_ARGUMENT, sched, st)
     else map_option (\<lambda>(kr, sched, st).
       (if kr = KERN_RIGHT_EXISTS then KERN_FAILURE else compat_code {KERN_NAME_EXISTS, KERN_RESOURCE_SHORTAGE} kr, sched, st))
       (ipc_object_copyout_name_compat cfg sched dns st sid p msgt name))"

definition port_insert_send ::
    "ipc_config \<Rightarrow> schedule \<Rightarrow> dn_schedule \<Rightarrow> ipc_state \<Rightarrow> space_id \<Rightarrow> ipc_port_t \<Rightarrow> mach_port_t \<Rightarrow> (kern_return_t \<times> schedule \<times> ipc_state) option" where
  "port_insert_send cfg sched dns st sid p name = insert_compat cfg sched dns st sid p MACH_MSG_TYPE_PORT_SEND name"

definition port_insert_receive ::
    "ipc_config \<Rightarrow> schedule \<Rightarrow> dn_schedule \<Rightarrow> ipc_state \<Rightarrow> space_id \<Rightarrow> ipc_port_t \<Rightarrow> mach_port_t \<Rightarrow> (kern_return_t \<times> schedule \<times> ipc_state) option" where
  "port_insert_receive cfg sched dns st sid p name = insert_compat cfg sched dns st sid p MACH_MSG_TYPE_PORT_RECEIVE name"

definition port_extract_send ::
    "ipc_config \<Rightarrow> ipc_state \<Rightarrow> space_id \<Rightarrow> mach_port_t \<Rightarrow> ((kern_return_t + ipc_port_t) \<times> ipc_state) option" where
  "port_extract_send cfg st sid name =
    (if sid = IS_NULL then Some (Inl KERN_INVALID_ARGUMENT, st)
     else map_option (\<lambda>(ret, st). (compat_result {} ret, st)) (ipc_object_copyin_compat cfg st sid name False True))"

definition port_extract_receive ::
    "ipc_config \<Rightarrow> ipc_state \<Rightarrow> space_id \<Rightarrow> mach_port_t \<Rightarrow> ((kern_return_t + ipc_port_t) \<times> ipc_state) option" where
  "port_extract_receive cfg st sid name =
    (if sid = IS_NULL then Some (Inl KERN_INVALID_ARGUMENT, st)
     else map_option (\<lambda>(ret, st). (compat_result {} ret, st)) (ipc_object_copyin_compat cfg st sid name True True))"

end
