(* ===== verification/Ipc_Message.thy ===== *)
theory Ipc_Message
  imports Ipc_Space
begin

text \<open>
  Sending and receiving messages, \<^verbatim>\<open>src/kernel/ipc/ipc_mqueue.c\<close>.  A thread that has to wait is put into a queue and
  blocks; the schedule says for each time it blocks what the other threads do to the state until it runs
  again, and how it was woken: its fields then, and the result of the wait.

  A message to a port of the kernel is handed to \<^verbatim>\<open>ipc_kobject_server\<close>, whose routines the interface generator
  makes; it is the argument \<open>server\<close>, and \<open>kspace\<close> is the space \<^verbatim>\<open>ipc_space_kernel\<close>.
\<close>

section \<open>Options and codes\<close>

definition MACH_MSGH_BITS_REMOTE :: "32 word \<Rightarrow> 32 word" where "MACH_MSGH_BITS_REMOTE bits = bits AND 0xff"
definition MACH_MSGH_BITS_CIRCULAR :: "32 word" where "MACH_MSGH_BITS_CIRCULAR = 0x40000000"
definition MACH_SEND_TIMEOUT :: "32 word" where "MACH_SEND_TIMEOUT = 0x10"
definition MACH_SEND_ALWAYS :: "32 word" where "MACH_SEND_ALWAYS = 0x10000"
definition MACH_RCV_TIMEOUT :: "32 word" where "MACH_RCV_TIMEOUT = 0x100"
definition MACH_MSG_IPC_KERNEL :: mach_msg_return_t where "MACH_MSG_IPC_KERNEL = 0x800"
definition MACH_SEND_IN_PROGRESS :: mach_msg_return_t where "MACH_SEND_IN_PROGRESS = 0x10000001"
definition MACH_SEND_INVALID_DEST :: mach_msg_return_t where "MACH_SEND_INVALID_DEST = 0x10000003"
definition MACH_SEND_TIMED_OUT :: mach_msg_return_t where "MACH_SEND_TIMED_OUT = 0x10000004"
definition MACH_SEND_INTERRUPTED :: mach_msg_return_t where "MACH_SEND_INTERRUPTED = 0x10000007"
definition MACH_RCV_IN_PROGRESS :: mach_msg_return_t where "MACH_RCV_IN_PROGRESS = 0x10004001"
definition MACH_RCV_INVALID_NAME :: mach_msg_return_t where "MACH_RCV_INVALID_NAME = 0x10004002"
definition MACH_RCV_TIMED_OUT :: mach_msg_return_t where "MACH_RCV_TIMED_OUT = 0x10004003"
definition MACH_RCV_INTERRUPTED :: mach_msg_return_t where "MACH_RCV_INTERRUPTED = 0x10004005"
definition MACH_RCV_IN_SET :: mach_msg_return_t where "MACH_RCV_IN_SET = 0x1000400a"

datatype wait_result = THREAD_AWAKENED | THREAD_TIMED_OUT | THREAD_INTERRUPTED | THREAD_SHOULD_TERMINATE | THREAD_RESTART

section \<open>Queues\<close>

text \<open>A message queue is that of a port or that of a port set.\<close>

datatype mqueue_ref = Port_queue ipc_port_t | Pset_queue ipc_pset_t

fun get_mqueue :: "ipc_state \<Rightarrow> mqueue_ref \<Rightarrow> ipc_mqueue" where
  "get_mqueue st (Port_queue p) = ip_messages (st_ports st p)"
| "get_mqueue st (Pset_queue ps) = ips_messages (st_psets st ps)"

fun set_mqueue :: "ipc_state \<Rightarrow> mqueue_ref \<Rightarrow> ipc_mqueue \<Rightarrow> ipc_state" where
  "set_mqueue st (Port_queue p) q = upd_port st p (\<lambda>port. port\<lparr>ip_messages := q\<rparr>)"
| "set_mqueue st (Pset_queue ps) q = set_pset st ps ((st_psets st ps)\<lparr>ips_messages := q\<rparr>)"

definition mqueue_of :: "ipc_state \<Rightarrow> ipc_port_t \<Rightarrow> mqueue_ref" where
  "mqueue_of st p = (if ip_pset (st_ports st p) = IPS_NULL then Port_queue p else Pset_queue (ip_pset (st_ports st p)))"

definition ipc_thread_rmqueue :: "ipc_thread list \<Rightarrow> ipc_thread \<Rightarrow> ipc_thread list" where
  "ipc_thread_rmqueue ths self = filter (\<lambda>th. ith_name th \<noteq> ith_name self) ths"

section \<open>Sending\<close>

text \<open>
  The message goes to the first waiting thread that can take it, or to the end of the queue.  The assertions
  that threads wait only at an empty queue and that the count of messages does not wrap around are kept: where
  one fails the result is \<open>None\<close>.  A switch to the receiving thread (\<^verbatim>\<open>MACH_SEND_SWITCH\<close>) wakes it like the others.
\<close>

definition send_deliver :: "ipc_config \<Rightarrow> ipc_state \<Rightarrow> ipc_port_t \<Rightarrow> ipc_kmsg \<Rightarrow> ipc_state option" where
  "send_deliver cfg st p kmsg =
    (let mq = mqueue_of st p; q = get_mqueue st mq;
         (taken, ths, seqno, es) = deliver cfg kmsg (imq_threads q) (ip_seqno (st_ports st p));
         q' = (if taken then q\<lparr>imq_threads := ths\<rparr> else q\<lparr>imq_threads := ths, imq_messages := imq_messages q @ [kmsg]\<rparr>)
     in if imq_threads q \<noteq> [] \<and> imq_messages q \<noteq> [] then None
        else Some (emit (set_seqno (set_mqueue st mq q') p seqno) es))"

definition send_counted :: "ipc_config \<Rightarrow> ipc_state \<Rightarrow> ipc_port_t \<Rightarrow> ipc_kmsg \<Rightarrow> ipc_state option" where
  "send_counted cfg st p kmsg =
    (let st = upd_port st p (\<lambda>port. port\<lparr>ip_msgcount := ip_msgcount port + 1\<rparr>)
     in if ip_msgcount (st_ports st p) = 0 then None else send_deliver cfg st p kmsg)"

type_synonym send_schedule = "((ipc_state \<Rightarrow> ipc_state) \<times> mach_msg_return_t \<times> wait_result) list"

text \<open>May the message go without waiting?\<close>

definition send_room :: "ipc_state \<Rightarrow> ipc_port_t \<Rightarrow> 32 word \<Rightarrow> ipc_kmsg \<Rightarrow> bool" where
  "send_room st p option kmsg \<longleftrightarrow>
    ip_msgcount (st_ports st p) < ip_qlimit (st_ports st p) \<or> option AND MACH_SEND_ALWAYS \<noteq> 0 \<or>
    MACH_MSGH_BITS_REMOTE (msgh_bits kmsg) = 18"

text \<open>The loop that waits for room: the state with room for the message or with a dead port, or the code to return.\<close>

fun send_wait ::
    "send_schedule \<Rightarrow> ipc_state \<Rightarrow> ipc_port_t \<Rightarrow> ipc_thread \<Rightarrow> 32 word \<Rightarrow> 32 word \<Rightarrow> ipc_kmsg \<Rightarrow> (mach_msg_return_t option \<times> ipc_state) option" where
  "send_wait sched st p self option timeout kmsg =
    (if \<not> ip_active (st_ports st p) \<or> send_room st p option kmsg then Some (None, st)
     else if option AND MACH_SEND_TIMEOUT \<noteq> 0 \<and> timeout = 0 then Some (Some MACH_SEND_TIMED_OUT, st)
     else case sched of
       [] \<Rightarrow> None
     | (interim, state, result) # sched \<Rightarrow>
         let st = interim (upd_port st p (\<lambda>port. port\<lparr>ip_blocked := ip_blocked port @ [self\<lparr>ith_state := MACH_SEND_IN_PROGRESS\<rparr>]\<rparr>))
         in if state = MACH_MSG_SUCCESS then send_wait sched st p self option timeout kmsg
            else if state \<noteq> MACH_SEND_IN_PROGRESS then None
            else
              let st = upd_port st p (\<lambda>port. port\<lparr>ip_blocked := ipc_thread_rmqueue (ip_blocked port) self\<rparr>)
              in (case result of
                    THREAD_INTERRUPTED \<Rightarrow> Some (Some MACH_SEND_INTERRUPTED, st)
                  | THREAD_SHOULD_TERMINATE \<Rightarrow> Some (Some MACH_SEND_INTERRUPTED, st)
                  | THREAD_TIMED_OUT \<Rightarrow>
                      if option AND MACH_SEND_TIMEOUT = 0 then None else send_wait sched st p self option 0 kmsg
                  | _ \<Rightarrow> None))"

text \<open>Sending to a port that is not the kernel's.\<close>

definition send_to_port ::
    "ipc_config \<Rightarrow> send_schedule \<Rightarrow> ipc_state \<Rightarrow> ipc_thread \<Rightarrow> ipc_kmsg \<Rightarrow> 32 word \<Rightarrow> 32 word \<Rightarrow> (mach_msg_return_t \<times> ipc_state) option" where
  "send_to_port cfg sched st self kmsg option timeout =
    do {
      let p = msgh_remote_port kmsg;
      (ret, st) \<leftarrow> send_wait sched st p self option timeout kmsg;
      case ret of
        Some mr \<Rightarrow> Some (mr, st)
      | None \<Rightarrow>
          if \<not> ip_active (st_ports st p)
          then Some (MACH_MSG_SUCCESS, emit (ipc_port_release st p) [Kmsg_destroy (kmsg\<lparr>msgh_remote_port := MACH_PORT_NULL\<rparr>)])
          else if msgh_bits kmsg AND MACH_MSGH_BITS_CIRCULAR \<noteq> 0 then Some (MACH_MSG_SUCCESS, emit st [Kmsg_destroy kmsg])
          else map_option (Pair MACH_MSG_SUCCESS) (send_counted cfg st p kmsg)
    }"

text \<open>The answer of the kernel is sent always, and could be for the kernel again: \<open>fuel\<close> bounds these answers.\<close>

fun ipc_mqueue_send ::
    "ipc_config \<Rightarrow> space_id \<Rightarrow> (ipc_kmsg \<Rightarrow> ipc_state \<Rightarrow> ipc_kmsg option \<times> ipc_state) \<Rightarrow> nat \<Rightarrow> send_schedule \<Rightarrow> ipc_state \<Rightarrow>
     ipc_thread \<Rightarrow> ipc_kmsg \<Rightarrow> 32 word \<Rightarrow> 32 word \<Rightarrow> (mach_msg_return_t \<times> ipc_state) option" where
  "ipc_mqueue_send cfg kspace server fuel sched st self kmsg option timeout =
    (if \<not> IO_VALID (msgh_remote_port kmsg) then None
     else if ip_receiver (st_ports st (msgh_remote_port kmsg)) = kspace then
       (if \<not> ip_active (st_ports st (msgh_remote_port kmsg)) then None
        else case server kmsg st of
          (None, st) \<Rightarrow> Some (MACH_MSG_SUCCESS, st)
        | (Some reply, st) \<Rightarrow>
            (case fuel of
               0 \<Rightarrow> None
             | Suc fuel \<Rightarrow> map_option (\<lambda>(mr, st). (MACH_MSG_SUCCESS, st)) (ipc_mqueue_send cfg kspace server fuel [] st self reply MACH_SEND_ALWAYS 0)))
     else send_to_port cfg sched st self kmsg option timeout)"

text \<open>
  A message from an interrupt has its own loop over the waiting threads, without the cases that only concern
  messages of the old format and complex messages.
\<close>

definition offer_interrupt :: "ipc_config \<Rightarrow> ipc_kmsg \<Rightarrow> ipc_thread \<Rightarrow> ipc_thread \<times> bool" where
  "offer_interrupt cfg kmsg th =
    (let option = ith_rcv_option th
     in if option AND MACH_RCV_OLD_FORMAT \<noteq> 0 then
          (th\<lparr>ith_state := if msgh_size kmsg > sizeof_mach_msg_header \<or> ith_msize th < sizeof_mach_msg_header
                          then MACH_RCV_HEADER_ERROR else MACH_MSG_SUCCESS\<rparr>, True)
        else if msgh_size kmsg > ith_msize th - REQUESTED_TRAILER_SIZE cfg option then
          (if option AND MACH_RCV_LARGE \<noteq> 0
           then (th\<lparr>ith_state := MACH_RCV_TOO_LARGE, ith_msize := msgh_size kmsg\<rparr>, False)
           else (th\<lparr>ith_state := MACH_RCV_TOO_LARGE\<rparr>, True))
        else (th\<lparr>ith_state := MACH_MSG_SUCCESS\<rparr>, True))"

fun interrupt_loop :: "ipc_config \<Rightarrow> ipc_port_t \<Rightarrow> ipc_kmsg \<Rightarrow> ipc_state \<Rightarrow> mqueue_ref \<Rightarrow> ipc_thread list \<Rightarrow> ipc_state option" where
  "interrupt_loop cfg p kmsg st mq [] =
    (let q = get_mqueue st mq in Some (set_mqueue st mq (q\<lparr>imq_threads := [], imq_messages := imq_messages q @ [kmsg]\<rparr>)))"
| "interrupt_loop cfg p kmsg st mq (receiver # receivers) =
    (let q = get_mqueue st mq; st = set_mqueue st mq (q\<lparr>imq_threads := receivers\<rparr>)
     in if imq_messages q \<noteq> [] then None
        else case offer_interrupt cfg kmsg receiver of
          (th, True) \<Rightarrow>
            let seqno = ip_seqno (st_ports st p)
            in Some (emit (set_seqno st p (seqno + 1)) [Thread_go (th\<lparr>ith_kmsg := Some kmsg, ith_seqno := seqno\<rparr>)])
        | (th, False) \<Rightarrow> interrupt_loop cfg p kmsg (emit st [Thread_go th]) mq receivers)"

text \<open>\<open>locked\<close> says whether the attempts to lock the port and the queue succeed.\<close>

definition ipc_mqueue_send_interrupt ::
    "ipc_config \<Rightarrow> bool \<times> bool \<Rightarrow> ipc_state \<Rightarrow> ipc_kmsg \<Rightarrow> (mach_msg_return_t \<times> ipc_state) option" where
  "ipc_mqueue_send_interrupt cfg locked st kmsg =
    (let p = msgh_remote_port kmsg
     in if \<not> fst locked then Some (MACH_MSG_IPC_KERNEL, st)
        else if \<not> ip_active (st_ports st p) then Some (MACH_SEND_INVALID_DEST, st)
        else if msgh_bits kmsg AND (MACH_MSGH_BITS_COMPLEX OR MACH_MSGH_BITS_OLD_FORMAT) \<noteq> 0 then None
        else
          let mq = mqueue_of st p
          in if \<not> snd locked then Some (MACH_MSG_IPC_KERNEL, st)
             else
               let st = upd_port st p (\<lambda>port. port\<lparr>ip_msgcount := ip_msgcount port + 1\<rparr>)
               in map_option (Pair MACH_MSG_SUCCESS) (interrupt_loop cfg p kmsg st mq (imq_threads (get_mqueue st mq))))"

section \<open>Receiving\<close>

text \<open>The queue that a name stands for.\<close>

definition ipc_mqueue_copyin ::
    "ipc_config \<Rightarrow> ipc_state \<Rightarrow> space_id \<Rightarrow> mach_port_t \<Rightarrow> (mach_msg_return_t + mqueue_ref) \<times> ipc_state" where
  "ipc_mqueue_copyin cfg st sid name =
    (case ipc_right_lookup_write st sid name of
       (Inl _, st) \<Rightarrow> (Inl MACH_RCV_INVALID_NAME, st)
     | (Inr r, st) \<Rightarrow>
         let entry = get_entry st sid r; bits = ie_bits entry; obj = ie_object entry
         in if has bits MACH_PORT_TYPE_RECEIVE then
              (let pset = ip_pset (st_ports st obj)
               in if pset \<noteq> IPS_NULL \<and> ips_active (st_psets st pset) then (Inl MACH_RCV_IN_SET, st)
                  else
                    let st = (if pset \<noteq> IPS_NULL then ips_check_unlock (ipc_pset_remove cfg st pset obj) pset else st)
                    in (Inr (Port_queue obj), ip_reference st obj))
            else if has bits MACH_PORT_TYPE_PORT_SET then
              (Inr (Pset_queue obj), set_pset st obj ((st_psets st obj)\<lparr>ips_references := ips_references (st_psets st obj) + 1\<rparr>))
            else (Inl MACH_RCV_INVALID_NAME, st))"

text \<open>
  What a receive returns: a code alone, a code with the size of the message that stays in the queue, or a code
  with the message and its sequence number.
\<close>

datatype rcv_result =
    Rcv_error mach_msg_return_t
  | Rcv_large mach_msg_return_t "32 word"
  | Rcv_message mach_msg_return_t ipc_kmsg "32 word"

type_synonym scatter_list = "mach_msg_descriptor list option"

text \<open>
  The first message is looked at: it can be taken with a code, or stays in the queue.  \<open>sl\<close> is the scatter list of
  the receiver and \<open>memory\<close> says whether there is memory for a new one.
\<close>

definition rcv_check ::
    "ipc_config \<Rightarrow> 32 word \<Rightarrow> 32 word \<Rightarrow> bool \<Rightarrow> scatter_list \<Rightarrow> ipc_kmsg \<Rightarrow> (rcv_result + mach_msg_return_t) \<times> scatter_list" where
  "rcv_check cfg option max_size memory sl kmsg =
    (let complex = (msgh_bits kmsg AND MACH_MSGH_BITS_COMPLEX \<noteq> 0); sz = msgh_size kmsg
     in if msgh_bits kmsg AND MACH_MSGH_BITS_OLD_FORMAT \<noteq> 0 then
          (if option AND MACH_RCV_OLD_FORMAT = 0 then Inr MACH_RCV_HEADER_ERROR
           else if sz > max_size then Inl (Rcv_large MACH_RCV_TOO_LARGE sz)
           else Inr MACH_MSG_SUCCESS, sl)
        else if option AND MACH_RCV_OLD_FORMAT \<noteq> 0 then
          (Inr (if complex \<or> sz > sizeof_mach_msg_header \<or> max_size < sizeof_mach_msg_header
                then MACH_RCV_HEADER_ERROR else MACH_MSG_SUCCESS), sl)
        else if sz > max_size - REQUESTED_TRAILER_SIZE cfg option then
          (if option AND MACH_RCV_LARGE \<noteq> 0 then Inl (Rcv_large MACH_RCV_TOO_LARGE sz) else Inr MACH_RCV_TOO_LARGE, sl)
        else
          (case (if complex then sl else None) of
             None \<Rightarrow> (Inr MACH_MSG_SUCCESS, sl)
           | Some l \<Rightarrow>
               (case ipc_kmsg_check_scatter kmsg option memory l of
                  (mr, l) \<Rightarrow>
                    (if mr \<noteq> MACH_MSG_SUCCESS \<and> (mr = MACH_RCV_INVALID_TYPE \<or> mr AND MACH_MSG_VM_KERNEL \<noteq> 0) then Inl (Rcv_error mr)
                     else if mr \<noteq> MACH_MSG_SUCCESS \<and> option AND MACH_RCV_LARGE \<noteq> 0 then Inl (Rcv_large mr sz)
                     else Inr mr, Some l))))"

text \<open>
  Why a blocked receive was woken: it has its answer, or it starts again with the time-out that is left.  \<open>None\<close>
  is a panic.
\<close>

definition rcv_woken ::
    "ipc_thread \<Rightarrow> wait_result \<Rightarrow> 32 word \<Rightarrow> 32 word \<Rightarrow> (rcv_result + 32 word) option" where
  "rcv_woken self result option timeout =
    (let state = ith_state self;
         handed = map_option (\<lambda>kmsg. Inl (Rcv_message state kmsg (ith_seqno self))) (ith_kmsg self)
     in if state = MACH_MSG_SUCCESS \<or> state = MACH_RCV_HEADER_ERROR then handed
        else if state = MACH_RCV_INVALID_TYPE then Some (Inl (Rcv_error state))
        else if state = MACH_RCV_TOO_LARGE \<or> state = MACH_RCV_SCATTER_SMALL then
          (if ith_rcv_option self AND (MACH_RCV_LARGE OR MACH_RCV_OLD_FORMAT) = 0 then handed
           else Some (Inl (Rcv_large state (ith_msize self))))
        else if state = MACH_RCV_PORT_DIED \<or> state = MACH_RCV_PORT_CHANGED then Some (Inl (Rcv_error state))
        else if state = MACH_RCV_IN_PROGRESS then
          (case result of
             THREAD_INTERRUPTED \<Rightarrow> Some (Inl (Rcv_error MACH_RCV_INTERRUPTED))
           | THREAD_SHOULD_TERMINATE \<Rightarrow> Some (Inl (Rcv_error MACH_RCV_INTERRUPTED))
           | THREAD_TIMED_OUT \<Rightarrow> if option AND MACH_RCV_TIMEOUT = 0 then None else Some (Inr 0)
           | _ \<Rightarrow> None)
        else None)"

type_synonym rcv_schedule = "((ipc_state \<Rightarrow> ipc_state) \<times> ipc_thread \<times> wait_result) list"

text \<open>A thread that was not woken by a sender takes itself off the queue.\<close>

definition rcv_leave :: "ipc_state \<Rightarrow> mqueue_ref \<Rightarrow> ipc_thread \<Rightarrow> ipc_state" where
  "rcv_leave st mq self =
    (if ith_state self = MACH_RCV_IN_PROGRESS
     then set_mqueue st mq ((get_mqueue st mq)\<lparr>imq_threads := ipc_thread_rmqueue (imq_threads (get_mqueue st mq)) self\<rparr>) else st)"

text \<open>
  The first message is taken or looked at, or the thread blocks.  The scatter list is only read back from the
  thread when there is one.
\<close>

fun rcv_loop ::
    "ipc_config \<Rightarrow> rcv_schedule \<Rightarrow> ipc_state \<Rightarrow> mqueue_ref \<Rightarrow> ipc_thread \<Rightarrow> 32 word \<Rightarrow> 32 word \<Rightarrow> 32 word \<Rightarrow> scatter_list option \<Rightarrow>
     (rcv_result \<times> scatter_list option \<times> ipc_state) option" where
  "rcv_loop cfg sched st mq self option max_size timeout list =
    (case imq_messages (get_mqueue st mq) of
       kmsg # kmsgs \<Rightarrow>
         (case rcv_check cfg option max_size (ith_memory self) (Option.bind list id) kmsg of
            (ret, sl) \<Rightarrow>
              (case ret of
                 Inl res \<Rightarrow> Some (res, map_option (\<lambda>_. sl) list, st)
               | Inr mr \<Rightarrow>
                   let p = msgh_remote_port kmsg; st = set_mqueue st mq ((get_mqueue st mq)\<lparr>imq_messages := kmsgs\<rparr>);
                       seqno = ip_seqno (st_ports st p)
                   in Some (Rcv_message mr kmsg seqno, map_option (\<lambda>_. sl) list, set_seqno st p (seqno + 1))))
     | [] \<Rightarrow>
         if option AND MACH_RCV_TIMEOUT \<noteq> 0 \<and> timeout = 0 then Some (Rcv_error MACH_RCV_TIMED_OUT, list, st)
         else case sched of
           [] \<Rightarrow> None
         | (interim, woken, result) # sched \<Rightarrow>
             let self = self\<lparr>ith_state := MACH_RCV_IN_PROGRESS, ith_msize := max_size, ith_rcv_option := option, ith_list := Option.bind list id\<rparr>;
                 q = get_mqueue st mq;
                 st = rcv_leave (interim (set_mqueue st mq (q\<lparr>imq_threads := imq_threads q @ [self]\<rparr>))) mq woken;
                 list = map_option (\<lambda>_. ith_list woken) list
             in (case rcv_woken woken result option timeout of
                   None \<Rightarrow> None
                 | Some (Inl res) \<Rightarrow> Some (res, list, st)
                 | Some (Inr timeout) \<Rightarrow> rcv_loop cfg sched st mq woken option max_size timeout list))"

text \<open>A message of the port is no longer counted, and a sender that waits for room may go on.\<close>

definition rcv_uncount :: "ipc_state \<Rightarrow> ipc_port_t \<Rightarrow> ipc_state option" where
  "rcv_uncount st p =
    (let port = st_ports st p
     in if \<not> ip_active port then Some st
        else if ip_msgcount port = 0 then None
        else
          let port = port\<lparr>ip_msgcount := ip_msgcount port - 1\<rparr>
          in case ip_blocked port of
               sender # senders \<Rightarrow>
                 if ip_msgcount port < ip_qlimit port
                 then Some (emit (set_port st p (port\<lparr>ip_blocked := senders\<rparr>)) [Thread_go (sender\<lparr>ith_state := MACH_MSG_SUCCESS\<rparr>)])
                 else Some (set_port st p port)
             | [] \<Rightarrow> Some (set_port st p port))"

text \<open>The message has left the queue: its msg-accepted request is answered, and it is no longer counted.\<close>

definition rcv_finish :: "ipc_state \<Rightarrow> ipc_kmsg \<Rightarrow> (ipc_kmsg \<times> ipc_state) option" where
  "rcv_finish st kmsg =
    do {
      st \<leftarrow> (if ikm_marequest kmsg \<noteq> 0 then ipc_marequest_destroy st (ikm_marequest kmsg) else Some st);
      if msgh_bits kmsg AND MACH_MSGH_BITS_CIRCULAR \<noteq> 0 then None
      else map_option (Pair (kmsg\<lparr>ikm_marequest := 0\<rparr>)) (rcv_uncount st (msgh_remote_port kmsg))
    }"

text \<open>\<open>resume\<close> is the thread with the result of its wait when a blocked receive is resumed, \<open>None\<close> for a new one.\<close>

definition ipc_mqueue_receive ::
    "ipc_config \<Rightarrow> rcv_schedule \<Rightarrow> ipc_state \<Rightarrow> mqueue_ref \<Rightarrow> ipc_thread \<Rightarrow> 32 word \<Rightarrow> 32 word \<Rightarrow> 32 word \<Rightarrow> wait_result option \<Rightarrow>
     scatter_list option \<Rightarrow> (rcv_result \<times> scatter_list option \<times> ipc_state) option" where
  "ipc_mqueue_receive cfg sched st mq self option max_size timeout resume list =
    do {
      (res, list, st) \<leftarrow>
        (case resume of
           None \<Rightarrow> rcv_loop cfg sched st mq self option max_size timeout list
         | Some result \<Rightarrow>
             let list = map_option (\<lambda>_. ith_list self) list; st = rcv_leave st mq self
             in (case rcv_woken self result option timeout of
                   None \<Rightarrow> None
                 | Some (Inl res) \<Rightarrow> Some (res, list, st)
                 | Some (Inr timeout) \<Rightarrow> rcv_loop cfg sched st mq self option max_size timeout list));
      case res of
        Rcv_message mr kmsg seqno \<Rightarrow> map_option (\<lambda>(kmsg, st). (Rcv_message mr kmsg seqno, list, st)) (rcv_finish st kmsg)
      | _ \<Rightarrow> Some (res, list, st)
    }"

end
