(* ===== verification/Message_Queues.thy ===== *)
theory Message_Queues
  imports Ipc_Message Port_Laws "HOL-Library.Multiset"
begin

text \<open>
  What sending and receiving do to the queues.  A message is \<^emph>\<open>pending\<close> for its port when it waits in the queue
  of the port, or has been handed to a thread that has not finished its receive; the count of messages of a live
  port is the number of its pending messages.
\<close>

section \<open>Reading a queue\<close>

named_theorems mq_simps \<open>a state in which the queue of an object was set\<close>

definition is_queue :: "mqueue_ref \<Rightarrow> bool" where
  "is_queue mq \<longleftrightarrow> mq \<noteq> Pset_queue IPS_NULL"

lemma get_set_mqueue [mq_simps]: "get_mqueue (set_mqueue st mq q) mq' = (if mq' = mq then q else get_mqueue st mq')"
  by (cases mq; cases mq') (auto simp: upd_port_def state_simps)

lemma get_other [mq_simps]:
  "get_mqueue (emit st es) mq = get_mqueue st mq"
  "get_mqueue (set_seqno st p seqno) mq = get_mqueue st mq"
  by (cases mq; simp add: set_seqno_def state_simps)+

lemma ports_set_mqueue [mq_simps]:
  "ip_pset (st_ports (set_mqueue st mq q) p) = ip_pset (st_ports st p)"
  "ip_bits (st_ports (set_mqueue st mq q) p) = ip_bits (st_ports st p)"
  "ip_msgcount (st_ports (set_mqueue st mq q) p) = ip_msgcount (st_ports st p)"
  "ip_seqno (st_ports (set_mqueue st mq q) p) = ip_seqno (st_ports st p)"
  "ip_qlimit (st_ports (set_mqueue st mq q) p) = ip_qlimit (st_ports st p)"
  "ip_blocked (st_ports (set_mqueue st mq q) p) = ip_blocked (st_ports st p)"
  "st_events (set_mqueue st mq q) = st_events st"
  by (cases mq; simp add: upd_port_def state_simps)+

lemma ports_set_seqno [mq_simps]:
  "ip_pset (st_ports (set_seqno st p seqno) x) = ip_pset (st_ports st x)"
  "ip_bits (st_ports (set_seqno st p seqno) x) = ip_bits (st_ports st x)"
  "ip_msgcount (st_ports (set_seqno st p seqno) x) = ip_msgcount (st_ports st x)"
  "st_events (set_seqno st p seqno) = st_events st"
  by (simp_all add: set_seqno_def state_simps)

lemma ports_emit [mq_simps]: "st_ports (emit st es) = st_ports st" "st_psets (emit st es) = st_psets st"
  "st_events (emit st es) = st_events st @ es"
  by (simp_all add: state_simps)

lemma mqueue_of_port [simp]: "mqueue_of st p = Port_queue q \<longleftrightarrow> q = p \<and> ip_pset (st_ports st p) = IPS_NULL"
  by (auto simp: mqueue_of_def)

lemma mqueue_of_pset [simp]: "mqueue_of st p = Pset_queue ps \<longleftrightarrow> ip_pset (st_ports st p) = ps \<and> ps \<noteq> IPS_NULL"
  by (auto simp: mqueue_of_def)

lemma mqueue_of_queue [simp]: "is_queue (mqueue_of st p)"
  by (simp add: is_queue_def mqueue_of_def)

lemma queued_mqueue: "queued st p = filter (\<lambda>k. msgh_remote_port k = p) (imq_messages (get_mqueue st (mqueue_of st p)))"
  by (simp add: queued_def port_queue_def mqueue_of_def)

text \<open>The queues are in order iff each of them is, and has messages for ports of this queue only.\<close>

lemma queues_ok_iff:
  "queues_ok st \<longleftrightarrow> (\<forall>mq. is_queue mq \<longrightarrow> mqueue_ok (get_mqueue st mq) \<and>
    (\<forall>k \<in> set (imq_messages (get_mqueue st mq)). mqueue_of st (msgh_remote_port k) = mq))" (is "_ \<longleftrightarrow> ?R")
proof
  assume ok: "queues_ok st"
  show ?R
  proof (intro allI impI)
    fix mq assume "is_queue mq"
    with ok show "mqueue_ok (get_mqueue st mq) \<and> (\<forall>k \<in> set (imq_messages (get_mqueue st mq)). mqueue_of st (msgh_remote_port k) = mq)"
      by (cases mq) (auto simp: queues_ok_def is_queue_def)
  qed
next
  assume r: ?R
  show "queues_ok st"
    unfolding queues_ok_def
  proof (intro conjI allI impI ballI)
    fix p k
    show "mqueue_ok (ip_messages (st_ports st p))" using r [rule_format, of "Port_queue p"] by (simp add: is_queue_def)
    assume "k \<in> set (imq_messages (ip_messages (st_ports st p)))"
    then show "msgh_remote_port k = p" "ip_pset (st_ports st p) = IPS_NULL"
      using r [rule_format, of "Port_queue p"] by (auto simp: is_queue_def)
  next
    fix ps k assume ps: "ps \<noteq> IPS_NULL"
    then show "mqueue_ok (ips_messages (st_psets st ps))" using r [rule_format, of "Pset_queue ps"] by (simp add: is_queue_def)
    assume "k \<in> set (imq_messages (ips_messages (st_psets st ps)))"
    then show "ip_pset (st_ports st (msgh_remote_port k)) = ps"
      using r [rule_format, of "Pset_queue ps"] ps by (simp add: is_queue_def)
  qed
qed

section \<open>Pending messages\<close>

definition in_flight :: "ipc_state \<Rightarrow> ipc_kmsg list \<Rightarrow> ipc_port_t \<Rightarrow> ipc_kmsg multiset" where
  "in_flight st handed p = mset (filter (\<lambda>k. msgh_remote_port k = p) handed) + mset (queued st p)"

text \<open>Two states with the same queues, and with the same ports as far as messages are counted.\<close>

definition same_queues :: "ipc_state \<Rightarrow> ipc_state \<Rightarrow> bool" where
  "same_queues st st' \<longleftrightarrow> (\<forall>mq. get_mqueue st' mq = get_mqueue st mq) \<and> (\<forall>p. ip_pset (st_ports st' p) = ip_pset (st_ports st p))"

definition same_counts :: "ipc_state \<Rightarrow> ipc_state \<Rightarrow> bool" where
  "same_counts st st' \<longleftrightarrow>
    (\<forall>p. ip_bits (st_ports st' p) = ip_bits (st_ports st p) \<and> ip_msgcount (st_ports st' p) = ip_msgcount (st_ports st p))"

lemma same_queues_trans: "same_queues st st1 \<Longrightarrow> same_queues st1 st2 \<Longrightarrow> same_queues st st2"
  by (simp add: same_queues_def)

lemma same_counts_trans: "same_counts st st1 \<Longrightarrow> same_counts st1 st2 \<Longrightarrow> same_counts st st2"
  by (simp add: same_counts_def)

lemma same_queues_of:
  assumes "same_queues st st'"
  shows "mqueue_of st' = mqueue_of st" "queued st' = queued st" "queues_ok st' = queues_ok st" "in_flight st' handed = in_flight st handed"
proof -
  show m: "mqueue_of st' = mqueue_of st" using assms by (simp add: same_queues_def mqueue_of_def fun_eq_iff)
  then show q: "queued st' = queued st" "queues_ok st' = queues_ok st"
    using assms by (simp_all add: queued_mqueue queues_ok_iff same_queues_def fun_eq_iff)
  then show "in_flight st' handed = in_flight st handed" by (simp add: in_flight_def fun_eq_iff)
qed

lemma same_queues_upd_port:
  assumes "ip_messages (f (st_ports st p)) = ip_messages (st_ports st p)" and "ip_pset (f (st_ports st p)) = ip_pset (st_ports st p)"
  shows "same_queues st (upd_port st p f)"
  unfolding same_queues_def
proof (intro conjI allI)
  fix mq show "get_mqueue (upd_port st p f) mq = get_mqueue st mq"
    using assms by (cases mq) (simp_all add: upd_port_def state_simps)
qed (use assms in \<open>simp add: upd_port_def state_simps\<close>)

lemma same_emit [simp]: "same_queues st (emit st es)" "same_counts st (emit st es)"
  by (simp_all add: same_queues_def same_counts_def mq_simps)

lemma same_seqno [simp]: "same_queues st (set_seqno st p seqno)" "same_counts st (set_seqno st p seqno)"
  by (simp_all add: same_queues_def same_counts_def mq_simps)

lemma set_mqueue_queues:
  assumes ok: "queues_ok st" and mq: "is_queue mq" and q: "mqueue_ok q"
    and mem: "\<forall>k \<in> set (imq_messages q). mqueue_of st (msgh_remote_port k) = mq"
  shows "queues_ok (set_mqueue st mq q)"
    and "queued (set_mqueue st mq q) p =
      (if mqueue_of st p = mq then filter (\<lambda>k. msgh_remote_port k = p) (imq_messages q) else queued st p)"
    and "same_counts st (set_mqueue st mq q)"
proof -
  have m: "mqueue_of (set_mqueue st mq q) p = mqueue_of st p" for p by (simp add: mqueue_of_def mq_simps)
  show "queues_ok (set_mqueue st mq q)"
    unfolding queues_ok_iff using ok [unfolded queues_ok_iff] q mem by (auto simp: m mq_simps)
  show "queued (set_mqueue st mq q) p = (if mqueue_of st p = mq then filter (\<lambda>k. msgh_remote_port k = p) (imq_messages q) else queued st p)"
    by (simp add: queued_mqueue m mq_simps)
  show "same_counts st (set_mqueue st mq q)" by (simp add: same_counts_def mq_simps)
qed

section \<open>One message\<close>

text \<open>A message that is sent becomes one more pending message of its port.\<close>

lemma send_deliver_pending:
  assumes ok: "queues_ok st" and p: "msgh_remote_port kmsg = p"
  obtains st' es where "send_deliver cfg st p kmsg = Some st'" "st_events st' = st_events st @ es" "queues_ok st'" "same_counts st st'"
    "\<And>handed. in_flight st' (handed @ taken_messages es) = (in_flight st handed)(p := add_mset kmsg (in_flight st handed p))"
proof -
  let ?mq = "mqueue_of st p" let ?q = "get_mqueue st ?mq"
  obtain taken ths seqno es where d: "deliver cfg kmsg (imq_threads ?q) (ip_seqno (st_ports st p)) = (taken, ths, seqno, es)"
    by (metis prod_cases4)
  let ?q' = "if taken then ?q\<lparr>imq_threads := ths\<rparr> else ?q\<lparr>imq_threads := ths, imq_messages := imq_messages ?q @ [kmsg]\<rparr>"
  let ?st1 = "set_mqueue st ?mq ?q'" let ?st = "emit (set_seqno ?st1 p seqno) es"
  have q: "mqueue_ok ?q" "\<forall>k \<in> set (imq_messages ?q). mqueue_of st (msgh_remote_port k) = ?mq"
    using ok [unfolded queues_ok_iff] mqueue_of_queue by metis+
  have ds: "taken_messages es = (if taken then [kmsg] else [])" "list_all (\<lambda>th. ith_kmsg th = None) ths" "\<not> taken \<Longrightarrow> ths = []"
    using deliver_spec [OF d] q(1) by (auto simp: mqueue_ok_def)
  have e: "taken \<Longrightarrow> imq_messages ?q = []" using d q(1) by (auto simp: mqueue_ok_def)
  have "mqueue_ok ?q'" using ds(2,3) e by (simp add: mqueue_ok_def)
  moreover have "\<forall>k \<in> set (imq_messages ?q'). mqueue_of st (msgh_remote_port k) = ?mq" using q(2) p by simp
  ultimately have s: "queues_ok ?st1" "same_counts st ?st1"
    "\<And>x. queued ?st1 x = (if mqueue_of st x = ?mq then filter (\<lambda>k. msgh_remote_port k = x) (imq_messages ?q') else queued st x)"
    using set_mqueue_queues [of st ?mq ?q', OF ok mqueue_of_queue] by auto
  have same: "same_queues ?st1 ?st" by (rule same_queues_trans [OF same_seqno(1) same_emit(1)])
  show ?thesis
  proof (rule that)
    show "send_deliver cfg st p kmsg = Some ?st"
      using q(1) by (auto simp: send_deliver_def Let_def d mqueue_ok_def)
    show "st_events ?st = st_events st @ es" by (simp add: mq_simps)
    show "queues_ok ?st" using s(1) same_queues_of(3) [OF same] by simp
    show "same_counts st ?st" by (rule same_counts_trans [OF s(2) same_counts_trans [OF same_seqno(2) same_emit(2)]])
    fix handed
    have "in_flight ?st (handed @ taken_messages es) x = ((in_flight st handed)(p := add_mset kmsg (in_flight st handed p))) x" for x
      using ds(1) p unfolding same_queues_of(4) [OF same] by (auto simp: in_flight_def s(3) queued_mqueue [of st])
    then show "in_flight ?st (handed @ taken_messages es) = (in_flight st handed)(p := add_mset kmsg (in_flight st handed p))" by auto
  qed
qed

text \<open>The loop for messages from interrupts does what the loop for all messages does.\<close>

definition simple_message :: "ipc_kmsg \<Rightarrow> bool" where
  "simple_message kmsg \<longleftrightarrow> msgh_bits kmsg AND (MACH_MSGH_BITS_COMPLEX OR MACH_MSGH_BITS_OLD_FORMAT) = 0"

lemma simple_message_bits:
  "simple_message kmsg \<longleftrightarrow> msgh_bits kmsg AND MACH_MSGH_BITS_COMPLEX = 0 \<and> msgh_bits kmsg AND MACH_MSGH_BITS_OLD_FORMAT = 0"
  by (auto simp: simple_message_def bit_eq_iff bit_simps)

lemma offer_interrupt: "simple_message kmsg \<Longrightarrow> offer_interrupt cfg kmsg th = offer cfg kmsg th"
  by (simp add: simple_message_bits offer_interrupt_def offer_def offer_new_def Let_def)

lemma set_mqueue_twice [mq_simps]: "set_mqueue (set_mqueue st mq q) mq q' = set_mqueue st mq q'"
  by (cases mq) (simp_all add: upd_port_def state_simps)

lemma set_mqueue_emit [mq_simps]: "set_mqueue (emit st es) mq q = emit (set_mqueue st mq q) es"
  by (cases mq) (simp_all add: upd_port_def state_simps)

lemma set_seqno_emit [mq_simps]: "set_seqno (emit st es) p seqno = emit (set_seqno st p seqno) es"
  by (simp add: set_seqno_def state_simps)

lemma emit_emit [mq_simps]: "emit (emit st es) es' = emit st (es @ es')" "emit st [] = st"
  by (simp_all add: state_simps)

lemma set_seqno_same [mq_simps]: "set_seqno st p (ip_seqno (st_ports st p)) = st"
  by (simp add: set_seqno_def state_simps)

lemma set_seqno_mqueue [mq_simps]: "set_seqno (set_mqueue st mq q) p (ip_seqno (st_ports st p)) = set_mqueue st mq q"
  using set_seqno_same [of "set_mqueue st mq q" p] by (simp add: mq_simps)

lemma interrupt_loop_deliver:
  assumes "simple_message kmsg" and "imq_threads (get_mqueue st mq) = ths"
    and "deliver cfg kmsg ths (ip_seqno (st_ports st p)) = (got, ths', seqno, es)"
  shows "interrupt_loop cfg p kmsg st mq ths =
    (let q = get_mqueue st mq;
         q' = (if got then q\<lparr>imq_threads := ths'\<rparr> else q\<lparr>imq_threads := ths', imq_messages := imq_messages q @ [kmsg]\<rparr>)
     in if ths \<noteq> [] \<and> imq_messages q \<noteq> [] then None else Some (emit (set_seqno (set_mqueue st mq q') p seqno) es))"
  using assms(2,3)
proof (induction ths arbitrary: st es)
  case Nil
  then show ?case by (auto simp: Let_def mq_simps)
next
  case (Cons th ths)
  let ?q = "get_mqueue st mq"
  obtain th' ok where o: "offer cfg kmsg th = (th', ok)" by fastforce
  show ?case
  proof (cases "imq_messages ?q \<noteq> []")
    case True
    then show ?thesis by (simp add: Let_def)
  next
    case False
    note empty = this
    show ?thesis
    proof (cases ok)
      case True
      with Cons.prems o empty show ?thesis by (simp add: Let_def offer_interrupt [OF assms(1)] mq_simps)
    next
      case False
      let ?st = "emit (set_mqueue st mq (?q\<lparr>imq_threads := ths\<rparr>)) [Thread_go th']"
      obtain es' where d: "deliver cfg kmsg ths (ip_seqno (st_ports st p)) = (got, ths', seqno, es')" "es = Thread_go th' # es'"
        using Cons.prems(2) o False by (auto simp: Let_def split: prod.splits)
      have "interrupt_loop cfg p kmsg ?st mq ths = Some (emit (set_seqno (set_mqueue ?st mq
          (let q = get_mqueue ?st mq in if got then q\<lparr>imq_threads := ths'\<rparr> else q\<lparr>imq_threads := ths', imq_messages := imq_messages q @ [kmsg]\<rparr>))
          p seqno) es')"
        using Cons.IH [of ?st es'] d(1) empty by (simp add: mq_simps Let_def)
      then show ?thesis using o False d(2) empty by (simp add: Let_def offer_interrupt [OF assms(1)] mq_simps)
    qed
  qed
qed

lemma interrupt_send_deliver:
  assumes "simple_message kmsg"
  shows "interrupt_loop cfg p kmsg st (mqueue_of st p) (imq_threads (get_mqueue st (mqueue_of st p))) = send_deliver cfg st p kmsg"
proof -
  let ?q = "get_mqueue st (mqueue_of st p)"
  obtain got ths seqno es where d: "deliver cfg kmsg (imq_threads ?q) (ip_seqno (st_ports st p)) = (got, ths, seqno, es)"
    by (metis prod_cases4)
  from interrupt_loop_deliver [OF assms refl d] show ?thesis by (simp add: send_deliver_def Let_def d)
qed

text \<open>A message that is taken from a queue stays pending until the receive is finished.\<close>

lemma rcv_check_no_message: "rcv_check cfg option max_size memory sl kmsg \<noteq> (Inl (Rcv_message mr k seqno), sl')"
  by (auto simp: rcv_check_def Let_def split: if_splits option.splits prod.splits)

lemma rcv_loop_pending:
  assumes ok: "queues_ok st" and mq: "is_queue mq"
    and run: "rcv_loop cfg [] st mq self option max_size timeout list = Some (res, list', st')"
  shows "case res of
      Rcv_message mr k seqno \<Rightarrow> queues_ok st' \<and> same_counts st st' \<and> st_events st' = st_events st \<and>
        (\<forall>handed. in_flight st' (handed @ [k]) = in_flight st handed)
    | _ \<Rightarrow> st' = st"
proof (cases res)
  case (Rcv_message mr k seqno)
  let ?q = "get_mqueue st mq"
  obtain ks where q: "imq_messages ?q = k # ks"
    and st': "st' = set_seqno (set_mqueue st mq (?q\<lparr>imq_messages := ks\<rparr>)) (msgh_remote_port k) (ip_seqno (st_ports st (msgh_remote_port k)) + 1)"
    using run Rcv_message
    by (subst (asm) rcv_loop.simps) (auto split: list.splits if_splits prod.splits sum.splits simp: Let_def mq_simps rcv_check_no_message)
  have okq: "mqueue_ok ?q" "\<forall>x \<in> set (imq_messages ?q). mqueue_of st (msgh_remote_port x) = mq"
    using ok [unfolded queues_ok_iff] mq by metis+
  let ?st = "set_mqueue st mq (?q\<lparr>imq_messages := ks\<rparr>)"
  have "mqueue_ok (?q\<lparr>imq_messages := ks\<rparr>)" "\<forall>x \<in> set (imq_messages (?q\<lparr>imq_messages := ks\<rparr>)). mqueue_of st (msgh_remote_port x) = mq"
    using okq q by (auto simp: mqueue_ok_def)
  note s = set_mqueue_queues [OF ok mq this]
  have sq: "same_queues ?st st'" "same_counts ?st st'" unfolding st' by simp_all
  have "in_flight st' (handed @ [k]) x = in_flight st handed x" for handed x
    using okq(2) q unfolding same_queues_of(4) [OF sq(1)] by (auto simp: in_flight_def s(2) queued_mqueue [of st])
  then show ?thesis
    using s(1) same_queues_of(3) [OF sq(1)] same_counts_trans [OF s(3) sq(2)] Rcv_message by (auto simp: st' mq_simps)
qed (use run in \<open>subst (asm) rcv_loop.simps, auto split: list.splits if_splits prod.splits sum.splits simp: Let_def\<close>)+

text \<open>Answering a msg-accepted request changes no queue and no count.\<close>

lemma same_queuesI:
  assumes "\<And>p. ip_messages (st_ports st' p) = ip_messages (st_ports st p)" and "\<And>p. ip_pset (st_ports st' p) = ip_pset (st_ports st p)"
    and "st_psets st' = st_psets st"
  shows "same_queues st st'"
  unfolding same_queues_def
proof (intro conjI allI)
  fix mq show "get_mqueue st' mq = get_mqueue st mq" using assms by (cases mq) simp_all
qed (simp add: assms)

lemma make_notify_same: "ipc_space_make_notify st sid = Some (n, st') \<Longrightarrow> same_queues st st' \<and> same_counts st st'"
  unfolding ipc_space_make_notify_def ipc_port_copy_send_def same_counts_def
  by (intro conjI same_queuesI) (auto simp: Let_def state_simps split: if_splits)

lemma same_spaces [simp]:
  "same_queues st (set_space st sid space)" "same_counts st (set_space st sid space)"
  "same_queues st (upd_entry st sid r f)" "same_counts st (upd_entry st sid r f)"
  "same_queues st (st\<lparr>st_marequests := m\<rparr>)" "same_counts st (st\<lparr>st_marequests := m\<rparr>)"
  "same_queues st (is_release st sid)" "same_counts st (is_release st sid)"
  unfolding same_counts_def by (auto simp: state_simps upd_entry_def is_release_def Let_def intro!: same_queuesI)

lemma same_refl [simp]: "same_queues st st" "same_counts st st"
  by (simp_all add: same_queues_def same_counts_def)

lemma imar_settle_same:
  assumes "imar_settle st sid name soright = Some (n, st')"
  shows "same_queues st st' \<and> same_counts st st'"
proof -
  obtain r space f where "ipc_space_make_notify (upd_entry (set_space st sid space) sid r f) sid = Some (n, st') \<or>
      st' = upd_entry (set_space st sid space) sid r f"
    using assms by (fastforce simp: imar_settle_def Let_def split: prod.splits option.splits if_splits)
  moreover have "same_queues st (upd_entry (set_space st sid space) sid r f)" "same_counts st (upd_entry (set_space st sid space) sid r f)"
    using same_queues_trans [OF same_spaces(1,3)] same_counts_trans [OF same_spaces(2,4)] by auto
  ultimately show ?thesis using make_notify_same [of _ sid n st'] same_queues_trans same_counts_trans by metis
qed

lemma marequest_destroy_same:
  assumes "ipc_marequest_destroy st a = Some st'"
  shows "same_queues st st' \<and> same_counts st st'"
proof -
  let ?req = "imar_at (st_marequests st) a"
  let ?sid = "imar_space ?req" and ?name = "imar_name ?req"
  let ?mid = "if ?name \<noteq> MACH_PORT_NULL then do {
           (this, m) \<leftarrow> imar_unlink (st_marequests st) ?sid ?name;
           if this \<noteq> a then None
           else if is_active (st_spaces st ?sid) then imar_settle (st\<lparr>st_marequests := m\<rparr>) ?sid ?name (imar_soright ?req)
           else Some (IP_NULL, st\<lparr>st_marequests := m\<rparr>)
         } else Some (IP_NULL, st)"
  obtain sright st1 where mid: "?mid = Some (sright, st1)"
    using assms unfolding ipc_marequest_destroy_def Let_def by (cases ?mid) auto
  obtain es where st': "st' = emit (is_release st1 ?sid) es"
    using assms unfolding ipc_marequest_destroy_def Let_def mid by (auto simp: mq_simps split: if_splits)
  have st1: "same_queues st st1 \<and> same_counts st st1"
  proof -
    consider "st1 = st" | m where "st1 = st\<lparr>st_marequests := m\<rparr>"
      | m where "imar_settle (st\<lparr>st_marequests := m\<rparr>) ?sid ?name (imar_soright ?req) = Some (sright, st1)"
      using mid by (auto simp: bind_eq_Some_conv split: prod.splits if_splits)
    then show ?thesis
    proof cases
      case 3
      from imar_settle_same [OF this] show ?thesis
        using same_queues_trans [OF same_spaces(5)] same_counts_trans [OF same_spaces(6)] by blast
    qed simp_all
  qed
  from st' show ?thesis
    using same_queues_trans [OF same_queues_trans [OF conjunct1 [OF st1] same_spaces(7)] same_emit(1)]
      same_counts_trans [OF same_counts_trans [OF conjunct2 [OF st1] same_spaces(8)] same_emit(2)] by simp
qed

section \<open>The count of messages\<close>

text \<open>
  The invariant: the queues are in order, the count of messages of a live port is the number of its pending
  messages, and no message that would close a circle of ports is pending.
\<close>

definition counted :: "ipc_state \<Rightarrow> ipc_kmsg list \<Rightarrow> bool" where
  "counted st handed \<longleftrightarrow> queues_ok st \<and>
    (\<forall>p. ip_active (st_ports st p) \<longrightarrow> unat (ip_msgcount (st_ports st p)) = size (in_flight st handed p)) \<and>
    (\<forall>p. \<forall>k \<in># in_flight st handed p. msgh_bits k AND MACH_MSGH_BITS_CIRCULAR = 0)"

lemma counted_moved:
  assumes "counted st handed" and "queues_ok st'" and "same_counts st st'" and "in_flight st' handed' = in_flight st handed"
  shows "counted st' handed'"
  using assms by (simp add: counted_def same_counts_def)

lemma counted_same: "counted st handed \<Longrightarrow> same_queues st st' \<Longrightarrow> same_counts st st' \<Longrightarrow> counted st' handed"
  using counted_moved [of st handed st' handed] by (simp add: same_queues_of counted_def)

abbreviation one_more :: "ipc_state \<Rightarrow> ipc_port_t \<Rightarrow> ipc_state" where
  "one_more st p \<equiv> upd_port st p (\<lambda>port. port\<lparr>ip_msgcount := ip_msgcount port + 1\<rparr>)"

lemma one_more_same: "same_queues st (one_more st p)"
  by (rule same_queues_upd_port) simp_all

lemma counted_deliver:
  assumes c: "counted st handed" and p: "msgh_remote_port kmsg = p" and bits: "msgh_bits kmsg AND MACH_MSGH_BITS_CIRCULAR = 0"
    and room: "ip_msgcount (st_ports st p) \<noteq> - 1"
  obtains st' es where "send_deliver cfg (one_more st p) p kmsg = Some st'" "st_events st' = st_events st @ es"
    "counted st' (handed @ taken_messages es)"
proof -
  have ok: "queues_ok (one_more st p)" using c same_queues_of(3) [OF one_more_same] by (simp add: counted_def)
  obtain st' es where r: "send_deliver cfg (one_more st p) p kmsg = Some st'" "st_events st' = st_events (one_more st p) @ es" "queues_ok st'"
    "same_counts (one_more st p) st'"
    "\<And>handed. in_flight st' (handed @ taken_messages es) = (in_flight (one_more st p) handed)(p := add_mset kmsg (in_flight (one_more st p) handed p))"
    by (rule send_deliver_pending [OF ok p, of cfg]) blast
  have pend: "in_flight st' (handed @ taken_messages es) = (in_flight st handed)(p := add_mset kmsg (in_flight st handed p))"
    using r(5) same_queues_of(4) [OF one_more_same] by simp
  have "unat (ip_msgcount (st_ports st p) + 1) = Suc (unat (ip_msgcount (st_ports st p)))"
    using room by (metis add.commute add_eq_0_iff2 minus_equation_iff unatSuc)
  then have "unat (ip_msgcount (st_ports st' x)) = size (in_flight st' (handed @ taken_messages es) x)" if "ip_active (st_ports st' x)" for x
    using r(4) c that unfolding pend by (auto simp: same_counts_def counted_def upd_port_def state_simps split: if_splits)
  then have "counted st' (handed @ taken_messages es)"
    using r(3) c bits unfolding counted_def pend by auto
  then show thesis using that r(1,2) by (simp add: upd_port_def state_simps)
qed

text \<open>When a receive is finished its message is no longer pending.\<close>

lemma rcv_uncount_spec:
  assumes "rcv_uncount st p = Some st'"
  shows "same_queues st st' \<and> (\<forall>x. ip_bits (st_ports st' x) = ip_bits (st_ports st x)) \<and>
    (\<forall>x. ip_msgcount (st_ports st' x) = ip_msgcount (st_ports st x) - (if x = p \<and> ip_active (st_ports st p) then 1 else 0)) \<and>
    (ip_active (st_ports st p) \<longrightarrow> ip_msgcount (st_ports st p) \<noteq> 0)"
  using assms
  by (auto simp: rcv_uncount_def Let_def state_simps split: if_splits list.splits intro!: same_queuesI)

lemma rcv_uncount_live: "ip_active (st_ports st p) \<Longrightarrow> ip_msgcount (st_ports st p) \<noteq> 0 \<Longrightarrow> rcv_uncount st p \<noteq> None"
  by (simp add: rcv_uncount_def Let_def split: list.splits)

lemma in_flight_remove1:
  assumes "kmsg \<in> set handed"
  shows "in_flight st handed = (in_flight st (remove1 kmsg handed))(msgh_remote_port kmsg := add_mset kmsg (in_flight st (remove1 kmsg handed) (msgh_remote_port kmsg)))"
proof -
  have split: "mset handed = add_mset kmsg (mset (remove1 kmsg handed))" using assms by simp
  show ?thesis unfolding in_flight_def mset_filter split by (rule ext) simp
qed

lemma counted_finish:
  assumes c: "counted st handed" and k: "kmsg \<in> set handed" and run: "rcv_finish st kmsg = Some (kmsg', st')"
  shows "counted st' (remove1 kmsg handed)"
proof -
  let ?p = "msgh_remote_port kmsg"
  have "\<exists>st1. same_queues st st1 \<and> same_counts st st1 \<and> rcv_uncount st1 ?p = Some st'"
  proof (cases "ikm_marequest kmsg = 0")
    case True
    with run show ?thesis by (intro exI [of _ st]) (simp add: rcv_finish_def split: if_splits)
  next
    case False
    with run show ?thesis using marequest_destroy_same [of st "ikm_marequest kmsg"]
      by (fastforce simp: rcv_finish_def bind_eq_Some_conv split: if_splits)
  qed
  then obtain st1 where st1: "same_queues st st1" "same_counts st st1" and fin: "rcv_uncount st1 ?p = Some st'" by blast
  have c1: "counted st1 handed" by (rule counted_same [OF c st1])
  note u = rcv_uncount_spec [OF fin]
  note pend = in_flight_remove1 [OF k, of st1]
  have "unat (ip_msgcount (st_ports st' x)) = size (in_flight st' (remove1 kmsg handed) x)" if a: "ip_active (st_ports st' x)" for x
  proof -
    have act: "ip_active (st_ports st1 x)" using a u by simp
    then have "unat (ip_msgcount (st_ports st1 x)) = size (in_flight st1 handed x)" using c1 by (simp add: counted_def)
    then show ?thesis
      using u act unat_back [of "ip_msgcount (st_ports st1 x)"] unfolding pend by (auto simp: same_queues_of(4) split: if_splits)
  qed
  moreover have "msgh_bits x AND MACH_MSGH_BITS_CIRCULAR = 0" if "x \<in># in_flight st' (remove1 kmsg handed) p" for x p
  proof -
    have "x \<in># in_flight st1 handed p" using that u unfolding pend by (auto simp: same_queues_of(4))
    then show ?thesis using c1 by (simp add: counted_def)
  qed
  moreover have "queues_ok st'" using c1 u same_queues_of(3) [of st1 st'] by (simp add: counted_def)
  ultimately show ?thesis unfolding counted_def by blast
qed

text \<open>A receive of a pending message can be finished.\<close>

lemma counted_can_finish:
  assumes c: "counted st handed" and k: "kmsg \<in> set handed" and "ikm_marequest kmsg = 0"
  shows "rcv_finish st kmsg \<noteq> None"
proof -
  have in_p: "kmsg \<in># in_flight st handed (msgh_remote_port kmsg)" using k by (simp add: in_flight_def)
  then have bits: "msgh_bits kmsg AND MACH_MSGH_BITS_CIRCULAR = 0" using c by (auto simp: counted_def)
  have "rcv_uncount st (msgh_remote_port kmsg) \<noteq> None"
  proof (cases "ip_active (st_ports st (msgh_remote_port kmsg))")
    case True
    then have "unat (ip_msgcount (st_ports st (msgh_remote_port kmsg))) \<noteq> 0" using c in_p by (auto simp: counted_def)
    then show ?thesis using rcv_uncount_live [OF True] by (auto simp: unat_eq_0)
  next
    case False
    then show ?thesis by (simp add: rcv_uncount_def Let_def)
  qed
  then show ?thesis using assms(3) bits by (simp add: rcv_finish_def)
qed

end
