(* ===== verification/Message_Laws.thy ===== *)
theory Message_Laws
  imports Message_Queues Example_Rights
begin

text \<open>
  The laws of sending and receiving: the count of messages over every interleaving of the threads of the kernel,
  the order of messages, senders that wait for room, and messages from interrupts.
\<close>

declare rcv_loop.simps [simp del] send_wait.simps [simp del] ipc_mqueue_send.simps [simp del]

section \<open>The count of messages\<close>

text \<open>
  What the threads of the kernel do to the queues while they hold the locks, and which messages have been handed to
  threads that have not finished their receive.  A send and a receive that do not wait are one step; one that waits is
  the step to put the thread into its queue, and further steps when it runs again.
\<close>

inductive msg_step :: "ipc_config \<Rightarrow> ipc_state \<times> ipc_kmsg list \<Rightarrow> ipc_state \<times> ipc_kmsg list \<Rightarrow> bool" for cfg where
  send: "send_to_port cfg [] st self kmsg option timeout = Some (mr, st') \<Longrightarrow> st_events st' = st_events st @ es \<Longrightarrow>
    msg_step cfg (st, handed) (st', handed @ taken_messages es)"
| interrupt: "ipc_mqueue_send_interrupt cfg locked st kmsg = Some (mr, st') \<Longrightarrow> st_events st' = st_events st @ es \<Longrightarrow>
    ip_msgcount (st_ports st (msgh_remote_port kmsg)) \<noteq> - 1 \<Longrightarrow> msgh_bits kmsg AND MACH_MSGH_BITS_CIRCULAR = 0 \<Longrightarrow>
    msg_step cfg (st, handed) (st', handed @ taken_messages es)"
| send_blocks: "msg_step cfg (st, handed) (upd_port st p (\<lambda>port. port\<lparr>ip_blocked := ip_blocked port @ [self]\<rparr>), handed)"
| send_leaves: "msg_step cfg (st, handed) (upd_port st p (\<lambda>port. port\<lparr>ip_blocked := ipc_thread_rmqueue (ip_blocked port) self\<rparr>), handed)"
| receive: "rcv_loop cfg [] st mq self option max_size timeout list = Some (Rcv_message mr kmsg seqno, list', st') \<Longrightarrow> is_queue mq \<Longrightarrow>
    msg_step cfg (st, handed) (st', handed @ [kmsg])"
| receive_blocks: "imq_messages (get_mqueue st mq) = [] \<Longrightarrow> is_queue mq \<Longrightarrow> ith_kmsg self = None \<Longrightarrow>
    msg_step cfg (st, handed) (set_mqueue st mq ((get_mqueue st mq)\<lparr>imq_threads := imq_threads (get_mqueue st mq) @ [self]\<rparr>), handed)"
| receive_leaves: "is_queue mq \<Longrightarrow> msg_step cfg (st, handed) (rcv_leave st mq self, handed)"
| receive_ends: "kmsg \<in> set handed \<Longrightarrow> rcv_finish st kmsg = Some (kmsg', st') \<Longrightarrow> msg_step cfg (st, handed) (st', remove1 kmsg handed)"
| set_move: "ipc_pset_move cfg st p nset = (kr, st') \<Longrightarrow> st_events st' = st_events st @ es \<Longrightarrow>
    msg_step cfg (st, handed) (st', handed @ taken_messages es)"
| set_qlimit: "msg_step cfg (st, handed) (ipc_port_set_qlimit st p qlimit, handed)"

inductive_cases msg_stepE [consumes 1, case_names send interrupt send_blocks send_leaves receive receive_blocks receive_leaves receive_ends
  set_move set_qlimit]: "msg_step cfg (st, handed) (st', handed')"

lemma counted_upd_port:
  assumes "counted st handed" and "ip_messages (f (st_ports st p)) = ip_messages (st_ports st p)"
    and "ip_pset (f (st_ports st p)) = ip_pset (st_ports st p)" and "ip_bits (f (st_ports st p)) = ip_bits (st_ports st p)"
    and "ip_msgcount (f (st_ports st p)) = ip_msgcount (st_ports st p)"
  shows "counted (upd_port st p f) handed"
  using assms(4,5)
  by (intro counted_same [OF assms(1) same_queues_upd_port [of f, OF assms(2,3)]]) (simp add: same_counts_def upd_port_def state_simps)

lemma counted_threads:
  assumes c: "counted st handed" and mq: "is_queue mq" and "mqueue_ok ((get_mqueue st mq)\<lparr>imq_threads := ths\<rparr>)"
  shows "counted (set_mqueue st mq ((get_mqueue st mq)\<lparr>imq_threads := ths\<rparr>)) handed"
proof -
  have ok: "queues_ok st" using c by (simp add: counted_def)
  then have "\<forall>k \<in> set (imq_messages ((get_mqueue st mq)\<lparr>imq_threads := ths\<rparr>)). mqueue_of st (msgh_remote_port k) = mq"
    using mq by (simp add: queues_ok_iff)
  note s = set_mqueue_queues [OF ok mq assms(3) this]
  have "in_flight (set_mqueue st mq ((get_mqueue st mq)\<lparr>imq_threads := ths\<rparr>)) handed = in_flight st handed"
    by (auto simp: in_flight_def fun_eq_iff s(2) queued_mqueue [of st])
  with counted_moved [OF c s(1,3)] show ?thesis by simp
qed

lemma counted_send:
  assumes c: "counted st handed" and run: "send_to_port cfg [] st self kmsg option timeout = Some (mr, st')"
    and es: "st_events st' = st_events st @ es"
  shows "counted st' (handed @ taken_messages es)"
proof -
  let ?p = "msgh_remote_port kmsg"
  consider (same) "st' = st" | (dead) e where "st' = emit (ipc_port_release st ?p) [Kmsg_destroy e]" | (circle) e where "st' = emit st [Kmsg_destroy e]"
    | (sent) "send_counted cfg st ?p kmsg = Some st'" "msgh_bits kmsg AND MACH_MSGH_BITS_CIRCULAR = 0"
    using run unfolding send_to_port_def Let_def
    by (subst (asm) send_wait.simps) (auto split: if_splits)
  then show ?thesis
  proof cases
    case same
    with c es show ?thesis by simp
  next
    case (dead e)
    have "counted (upd_port st ?p (\<lambda>port. port\<lparr>ip_references := ip_references port - 1\<rparr>)) handed" by (rule counted_upd_port [OF c]) simp_all
    then have "counted st' handed"
      unfolding dead ipc_port_release_def ip_check_unlock_def by (auto simp: Let_def upd_port_def intro!: counted_same [OF _ same_emit])
    moreover have "taken_messages es = []"
      using es unfolding dead by (auto simp: ipc_port_release_def ip_check_unlock_def Let_def state_simps split: if_splits)
    ultimately show ?thesis by simp
  next
    case (circle e)
    then show ?thesis using counted_same [OF c same_emit] es by (auto simp: mq_simps)
  next
    case sent
    then have "ip_msgcount (st_ports st ?p) \<noteq> - 1"
      by (auto simp: send_counted_def Let_def upd_port_def state_simps split: if_splits)
    then show ?thesis
      using counted_deliver [OF c refl sent(2), of cfg] sent(1) es by (fastforce simp: send_counted_def Let_def split: if_splits)
  qed
qed

lemma pset_move_counts:
  assumes "ipc_pset_move cfg st p nset = (kr, st')"
  shows "same_counts st st'"
proof -
  have a: "same_counts s (ipc_pset_add cfg s ps p)" and r: "same_counts s (ipc_pset_remove cfg s ps p)"
    and c: "same_counts s (ips_check_unlock s ps)" for s ps
    by (auto simp: ipc_pset_add_def ipc_pset_remove_def ips_check_unlock_def same_counts_def state_simps Let_def split: prod.splits)
  show ?thesis
    using assms by (auto simp: ipc_pset_move_def Let_def split: if_splits intro: a r c same_counts_trans [OF r same_counts_trans [OF a c]] same_counts_trans [OF r c])
qed

lemma counted_set_move:
  assumes c: "counted st handed" and run: "ipc_pset_move cfg st p nset = (kr, st')" and es: "st_events st' = st_events st @ es"
  shows "counted st' (handed @ taken_messages es)"
proof -
  have "queues_ok st" using c by (simp add: counted_def)
  then have q: "queues_ok st'" "taken_messages es @ queued st' p = queued st p" "\<And>x. x \<noteq> p \<Longrightarrow> queued st' x = queued st x"
    using pset_move_requeued [OF _ run] es by (auto simp: requeued_def)
  have "\<forall>k \<in> set (taken_messages es). msgh_remote_port k = p"
    using arg_cong [OF q(2), of set] by (auto simp: queued_def)
  then have "in_flight st' (handed @ taken_messages es) x = in_flight st handed x" for x
    using q(2) [symmetric] q(3) by (cases "x = p") (simp_all add: in_flight_def filter_all_of)
  then have "in_flight st' (handed @ taken_messages es) = in_flight st handed" by auto
  with counted_moved [OF c q(1) pset_move_counts [OF run]] show ?thesis by blast
qed

lemma counted_interrupt:
  assumes c: "counted st handed" and run: "ipc_mqueue_send_interrupt cfg locked st kmsg = Some (mr, st')"
    and es: "st_events st' = st_events st @ es" and room: "ip_msgcount (st_ports st (msgh_remote_port kmsg)) \<noteq> - 1"
    and bits: "msgh_bits kmsg AND MACH_MSGH_BITS_CIRCULAR = 0"
  shows "counted st' (handed @ taken_messages es)"
proof -
  let ?p = "msgh_remote_port kmsg" let ?st = "one_more st ?p"
  have mq: "mqueue_of ?st = mqueue_of st" by (rule same_queues_of(1) [OF one_more_same])
  consider "st' = st" | "simple_message kmsg"
      "interrupt_loop cfg ?p kmsg ?st (mqueue_of st ?p) (imq_threads (get_mqueue ?st (mqueue_of st ?p))) = Some st'"
    using run by (auto simp: ipc_mqueue_send_interrupt_def Let_def simple_message_def split: if_splits)
  then show ?thesis
  proof cases
    case 1
    with c es show ?thesis by simp
  next
    case 2
    then have "send_deliver cfg ?st ?p kmsg = Some st'" using interrupt_send_deliver [OF 2(1), of cfg ?p ?st] mq by simp
    then show ?thesis using counted_deliver [OF c refl bits room, of cfg] es by fastforce
  qed
qed

lemma counted_mqueue: "counted st handed \<Longrightarrow> is_queue mq \<Longrightarrow> mqueue_ok (get_mqueue st mq)"
  by (simp add: counted_def queues_ok_iff)

lemma counted_step:
  assumes "msg_step cfg (st, handed) (st', handed')" and c: "counted st handed"
  shows "counted st' handed'"
  using assms(1)
proof (cases rule: msg_stepE)
  case (send self kmsg option timeout mr es)
  then show ?thesis using counted_send [OF c] by blast
next
  case (interrupt locked kmsg mr es)
  then show ?thesis using counted_interrupt [OF c] by blast
next
  case (send_blocks p self)
  then show ?thesis using counted_upd_port [OF c] by simp
next
  case (send_leaves p self)
  then show ?thesis using counted_upd_port [OF c] by simp
next
  case (receive mq self option max_size timeout list mr kmsg seqno list')
  have "queues_ok st" using c by (simp add: counted_def)
  with rcv_loop_pending [OF this] receive show ?thesis using counted_moved [OF c] by fastforce
next
  case (receive_blocks mq self)
  then have "mqueue_ok ((get_mqueue st mq)\<lparr>imq_threads := imq_threads (get_mqueue st mq) @ [self]\<rparr>)"
    using counted_mqueue [OF c] by (simp add: mqueue_ok_def)
  with receive_blocks show ?thesis using counted_threads [OF c] by simp
next
  case (receive_leaves mq self)
  then have "mqueue_ok ((get_mqueue st mq)\<lparr>imq_threads := ipc_thread_rmqueue (imq_threads (get_mqueue st mq)) self\<rparr>)"
    using counted_mqueue [OF c, of mq] by (auto simp: mqueue_ok_def ipc_thread_rmqueue_def list_all_iff)
  with receive_leaves c show ?thesis using counted_threads [OF c] by (simp add: rcv_leave_def)
next
  case (receive_ends kmsg kmsg')
  then show ?thesis using counted_finish [OF c] by blast
next
  case (set_move p nset kr es)
  then show ?thesis using counted_set_move [OF c] by blast
next
  case (set_qlimit p qlimit)
  have "counted (upd_port st p (\<lambda>port. port\<lparr>ip_blocked := senders, ip_qlimit := qlimit\<rparr>)) handed" for senders
    by (rule counted_upd_port [OF c]) simp_all
  from counted_same [OF this same_emit] set_qlimit show ?thesis by (simp only: ipc_port_set_qlimit_def upd_port_def Let_def)
qed

text \<open>
  C3: Over every interleaving of threads that send (also from interrupts), receive, wait, give up, move ports between
  sets and change queue limits, the count of messages of a live port is the number of messages in its queue and in
  the hands of threads that have not finished their receive.  Therefore the assertions about the count and about circular
  messages at the end of a receive hold, and those of a send hold as long as the count fits 32 bits.
\<close>

theorem messages_counted:
  assumes "(msg_step cfg)\<^sup>*\<^sup>* (st0, handed0) (st, handed)" and "counted st0 handed0"
  shows "(\<forall>p. ip_active (st_ports st p) \<longrightarrow> unat (ip_msgcount (st_ports st p)) =
      length (queued st p) + length (filter (\<lambda>k. msgh_remote_port k = p) handed)) \<and>
    (\<forall>k \<in> set handed. ikm_marequest k = 0 \<longrightarrow> rcv_finish st k \<noteq> None) \<and>
    (\<forall>k. ip_msgcount (st_ports st (msgh_remote_port k)) \<noteq> - 1 \<longrightarrow> send_counted cfg st (msgh_remote_port k) k \<noteq> None)"
proof -
  have c: "counted st handed"
    using assms by (induction rule: rtranclp_induct2) (blast intro: counted_step)+
  have "send_counted cfg st (msgh_remote_port k) k \<noteq> None" if "ip_msgcount (st_ports st (msgh_remote_port k)) \<noteq> - 1" for k
  proof -
    have "queues_ok (one_more st (msgh_remote_port k))" using c same_queues_of(3) [OF one_more_same] by (simp add: counted_def)
    then obtain st' where "send_deliver cfg (one_more st (msgh_remote_port k)) (msgh_remote_port k) k = Some st'"
      by (rule send_deliver_pending [OF _ refl])
    with that show ?thesis by (simp add: send_counted_def Let_def upd_port_def state_simps add_eq_0_iff2)
  qed
  moreover have "size (in_flight st handed p) = length (queued st p) + length (filter (\<lambda>k. msgh_remote_port k = p) handed)" for p
    by (simp add: in_flight_def del: mset_filter)
  ultimately show ?thesis using c counted_can_finish [OF c] by (simp add: counted_def)
qed

text \<open>One live port without messages.\<close>

definition quiet_state :: ipc_state where
  "quiet_state = example_state\<lparr>st_ports := (\<lambda>_. blank_port)(8 := live_port)\<rparr>"

definition example_thread :: "nat \<Rightarrow> ipc_thread" where
  "example_thread n = \<lparr>ith_name = n, ith_state = MACH_MSG_SUCCESS, ith_rcv_option = 0, ith_msize = 0, ith_list = None,
     ith_kmsg = None, ith_seqno = 0, ith_memory = True\<rparr>"

lemma quiet_state_queues: "imq_messages (get_mqueue quiet_state mq) = []" "imq_threads (get_mqueue quiet_state mq) = []"
  by (cases mq; simp add: quiet_state_def example_state_def blank_port_def live_port_def blank_pset_def no_messages_def)+

lemma quiet_state_counted: "counted quiet_state []"
  by (simp add: counted_def queues_ok_iff mqueue_ok_def quiet_state_queues in_flight_def queued_mqueue)
    (simp add: quiet_state_def live_port_def blank_port_def)

theorem messages_counted_witness:
  "\<exists>st. (msg_step example_config)\<^sup>*\<^sup>* (quiet_state, []) (st, []) \<and> length (queued st 8) = 1 \<and> ip_msgcount (st_ports st 8) = 1"
proof -
  obtain st where st: "send_to_port example_config [] quiet_state (example_thread 1) (example_kmsg 8 24) 0 0 = Some (MACH_MSG_SUCCESS, st)"
    "st_events st = st_events quiet_state @ []" "ip_active (st_ports st 8)" "ip_msgcount (st_ports st 8) = 1"
    by (simp add: send_to_port_def send_wait.simps send_room_def send_counted_def send_deliver_def example_kmsg_def Let_def quiet_state_queues
        quiet_state_def live_port_def blank_port_def no_messages_def mqueue_of_def upd_port_def set_seqno_def state_simps)
  have run: "(msg_step example_config)\<^sup>*\<^sup>* (quiet_state, []) (st, [])"
    using msg_step.send [OF st(1,2), of "[]"] by auto
  have "unat (ip_msgcount (st_ports st 8)) = length (queued st 8)"
    using messages_counted [OF run quiet_state_counted] st(3) by simp
  then show ?thesis using st(4) run by (intro exI [of _ st]) simp
qed

section \<open>The order of messages\<close>

text \<open>Messages are sent one after another, and received one after another; a call that would wait gives no result.\<close>

fun send_all ::
    "ipc_config \<Rightarrow> space_id \<Rightarrow> (ipc_kmsg \<Rightarrow> ipc_state \<Rightarrow> ipc_kmsg option \<times> ipc_state) \<Rightarrow> ipc_thread \<Rightarrow> ipc_kmsg list \<Rightarrow> ipc_state \<Rightarrow> ipc_state option" where
  "send_all cfg kspace server self [] st = Some st"
| "send_all cfg kspace server self (k # ks) st =
    (case ipc_mqueue_send cfg kspace server 0 [] st self k 0 0 of
       Some (mr, st) \<Rightarrow> if mr = MACH_MSG_SUCCESS then send_all cfg kspace server self ks st else None
     | None \<Rightarrow> None)"

fun receive_all ::
    "ipc_config \<Rightarrow> mqueue_ref \<Rightarrow> ipc_thread \<Rightarrow> 32 word \<Rightarrow> nat \<Rightarrow> ipc_state \<Rightarrow> ((mach_msg_return_t \<times> ipc_kmsg \<times> 32 word) list \<times> ipc_state) option" where
  "receive_all cfg mq self max_size 0 st = Some ([], st)"
| "receive_all cfg mq self max_size (Suc n) st =
    (case ipc_mqueue_receive cfg [] st mq self 0 max_size 0 None None of
       Some (Rcv_message mr k seqno, _, st) \<Rightarrow>
         map_option (\<lambda>(rs, st). ((mr, k, seqno) # rs, st)) (receive_all cfg mq self max_size n st)
     | _ \<Rightarrow> None)"

text \<open>A message that can be received into a buffer of the size, and needs no answer.\<close>

definition fits :: "ipc_config \<Rightarrow> 32 word \<Rightarrow> ipc_kmsg \<Rightarrow> bool" where
  "fits cfg max_size k \<longleftrightarrow> msgh_bits k AND MACH_MSGH_BITS_OLD_FORMAT = 0 \<and> msgh_bits k AND MACH_MSGH_BITS_CIRCULAR = 0 \<and>
    msgh_size k \<le> max_size - REQUESTED_TRAILER_SIZE cfg 0 \<and> ikm_marequest k = 0"

text \<open>The state with the messages in the queue of the port, where no thread waits.\<close>

definition loaded :: "ipc_state \<Rightarrow> ipc_port_t \<Rightarrow> ipc_kmsg list \<Rightarrow> 32 word \<Rightarrow> ipc_state" where
  "loaded st p ks seqno = upd_port st p (\<lambda>port. port\<lparr>ip_messages := \<lparr>imq_messages = ks, imq_threads = []\<rparr>,
     ip_msgcount := word_of_nat (length ks), ip_seqno := seqno\<rparr>)"

lemma loaded_port [simp]:
  "st_ports (loaded st p ks seqno) p = (st_ports st p)\<lparr>ip_messages := \<lparr>imq_messages = ks, imq_threads = []\<rparr>,
     ip_msgcount := word_of_nat (length ks), ip_seqno := seqno\<rparr>"
  by (simp add: loaded_def upd_port_def state_simps)

lemma small_count:
  assumes "n < unat (w :: 32 word)"
  shows "word_of_nat n < w" and "word_of_nat n + 1 \<noteq> (0 :: 32 word)"
proof -
  have "unat w < 2 ^ 32" using unsigned_less [of w] by simp
  with assms have n: "n + 1 < 2 ^ 32" by simp
  then have "unat (word_of_nat n :: 32 word) = n" "unat (word_of_nat (n + 1) :: 32 word) = n + 1"
    by (simp_all add: unsigned_of_nat take_bit_nat_eq_self del: of_nat_add of_nat_Suc)
  with assms show "word_of_nat n < w" "word_of_nat n + 1 \<noteq> (0 :: 32 word)"
    unfolding word_less_nat_alt by (metis, metis add_is_0 of_nat_1 of_nat_add unat_0 zero_neq_one)
qed

lemma send_loaded:
  assumes "IO_VALID p" and "ip_active (st_ports st p)" and "ip_receiver (st_ports st p) \<noteq> kspace" and "ip_pset (st_ports st p) = IPS_NULL"
    and "msgh_remote_port k = p" and "msgh_bits k AND MACH_MSGH_BITS_CIRCULAR = 0" and "length ks < unat (ip_qlimit (st_ports st p))"
  shows "ipc_mqueue_send cfg kspace server fuel sched (loaded st p ks seqno) self k option timeout = Some (MACH_MSG_SUCCESS, loaded st p (ks @ [k]) seqno)"
proof -
  have mq: "mqueue_of (upd_port (loaded st p ks seqno) p (\<lambda>port. port\<lparr>ip_msgcount := ip_msgcount port + 1\<rparr>)) p = Port_queue p"
    using assms(4) by (simp add: upd_port_def state_simps)
  show ?thesis
    using assms small_count [OF assms(7)]
    by (simp add: mq ipc_mqueue_send.simps send_to_port_def send_wait.simps send_room_def send_counted_def send_deliver_def Let_def)
      (cases "st_ports st p", simp add: loaded_def upd_port_def set_seqno_def state_simps add.commute)
qed

lemma receive_loaded:
  assumes "ip_active (st_ports st p)" and "ip_blocked (st_ports st p) = []" and "fits cfg max_size k" and "msgh_remote_port k = p"
    and "length ks < unat (ip_qlimit (st_ports st p))"
  shows "ipc_mqueue_receive cfg sched (loaded st p (k # ks) seqno) (Port_queue p) self 0 max_size timeout None None =
    Some (Rcv_message MACH_MSG_SUCCESS k seqno, None, loaded st p ks (seqno + 1))"
proof -
  have "rcv_check cfg 0 max_size (ith_memory self) None k = (Inr MACH_MSG_SUCCESS, None)"
    using assms(3) by (auto simp: rcv_check_def fits_def Let_def)
  then show ?thesis
    using assms(1-4) small_count(2) [OF assms(5)]
    by (simp add: ipc_mqueue_receive_def rcv_loop.simps rcv_finish_def rcv_uncount_def fits_def Let_def add.commute)
      (cases "st_ports st p", simp add: loaded_def upd_port_def set_seqno_def state_simps add.commute)
qed

lemma send_all_loaded:
  assumes "IO_VALID p" and "ip_active (st_ports st p)" and "ip_receiver (st_ports st p) \<noteq> kspace" and "ip_pset (st_ports st p) = IPS_NULL"
    and "\<forall>k \<in> set ks'. msgh_remote_port k = p \<and> fits cfg max_size k" and "length ks + length ks' \<le> unat (ip_qlimit (st_ports st p))"
  shows "send_all cfg kspace server self ks' (loaded st p ks seqno) = Some (loaded st p (ks @ ks') seqno)"
  using assms(5,6)
proof (induction ks' arbitrary: ks)
  case (Cons k ks')
  then have "ipc_mqueue_send cfg kspace server 0 [] (loaded st p ks seqno) self k 0 0 = Some (MACH_MSG_SUCCESS, loaded st p (ks @ [k]) seqno)"
    by (intro send_loaded [OF assms(1-4)]) (simp_all add: fits_def)
  with Cons.IH [of "ks @ [k]"] Cons.prems show ?case by simp
qed simp

lemma receive_all_loaded:
  assumes "ip_active (st_ports st p)" and "ip_blocked (st_ports st p) = []"
    and "\<forall>k \<in> set ks. msgh_remote_port k = p \<and> fits cfg max_size k" and "length ks \<le> unat (ip_qlimit (st_ports st p))"
  shows "receive_all cfg (Port_queue p) self max_size (length ks) (loaded st p ks seqno) =
    Some (map (\<lambda>i. (MACH_MSG_SUCCESS, ks ! i, seqno + word_of_nat i)) [0..<length ks], loaded st p [] (seqno + word_of_nat (length ks)))"
  using assms(3,4)
proof (induction ks arbitrary: seqno)
  case (Cons k ks)
  then have r: "ipc_mqueue_receive cfg [] (loaded st p (k # ks) seqno) (Port_queue p) self 0 max_size 0 None None =
      Some (Rcv_message MACH_MSG_SUCCESS k seqno, None, loaded st p ks (seqno + 1))"
    by (intro receive_loaded [OF assms(1,2)]) simp_all
  have "map (\<lambda>i. (MACH_MSG_SUCCESS, (k # ks) ! i, seqno + word_of_nat i)) [0..<length (k # ks)] =
      (MACH_MSG_SUCCESS, k, seqno) # map (\<lambda>i. (MACH_MSG_SUCCESS, ks ! i, seqno + 1 + word_of_nat i)) [0..<length ks]"
    by (simp add: upt_conv_Cons map_Suc_upt [symmetric] comp_def add.assoc del: upt_Suc)
  with r Cons.IH [of "seqno + 1"] Cons.prems show ?case by (simp add: add.assoc del: upt_Suc)
qed simp

text \<open>
  C9: Messages that are sent to an idle port, as many as its queue takes, are all accepted without waiting, and are
  received in the order in which they were sent, each once, with consecutive sequence numbers; then the port is as it
  was, but for its sequence number.
\<close>

theorem messages_in_order:
  assumes "IO_VALID p" and "ip_active (st_ports st p)" and "ip_receiver (st_ports st p) \<noteq> kspace" and "ip_pset (st_ports st p) = IPS_NULL"
    and "ip_messages (st_ports st p) = \<lparr>imq_messages = [], imq_threads = []\<rparr>" and "ip_msgcount (st_ports st p) = 0"
    and "ip_blocked (st_ports st p) = []"
    and "\<forall>k \<in> set ks. msgh_remote_port k = p \<and> fits cfg max_size k" and "length ks \<le> unat (ip_qlimit (st_ports st p))"
  shows "\<exists>st1. send_all cfg kspace server sender ks st = Some st1 \<and> queued st1 p = ks \<and>
    receive_all cfg (Port_queue p) receiver max_size (length ks) st1 =
      Some (map (\<lambda>i. (MACH_MSG_SUCCESS, ks ! i, ip_seqno (st_ports st p) + word_of_nat i)) [0..<length ks],
        set_seqno st p (ip_seqno (st_ports st p) + word_of_nat (length ks)))"
proof -
  let ?s = "ip_seqno (st_ports st p)"
  have l: "loaded st p [] seqno = set_seqno st p seqno" for seqno
    using assms(5,6) by (cases "st_ports st p") (simp add: loaded_def upd_port_def set_seqno_def state_simps)
  then have st: "loaded st p [] ?s = st" by (simp add: mq_simps)
  have "queued (loaded st p ks ?s) p = ks" using assms(4,8) by (simp add: queued_def port_queue_def)
  moreover have "send_all cfg kspace server sender ks st = Some (loaded st p ks ?s)"
    using send_all_loaded [OF assms(1-4,8), of "[]" server sender ?s] assms(9) st by simp
  ultimately show ?thesis using receive_all_loaded [OF assms(2,7-9), of receiver ?s] l by simp
qed

theorem messages_in_order_witness:
  "\<exists>st1. send_all example_config 7 (\<lambda>_ st. (None, st)) (example_thread 1) [example_kmsg 8 24, example_kmsg 8 32] quiet_state = Some st1 \<and>
    queued st1 8 = [example_kmsg 8 24, example_kmsg 8 32] \<and>
    receive_all example_config (Port_queue 8) (example_thread 2) 100 (Suc (Suc 0)) st1 =
      Some ([(MACH_MSG_SUCCESS, example_kmsg 8 24, 0), (MACH_MSG_SUCCESS, example_kmsg 8 32, 1)], set_seqno quiet_state 8 2)"
proof -
  have "\<forall>k \<in> set [example_kmsg 8 24, example_kmsg 8 32]. msgh_remote_port k = 8 \<and> fits example_config 100 k"
    by (simp add: fits_def example_kmsg_def REQUESTED_TRAILER_SIZE_def example_config_def)
  moreover have "st_ports quiet_state 8 = live_port" by (simp add: quiet_state_def)
  ultimately show ?thesis
    using messages_in_order [of 8 quiet_state 7 "[example_kmsg 8 24, example_kmsg 8 32]" example_config 100 "\<lambda>_ st. (None, st)" "example_thread 1" "example_thread 2"]
    by (simp add: IO_VALID_def IO_NULL_def IO_DEAD_def live_port_def blank_port_def no_messages_def upt_rec
        del: send_all.simps receive_all.simps)
qed

section \<open>Waiting for room\<close>

text \<open>What another thread does that takes a message from a queue while a sender is blocked.\<close>

definition receives :: "ipc_config \<Rightarrow> mqueue_ref \<Rightarrow> ipc_thread \<Rightarrow> 32 word \<Rightarrow> ipc_state \<Rightarrow> ipc_state" where
  "receives cfg mq self max_size st =
    (case ipc_mqueue_receive cfg [] st mq self 0 max_size 0 None None of Some (_, _, st) \<Rightarrow> st | None \<Rightarrow> st)"

lemma receive_wakes:
  assumes "ip_active (st_ports st p)" and "ip_blocked (st_ports st p) = sender # senders" and "fits cfg max_size k" and "msgh_remote_port k = p"
    and "length ks < unat (ip_qlimit (st_ports st p))"
  shows "receives cfg (Port_queue p) self max_size (loaded st p (k # ks) seqno) =
    emit (upd_port (loaded st p ks (seqno + 1)) p (\<lambda>port. port\<lparr>ip_blocked := senders\<rparr>)) [Thread_go (sender\<lparr>ith_state := MACH_MSG_SUCCESS\<rparr>)]"
proof -
  have "rcv_check cfg 0 max_size (ith_memory self) None k = (Inr MACH_MSG_SUCCESS, None)"
    using assms(3) by (auto simp: rcv_check_def fits_def Let_def)
  then show ?thesis
    using assms(1-4) small_count [OF assms(5)]
    by (simp add: receives_def ipc_mqueue_receive_def rcv_loop.simps rcv_finish_def rcv_uncount_def fits_def Let_def add.commute)
      (cases "st_ports st p", simp add: loaded_def upd_port_def set_seqno_def state_simps add.commute)
qed

text \<open>
  C15: A sender that finds the queue full blocks; a thread that takes the first message from the queue wakes it, and its
  send then succeeds: the message is at the end of the queue, which is full again, and no sender is left behind.
\<close>

theorem blocked_sender_proceeds:
  assumes "ip_active (st_ports st p)" and "ip_pset (st_ports st p) = IPS_NULL"
    and "ip_messages (st_ports st p) = \<lparr>imq_messages = k # ks, imq_threads = []\<rparr>"
    and "ip_qlimit (st_ports st p) = word_of_nat (Suc (length ks))" and "Suc (length ks) < 2 ^ 32"
    and "ip_msgcount (st_ports st p) = ip_qlimit (st_ports st p)" and "ip_blocked (st_ports st p) = []"
    and "msgh_remote_port k = p" and "fits cfg max_size k"
    and "msgh_remote_port kmsg = p" and "msgh_bits kmsg AND MACH_MSGH_BITS_CIRCULAR = 0" and "MACH_MSGH_BITS_REMOTE (msgh_bits kmsg) \<noteq> 18"
    and "option AND MACH_SEND_ALWAYS = 0" and "option AND MACH_SEND_TIMEOUT = 0 \<or> timeout \<noteq> 0"
  shows "\<exists>st'. send_to_port cfg [(receives cfg (Port_queue p) receiver max_size, MACH_MSG_SUCCESS, THREAD_AWAKENED)] st self kmsg option timeout =
      Some (MACH_MSG_SUCCESS, st') \<and>
    imq_messages (ip_messages (st_ports st' p)) = ks @ [kmsg] \<and> ip_msgcount (st_ports st' p) = ip_qlimit (st_ports st' p) \<and>
    ip_blocked (st_ports st' p) = [] \<and> st_events st' = st_events st @ [Thread_go (self\<lparr>ith_state := MACH_MSG_SUCCESS\<rparr>)]"
proof -
  let ?self = "self\<lparr>ith_state := MACH_SEND_IN_PROGRESS\<rparr>" and ?s = "ip_seqno (st_ports st p)"
  let ?blocked = "upd_port st p (\<lambda>port. port\<lparr>ip_blocked := [?self]\<rparr>)"
  let ?woken = "emit (upd_port (loaded ?blocked p ks (?s + 1)) p (\<lambda>port. port\<lparr>ip_blocked := []\<rparr>)) [Thread_go (?self\<lparr>ith_state := MACH_MSG_SUCCESS\<rparr>)]"
  have q: "length ks < unat (ip_qlimit (st_ports st p))"
    using assms(4,5) by (simp add: unsigned_of_nat take_bit_nat_eq_self del: of_nat_Suc)
  note room = small_count [OF q]
  have b: "?blocked = loaded ?blocked p (k # ks) ?s"
    using assms(3,4,6) by (cases "st_ports st p") (simp add: loaded_def upd_port_def state_simps)
  have w: "receives cfg (Port_queue p) receiver max_size ?blocked = ?woken"
    by (subst b, rule receive_wakes) (use assms q in \<open>simp_all add: upd_port_def state_simps\<close>)
  have e: "upd_port st p (\<lambda>port. port\<lparr>ip_blocked := ip_blocked port @ [?self]\<rparr>) = ?blocked" using assms(7) by (simp add: upd_port_def)
  have full: "\<not> send_room st p option kmsg" using assms by (simp add: send_room_def)
  have "send_wait [(receives cfg (Port_queue p) receiver max_size, MACH_MSG_SUCCESS, THREAD_AWAKENED)] st p self option timeout kmsg =
      send_wait [] ?woken p self option timeout kmsg"
    using full assms(1,14) by (subst send_wait.simps) (auto simp: Let_def e w)
  also have "\<dots> = Some (None, ?woken)"
    using assms(1,4) room(1) by (subst send_wait.simps) (simp add: send_room_def upd_port_def state_simps loaded_def)
  finally have run: "send_to_port cfg [(receives cfg (Port_queue p) receiver max_size, MACH_MSG_SUCCESS, THREAD_AWAKENED)] st self kmsg option timeout =
      map_option (Pair MACH_MSG_SUCCESS) (send_counted cfg ?woken p kmsg)"
    using assms(1,10,11) by (simp add: send_to_port_def Let_def upd_port_def state_simps loaded_def)
  have mq: "mqueue_of (one_more ?woken p) p = Port_queue p" using assms(2) by (simp add: upd_port_def state_simps loaded_def)
  show ?thesis
    unfolding run send_counted_def send_deliver_def Let_def mq using room assms(4)
    by (simp add: upd_port_def set_seqno_def state_simps loaded_def add.commute)
qed

definition full_state :: ipc_state where
  "full_state = example_state\<lparr>st_ports := (\<lambda>_. blank_port)(8 := live_port\<lparr>ip_qlimit := 1, ip_msgcount := 1,
     ip_messages := \<lparr>imq_messages = [example_kmsg 8 24], imq_threads = []\<rparr>\<rparr>)\<rparr>"

lemma full_state_port:
  "st_ports full_state 8 = live_port\<lparr>ip_qlimit := 1, ip_msgcount := 1, ip_messages := \<lparr>imq_messages = [example_kmsg 8 24], imq_threads = []\<rparr>\<rparr>"
  by (simp add: full_state_def)

theorem blocked_sender_proceeds_witness:
  "\<exists>st'. send_to_port example_config [(receives example_config (Port_queue 8) (example_thread 2) 100, MACH_MSG_SUCCESS, THREAD_AWAKENED)] full_state
      (example_thread 1) (example_kmsg 8 32) 0 0 = Some (MACH_MSG_SUCCESS, st') \<and> imq_messages (ip_messages (st_ports st' 8)) = [example_kmsg 8 32]"
proof -
  have "fits example_config 100 (example_kmsg 8 24)" "msgh_remote_port (example_kmsg 8 n) = 8" "msgh_bits (example_kmsg 8 n) = 0" for n
    by (simp_all add: fits_def example_kmsg_def REQUESTED_TRAILER_SIZE_def example_config_def)
  moreover have "ip_pset live_port = IPS_NULL" "ip_blocked live_port = []" by (simp_all add: live_port_def blank_port_def)
  ultimately show ?thesis
    using blocked_sender_proceeds [of full_state 8 "example_kmsg 8 24" "[]" example_config 100 "example_kmsg 8 32" 0 0 "example_thread 2" "example_thread 1"]
    by (auto simp: full_state_port MACH_MSGH_BITS_REMOTE_def)
qed

text \<open>
  C30: A send to a port whose queue is full that may not wait, is interrupted, or waits until its time is over, fails with
  the code for that and leaves the state as it was, without the thread among the blocked senders.
\<close>

theorem send_gives_up:
  assumes "ip_active (st_ports st p)" and "\<not> send_room st p option kmsg" and "msgh_remote_port kmsg = p"
    and "\<forall>th \<in> set (ip_blocked (st_ports st p)). ith_name th \<noteq> ith_name self"
  shows "(option AND MACH_SEND_TIMEOUT \<noteq> 0 \<longrightarrow> send_to_port cfg [] st self kmsg option 0 = Some (MACH_SEND_TIMED_OUT, st)) \<and>
    (option AND MACH_SEND_TIMEOUT \<noteq> 0 \<and> timeout \<noteq> 0 \<longrightarrow>
      send_to_port cfg [(id, MACH_SEND_IN_PROGRESS, THREAD_TIMED_OUT)] st self kmsg option timeout = Some (MACH_SEND_TIMED_OUT, st)) \<and>
    (option AND MACH_SEND_TIMEOUT = 0 \<or> timeout \<noteq> 0 \<longrightarrow>
      send_to_port cfg [(id, MACH_SEND_IN_PROGRESS, THREAD_INTERRUPTED)] st self kmsg option timeout = Some (MACH_SEND_INTERRUPTED, st))"
proof -
  have "filter (\<lambda>th. ith_name th \<noteq> ith_name self) (ip_blocked (st_ports st p)) = ip_blocked (st_ports st p)"
    using assms(4) by (simp add: filter_id_conv)
  then have restored: "upd_port (id (upd_port st p (\<lambda>port. port\<lparr>ip_blocked := ip_blocked port @ [self\<lparr>ith_state := MACH_SEND_IN_PROGRESS\<rparr>]\<rparr>))) p
      (\<lambda>port. port\<lparr>ip_blocked := ipc_thread_rmqueue (ip_blocked port) self\<rparr>) = st"
    by (simp add: upd_port_def ipc_thread_rmqueue_def state_simps)
  have codes: "MACH_SEND_IN_PROGRESS \<noteq> MACH_MSG_SUCCESS" by (simp add: MACH_SEND_IN_PROGRESS_def MACH_MSG_SUCCESS_def)
  have now: "send_wait [] st p self option 0 kmsg = Some (Some MACH_SEND_TIMED_OUT, st)" if "option AND MACH_SEND_TIMEOUT \<noteq> 0"
    using that assms(1,2) by (simp add: send_wait.simps)
  have wait: "send_wait [(id, MACH_SEND_IN_PROGRESS, r)] st p self option timeout kmsg = (case r of
       THREAD_INTERRUPTED \<Rightarrow> Some (Some MACH_SEND_INTERRUPTED, st)
     | THREAD_SHOULD_TERMINATE \<Rightarrow> Some (Some MACH_SEND_INTERRUPTED, st)
     | THREAD_TIMED_OUT \<Rightarrow> if option AND MACH_SEND_TIMEOUT = 0 then None else send_wait [] st p self option 0 kmsg
     | _ \<Rightarrow> None)" if "option AND MACH_SEND_TIMEOUT = 0 \<or> timeout \<noteq> 0" for r
    using that assms(1,2) codes restored by (subst send_wait.simps) (auto simp: Let_def)
  show ?thesis using assms(3) now wait [of THREAD_TIMED_OUT] wait [of THREAD_INTERRUPTED] by (auto simp: send_to_port_def Let_def)
qed

theorem send_gives_up_witness:
  "send_to_port example_config [(id, MACH_SEND_IN_PROGRESS, THREAD_TIMED_OUT)] full_state (example_thread 1) (example_kmsg 8 32) 0x10 5 =
    Some (MACH_SEND_TIMED_OUT, full_state)"
proof -
  have "\<not> send_room full_state 8 0x10 (example_kmsg 8 32)"
    by (simp add: send_room_def full_state_port example_kmsg_def MACH_MSGH_BITS_REMOTE_def MACH_SEND_ALWAYS_def)
  then show ?thesis
    using send_gives_up [of full_state 8 "0x10" "example_kmsg 8 32" "example_thread 1" example_config 5]
    by (simp add: full_state_port MACH_SEND_TIMEOUT_def live_port_def blank_port_def example_kmsg_def)
qed

section \<open>Messages from interrupts\<close>

text \<open>
  C29: A message that is neither complex nor of the old format nor marked as circular, sent from an interrupt that gets its
  locks to a live port of a task, does what \<^verbatim>\<open>ipc_mqueue_send\<close> does with the same message when it need not wait: the loop of
  its own gives it to the same thread, with the same result and sequence number, or puts it at the end of the same queue.
  The port is not one of the kernel: \<^verbatim>\<open>ipc_mqueue_send\<close> calls the kernel's server for these, and an interrupt does not.
\<close>

theorem interrupt_send_exact:
  assumes "simple_message kmsg" and "msgh_bits kmsg AND MACH_MSGH_BITS_CIRCULAR = 0" and "ip_active (st_ports st (msgh_remote_port kmsg))"
    and "send_room st (msgh_remote_port kmsg) option kmsg" and "ip_msgcount (st_ports st (msgh_remote_port kmsg)) \<noteq> - 1"
    and "IO_VALID (msgh_remote_port kmsg)" and "ip_receiver (st_ports st (msgh_remote_port kmsg)) \<noteq> kspace"
  shows "ipc_mqueue_send_interrupt cfg (True, True) st kmsg = ipc_mqueue_send cfg kspace server fuel sched st self kmsg option timeout"
proof -
  let ?p = "msgh_remote_port kmsg"
  have "ip_msgcount (st_ports (one_more st ?p) ?p) \<noteq> 0" using assms(5) by (simp add: upd_port_def state_simps add_eq_0_iff2)
  then have "send_to_port cfg sched st self kmsg option timeout = map_option (Pair MACH_MSG_SUCCESS) (send_deliver cfg (one_more st ?p) ?p kmsg)"
    using assms(2-4) by (simp add: send_to_port_def send_wait.simps send_counted_def Let_def)
  then show ?thesis
    using assms(1,3) interrupt_send_deliver [OF assms(1), of cfg ?p "one_more st ?p"] same_queues_of(1) [OF one_more_same, of st ?p]
    using assms(6,7) by (simp add: ipc_mqueue_send_interrupt_def ipc_mqueue_send.simps simple_message_def Let_def)
qed

theorem interrupt_send_exact_witness:
  "ipc_mqueue_send_interrupt example_config (True, True) quiet_state (example_kmsg 8 24) =
    ipc_mqueue_send example_config 77 (\<lambda>k st. (None, st)) 0 [] quiet_state (example_thread 1) (example_kmsg 8 24) 0 0"
  by (rule interrupt_send_exact)
    (simp_all add: simple_message_def example_kmsg_def send_room_def quiet_state_def IO_VALID_def IO_NULL_def IO_DEAD_def,
      simp_all add: live_port_def blank_port_def)

section \<open>Receives that wait\<close>

lemmas rcv_codes = MACH_MSG_SUCCESS_def MACH_MSG_VM_KERNEL_def MACH_RCV_TOO_LARGE_def MACH_RCV_HEADER_ERROR_def MACH_RCV_BODY_ERROR_def
  MACH_RCV_INVALID_TYPE_def MACH_RCV_SCATTER_SMALL_def MACH_RCV_PORT_DIED_def MACH_RCV_PORT_CHANGED_def MACH_RCV_IN_PROGRESS_def

lemma scatter_loop_codes: "scatter_loop large n e gs sl = Inl mr \<Longrightarrow> mr = MACH_RCV_INVALID_TYPE \<or> (mr = MACH_RCV_SCATTER_SMALL \<and> \<not> large)"
  by (induction large n e gs sl rule: scatter_loop.induct)
    (auto split: if_splits list.splits mach_msg_descriptor.splits)

lemma check_scatter_codes:
  assumes "ipc_kmsg_check_scatter kmsg option memory sl = (mr, sl')"
  shows "mr \<in> {MACH_MSG_SUCCESS, MACH_RCV_INVALID_TYPE, MACH_RCV_SCATTER_SMALL, MACH_MSG_VM_KERNEL OR MACH_RCV_BODY_ERROR}"
  using assms by (auto simp: ipc_kmsg_check_scatter_def split: sum.splits if_splits dest: scatter_loop_codes)

lemma large_or_old: "(w :: 32 word) AND (MACH_RCV_LARGE OR MACH_RCV_OLD_FORMAT) = 0 \<longleftrightarrow> w AND MACH_RCV_LARGE = 0 \<and> w AND MACH_RCV_OLD_FORMAT = 0"
  by (auto simp: bit_eq_iff bit_simps)

lemma woken_large:
  assumes "ith_state th = MACH_RCV_TOO_LARGE \<or> ith_state th = MACH_RCV_SCATTER_SMALL"
  shows "rcv_woken th result option timeout =
    (if ith_rcv_option th AND (MACH_RCV_LARGE OR MACH_RCV_OLD_FORMAT) = 0
     then map_option (\<lambda>kmsg. Inl (Rcv_message (ith_state th) kmsg (ith_seqno th))) (ith_kmsg th)
     else Some (Inl (Rcv_large (ith_state th) (ith_msize th))))"
proof -
  have "MACH_RCV_TOO_LARGE \<notin> {MACH_MSG_SUCCESS, MACH_RCV_HEADER_ERROR, MACH_RCV_INVALID_TYPE}"
    "MACH_RCV_SCATTER_SMALL \<notin> {MACH_MSG_SUCCESS, MACH_RCV_HEADER_ERROR, MACH_RCV_INVALID_TYPE}" by (simp_all add: rcv_codes)
  with assms show ?thesis by (auto simp: rcv_woken_def Let_def)
qed

lemma woken_no_memory: "ith_state th = MACH_MSG_VM_KERNEL OR MACH_RCV_BODY_ERROR \<Longrightarrow> rcv_woken th result option timeout = None"
  by (simp add: rcv_woken_def Let_def rcv_codes)

text \<open>What a thread is told that looks at a message in the queue, or that waited for it.\<close>

definition told :: "rcv_result + mach_msg_return_t \<Rightarrow> ipc_kmsg \<Rightarrow> 32 word \<Rightarrow> (rcv_result + 32 word) option" where
  "told ret kmsg seqno =
    (if ret = Inl (Rcv_error (MACH_MSG_VM_KERNEL OR MACH_RCV_BODY_ERROR)) then None
     else Some (Inl (case ret of Inl res \<Rightarrow> res | Inr mr \<Rightarrow> Rcv_message mr kmsg seqno)))"

lemma woken_old:
  assumes "offer cfg kmsg th = (th', got)" and "woken = (if got then th'\<lparr>ith_kmsg := Some kmsg, ith_seqno := seqno\<rparr> else th')"
    and "rcv_check cfg (ith_rcv_option th) (ith_msize th) (ith_memory th) (ith_list th) kmsg = (ret, sl)"
    and old: "msgh_bits kmsg AND MACH_MSGH_BITS_OLD_FORMAT \<noteq> 0"
  shows "rcv_woken woken result option timeout = told ret kmsg seqno \<and> ith_list woken = sl \<and> (got \<longleftrightarrow> \<not> isl ret)"
proof -
  let ?rcv_old = "ith_rcv_option th AND MACH_RCV_OLD_FORMAT \<noteq> 0"
  consider (error) "\<not> ?rcv_old" | (fits) "?rcv_old" "msgh_size kmsg \<le> ith_msize th" | (large) "?rcv_old" "\<not> msgh_size kmsg \<le> ith_msize th" by blast
  then show ?thesis
  proof cases
    case error
    with old assms(1,3) have "th' = th\<lparr>ith_state := MACH_RCV_HEADER_ERROR\<rparr>" "got" "ret = Inr MACH_RCV_HEADER_ERROR" "sl = ith_list th"
      by (simp_all add: offer_def offer_old_def rcv_check_def Let_def)
    with assms(2) show ?thesis by (simp add: told_def rcv_woken_def Let_def)
  next
    case fits
    with old assms(1,3) have "th' = th\<lparr>ith_state := MACH_MSG_SUCCESS\<rparr>" "got" "ret = Inr MACH_MSG_SUCCESS" "sl = ith_list th"
      by (simp_all add: offer_def offer_old_def rcv_check_def Let_def leD)
    with assms(2) show ?thesis by (simp add: told_def rcv_woken_def Let_def)
  next
    case large
    with old assms(1,3) have "th' = th\<lparr>ith_state := MACH_RCV_TOO_LARGE, ith_msize := msgh_size kmsg\<rparr>" "\<not> got"
      "ret = Inl (Rcv_large MACH_RCV_TOO_LARGE (msgh_size kmsg))" "sl = ith_list th"
      by (simp_all add: offer_def offer_old_def rcv_check_def Let_def not_le)
    with assms(2) large(1) show ?thesis by (simp add: told_def woken_large large_or_old)
  qed
qed

lemma woken_scatter:
  assumes "offer cfg kmsg th = (th', got)" and "woken = (if got then th'\<lparr>ith_kmsg := Some kmsg, ith_seqno := seqno\<rparr> else th')"
    and "rcv_check cfg (ith_rcv_option th) (ith_msize th) (ith_memory th) (ith_list th) kmsg = (ret, sl)"
    and scatter: "msgh_bits kmsg AND MACH_MSGH_BITS_OLD_FORMAT = 0" "ith_rcv_option th AND MACH_RCV_OLD_FORMAT = 0"
      "\<not> msgh_size kmsg > ith_msize th - REQUESTED_TRAILER_SIZE cfg (ith_rcv_option th)"
      "msgh_bits kmsg AND MACH_MSGH_BITS_COMPLEX \<noteq> 0" "ith_list th = Some l"
  shows "rcv_woken woken result option timeout = told ret kmsg seqno \<and> ith_list woken = sl \<and> (got \<longleftrightarrow> \<not> isl ret)"
proof -
  obtain mr l' where l: "ipc_kmsg_check_scatter kmsg (ith_rcv_option th) (ith_memory th) l = (mr, l')" by fastforce
  have distinct: "MACH_RCV_INVALID_TYPE \<notin> {MACH_MSG_SUCCESS, MACH_RCV_HEADER_ERROR, MACH_MSG_VM_KERNEL OR MACH_RCV_BODY_ERROR}"
    "MACH_RCV_SCATTER_SMALL \<notin> {MACH_MSG_SUCCESS, MACH_RCV_INVALID_TYPE}" "MACH_RCV_SCATTER_SMALL AND MACH_MSG_VM_KERNEL = 0"
    "MACH_MSG_VM_KERNEL OR MACH_RCV_BODY_ERROR \<noteq> MACH_MSG_SUCCESS" "(MACH_MSG_VM_KERNEL OR MACH_RCV_BODY_ERROR) AND MACH_MSG_VM_KERNEL \<noteq> 0"
    by (simp_all add: rcv_codes)
  have o: "(th', got) = (if mr = MACH_MSG_SUCCESS then (th\<lparr>ith_state := mr, ith_list := Some l'\<rparr>, True)
      else if mr = MACH_RCV_INVALID_TYPE \<or> mr AND MACH_MSG_VM_KERNEL \<noteq> 0 then (th\<lparr>ith_state := mr, ith_list := Some l'\<rparr>, False)
      else if ith_rcv_option th AND MACH_RCV_LARGE \<noteq> 0 then (th\<lparr>ith_state := mr, ith_list := Some l', ith_msize := msgh_size kmsg\<rparr>, False)
      else (th\<lparr>ith_state := mr, ith_list := Some l'\<rparr>, True))"
    using assms(1) scatter by (simp add: offer_def offer_new_def Let_def l)
  have r: "(ret, sl) = (if mr \<noteq> MACH_MSG_SUCCESS \<and> (mr = MACH_RCV_INVALID_TYPE \<or> mr AND MACH_MSG_VM_KERNEL \<noteq> 0) then Inl (Rcv_error mr)
      else if mr \<noteq> MACH_MSG_SUCCESS \<and> ith_rcv_option th AND MACH_RCV_LARGE \<noteq> 0 then Inl (Rcv_large mr (msgh_size kmsg))
      else Inr mr, Some l')"
    using assms(3) scatter by (simp add: rcv_check_def Let_def l)
  consider "mr = MACH_MSG_SUCCESS" | "mr = MACH_RCV_INVALID_TYPE" | "mr = MACH_MSG_VM_KERNEL OR MACH_RCV_BODY_ERROR"
    | "mr = MACH_RCV_SCATTER_SMALL" "ith_rcv_option th AND MACH_RCV_LARGE = 0" | "mr = MACH_RCV_SCATTER_SMALL" "ith_rcv_option th AND MACH_RCV_LARGE \<noteq> 0"
    using check_scatter_codes [OF l] by blast
  then show ?thesis
  proof cases
    case 1
    with o r assms(2) show ?thesis by (simp add: told_def rcv_woken_def Let_def)
  next
    case 2
    with o r assms(2) distinct show ?thesis by (simp add: told_def rcv_woken_def Let_def)
  next
    case 3
    with o r assms(2) distinct show ?thesis by (simp add: told_def woken_no_memory)
  next
    case 4
    with o r assms(2) distinct scatter show ?thesis by (simp add: told_def woken_large large_or_old)
  next
    case 5
    with o r assms(2) distinct show ?thesis by (simp add: told_def woken_large large_or_old)
  qed
qed

text \<open>
  C19: What a thread is told that waited for a message is what it would have been told had it found the message in the
  queue: the same code, the message in the same cases, the same size and scatter list.  The one exception is a
  scatter list for which there is no memory: the thread that finds the message gets the error, the thread that waited panics.
\<close>

theorem waiting_receive_agrees:
  assumes "offer cfg kmsg th = (th', got)" and "woken = (if got then th'\<lparr>ith_kmsg := Some kmsg, ith_seqno := seqno\<rparr> else th')"
    and "rcv_check cfg (ith_rcv_option th) (ith_msize th) (ith_memory th) (ith_list th) kmsg = (ret, sl)"
  shows "rcv_woken woken result option timeout =
      (if ret = Inl (Rcv_error (MACH_MSG_VM_KERNEL OR MACH_RCV_BODY_ERROR)) then None
       else Some (Inl (case ret of Inl res \<Rightarrow> res | Inr mr \<Rightarrow> Rcv_message mr kmsg seqno))) \<and>
    ith_list woken = sl \<and> (got \<longleftrightarrow> \<not> isl ret)"
proof -
  let ?old = "msgh_bits kmsg AND MACH_MSGH_BITS_OLD_FORMAT \<noteq> 0" and ?rcv_old = "ith_rcv_option th AND MACH_RCV_OLD_FORMAT \<noteq> 0"
    and ?big = "msgh_size kmsg > ith_msize th - REQUESTED_TRAILER_SIZE cfg (ith_rcv_option th)"
    and ?complex = "msgh_bits kmsg AND MACH_MSGH_BITS_COMPLEX \<noteq> 0"
  consider (old) "?old" | (rcv_old) "\<not> ?old" "?rcv_old" | (big) "\<not> ?old" "\<not> ?rcv_old" "?big"
    | (plain) "\<not> ?old" "\<not> ?rcv_old" "\<not> ?big" "(if ?complex then ith_list th else None) = None"
    | (scatter) l where "\<not> ?old" "\<not> ?rcv_old" "\<not> ?big" "?complex" "ith_list th = Some l"
    by (metis option.exhaust)
  then show ?thesis
  proof cases
    case old
    with woken_old [OF assms] show ?thesis by (simp add: told_def)
  next
    case rcv_old
    with assms(1,3) obtain mr where "th' = th\<lparr>ith_state := mr\<rparr>" "got" "ret = Inr mr" "sl = ith_list th" "mr = MACH_RCV_HEADER_ERROR \<or> mr = MACH_MSG_SUCCESS"
      by (auto simp: offer_def offer_new_def rcv_check_def Let_def split: if_splits)
    with assms(2) show ?thesis by (auto simp: rcv_woken_def Let_def)
  next
    case big
    show ?thesis
    proof (cases "ith_rcv_option th AND MACH_RCV_LARGE = 0")
      case True
      with big assms(1,3) have "th' = th\<lparr>ith_state := MACH_RCV_TOO_LARGE\<rparr>" "got" "ret = Inr MACH_RCV_TOO_LARGE" "sl = ith_list th"
        by (simp_all add: offer_def offer_new_def rcv_check_def Let_def)
      with assms(2) True big show ?thesis by (simp add: woken_large large_or_old)
    next
      case False
      with big assms(1,3) have "th' = th\<lparr>ith_state := MACH_RCV_TOO_LARGE, ith_msize := msgh_size kmsg\<rparr>" "\<not> got"
        "ret = Inl (Rcv_large MACH_RCV_TOO_LARGE (msgh_size kmsg))" "sl = ith_list th"
        by (simp_all add: offer_def offer_new_def rcv_check_def Let_def)
      with assms(2) False show ?thesis by (simp add: woken_large large_or_old)
    qed
  next
    case plain
    then have "th' = th\<lparr>ith_state := MACH_MSG_SUCCESS\<rparr>" "got" "ret = Inr MACH_MSG_SUCCESS" "sl = ith_list th"
      using assms(1,3) by (simp_all add: offer_def offer_new_def rcv_check_def Let_def)
    with assms(2) show ?thesis by (simp add: rcv_woken_def Let_def)
  next
    case (scatter l)
    with woken_scatter [OF assms, of l] show ?thesis by (simp add: told_def)
  qed
qed

text \<open>A thread whose scatter list is too small for a message with out-of-line memory, and no memory for a larger one.\<close>

definition scatter_thread :: ipc_thread where
  "scatter_thread = (example_thread 1)\<lparr>ith_rcv_option := MACH_RCV_LARGE, ith_msize := 100, ith_list := Some [MACH_MSG_OOL_DESCRIPTOR 4 True],
     ith_memory := False\<rparr>"

definition scatter_kmsg :: ipc_kmsg where
  "scatter_kmsg = (example_kmsg 8 40)\<lparr>msgh_bits := MACH_MSGH_BITS_COMPLEX, msgh_body := [MACH_MSG_OOL_DESCRIPTOR 8 False]\<rparr>"

lemmas scatter_example = scatter_thread_def scatter_kmsg_def example_thread_def example_kmsg_def example_config_def REQUESTED_TRAILER_SIZE_def
  MACH_RCV_LARGE_def MACH_RCV_OLD_FORMAT_def MACH_MSGH_BITS_COMPLEX_def MACH_MSGH_BITS_OLD_FORMAT_def ipc_kmsg_check_scatter_def

theorem waiting_receive_agrees_witness:
  "rcv_woken (fst (offer example_config scatter_kmsg scatter_thread)) THREAD_AWAKENED 0 0 = None"
proof -
  have "rcv_check example_config (ith_rcv_option scatter_thread) (ith_msize scatter_thread) (ith_memory scatter_thread) (ith_list scatter_thread) scatter_kmsg =
      (Inl (Rcv_error (MACH_MSG_VM_KERNEL OR MACH_RCV_BODY_ERROR)), ith_list scatter_thread)"
    by (simp add: rcv_check_def scatter_example rcv_codes Let_def)
  moreover obtain th' where "offer example_config scatter_kmsg scatter_thread = (th', False)"
    by (simp add: offer_def offer_new_def scatter_example rcv_codes Let_def)
  ultimately show ?thesis using waiting_receive_agrees [of example_config scatter_kmsg scatter_thread th' False th'] by simp
qed

text \<open>
  When a thread waits with a scatter list that is too small and there is no memory for a larger one, a sender wakes it
  with the code \<^verbatim>\<open>MACH_MSG_VM_KERNEL | MACH_RCV_BODY_ERROR\<close>, which \<^verbatim>\<open>ipc_mqueue_receive\<close> does not expect: the kernel panics.
\<close>

theorem receive_panics:
  assumes "msgh_bits kmsg AND MACH_MSGH_BITS_OLD_FORMAT = 0" and "msgh_bits kmsg AND MACH_MSGH_BITS_COMPLEX \<noteq> 0"
    and "ith_rcv_option th AND MACH_RCV_OLD_FORMAT = 0" and "ith_rcv_option th AND MACH_RCV_LARGE \<noteq> 0"
    and "msgh_size kmsg \<le> ith_msize th - REQUESTED_TRAILER_SIZE cfg (ith_rcv_option th)"
    and "ith_list th = Some sl" and "scatter_loop True (length sl) False (msgh_body kmsg) sl = Inr True" and "\<not> ith_memory th"
  shows "\<exists>woken es. snd (snd (snd (deliver cfg kmsg (th # ths) seqno))) = Thread_go woken # es \<and>
    ipc_mqueue_receive cfg sched st mq woken option max_size timeout (Some result) list = None"
proof -
  have o: "offer cfg kmsg th = (th\<lparr>ith_state := MACH_MSG_VM_KERNEL OR MACH_RCV_BODY_ERROR, ith_list := Some sl\<rparr>, False)"
    using assms by (auto simp: offer_def offer_new_def ipc_kmsg_check_scatter_def Let_def rcv_codes)
  then show ?thesis
    by (auto simp: Let_def ipc_mqueue_receive_def rcv_woken_def rcv_codes split: prod.splits)
qed

theorem receive_panics_witness:
  "ipc_mqueue_receive example_config [] quiet_state (Port_queue 8)
     (case snd (snd (snd (deliver example_config scatter_kmsg [scatter_thread] 0))) of Thread_go woken # _ \<Rightarrow> woken) MACH_RCV_LARGE 100 0
     (Some THREAD_AWAKENED) (Some None) = None"
proof -
  have "\<exists>woken es. snd (snd (snd (deliver example_config scatter_kmsg [scatter_thread] 0))) = Thread_go woken # es \<and>
      ipc_mqueue_receive example_config [] quiet_state (Port_queue 8) woken MACH_RCV_LARGE 100 0 (Some THREAD_AWAKENED) (Some None) = None"
    by (rule receive_panics [where sl = "[MACH_MSG_OOL_DESCRIPTOR 4 True]"]) (simp_all add: scatter_example)
  then show ?thesis by auto
qed

section \<open>Requests for the acceptance of a message\<close>

lemma soright_for: "imar_soright_for st sid notify = (Some so, st') \<Longrightarrow> notify \<noteq> MACH_PORT_NULL \<Longrightarrow> so \<noteq> IP_NULL"
  by (auto simp: imar_soright_for_def split: prod.splits if_splits)

lemma imar_at_enter: "imar_at (imar_enter m a req) a = req"
  by (simp add: imar_enter_def imar_link_def set_imarb_def Let_def)

lemma create_soright:
  assumes run: "ipc_marequest_create alloc st sid p notify = Some (Inr a, st1)" and notify: "notify \<noteq> MACH_PORT_NULL"
  shows "imar_soright (imar_at (st_marequests st1) a) \<noteq> IP_NULL \<and> a \<noteq> 0"
proof -
  have a: "alloc \<noteq> 0" "is_active (st_spaces st sid)" using run by (auto simp: ipc_marequest_create_def split: if_splits)
  obtain found st0 where rev: "ipc_right_reverse st sid p = Some (found, st0)"
    using run a by (cases "ipc_right_reverse st sid p") (auto simp: ipc_marequest_create_def)
  obtain so st2 where so: "imar_soright_for st0 sid notify = (so, st2)" by fastforce
  show ?thesis
  proof (cases found)
    case None
    with run a rev so soright_for [OF _ notify] show ?thesis
      by (auto simp: ipc_marequest_create_def Let_def split: option.splits)
  next
    case (Some x)
    with run a rev so soright_for [OF _ notify] show ?thesis
      by (cases x) (auto simp: ipc_marequest_create_def Let_def imar_at_enter split: option.splits if_splits)
  qed
qed

lemma destroy_soright: "imar_soright (imar_at (st_marequests st) a) \<noteq> IP_NULL \<Longrightarrow> ipc_marequest_destroy st a = None"
  unfolding ipc_marequest_destroy_def Let_def by (auto simp: bind_eq_None_conv split: prod.splits)

text \<open>
  C40: When a message was sent with a request for its acceptance whose notification goes to a receive right of the sender,
  its receiver panics: as long as the send-once right stays in the request, the receive of the message never ends.
\<close>

theorem accepted_request_panics:
  assumes "ipc_marequest_create alloc st sid p notify = Some (Inr a, st1)" and "notify \<noteq> MACH_PORT_NULL" and "ikm_marequest kmsg = a"
    and "imar_soright (imar_at (st_marequests st2) a) = imar_soright (imar_at (st_marequests st1) a)"
  shows "rcv_finish st2 kmsg = None"
  using create_soright [OF assms(1,2)] destroy_soright [of st2 a] assms(3,4) by (simp add: rcv_finish_def)

theorem accepted_request_panics_witness:
  "\<exists>st1. ipc_marequest_create 0x40 (right_state MACH_PORT_TYPE_RECEIVE 5 (live_port\<lparr>ip_receiver := 16, ip_receiver_name := 0x100\<rparr>)) 16 5 0x100 =
      Some (Inr 0x40, st1) \<and> rcv_finish st1 ((example_kmsg 5 24)\<lparr>ikm_marequest := 0x40\<rparr>) = None"
proof -
  let ?c = "ipc_marequest_create 0x40 (right_state MACH_PORT_TYPE_RECEIVE 5 (live_port\<lparr>ip_receiver := 16, ip_receiver_name := 0x100\<rparr>)) 16 5 0x100"
  have "case ?c of Some (Inr a, _) \<Rightarrow> a = 0x40 | _ \<Rightarrow> False" by code_simp
  then obtain st1 where run: "?c = Some (Inr 0x40, st1)" by (auto split: option.splits sum.splits prod.splits)
  from accepted_request_panics [OF run _ _ refl, of "(example_kmsg 5 24)\<lparr>ikm_marequest := 0x40\<rparr>"] run show ?thesis
    by (auto simp: MACH_PORT_NULL_def)
qed

end
