(* ===== verification/Ipc_Queue.thy ===== *)
theory Ipc_Queue
  imports Mach_Prelude
begin

text \<open>
  The queues of messages and of threads as the code has them: rings of elements that are linked in both directions,
  with a pointer to the first one (\<^verbatim>\<open>src/kernel/ipc/ipc_kmsg.h\<close>, \<^verbatim>\<open>ipc_kmsg.c\<close>, \<^verbatim>\<open>ipc_thread.h\<close>, \<^verbatim>\<open>ipc_thread.c\<close>).  The other
  theories have lists in their place; the locale \<open>ring_queue\<close> says what that needs, and both kinds of queue meet it.
\<close>

section \<open>The operations\<close>

text \<open>The links of the element at an address; address 0 is \<^verbatim>\<open>IKM_NULL\<close> and \<^verbatim>\<open>ITH_NULL\<close>.\<close>

record links =
  lk_next :: "32 word"
  lk_prev :: "32 word"

type_synonym link_heap = "32 word \<Rightarrow> links"

record ring =
  rg_base :: "32 word"
  rg_links :: link_heap

definition link_next :: "link_heap \<Rightarrow> 32 word \<Rightarrow> 32 word \<Rightarrow> link_heap" where
  "link_next h a b = h(a := (h a)\<lparr>lk_next := b\<rparr>)"

definition link_prev :: "link_heap \<Rightarrow> 32 word \<Rightarrow> 32 word \<Rightarrow> link_heap" where
  "link_prev h a b = h(a := (h a)\<lparr>lk_prev := b\<rparr>)"

text \<open>Messages.  A failed assertion is \<open>None\<close>.\<close>

definition ipc_kmsg_enqueue_macro :: "ring \<Rightarrow> 32 word \<Rightarrow> ring option" where
  "ipc_kmsg_enqueue_macro q kmsg =
    (let first = rg_base q; h = rg_links q
     in if first = 0 then Some \<lparr>rg_base = kmsg, rg_links = link_prev (link_next h kmsg kmsg) kmsg kmsg\<rparr>
        else
          let last = lk_prev (h first); h = link_next h kmsg first; h = link_prev h kmsg last;
              h = link_prev h first kmsg; h = link_next h last kmsg
          in Some (q\<lparr>rg_links := h\<rparr>))"

definition ipc_kmsg_rmqueue_first_macro :: "ring \<Rightarrow> 32 word \<Rightarrow> ring option" where
  "ipc_kmsg_rmqueue_first_macro q kmsg =
    (let h = rg_links q; next = lk_next (h kmsg)
     in if rg_base q \<noteq> kmsg then None
        else if next = kmsg then (if lk_prev (h kmsg) \<noteq> kmsg then None else Some (q\<lparr>rg_base := 0\<rparr>))
        else
          let prev = lk_prev (h kmsg); h = link_prev h next prev; h = link_next h prev next
          in Some \<lparr>rg_base = next, rg_links = h\<rparr>)"

definition ipc_kmsg_dequeue :: "ring \<Rightarrow> (32 word \<times> ring) option" where
  "ipc_kmsg_dequeue q =
    (let first = rg_base q
     in if first \<noteq> 0 then map_option (Pair first) (ipc_kmsg_rmqueue_first_macro q first) else Some (first, q))"

definition ipc_kmsg_rmqueue :: "ring \<Rightarrow> 32 word \<Rightarrow> ring option" where
  "ipc_kmsg_rmqueue q kmsg =
    (let h = rg_links q; next = lk_next (h kmsg); prev = lk_prev (h kmsg)
     in if rg_base q = 0 then None
        else if next = kmsg then (if prev \<noteq> kmsg \<or> rg_base q \<noteq> kmsg then None else Some (q\<lparr>rg_base := 0\<rparr>))
        else
          let q = (if rg_base q = kmsg then q\<lparr>rg_base := next\<rparr> else q); h = link_prev h next prev; h = link_next h prev next
          in Some (q\<lparr>rg_links := h\<rparr>))"

definition ipc_kmsg_queue_next :: "ring \<Rightarrow> 32 word \<Rightarrow> 32 word option" where
  "ipc_kmsg_queue_next q kmsg =
    (if rg_base q = 0 then None
     else let next = lk_next (rg_links q kmsg) in Some (if rg_base q = next then 0 else next))"

text \<open>Threads.  A thread that is in no queue is linked to itself.\<close>

definition ipc_thread_links_init :: "link_heap \<Rightarrow> 32 word \<Rightarrow> link_heap" where
  "ipc_thread_links_init h thread = link_prev (link_next h thread thread) thread thread"

definition ipc_thread_enqueue_macro :: "ring \<Rightarrow> 32 word \<Rightarrow> ring option" where
  "ipc_thread_enqueue_macro q thread =
    (let first = rg_base q; h = rg_links q
     in if first = 0 then
          (if lk_next (h thread) \<noteq> thread \<or> lk_prev (h thread) \<noteq> thread then None else Some (q\<lparr>rg_base := thread\<rparr>))
        else
          let last = lk_prev (h first); h = link_next h thread first; h = link_prev h thread last;
              h = link_prev h first thread; h = link_next h last thread
          in Some (q\<lparr>rg_links := h\<rparr>))"

definition ipc_thread_rmqueue_first_macro :: "ring \<Rightarrow> 32 word \<Rightarrow> ring option" where
  "ipc_thread_rmqueue_first_macro q thread =
    (let h = rg_links q; next = lk_next (h thread)
     in if rg_base q \<noteq> thread then None
        else if next = thread then (if lk_prev (h thread) \<noteq> thread then None else Some (q\<lparr>rg_base := 0\<rparr>))
        else
          let prev = lk_prev (h thread); h = link_prev h next prev; h = link_next h prev next
          in Some \<lparr>rg_base = next, rg_links = ipc_thread_links_init h thread\<rparr>)"

definition ipc_thread_dequeue :: "ring \<Rightarrow> (32 word \<times> ring) option" where
  "ipc_thread_dequeue q =
    (let first = rg_base q
     in if first \<noteq> 0 then map_option (Pair first) (ipc_thread_rmqueue_first_macro q first) else Some (first, q))"

definition ith_rmqueue :: "ring \<Rightarrow> 32 word \<Rightarrow> ring option" where
  "ith_rmqueue q thread =
    (let h = rg_links q; next = lk_next (h thread); prev = lk_prev (h thread)
     in if rg_base q = 0 then None
        else if next = thread then (if prev \<noteq> thread \<or> rg_base q \<noteq> thread then None else Some (q\<lparr>rg_base := 0\<rparr>))
        else
          let q = (if rg_base q = thread then q\<lparr>rg_base := next\<rparr> else q); h = link_prev h next prev; h = link_next h prev next
          in Some (q\<lparr>rg_links := ipc_thread_links_init h thread\<rparr>))"

section \<open>Rings\<close>

text \<open>Neighbours are linked in both directions; the neighbour of the last element is the first one.\<close>

abbreviation linked :: "link_heap \<Rightarrow> 32 word list \<Rightarrow> bool" where
  "linked h \<equiv> successively (\<lambda>a b. lk_next (h a) = b \<and> lk_prev (h b) = a)"

definition is_ring :: "link_heap \<Rightarrow> 32 word list \<Rightarrow> bool" where
  "is_ring h as \<longleftrightarrow> distinct as \<and> 0 \<notin> set as \<and> (as \<noteq> [] \<longrightarrow> linked h (as @ [hd as]))"

definition ring_of :: "ring \<Rightarrow> 32 word list \<Rightarrow> bool" where
  "ring_of q as \<longleftrightarrow> is_ring (rg_links q) as \<and> rg_base q = (if as = [] then 0 else hd as)"

lemma links_simps [simp]:
  "lk_next (link_next h a b x) = (if x = a then b else lk_next (h x))" "lk_prev (link_next h a b x) = lk_prev (h x)"
  "lk_prev (link_prev h a b x) = (if x = a then b else lk_prev (h x))" "lk_next (link_prev h a b x) = lk_next (h x)"
  by (simp_all add: link_next_def link_prev_def)

lemma in_set_tl: "a \<in> set (tl as) \<Longrightarrow> a \<in> set as"
  by (cases as) auto

lemma linked_split: "linked h (as @ b # bs) \<longleftrightarrow> linked h (as @ [b]) \<and> linked h (b # bs)"
  by (auto simp: successively_append_iff)

lemma links_cong:
  assumes "\<And>a. a \<in> set (butlast as) \<Longrightarrow> lk_next (h' a) = lk_next (h a)" and "\<And>a. a \<in> set (tl as) \<Longrightarrow> lk_prev (h' a) = lk_prev (h a)"
  shows "linked h' as = linked h as"
  using assms
proof (induction as rule: induct_list012)
  case (3 a b as)
  have "linked h' (b # as) = linked h (b # as)"
    by (rule "3.IH"(2)) (use "3.prems" in \<open>auto dest: in_set_tl\<close>)
  with "3.prems" show ?case by simp
qed simp_all

lemma is_ring_rotate: "is_ring h (as @ bs) \<Longrightarrow> is_ring h (bs @ as)"
proof (cases "as = [] \<or> bs = []")
  case False
  then obtain a as' b bs' where split: "as = a # as'" "bs = b # bs'" by (metis list.exhaust)
  assume "is_ring h (as @ bs)"
  moreover have "linked h (as @ bs @ [a]) \<longleftrightarrow> linked h (bs @ as @ [b])"
    unfolding split using linked_split [of h "a # as'" b "bs' @ [a]"] linked_split [of h "b # bs'" a "as' @ [b]"] by auto
  ultimately show ?thesis by (auto simp: is_ring_def split)
qed auto

lemma is_ring_single: "is_ring h [a] \<longleftrightarrow> a \<noteq> 0 \<and> lk_next (h a) = a \<and> lk_prev (h a) = a"
  by (auto simp: is_ring_def)

text \<open>The neighbours of an element, and the ring without it.\<close>

lemma is_ring_Cons:
  assumes "is_ring h (a # as)" and "as \<noteq> []"
  shows "lk_next (h a) = hd as" "lk_prev (h a) = last as" "hd as \<noteq> a" "linked h as" "distinct as" "0 \<notin> set as" "a \<notin> set as" "a \<noteq> 0"
  using assms by (auto simp: is_ring_def successively_append_iff successively_Cons)

lemma is_ring_closed:
  assumes "linked h as" and "as \<noteq> []" and "distinct as" and "0 \<notin> set as"
    and "\<And>x. x \<in> set (butlast as) \<Longrightarrow> lk_next (h' x) = lk_next (h x)" and "\<And>x. x \<in> set (tl as) \<Longrightarrow> lk_prev (h' x) = lk_prev (h x)"
    and "lk_next (h' (last as)) = hd as" and "lk_prev (h' (hd as)) = last as"
  shows "is_ring h' as"
  using links_cong [of as h' h] assms by (simp add: is_ring_def successively_append_iff)

lemma ring_unlink:
  assumes "is_ring h (a # as)" and "as \<noteq> []"
  shows "is_ring (link_next (link_prev h (lk_next (h a)) (lk_prev (h a))) (lk_prev (h a)) (lk_next (h a))) as"
proof -
  note r = is_ring_Cons [OF assms]
  have "last as \<notin> set (butlast as)" using r(5) assms(2) by (metis append_butlast_last_id distinct_append disjoint_iff list.set_intros(1))
  moreover have "hd as \<notin> set (tl as)" using r(5) assms(2) by (cases as) auto
  ultimately show ?thesis
    unfolding r(1,2) by (intro is_ring_closed [OF r(4) assms(2) r(5,6)]) auto
qed

lemma ring_link:
  assumes "is_ring h as" and "as \<noteq> []" and "a \<notin> set as" and "a \<noteq> 0"
  shows "is_ring (link_next (link_prev (link_prev (link_next h a (hd as)) a (lk_prev (h (hd as)))) (hd as) a) (lk_prev (h (hd as))) a) (as @ [a])"
    (is "is_ring ?h _")
proof -
  have l: "linked h as" "lk_prev (h (hd as)) = last as" "distinct as" "0 \<notin> set as"
    using assms(1,2) by (auto simp: is_ring_def successively_append_iff)
  have "last as \<notin> set (butlast as)" using l(3) assms(2) by (metis append_butlast_last_id distinct_append disjoint_iff list.set_intros(1))
  moreover have "hd as \<notin> set (tl as)" using l(3) assms(2) by (cases as) auto
  moreover have "x \<noteq> a" if "x \<in> set (butlast as) \<or> x \<in> set (tl as)" for x
    using that assms(3) by (auto dest: in_set_butlastD in_set_tl)
  ultimately have "linked ?h as = linked h as" unfolding l(2) by (intro links_cong) auto
  then show ?thesis using l assms(2-4) by (auto simp: is_ring_def successively_append_iff)
qed

section \<open>The interface\<close>

text \<open>
  What the message code relies on: \<open>holds q as\<close> says that the elements of the queue are \<open>as\<close>, and \<open>idle q a\<close> that
  the element \<open>a\<close> may be put into it.  No operation makes another idle element unfit.
\<close>

locale ring_queue =
  fixes holds :: "'q \<Rightarrow> 'a list \<Rightarrow> bool" and idle :: "'q \<Rightarrow> 'a \<Rightarrow> bool" and null :: 'a
    and enqueue :: "'q \<Rightarrow> 'a \<Rightarrow> 'q option" and dequeue :: "'q \<Rightarrow> ('a \<times> 'q) option" and remove :: "'q \<Rightarrow> 'a \<Rightarrow> 'q option"
  assumes enqueue_law: "holds q as \<Longrightarrow> idle q a \<Longrightarrow> a \<notin> set as \<Longrightarrow>
      \<exists>q'. enqueue q a = Some q' \<and> holds q' (as @ [a]) \<and> (\<forall>b. b \<noteq> a \<longrightarrow> b \<notin> set as \<longrightarrow> idle q b \<longrightarrow> idle q' b)"
    and dequeue_empty: "holds q [] \<Longrightarrow> dequeue q = Some (null, q)"
    and dequeue_law: "holds q (a # as) \<Longrightarrow>
      \<exists>q'. dequeue q = Some (a, q') \<and> holds q' as \<and> (\<forall>b. b \<notin> set as \<longrightarrow> b = a \<or> idle q b \<longrightarrow> idle q' b)"
    and remove_law: "holds q (as @ a # bs) \<Longrightarrow>
      \<exists>q'. remove q a = Some q' \<and> holds q' (as @ bs) \<and> (\<forall>b. b \<notin> set (as @ bs) \<longrightarrow> b = a \<or> idle q b \<longrightarrow> idle q' b)"
    and holds_distinct: "holds q as \<Longrightarrow> distinct as"

text \<open>Operations one after another, on the queue and on the list of its elements.\<close>

datatype 'a queue_op = Enqueue 'a | Dequeue | Remove 'a

fun ring_run ::
    "('q \<Rightarrow> 'a \<Rightarrow> 'q option) \<Rightarrow> ('q \<Rightarrow> ('a \<times> 'q) option) \<Rightarrow> ('q \<Rightarrow> 'a \<Rightarrow> 'q option) \<Rightarrow> 'a queue_op list \<Rightarrow> 'q \<Rightarrow> ('a list \<times> 'q) option" where
  "ring_run enq deq rem [] q = Some ([], q)"
| "ring_run enq deq rem (Enqueue a # ops) q = Option.bind (enq q a) (ring_run enq deq rem ops)"
| "ring_run enq deq rem (Dequeue # ops) q =
    Option.bind (deq q) (\<lambda>(a, q). map_option (\<lambda>(out, q). (a # out, q)) (ring_run enq deq rem ops q))"
| "ring_run enq deq rem (Remove a # ops) q = Option.bind (rem q a) (ring_run enq deq rem ops)"

text \<open>On lists, \<open>None\<close> stands for an operation that is not allowed: an element that is there already, or is not there.\<close>

fun list_run :: "'a \<Rightarrow> ('a \<Rightarrow> bool) \<Rightarrow> 'a queue_op list \<Rightarrow> 'a list \<Rightarrow> ('a list \<times> 'a list) option" where
  "list_run null fit [] as = Some ([], as)"
| "list_run null fit (Enqueue a # ops) as = (if fit a \<and> a \<notin> set as then list_run null fit ops (as @ [a]) else None)"
| "list_run null fit (Dequeue # ops) as =
    (case as of
       [] \<Rightarrow> map_option (\<lambda>(out, as). (null # out, as)) (list_run null fit ops [])
     | a # as \<Rightarrow> map_option (\<lambda>(out, as). (a # out, as)) (list_run null fit ops as))"
| "list_run null fit (Remove a # ops) as = (if a \<in> set as then list_run null fit ops (remove1 a as) else None)"

context ring_queue
begin

text \<open>A sequence of operations that is allowed on the list runs on the ring, with the same results.\<close>

lemma simulates:
  assumes "holds q as" and "\<And>a. fit a \<Longrightarrow> a \<notin> set as \<Longrightarrow> idle q a" and "list_run null fit ops as = Some (out, as')"
  shows "\<exists>q'. ring_run enqueue dequeue remove ops q = Some (out, q') \<and> holds q' as'"
  using assms
proof (induction ops arbitrary: q as out)
  case (Cons x ops)
  show ?case
  proof (cases x)
    case (Enqueue a)
    with Cons.prems obtain q1 where q1: "enqueue q a = Some q1" "holds q1 (as @ [a])" "\<And>b. b \<noteq> a \<Longrightarrow> b \<notin> set as \<Longrightarrow> idle q b \<Longrightarrow> idle q1 b"
      using enqueue_law [of q as a] by (auto split: if_splits)
    with Cons.IH [OF q1(2), of out] Cons.prems Enqueue show ?thesis by (auto split: if_splits)
  next
    case Dequeue
    show ?thesis
    proof (cases as)
      case Nil
      with Cons.prems(1) have d: "dequeue q = Some (null, q)" using dequeue_empty by simp
      obtain out1 where "list_run null fit ops [] = Some (out1, as')" "out = null # out1"
        using Cons.prems(3) Dequeue Nil by auto
      with Cons.IH [of q "[]" out1] Cons.prems(1,2) Nil Dequeue d show ?thesis by auto
    next
      case (Cons a bs)
      then obtain q1 where q1: "dequeue q = Some (a, q1)" "holds q1 bs" "\<And>b. b \<notin> set bs \<Longrightarrow> b = a \<or> idle q b \<Longrightarrow> idle q1 b"
        using dequeue_law [of q a bs] Cons.prems(1) by auto
      obtain out1 where "list_run null fit ops bs = Some (out1, as')" "out = a # out1"
        using Cons.prems(3) Dequeue Cons by auto
      moreover have "idle q1 b" if "fit b" "b \<notin> set bs" for b using that Cons.prems(2) [of b] q1(3) [of b] Cons by auto
      ultimately show ?thesis using Cons.IH [OF q1(2), of out1] Dequeue q1(1) by auto
    qed
  next
    case (Remove a)
    then obtain ls rs where as: "as = ls @ a # rs" "a \<notin> set ls" using Cons.prems(3) split_list_first [of a as] by (auto split: if_splits)
    then obtain q1 where q1: "remove q a = Some q1" "holds q1 (ls @ rs)" "\<And>b. b \<notin> set (ls @ rs) \<Longrightarrow> b = a \<or> idle q b \<Longrightarrow> idle q1 b"
      using remove_law [of q ls a rs] Cons.prems(1) by auto
    have "remove1 a as = ls @ rs" using as by (simp add: remove1_append)
    moreover have "idle q1 b" if "fit b" "b \<notin> set (ls @ rs)" for b using that Cons.prems(2) [of b] q1(3) [of b] as by auto
    ultimately show ?thesis using Cons.IH [OF q1(2), of out] Cons.prems(3) Remove q1(1) by (auto split: if_splits)
  qed
qed auto

end

section \<open>The two kinds of queues\<close>

definition idle_kmsg :: "ring \<Rightarrow> 32 word \<Rightarrow> bool" where
  "idle_kmsg q a \<longleftrightarrow> a \<noteq> 0"

definition idle_thread :: "ring \<Rightarrow> 32 word \<Rightarrow> bool" where
  "idle_thread q a \<longleftrightarrow> a \<noteq> 0 \<and> lk_next (rg_links q a) = a \<and> lk_prev (rg_links q a) = a"

lemma ring_of_Nil [simp]: "ring_of q [] \<longleftrightarrow> rg_base q = 0"
  by (simp add: ring_of_def is_ring_def)

lemma ring_of_base: "ring_of q as \<Longrightarrow> as \<noteq> [] \<Longrightarrow> rg_base q = hd as \<and> hd as \<noteq> 0 \<and> hd as \<in> set as"
  by (cases as) (auto simp: ring_of_def is_ring_def)

lemma ring_of_single: "ring_of q [a] \<longleftrightarrow> rg_base q = a \<and> a \<noteq> 0 \<and> lk_next (rg_links q a) = a \<and> lk_prev (rg_links q a) = a"
  by (auto simp: ring_of_def is_ring_single)

text \<open>An element and the others of the ring, in the order from it on.\<close>

lemma ring_of_element:
  assumes "ring_of q (as @ a # bs)" and "bs @ as \<noteq> []"
  shows "is_ring (rg_links q) (a # bs @ as)" "lk_next (rg_links q a) = hd (bs @ as)" "lk_prev (rg_links q a) = last (bs @ as)"
    "hd (bs @ as) \<noteq> a" "a \<noteq> 0" "a \<notin> set (bs @ as)" "rg_base q = a \<longleftrightarrow> as = []" "rg_base q \<noteq> 0"
proof -
  show r: "is_ring (rg_links q) (a # bs @ as)"
    using assms(1) is_ring_rotate [of "rg_links q" as "a # bs"] by (simp add: ring_of_def)
  note c = is_ring_Cons [OF r assms(2)]
  then show "lk_next (rg_links q a) = hd (bs @ as)" "lk_prev (rg_links q a) = last (bs @ as)" "hd (bs @ as) \<noteq> a" "a \<noteq> 0" "a \<notin> set (bs @ as)"
    by auto
  show "rg_base q = a \<longleftrightarrow> as = []" "rg_base q \<noteq> 0"
    using c(6-8) ring_of_base [OF assms(1)] by (cases as; auto)+
qed

lemma ring_remove:
  assumes q: "ring_of q (as @ a # bs)" and ne: "bs @ as \<noteq> []" and h: "\<And>x. x \<noteq> a \<Longrightarrow> h' x =
    link_next (link_prev (rg_links q) (hd (bs @ as)) (last (bs @ as))) (last (bs @ as)) (hd (bs @ as)) x"
  shows "ring_of \<lparr>rg_base = (if as = [] then hd bs else rg_base q), rg_links = h'\<rparr> (as @ bs)"
proof -
  let ?h = "link_next (link_prev (rg_links q) (hd (bs @ as)) (last (bs @ as))) (last (bs @ as)) (hd (bs @ as))"
  note e = ring_of_element [OF q ne]
  have r: "is_ring ?h (bs @ as)" using ring_unlink [OF e(1) ne] unfolding e(2,3) .
  moreover have "linked h' ((bs @ as) @ [hd (bs @ as)]) = linked ?h ((bs @ as) @ [hd (bs @ as)])"
  proof (rule links_cong)
    fix x assume "x \<in> set (butlast ((bs @ as) @ [hd (bs @ as)]))"
    then have "x \<noteq> a" using e(6) by (auto simp: butlast_append)
    then show "lk_next (h' x) = lk_next (?h x)" by (simp add: h)
  next
    fix x assume "x \<in> set (tl ((bs @ as) @ [hd (bs @ as)]))"
    then have "x \<in> set (bs @ as)" using ne hd_in_set [OF ne] by (cases "bs @ as") auto
    then have "x \<noteq> a" using e(6) by auto
    then show "lk_prev (h' x) = lk_prev (?h x)" by (simp add: h)
  qed
  ultimately have "is_ring h' (bs @ as)" by (simp add: is_ring_def)
  then show ?thesis using is_ring_rotate [of h' bs as] ring_of_base [OF q] ne by (cases as) (auto simp: ring_of_def)
qed

lemma ring_add:
  assumes "ring_of q as" and "as \<noteq> []" and "a \<notin> set as" and "a \<noteq> 0"
    and h': "h' = link_next (link_prev (link_prev (link_next (rg_links q) a (rg_base q)) a (lk_prev (rg_links q (rg_base q)))) (rg_base q) a)
      (lk_prev (rg_links q (rg_base q))) a"
  shows "ring_of (q\<lparr>rg_links := h'\<rparr>) (as @ [a])" and "b \<noteq> a \<Longrightarrow> b \<notin> set as \<Longrightarrow> h' b = rg_links q b"
proof -
  have b: "rg_base q = hd as" and r: "is_ring (rg_links q) as" using assms(1,2) by (simp_all add: ring_of_def)
  show "ring_of (q\<lparr>rg_links := h'\<rparr>) (as @ [a])"
    unfolding h' b using ring_link [OF r assms(2-4)] b assms(2) by (simp add: ring_of_def)
  have "lk_prev (rg_links q (hd as)) = last as" using r assms(2) by (auto simp: is_ring_def successively_append_iff)
  then show "b \<noteq> a \<Longrightarrow> b \<notin> set as \<Longrightarrow> h' b = rg_links q b"
    unfolding h' b using assms(2) hd_in_set [OF assms(2)] last_in_set [OF assms(2)] by (auto simp: link_next_def link_prev_def)
qed

lemma ring_frame:
  assumes "bs @ as \<noteq> []" and "b \<notin> set (as @ bs)"
  shows "link_next (link_prev h (hd (bs @ as)) x) (last (bs @ as)) y b = h b"
  using assms hd_in_set [OF assms(1)] last_in_set [OF assms(1)] by (auto simp: link_next_def link_prev_def)

lemma kmsg_enqueue_spec:
  assumes "ring_of q as" and "idle_kmsg q a" and "a \<notin> set as"
  shows "\<exists>q'. ipc_kmsg_enqueue_macro q a = Some q' \<and> ring_of q' (as @ [a])"
proof (cases "as = []")
  case True
  then show ?thesis using assms by (auto simp: ipc_kmsg_enqueue_macro_def idle_kmsg_def Let_def ring_of_single)
next
  case False
  then show ?thesis using assms ring_add(1) [OF assms(1) False assms(3) _ refl] ring_of_base [OF assms(1)]
    by (auto simp: ipc_kmsg_enqueue_macro_def idle_kmsg_def Let_def)
qed

lemma kmsg_rmqueue_spec:
  assumes "ring_of q (as @ a # bs)"
  shows "\<exists>q'. ipc_kmsg_rmqueue q a = Some q' \<and> ring_of q' (as @ bs)"
proof (cases "bs @ as = []")
  case True
  then show ?thesis using assms by (auto simp: ipc_kmsg_rmqueue_def ring_of_single Let_def)
next
  case False
  note e = ring_of_element [OF assms False]
  show ?thesis
    using ring_remove [OF assms False refl] e False
    by (cases "as = []") (auto simp: ipc_kmsg_rmqueue_def Let_def ring_of_def)
qed

lemma kmsg_dequeue_rmqueue: "ring_of q (a # as) \<Longrightarrow> ipc_kmsg_dequeue q = map_option (Pair a) (ipc_kmsg_rmqueue q a)"
  using ring_of_base [of q "a # as"] by (auto simp: ipc_kmsg_dequeue_def ipc_kmsg_rmqueue_first_macro_def ipc_kmsg_rmqueue_def Let_def)

interpretation kmsgs: ring_queue ring_of idle_kmsg 0 ipc_kmsg_enqueue_macro ipc_kmsg_dequeue ipc_kmsg_rmqueue
proof
  fix q as a bs
  show "\<exists>q'. ipc_kmsg_enqueue_macro q a = Some q' \<and> ring_of q' (as @ [a]) \<and> (\<forall>b. b \<noteq> a \<longrightarrow> b \<notin> set as \<longrightarrow> idle_kmsg q b \<longrightarrow> idle_kmsg q' b)"
    if "ring_of q as" "idle_kmsg q a" "a \<notin> set as"
    using kmsg_enqueue_spec [OF that] by (auto simp: idle_kmsg_def)
  show "ring_of q [] \<Longrightarrow> ipc_kmsg_dequeue q = Some (0, q)" by (simp add: ipc_kmsg_dequeue_def)
  show r: "\<exists>q'. ipc_kmsg_rmqueue q a = Some q' \<and> ring_of q' (as @ bs) \<and> (\<forall>b. b \<notin> set (as @ bs) \<longrightarrow> b = a \<or> idle_kmsg q b \<longrightarrow> idle_kmsg q' b)"
    if "ring_of q (as @ a # bs)" for as bs
  proof -
    have "a \<noteq> 0" using that by (auto simp: ring_of_def is_ring_def)
    then show ?thesis using kmsg_rmqueue_spec [OF that] by (auto simp: idle_kmsg_def)
  qed
  show "\<exists>q'. ipc_kmsg_dequeue q = Some (a, q') \<and> ring_of q' as \<and> (\<forall>b. b \<notin> set as \<longrightarrow> b = a \<or> idle_kmsg q b \<longrightarrow> idle_kmsg q' b)"
    if "ring_of q (a # as)"
    using r [of "[]" as] that kmsg_dequeue_rmqueue [OF that] by auto
  show "ring_of q as \<Longrightarrow> distinct as" by (simp add: ring_of_def is_ring_def)
qed

text \<open>Threads: an element that leaves a queue is linked to itself again.\<close>

lemma thread_enqueue_spec:
  assumes "ring_of q as" and "idle_thread q a" and "a \<notin> set as"
  shows "\<exists>q'. ipc_thread_enqueue_macro q a = Some q' \<and> ring_of q' (as @ [a]) \<and>
    (\<forall>b. b \<noteq> a \<longrightarrow> b \<notin> set as \<longrightarrow> idle_thread q b \<longrightarrow> idle_thread q' b)"
proof (cases "as = []")
  case True
  then show ?thesis using assms by (auto simp: ipc_thread_enqueue_macro_def idle_thread_def Let_def ring_of_single)
next
  case False
  have "a \<noteq> 0" using assms(2) by (simp add: idle_thread_def)
  then show ?thesis using assms ring_add [OF assms(1) False assms(3) _ refl] ring_of_base [OF assms(1)] False
    by (auto simp: ipc_thread_enqueue_macro_def idle_thread_def Let_def)
qed

lemma thread_rmqueue_spec:
  assumes "ring_of q (as @ a # bs)"
  shows "\<exists>q'. ith_rmqueue q a = Some q' \<and> ring_of q' (as @ bs) \<and>
    (\<forall>b. b \<notin> set (as @ bs) \<longrightarrow> b = a \<or> idle_thread q b \<longrightarrow> idle_thread q' b)"
proof (cases "bs @ as = []")
  case True
  then show ?thesis using assms by (auto simp: ith_rmqueue_def ring_of_single Let_def idle_thread_def)
next
  case False
  note e = ring_of_element [OF assms False]
  let ?h = "link_next (link_prev (rg_links q) (hd (bs @ as)) (last (bs @ as))) (last (bs @ as)) (hd (bs @ as))"
  let ?q = "\<lparr>rg_base = (if as = [] then hd bs else rg_base q), rg_links = ipc_thread_links_init ?h a\<rparr>"
  have init: "ipc_thread_links_init ?h a x = ?h x" if "x \<noteq> a" for x using that by (simp add: ipc_thread_links_init_def link_next_def link_prev_def)
  have "ith_rmqueue q a = Some ?q" using e False by (cases "as = []") (auto simp: ith_rmqueue_def Let_def)
  moreover have "ring_of ?q (as @ bs)" by (rule ring_remove [OF assms False init])
  moreover have "idle_thread ?q b" if "b \<notin> set (as @ bs)" "b = a \<or> idle_thread q b" for b
  proof (cases "b = a")
    case True
    then show ?thesis using e(5) by (simp add: idle_thread_def ipc_thread_links_init_def)
  next
    case ne: False
    then show ?thesis using that ring_frame [OF False that(1)] by (simp add: idle_thread_def init)
  qed
  ultimately show ?thesis by blast
qed

lemma thread_dequeue_rmqueue: "ring_of q (a # as) \<Longrightarrow> ipc_thread_dequeue q = map_option (Pair a) (ith_rmqueue q a)"
  using ring_of_base [of q "a # as"]
  by (auto simp: ipc_thread_dequeue_def ipc_thread_rmqueue_first_macro_def ith_rmqueue_def Let_def)

interpretation threads: ring_queue ring_of idle_thread 0 ipc_thread_enqueue_macro ipc_thread_dequeue ith_rmqueue
proof
  fix q as a bs
  show "\<exists>q'. ipc_thread_enqueue_macro q a = Some q' \<and> ring_of q' (as @ [a]) \<and> (\<forall>b. b \<noteq> a \<longrightarrow> b \<notin> set as \<longrightarrow> idle_thread q b \<longrightarrow> idle_thread q' b)"
    if "ring_of q as" "idle_thread q a" "a \<notin> set as"
    using thread_enqueue_spec [OF that] .
  show "ring_of q [] \<Longrightarrow> ipc_thread_dequeue q = Some (0, q)" by (simp add: ipc_thread_dequeue_def)
  show "\<exists>q'. ith_rmqueue q a = Some q' \<and> ring_of q' (as @ bs) \<and> (\<forall>b. b \<notin> set (as @ bs) \<longrightarrow> b = a \<or> idle_thread q b \<longrightarrow> idle_thread q' b)"
    if "ring_of q (as @ a # bs)" using thread_rmqueue_spec [OF that] .
  show "\<exists>q'. ipc_thread_dequeue q = Some (a, q') \<and> ring_of q' as \<and> (\<forall>b. b \<notin> set as \<longrightarrow> b = a \<or> idle_thread q b \<longrightarrow> idle_thread q' b)"
    if "ring_of q (a # as)"
    using thread_rmqueue_spec [of q "[]" a as] that thread_dequeue_rmqueue [OF that] by auto
  show "ring_of q as \<Longrightarrow> distinct as" by (simp add: ring_of_def is_ring_def)
qed

section \<open>Queues are lists\<close>

lemma kmsg_queue_next_spec:
  assumes "ring_of q (as @ a # bs)"
  shows "ipc_kmsg_queue_next q a = Some (case bs of [] \<Rightarrow> 0 | b # _ \<Rightarrow> b)"
proof (cases "bs @ as = []")
  case True
  then show ?thesis using assms by (simp add: ipc_kmsg_queue_next_def ring_of_single Let_def)
next
  case False
  note e = ring_of_element [OF assms False]
  have "rg_base q = hd (as @ [a])" using ring_of_base [OF assms] by (cases as) auto
  moreover have "distinct (as @ a # bs)" using assms by (simp add: ring_of_def is_ring_def)
  ultimately show ?thesis
    using e(2,8) False by (cases bs; cases as) (auto simp: ipc_kmsg_queue_next_def Let_def)
qed

text \<open>
  C18: Queues of messages are lists: whatever sequence of putting messages in, taking the first one out and pulling one
  out of the middle is allowed on a list runs on the ring of links without a failed assertion, with the same messages coming
  out, and the ring then holds the list; \<^verbatim>\<open>ipc_kmsg_queue_next\<close> goes through it in its order.
\<close>

theorem kmsg_queue_refines:
  assumes "ring_of q as" and "list_run 0 (\<lambda>a. a \<noteq> 0) ops as = Some (out, as')"
  shows "\<exists>q'. ring_run ipc_kmsg_enqueue_macro ipc_kmsg_dequeue ipc_kmsg_rmqueue ops q = Some (out, q') \<and> ring_of q' as' \<and>
    (\<forall>ls a rs. as' = ls @ a # rs \<longrightarrow> ipc_kmsg_queue_next q' a = Some (case rs of [] \<Rightarrow> 0 | b # _ \<Rightarrow> b))"
  using kmsgs.simulates [OF assms(1) _ assms(2)] kmsg_queue_next_spec by (auto simp: idle_kmsg_def)

definition empty_ring :: ring where
  "empty_ring = \<lparr>rg_base = 0, rg_links = (\<lambda>a. \<lparr>lk_next = a, lk_prev = a\<rparr>)\<rparr>"

definition example_ops :: "32 word queue_op list" where
  "example_ops = [Enqueue 8, Enqueue 16, Enqueue 24, Enqueue 32, Remove 16, Dequeue, Enqueue 8, Dequeue]"

lemma example_ops_list: "list_run 0 (\<lambda>a. a \<noteq> 0) example_ops [] = Some ([8, 24], [32, 8])"
  "list_run 0 (\<lambda>a. a \<in> {8, 16, 24, 32}) example_ops [] = Some ([8, 24], [32, 8])"
  by (simp_all add: example_ops_def)

theorem kmsg_queue_refines_witness:
  "\<exists>q'. ring_run ipc_kmsg_enqueue_macro ipc_kmsg_dequeue ipc_kmsg_rmqueue example_ops empty_ring = Some ([8, 24], q') \<and> ring_of q' [32, 8]"
  using kmsg_queue_refines [OF _ example_ops_list(1), of empty_ring] by (auto simp: empty_ring_def)

text \<open>
  Queues of threads are lists in the same way, if the threads that go in are not in another queue; and a thread that came
  out is again in no queue, as the assertions of the next enqueue want it.
\<close>

theorem thread_queue_refines:
  assumes "ring_of q as" and "\<forall>a \<in> ths. a \<notin> set as \<longrightarrow> idle_thread q a" and "list_run 0 (\<lambda>a. a \<in> ths) ops as = Some (out, as')"
  shows "\<exists>q'. ring_run ipc_thread_enqueue_macro ipc_thread_dequeue ith_rmqueue ops q = Some (out, q') \<and> ring_of q' as'"
  using threads.simulates [OF assms(1) _ assms(3)] assms(2) by blast

theorem thread_queue_refines_witness:
  "\<exists>q'. ring_run ipc_thread_enqueue_macro ipc_thread_dequeue ith_rmqueue example_ops empty_ring = Some ([8, 24], q') \<and> ring_of q' [32, 8]"
  using thread_queue_refines [OF _ _ example_ops_list(2), of empty_ring] by (auto simp: empty_ring_def idle_thread_def)

end
