(* ===== verification/Kmsg_Header.thy ===== *)
theory Kmsg_Header
  imports Ipc_Message
begin

text \<open>
  The rights in the header of a message are taken from the names of its sender: \<^verbatim>\<open>ipc_kmsg_copyin_header\<close> of
  \<^verbatim>\<open>src/kernel/ipc/ipc_kmsg.c\<close>.  Before, the port fields of a header have names, and afterwards the addresses of
  ports.  Ports can die while the space is locked: \<open>gaps\<close> says what other threads do to the state between the
  optimized attempt and the general one, between the two rights, and after them.  Assertions on the bits of entries and
  on the counts of ports say that rights are well formed (\<open>right_ok\<close> in the laws) and are not repeated here.
\<close>

section \<open>The bits of a header\<close>

definition MACH_MSGH_BITS :: "32 word \<Rightarrow> 32 word \<Rightarrow> 32 word" where "MACH_MSGH_BITS remote loc = remote OR push_bit 8 loc"
definition MACH_MSGH_BITS_LOCAL :: "32 word \<Rightarrow> 32 word" where "MACH_MSGH_BITS_LOCAL bits = drop_bit 8 (bits AND 0xff00)"
definition MACH_MSGH_BITS_PORTS :: "32 word \<Rightarrow> 32 word" where "MACH_MSGH_BITS_PORTS bits = bits AND 0xffff"
definition MACH_MSGH_BITS_OTHER :: "32 word \<Rightarrow> 32 word" where "MACH_MSGH_BITS_OTHER bits = bits AND NOT 0xffff"
definition MACH_SEND_INVALID_REPLY :: mach_msg_return_t where "MACH_SEND_INVALID_REPLY = 0x10000009"
definition MACH_SEND_INVALID_HEADER :: mach_msg_return_t where "MACH_SEND_INVALID_HEADER = 0x10000010"

fun type_code :: "mach_msg_type_name \<Rightarrow> 32 word" where
  "type_code MACH_MSG_TYPE_MOVE_RECEIVE = 16"
| "type_code MACH_MSG_TYPE_MOVE_SEND = 17"
| "type_code MACH_MSG_TYPE_MOVE_SEND_ONCE = 18"
| "type_code MACH_MSG_TYPE_COPY_SEND = 19"
| "type_code MACH_MSG_TYPE_MAKE_SEND = 20"
| "type_code MACH_MSG_TYPE_MAKE_SEND_ONCE = 21"

text \<open>The ways to make a send or send-once right, \<^verbatim>\<open>MACH_MSG_TYPE_PORT_ANY_SEND\<close>.\<close>

definition any_send :: "32 word \<Rightarrow> mach_msg_type_name option" where
  "any_send code =
    (if code = 17 then Some MACH_MSG_TYPE_MOVE_SEND else if code = 18 then Some MACH_MSG_TYPE_MOVE_SEND_ONCE
     else if code = 19 then Some MACH_MSG_TYPE_COPY_SEND else if code = 20 then Some MACH_MSG_TYPE_MAKE_SEND
     else if code = 21 then Some MACH_MSG_TYPE_MAKE_SEND_ONCE else None)"

section \<open>Common cases\<close>

text \<open>The optimized lookup: the entry of the table, if its generation and the bits of the mask are as wanted.\<close>

definition fast_entry :: "ipc_space \<Rightarrow> mach_port_t \<Rightarrow> 32 word \<Rightarrow> 32 word \<Rightarrow> ipc_entry option" where
  "fast_entry space name m want =
    (let index = MACH_PORT_INDEX name; entry = is_table space ! index
     in if index \<ge> is_table_size space then None
        else if ie_bits entry AND (IE_BITS_GEN_MASK OR m) \<noteq> (MACH_PORT_GEN name OR want) then None
        else Some entry)"

definition add_send :: "ipc_state \<Rightarrow> ipc_port_t \<Rightarrow> ipc_state" where
  "add_send st p = upd_port st p (\<lambda>port. port\<lparr>ip_srights := ip_srights port + 1, ip_references := ip_references port + 1\<rparr>)"

definition add_sonce :: "ipc_state \<Rightarrow> ipc_port_t \<Rightarrow> ipc_state" where
  "add_sonce st p = upd_port st p (\<lambda>port. port\<lparr>ip_sorights := ip_sorights port + 1, ip_references := ip_references port + 1\<rparr>)"

text \<open>An asynchronous message: a send right is copied, and there is no reply port.  \<open>None\<close> is an abort.\<close>

definition copyin_async :: "ipc_state \<Rightarrow> space_id \<Rightarrow> ipc_kmsg \<Rightarrow> 32 word \<Rightarrow> (ipc_kmsg \<times> ipc_state) option" where
  "copyin_async st sid kmsg mbits =
    (if msgh_local_port kmsg \<noteq> MACH_PORT_NULL \<or> \<not> is_active (st_spaces st sid) then None
     else case fast_entry (st_spaces st sid) (msgh_remote_port kmsg) MACH_PORT_TYPE_SEND MACH_PORT_TYPE_SEND of
       None \<Rightarrow> None
     | Some entry \<Rightarrow>
         let dest = ie_object entry
         in if \<not> ip_active (st_ports st dest) then None
            else Some (kmsg\<lparr>msgh_bits := MACH_MSGH_BITS_OTHER mbits OR MACH_MSGH_BITS (type_code MACH_MSG_TYPE_PORT_SEND) 0,
                   msgh_remote_port := dest\<rparr>, add_send st dest))"

text \<open>A request: a send right is copied, and a send-once right is made for the reply.  \<open>locked\<close> is the answer of \<^verbatim>\<open>ip_lock_try\<close>.\<close>

definition copyin_request :: "bool \<Rightarrow> ipc_state \<Rightarrow> space_id \<Rightarrow> ipc_kmsg \<Rightarrow> 32 word \<Rightarrow> (ipc_kmsg \<times> ipc_state) option" where
  "copyin_request locked st sid kmsg mbits =
    (if \<not> is_active (st_spaces st sid) then None
     else case fast_entry (st_spaces st sid) (msgh_remote_port kmsg) MACH_PORT_TYPE_SEND MACH_PORT_TYPE_SEND of
       None \<Rightarrow> None
     | Some dest_entry \<Rightarrow>
         (case fast_entry (st_spaces st sid) (msgh_local_port kmsg) MACH_PORT_TYPE_RECEIVE MACH_PORT_TYPE_RECEIVE of
            None \<Rightarrow> None
          | Some reply_entry \<Rightarrow>
              let dest = ie_object dest_entry; reply = ie_object reply_entry
              in if \<not> ip_active (st_ports st dest) \<or> \<not> locked then None
                 else Some (kmsg\<lparr>msgh_bits := MACH_MSGH_BITS_OTHER mbits OR
                          MACH_MSGH_BITS (type_code MACH_MSG_TYPE_PORT_SEND) (type_code MACH_MSG_TYPE_PORT_SEND_ONCE),
                        msgh_remote_port := dest, msgh_local_port := reply\<rparr>, add_sonce (add_send st dest) reply)))"

text \<open>A reply: a send-once right is moved, and its entry of the table is freed on the spot.\<close>

definition copyin_reply :: "ipc_state \<Rightarrow> space_id \<Rightarrow> ipc_kmsg \<Rightarrow> 32 word \<Rightarrow> (ipc_kmsg \<times> ipc_state) option" where
  "copyin_reply st sid kmsg mbits =
    (if msgh_local_port kmsg \<noteq> MACH_PORT_NULL \<or> \<not> is_active (st_spaces st sid) then None
     else case fast_entry (st_spaces st sid) (msgh_remote_port kmsg) (IE_BITS_COLLISION OR MACH_PORT_TYPE_SEND_ONCE) MACH_PORT_TYPE_SEND_ONCE of
       None \<Rightarrow> None
     | Some entry \<Rightarrow>
         let dest = ie_object entry; index = MACH_PORT_INDEX (msgh_remote_port kmsg); space = st_spaces st sid;
             table = set_next (is_table space) index (ie_next (is_table space ! 0)); table = set_next table 0 index;
             table = set_bits table index (MACH_PORT_GEN (msgh_remote_port kmsg));
             table = table[index := (table ! index)\<lparr>ie_object := IO_NULL\<rparr>]
         in if ie_request entry \<noteq> 0 \<or> \<not> ip_active (st_ports st dest) then None
            else Some (kmsg\<lparr>msgh_bits := MACH_MSGH_BITS_OTHER mbits OR MACH_MSGH_BITS (type_code MACH_MSG_TYPE_PORT_SEND_ONCE) 0,
                   msgh_remote_port := dest\<rparr>, set_space st sid (space\<lparr>is_table := table\<rparr>)))"

definition copyin_common :: "bool \<Rightarrow> ipc_state \<Rightarrow> space_id \<Rightarrow> ipc_kmsg \<Rightarrow> 32 word \<Rightarrow> (ipc_kmsg \<times> ipc_state) option" where
  "copyin_common locked st sid kmsg mbits =
    (let ports = MACH_MSGH_BITS_PORTS mbits
     in if ports = MACH_MSGH_BITS (type_code MACH_MSG_TYPE_COPY_SEND) 0 then copyin_async st sid kmsg mbits
        else if ports = MACH_MSGH_BITS (type_code MACH_MSG_TYPE_COPY_SEND) (type_code MACH_MSG_TYPE_MAKE_SEND_ONCE)
        then copyin_request locked st sid kmsg mbits
        else if ports = MACH_MSGH_BITS (type_code MACH_MSG_TYPE_MOVE_SEND_ONCE) 0 then copyin_reply st sid kmsg mbits
        else None)"

section \<open>The general case\<close>

text \<open>The ports and the send-once rights for notifications, of destination and reply; or an error.\<close>

type_synonym header_rights = "((mach_msg_return_t + ipc_object_t \<times> ipc_object_t \<times> ipc_port_t \<times> ipc_port_t) \<times> ipc_state) option"

text \<open>An entry without rights is deallocated.  \<open>None\<close> when the entry that is looked at does not exist any more.\<close>

definition dealloc_none :: "ipc_config \<Rightarrow> ipc_state \<Rightarrow> space_id \<Rightarrow> mach_port_t \<Rightarrow> entry_ref \<Rightarrow> ipc_state option" where
  "dealloc_none cfg st sid name r =
    (case entry_at (st_spaces st sid) r of
       None \<Rightarrow> None
     | Some entry \<Rightarrow> if IE_BITS_TYPE (ie_bits entry) = MACH_PORT_TYPE_NONE then entry_dealloc cfg st sid name r else Some st)"

text \<open>Destination and reply have the same name.\<close>

definition copyin_same ::
    "ipc_config \<Rightarrow> ipc_state \<Rightarrow> space_id \<Rightarrow> mach_port_t \<Rightarrow> mach_msg_type_name \<Rightarrow> mach_msg_type_name \<Rightarrow> header_rights" where
  "copyin_same cfg st sid name dest_type reply_type =
    (case ipc_entry_lookup (st_spaces st sid) name of
       (None, space) \<Rightarrow> Some (Inl MACH_SEND_INVALID_DEST, set_space st sid space)
     | (Some r, space) \<Rightarrow>
         let st = set_space st sid space; makes = {MACH_MSG_TYPE_MAKE_SEND, MACH_MSG_TYPE_MAKE_SEND_ONCE}
         in if \<not> ipc_right_copyin_check st sid name r reply_type then Some (Inl MACH_SEND_INVALID_REPLY, st)
            else if dest_type = MACH_MSG_TYPE_MOVE_SEND_ONCE \<or> reply_type = MACH_MSG_TYPE_MOVE_SEND_ONCE then Some (Inl MACH_SEND_INVALID_DEST, st)
            else if dest_type \<in> makes \<or> reply_type \<in> makes then do {
              (ret, st) \<leftarrow> ipc_right_copyin cfg st sid name r dest_type False;
              case ret of
                Inl _ \<Rightarrow> Some (Inl MACH_SEND_INVALID_DEST, st)
              | Inr (dest, dest_soright) \<Rightarrow> do {
                  (ret, st) \<leftarrow> ipc_right_copyin cfg st sid name r reply_type True;
                  case ret of
                    Inl _ \<Rightarrow> None
                  | Inr (reply, reply_soright) \<Rightarrow>
                      if reply \<noteq> dest \<or> dest_soright \<noteq> IP_NULL \<or> reply_soright \<noteq> IP_NULL then None
                      else Some (Inr (dest, reply, dest_soright, reply_soright), st)
                }
            }
            else if dest_type = MACH_MSG_TYPE_COPY_SEND \<and> reply_type = MACH_MSG_TYPE_COPY_SEND then do {
              (ret, st) \<leftarrow> ipc_right_copyin cfg st sid name r dest_type False;
              case ret of
                Inl _ \<Rightarrow> Some (Inl MACH_SEND_INVALID_DEST, st)
              | Inr (dest, _) \<Rightarrow> map_option (\<lambda>(reply, st). (Inr (dest, reply, IP_NULL, IP_NULL), st)) (ipc_port_copy_send st dest)
            }
            else if dest_type = MACH_MSG_TYPE_MOVE_SEND \<and> reply_type = MACH_MSG_TYPE_MOVE_SEND then do {
              (ret, st) \<leftarrow> ipc_right_copyin_two cfg st sid name r;
              case ret of
                Inl _ \<Rightarrow> Some (Inl MACH_SEND_INVALID_DEST, st)
              | Inr (dest, soright) \<Rightarrow> do {
                  st \<leftarrow> dealloc_none cfg st sid name r;
                  Some (Inr (dest, dest, soright, IP_NULL), st)
                }
            }
            else do {
              (ret, st) \<leftarrow> ipc_right_copyin cfg st sid name r MACH_MSG_TYPE_MOVE_SEND False;
              case ret of
                Inl _ \<Rightarrow> Some (Inl MACH_SEND_INVALID_DEST, st)
              | Inr (dest, soright) \<Rightarrow> do {
                  st \<leftarrow> dealloc_none cfg st sid name r;
                  (reply, st) \<leftarrow> ipc_port_copy_send st dest;
                  Some (Inr (if dest_type = MACH_MSG_TYPE_MOVE_SEND then (dest, reply, soright, IP_NULL) else (dest, reply, IP_NULL, soright)), st)
                }
            })"

text \<open>There is no reply port: the name of the reply is \<^verbatim>\<open>MACH_PORT_NULL\<close> or \<^verbatim>\<open>MACH_PORT_DEAD\<close>.\<close>

definition copyin_dest_only ::
    "ipc_config \<Rightarrow> ipc_state \<Rightarrow> space_id \<Rightarrow> mach_port_t \<Rightarrow> mach_port_t \<Rightarrow> mach_msg_type_name \<Rightarrow> header_rights" where
  "copyin_dest_only cfg st sid dest_name reply_name dest_type =
    (case ipc_entry_lookup (st_spaces st sid) dest_name of
       (None, space) \<Rightarrow> Some (Inl MACH_SEND_INVALID_DEST, set_space st sid space)
     | (Some r, space) \<Rightarrow> do {
         (ret, st) \<leftarrow> ipc_right_copyin cfg (set_space st sid space) sid dest_name r dest_type False;
         case ret of
           Inl _ \<Rightarrow> Some (Inl MACH_SEND_INVALID_DEST, st)
         | Inr (dest, soright) \<Rightarrow> do {
             st \<leftarrow> dealloc_none cfg st sid dest_name r;
             Some (Inr (dest, reply_name, soright, IP_NULL), st)
           }
       })"

text \<open>
  Destination and reply have different names.  When the reply port died before its right was taken, and the
  destination before it, both rights are given back as if both ports had been dead before.
\<close>

definition must_undo :: "ipc_state \<Rightarrow> ipc_port_t \<Rightarrow> ipc_port_t \<Rightarrow> bool" where
  "must_undo st dest saved_reply \<longleftrightarrow>
    \<not> ip_active (st_ports st dest) \<and> IP_TIMESTAMP_ORDER (ip_timestamp (st_ports st dest)) (ip_timestamp (st_ports st saved_reply))"

definition undo_both ::
    "ipc_config \<Rightarrow> ipc_state \<Rightarrow> space_id \<Rightarrow> mach_port_t \<times> entry_ref \<times> mach_msg_type_name \<Rightarrow> mach_port_t \<times> entry_ref \<times> mach_msg_type_name \<Rightarrow>
     ipc_port_t \<Rightarrow> ipc_port_t \<Rightarrow> ipc_port_t \<Rightarrow> ipc_port_t \<Rightarrow> ipc_port_t \<Rightarrow> header_rights" where
  "undo_both cfg st sid = (\<lambda>(dest_name, dr, dest_type) (reply_name, rr, reply_type) dest dest_soright reply reply_soright saved_reply.
    do {
      st \<leftarrow> ipc_right_copyin_undo cfg st sid dest_name dr dest_type dest dest_soright;
      st \<leftarrow> ipc_right_copyin_undo cfg st sid reply_name rr reply_type reply reply_soright;
      let st = (if dest_soright \<noteq> IP_NULL then emit st [Notify_dead_name dest_soright dest_name] else st);
      if reply_soright \<noteq> IP_NULL then None
      else Some (Inl MACH_SEND_INVALID_DEST, ipc_port_release st saved_reply)
    })"

text \<open>The entries without rights are deallocated: that of the reply first, unless taking its right did that already.\<close>

definition copyin_cleanup ::
    "ipc_config \<Rightarrow> bool \<Rightarrow> ipc_state \<Rightarrow> space_id \<Rightarrow> mach_port_t \<times> entry_ref \<Rightarrow> mach_port_t \<times> entry_ref \<Rightarrow> ipc_port_t \<Rightarrow> ipc_state option" where
  "copyin_cleanup cfg gone st sid = (\<lambda>(dest_name, dr) (reply_name, rr) saved_reply.
    do {
      st \<leftarrow> (if gone then Some st else dealloc_none cfg st sid reply_name rr);
      st \<leftarrow> dealloc_none cfg st sid dest_name dr;
      Some (if saved_reply \<noteq> IP_NULL then ipc_port_release st saved_reply else st)
    })"

definition copyin_both ::
    "ipc_config \<Rightarrow> (ipc_state \<Rightarrow> ipc_state) \<Rightarrow> (ipc_state \<Rightarrow> ipc_state) \<Rightarrow> ipc_state \<Rightarrow> space_id \<Rightarrow> mach_port_t \<Rightarrow> mach_port_t \<Rightarrow>
     mach_msg_type_name \<Rightarrow> mach_msg_type_name \<Rightarrow> header_rights" where
  "copyin_both cfg gap1 gap2 st sid dest_name reply_name dest_type reply_type =
    (case ipc_entry_lookup (st_spaces st sid) dest_name of
       (None, space) \<Rightarrow> Some (Inl MACH_SEND_INVALID_DEST, set_space st sid space)
     | (Some dr, space) \<Rightarrow>
         let st = set_space st sid space
         in (case ipc_entry_lookup (st_spaces st sid) reply_name of
               (None, space) \<Rightarrow> Some (Inl MACH_SEND_INVALID_REPLY, set_space st sid space)
             | (Some rr, space) \<Rightarrow>
                 let st = set_space st sid space
                 in if \<not> ipc_right_copyin_check st sid reply_name rr reply_type then Some (Inl MACH_SEND_INVALID_REPLY, st)
                    else do {
                      (ret, st) \<leftarrow> ipc_right_copyin cfg st sid dest_name dr dest_type False;
                      case ret of
                        Inl _ \<Rightarrow> Some (Inl MACH_SEND_INVALID_DEST, st)
                      | Inr (dest, dest_soright) \<Rightarrow> do {
                          let st = gap1 st; let saved_reply = ie_object (get_entry st sid rr);
                          let st = (if saved_reply \<noteq> IP_NULL then ipc_port_reference st saved_reply else st);
                          (ret, st) \<leftarrow> ipc_right_copyin cfg st sid reply_name rr reply_type True;
                          let st = gap2 st;
                          case ret of
                            Inl _ \<Rightarrow> do {
                              st \<leftarrow> copyin_cleanup cfg True st sid (dest_name, dr) (reply_name, rr) saved_reply;
                              Some (Inr (dest, IO_DEAD, dest_soright, IP_NULL), st)
                            }
                          | Inr (reply, reply_soright) \<Rightarrow>
                              if saved_reply \<noteq> IP_NULL \<and> reply = IO_DEAD \<and> must_undo st dest saved_reply
                              then undo_both cfg st sid (dest_name, dr, dest_type) (reply_name, rr, reply_type) dest dest_soright reply reply_soright saved_reply
                              else do {
                                st \<leftarrow> copyin_cleanup cfg False st sid (dest_name, dr) (reply_name, rr) saved_reply;
                                Some (Inr (dest, reply, dest_soright, reply_soright), st)
                              }
                        }
                    }))"

text \<open>The port that \<^verbatim>\<open>notify\<close> names; the entry must have the receive right.\<close>

definition notify_receiver :: "ipc_state \<Rightarrow> space_id \<Rightarrow> mach_port_t \<Rightarrow> ipc_port_t option \<times> ipc_state" where
  "notify_receiver st sid notify =
    (if notify = MACH_PORT_NULL then (Some IP_NULL, st)
     else case ipc_entry_lookup (st_spaces st sid) notify of
       (None, space) \<Rightarrow> (None, set_space st sid space)
     | (Some r, space) \<Rightarrow>
         let st = set_space st sid space; entry = get_entry st sid r
         in (if has (ie_bits entry) MACH_PORT_TYPE_RECEIVE then Some (ie_object entry) else None, st))"

text \<open>
  The rights are in hand: a send-once right for the port that cancels the notification is given back, the others are
  used for port-deleted notifications, and the header gets the ports.
\<close>

definition copyin_done ::
    "ipc_state \<Rightarrow> ipc_kmsg \<Rightarrow> 32 word \<Rightarrow> mach_port_t \<Rightarrow> ipc_port_t \<Rightarrow> mach_msg_type_name \<Rightarrow> mach_msg_type_name option \<Rightarrow>
     ipc_object_t \<times> ipc_object_t \<times> ipc_port_t \<times> ipc_port_t \<Rightarrow> ipc_kmsg \<times> ipc_state" where
  "copyin_done st kmsg mbits notify notify_port dest_type reply_type = (\<lambda>(dest, reply, dest_soright, reply_soright).
    let cancel = (notify \<noteq> MACH_PORT_NULL \<and> dest_soright = notify_port);
        st = (if cancel then ipc_port_release_sonce st dest_soright else st);
        dest_soright = (if cancel then IP_NULL else dest_soright);
        st = emit st (port_deleted dest_soright (msgh_remote_port kmsg) @ port_deleted reply_soright (msgh_local_port kmsg));
        reply_code = (case reply_type of None \<Rightarrow> 0 | Some t \<Rightarrow> type_code (ipc_object_copyin_type t))
    in (kmsg\<lparr>msgh_bits := MACH_MSGH_BITS_OTHER mbits OR MACH_MSGH_BITS (type_code (ipc_object_copyin_type dest_type)) reply_code,
          msgh_remote_port := dest, msgh_local_port := reply\<rparr>, st))"

definition copyin_general ::
    "ipc_config \<Rightarrow> (ipc_state \<Rightarrow> ipc_state) \<Rightarrow> (ipc_state \<Rightarrow> ipc_state) \<Rightarrow> ipc_state \<Rightarrow> space_id \<Rightarrow> ipc_kmsg \<Rightarrow> 32 word \<Rightarrow> mach_port_t \<Rightarrow>
     (mach_msg_return_t \<times> ipc_kmsg \<times> ipc_state) option" where
  "copyin_general cfg gap1 gap2 st sid kmsg mbits notify =
    (let dest_name = msgh_remote_port kmsg; reply_name = msgh_local_port kmsg;
         reply_code = MACH_MSGH_BITS_LOCAL mbits; reply_type = any_send reply_code
     in case any_send (MACH_MSGH_BITS_REMOTE mbits) of
          None \<Rightarrow> Some (MACH_SEND_INVALID_HEADER, kmsg, st)
        | Some dest_type \<Rightarrow>
            if (if reply_code = 0 then reply_name \<noteq> MACH_PORT_NULL else reply_type = None) then Some (MACH_SEND_INVALID_HEADER, kmsg, st)
            else if \<not> is_active (st_spaces st sid) then Some (MACH_SEND_INVALID_DEST, kmsg, st)
            else case notify_receiver st sid notify of
              (None, st) \<Rightarrow> Some (MACH_SEND_INVALID_NOTIFY, kmsg, st)
            | (Some notify_port, st) \<Rightarrow> do {
                (ret, st) \<leftarrow>
                  (if dest_name = reply_name then
                     (case reply_type of
                        None \<Rightarrow>
                          (case ipc_entry_lookup (st_spaces st sid) dest_name of
                             (None, space) \<Rightarrow> Some (Inl MACH_SEND_INVALID_DEST, set_space st sid space)
                           | (Some r, space) \<Rightarrow> None)
                      | Some t \<Rightarrow> copyin_same cfg st sid dest_name dest_type t)
                   else if \<not> MACH_PORT_VALID reply_name then copyin_dest_only cfg st sid dest_name reply_name dest_type
                   else
                     (case reply_type of None \<Rightarrow> None | Some t \<Rightarrow> copyin_both cfg gap1 gap2 st sid dest_name reply_name dest_type t));
                case ret of
                  Inl mr \<Rightarrow> Some (mr, kmsg, st)
                | Inr rights \<Rightarrow> (case copyin_done st kmsg mbits notify notify_port dest_type reply_type rights of
                    (kmsg, st) \<Rightarrow> Some (MACH_MSG_SUCCESS, kmsg, st))
              })"

record header_gaps =
  try_reply :: bool
  gap_retry :: "ipc_state \<Rightarrow> ipc_state"
  gap_between :: "ipc_state \<Rightarrow> ipc_state"
  gap_after :: "ipc_state \<Rightarrow> ipc_state"

definition ipc_kmsg_copyin_header ::
    "ipc_config \<Rightarrow> header_gaps \<Rightarrow> ipc_state \<Rightarrow> space_id \<Rightarrow> ipc_kmsg \<Rightarrow> mach_port_t \<Rightarrow> (mach_msg_return_t \<times> ipc_kmsg \<times> ipc_state) option" where
  "ipc_kmsg_copyin_header cfg gaps st sid kmsg notify =
    (let mbits = msgh_bits kmsg AND NOT (MACH_MSGH_BITS_CIRCULAR OR MACH_MSGH_BITS_OLD_FORMAT)
     in case (if notify = MACH_PORT_NULL then copyin_common (try_reply gaps) st sid kmsg mbits else None) of
          Some (kmsg, st) \<Rightarrow> Some (MACH_MSG_SUCCESS, kmsg, st)
        | None \<Rightarrow> copyin_general cfg (gap_between gaps) (gap_after gaps) (gap_retry gaps st) sid kmsg mbits notify)"

end
