(* ===== verification/Kmsg_Copyout.thy ===== *)
theory Kmsg_Copyout
  imports Kmsg_Header
begin

text \<open>
  The rights of a message go to its receiver: \<^verbatim>\<open>ipc_kmsg_copyout_header\<close>, \<^verbatim>\<open>ipc_kmsg_copyout_object\<close> and the header
  in \<^verbatim>\<open>ipc_kmsg_copyout_dest\<close>, of \<^verbatim>\<open>src/kernel/ipc/ipc_kmsg.c\<close>.  The address of the destination becomes the name
  that the receiver has for it, and the reply port gets a name in the space of the receiver.
\<close>

definition MACH_MSG_IPC_SPACE :: mach_msg_return_t where "MACH_MSG_IPC_SPACE = 0x2000"
definition MACH_RCV_INVALID_NOTIFY :: mach_msg_return_t where "MACH_RCV_INVALID_NOTIFY = 0x10004007"

text \<open>The rights that a message in the kernel can have.\<close>

definition port_type :: "32 word \<Rightarrow> mach_msg_type_name option" where
  "port_type code =
    (if code = 16 then Some MACH_MSG_TYPE_PORT_RECEIVE else if code = 17 then Some MACH_MSG_TYPE_PORT_SEND
     else if code = 18 then Some MACH_MSG_TYPE_PORT_SEND_ONCE else None)"

section \<open>Common cases\<close>

text \<open>The optimized \<^verbatim>\<open>ipc_object_copyout_dest\<close> for a send right: the right of the message is given back.\<close>

definition dest_send :: "ipc_state \<Rightarrow> space_id \<Rightarrow> ipc_port_t \<Rightarrow> mach_port_t \<times> ipc_state" where
  "dest_send st sid dest =
    (let port = st_ports st dest; port = port\<lparr>ip_references := ip_references port - 1\<rparr>;
         dest_name = (if ip_receiver port = sid then ip_receiver_name port else MACH_PORT_NULL);
         port = port\<lparr>ip_srights := ip_srights port - 1\<rparr>; nsrequest = ip_nsrequest port
     in if ip_srights port = 0 \<and> nsrequest \<noteq> IP_NULL
        then (dest_name, emit (set_port st dest (port\<lparr>ip_nsrequest := IP_NULL\<rparr>)) [Notify_no_senders nsrequest (ip_mscount port)])
        else (dest_name, set_port st dest port))"

definition copyout_async :: "ipc_state \<Rightarrow> space_id \<Rightarrow> ipc_kmsg \<Rightarrow> 32 word \<Rightarrow> (ipc_kmsg \<times> ipc_state) option" where
  "copyout_async st sid kmsg mbits =
    (let dest = msgh_remote_port kmsg
     in if \<not> ip_active (st_ports st dest) then None
        else case dest_send st sid dest of
          (dest_name, st) \<Rightarrow>
            Some (kmsg\<lparr>msgh_bits := MACH_MSGH_BITS_OTHER mbits OR MACH_MSGH_BITS 0 (type_code MACH_MSG_TYPE_PORT_SEND),
              msgh_local_port := dest_name, msgh_remote_port := MACH_PORT_NULL\<rparr>, st))"

text \<open>A request: the reply port gets the first free slot of the table.  \<open>locked\<close> is the answer of \<^verbatim>\<open>ip_lock_try\<close>.\<close>

definition copyout_request :: "bool \<Rightarrow> ipc_state \<Rightarrow> space_id \<Rightarrow> ipc_kmsg \<Rightarrow> 32 word \<Rightarrow> (ipc_kmsg \<times> ipc_state) option" where
  "copyout_request locked st sid kmsg mbits =
    (let dest = msgh_remote_port kmsg; reply = msgh_local_port kmsg; space = st_spaces st sid; table = is_table space;
         index = ie_next (table ! 0)
     in if \<not> IO_VALID reply \<or> \<not> is_active space \<or> index = 0 then None
        else if \<not> ip_active (st_ports st dest) \<or> \<not> locked \<or> \<not> ip_active (st_ports st reply) then None
        else
          let entry = table ! index; table = set_next table 0 (ie_next entry); gen = ie_bits entry + IE_BITS_GEN_ONE;
              reply_name = MACH_PORT_MAKE index gen;
              entry = entry\<lparr>ie_request := 0, ie_bits := gen OR (MACH_PORT_TYPE_SEND_ONCE OR 1), ie_object := reply\<rparr>;
              st = set_space st sid (space\<lparr>is_table := table[index := entry]\<rparr>)
          in case dest_send st sid dest of
               (dest_name, st) \<Rightarrow>
                 Some (kmsg\<lparr>msgh_bits := MACH_MSGH_BITS_OTHER mbits OR
                     MACH_MSGH_BITS (type_code MACH_MSG_TYPE_PORT_SEND_ONCE) (type_code MACH_MSG_TYPE_PORT_SEND),
                   msgh_local_port := dest_name, msgh_remote_port := reply_name\<rparr>, st))"

definition copyout_reply :: "ipc_state \<Rightarrow> space_id \<Rightarrow> ipc_kmsg \<Rightarrow> 32 word \<Rightarrow> (ipc_kmsg \<times> ipc_state) option" where
  "copyout_reply st sid kmsg mbits =
    (let dest = msgh_remote_port kmsg; port = st_ports st dest;
         (dest_name, st) =
           (if ip_receiver port = sid
            then (ip_receiver_name port, set_port st dest (port\<lparr>ip_references := ip_references port - 1, ip_sorights := ip_sorights port - 1\<rparr>))
            else (MACH_PORT_NULL, emit st [Notify_send_once dest]))
     in if \<not> ip_active port then None
        else Some (kmsg\<lparr>msgh_bits := MACH_MSGH_BITS_OTHER mbits OR MACH_MSGH_BITS 0 (type_code MACH_MSG_TYPE_PORT_SEND_ONCE),
               msgh_local_port := dest_name, msgh_remote_port := MACH_PORT_NULL\<rparr>, st))"

definition copyout_common :: "bool \<Rightarrow> ipc_state \<Rightarrow> space_id \<Rightarrow> ipc_kmsg \<Rightarrow> 32 word \<Rightarrow> (ipc_kmsg \<times> ipc_state) option" where
  "copyout_common locked st sid kmsg mbits =
    (let ports = MACH_MSGH_BITS_PORTS mbits
     in if ports = MACH_MSGH_BITS (type_code MACH_MSG_TYPE_PORT_SEND) 0 then copyout_async st sid kmsg mbits
        else if ports = MACH_MSGH_BITS (type_code MACH_MSG_TYPE_PORT_SEND) (type_code MACH_MSG_TYPE_PORT_SEND_ONCE)
        then copyout_request locked st sid kmsg mbits
        else if ports = MACH_MSGH_BITS (type_code MACH_MSG_TYPE_PORT_SEND_ONCE) 0 then copyout_reply st sid kmsg mbits
        else None)"

section \<open>The reply port\<close>

text \<open>
  The entry for the reply port: an error, a dead port, or the name and entry with the send-once right for the notification
  that is still to be given back.
\<close>

datatype reply_out =
    Reply_error mach_msg_return_t
  | Reply_dead
  | Reply_at mach_port_t entry_ref ipc_port_t

datatype reply_round =
    Reply_done reply_out
  | Grow_space
  | Grow_requests

definition give_back_notify :: "ipc_state \<Rightarrow> ipc_port_t \<Rightarrow> ipc_state" where
  "give_back_notify st notify_port = (if notify_port \<noteq> IP_NULL then ipc_port_release_sonce st notify_port else st)"

text \<open>The new entry, with a dead-name request if one is wanted.\<close>

definition reply_entry ::
    "ipc_config \<Rightarrow> ipc_state \<Rightarrow> space_id \<Rightarrow> ipc_port_t \<Rightarrow> ipc_port_t \<Rightarrow> (reply_round \<times> ipc_state) option" where
  "reply_entry cfg st sid reply notify_port =
    (case ipc_entry_get (st_spaces st sid) of
       Inl _ \<Rightarrow> Some (Grow_space, give_back_notify st notify_port)
     | Inr (name, r, space) \<Rightarrow>
         let st = set_space st sid space
         in if notify_port = IP_NULL
            then Some (Reply_done (Reply_at name r IP_NULL), upd_entry st sid r (\<lambda>e. e\<lparr>ie_object := reply\<rparr>))
            else (case ipc_port_dnrequest (st_ports st reply) name notify_port of
                    Inl _ \<Rightarrow> map_option (Pair Grow_requests) (entry_dealloc cfg (ipc_port_release_sonce st notify_port) sid name r)
                  | Inr (request, port) \<Rightarrow>
                      Some (Reply_done (Reply_at name r IP_NULL),
                        upd_entry (set_port st reply port) sid r (\<lambda>e. e\<lparr>ie_object := reply, ie_request := request\<rparr>))))"

definition reply_attempt ::
    "ipc_config \<Rightarrow> ipc_state \<Rightarrow> space_id \<Rightarrow> ipc_port_t \<Rightarrow> mach_msg_type_name \<Rightarrow> mach_port_t \<Rightarrow> (reply_round \<times> ipc_state) option" where
  "reply_attempt cfg st sid reply reply_type notify =
    (if \<not> is_active (st_spaces st sid) then Some (Reply_done (Reply_error (MACH_RCV_HEADER_ERROR OR MACH_MSG_IPC_SPACE)), st)
     else
       let (notify_port, st) = (if notify \<noteq> MACH_PORT_NULL then ipc_port_lookup_notify st sid notify else (IP_NULL, st))
       in if notify \<noteq> MACH_PORT_NULL \<and> notify_port = IP_NULL then Some (Reply_done (Reply_error MACH_RCV_INVALID_NOTIFY), st)
          else do {
            (found, st) \<leftarrow> (if reply_type \<noteq> MACH_MSG_TYPE_PORT_SEND_ONCE then ipc_right_reverse st sid reply else Some (None, st));
            case found of
              Some (name, r) \<Rightarrow> Some (Reply_done (Reply_at name r notify_port), st)
            | None \<Rightarrow>
                if \<not> ip_active (st_ports st reply)
                then Some (Reply_done Reply_dead, give_back_notify (ipc_port_release st reply) notify_port)
                else reply_entry cfg st sid reply notify_port
          })"

text \<open>
  What happens while nothing is locked: growing the table takes a schedule, growing the requests of the port the
  memory for them and what happens meanwhile; other threads change the state.
\<close>

record reply_gap =
  rg_table :: schedule
  rg_requests :: "(32 word \<times> ipc_port_request list) option"
  rg_interim :: "ipc_state \<Rightarrow> ipc_state"
  rg_others :: "ipc_state \<Rightarrow> ipc_state"

fun reply_loop ::
    "ipc_config \<Rightarrow> reply_gap list \<Rightarrow> ipc_state \<Rightarrow> space_id \<Rightarrow> ipc_port_t \<Rightarrow> mach_msg_type_name \<Rightarrow> mach_port_t \<Rightarrow> (reply_out \<times> ipc_state) option" where
  "reply_loop cfg gaps st sid reply reply_type notify =
    (case reply_attempt cfg st sid reply reply_type notify of
       None \<Rightarrow> None
     | Some (Reply_done out, st) \<Rightarrow> Some (out, st)
     | Some (Grow_space, st) \<Rightarrow>
         (case gaps of
            [] \<Rightarrow> None
          | gap # gaps \<Rightarrow>
              (case ipc_entry_grow_table (ipc_table_entries cfg) sid None (rg_table gap) (st_hash st, st_spaces st sid) of
                 None \<Rightarrow> None
               | Some (kr, _, w) \<Rightarrow>
                   let st = rg_others gap (set_world st sid w)
                   in if kr = KERN_RESOURCE_SHORTAGE then Some (Reply_error (MACH_RCV_HEADER_ERROR OR MACH_MSG_IPC_KERNEL), st)
                      else if kr \<noteq> KERN_SUCCESS then Some (Reply_error (MACH_RCV_HEADER_ERROR OR MACH_MSG_IPC_SPACE), st)
                      else reply_loop cfg gaps st sid reply reply_type notify))
     | Some (Grow_requests, st) \<Rightarrow>
         (case gaps of
            [] \<Rightarrow> None
          | gap # gaps \<Rightarrow>
              let st = rg_others gap st
              in if \<not> ip_active (st_ports st reply) then reply_loop cfg gaps st sid reply reply_type notify
                 else (case port_dngrow cfg st reply (rg_requests gap) (rg_interim gap) of
                         (kr, st) \<Rightarrow>
                           if kr \<noteq> KERN_SUCCESS then Some (Reply_error (MACH_RCV_HEADER_ERROR OR MACH_MSG_IPC_KERNEL), st)
                           else reply_loop cfg gaps st sid reply reply_type notify)))"

section \<open>The general case\<close>

text \<open>
  The name of the destination.  When it died after the reply port, it is treated as if it were alive and its
  receive right elsewhere.  \<open>gap\<close>: a port may die before the reply port is looked at.
\<close>

definition copyout_dest_name ::
    "(ipc_state \<Rightarrow> ipc_state) \<Rightarrow> ipc_state \<Rightarrow> space_id \<Rightarrow> ipc_port_t \<Rightarrow> 32 word \<Rightarrow> ipc_port_t \<Rightarrow> (mach_port_t \<times> ipc_state) option" where
  "copyout_dest_name gap st sid dest dest_type reply =
    (if ip_active (st_ports st dest) then Option.bind (port_type dest_type) (ipc_object_copyout_dest st sid dest)
     else
       let timestamp = ip_timestamp (st_ports st dest); st = gap (ipc_port_release st dest)
       in Some (if \<not> IO_VALID reply then MACH_PORT_DEAD
                else if ip_active (st_ports st reply) \<or> IP_TIMESTAMP_ORDER timestamp (ip_timestamp (st_ports st reply)) then MACH_PORT_DEAD
                else MACH_PORT_NULL, st))"

text \<open>\<open>gap\<close> is what other threads do between the two ports, and between the destination and the second look at the reply.\<close>

definition copyout_finish ::
    "(ipc_state \<Rightarrow> ipc_state) \<Rightarrow> ipc_state \<Rightarrow> space_id \<Rightarrow> ipc_kmsg \<Rightarrow> 32 word \<Rightarrow> ipc_port_t \<Rightarrow> mach_port_t \<Rightarrow> (mach_msg_return_t \<times> ipc_kmsg \<times> ipc_state) option" where
  "copyout_finish gap st sid kmsg mbits reply reply_name =
    do {
      (dest_name, st) \<leftarrow> copyout_dest_name gap (gap st) sid (msgh_remote_port kmsg) (MACH_MSGH_BITS_REMOTE mbits) reply;
      let st = (if IO_VALID reply then ipc_port_release st reply else st);
      Some (MACH_MSG_SUCCESS, kmsg\<lparr>msgh_bits := MACH_MSGH_BITS_OTHER mbits OR MACH_MSGH_BITS (MACH_MSGH_BITS_LOCAL mbits) (MACH_MSGH_BITS_REMOTE mbits),
        msgh_local_port := dest_name, msgh_remote_port := reply_name\<rparr>, st)
    }"

definition copyout_general ::
    "ipc_config \<Rightarrow> reply_gap list \<Rightarrow> (ipc_state \<Rightarrow> ipc_state) \<Rightarrow> ipc_state \<Rightarrow> space_id \<Rightarrow> ipc_kmsg \<Rightarrow> 32 word \<Rightarrow> mach_port_t \<Rightarrow>
     (mach_msg_return_t \<times> ipc_kmsg \<times> ipc_state) option" where
  "copyout_general cfg gaps gap st sid kmsg mbits notify =
    (let reply = msgh_local_port kmsg
     in if IO_VALID reply then do {
          reply_type \<leftarrow> port_type (MACH_MSGH_BITS_LOCAL mbits);
          (out, st) \<leftarrow> reply_loop cfg gaps st sid reply reply_type notify;
          case out of
            Reply_error mr \<Rightarrow> Some (mr, kmsg, st)
          | Reply_dead \<Rightarrow> copyout_finish gap st sid kmsg mbits IP_DEAD MACH_PORT_DEAD
          | Reply_at reply_name r notify_port \<Rightarrow> do {
              (kr, st) \<leftarrow> ipc_right_copyout (ip_reference st reply) sid reply_name r reply_type True reply;
              if kr \<noteq> KERN_SUCCESS then None
              else copyout_finish gap (give_back_notify st notify_port) sid kmsg mbits reply reply_name
            }
        }
        else if \<not> is_active (st_spaces st sid) then Some (MACH_RCV_HEADER_ERROR OR MACH_MSG_IPC_SPACE, kmsg, st)
        else case notify_receiver st sid notify of
          (None, st) \<Rightarrow> Some (MACH_RCV_INVALID_NOTIFY, kmsg, st)
        | (Some _, st) \<Rightarrow> copyout_finish gap st sid kmsg mbits reply reply)"

record copyout_gaps =
  co_try :: bool
  co_retry :: "ipc_state \<Rightarrow> ipc_state"
  co_loop :: "reply_gap list"
  co_ports :: "ipc_state \<Rightarrow> ipc_state"

definition ipc_kmsg_copyout_header ::
    "ipc_config \<Rightarrow> copyout_gaps \<Rightarrow> ipc_state \<Rightarrow> space_id \<Rightarrow> ipc_kmsg \<Rightarrow> mach_port_t \<Rightarrow> (mach_msg_return_t \<times> ipc_kmsg \<times> ipc_state) option" where
  "ipc_kmsg_copyout_header cfg gaps st sid kmsg notify =
    (let mbits = msgh_bits kmsg
     in if \<not> IO_VALID (msgh_remote_port kmsg) then None
        else case (if notify = MACH_PORT_NULL then copyout_common (co_try gaps) st sid kmsg mbits else None) of
          Some (kmsg, st) \<Rightarrow> Some (MACH_MSG_SUCCESS, kmsg, st)
        | None \<Rightarrow> copyout_general cfg (co_loop gaps) (co_ports gaps) (co_retry gaps st) sid kmsg mbits notify)"

section \<open>One right\<close>

text \<open>
  The quick copyout of a send right to a name of the local table that has one.  The inner \<open>None\<close> leads to the general
  code.
\<close>

definition quick_copyout :: "ipc_state \<Rightarrow> space_id \<Rightarrow> ipc_port_t \<Rightarrow> (mach_port_t \<times> ipc_state) option option" where
  "quick_copyout st sid port =
    (if \<not> is_active (st_spaces st sid) \<or> \<not> ip_active (st_ports st port) then Some None
     else
       map_option
         (map_option (\<lambda>(name, index).
           let st = upd_port st port (\<lambda>port. port\<lparr>ip_srights := ip_srights port - 1, ip_references := ip_references port - 1\<rparr>);
               bits = ie_bits (get_entry st sid (In_table index)) + 1
           in (name, if IE_BITS_UREFS bits < MACH_PORT_UREFS_MAX then upd_entry st sid (In_table index) (\<lambda>e. e\<lparr>ie_bits := bits\<rparr>) else st)))
         (ipc_hash_local_lookup (st_spaces st sid) port))"

text \<open>\<open>fuel\<close>, \<open>try\<close> and \<open>interim\<close> are for the destruction of an object that finds no place.\<close>

definition copyout_slow ::
    "ipc_config \<Rightarrow> schedule \<Rightarrow> nat \<Rightarrow> bool \<Rightarrow> (ipc_state \<Rightarrow> ipc_state) \<Rightarrow> ipc_state \<Rightarrow> space_id \<Rightarrow> ipc_object_t \<Rightarrow> mach_msg_type_name \<Rightarrow>
     (mach_msg_return_t \<times> mach_port_t \<times> ipc_state) option" where
  "copyout_slow cfg sched fuel locked interim st sid object msgt =
    do {
      (ret, _, st) \<leftarrow> ipc_object_copyout cfg sched st sid object msgt True;
      case ret of
        Inr name \<Rightarrow> Some (MACH_MSG_SUCCESS, name, st)
      | Inl kr \<Rightarrow> do {
          st \<leftarrow> ipc_object_destroy cfg fuel locked interim st object msgt;
          Some (if kr = KERN_INVALID_CAPABILITY then (MACH_MSG_SUCCESS, MACH_PORT_DEAD, st)
                else if kr = KERN_RESOURCE_SHORTAGE then (MACH_MSG_IPC_KERNEL, MACH_PORT_NULL, st)
                else (MACH_MSG_IPC_SPACE, MACH_PORT_NULL, st))
        }
    }"

definition ipc_kmsg_copyout_object ::
    "ipc_config \<Rightarrow> schedule \<Rightarrow> nat \<Rightarrow> bool \<Rightarrow> (ipc_state \<Rightarrow> ipc_state) \<Rightarrow> ipc_state \<Rightarrow> space_id \<Rightarrow> ipc_object_t \<Rightarrow> mach_msg_type_name \<Rightarrow>
     (mach_msg_return_t \<times> mach_port_t \<times> ipc_state) option" where
  "ipc_kmsg_copyout_object cfg sched fuel locked interim st sid object msgt =
    (if \<not> IO_VALID object then Some (MACH_MSG_SUCCESS, object, st)
     else if msgt \<noteq> MACH_MSG_TYPE_PORT_SEND then copyout_slow cfg sched fuel locked interim st sid object msgt
     else case quick_copyout st sid object of
       None \<Rightarrow> None
     | Some (Some (name, st)) \<Rightarrow> Some (MACH_MSG_SUCCESS, name, st)
     | Some None \<Rightarrow> copyout_slow cfg sched fuel locked interim st sid object msgt)"

text \<open>The header in \<^verbatim>\<open>ipc_kmsg_copyout_dest\<close>: the name of the destination, and the right for the reply is destroyed.\<close>

definition copyout_dest_header ::
    "ipc_config \<Rightarrow> nat \<Rightarrow> bool \<Rightarrow> (ipc_state \<Rightarrow> ipc_state) \<Rightarrow> ipc_state \<Rightarrow> space_id \<Rightarrow> ipc_kmsg \<Rightarrow> (ipc_kmsg \<times> ipc_state) option" where
  "copyout_dest_header cfg fuel locked interim st sid kmsg =
    (let mbits = msgh_bits kmsg; dest = msgh_remote_port kmsg; reply = msgh_local_port kmsg;
         dest_type = MACH_MSGH_BITS_REMOTE mbits; reply_type = MACH_MSGH_BITS_LOCAL mbits
     in if \<not> IO_VALID dest then None
        else do {
          (dest_name, st) \<leftarrow>
            (if ip_active (st_ports st dest) then Option.bind (port_type dest_type) (ipc_object_copyout_dest st sid dest)
             else Some (MACH_PORT_DEAD, ipc_port_release st dest));
          st \<leftarrow>
            (if IO_VALID reply then Option.bind (port_type reply_type) (ipc_object_destroy cfg fuel locked interim st reply) else Some st);
          let reply_name = (if IO_VALID reply then MACH_PORT_NULL else reply);
          Some (kmsg\<lparr>msgh_bits := MACH_MSGH_BITS_OTHER mbits OR MACH_MSGH_BITS reply_type dest_type,
            msgh_local_port := dest_name, msgh_remote_port := reply_name\<rparr>, st)
        })"

end
