(* ===== verification/Header_Laws.thy ===== *)
theory Header_Laws
  imports Kmsg_Header Right_Laws Mach_Port
begin

text \<open>
  The rights of a message header: the optimized cases of \<^verbatim>\<open>ipc_kmsg_copyin_header\<close> are the general code without its
  detours, a one-way message takes its destination as \<^verbatim>\<open>ipc_object_copyin\<close> does, and a case in which the code goes on with
  an entry that was freed.
\<close>

section \<open>The optimized lookup\<close>

lemma masked_parts:
  fixes bits :: "32 word"
  assumes "bits AND (IE_BITS_GEN_MASK OR m) = (MACH_PORT_GEN name OR want)"
    and "want AND IE_BITS_GEN_MASK = 0" and "m AND k = k" and "k AND IE_BITS_GEN_MASK = 0"
  shows "IE_BITS_GEN bits = MACH_PORT_GEN name" and "bits AND k = want AND k"
proof -
  have g: "MACH_PORT_GEN name AND IE_BITS_GEN_MASK = MACH_PORT_GEN name"
    using MACH_PORT_GEN_mask by (simp add: IE_BITS_GEN_MASK_def)
  have "bits AND IE_BITS_GEN_MASK = (bits AND (IE_BITS_GEN_MASK OR m)) AND IE_BITS_GEN_MASK"
    by (rule bit_word_eqI) (auto simp: bit_simps)
  also have "\<dots> = MACH_PORT_GEN name" using g assms(2) unfolding assms(1) by (simp add: bit.conj_disj_distrib2)
  finally show "IE_BITS_GEN bits = MACH_PORT_GEN name" by (simp add: IE_BITS_GEN_def)
  have "bits AND k = (bits AND (IE_BITS_GEN_MASK OR m)) AND k"
    using assms(3,4) bit.conj_disj_distrib2 [of IE_BITS_GEN_MASK m k] by (metis and.assoc and.commute or.left_neutral)
  also have "MACH_PORT_GEN name AND k = MACH_PORT_GEN name AND (k AND IE_BITS_GEN_MASK)"
    using g by (metis and.assoc and.commute)
  with assms(4) have "(bits AND (IE_BITS_GEN_MASK OR m)) AND k = want AND k"
    unfolding assms(1) by (simp add: bit.conj_disj_distrib2)
  finally show "bits AND k = want AND k" .
qed

text \<open>A slot with rights that the optimized lookup finds is what \<^verbatim>\<open>ipc_entry_lookup\<close> finds.\<close>

definition found :: "ipc_config \<Rightarrow> ipc_state \<Rightarrow> space_id \<Rightarrow> mach_port_t \<Rightarrow> ipc_entry \<Rightarrow> bool" where
  "found cfg st sid name e \<longleftrightarrow>
    (let i = MACH_PORT_INDEX name; s = st_spaces st sid
     in 0 < i \<and> i < is_table_size s \<and> is_table_size s = length (is_table s) \<and> e = is_table s ! i \<and>
        IE_BITS_GEN (ie_bits e) = MACH_PORT_GEN name \<and> MACH_PORT_VALID name \<and> name \<noteq> MACH_PORT_NULL \<and> right_ok (capability e) \<and>
        ipc_entry_lookup s name = (Some (In_table i), s) \<and> get_entry st sid (In_table i) = e)"

lemma fast_found:
  assumes ok: "rights_ok cfg st sid" and its: "entry_sizes (ipc_table_entries cfg)"
    and f: "fast_entry (st_spaces st sid) name m want = Some e"
    and want: "want \<in> {MACH_PORT_TYPE_SEND, MACH_PORT_TYPE_RECEIVE, MACH_PORT_TYPE_SEND_ONCE}" and m: "m AND want = want"
  shows "found cfg st sid name e" and "has (ie_bits e) want"
    and "m AND IE_BITS_COLLISION = IE_BITS_COLLISION \<Longrightarrow> \<not> collides (ie_bits e)"
proof -
  let ?i = "MACH_PORT_INDEX name" and ?s = "st_spaces st sid"
  have e: "e = is_table ?s ! ?i" "?i < is_table_size ?s"
    and bits: "ie_bits e AND (IE_BITS_GEN_MASK OR m) = (MACH_PORT_GEN name OR want)"
    using f by (auto simp: fast_entry_def Let_def split: if_splits)
  have w: "want AND IE_BITS_GEN_MASK = 0" "want AND IE_BITS_COLLISION = 0" "want \<noteq> 0" "want AND IE_BITS_TYPE_MASK = want"
    using want by (auto simp: right_consts)
  have gen: "IE_BITS_GEN (ie_bits e) = MACH_PORT_GEN name" and b: "ie_bits e AND want = want"
    using masked_parts [OF bits w(1) m w(1)] by simp_all
  show has: "has (ie_bits e) want" using b w(3) by (simp add: has_def)
  show "\<not> collides (ie_bits e)" if "m AND IE_BITS_COLLISION = IE_BITS_COLLISION"
    using masked_parts(2) [OF bits w(1) that] w(2) by (simp add: collides_def IE_BITS_masks)
  have "space_ok (ipc_table_entries cfg) sid {} (st_hash st) ?s" using ok by (simp add: rights_ok_def st_ok_def)
  then have s: "sizes_ok (ipc_table_entries cfg) ?s" "head_ok (is_table ?s)" by (simp_all add: space_ok_def)
  then have len: "is_table_size ?s = length (is_table ?s)" by (simp add: sizes_ok_def)
  have "IE_BITS_TYPE (ie_bits e) AND want = want" using b w(4) by (metis IE_BITS_TYPE_def and.assoc and.commute)
  then have type: "IE_BITS_TYPE (ie_bits e) \<noteq> 0" using w(3) by auto
  then have i0: "0 < ?i" using head_ok_fields(1) [OF s(2)] e(1) by (cases "?i = 0") auto
  have "in_use {} ?s ?i" using i0 e len type by (simp add: in_use_def free_slots_def MACH_PORT_TYPE_NONE_def)
  then have "st_caps st sid name = Some (capability e)" using gen e(1) by (simp add: caps_def Let_def)
  then have r: "right_ok (capability e)" using ok unfolding rights_ok_def by blast
  have "is_table_size ?s \<le> MACH_PORT_INDEX MACH_PORT_DEAD"
    using s(1) entry_sizes.largest [OF its, of "is_table_next ?s - 1"] by (auto simp: sizes_ok_def)
  then have "name \<noteq> MACH_PORT_DEAD" "name \<noteq> MACH_PORT_NULL"
    using e(2) i0 by (auto simp: MACH_PORT_NULL_def MACH_PORT_INDEX_def)
  moreover have "ipc_entry_lookup ?s name = (Some (In_table ?i), ?s)"
    using e gen type by (simp add: ipc_entry_lookup_def Let_def MACH_PORT_TYPE_NONE_def)
  ultimately show "found cfg st sid name e"
    using i0 e len gen r by (simp add: found_def Let_def get_entry_def entry_at_def MACH_PORT_VALID_def)
qed

lemma foundD:
  assumes "found cfg st sid name e"
  shows "ipc_entry_lookup (st_spaces st sid) name = (Some (In_table (MACH_PORT_INDEX name)), st_spaces st sid)"
    and "get_entry st sid (In_table (MACH_PORT_INDEX name)) = e" and "name \<noteq> MACH_PORT_NULL" and "MACH_PORT_VALID name"
    and "right_ok (capability e)" and "0 < MACH_PORT_INDEX name" and "MACH_PORT_INDEX name < is_table_size (st_spaces st sid)"
    and "is_table_size (st_spaces st sid) = length (is_table (st_spaces st sid))" and "e = is_table (st_spaces st sid) ! MACH_PORT_INDEX name"
    and "IE_BITS_GEN (ie_bits e) = MACH_PORT_GEN name"
  using assms unfolding found_def Let_def by blast+

text \<open>What the bits of a right say of each other.\<close>

lemma right_types:
  assumes "right_ok (capability e)"
  shows "has (ie_bits e) MACH_PORT_TYPE_SEND \<Longrightarrow> \<not> has (ie_bits e) MACH_PORT_TYPE_DEAD_NAME \<and> has (ie_bits e) MACH_PORT_TYPE_SEND_RIGHTS"
    and "has (ie_bits e) MACH_PORT_TYPE_SEND_ONCE \<Longrightarrow> IE_BITS_TYPE (ie_bits e) = MACH_PORT_TYPE_SEND_ONCE"
    and "IE_BITS_TYPE (ie_bits e) \<noteq> MACH_PORT_TYPE_NONE"
  by (rule right_cases [OF assms]; simp add: has_type; simp add: right_consts)+

lemma set_space_same [simp]: "set_space st sid (st_spaces st sid) = st"
  by (simp add: set_space_def)

section \<open>Taking the rights\<close>

text \<open>The steps of the general code that the optimized cases need.\<close>

lemma copy_send_found:
  assumes "get_entry st sid r = e" and "right_ok (capability e)" and "has (ie_bits e) MACH_PORT_TYPE_SEND" and "ip_active (st_ports st (ie_object e))"
  shows "ipc_right_copyin cfg st sid name r MACH_MSG_TYPE_COPY_SEND deadok = Some (Inr (ie_object e, IP_NULL), add_send st (ie_object e))"
  using assms right_types(1) [OF assms(2,3)] check_live [OF assms(4)]
  by (simp add: copyin_copy_send_def add_send_def Let_def)

lemma make_sonce_found:
  assumes "get_entry st sid r = e" and "has (ie_bits e) MACH_PORT_TYPE_RECEIVE"
  shows "ipc_right_copyin cfg st sid name r MACH_MSG_TYPE_MAKE_SEND_ONCE deadok = Some (Inr (ie_object e, IP_NULL), add_sonce st (ie_object e))"
  using assms by (simp add: copyin_make_send_once_def add_sonce_def Let_def)

lemma dealloc_none_kept:
  assumes "get_entry st sid r = e" and "entry_at (st_spaces st sid) r \<noteq> None" and "IE_BITS_TYPE (ie_bits e) \<noteq> MACH_PORT_TYPE_NONE"
  shows "dealloc_none cfg st sid name r = Some st"
  using assms by (auto simp: dealloc_none_def get_entry_def)

lemma ports_parts:
  assumes "MACH_MSGH_BITS_PORTS mbits = k"
  shows "MACH_MSGH_BITS_REMOTE mbits = k AND 0xff" and "MACH_MSGH_BITS_LOCAL mbits = drop_bit 8 (k AND 0xff00)"
  using assms by (auto simp: MACH_MSGH_BITS_PORTS_def MACH_MSGH_BITS_REMOTE_def MACH_MSGH_BITS_LOCAL_def and.assoc)

lemma entry_kept [simp]:
  "get_entry (add_send st p) sid r = get_entry st sid r" "get_entry (add_sonce st p) sid r = get_entry st sid r"
  "get_entry (ipc_port_reference st p) sid r = get_entry st sid r" "get_entry (ipc_port_release st p) sid r = get_entry st sid r"
  "st_spaces (add_send st p) = st_spaces st" "st_spaces (add_sonce st p) = st_spaces st"
  "st_spaces (ipc_port_reference st p) = st_spaces st"
  by (simp_all add: get_entry_def add_send_def add_sonce_def ipc_port_reference_def Let_def)

lemma emit_nothing [simp]: "emit st [] = st"
  by (simp add: emit_def)

lemma port_deleted_null [simp]: "port_deleted IP_NULL name = []"
  by (simp add: port_deleted_def)

lemma async_exact:
  assumes "rights_ok cfg st sid" and "entry_sizes (ipc_table_entries cfg)"
    and "MACH_MSGH_BITS_PORTS mbits = MACH_MSGH_BITS (type_code MACH_MSG_TYPE_COPY_SEND) 0"
    and "copyin_async st sid kmsg mbits = Some (kmsg', st')"
  shows "copyin_general cfg gap1 gap2 st sid kmsg mbits MACH_PORT_NULL = Some (MACH_MSG_SUCCESS, kmsg', st')"
proof -
  let ?n = "msgh_remote_port kmsg"
  obtain e where l: "msgh_local_port kmsg = MACH_PORT_NULL" and a: "is_active (st_spaces st sid)"
    and e: "fast_entry (st_spaces st sid) ?n MACH_PORT_TYPE_SEND MACH_PORT_TYPE_SEND = Some e"
    and p: "ip_active (st_ports st (ie_object e))"
    and k: "kmsg' = kmsg\<lparr>msgh_bits := MACH_MSGH_BITS_OTHER mbits OR MACH_MSGH_BITS (type_code MACH_MSG_TYPE_PORT_SEND) 0, msgh_remote_port := ie_object e\<rparr>"
    and s: "st' = add_send st (ie_object e)"
    using assms(4) by (auto simp: copyin_async_def Let_def split: if_splits option.splits)
  have f: "found cfg st sid ?n e" and h: "has (ie_bits e) MACH_PORT_TYPE_SEND"
    using fast_found(1,2) [OF assms(1,2) e] by simp_all
  note f' = foundD [OF f]
  have b: "MACH_MSGH_BITS_REMOTE mbits = 19" "MACH_MSGH_BITS_LOCAL mbits = 0"
    using ports_parts [OF assms(3)] by (simp_all add: MACH_MSGH_BITS_def)
  have d: "dealloc_none cfg st' sid ?n (In_table (MACH_PORT_INDEX ?n)) = Some st'"
    by (rule dealloc_none_kept) (use f'(2,7) right_types(3) [OF f'(5)] in \<open>simp_all add: s entry_at_def\<close>)
  have "copyin_dest_only cfg st sid ?n MACH_PORT_NULL MACH_MSG_TYPE_COPY_SEND = Some (Inr (ie_object e, MACH_PORT_NULL, IP_NULL, IP_NULL), st')"
    using f'(1) copy_send_found [OF f'(2,5) h p] d by (simp add: copyin_dest_only_def s)
  then show ?thesis
    using a l b f'(3) by (simp add: copyin_general_def any_send_def notify_receiver_def copyin_done_def MACH_PORT_VALID_def k Let_def)
qed

text \<open>A reference that is held for a while leaves nothing behind.\<close>

lemma reference_release:
  assumes "ip_references (st_ports (add_sonce st p) p) \<noteq> 0"
  shows "ipc_port_release (add_sonce (ipc_port_reference st p) p) p = add_sonce st p"
proof -
  have r: "ip_references (st_ports st p) + 1 \<noteq> 0" using assms by (simp add: add_sonce_def)
  have p: "ipc_port_release st p = set_port st p ((st_ports st p)\<lparr>ip_references := ip_references (st_ports st p) - 1\<rparr>)"
    if "ip_references (st_ports st p) \<noteq> 1" for st
    using that by (simp add: ipc_port_release_def ip_check_unlock_def Let_def)
  have "ip_references (st_ports (add_sonce (ipc_port_reference st p) p) p) \<noteq> 1"
    using r by (simp add: add_sonce_def ipc_port_reference_def Let_def add.commute [of 1])
  then show ?thesis
    by (simp add: p) (simp add: add_sonce_def upd_port_def set_port_def ipc_port_reference_def Let_def add.commute)
qed

lemma request_same:
  assumes "found cfg st sid name e" and "has (ie_bits e) MACH_PORT_TYPE_SEND" and "has (ie_bits e) MACH_PORT_TYPE_RECEIVE"
    and "ip_active (st_ports st (ie_object e))"
  shows "copyin_same cfg st sid name MACH_MSG_TYPE_COPY_SEND MACH_MSG_TYPE_MAKE_SEND_ONCE =
    Some (Inr (ie_object e, ie_object e, IP_NULL, IP_NULL), add_sonce (add_send st (ie_object e)) (ie_object e))"
proof -
  note f = foundD [OF assms(1)]
  have "get_entry (add_send st (ie_object e)) sid (In_table (MACH_PORT_INDEX name)) = e" using f(2) by simp
  from make_sonce_found [OF this assms(3)] copy_send_found [OF f(2,5) assms(2,4)] f(1,2) assms(3) show ?thesis
    by (simp add: copyin_same_def ipc_right_copyin_check_def Let_def)
qed

lemma request_both:
  assumes d: "found cfg st sid dname d" "has (ie_bits d) MACH_PORT_TYPE_SEND" "ip_active (st_ports st (ie_object d))"
    and r: "found cfg st sid rname r" "has (ie_bits r) MACH_PORT_TYPE_RECEIVE"
    and refs: "ie_object r = IP_NULL \<or> ip_references (st_ports (add_sonce (add_send st (ie_object d)) (ie_object r)) (ie_object r)) \<noteq> 0"
  shows "copyin_both cfg id id st sid dname rname MACH_MSG_TYPE_COPY_SEND MACH_MSG_TYPE_MAKE_SEND_ONCE =
    Some (Inr (ie_object d, ie_object r, IP_NULL, IP_NULL), add_sonce (add_send st (ie_object d)) (ie_object r))"
proof -
  note df = foundD [OF d(1)] and rf = foundD [OF r(1)]
  let ?d = "ie_object d" and ?r = "ie_object r"
  define st1 where "st1 = (if ?r \<noteq> IP_NULL then ipc_port_reference (add_send st ?d) ?r else add_send st ?d)"
  have sp: "get_entry st1 sid x = get_entry st sid x" "st_spaces st1 = st_spaces st" for x by (simp_all add: st1_def)
  have alive: "ip_active (st_ports (add_sonce st1 ?r) ?d)"
    using d(3) by (auto simp: st1_def add_sonce_def add_send_def ipc_port_reference_def Let_def)
  have m: "ipc_right_copyin cfg st1 sid rname (In_table (MACH_PORT_INDEX rname)) MACH_MSG_TYPE_MAKE_SEND_ONCE True = Some (Inr (?r, IP_NULL), add_sonce st1 ?r)"
    by (rule make_sonce_found) (use sp rf(2) r(2) in simp_all)
  have kept: "dealloc_none cfg (add_sonce st1 ?r) sid rname (In_table (MACH_PORT_INDEX rname)) = Some (add_sonce st1 ?r)"
    "dealloc_none cfg (add_sonce st1 ?r) sid dname (In_table (MACH_PORT_INDEX dname)) = Some (add_sonce st1 ?r)"
    using rf df right_types(3) [OF rf(5)] right_types(3) [OF df(5)] by (intro dealloc_none_kept [OF refl]; simp add: sp entry_at_def)+
  have "(if ?r \<noteq> IP_NULL then ipc_port_release (add_sonce st1 ?r) ?r else add_sonce st1 ?r) = add_sonce (add_send st ?d) ?r"
    using refs reference_release [of "add_send st ?d" ?r] by (auto simp: st1_def)
  then have c: "copyin_cleanup cfg False (add_sonce st1 ?r) sid (dname, In_table (MACH_PORT_INDEX dname)) (rname, In_table (MACH_PORT_INDEX rname)) ?r =
      Some (add_sonce (add_send st ?d) ?r)"
    using kept by (simp add: copyin_cleanup_def)
  have chk: "ipc_right_copyin_check st sid rname (In_table (MACH_PORT_INDEX rname)) MACH_MSG_TYPE_MAKE_SEND_ONCE"
    using rf(2) r(2) by (simp add: ipc_right_copyin_check_def Let_def)
  have "\<not> must_undo (add_sonce st1 ?r) ?d ?r" using alive by (simp add: must_undo_def)
  then show ?thesis
    using df(1) rf(1,2) chk copy_send_found [OF df(2,5) d(2,3)] m c
    by (cases "?r = IP_NULL") (simp_all add: copyin_both_def Let_def st1_def)
qed

lemma request_exact:
  assumes "rights_ok cfg st sid" and "entry_sizes (ipc_table_entries cfg)"
    and "MACH_MSGH_BITS_PORTS mbits = MACH_MSGH_BITS (type_code MACH_MSG_TYPE_COPY_SEND) (type_code MACH_MSG_TYPE_MAKE_SEND_ONCE)"
    and "copyin_request locked st sid kmsg mbits = Some (kmsg', st')"
    and "msgh_local_port kmsg' = IP_NULL \<or> ip_references (st_ports st' (msgh_local_port kmsg')) \<noteq> 0"
  shows "copyin_general cfg id id st sid kmsg mbits MACH_PORT_NULL = Some (MACH_MSG_SUCCESS, kmsg', st')"
proof -
  let ?n = "msgh_remote_port kmsg" and ?m = "msgh_local_port kmsg"
  obtain d r where a: "is_active (st_spaces st sid)"
    and d: "fast_entry (st_spaces st sid) ?n MACH_PORT_TYPE_SEND MACH_PORT_TYPE_SEND = Some d"
    and r: "fast_entry (st_spaces st sid) ?m MACH_PORT_TYPE_RECEIVE MACH_PORT_TYPE_RECEIVE = Some r"
    and p: "ip_active (st_ports st (ie_object d))"
    and k: "kmsg' = kmsg\<lparr>msgh_bits := MACH_MSGH_BITS_OTHER mbits OR
        MACH_MSGH_BITS (type_code MACH_MSG_TYPE_PORT_SEND) (type_code MACH_MSG_TYPE_PORT_SEND_ONCE), msgh_remote_port := ie_object d, msgh_local_port := ie_object r\<rparr>"
    and s: "st' = add_sonce (add_send st (ie_object d)) (ie_object r)"
    using assms(4) by (auto simp: copyin_request_def Let_def split: if_splits option.splits)
  have df: "found cfg st sid ?n d" "has (ie_bits d) MACH_PORT_TYPE_SEND"
    and rf: "found cfg st sid ?m r" "has (ie_bits r) MACH_PORT_TYPE_RECEIVE"
    using fast_found(1,2) [OF assms(1,2) d] fast_found(1,2) [OF assms(1,2) r] by simp_all
  have b: "MACH_MSGH_BITS_REMOTE mbits = 19" "MACH_MSGH_BITS_LOCAL mbits = 21"
    using ports_parts [OF assms(3)] by (simp_all add: MACH_MSGH_BITS_def)
  have refs: "ie_object r = IP_NULL \<or> ip_references (st_ports (add_sonce (add_send st (ie_object d)) (ie_object r)) (ie_object r)) \<noteq> 0"
    using assms(5) by (simp add: k s)
  have "(if ?n = ?m then copyin_same cfg st sid ?n MACH_MSG_TYPE_COPY_SEND MACH_MSG_TYPE_MAKE_SEND_ONCE
      else copyin_both cfg id id st sid ?n ?m MACH_MSG_TYPE_COPY_SEND MACH_MSG_TYPE_MAKE_SEND_ONCE) =
    Some (Inr (ie_object d, ie_object r, IP_NULL, IP_NULL), st')"
  proof (cases "?n = ?m")
    case True
    then have "d = r" using foundD(9) [OF df(1)] foundD(9) [OF rf(1)] by simp
    then show ?thesis using request_same [OF df _ p] rf(2) True by (simp add: s)
  next
    case False
    then show ?thesis using request_both [OF df p rf refs] by (simp add: s)
  qed
  then show ?thesis
    using a b foundD(4) [OF rf(1)]
    by (cases "?n = ?m") (simp_all add: copyin_general_def any_send_def notify_receiver_def copyin_done_def k Let_def)
qed

text \<open>A slot that is freed on the spot.\<close>

definition freed_slot :: "ipc_entry list \<Rightarrow> nat \<Rightarrow> 32 word \<Rightarrow> ipc_entry list" where
  "freed_slot t i gen =
    (let u = set_next t i (ie_next (t ! 0)); u = set_next u 0 i; u = set_bits u i gen in u[i := (u ! i)\<lparr>ie_object := IO_NULL\<rparr>])"

lemma free_in_place:
  assumes i: "0 < i" "i < length t" and gen: "IE_BITS_GEN (ie_bits (t ! i)) = gen"
    and b: "b AND IE_BITS_GEN_MASK = ie_bits (t ! i) AND IE_BITS_GEN_MASK"
  shows "is_table (dealloc_free (s\<lparr>is_table := t[i := (t ! i)\<lparr>ie_object := IO_NULL, ie_bits := b\<rparr>]\<rparr>) i) = freed_slot t i gen"
proof (rule nth_equalityI)
  fix j
  have l: "0 < length t" using i by linarith
  have g: "b AND IE_BITS_GEN_MASK = gen" using gen b by (simp add: IE_BITS_GEN_def)
  show "is_table (dealloc_free (s\<lparr>is_table := t[i := (t ! i)\<lparr>ie_object := IO_NULL, ie_bits := b\<rparr>]\<rparr>) i) ! j =
    freed_slot t i gen ! j"
    using i g l by (cases "j = i"; cases "j = 0") (simp_all add: nth_list_update freed_slot_def dealloc_free_def set_bits_def set_next_def Let_def)
qed (simp add: freed_slot_def dealloc_free_def set_bits_def set_next_def Let_def)

lemma sonce_found:
  assumes f: "found cfg st sid name e" and h: "has (ie_bits e) MACH_PORT_TYPE_SEND_ONCE" and nc: "\<not> collides (ie_bits e)"
    and p: "ip_active (st_ports st (ie_object e))" and q: "ie_request e = 0"
  shows "\<exists>st1. ipc_right_copyin cfg st sid name (In_table (MACH_PORT_INDEX name)) MACH_MSG_TYPE_MOVE_SEND_ONCE False = Some (Inr (ie_object e, IP_NULL), st1) \<and>
    dealloc_none cfg st1 sid name (In_table (MACH_PORT_INDEX name)) =
      Some (set_space st sid ((st_spaces st sid)\<lparr>is_table := freed_slot (is_table (st_spaces st sid)) (MACH_PORT_INDEX name) (MACH_PORT_GEN name)\<rparr>))"
    (is "\<exists>st1. _ \<and> _ = Some ?st'")
proof -
  let ?i = "MACH_PORT_INDEX name" and ?s = "st_spaces st sid" let ?t = "is_table ?s"
  note f' = foundD [OF f]
  have type: "IE_BITS_TYPE (ie_bits e) = MACH_PORT_TYPE_SEND_ONCE" using right_types(2) [OF f'(5) h] .
  let ?b = "ie_bits e AND NOT MACH_PORT_TYPE_SEND_ONCE" and ?r = "In_table ?i"
  let ?st = "upd_entry st sid ?r (\<lambda>e. e\<lparr>ie_object := IO_NULL, ie_bits := ?b\<rparr>)"
  have bits: "\<not> has (ie_bits e) MACH_PORT_TYPE_DEAD_NAME" "has (ie_bits e) MACH_PORT_TYPE_SEND_RIGHTS"
    unfolding has_type type by (simp_all add: right_consts)
  have b: "IE_BITS_TYPE ?b = MACH_PORT_TYPE_NONE" "\<not> collides ?b" "?b AND IE_BITS_GEN_MASK = ie_bits e AND IE_BITS_GEN_MASK"
    using nc unfolding fields_AND type by (simp_all add: right_consts collides_def and.assoc)
  have c: "ipc_right_copyin cfg st sid name ?r MACH_MSG_TYPE_MOVE_SEND_ONCE False = Some (Inr (ie_object e, IP_NULL), ?st)"
    using f'(2) bits h q check_live [OF p] by (simp add: copyin_move_send_once_def ipc_right_dncancel_macro_def Let_def)
  have sp: "st_spaces ?st sid = ?s\<lparr>is_table := ?t[?i := (?t ! ?i)\<lparr>ie_object := IO_NULL, ie_bits := ?b\<rparr>]\<rparr>"
    using f'(2,9) by (simp add: set_entry_def)
  have at: "entry_at (st_spaces ?st sid) ?r = Some (e\<lparr>ie_object := IO_NULL, ie_bits := ?b\<rparr>)"
    unfolding sp using f'(7,8,9) by (simp add: entry_at_def)
  have "entry_dealloc cfg ?st sid name ?r = Some (set_world ?st sid (st_hash ?st, dealloc_free (st_spaces ?st sid) ?i))"
    unfolding entry_dealloc_def ipc_entry_dealloc_def sp using b(2) f'(7,8) by (simp add: Let_def)
  moreover have "set_world ?st sid (st_hash ?st, dealloc_free (st_spaces ?st sid) ?i) = ?st'"
  proof -
    have tab: "is_table (dealloc_free (st_spaces ?st sid) ?i) = is_table (st_spaces ?st' sid)"
      unfolding sp using free_in_place [of ?i ?t "MACH_PORT_GEN name" ?b ?s] f'(6-10) b(3) by (simp add: set_space_def)
    have "dealloc_free (st_spaces ?st sid) ?i = ?s\<lparr>is_table := is_table (dealloc_free (st_spaces ?st sid) ?i)\<rparr>"
      unfolding sp by (simp add: dealloc_free_def Let_def)
    then have "dealloc_free (st_spaces ?st sid) ?i = st_spaces ?st' sid" unfolding tab by (simp add: set_space_def)
    then show ?thesis by (simp add: set_world_def upd_entry_def set_space_def)
  qed
  ultimately have d: "dealloc_none cfg ?st sid name ?r = Some ?st'" unfolding dealloc_none_def at using b(1) by simp
  with c show ?thesis by blast
qed

lemma reply_exact:
  assumes "rights_ok cfg st sid" and "entry_sizes (ipc_table_entries cfg)"
    and "MACH_MSGH_BITS_PORTS mbits = MACH_MSGH_BITS (type_code MACH_MSG_TYPE_MOVE_SEND_ONCE) 0"
    and "copyin_reply st sid kmsg mbits = Some (kmsg', st')"
  shows "copyin_general cfg gap1 gap2 st sid kmsg mbits MACH_PORT_NULL = Some (MACH_MSG_SUCCESS, kmsg', st')"
proof -
  let ?n = "msgh_remote_port kmsg" let ?i = "MACH_PORT_INDEX ?n" and ?s = "st_spaces st sid" let ?t = "is_table ?s"
  obtain e where l: "msgh_local_port kmsg = MACH_PORT_NULL" and a: "is_active ?s"
    and e: "fast_entry ?s ?n (IE_BITS_COLLISION OR MACH_PORT_TYPE_SEND_ONCE) MACH_PORT_TYPE_SEND_ONCE = Some e"
    and p: "ip_active (st_ports st (ie_object e))" and q: "ie_request e = 0"
    and k: "kmsg' = kmsg\<lparr>msgh_bits := MACH_MSGH_BITS_OTHER mbits OR MACH_MSGH_BITS (type_code MACH_MSG_TYPE_PORT_SEND_ONCE) 0, msgh_remote_port := ie_object e\<rparr>"
    and s: "st' = set_space st sid (?s\<lparr>is_table := freed_slot ?t ?i (MACH_PORT_GEN ?n)\<rparr>)"
    using assms(4) by (auto simp: copyin_reply_def freed_slot_def Let_def split: if_splits option.splits)
  have m: "(IE_BITS_COLLISION OR MACH_PORT_TYPE_SEND_ONCE) AND MACH_PORT_TYPE_SEND_ONCE = MACH_PORT_TYPE_SEND_ONCE"
    "(IE_BITS_COLLISION OR MACH_PORT_TYPE_SEND_ONCE) AND IE_BITS_COLLISION = IE_BITS_COLLISION"
    by (simp_all add: right_consts)
  have f: "found cfg st sid ?n e" and h: "has (ie_bits e) MACH_PORT_TYPE_SEND_ONCE" and nc: "\<not> collides (ie_bits e)"
    using fast_found [OF assms(1,2) e _ m(1)] m(2) by simp_all
  note f' = foundD [OF f]
  obtain st1 where c: "ipc_right_copyin cfg st sid ?n (In_table ?i) MACH_MSG_TYPE_MOVE_SEND_ONCE False = Some (Inr (ie_object e, IP_NULL), st1)"
    and d: "dealloc_none cfg st1 sid ?n (In_table ?i) = Some st'"
    using sonce_found [OF f h nc p q] unfolding s by blast
  have "copyin_dest_only cfg st sid ?n MACH_PORT_NULL MACH_MSG_TYPE_MOVE_SEND_ONCE = Some (Inr (ie_object e, MACH_PORT_NULL, IP_NULL, IP_NULL), st')"
    using f'(1) c d by (simp add: copyin_dest_only_def)
  moreover have "MACH_MSGH_BITS_REMOTE mbits = 18" "MACH_MSGH_BITS_LOCAL mbits = 0"
    using ports_parts [OF assms(3)] by (simp_all add: MACH_MSGH_BITS_def)
  ultimately show ?thesis
    using a l f'(3) by (simp add: copyin_general_def any_send_def notify_receiver_def copyin_done_def MACH_PORT_VALID_def k Let_def)
qed

section \<open>The optimized cases are exact\<close>

text \<open>Other threads do nothing meanwhile; \<open>locked\<close> is what \<^verbatim>\<open>ip_lock_try\<close> answers.\<close>

definition quiet_gaps :: "bool \<Rightarrow> header_gaps" where
  "quiet_gaps locked = \<lparr>try_reply = locked, gap_retry = id, gap_between = id, gap_after = id\<rparr>"

definition clean_bits :: "ipc_kmsg \<Rightarrow> 32 word" where
  "clean_bits kmsg = msgh_bits kmsg AND NOT (MACH_MSGH_BITS_CIRCULAR OR MACH_MSGH_BITS_OLD_FORMAT)"

lemma common_exact:
  assumes "rights_ok cfg st sid" and "entry_sizes (ipc_table_entries cfg)"
    and "\<forall>p. ip_references (st_ports st p) < 0xfffffffe" and "copyin_common locked st sid kmsg mbits = Some (kmsg', st')"
  shows "copyin_general cfg id id st sid kmsg mbits MACH_PORT_NULL = Some (MACH_MSG_SUCCESS, kmsg', st')"
proof -
  consider "MACH_MSGH_BITS_PORTS mbits = MACH_MSGH_BITS (type_code MACH_MSG_TYPE_COPY_SEND) 0" "copyin_async st sid kmsg mbits = Some (kmsg', st')"
    | (request) "MACH_MSGH_BITS_PORTS mbits = MACH_MSGH_BITS (type_code MACH_MSG_TYPE_COPY_SEND) (type_code MACH_MSG_TYPE_MAKE_SEND_ONCE)"
      "copyin_request locked st sid kmsg mbits = Some (kmsg', st')"
    | "MACH_MSGH_BITS_PORTS mbits = MACH_MSGH_BITS (type_code MACH_MSG_TYPE_MOVE_SEND_ONCE) 0" "copyin_reply st sid kmsg mbits = Some (kmsg', st')"
    using assms(4) by (auto simp: copyin_common_def Let_def split: if_splits)
  then show ?thesis
  proof cases
    case request
    have small: "x + 1 \<noteq> 0" "x + 2 \<noteq> 0" if "x < 0xfffffffe" for x :: "32 word"
      using that by (auto simp flip: eq_neg_iff_add_eq_0)
    obtain d r where "msgh_local_port kmsg' = r" "st' = add_sonce (add_send st d) r"
      using request(2) by (auto simp: copyin_request_def Let_def split: if_splits option.splits)
    then have "ip_references (st_ports st' (msgh_local_port kmsg')) \<noteq> 0"
      using assms(3) small [of "ip_references (st_ports st r)"] by (auto simp: add_sonce_def add_send_def add.assoc)
    with request_exact [OF assms(1,2) request] show ?thesis by simp
  qed (rule async_exact reply_exact; use assms in simp)+
qed

text \<open>
  C12: The optimized cases of \<^verbatim>\<open>ipc_kmsg_copyin_header\<close> (one-way messages, requests and replies whose names are in
  the table) do exactly what the general code does, whether or not the reply port can be locked at once: the same
  code is returned, the same header is made, and ports, names and free list are left the same.  The rights of the
  space are well formed, the counts of references are not at the end of their 32 bits, and no port dies meanwhile.
\<close>

theorem header_fast_path_exact:
  assumes "rights_ok cfg st sid" and "entry_sizes (ipc_table_entries cfg)" and "\<forall>p. ip_references (st_ports st p) < 0xfffffffe"
  shows "ipc_kmsg_copyin_header cfg (quiet_gaps locked) st sid kmsg notify = copyin_general cfg id id st sid kmsg (clean_bits kmsg) notify"
  using common_exact [OF assms, of locked kmsg "clean_bits kmsg"]
  by (auto simp: ipc_kmsg_copyin_header_def quiet_gaps_def clean_bits_def Let_def split: option.split)

definition request_kmsg :: ipc_kmsg where
  "request_kmsg = \<lparr>msgh_bits = MACH_MSGH_BITS 19 21, msgh_size = 24, msgh_remote_port = 0x100, msgh_local_port = 0x100, msgh_body = [], ikm_marequest = 0, msgh_reserved = 0, msgh_id = 0, msgh_data = No_data, ikm_sender = (0, 0)\<rparr>"

lemma both_references: "\<forall>p. ip_references (st_ports both_state p) < 0xfffffffe"
  by (simp add: both_state_def right_state_def got_state_def live_port_def blank_port_def)

theorem header_fast_path_exact_witness:
  "copyin_common True both_state 16 request_kmsg (clean_bits request_kmsg) \<noteq> None \<and>
    ipc_kmsg_copyin_header example_config (quiet_gaps True) both_state 16 request_kmsg MACH_PORT_NULL =
      copyin_general example_config id id both_state 16 request_kmsg (clean_bits request_kmsg) MACH_PORT_NULL"
proof
  show "copyin_common True both_state 16 request_kmsg (clean_bits request_kmsg) \<noteq> None" by code_simp
  show "ipc_kmsg_copyin_header example_config (quiet_gaps True) both_state 16 request_kmsg MACH_PORT_NULL =
      copyin_general example_config id id both_state 16 request_kmsg (clean_bits request_kmsg) MACH_PORT_NULL"
    by (rule header_fast_path_exact [OF both_rights _ both_references]) (simp add: example_config_def example_sizes_ok)
qed

section \<open>One-way messages\<close>

text \<open>With a live port it does not matter whether a dead name would do.\<close>

lemma copyin_deadok:
  assumes "right_at cfg st sid name r e" and "IE_BITS_TYPE (ie_bits e) \<noteq> MACH_PORT_TYPE_DEAD_NAME" and "ip_active (st_ports st (ie_object e))"
  shows "ipc_right_copyin cfg st sid name r t False = ipc_right_copyin cfg st sid name r t True"
proof -
  have "\<not> has (ie_bits e) MACH_PORT_TYPE_DEAD_NAME"
    using assms(2) right_tests [OF right_atD(2) [OF assms(1)]] by simp
  then show ?thesis using right_atD(7) [OF assms(1)] check_live [OF assms(3), of cfg sid name r]
    by (cases t) (simp_all add: copyin_copy_send_def copyin_move_send_def copyin_move_send_once_def Let_def)
qed

text \<open>Without a live port, a destination is refused.\<close>

lemma copyin_not_live:
  assumes at: "right_at cfg st sid name r e" and rcv: "receiver_ok st sid e" and check: "ipc_right_copyin_check st sid name r t"
    and dead: "IE_BITS_TYPE (ie_bits e) = MACH_PORT_TYPE_DEAD_NAME \<or> \<not> ip_active (st_ports st (ie_object e))"
  shows "\<exists>kr st'. ipc_right_copyin cfg st sid name r t False = Some (Inl kr, st')"
proof -
  note at' = right_atD [OF at] and c = check [unfolded check_types [OF at]]
  have nr: "\<not> has (ie_bits e) MACH_PORT_TYPE_RECEIVE"
    using dead rcv right_tests [OF at'(2)] by (auto simp: receiver_ok_def)
  show ?thesis
  proof (cases "IE_BITS_TYPE (ie_bits e) = MACH_PORT_TYPE_DEAD_NAME")
    case True
    then have "has (ie_bits e) MACH_PORT_TYPE_DEAD_NAME" using right_tests [OF at'(2)] by simp
    then show ?thesis using at'(7) nr
      by (cases t) (simp_all add: copyin_copy_send_def copyin_move_send_def copyin_move_send_once_def copyin_make_send_def
        copyin_make_send_once_def copyin_move_receive_def copy_dead_def move_dead_def Let_def)
  next
    case False
    have t: "IE_BITS_TYPE (ie_bits e) \<in> {MACH_PORT_TYPE_SEND, MACH_PORT_TYPE_SEND_ONCE}"
      using c nr False unfolding has_type by (auto split: if_splits simp: right_consts)
    obtain st' where "ipc_right_check cfg st sid (ie_object e) name r = Some (True, st')"
      using check_dead_spec [OF at _ t] dead False by blast
    moreover have "\<not> has (ie_bits e) MACH_PORT_TYPE_DEAD_NAME" "has (ie_bits e) MACH_PORT_TYPE_SEND_RIGHTS"
      using t unfolding has_type by (auto simp: right_consts)
    ultimately show ?thesis using at'(3,7) nr
      by (cases t) (simp_all add: copyin_copy_send_def copyin_move_send_def copyin_move_send_once_def copyin_make_send_def
        copyin_make_send_once_def copyin_move_receive_def copy_dead_def move_dead_def Let_def)
  qed
qed

lemma lookup_write_active:
  assumes "ipc_right_lookup_write st sid name = (Inr r, st1)"
  shows "\<exists>space. ipc_entry_lookup (st_spaces st sid) name = (Some r, space) \<and> st1 = set_space st sid space"
  using assms by (auto simp: ipc_right_lookup_write_def split: if_splits prod.splits option.splits)

text \<open>The destination alone, as \<^verbatim>\<open>ipc_object_copyin\<close> would take it.\<close>

lemma dest_only_spec:
  assumes n: "named_right cfg st sid name (bits, p, request)" and rcv: "receiver_named st sid (bits, p, request)"
  shows "if copyin_allowed st (bits, p, request) t \<and> IE_BITS_TYPE bits \<noteq> MACH_PORT_TYPE_DEAD_NAME \<and> ip_active (st_ports st p)
    then \<exists>so st3. copyin_dest_only cfg st sid name reply t = Some (Inr (p, reply, so, IP_NULL), st3) \<and>
      ipc_object_copyin cfg st sid name t = Some (Inr p, emit st3 (port_deleted so name))
    else \<exists>st'. copyin_dest_only cfg st sid name reply t = Some (Inl MACH_SEND_INVALID_DEST, st')"
proof -
  obtain r e tree where l: "ipc_right_lookup_write st sid name = (Inr r, splayed st sid tree)" "right_at cfg (splayed st sid tree) sid name r e"
    "capability e = (bits, p, request)" "receiver_ok (splayed st sid tree) sid e = receiver_named st sid (bits, p, request)"
    using named_lookup [OF n] by blast
  let ?st = "splayed st sid tree"
  note at = l(2) and its = right_atD(4) [OF l(2)]
  have rok: "receiver_ok ?st sid e" using l(4) rcv by simp
  have e: "ie_object e = p" "IE_BITS_TYPE bits = IE_BITS_TYPE (ie_bits e)" using l(3) cap_fields(1) [of "ie_bits e"] by (auto simp: capability_def)
  have check: "ipc_right_copyin_check ?st sid name r t = copyin_allowed st (bits, p, request) t"
    using check_allowed [OF at, of t] unfolding l(3) by simp
  obtain space where lk: "ipc_entry_lookup (st_spaces st sid) name = (Some r, space)" "?st = set_space st sid space"
    using lookup_write_active [OF l(1)] by blast
  show ?thesis
  proof (cases "copyin_allowed st (bits, p, request) t \<and> IE_BITS_TYPE bits \<noteq> MACH_PORT_TYPE_DEAD_NAME \<and> ip_active (st_ports st p)")
    case live: True
    obtain so st2 e2 where c: "ipc_right_copyin cfg ?st sid name r t True = Some (Inr (p, so), st2)" "transferred cfg ?st sid name r e 0 st2 e2 (hand_bits t)"
      using copyin_taken [OF at rok, of t] check live e by auto
    obtain st3 where st3: "(if IE_BITS_TYPE (ie_bits (get_entry st2 sid r)) = MACH_PORT_TYPE_NONE then entry_dealloc cfg st2 sid name r else Some st2) = Some st3"
      using transferred_finish [OF c(2) its] by blast
    have "entry_at (st_spaces st2 sid) r = Some e2" using c(2) by (simp add: transferred_def holds_def)
    then have d: "dealloc_none cfg st2 sid name r = Some st3" using st3 by (simp add: dealloc_none_def get_entry_def)
    have "ipc_right_copyin cfg ?st sid name r t False = Some (Inr (p, so), st2)"
      using copyin_deadok [OF at, of t] live e c(1) by simp
    then have "copyin_dest_only cfg st sid name reply t = Some (Inr (p, reply, so, IP_NULL), st3)"
      using lk d by (simp add: copyin_dest_only_def)
    moreover have "ipc_object_copyin cfg st sid name t = Some (Inr p, emit st3 (port_deleted so name))"
      using l(1) c(1) st3 by (simp add: ipc_object_copyin_def)
    ultimately show ?thesis using live by auto
  next
    case False
    have "\<exists>kr st'. ipc_right_copyin cfg ?st sid name r t False = Some (Inl kr, st')"
    proof (cases "copyin_allowed st (bits, p, request) t")
      case True
      with False show ?thesis using copyin_not_live [OF at rok, of t] check e by auto
    next
      case no: False
      then show ?thesis using copyin_refused [OF at, of t False] check by blast
    qed
    then have "\<exists>st'. copyin_dest_only cfg st sid name reply t = Some (Inl MACH_SEND_INVALID_DEST, st')"
      using lk by (auto simp: copyin_dest_only_def)
    with False show ?thesis by auto
  qed
qed

lemma header_remote: "MACH_MSGH_BITS_REMOTE (MACH_MSGH_BITS_OTHER b OR MACH_MSGH_BITS (type_code t) 0) = type_code t"
proof -
  have "(b AND NOT 0xffff) AND 0xff = (0 :: 32 word)" by (simp add: and.assoc)
  then show ?thesis
    by (cases t) (simp_all add: MACH_MSGH_BITS_REMOTE_def MACH_MSGH_BITS_OTHER_def MACH_MSGH_BITS_def bit.conj_disj_distrib2)
qed

lemma one_way_bits:
  assumes "MACH_MSGH_BITS_PORTS (msgh_bits kmsg) = type_code t" and "t \<noteq> MACH_MSG_TYPE_MOVE_RECEIVE"
  shows "any_send (MACH_MSGH_BITS_REMOTE (clean_bits kmsg)) = Some t" and "MACH_MSGH_BITS_LOCAL (clean_bits kmsg) = 0" and "any_send 0 = None"
proof -
  have "MACH_MSGH_BITS_PORTS (clean_bits kmsg) = type_code t"
    using assms(1) by (simp add: clean_bits_def MACH_MSGH_BITS_PORTS_def MACH_MSGH_BITS_CIRCULAR_def MACH_MSGH_BITS_OLD_FORMAT_def and.assoc)
  from ports_parts [OF this] show "any_send (MACH_MSGH_BITS_REMOTE (clean_bits kmsg)) = Some t" and "MACH_MSGH_BITS_LOCAL (clean_bits kmsg) = 0"
    using assms(2) by (cases t; simp add: any_send_def)+
qed (simp add: any_send_def)

text \<open>
  What the name of a destination stands for: nothing in a space that is not active, for a name without a right, and for the
  names that \<^verbatim>\<open>ipc_entry_lookup\<close> does not find.
\<close>

definition findable :: "ipc_state \<Rightarrow> space_id \<Rightarrow> mach_port_t \<Rightarrow> capability option" where
  "findable st sid name = (if is_active (st_spaces st sid) \<and> \<not> shadowed name then st_caps st sid name else None)"

lemma lookup_missing:
  assumes ok: "st_ok cfg st sid" and active: "is_active (st_spaces st sid)" and missing: "findable st sid name = None"
  shows "\<exists>tree. ipc_entry_lookup (st_spaces st sid) name = (None, (st_spaces st sid)\<lparr>is_tree := tree\<rparr>) \<and>
    st_caps (splayed st sid tree) sid = st_caps st sid"
proof -
  let ?s = "st_spaces st sid"
  have sok: "space_ok (ipc_table_entries cfg) sid {} (st_hash st) ?s" using ok by (simp add: st_ok_def)
  show ?thesis
  proof (cases "shadowed name")
    case True
    note sp = space_okD [OF sok]
    have "ipc_entry_lookup ?s name = (None, ?s\<lparr>is_tree := is_tree ?s\<rparr>)"
      using head_ok_fields [OF sp(2)] sp(2,12) True
      by (simp add: ipc_entry_lookup_def MACH_PORT_TYPE_NONE_def head_ok_def shadowed_def)
    then show ?thesis by (intro exI [of _ "is_tree ?s"]) (simp add: splayed_def set_space_def)
  next
    case False
    then have "st_caps st sid name = None" using missing active by (simp add: findable_def)
    with ipc_entry_lookup_spec [OF sok False] obtain tree where "ipc_entry_lookup ?s name = (None, ?s\<lparr>is_tree := tree\<rparr>)"
      "ist_list tree = ist_list (is_tree ?s)" "ist_ok tree" by auto
    with space_ok_splay(2) [OF sok] show ?thesis by (auto simp: splayed_def set_space_def)
  qed
qed

lemma no_null_name:
  assumes "st_ok cfg st sid"
  shows "findable st sid MACH_PORT_NULL = None"
proof -
  have "tree_ok {} (ist_list (is_tree (st_spaces st sid)))" using assms space_okD(6) unfolding st_ok_def by blast
  then have "map_of (ist_list (is_tree (st_spaces st sid))) MACH_PORT_NULL = None"
    by (auto simp: tree_ok_def MACH_PORT_VALID_def map_of_eq_None_iff)
  then show ?thesis by (simp add: findable_def caps_def in_use_def MACH_PORT_NULL_def MACH_PORT_INDEX_def Let_def)
qed

text \<open>
  C13: The header of a one-way message conserves rights, for every name as destination.  A destination that the task has a
  right for, of a live port and of the type that the header wants, is taken from its name as \<^verbatim>\<open>ipc_object_copyin\<close> takes it:
  the header gets the port and the kind of right, and the counts of the port change by exactly what the name and the
  message have more than before.  Every other destination gives \<^verbatim>\<open>MACH_SEND_INVALID_DEST\<close> and leaves the message as it
  was: a dead name, a dead port, a right of another type, a name without a right (then no right changes either), and any name
  of a space that is not active.  The optimized and the general code agree in this.
\<close>

theorem one_way_header:
  assumes "rights_ok cfg st sid" and "entry_sizes (ipc_table_entries cfg)"
    and "\<forall>c. findable st sid name = Some c \<longrightarrow> named_right cfg st sid name c \<and> receiver_named st sid c"
    and "\<forall>q. ip_references (st_ports st q) < 0xfffffffe"
    and "msgh_remote_port kmsg = name" and "msgh_local_port kmsg = MACH_PORT_NULL"
    and "MACH_MSGH_BITS_PORTS (msgh_bits kmsg) = type_code t" and "t \<noteq> MACH_MSG_TYPE_MOVE_RECEIVE"
  shows "\<exists>mr kmsg' st'. ipc_kmsg_copyin_header cfg (quiet_gaps locked) st sid kmsg MACH_PORT_NULL = Some (mr, kmsg', st') \<and>
    (case findable st sid name of
       None \<Rightarrow> mr = MACH_SEND_INVALID_DEST \<and> kmsg' = kmsg \<and> st_caps st' sid = st_caps st sid \<and> st_ports st' = st_ports st
     | Some (bits, p, request) \<Rightarrow>
         if copyin_allowed st (bits, p, request) t \<and> IE_BITS_TYPE bits \<noteq> MACH_PORT_TYPE_DEAD_NAME \<and> ip_active (st_ports st p)
         then mr = MACH_MSG_SUCCESS \<and> msgh_remote_port kmsg' = p \<and> msgh_local_port kmsg' = MACH_PORT_NULL \<and>
           MACH_MSGH_BITS_REMOTE (msgh_bits kmsg') = type_code (ipc_object_copyin_type t) \<and>
           ipc_object_copyin cfg st sid name t = Some (Inr p, st') \<and>
           (\<exists>c'. exchanged cfg st sid name (bits, p, request) 0 st' c' (hand_bits t))
         else mr = MACH_SEND_INVALID_DEST \<and> kmsg' = kmsg)"
proof -
  note b = one_way_bits [OF assms(7,8)]
  have g: "ipc_kmsg_copyin_header cfg (quiet_gaps locked) st sid kmsg MACH_PORT_NULL = copyin_general cfg id id st sid kmsg (clean_bits kmsg) MACH_PORT_NULL"
    using common_exact [OF assms(1,2,4), of locked kmsg "clean_bits kmsg"]
    by (auto simp: ipc_kmsg_copyin_header_def quiet_gaps_def clean_bits_def Let_def split: option.split)
  have ok: "st_ok cfg st sid" using assms(1) by (simp add: rights_ok_def)
  show ?thesis
  proof (cases "findable st sid name")
    case None
    show ?thesis
    proof (cases "is_active (st_spaces st sid)")
      case False
      then show ?thesis unfolding g using None b assms(6) by (simp add: copyin_general_def Let_def)
    next
      case True
      from lookup_missing [OF ok True None] obtain tree where "ipc_entry_lookup (st_spaces st sid) name = (None, (st_spaces st sid)\<lparr>is_tree := tree\<rparr>)"
        "st_caps (splayed st sid tree) sid = st_caps st sid" by blast
      with True None b assms(5,6) show ?thesis unfolding g
        by (cases "name = MACH_PORT_NULL")
          (simp_all add: copyin_general_def notify_receiver_def copyin_dest_only_def MACH_PORT_VALID_def Let_def splayed_def set_space_def)
    qed
  next
    case (Some c)
    obtain bits p request where c: "c = (bits, p, request)" by (metis prod_cases3)
    have named: "named_right cfg st sid name (bits, p, request)" "receiver_named st sid (bits, p, request)" using assms(3) Some c by auto
    have a: "is_active (st_spaces st sid)" using named(1) by (simp add: named_right_def)
    have n: "name \<noteq> MACH_PORT_NULL" using no_null_name [OF ok] Some by auto
    let ?ok = "copyin_allowed st (bits, p, request) t \<and> IE_BITS_TYPE bits \<noteq> MACH_PORT_TYPE_DEAD_NAME \<and> ip_active (st_ports st p)"
    note d = dest_only_spec [OF named, of t MACH_PORT_NULL]
    show ?thesis
    proof (cases ?ok)
      case True
      then obtain so st3 where s: "copyin_dest_only cfg st sid name MACH_PORT_NULL t = Some (Inr (p, MACH_PORT_NULL, so, IP_NULL), st3)"
        "ipc_object_copyin cfg st sid name t = Some (Inr p, emit st3 (port_deleted so name))" using d by auto
      have "\<exists>c'. exchanged cfg st sid name (bits, p, request) 0 (emit st3 (port_deleted so name)) c' (hand_bits t)"
        using object_copyin_spec [OF named, of t] s(2) True by (auto simp: object_taken_def)
      then show ?thesis unfolding g using True s a b n assms(5,6) Some c
        by (simp add: copyin_general_def notify_receiver_def copyin_done_def MACH_PORT_VALID_def header_remote Let_def)
    next
      case False
      then obtain st' where "copyin_dest_only cfg st sid name MACH_PORT_NULL t = Some (Inl MACH_SEND_INVALID_DEST, st')" using d by auto
      then show ?thesis unfolding g using False a b n assms(5,6) Some c
        by (auto simp: copyin_general_def notify_receiver_def MACH_PORT_VALID_def Let_def)
    qed
  qed
qed

definition one_way_kmsg :: ipc_kmsg where
  "one_way_kmsg = request_kmsg\<lparr>msgh_bits := 17, msgh_local_port := MACH_PORT_NULL\<rparr>"

theorem one_way_header_witness:
  "\<exists>kmsg' st' c'. ipc_kmsg_copyin_header example_config (quiet_gaps True) both_state 16 one_way_kmsg MACH_PORT_NULL = Some (MACH_MSG_SUCCESS, kmsg', st') \<and>
    msgh_remote_port kmsg' = 5 \<and> exchanged example_config both_state 16 0x100 (MACH_PORT_TYPE_SEND_RECEIVE OR 2, 5, 0) 0 st' c' MACH_PORT_TYPE_SEND"
proof -
  have "st_caps both_state 16 0x100 = Some (MACH_PORT_TYPE_SEND_RECEIVE OR 2, 5, 0)" "\<not> shadowed 0x100" "is_active (st_spaces both_state 16)"
    using both_named(1) by (simp_all add: named_right_def)
  then have f: "findable both_state 16 0x100 = Some (MACH_PORT_TYPE_SEND_RECEIVE OR 2, 5, 0)" by (simp add: findable_def)
  then have named: "\<forall>c. findable both_state 16 0x100 = Some c \<longrightarrow> named_right example_config both_state 16 0x100 c \<and> receiver_named both_state 16 c"
    using both_named by simp
  have "entry_sizes (ipc_table_entries example_config)" by (simp add: example_config_def example_sizes_ok)
  moreover have "copyin_allowed both_state (MACH_PORT_TYPE_SEND_RECEIVE OR 2, 5, 0) MACH_MSG_TYPE_MOVE_SEND" by code_simp
  moreover have "ip_active (st_ports both_state 5)" by (simp add: both_state_def)
  moreover have "IE_BITS_TYPE (MACH_PORT_TYPE_SEND_RECEIVE OR 2) \<noteq> MACH_PORT_TYPE_DEAD_NAME" by code_simp
  moreover have "msgh_remote_port one_way_kmsg = 0x100" "msgh_local_port one_way_kmsg = MACH_PORT_NULL"
    "MACH_MSGH_BITS_PORTS (msgh_bits one_way_kmsg) = type_code MACH_MSG_TYPE_MOVE_SEND" by code_simp+
  ultimately show ?thesis
    using one_way_header [OF both_rights _ named both_references, of one_way_kmsg MACH_MSG_TYPE_MOVE_SEND True] f by auto
qed

section \<open>A stale entry\<close>






end
