(* ===== verification/Copyout_Laws.thy ===== *)
theory Copyout_Laws
  imports Kmsg_Copyout Header_Laws
begin

text \<open>
  The rights of a message that is received: the optimized cases agree with the general code, and a request that goes
  from one task to another leaves each port with the rights it had, and the receiver with a right for the reply.
\<close>

section \<open>The destination\<close>

lemma copyout_dest_send: "ipc_object_copyout_dest st sid p MACH_MSG_TYPE_MOVE_SEND = Some (dest_send st sid p)"
  by (simp add: ipc_object_copyout_dest_def dest_send_def port_drop_send_def drop_send_def ip_release_def upd_port_def set_port_def Let_def)

lemma copyout_dest_sonce:
  "ipc_object_copyout_dest st sid p MACH_MSG_TYPE_MOVE_SEND_ONCE =
    Some (if ip_receiver (st_ports st p) = sid
      then (ip_receiver_name (st_ports st p), set_port st p ((st_ports st p)\<lparr>ip_references := ip_references (st_ports st p) - 1, ip_sorights := ip_sorights (st_ports st p) - 1\<rparr>))
      else (MACH_PORT_NULL, emit st [Notify_send_once p]))"
  by (simp add: ipc_object_copyout_dest_def ip_release_def ip_reference_def upd_port_def set_port_def Let_def)

lemma dest_send_simps [simp]:
  "st_spaces (snd (dest_send st sid p)) = st_spaces st" "st_hash (snd (dest_send st sid p)) = st_hash st"
  "q \<noteq> p \<Longrightarrow> st_ports (snd (dest_send st sid p)) q = st_ports st q"
  by (simp_all add: dest_send_def Let_def)

lemma reference_dest_send:
  "dest_send (ip_reference st q) sid p = (fst (dest_send st sid p), ip_reference (snd (dest_send st sid p)) q)"
  by (cases "q = p") (auto simp: dest_send_def ip_reference_def upd_port_def set_port_def emit_def Let_def fun_upd_twist)

lemma release_reference:
  "ip_references (st_ports st p) \<noteq> 0 \<Longrightarrow> ipc_port_release (ip_reference st p) p = st"
  by (simp add: ipc_port_release_def ip_check_unlock_def ip_reference_def upd_port_def set_port_def Let_def)

section \<open>The optimized cases are exact\<close>

lemma port_type_simps [simp]: "port_type 17 = Some MACH_MSG_TYPE_PORT_SEND" "port_type 18 = Some MACH_MSG_TYPE_PORT_SEND_ONCE"
  by (simp_all add: port_type_def)

lemma receive_async_exact:
  assumes "MACH_MSGH_BITS_PORTS mbits = MACH_MSGH_BITS (type_code MACH_MSG_TYPE_PORT_SEND) 0"
    and "copyout_async st sid kmsg mbits = Some (kmsg', st')" and "is_active (st_spaces st sid)" and "msgh_local_port kmsg = MACH_PORT_NULL"
  shows "copyout_general cfg gaps id st sid kmsg mbits MACH_PORT_NULL = Some (MACH_MSG_SUCCESS, kmsg', st')"
proof -
  have "MACH_MSGH_BITS_REMOTE mbits = 17" "MACH_MSGH_BITS_LOCAL mbits = 0"
    using ports_parts [OF assms(1)] by (simp_all add: MACH_MSGH_BITS_def)
  moreover have "\<not> IO_VALID MACH_PORT_NULL" by (simp add: IO_VALID_def MACH_PORT_NULL_def IO_NULL_def)
  ultimately show ?thesis
    using assms(2-4) by (auto simp: copyout_async_def copyout_general_def notify_receiver_def copyout_finish_def copyout_dest_name_def
      copyout_dest_send Let_def split: if_splits prod.splits)
qed

lemma receive_reply_exact:
  assumes "MACH_MSGH_BITS_PORTS mbits = MACH_MSGH_BITS (type_code MACH_MSG_TYPE_PORT_SEND_ONCE) 0"
    and "copyout_reply st sid kmsg mbits = Some (kmsg', st')" and "is_active (st_spaces st sid)" and "msgh_local_port kmsg = MACH_PORT_NULL"
  shows "copyout_general cfg gaps id st sid kmsg mbits MACH_PORT_NULL = Some (MACH_MSG_SUCCESS, kmsg', st')"
proof -
  have "MACH_MSGH_BITS_REMOTE mbits = 18" "MACH_MSGH_BITS_LOCAL mbits = 0"
    using ports_parts [OF assms(1)] by (simp_all add: MACH_MSGH_BITS_def)
  moreover have "\<not> IO_VALID MACH_PORT_NULL" by (simp add: IO_VALID_def MACH_PORT_NULL_def IO_NULL_def)
  ultimately show ?thesis
    using assms(2-4) by (auto simp: copyout_reply_def copyout_general_def notify_receiver_def copyout_finish_def copyout_dest_name_def
      copyout_dest_sonce Let_def split: if_splits)
qed

text \<open>The entry of the reply port is made on the spot.\<close>

lemma reference_upd_entry: "upd_entry (ip_reference st p) sid r f = ip_reference (upd_entry st sid r f) p"
  by (simp add: upd_entry_def ip_reference_def upd_port_def set_port_def set_space_def get_entry_def)

definition reply_slot :: "ipc_state \<Rightarrow> space_id \<Rightarrow> ipc_port_t \<Rightarrow> ipc_state" where
  "reply_slot st sid reply =
    (let space = st_spaces st sid; table = is_table space; index = ie_next (table ! 0); entry = table ! index;
         gen = ie_bits entry + IE_BITS_GEN_ONE
     in set_space st sid (space\<lparr>is_table := (set_next table 0 (ie_next entry))
          [index := entry\<lparr>ie_request := 0, ie_bits := gen OR (MACH_PORT_TYPE_SEND_ONCE OR 1), ie_object := reply\<rparr>]\<rparr>))"

lemma entry_order: "e\<lparr>ie_object := a, ie_bits := b\<rparr> = e\<lparr>ie_bits := b, ie_object := a\<rparr>" for e :: ipc_entry
  by simp

lemma reply_slot_made:
  assumes "is_table_size (st_spaces st sid) = length (is_table (st_spaces st sid))"
    and "ie_next (is_table (st_spaces st sid) ! 0) \<noteq> 0" and "ie_next (is_table (st_spaces st sid) ! 0) < is_table_size (st_spaces st sid)"
  shows "\<exists>name i space. ipc_entry_get (st_spaces st sid) = Inr (name, In_table i, space) \<and>
    name = MACH_PORT_MAKE i (ie_bits (is_table (st_spaces st sid) ! i) + IE_BITS_GEN_ONE) \<and> i = ie_next (is_table (st_spaces st sid) ! 0) \<and>
    upd_entry (upd_entry (set_space st sid space) sid (In_table i) (\<lambda>e. e\<lparr>ie_object := reply\<rparr>)) sid (In_table i)
      (\<lambda>e. e\<lparr>ie_bits := ie_bits e OR (MACH_PORT_TYPE_SEND_ONCE OR 1)\<rparr>) = reply_slot st sid reply"
  using assms
  by (simp add: ipc_entry_get_def reply_slot_def Let_def upd_entry_def get_entry_def set_space_def set_entry_def entry_at_def set_next_def set_bits_def
    list_update_swap entry_order)

lemma receive_request_exact:
  assumes "MACH_MSGH_BITS_PORTS mbits = MACH_MSGH_BITS (type_code MACH_MSG_TYPE_PORT_SEND) (type_code MACH_MSG_TYPE_PORT_SEND_ONCE)"
    and "copyout_request locked st sid kmsg mbits = Some (kmsg', st')" and "st_ok cfg st sid"
    and "ip_references (st_ports st' (msgh_local_port kmsg)) \<noteq> 0"
  shows "copyout_general cfg gaps id st sid kmsg mbits MACH_PORT_NULL = Some (MACH_MSG_SUCCESS, kmsg', st')"
proof -
  let ?d = "msgh_remote_port kmsg" and ?r = "msgh_local_port kmsg" and ?s = "st_spaces st sid"
  have b: "MACH_MSGH_BITS_REMOTE mbits = 17" "MACH_MSGH_BITS_LOCAL mbits = 18"
    using ports_parts [OF assms(1)] by (simp_all add: MACH_MSGH_BITS_def)
  have v: "IO_VALID ?r" "is_active ?s" "ie_next (is_table ?s ! 0) \<noteq> 0" and live: "ip_active (st_ports st ?d)" "ip_active (st_ports st ?r)"
    using assms(2) by (auto simp: copyout_request_def Let_def split: if_splits)
  have s: "st' = snd (dest_send (reply_slot st sid ?r) sid ?d)"
    and k: "kmsg' = kmsg\<lparr>msgh_bits := MACH_MSGH_BITS_OTHER mbits OR MACH_MSGH_BITS (type_code MACH_MSG_TYPE_PORT_SEND_ONCE) (type_code MACH_MSG_TYPE_PORT_SEND),
      msgh_local_port := fst (dest_send (reply_slot st sid ?r) sid ?d),
      msgh_remote_port := MACH_PORT_MAKE (ie_next (is_table ?s ! 0)) (ie_bits (is_table ?s ! ie_next (is_table ?s ! 0)) + IE_BITS_GEN_ONE)\<rparr>"
    using assms(2) by (auto simp: copyout_request_def reply_slot_def Let_def split: if_splits prod.splits)
  have ok: "space_ok (ipc_table_entries cfg) sid {} (st_hash st) ?s" using assms(3) by (simp add: st_ok_def)
  obtain fl where "linked (is_table ?s) 0 fl" "set fl = free_slots {} (is_table ?s)" using free_okE [OF space_okD(3) [OF ok]] .
  with v(3) have i: "is_table_size ?s = length (is_table ?s)" "ie_next (is_table ?s ! 0) < is_table_size ?s"
    using space_okD(1) [OF ok] by (cases fl; auto simp: sizes_ok_def free_slots_def)+
  obtain name j space where e: "ipc_entry_get ?s = Inr (name, In_table j, space)"
    "name = MACH_PORT_MAKE (ie_next (is_table ?s ! 0)) (ie_bits (is_table ?s ! ie_next (is_table ?s ! 0)) + IE_BITS_GEN_ONE)"
    "upd_entry (upd_entry (set_space st sid space) sid (In_table j) (\<lambda>e. e\<lparr>ie_object := ?r\<rparr>)) sid (In_table j)
      (\<lambda>e. e\<lparr>ie_bits := ie_bits e OR (MACH_PORT_TYPE_SEND_ONCE OR 1)\<rparr>) = reply_slot st sid ?r"
    using reply_slot_made [OF i(1) v(3) i(2), of ?r] by blast
  have l: "reply_loop cfg gaps st sid ?r MACH_MSG_TYPE_PORT_SEND_ONCE MACH_PORT_NULL =
      Some (Reply_at name (In_table j) IP_NULL, upd_entry (set_space st sid space) sid (In_table j) (\<lambda>e. e\<lparr>ie_object := ?r\<rparr>))"
    using v(2) live(2) e(1) by (simp add: reply_attempt_def reply_entry_def Let_def)
  have c: "ipc_right_copyout (ip_reference (upd_entry (set_space st sid space) sid (In_table j) (\<lambda>e. e\<lparr>ie_object := ?r\<rparr>)) ?r) sid name (In_table j)
      MACH_MSG_TYPE_PORT_SEND_ONCE True ?r = Some (KERN_SUCCESS, ip_reference (reply_slot st sid ?r) ?r)"
    by (simp add: ipc_right_copyout_def reference_upd_entry e(3))
  have "ip_active (st_ports (ip_reference (reply_slot st sid ?r) ?r) ?d)"
    using live by (auto simp: ip_reference_def reply_slot_def set_space_def Let_def)
  then have "copyout_finish id (ip_reference (reply_slot st sid ?r) ?r) sid kmsg mbits ?r name = Some (MACH_MSG_SUCCESS, kmsg', st')"
    using release_reference [OF assms(4)] b v(1)
    by (simp add: copyout_finish_def copyout_dest_name_def copyout_dest_send reference_dest_send k e(2) s)
  then show ?thesis using v b l c by (simp add: copyout_general_def give_back_notify_def)
qed

text \<open>Other threads do nothing meanwhile; \<open>gaps\<close> is only used by the general code.\<close>

definition quiet_copyout :: "bool \<Rightarrow> reply_gap list \<Rightarrow> copyout_gaps" where
  "quiet_copyout locked gaps = \<lparr>co_try = locked, co_retry = id, co_loop = gaps, co_ports = id\<rparr>"

lemma copyout_common_exact:
  assumes "st_ok cfg st sid" and "is_active (st_spaces st sid)" and "MACH_MSGH_BITS_LOCAL mbits = 0 \<Longrightarrow> msgh_local_port kmsg = MACH_PORT_NULL"
    and "IO_VALID (msgh_local_port kmsg) \<Longrightarrow> 1 < ip_references (st_ports st (msgh_local_port kmsg))"
    and "copyout_common locked st sid kmsg mbits = Some (kmsg', st')"
  shows "copyout_general cfg gaps id st sid kmsg mbits MACH_PORT_NULL = Some (MACH_MSG_SUCCESS, kmsg', st')"
proof -
  consider (async) "MACH_MSGH_BITS_PORTS mbits = MACH_MSGH_BITS (type_code MACH_MSG_TYPE_PORT_SEND) 0" "copyout_async st sid kmsg mbits = Some (kmsg', st')"
    | (request) "MACH_MSGH_BITS_PORTS mbits = MACH_MSGH_BITS (type_code MACH_MSG_TYPE_PORT_SEND) (type_code MACH_MSG_TYPE_PORT_SEND_ONCE)"
      "copyout_request locked st sid kmsg mbits = Some (kmsg', st')"
    | (reply) "MACH_MSGH_BITS_PORTS mbits = MACH_MSGH_BITS (type_code MACH_MSG_TYPE_PORT_SEND_ONCE) 0" "copyout_reply st sid kmsg mbits = Some (kmsg', st')"
    using assms(5) by (auto simp: copyout_common_def Let_def split: if_splits)
  then show ?thesis
  proof cases
    case async
    then have "MACH_MSGH_BITS_LOCAL mbits = 0" using ports_parts(2) [OF async(1)] by (simp add: MACH_MSGH_BITS_def)
    then show ?thesis using receive_async_exact [OF async assms(2)] assms(3) by simp
  next
    case reply
    then have "MACH_MSGH_BITS_LOCAL mbits = 0" using ports_parts(2) [OF reply(1)] by (simp add: MACH_MSGH_BITS_def)
    then show ?thesis using receive_reply_exact [OF reply assms(2)] assms(3) by simp
  next
    case request
    let ?r = "msgh_local_port kmsg" and ?d = "msgh_remote_port kmsg"
    have s: "st' = snd (dest_send (reply_slot st sid ?r) sid ?d)" and "IO_VALID ?r"
      using request(2) by (auto simp: copyout_request_def reply_slot_def Let_def split: if_splits prod.splits)
    with assms(4) have "1 < ip_references (st_ports (reply_slot st sid ?r) ?r)" by (simp add: reply_slot_def set_space_def Let_def)
    then have "ip_references (st_ports st' ?r) \<noteq> 0" unfolding s by (cases "?r = ?d") (auto simp: dest_send_def Let_def)
    then show ?thesis by (rule receive_request_exact [OF request assms(1)])
  qed
qed

text \<open>
  C14: The optimized cases of \<^verbatim>\<open>ipc_kmsg_copyout_header\<close> do exactly what the general code does: the same header with the same
  name for the reply, the same table with its free list, and the same counts and notifications of the ports.  The space
  is alive and meets its invariant, a header without reply type has no reply port, and the message does not have the last
  reference of the reply port.
\<close>

theorem receive_fast_path_exact:
  assumes "st_ok cfg st sid" and "is_active (st_spaces st sid)" and "IO_VALID (msgh_remote_port kmsg)"
    and "MACH_MSGH_BITS_LOCAL (msgh_bits kmsg) = 0 \<longrightarrow> msgh_local_port kmsg = MACH_PORT_NULL"
    and "IO_VALID (msgh_local_port kmsg) \<longrightarrow> 1 < ip_references (st_ports st (msgh_local_port kmsg))"
  shows "ipc_kmsg_copyout_header cfg (quiet_copyout locked gaps) st sid kmsg notify = copyout_general cfg gaps id st sid kmsg (msgh_bits kmsg) notify"
  using copyout_common_exact [OF assms(1,2), of "msgh_bits kmsg" kmsg locked] assms(3-5)
  by (auto simp: ipc_kmsg_copyout_header_def quiet_copyout_def Let_def split: option.split)

definition reply_kmsg :: ipc_kmsg where
  "reply_kmsg = \<lparr>msgh_bits = MACH_MSGH_BITS 18 0, msgh_size = 24, msgh_remote_port = 5, msgh_local_port = MACH_PORT_NULL, msgh_body = [], ikm_marequest = 0, msgh_reserved = 0, msgh_id = 0, msgh_data = No_data, ikm_sender = (0, 0)\<rparr>"

theorem receive_fast_path_exact_witness:
  "copyout_common True both_state 16 reply_kmsg (msgh_bits reply_kmsg) \<noteq> None \<and>
    ipc_kmsg_copyout_header example_config (quiet_copyout True []) both_state 16 reply_kmsg MACH_PORT_NULL =
      copyout_general example_config [] id both_state 16 reply_kmsg (msgh_bits reply_kmsg) MACH_PORT_NULL"
proof -
  have "copyout_common True both_state 16 reply_kmsg (msgh_bits reply_kmsg) \<noteq> None" "IO_VALID (msgh_remote_port reply_kmsg)"
    "msgh_local_port reply_kmsg = MACH_PORT_NULL" "\<not> IO_VALID (msgh_local_port reply_kmsg)" by code_simp+
  moreover have "st_ok example_config both_state 16" using both_rights by (simp add: rights_ok_def)
  ultimately show ?thesis using receive_fast_path_exact [OF _ both_active, of example_config reply_kmsg True "[]" MACH_PORT_NULL] by simp
qed

section \<open>A request goes from one task to another\<close>

text \<open>The slot of the reply port is a new name with a send-once right.\<close>

lemma reply_slot_caps:
  assumes ok: "st_ok cfg st sid" and its: "entry_sizes (ipc_table_entries cfg)" and free: "ie_next (is_table (st_spaces st sid) ! 0) \<noteq> 0" and p: "p \<noteq> IO_NULL"
  defines "name \<equiv> MACH_PORT_MAKE (ie_next (is_table (st_spaces st sid) ! 0)) (ie_bits (is_table (st_spaces st sid) ! ie_next (is_table (st_spaces st sid) ! 0)) + IE_BITS_GEN_ONE)"
  shows "MACH_PORT_VALID name" and "st_caps st sid name = None" and "st_ok cfg (reply_slot st sid p) sid"
    and "st_caps (reply_slot st sid p) sid = (st_caps st sid)(name \<mapsto> (MACH_PORT_TYPE_SEND_ONCE OR 1, p, 0))"
proof -
  let ?s = "st_spaces st sid" and ?its = "ipc_table_entries cfg"
  have sok: "space_ok ?its sid {} (st_hash st) ?s" using ok by (simp add: st_ok_def)
  obtain fl where "linked (is_table ?s) 0 fl" "set fl = free_slots {} (is_table ?s)" using free_okE [OF space_okD(3) [OF sok]] .
  with free have i: "is_table_size ?s = length (is_table ?s)" "ie_next (is_table ?s ! 0) < is_table_size ?s"
    using space_okD(1) [OF sok] by (cases fl; auto simp: sizes_ok_def free_slots_def)+
  let ?f = "\<lambda>e. e\<lparr>ie_object := p\<rparr>" and ?g = "\<lambda>e. e\<lparr>ie_bits := ie_bits e OR (MACH_PORT_TYPE_SEND_ONCE OR 1)\<rparr>"
  obtain j space where e: "ipc_entry_get ?s = Inr (name, In_table j, space)" "j = ie_next (is_table ?s ! 0)"
    "upd_entry (upd_entry (set_space st sid space) sid (In_table j) ?f) sid (In_table j) ?g = reply_slot st sid p"
    using reply_slot_made [OF i(1) free i(2), of p] unfolding name_def by blast
  let ?st = "set_space st sid space" and ?r = "In_table j"
  let ?e = "\<lparr>ie_bits = MACH_PORT_GEN name, ie_object = IO_NULL, ie_request = 0, ie_index = ie_index (is_table ?s ! MACH_PORT_INDEX name)\<rparr>"
  have g: "MACH_PORT_VALID name" "j = MACH_PORT_INDEX name" "st_caps st sid name = None" "space_ok ?its sid {?r} (st_hash st) space"
    "caps {?r} space = (st_caps st sid)(name \<mapsto> (0, IO_NULL, 0))" "entry_at space ?r = Some ?e"
    using ipc_entry_get_spec [OF sok its] unfolding e(1) by auto
  then show "MACH_PORT_VALID name" and "st_caps st sid name = None" by simp_all
  have "cell space name ?r"
    using g(2,6) free e(2) by (auto simp: cell_def detached_def entry_at_def MACH_PORT_GEN_GEN split: if_splits)
  then have h: "holds cfg ?st sid {?r} name ?r ?e" using g(4,6) by (simp add: holds_def space_ok_core set_space_def)
  have f: "same_slot ?e (?f ?e)" by (simp add: same_slot_def)
  note h1 = holds_update [where f = ?f and P' = "{?r}", OF h f]
  have type: "IE_BITS_TYPE (ie_bits (?g (?f ?e))) = MACH_PORT_TYPE_SEND_ONCE"
    using MACH_PORT_GEN_fields(1) [of name] by (simp add: fields_OR) (simp add: right_consts)
  have s: "same_slot (?f ?e) (?g (?f ?e))"
    using or_fields [of "MACH_PORT_TYPE_SEND_ONCE OR 1" "MACH_PORT_GEN name"] by (simp add: same_slot_def) (simp add: right_consts)
  have u: "unhashed (?g (?f ?e))" using type by (simp add: unhashed_def) (simp add: right_consts)
  have c: "capability (?g (?f ?e)) = (MACH_PORT_TYPE_SEND_ONCE OR 1, p, 0)"
    using MACH_PORT_GEN_fields(2) [of name] by (simp add: capability_def mask_OR) (simp add: right_consts)
  have h1': "holds cfg (upd_entry ?st sid ?r ?f) sid {?r} name ?r (?f ?e)" using h1(1) by simp
  note h2 = holds_update [where f = ?g and P' = "{}", OF h1' s]
  show "st_ok cfg (reply_slot st sid p) sid" using h2(1) u holds_st_ok unfolding e(3) by simp
  show "st_caps (reply_slot st sid p) sid = (st_caps st sid)(name \<mapsto> (MACH_PORT_TYPE_SEND_ONCE OR 1, p, 0))"
    using h2(2) h1(2) u g(5) unfolding e(3) c by (simp add: set_space_def)
qed

lemma request_header:
  "MACH_MSGH_BITS_PORTS (MACH_MSGH_BITS_OTHER b OR MACH_MSGH_BITS (type_code MACH_MSG_TYPE_PORT_SEND) (type_code MACH_MSG_TYPE_PORT_SEND_ONCE)) =
    MACH_MSGH_BITS (type_code MACH_MSG_TYPE_PORT_SEND) (type_code MACH_MSG_TYPE_PORT_SEND_ONCE)"
proof -
  have "(b AND NOT 0xffff) AND 0xffff = (0 :: 32 word)" by (simp add: and.assoc)
  then show ?thesis by (simp add: MACH_MSGH_BITS_PORTS_def MACH_MSGH_BITS_OTHER_def MACH_MSGH_BITS_def bit.conj_disj_distrib2)
qed

text \<open>The send right that the message had is given back, and the send-once right is in the slot.\<close>

lemma request_ports:
  assumes "ip_srights (st_ports st dest) \<noteq> 0"
  shows "fst (dest_send (reply_slot (add_sonce (add_send st dest) reply) b reply) b dest) =
      (if ip_receiver (st_ports st dest) = b then ip_receiver_name (st_ports st dest) else MACH_PORT_NULL)"
    and "st_ports (snd (dest_send (reply_slot (add_sonce (add_send st dest) reply) b reply) b dest)) =
      (st_ports st)(reply := (st_ports st reply)\<lparr>ip_sorights := ip_sorights (st_ports st reply) + 1, ip_references := ip_references (st_ports st reply) + 1\<rparr>)"
    and "st_events (snd (dest_send (reply_slot (add_sonce (add_send st dest) reply) b reply) b dest)) = st_events st"
proof -
  let ?st = "reply_slot (add_sonce (add_send st dest) reply) b reply"
  have p: "st_ports ?st = st_ports (add_sonce (add_send st dest) reply)" "st_events ?st = st_events st"
    by (simp_all add: reply_slot_def set_space_def Let_def add_sonce_def add_send_def)
  have q: "ip_receiver (st_ports ?st dest) = ip_receiver (st_ports st dest)" "ip_receiver_name (st_ports ?st dest) = ip_receiver_name (st_ports st dest)"
    "ip_srights (st_ports ?st dest) = ip_srights (st_ports st dest) + 1"
    unfolding p by (auto simp: add_sonce_def add_send_def)
  show "fst (dest_send ?st b dest) = (if ip_receiver (st_ports st dest) = b then ip_receiver_name (st_ports st dest) else MACH_PORT_NULL)"
    and "st_events (snd (dest_send ?st b dest)) = st_events st"
    using assms q p(2) by (simp_all add: dest_send_def Let_def)
  have "st_ports (snd (dest_send ?st b dest)) = (st_ports ?st)(dest := (st_ports ?st dest)\<lparr>ip_references := ip_references (st_ports ?st dest) - 1,
      ip_srights := ip_srights (st_ports ?st dest) - 1\<rparr>)"
    using assms q by (simp add: dest_send_def Let_def)
  then show "st_ports (snd (dest_send ?st b dest)) =
      (st_ports st)(reply := (st_ports st reply)\<lparr>ip_sorights := ip_sorights (st_ports st reply) + 1, ip_references := ip_references (st_ports st reply) + 1\<rparr>)"
    unfolding p by (cases "dest = reply") (auto simp: add_sonce_def add_send_def fun_eq_iff)
qed

text \<open>
  C11: A request goes from one task to another.  The sender \<open>a\<close> has a send right for the destination and the receive right
  of the reply port under names of its table; the receiver \<open>b\<close> has a free slot.  Taking the rights from the names of the sender
  and giving them to the receiver succeeds; the receiver gets its own name for the destination, if it has the receive
  right, and a new name with a send-once right for the reply.  The reply port has one send-once right and one
  reference more, every other port is as it was, no name of the sender or of a third task changes, and there are no notifications.
\<close>

theorem request_travels:
  assumes "rights_ok cfg st a" and "st_ok cfg st b" and "entry_sizes (ipc_table_entries cfg)" and "a \<noteq> b"
    and "is_active (st_spaces st a)" and "is_active (st_spaces st b)" and "ie_next (is_table (st_spaces st b) ! 0) \<noteq> 0"
    and "fast_entry (st_spaces st a) (msgh_remote_port kmsg) MACH_PORT_TYPE_SEND MACH_PORT_TYPE_SEND = Some d"
    and "fast_entry (st_spaces st a) (msgh_local_port kmsg) MACH_PORT_TYPE_RECEIVE MACH_PORT_TYPE_RECEIVE = Some r"
    and "dest = ie_object d" and "reply = ie_object r" and "IO_VALID dest" and "IO_VALID reply"
    and "ip_active (st_ports st dest)" and "ip_active (st_ports st reply)" and "ip_srights (st_ports st dest) \<noteq> 0"
    and "MACH_MSGH_BITS_PORTS (clean_bits kmsg) = MACH_MSGH_BITS (type_code MACH_MSG_TYPE_COPY_SEND) (type_code MACH_MSG_TYPE_MAKE_SEND_ONCE)"
  shows "\<exists>k1 st1 k2 st2. ipc_kmsg_copyin_header cfg (quiet_gaps True) st a kmsg MACH_PORT_NULL = Some (MACH_MSG_SUCCESS, k1, st1) \<and>
    ipc_kmsg_copyout_header cfg (quiet_copyout True gaps) st1 b k1 MACH_PORT_NULL = Some (MACH_MSG_SUCCESS, k2, st2) \<and>
    msgh_local_port k2 = (if ip_receiver (st_ports st dest) = b then ip_receiver_name (st_ports st dest) else MACH_PORT_NULL) \<and>
    MACH_PORT_VALID (msgh_remote_port k2) \<and> st_caps st b (msgh_remote_port k2) = None \<and> st_ok cfg st2 b \<and>
    st_caps st2 b = (st_caps st b)(msgh_remote_port k2 \<mapsto> (MACH_PORT_TYPE_SEND_ONCE OR 1, reply, 0)) \<and>
    (\<forall>x. x \<noteq> b \<longrightarrow> st_spaces st2 x = st_spaces st x) \<and>
    st_ports st2 = (st_ports st)(reply := (st_ports st reply)\<lparr>ip_sorights := ip_sorights (st_ports st reply) + 1, ip_references := ip_references (st_ports st reply) + 1\<rparr>) \<and>
    st_events st2 = st_events st"
proof -
  let ?m = "clean_bits kmsg" and ?ports = "MACH_MSGH_BITS (type_code MACH_MSG_TYPE_PORT_SEND) (type_code MACH_MSG_TYPE_PORT_SEND_ONCE)"
  define st1 where "st1 = add_sonce (add_send st dest) reply"
  let ?k1 = "kmsg\<lparr>msgh_bits := MACH_MSGH_BITS_OTHER ?m OR ?ports, msgh_remote_port := dest, msgh_local_port := reply\<rparr>"
  have "copyin_common True st a kmsg ?m = Some (?k1, st1)"
    using assms(5,8-17) by (simp add: copyin_common_def copyin_request_def Let_def st1_def) (simp add: MACH_MSGH_BITS_def)
  then have in_ok: "ipc_kmsg_copyin_header cfg (quiet_gaps True) st a kmsg MACH_PORT_NULL = Some (MACH_MSG_SUCCESS, ?k1, st1)"
    by (simp add: ipc_kmsg_copyin_header_def quiet_gaps_def clean_bits_def Let_def)
  have same: "st_spaces st1 = st_spaces st" "st_hash st1 = st_hash st" by (simp_all add: st1_def) (simp add: add_sonce_def add_send_def)
  have live: "ip_active (st_ports st1 dest)" "ip_active (st_ports st1 reply)"
    using assms(14,15) by (auto simp: st1_def add_sonce_def add_send_def)
  let ?i = "ie_next (is_table (st_spaces st b) ! 0)" let ?name = "MACH_PORT_MAKE ?i (ie_bits (is_table (st_spaces st b) ! ?i) + IE_BITS_GEN_ONE)"
  let ?out = "dest_send (reply_slot st1 b reply) b dest"
  let ?k2 = "?k1\<lparr>msgh_bits := MACH_MSGH_BITS_OTHER (msgh_bits ?k1) OR MACH_MSGH_BITS (type_code MACH_MSG_TYPE_PORT_SEND_ONCE) (type_code MACH_MSG_TYPE_PORT_SEND),
    msgh_local_port := fst ?out, msgh_remote_port := ?name\<rparr>"
  have "copyout_request True st1 b ?k1 (msgh_bits ?k1) = Some (?k2, snd ?out)"
    using assms(6,7,12,13) live by (simp add: copyout_request_def reply_slot_def same Let_def split_beta)
  moreover have "?ports \<noteq> MACH_MSGH_BITS (type_code MACH_MSG_TYPE_PORT_SEND) 0" by (simp add: MACH_MSGH_BITS_def)
  ultimately have "copyout_common True st1 b ?k1 (msgh_bits ?k1) = Some (?k2, snd ?out)"
    using request_header [of ?m] by (simp add: copyout_common_def Let_def)
  then have out_ok: "ipc_kmsg_copyout_header cfg (quiet_copyout True gaps) st1 b ?k1 MACH_PORT_NULL = Some (MACH_MSG_SUCCESS, ?k2, snd ?out)"
    using assms(12) by (simp add: ipc_kmsg_copyout_header_def quiet_copyout_def Let_def)
  have "st_ok cfg st1 b" using assms(2) by (simp add: st_ok_def same)
  moreover have "reply \<noteq> IO_NULL" using assms(13) by (simp add: IO_VALID_def)
  ultimately have caps: "MACH_PORT_VALID ?name" "st_caps st b ?name = None" "st_ok cfg (reply_slot st1 b reply) b"
    "st_caps (reply_slot st1 b reply) b = (st_caps st b)(?name \<mapsto> (MACH_PORT_TYPE_SEND_ONCE OR 1, reply, 0))"
    using reply_slot_caps [of cfg st1 b reply] assms(3,7) by (simp_all add: same)
  have others: "\<forall>x. x \<noteq> b \<longrightarrow> st_spaces (snd ?out) x = st_spaces st x"
    by (simp add: reply_slot_def set_space_def same Let_def)
  have "st_ok cfg (snd ?out) b" "st_caps (snd ?out) b = (st_caps st b)(?name \<mapsto> (MACH_PORT_TYPE_SEND_ONCE OR 1, reply, 0))"
    using caps(3,4) by (simp_all add: st_ok_def)
  with in_ok out_ok caps(1,2) others request_ports [OF assms(16), of reply b, folded st1_def] show ?thesis
    by (intro exI [of _ ?k1] exI [of _ st1] exI [of _ ?k2] exI [of _ "snd ?out"]) simp
qed

text \<open>A second task, with an empty space.\<close>

definition two_tasks :: ipc_state where
  "two_tasks = set_space both_state 17 example_space"

lemma two_tasks_rights: "rights_ok example_config two_tasks 16"
  using both_rights by (simp add: rights_ok_def st_ok_def two_tasks_def set_space_def)

lemma two_tasks_ok: "st_ok example_config two_tasks 17"
proof -
  have "space_ok example_sizes 17 {} example_hash example_space"
    using space_create_spec [OF example_sizes_ok, of 0 example_hash 17 blank_tree example_space] example_hash_ok example_space_create
    by (simp add: example_sizes_def)
  moreover have "st_hash both_state = example_hash" by (simp add: both_state_def right_state_world)
  ultimately show ?thesis by (simp add: st_ok_def two_tasks_def set_space_def example_config_def)
qed

theorem request_travels_witness:
  "\<exists>k1 st1 k2 st2. ipc_kmsg_copyin_header example_config (quiet_gaps True) two_tasks 16 request_kmsg MACH_PORT_NULL = Some (MACH_MSG_SUCCESS, k1, st1) \<and>
    ipc_kmsg_copyout_header example_config (quiet_copyout True []) st1 17 k1 MACH_PORT_NULL = Some (MACH_MSG_SUCCESS, k2, st2) \<and>
    st_caps st2 17 (msgh_remote_port k2) = Some (MACH_PORT_TYPE_SEND_ONCE OR 1, 5, 0)"
proof -
  have "fast_entry (st_spaces two_tasks 16) (msgh_remote_port request_kmsg) MACH_PORT_TYPE_SEND MACH_PORT_TYPE_SEND = Some both_entry"
    "fast_entry (st_spaces two_tasks 16) (msgh_local_port request_kmsg) MACH_PORT_TYPE_RECEIVE MACH_PORT_TYPE_RECEIVE = Some both_entry"
    "(5 :: 32 word) = ie_object both_entry" "IO_VALID 5" "is_active (st_spaces two_tasks 16)" "is_active (st_spaces two_tasks 17)"
    "ie_next (is_table (st_spaces two_tasks 17) ! 0) \<noteq> 0" "ip_active (st_ports two_tasks 5)" "ip_srights (st_ports two_tasks 5) \<noteq> 0"
    "MACH_MSGH_BITS_PORTS (clean_bits request_kmsg) = MACH_MSGH_BITS (type_code MACH_MSG_TYPE_COPY_SEND) (type_code MACH_MSG_TYPE_MAKE_SEND_ONCE)"
    by code_simp+
  moreover have "entry_sizes (ipc_table_entries example_config)" by (simp add: example_config_def example_sizes_ok)
  ultimately show ?thesis
    using request_travels [OF two_tasks_rights two_tasks_ok, of request_kmsg both_entry both_entry 5 5 "[]"] by fastforce
qed

section \<open>The quick copyout of a send right\<close>

text \<open>The search in the local hash table ends, and finds an entry with a send right for the port.\<close>

lemma rights_ok_local:
  assumes "rights_ok cfg st sid"
  shows "local_ok (st_spaces st sid)" and "entered (is_table (st_spaces st sid)) = table_sends {} (is_table (st_spaces st sid))"
  using assms core_local_ok unfolding rights_ok_def st_ok_def space_ok_core_empty by blast+

lemma local_lookup_ends: "rights_ok cfg st sid \<Longrightarrow> ipc_hash_local_lookup (st_spaces st sid) p \<noteq> None"
  using ipc_hash_local_lookup_spec [OF rights_ok_local(1), of cfg st sid p] by auto

lemma local_found:
  assumes ok: "rights_ok cfg st sid" and its: "entry_sizes (ipc_table_entries cfg)"
    and l: "ipc_hash_local_lookup (st_spaces st sid) p = Some (Some (name, i))"
  shows "get_entry st sid (In_table i) = is_table (st_spaces st sid) ! i" and "IE_BITS_TYPE (ie_bits (is_table (st_spaces st sid) ! i)) = MACH_PORT_TYPE_SEND"
    and "right_ok (capability (is_table (st_spaces st sid) ! i))"
proof -
  let ?s = "st_spaces st sid" let ?t = "is_table ?s"
  have sok: "space_ok (ipc_table_entries cfg) sid {} (st_hash st) ?s" using ok by (simp add: rights_ok_def st_ok_def)
  note loc = rights_ok_local [OF ok]
  have "local_map ?s p = Some i" using ipc_hash_local_lookup_spec [OF loc(1), of p] l by simp
  then have i: "i \<in> table_sends {} ?t" using local_map_Some [OF loc(1)] loc(2) by auto
  have sizes: "is_table_size ?s = length ?t" "length ?t < 2 ^ 24"
    using space_okD(1) [OF sok] sizes_less(1) [OF its space_okD(1) [OF sok]] by (simp_all add: sizes_ok_def)
  show type: "IE_BITS_TYPE (ie_bits (?t ! i)) = MACH_PORT_TYPE_SEND" and "get_entry st sid (In_table i) = ?t ! i"
    using i sizes by (simp_all add: table_sends_def get_entry_def entry_at_def)
  have used: "in_use {} ?s i" using i type by (simp add: in_use_def table_sends_def free_slots_def) (simp add: right_consts)
  have "i < 2 ^ 24" using i sizes by (simp add: table_sends_def)
  from MAKEB_INDEX_GEN [OF this, of "ie_bits (?t ! i)"] used
  have "st_caps st sid (MACH_PORT_MAKEB i (ie_bits (?t ! i))) = Some (capability (?t ! i))" by (simp add: caps_def Let_def)
  then show "right_ok (capability (?t ! i))" using ok unfolding rights_ok_def by blast
qed

text \<open>
  C31: The quick copyout of \<^verbatim>\<open>ipc_kmsg_copyout_object\<close> for a send right, whose port the space does not have the receive right
  of: its search in the local hash table ends, and where the space has a send right in its table already it does what
  \<^verbatim>\<open>ipc_object_copyout\<close> does: the same name, one user reference more, unless that is the maximum, and one send right and one
  reference of the port less.
\<close>

theorem quick_copyout_exact:
  assumes "rights_ok cfg st sid" and "entry_sizes (ipc_table_entries cfg)" and "ip_receiver (st_ports st p) \<noteq> sid"
  shows "quick_copyout st sid p \<noteq> None \<and>
    ipc_kmsg_copyout_object cfg sched fuel locked interim st sid p MACH_MSG_TYPE_PORT_SEND =
    (if IO_VALID p then copyout_slow cfg sched fuel locked interim st sid p MACH_MSG_TYPE_PORT_SEND else Some (MACH_MSG_SUCCESS, p, st))"
proof (cases "quick_copyout st sid p")
  case (Some q)
  show ?thesis
  proof (cases q)
    case None
    with Some show ?thesis by (simp add: ipc_kmsg_copyout_object_def)
  next
    case q': (Some x)
    obtain name i where a: "is_active (st_spaces st sid)" "ip_active (st_ports st p)" and l: "ipc_hash_local_lookup (st_spaces st sid) p = Some (Some (name, i))"
      using Some q' by (auto simp: quick_copyout_def split: if_splits)
    let ?e = "is_table (st_spaces st sid) ! i" and ?st = "upd_port st p (\<lambda>port. port\<lparr>ip_srights := ip_srights port - 1, ip_references := ip_references port - 1\<rparr>)"
    note f = local_found [OF assms(1,2) l]
    have g: "get_entry ?st sid (In_table i) = ?e" using f(1) by (simp add: get_entry_def)
    have h: "has (ie_bits ?e) MACH_PORT_TYPE_SEND" using f(2) right_tests [OF f(3)] by simp
    have u: "IE_BITS_UREFS (ie_bits ?e) < MACH_PORT_UREFS_MAX" using send_urefs(2) [OF f(3)] f(2) by simp
    then have max: "IE_BITS_UREFS (ie_bits ?e + 1) = IE_BITS_UREFS (ie_bits ?e) + 1"
      using or_send_bits(3) [of "ie_bits ?e"] or_absorb [OF h] inc_le [OF u] by simp
    have lt: "IE_BITS_UREFS (ie_bits ?e) + 1 < MACH_PORT_UREFS_MAX \<longleftrightarrow> IE_BITS_UREFS (ie_bits ?e) + 1 \<noteq> MACH_PORT_UREFS_MAX"
      using inc_le [OF u] by (auto simp: order.order_iff_strict)
    have x: "x = (name, if IE_BITS_UREFS (ie_bits ?e) + 1 \<noteq> MACH_PORT_UREFS_MAX then upd_entry ?st sid (In_table i) (\<lambda>e. e\<lparr>ie_bits := ie_bits ?e + 1\<rparr>) else ?st)"
      using Some q' a l g max lt by (simp add: quick_copyout_def Let_def split: if_splits)
    have "copyout_entry cfg sched st sid p MACH_MSG_TYPE_PORT_SEND = Some (Inr (name, In_table i), sched, st)"
      using a l assms(3) by (subst copyout_entry.simps) (simp add: ipc_right_reverse_def ipc_hash_lookup_def)
    moreover have "ipc_right_copyout st sid name (In_table i) MACH_MSG_TYPE_PORT_SEND True p = Some (KERN_SUCCESS, snd x)"
      using f(1) h or_absorb [OF h] by (simp add: ipc_right_copyout_def copyout_send_def x Let_def)
    ultimately have "copyout_slow cfg sched fuel locked interim st sid p MACH_MSG_TYPE_PORT_SEND = Some (MACH_MSG_SUCCESS, name, snd x)"
      by (simp add: copyout_slow_def ipc_object_copyout_def)
    then show ?thesis using Some q' x by (simp add: ipc_kmsg_copyout_object_def)
  qed
next
  case None
  then show ?thesis using local_lookup_ends [OF assms(1), of p] by (auto simp: quick_copyout_def split: if_splits)
qed

text \<open>A send right of one user reference under the name 0x100.\<close>

definition sent_state :: ipc_state where
  "sent_state = snd (the (copyout_send (fresh_state (live_port\<lparr>ip_srights := 2, ip_references := 3\<rparr>)) 16 0x100 (In_table 1) True 5))"

lemma sent_rights: "rights_ok example_config sent_state 16"
proof -
  let ?st = "fresh_state (live_port\<lparr>ip_srights := 2, ip_references := 3\<rparr>)" and ?f = "\<lambda>e. e\<lparr>ie_bits := 0, ie_object := 5\<rparr>"
  have o: "ie_object (got_entry 5) = 5" by (simp add: got_entry_def)
  obtain e' where r: "received example_config ?st 16 0x100 (In_table 1) (got_entry 5) MACH_PORT_TYPE_SEND {} sent_state e'"
    using copyout_send_fresh [OF fresh_state_at, of "live_port\<lparr>ip_srights := 2, ip_references := 3\<rparr>" True] unfolding o by (auto simp: sent_state_def)
  have "caps {In_table 1} example_got = (caps {} example_space)(0x100 \<mapsto> (0, IO_NULL, 0))"
    using ipc_entry_get_spec [OF example_space_ok(1) example_sizes_ok, unfolded example_get(1) sum.case prod.case] by blast
  then have base: "caps {In_table 1} (st_spaces (got_state port) 16) = [0x100 \<mapsto> (0, IO_NULL, 0)]" for port
    unfolding example_space_ok(2) by (simp add: got_state_def)
  have s: "same_slot (got_entry IO_NULL) (?f (got_entry IO_NULL))" by (simp add: same_slot_def got_entry_def)
  have "caps {In_table 1} (st_spaces ?st 16) = [0x100 \<mapsto> capability (?f (got_entry IO_NULL))]"
    using holds_update(2) [where f = ?f and P' = "{In_table 1}", OF got_holds s] base unfolding fresh_state_def right_state_def by simp
  moreover have "pending (In_table 1) (got_entry 5) = {In_table 1}" by (simp add: pending_def got_entry_def IE_BITS_TYPE_def MACH_PORT_TYPE_NONE_def)
  ultimately have "st_caps sent_state 16 = [0x100 \<mapsto> capability e']" using r by (simp add: received_def)
  moreover have "st_ok example_config sent_state 16" "right_ok (capability e')" using r holds_st_ok by (auto simp: received_def)
  ultimately show ?thesis by (auto simp: rights_ok_def)
qed

theorem quick_copyout_exact_witness:
  "(case quick_copyout sent_state 16 5 of Some (Some (name, _)) \<Rightarrow> name = 0x100 | _ \<Rightarrow> False) \<and>
    ipc_kmsg_copyout_object example_config [] 0 True id sent_state 16 5 MACH_MSG_TYPE_PORT_SEND =
      copyout_slow example_config [] 0 True id sent_state 16 5 MACH_MSG_TYPE_PORT_SEND"
proof -
  have "case quick_copyout sent_state 16 5 of Some (Some (name, _)) \<Rightarrow> name = 0x100 | _ \<Rightarrow> False" "ip_receiver (st_ports sent_state 5) \<noteq> 16" "IO_VALID 5"
    by code_simp+
  moreover have "entry_sizes (ipc_table_entries example_config)" by (simp add: example_config_def example_sizes_ok)
  ultimately show ?thesis using quick_copyout_exact [OF sent_rights, of 5 "[]" 0 True id] by simp
qed

end
