(* ===== verification/Ipc_Notify.thy ===== *)
theory Ipc_Notify
  imports Kmsg_Header Mach_Port Ipc_Destroy
begin

text \<open>
  Notifications, \<^verbatim>\<open>src/kernel/ipc/ipc_notify.c\<close>: the templates, and the messages that are made from them and sent.  The other
  theories have a notification as an event; \<open>notify\<close> is the call that the event stands for.
\<close>

section \<open>Templates\<close>

definition MACH_NOTIFY_PORT_DELETED :: "32 word" where "MACH_NOTIFY_PORT_DELETED = 65"
definition MACH_NOTIFY_MSG_ACCEPTED :: "32 word" where "MACH_NOTIFY_MSG_ACCEPTED = 66"
definition MACH_NOTIFY_SEND_ONCE :: "32 word" where "MACH_NOTIFY_SEND_ONCE = 71"
definition MACH_MSG_TYPE_PORT_NAME :: "8 word" where "MACH_MSG_TYPE_PORT_NAME = 15"
definition MSG_TYPE_EMERGENCY :: "32 word" where "MSG_TYPE_EMERGENCY = 1"
definition ANONYMOUS_SECURITY_ID_VALUE :: "32 word \<times> 32 word" where "ANONYMOUS_SECURITY_ID_VALUE = (0, 0)"
definition KERNEL_SECURITY_ID_VALUE :: "32 word \<times> 32 word" where "KERNEL_SECURITY_ID_VALUE = (0, 1)"

text \<open>
  A template is a message whose header and data are filled in; \<^verbatim>\<open>ikm_init\<close> gives the message no msg-accepted request and the anonymous
  sender.  The sizes are those of the structures without the trailer: a header of 24 bytes, the byte order record of 8.
\<close>

definition ipc_notify_init_port_deleted :: ipc_kmsg where
  "ipc_notify_init_port_deleted = \<lparr>msgh_bits = MACH_MSGH_BITS (type_code MACH_MSG_TYPE_PORT_SEND_ONCE) 0, msgh_size = 36,
     msgh_remote_port = MACH_PORT_NULL, msgh_local_port = MACH_PORT_NULL, msgh_body = [], ikm_marequest = 0,
     msgh_reserved = 0, msgh_id = MACH_NOTIFY_PORT_DELETED, msgh_data = NDR_data MACH_PORT_NULL,
     ikm_sender = ANONYMOUS_SECURITY_ID_VALUE\<rparr>"

definition ipc_notify_init_port_destroyed :: ipc_kmsg where
  "ipc_notify_init_port_destroyed = \<lparr>msgh_bits = MACH_MSGH_BITS_COMPLEX OR MACH_MSGH_BITS (type_code MACH_MSG_TYPE_PORT_SEND_ONCE) 0, msgh_size = 40,
     msgh_remote_port = MACH_PORT_NULL, msgh_local_port = MACH_PORT_NULL,
     msgh_body = [MACH_MSG_PORT_DESCRIPTOR MACH_PORT_NULL MACH_MSG_TYPE_PORT_RECEIVE], ikm_marequest = 0,
     msgh_reserved = 0, msgh_id = MACH_NOTIFY_PORT_DESTROYED, msgh_data = No_data,
     ikm_sender = ANONYMOUS_SECURITY_ID_VALUE\<rparr>"

definition ipc_notify_init_no_senders :: ipc_kmsg where
  "ipc_notify_init_no_senders = \<lparr>msgh_bits = MACH_MSGH_BITS (type_code MACH_MSG_TYPE_PORT_SEND_ONCE) 0, msgh_size = 36,
     msgh_remote_port = MACH_PORT_NULL, msgh_local_port = MACH_PORT_NULL, msgh_body = [], ikm_marequest = 0,
     msgh_reserved = 0, msgh_id = MACH_NOTIFY_NO_SENDERS, msgh_data = NDR_data 0,
     ikm_sender = ANONYMOUS_SECURITY_ID_VALUE\<rparr>"

definition ipc_notify_init_send_once :: ipc_kmsg where
  "ipc_notify_init_send_once = \<lparr>msgh_bits = MACH_MSGH_BITS (type_code MACH_MSG_TYPE_PORT_SEND_ONCE) 0, msgh_size = 24,
     msgh_remote_port = MACH_PORT_NULL, msgh_local_port = MACH_PORT_NULL, msgh_body = [], ikm_marequest = 0,
     msgh_reserved = 0, msgh_id = MACH_NOTIFY_SEND_ONCE, msgh_data = No_data,
     ikm_sender = ANONYMOUS_SECURITY_ID_VALUE\<rparr>"

definition ipc_notify_init_dead_name :: ipc_kmsg where
  "ipc_notify_init_dead_name = \<lparr>msgh_bits = MACH_MSGH_BITS (type_code MACH_MSG_TYPE_PORT_SEND_ONCE) 0, msgh_size = 36,
     msgh_remote_port = MACH_PORT_NULL, msgh_local_port = MACH_PORT_NULL, msgh_body = [], ikm_marequest = 0,
     msgh_reserved = 0, msgh_id = MACH_NOTIFY_DEAD_NAME, msgh_data = NDR_data MACH_PORT_NULL,
     ikm_sender = ANONYMOUS_SECURITY_ID_VALUE\<rparr>"

text \<open>Notifications of the old format: the type of one port, and the port.\<close>

definition MSGT_PORT_RECEIVE :: "8 word" where "MSGT_PORT_RECEIVE = 16"

definition port_item :: "8 word \<Rightarrow> mach_msg_type" where
  "port_item name = \<lparr>msgt_name = name, msgt_size = 32, msgt_number = 1, msgt_inline = True, msgt_longform = False, msgt_deallocate = False\<rparr>"

definition ipc_notify_init_port_deleted_compat :: ipc_kmsg where
  "ipc_notify_init_port_deleted_compat = \<lparr>msgh_bits = MACH_MSGH_BITS_OLD_FORMAT OR MACH_MSGH_BITS (type_code MACH_MSG_TYPE_PORT_SEND) 0, msgh_size = 32,
     msgh_remote_port = MACH_PORT_NULL, msgh_local_port = MACH_PORT_NULL, msgh_body = [], ikm_marequest = 0,
     msgh_reserved = MSG_TYPE_EMERGENCY, msgh_id = MACH_NOTIFY_PORT_DELETED, msgh_data = Typed_data (port_item MACH_MSG_TYPE_PORT_NAME) MACH_PORT_NULL,
     ikm_sender = ANONYMOUS_SECURITY_ID_VALUE\<rparr>"

definition ipc_notify_init_msg_accepted_compat :: ipc_kmsg where
  "ipc_notify_init_msg_accepted_compat = \<lparr>msgh_bits = MACH_MSGH_BITS_OLD_FORMAT OR MACH_MSGH_BITS (type_code MACH_MSG_TYPE_PORT_SEND) 0, msgh_size = 32,
     msgh_remote_port = MACH_PORT_NULL, msgh_local_port = MACH_PORT_NULL, msgh_body = [], ikm_marequest = 0,
     msgh_reserved = MSG_TYPE_EMERGENCY, msgh_id = MACH_NOTIFY_MSG_ACCEPTED, msgh_data = Typed_data (port_item MACH_MSG_TYPE_PORT_NAME) MACH_PORT_NULL,
     ikm_sender = ANONYMOUS_SECURITY_ID_VALUE\<rparr>"

definition ipc_notify_init_port_destroyed_compat :: ipc_kmsg where
  "ipc_notify_init_port_destroyed_compat =
    \<lparr>msgh_bits = MACH_MSGH_BITS_OLD_FORMAT OR MACH_MSGH_BITS_COMPLEX OR MACH_MSGH_BITS (type_code MACH_MSG_TYPE_PORT_SEND) 0, msgh_size = 32,
     msgh_remote_port = MACH_PORT_NULL, msgh_local_port = MACH_PORT_NULL, msgh_body = [], ikm_marequest = 0,
     msgh_reserved = MSG_TYPE_EMERGENCY, msgh_id = MACH_NOTIFY_PORT_DESTROYED, msgh_data = Typed_data (port_item MSGT_PORT_RECEIVE) MACH_PORT_NULL,
     ikm_sender = ANONYMOUS_SECURITY_ID_VALUE\<rparr>"

text \<open>The templates, which are set once when the kernel starts.\<close>

record notify_templates =
  ipc_notify_port_deleted_template :: ipc_kmsg
  ipc_notify_port_destroyed_template :: ipc_kmsg
  ipc_notify_no_senders_template :: ipc_kmsg
  ipc_notify_send_once_template :: ipc_kmsg
  ipc_notify_dead_name_template :: ipc_kmsg
  ipc_notify_msg_accepted_compat_template :: ipc_kmsg
  ipc_notify_port_deleted_compat_template :: ipc_kmsg
  ipc_notify_port_destroyed_compat_template :: ipc_kmsg

definition ipc_notify_init :: notify_templates where
  "ipc_notify_init =
    \<lparr>ipc_notify_port_deleted_template = ipc_notify_init_port_deleted,
     ipc_notify_port_destroyed_template = ipc_notify_init_port_destroyed,
     ipc_notify_no_senders_template = ipc_notify_init_no_senders,
     ipc_notify_send_once_template = ipc_notify_init_send_once,
     ipc_notify_dead_name_template = ipc_notify_init_dead_name,
     ipc_notify_msg_accepted_compat_template = ipc_notify_init_msg_accepted_compat,
     ipc_notify_port_deleted_compat_template = ipc_notify_init_port_deleted_compat,
     ipc_notify_port_destroyed_compat_template = ipc_notify_init_port_destroyed_compat\<rparr>"

section \<open>Sending a notification\<close>

text \<open>
  The kernel's space with its server, the thread that sends, whether memory for the message is there, and what is needed
  to destroy a receive right that cannot be sent.
\<close>

record notify_env =
  nv_kspace :: space_id
  nv_server :: "ipc_kmsg \<Rightarrow> ipc_state \<Rightarrow> ipc_kmsg option \<times> ipc_state"
  nv_fuel :: nat
  nv_self :: ipc_thread
  nv_memory :: bool
  nv_locked :: bool
  nv_interim :: "ipc_state \<Rightarrow> ipc_state"

definition ipc_mqueue_send_always :: "ipc_config \<Rightarrow> notify_env \<Rightarrow> ipc_state \<Rightarrow> ipc_kmsg \<Rightarrow> ipc_state option" where
  "ipc_mqueue_send_always cfg env st kmsg =
    (case ipc_mqueue_send cfg (nv_kspace env) (nv_server env) (nv_fuel env) [] st (nv_self env) kmsg MACH_SEND_ALWAYS 0 of
       None \<Rightarrow> None
     | Some (mr, st) \<Rightarrow> if mr = MACH_MSG_SUCCESS then Some st else None)"

definition ipc_notify_port_deleted :: "ipc_config \<Rightarrow> notify_env \<Rightarrow> ipc_state \<Rightarrow> ipc_port_t \<Rightarrow> mach_port_t \<Rightarrow> ipc_state option" where
  "ipc_notify_port_deleted cfg env st port name =
    (if \<not> nv_memory env then Some (ipc_port_release_sonce st port)
     else ipc_mqueue_send_always cfg env st ((ipc_notify_port_deleted_template ipc_notify_init)\<lparr>ikm_sender := KERNEL_SECURITY_ID_VALUE, msgh_remote_port := port,
       msgh_data := NDR_data name\<rparr>))"

definition ipc_notify_port_destroyed :: "ipc_config \<Rightarrow> notify_env \<Rightarrow> ipc_state \<Rightarrow> ipc_port_t \<Rightarrow> ipc_port_t \<Rightarrow> ipc_state option" where
  "ipc_notify_port_destroyed cfg env st port right =
    (if \<not> nv_memory env
     then ipc_port_release_receive cfg (nv_fuel env) (nv_locked env) (nv_interim env) (ipc_port_release_sonce st port) right
     else ipc_mqueue_send_always cfg env st
       ((ipc_notify_port_destroyed_template ipc_notify_init)\<lparr>ikm_sender := KERNEL_SECURITY_ID_VALUE, msgh_remote_port := port,
        msgh_body := [MACH_MSG_PORT_DESCRIPTOR right MACH_MSG_TYPE_PORT_RECEIVE]\<rparr>))"

definition ipc_notify_no_senders :: "ipc_config \<Rightarrow> notify_env \<Rightarrow> ipc_state \<Rightarrow> ipc_port_t \<Rightarrow> 32 word \<Rightarrow> ipc_state option" where
  "ipc_notify_no_senders cfg env st port mscount =
    (if \<not> nv_memory env then Some (ipc_port_release_sonce st port)
     else ipc_mqueue_send_always cfg env st ((ipc_notify_no_senders_template ipc_notify_init)\<lparr>ikm_sender := KERNEL_SECURITY_ID_VALUE, msgh_remote_port := port,
       msgh_data := NDR_data mscount\<rparr>))"

definition ipc_notify_send_once :: "ipc_config \<Rightarrow> notify_env \<Rightarrow> ipc_state \<Rightarrow> ipc_port_t \<Rightarrow> ipc_state option" where
  "ipc_notify_send_once cfg env st port =
    (if \<not> nv_memory env then Some (ipc_port_release_sonce st port)
     else ipc_mqueue_send_always cfg env st ((ipc_notify_send_once_template ipc_notify_init)\<lparr>ikm_sender := KERNEL_SECURITY_ID_VALUE, msgh_remote_port := port\<rparr>))"

definition ipc_notify_dead_name :: "ipc_config \<Rightarrow> notify_env \<Rightarrow> ipc_state \<Rightarrow> ipc_port_t \<Rightarrow> mach_port_t \<Rightarrow> ipc_state option" where
  "ipc_notify_dead_name cfg env st port name =
    (if \<not> nv_memory env then Some (ipc_port_release_sonce st port)
     else ipc_mqueue_send_always cfg env st ((ipc_notify_dead_name_template ipc_notify_init)\<lparr>ikm_sender := KERNEL_SECURITY_ID_VALUE, msgh_remote_port := port,
       msgh_data := NDR_data name\<rparr>))"

definition ipc_notify_port_deleted_compat :: "ipc_config \<Rightarrow> notify_env \<Rightarrow> ipc_state \<Rightarrow> ipc_port_t \<Rightarrow> mach_port_t \<Rightarrow> ipc_state option" where
  "ipc_notify_port_deleted_compat cfg env st port name =
    (if \<not> nv_memory env then ipc_port_release_send st port
     else ipc_mqueue_send_always cfg env st ((ipc_notify_port_deleted_compat_template ipc_notify_init)\<lparr>ikm_sender := KERNEL_SECURITY_ID_VALUE, msgh_remote_port := port,
       msgh_data := Typed_data (port_item MACH_MSG_TYPE_PORT_NAME) name\<rparr>))"

definition ipc_notify_msg_accepted_compat :: "ipc_config \<Rightarrow> notify_env \<Rightarrow> ipc_state \<Rightarrow> ipc_port_t \<Rightarrow> mach_port_t \<Rightarrow> ipc_state option" where
  "ipc_notify_msg_accepted_compat cfg env st port name =
    (if \<not> nv_memory env then ipc_port_release_send st port
     else ipc_mqueue_send_always cfg env st ((ipc_notify_msg_accepted_compat_template ipc_notify_init)\<lparr>ikm_sender := KERNEL_SECURITY_ID_VALUE, msgh_remote_port := port,
       msgh_data := Typed_data (port_item MACH_MSG_TYPE_PORT_NAME) name\<rparr>))"

definition ipc_notify_port_destroyed_compat :: "ipc_config \<Rightarrow> notify_env \<Rightarrow> ipc_state \<Rightarrow> ipc_port_t \<Rightarrow> ipc_port_t \<Rightarrow> ipc_state option" where
  "ipc_notify_port_destroyed_compat cfg env st port right =
    (if \<not> nv_memory env
     then Option.bind (ipc_port_release_send st port) (\<lambda>st. ipc_port_release_receive cfg (nv_fuel env) (nv_locked env) (nv_interim env) st right)
     else ipc_mqueue_send_always cfg env st ((ipc_notify_port_destroyed_compat_template ipc_notify_init)\<lparr>ikm_sender := KERNEL_SECURITY_ID_VALUE, msgh_remote_port := port,
       msgh_data := Typed_data (port_item MSGT_PORT_RECEIVE) right\<rparr>))"

text \<open>The call that an event stands for; the other events are not sent.\<close>

fun notify :: "ipc_config \<Rightarrow> notify_env \<Rightarrow> ipc_state \<Rightarrow> ipc_event \<Rightarrow> ipc_state option" where
  "notify cfg env st (Notify_no_senders port mscount) = ipc_notify_no_senders cfg env st port mscount"
| "notify cfg env st (Notify_send_once port) = ipc_notify_send_once cfg env st port"
| "notify cfg env st (Notify_dead_name port name) = ipc_notify_dead_name cfg env st port name"
| "notify cfg env st (Notify_port_deleted port name) = ipc_notify_port_deleted cfg env st port name"
| "notify cfg env st (Notify_port_destroyed port right) = ipc_notify_port_destroyed cfg env st port right"
| "notify cfg env st (Notify_port_deleted_compat port name) = ipc_notify_port_deleted_compat cfg env st port name"
| "notify cfg env st (Notify_msg_accepted_compat port name) = ipc_notify_msg_accepted_compat cfg env st port name"
| "notify cfg env st (Notify_port_destroyed_compat port right) = ipc_notify_port_destroyed_compat cfg env st port right"
| "notify cfg env st _ = Some st"

end
