(* ===== verification/Notify_Laws.thy ===== *)
theory Notify_Laws
  imports Ipc_Notify Message_Laws
begin

text \<open>
  Notifications are sent without waiting: each becomes one more pending message of its port, also when the queue of the port
  is full, and the count of messages stays right.
\<close>

section \<open>The message of an event\<close>

definition from_template :: "ipc_kmsg \<Rightarrow> ipc_port_t \<Rightarrow> ipc_kmsg" where
  "from_template template port = template\<lparr>ikm_sender := KERNEL_SECURITY_ID_VALUE, msgh_remote_port := port\<rparr>"

fun notification :: "ipc_event \<Rightarrow> ipc_kmsg option" where
  "notification (Notify_no_senders port mscount) = Some (from_template ipc_notify_init_no_senders port\<lparr>msgh_data := NDR_data mscount\<rparr>)"
| "notification (Notify_send_once port) = Some (from_template ipc_notify_init_send_once port)"
| "notification (Notify_dead_name port name) = Some (from_template ipc_notify_init_dead_name port\<lparr>msgh_data := NDR_data name\<rparr>)"
| "notification (Notify_port_deleted port name) = Some (from_template ipc_notify_init_port_deleted port\<lparr>msgh_data := NDR_data name\<rparr>)"
| "notification (Notify_port_destroyed port right) =
    Some (from_template ipc_notify_init_port_destroyed port\<lparr>msgh_body := [MACH_MSG_PORT_DESCRIPTOR right MACH_MSG_TYPE_PORT_RECEIVE]\<rparr>)"
| "notification (Notify_port_deleted_compat port name) =
    Some (from_template ipc_notify_init_port_deleted_compat port\<lparr>msgh_data := Typed_data (port_item MACH_MSG_TYPE_PORT_NAME) name\<rparr>)"
| "notification (Notify_msg_accepted_compat port name) =
    Some (from_template ipc_notify_init_msg_accepted_compat port\<lparr>msgh_data := Typed_data (port_item MACH_MSG_TYPE_PORT_NAME) name\<rparr>)"
| "notification (Notify_port_destroyed_compat port right) =
    Some (from_template ipc_notify_init_port_destroyed_compat port\<lparr>msgh_data := Typed_data (port_item MSGT_PORT_RECEIVE) right\<rparr>)"
| "notification _ = None"

lemmas notify_defs = ipc_notify_no_senders_def ipc_notify_send_once_def ipc_notify_dead_name_def ipc_notify_port_deleted_def
  ipc_notify_port_destroyed_def ipc_notify_port_deleted_compat_def ipc_notify_msg_accepted_compat_def ipc_notify_port_destroyed_compat_def

lemmas template_defs = ipc_notify_init_no_senders_def ipc_notify_init_send_once_def ipc_notify_init_dead_name_def ipc_notify_init_port_deleted_def
  ipc_notify_init_port_destroyed_def ipc_notify_init_port_deleted_compat_def ipc_notify_init_msg_accepted_compat_def
  ipc_notify_init_port_destroyed_compat_def

lemma notify_sends:
  assumes "nv_memory env"
  shows "notify cfg env st e = (case notification e of None \<Rightarrow> Some st | Some k \<Rightarrow> ipc_mqueue_send_always cfg env st k)"
  using assms by (cases e) (simp_all add: notify_defs ipc_notify_init_def from_template_def)

lemma notification_not_circular: "notification e = Some k \<Longrightarrow> msgh_bits k AND MACH_MSGH_BITS_CIRCULAR = 0"
  by (cases e) (auto simp: from_template_def template_defs MACH_MSGH_BITS_def MACH_MSGH_BITS_CIRCULAR_def MACH_MSGH_BITS_COMPLEX_def
      MACH_MSGH_BITS_OLD_FORMAT_def)

lemma send_always_counted:
  assumes "IO_VALID (msgh_remote_port k)" and "ip_active (st_ports st (msgh_remote_port k))"
    and "ip_receiver (st_ports st (msgh_remote_port k)) \<noteq> nv_kspace env" and "msgh_bits k AND MACH_MSGH_BITS_CIRCULAR = 0"
  shows "ipc_mqueue_send_always cfg env st k = send_counted cfg st (msgh_remote_port k) k"
  using assms
  by (simp add: ipc_mqueue_send_always_def ipc_mqueue_send.simps send_to_port_def send_wait.simps send_room_def MACH_SEND_ALWAYS_def
      split: option.split)

section \<open>One notification\<close>

lemma send_deliver_receiver:
  assumes "send_deliver cfg st p k = Some st'"
  shows "ip_receiver (st_ports st' x) = ip_receiver (st_ports st x)"
proof -
  have "ip_receiver (st_ports (set_mqueue st mq q) x) = ip_receiver (st_ports st x)" for mq q
    by (cases mq) (simp_all add: upd_port_def state_simps)
  moreover have "ip_receiver (st_ports (set_seqno s p n) x) = ip_receiver (st_ports s x)" for s n by (simp add: set_seqno_def state_simps)
  ultimately show ?thesis using assms by (auto simp: send_deliver_def Let_def mq_simps split: prod.splits if_splits)
qed

text \<open>Can the notification of the event be sent to a port of a task?\<close>

definition deliverable :: "space_id \<Rightarrow> ipc_state \<Rightarrow> ipc_event \<Rightarrow> bool" where
  "deliverable kspace st e \<longleftrightarrow> (\<forall>k. notification e = Some k \<longrightarrow>
    IO_VALID (msgh_remote_port k) \<and> ip_active (st_ports st (msgh_remote_port k)) \<and> ip_receiver (st_ports st (msgh_remote_port k)) \<noteq> kspace)"

lemma notify_one:
  assumes c: "counted st handed" and mem: "nv_memory env" and k: "notification e = Some k" and d: "deliverable (nv_kspace env) st e"
    and room: "ip_msgcount (st_ports st (msgh_remote_port k)) \<noteq> - 1"
  obtains st' ges where "notify cfg env st e = Some st'" "st_events st' = st_events st @ ges" "counted st' (handed @ taken_messages ges)"
    "in_flight st' (handed @ taken_messages ges) = (in_flight st handed)(msgh_remote_port k := add_mset k (in_flight st handed (msgh_remote_port k)))"
    "\<forall>x. ip_bits (st_ports st' x) = ip_bits (st_ports st x)" "\<forall>x. ip_receiver (st_ports st' x) = ip_receiver (st_ports st x)"
    "\<forall>x. ip_msgcount (st_ports st' x) = ip_msgcount (st_ports st x) + (if x = msgh_remote_port k then 1 else 0)"
proof -
  let ?p = "msgh_remote_port k" let ?st = "one_more st ?p"
  note bits = notification_not_circular [OF k]
  have ok: "queues_ok ?st" using c same_queues_of(3) [OF one_more_same] by (simp add: counted_def)
  obtain st' ges where r: "send_deliver cfg ?st ?p k = Some st'" "st_events st' = st_events ?st @ ges" "same_counts ?st st'"
    "in_flight st' (handed @ taken_messages ges) = (in_flight ?st handed)(?p := add_mset k (in_flight ?st handed ?p))"
    by (rule send_deliver_pending [OF ok refl, of cfg]) blast
  have ev: "st_events ?st = st_events st" by (simp add: upd_port_def state_simps)
  obtain s es where "send_deliver cfg ?st ?p k = Some s" "st_events s = st_events st @ es" "counted s (handed @ taken_messages es)"
    by (rule counted_deliver [OF c refl bits room])
  then have counted: "counted st' (handed @ taken_messages ges)" using r(1,2) ev by auto
  have "send_counted cfg st ?p k = Some st'"
    using r(1) room by (simp add: send_counted_def Let_def) (simp add: upd_port_def state_simps add_eq_0_iff2)
  then have run: "notify cfg env st e = Some st'"
    using d k send_always_counted [of k st env cfg] bits by (simp add: notify_sends [OF mem] deliverable_def)
  show thesis
  proof (rule that [OF run _ counted])
    show "in_flight st' (handed @ taken_messages ges) = (in_flight st handed)(?p := add_mset k (in_flight st handed ?p))"
      using r(4) same_queues_of(4) [OF one_more_same] by simp
    show "\<forall>x. ip_receiver (st_ports st' x) = ip_receiver (st_ports st x)"
      using send_deliver_receiver [OF r(1)] by (simp add: upd_port_def state_simps)
  qed (use r(2,3) ev in \<open>simp_all add: same_counts_def upd_port_def state_simps\<close>)
qed

section \<open>The notifications of a call\<close>

text \<open>The notifications of the events, in their order, and those among the messages that are for a port.\<close>

fun notify_all :: "ipc_config \<Rightarrow> notify_env \<Rightarrow> ipc_state \<Rightarrow> ipc_event list \<Rightarrow> ipc_state option" where
  "notify_all cfg env st [] = Some st"
| "notify_all cfg env st (e # es) = Option.bind (notify cfg env st e) (\<lambda>st. notify_all cfg env st es)"

definition notices :: "ipc_event list \<Rightarrow> ipc_port_t \<Rightarrow> ipc_kmsg list" where
  "notices es p = filter (\<lambda>k. msgh_remote_port k = p) (List.map_filter notification es)"

lemma notices_simps [simp]:
  "notices [] p = []"
  "notices (e # es) p = (case notification e of None \<Rightarrow> notices es p | Some k \<Rightarrow> if msgh_remote_port k = p then k # notices es p else notices es p)"
  by (simp_all add: notices_def List.map_filter_simps split: option.split)

lemma notify_all_delivers:
  assumes "counted st handed" and "nv_memory env" and "\<forall>e \<in> set es. deliverable (nv_kspace env) st e"
    and "\<forall>p. unat (ip_msgcount (st_ports st p)) + length (notices es p) < 2 ^ 32"
  shows "\<exists>st' ges. notify_all cfg env st es = Some st' \<and> st_events st' = st_events st @ ges \<and> counted st' (handed @ taken_messages ges) \<and>
    (\<forall>p. in_flight st' (handed @ taken_messages ges) p = in_flight st handed p + mset (notices es p))"
  using assms(1,3,4)
proof (induction es arbitrary: st handed)
  case Nil
  then show ?case by (intro exI [of _ st] exI [of _ "[]"]) simp
next
  case (Cons e es)
  show ?case
  proof (cases "notification e")
    case None
    then have "notify cfg env st e = Some st" by (simp add: notify_sends [OF assms(2)])
    with Cons None show ?thesis by simp
  next
    case (Some k)
    let ?p = "msgh_remote_port k"
    have small: "unat (ip_msgcount (st_ports st ?p)) + 1 < 2 ^ 32" using Cons.prems(3) [rule_format, of ?p] Some by simp
    moreover have "unat (- 1 :: 32 word) = 2 ^ 32 - 1" by (simp add: unsigned_minus_1_eq_mask mask_eq_exp_minus_1)
    ultimately have room: "ip_msgcount (st_ports st ?p) \<noteq> - 1" by auto
    have d: "deliverable (nv_kspace env) st e" using Cons.prems(2) by simp
    obtain st1 ges where s: "notify cfg env st e = Some st1" "st_events st1 = st_events st @ ges" "counted st1 (handed @ taken_messages ges)"
      "in_flight st1 (handed @ taken_messages ges) = (in_flight st handed)(?p := add_mset k (in_flight st handed ?p))"
      "\<forall>x. ip_bits (st_ports st1 x) = ip_bits (st_ports st x)" "\<forall>x. ip_receiver (st_ports st1 x) = ip_receiver (st_ports st x)"
      "\<forall>x. ip_msgcount (st_ports st1 x) = ip_msgcount (st_ports st x) + (if x = ?p then 1 else 0)"
      by (rule notify_one [OF Cons.prems(1) assms(2) Some d room, of cfg])
    have "deliverable (nv_kspace env) st1 = deliverable (nv_kspace env) st" by (simp add: deliverable_def s(5,6) fun_eq_iff)
    then have d1: "\<forall>e \<in> set es. deliverable (nv_kspace env) st1 e" using Cons.prems(2) by simp
    have "unat (ip_msgcount (st_ports st ?p) + 1) = unat (ip_msgcount (st_ports st ?p)) + 1"
      using small by (simp add: unat_word_ariths)
    then have r1: "\<forall>p. unat (ip_msgcount (st_ports st1 p)) + length (notices es p) < 2 ^ 32"
      using Cons.prems(3) Some by (auto simp: s(7) split: if_splits)
    obtain st' ges' where "notify_all cfg env st1 es = Some st'" "st_events st' = st_events st1 @ ges'"
      "counted st' ((handed @ taken_messages ges) @ taken_messages ges')"
      "\<forall>p. in_flight st' ((handed @ taken_messages ges) @ taken_messages ges') p = in_flight st1 (handed @ taken_messages ges) p + mset (notices es p)"
      using Cons.IH [OF s(3) d1 r1] by blast
    then show ?thesis
      using s(1,2,4) Some by (intro exI [of _ st'] exI [of _ "ges @ ges'"]) simp
  qed
qed

text \<open>
  C16: The notifications that an operation asks for are all sent, and the kernel never waits to send one: for any events of an
  operation, in any state in which the messages are counted right, with memory for the messages and live
  ports of tasks as destinations, every port has afterwards exactly its notifications as further pending messages (in its
  queue or handed to a thread that waited), whether or not its queue was full, and the count of messages is still right.
\<close>

theorem notifications_never_wait:
  assumes "counted st handed" and "nv_memory env" and "\<forall>e \<in> set es. deliverable (nv_kspace env) st e"
    and "\<forall>p. unat (ip_msgcount (st_ports st p)) + length (notices es p) < 2 ^ 32"
  shows "\<exists>st' ges. notify_all cfg env st es = Some st' \<and> st_events st' = st_events st @ ges \<and> counted st' (handed @ taken_messages ges) \<and>
    (\<forall>p. in_flight st' (handed @ taken_messages ges) p = in_flight st handed p + mset (notices es p))"
  by (rule notify_all_delivers [OF assms])

text \<open>The queue of port 8 is full; its owner learns that a name has become dead and that another port has no senders.\<close>

definition example_env :: notify_env where
  "example_env = \<lparr>nv_kspace = 77, nv_server = (\<lambda>k st. (None, st)), nv_fuel = 0, nv_self = example_thread 1, nv_memory = True,
     nv_locked = True, nv_interim = id\<rparr>"

definition full_state :: ipc_state where
  "full_state = upd_port quiet_state 8 (\<lambda>port. port\<lparr>ip_qlimit := 0\<rparr>)"

lemma full_state_counted: "counted full_state []"
  unfolding full_state_def by (rule counted_upd_port [OF quiet_state_counted]) simp_all

theorem notifications_never_wait_witness:
  "\<exists>st' handed. notify_all example_config example_env full_state [Notify_dead_name 8 0x100, Thread_go (example_thread 2), Notify_no_senders 8 3] = Some st' \<and>
    counted st' handed \<and> in_flight st' handed 8 = {#the (notification (Notify_dead_name 8 0x100)), the (notification (Notify_no_senders 8 3))#}"
proof -
  let ?es = "[Notify_dead_name 8 0x100, Thread_go (example_thread 2), Notify_no_senders 8 3]"
  have port: "st_ports full_state 8 = live_port\<lparr>ip_qlimit := 0\<rparr>" "x \<noteq> 8 \<Longrightarrow> st_ports full_state x = blank_port" for x
    by (simp_all add: full_state_def quiet_state_def upd_port_def state_simps)
  have n: "notices ?es 8 = map (the \<circ> notification) [Notify_dead_name 8 0x100, Notify_no_senders 8 3]" "x \<noteq> 8 \<Longrightarrow> notices ?es x = []" for x
    by (auto simp: from_template_def)
  have d: "\<forall>e \<in> set ?es. deliverable (nv_kspace example_env) full_state e"
    by (simp add: deliverable_def from_template_def port example_env_def IO_VALID_def IO_NULL_def IO_DEAD_def live_port_def blank_port_def)
  have room: "\<forall>p. unat (ip_msgcount (st_ports full_state p)) + length (notices ?es p) < 2 ^ 32"
  proof
    fix p show "unat (ip_msgcount (st_ports full_state p)) + length (notices ?es p) < 2 ^ 32"
      by (cases "p = 8") (simp_all add: port n live_port_def blank_port_def del: notices_simps)
  qed
  have mem: "nv_memory example_env" by (simp add: example_env_def)
  obtain st' ges where s: "notify_all example_config example_env full_state ?es = Some st'" "counted st' ([] @ taken_messages ges)"
    "in_flight st' ([] @ taken_messages ges) 8 = in_flight full_state [] 8 + mset (notices ?es 8)"
    using notifications_never_wait [OF full_state_counted mem d room, of example_config] by blast
  have "in_flight full_state [] 8 = {#}"
    using full_state_counted by (auto simp: counted_def port live_port_def blank_port_def dest!: spec [of _ 8])
  with s n(1) show ?thesis by (intro exI [of _ st'] exI [of _ "taken_messages ges"]) (simp del: notices_simps)
qed

end
