(* ===== verification/Death_Laws.thy ===== *)
theory Death_Laws
  imports Notify_Laws
begin

text \<open>
  The death of a port, from \<^verbatim>\<open>ipc_port_destroy\<close> to the messages that announce it: whoever has asked for a dead-name
  notification gets one, the receiver of the no-senders notification learns that there will be none, and no other port sees a
  change.
\<close>

section \<open>What is announced\<close>





section \<open>The parts of the destruction\<close>








section \<open>After the destruction\<close>








end
