(* ===== verification/Spec2Isabelle.thy ===== *)
theory Spec2Isabelle
  imports Space_Laws Port_Laws Right_Laws Call_Laws Port_Calls Message_Laws Ipc_Queue Copyout_Laws Death_Laws
begin

text \<open>
  Verification of Mach IPC in the Darwin 0.1 kernel (\<^verbatim>\<open>src/kernel/ipc\<close>): the capability spaces of
  tasks, the ports and rights in them, the queues of messages, and the system calls on port names.

  \<^bold>\<open>The program.\<close>  A task names ports by 32 bit names.  Its space (\<^verbatim>\<open>ipc_space.c\<close>) has a table of entries
  for small names and a splay tree (\<^verbatim>\<open>ipc_splay.c\<close>) for the others; \<^verbatim>\<open>ipc_entry.c\<close> finds, makes, frees and
  moves entries, and grows the table through the sizes of \<^verbatim>\<open>ipc_table.c\<close>.  Two reverse hash tables
  (\<^verbatim>\<open>ipc_hash.c\<close>) find the name of a send right.  An entry stands for rights to an object:
  \<^verbatim>\<open>ipc_right.c\<close> has the operations on them, \<^verbatim>\<open>ipc_object.c\<close> puts lookup, rights and allocation together.
  Ports (\<^verbatim>\<open>ipc_port.c\<close>) count the rights to them and keep the requests for notifications; port sets
  (\<^verbatim>\<open>ipc_pset.c\<close>) share a message queue (\<^verbatim>\<open>ipc_mqueue.c\<close>); \<^verbatim>\<open>ipc_marequest.c\<close> keeps requests for the
  acceptance of a message, and \<^verbatim>\<open>ipc_kmsg.c\<close> takes the rights of a message from the names of its sender and gives
  them names in the space of its receiver.  \<^verbatim>\<open>ipc_notify.c\<close> makes and sends the messages that tell tasks what happened to their
  rights.
  \<^verbatim>\<open>mach_port.c\<close> has the system calls.  The kernel is built with
  \<^verbatim>\<open>MACH_IPC_COMPAT\<close>, and the branches for it are modelled.

  \<^bold>\<open>The model\<close>, one theory for each part, from the bottom to the top:
  \<^item> \<open>Mach_Prelude\<close>, \<open>Ipc_Types\<close>: names, return codes, entries and spaces; shared facts on words and lists.
  \<^item> \<open>Ipc_Splay\<close>: the splay tree in its unassembled form (a middle tree and two spines) and the traversal
    with its stack of inverted pointers.
  \<^item> \<open>Ipc_Table\<close>, \<open>Ipc_Hash\<close>: the arrays of sizes; the local table with linear probing and deletion that
    moves entries up, the global table with move-to-front.
  \<^item> \<open>Ipc_Entry\<close>: lookup, get, alloc, alloc_name, dealloc, grow_table and \<^verbatim>\<open>ipc_space_create\<close>.
  \<^item> \<open>Ipc_Marequest\<close>, \<open>Ipc_State\<close>: msg-accepted requests; ports, port sets, messages and the whole state.
  \<^item> \<open>Ipc_Mqueue\<close>, \<open>Ipc_Port\<close>: queues, port sets, the scatter check; ports.
  \<^item> \<open>Ipc_Right\<close>, \<open>Ipc_Right_Copy\<close>, \<open>Ipc_Destroy\<close>: the operations on rights, and the death of a port.
  \<^item> \<open>Ipc_Object\<close>: the operations on names and objects.
  \<^item> \<open>Mach_Port\<close>, \<open>Mach_Port_Names\<close>: the \<^verbatim>\<open>mach_port_*\<close> system calls.
  \<^item> \<open>Ipc_Compat\<close>, \<open>Port_Calls\<close>: the operations for the old interface, and the \<^verbatim>\<open>port_*\<close> system calls.
  \<^item> \<open>Ipc_Space\<close>: \<^verbatim>\<open>ipc_space_destroy\<close>, and making and answering msg-accepted requests.
  \<^item> \<open>Ipc_Message\<close>: sending and receiving, \<^verbatim>\<open>ipc_mqueue_send\<close>, \<^verbatim>\<open>ipc_mqueue_send_interrupt\<close>, \<^verbatim>\<open>ipc_mqueue_copyin\<close> and
    \<^verbatim>\<open>ipc_mqueue_receive\<close>.
  \<^item> \<open>Ipc_Queue\<close>: the queues of messages and threads as rings of linked elements (\<^verbatim>\<open>ipc_kmsg.h\<close>, \<^verbatim>\<open>ipc_thread.h\<close>), which are
    lists in the other theories.
  \<^item> \<open>Kmsg_Header\<close>: \<^verbatim>\<open>ipc_kmsg_copyin_header\<close>, its three optimized cases and the general one.
  \<^item> \<open>Kmsg_Copyout\<close>: \<^verbatim>\<open>ipc_kmsg_copyout_header\<close> in the same way, \<^verbatim>\<open>ipc_kmsg_copyout_object\<close>, and the header in
    \<^verbatim>\<open>ipc_kmsg_copyout_dest\<close>.
  \<^item> \<open>Ipc_Notify\<close>: the notifications, from their templates to \<^verbatim>\<open>ipc_mqueue_send_always\<close>; \<open>notify\<close> is the call that an event
    of the other theories stands for.

  \<^bold>\<open>Conventions.\<close>  Names, object addresses, bits and counters are 32 bit words; subscripts and table sizes
  are numbers.  The state is a record with a map from addresses to ports, port sets and spaces, so
  that aliasing is explicit.  A kernel return code is a value of \<open>kern_return_t\<close>, an operation that may
  fail returns a sum.  A notification, a thread that is woken and an object that is freed are events,
  in their order.  A run that stops (a panic, a failed assertion, a hash probe that never ends) is
  \<open>None\<close>; the laws show that there is a result.

  \<^bold>\<open>Locks and memory.\<close>  An operation runs without interference while it holds its lock.  Where it lets go of
  the lock, its argument says what the memory allocator answers and what the other threads do to the
  state: a function for one gap, a list (schedule) for a loop with a gap in each round.  The theorems
  hold for all schedules or name the ones that they need.  The result is \<open>None\<close> when the schedule is
  used up; growing the table uses one element for each attempt.  A thread that blocks in a send or receive is such
  a gap, too: the element says what happens until it runs again and how it was woken.

  \<^bold>\<open>Fuel.\<close>  The probing loops take the size of the table as fuel: after so many steps they are back where
  they began.  The splay tree is traversed with the number of its entries, the search for circles
  with more than the number of ports in transit.  The laws show that this is enough.  \<^verbatim>\<open>ipc_mqueue_send\<close> to a port of
  the kernel sends the kernel's answer; the fuel bounds answers to answers, of which the code makes none by itself.

  \<^bold>\<open>The invariant.\<close>  \<open>space_ok\<close> (\<open>Space_Invariant\<close>) says that the free list, the tree, the collision bits, the
  counts and the two reverse hash tables agree; \<open>caps\<close> is the map from names to capabilities that a space
  stands for.  \<open>Entry_Dealloc\<close>, \<open>Entry_Grow\<close>, \<open>Entry_Grow_Commit\<close> and \<open>Entry_Alloc\<close> show what each operation
  does to that map and that it keeps the invariant.  \<open>st_ok\<close> is the invariant of a space in the state,
  \<open>right_ok\<close> (\<open>Right_Ops\<close>) what the assertions of the code say of the rights of an entry.

  \<^bold>\<open>The laws.\<close>
  \<^item> \<open>Space_Laws\<close>: trees, hash tables and entries; each operation is a change of the map of names.
  \<^item> \<open>Port_Laws\<close>: no circles of ports in messages, dead-name and no-senders requests, time stamps, port sets
    and msg-accepted requests; resting on \<open>Port_Transit\<close> and \<open>Port_Requests\<close>.
  \<^item> \<open>Right_Laws\<close>: rights are conserved between names and messages, stay well formed, and user references are
    counted as on integers; \<open>mach_port_deallocate\<close> refines the operation \<open>dealloc_cap\<close> on a capability.  The
    steps are in \<open>Right_Bits\<close> (bits of an entry), \<open>Right_Cell\<close> (an entry of a space), \<open>Right_State\<close> and
    \<open>Right_Steps\<close> (the same in the state), the operations in \<open>Right_Ops\<close> (copying in), \<open>Right_Release\<close>
    (giving back), \<open>Right_Receive\<close> (copying out), \<open>Ref_Counts\<close>, and the calls on names in \<open>Name_Rights\<close>,
    \<open>Object_Ops\<close> and \<open>Call_Ops\<close>.
  \<^item> \<open>Call_Laws\<close>: the listings are accurate snapshots and end; the lists are in \<open>Space_Listing\<close>.
  \<^item> \<open>Message_Laws\<close>: the count of messages over every interleaving of senders and receivers (the step relation
    \<open>msg_step\<close>), messages keep their order, a blocked sender goes on when there is room, a send that gives up leaves
    nothing behind, sending from interrupts and receiving after a wait agree with their other forms.  \<open>Message_Queues\<close>
    has what one operation does to the messages in flight.
  \<^item> \<open>Ipc_Queue\<close>: the rings implement lists, for every sequence of operations.
  \<^item> \<open>Header_Laws\<close>: the optimized cases of \<^verbatim>\<open>ipc_kmsg_copyin_header\<close> are equivalent to the general one, a one-way message
    conserves rights, and with two names that share a slot the code goes on with an entry that was freed.
  \<^item> \<open>Copyout_Laws\<close>: the same equivalence for the receiver, for headers and for single rights, and the way of a request
    from the names of one task to those of another.
  \<^item> \<open>Notify_Laws\<close>: the notifications of an operation are all sent, without waiting.
  \<^item> \<open>Death_Laws\<close>: \<^verbatim>\<open>ipc_port_destroy\<close> with the messages that announce the death of the port.
  \<open>Example_Space\<close> and \<open>Example_Rights\<close> have the concrete states at which the laws are applied.

  \<^bold>\<open>Interfaces.\<close>  The locale \<open>name_tree\<close> is what \<^verbatim>\<open>ipc_entry.c\<close> relies on of its tree, interpreted by the splay
  tree; \<open>reverse_hash\<close> is met by the local and by the global hash table; \<open>request_table\<close> by the dead-name
  requests of a port; \<open>entry_sizes\<close> by the array of sizes that \<^verbatim>\<open>ipc_table_init\<close> makes; \<open>ring_queue\<close> by the queues
  of messages and by those of threads.

  \<^bold>\<open>Limits.\<close>  The laws of rights are for names of the new interface: entries marked \<^verbatim>\<open>IE_BITS_COMPAT\<close> are
  in the definitions, and not in these laws.  The law of \<^verbatim>\<open>ipc_port_destroy\<close> is for a port
  without a backup port and without requests of the old interface.  No law speaks of \<^verbatim>\<open>ipc_space_destroy\<close>, of renaming and of
  the compatibility operations, which are modelled.  A notification is an event until the operation that asks for it has ended;
  the code sends it at once where it holds no lock.  The steps of \<open>msg_step\<close> are those of \<^verbatim>\<open>ipc_mqueue.c\<close>,
  \<^verbatim>\<open>ipc_pset.c\<close> and of setting the queue limit; ports do not die in them.  The equivalence of the cases of
  \<^verbatim>\<open>ipc_kmsg_copyin_header\<close> and \<^verbatim>\<open>ipc_kmsg_copyout_header\<close> is for a header whose ports do not die meanwhile; the branches for
  that are modelled.

  \<^bold>\<open>Not modelled.\<close>  \<^verbatim>\<open>mach_msg.c\<close> and the copying of message bodies in \<^verbatim>\<open>ipc_kmsg.c\<close> interleave the operations above with
  thread switches and copies of user memory;
  \<^verbatim>\<open>mach_debug.c\<close>, \<^verbatim>\<open>ipc_init.c\<close> and
  \<^verbatim>\<open>ipc_hash_info\<close> report or set up.  The array \<^verbatim>\<open>trailer_size\<close> is declared and not defined in the sources, and
  is a parameter, as is \<^verbatim>\<open>ipc_kobject_server\<close>, whose routines the interface generator makes (\<open>server\<close> of
  \<open>ipc_mqueue_send\<close>, with \<open>kspace\<close> for \<^verbatim>\<open>ipc_space_kernel\<close>).  The rest of the system (scheduling, virtual memory, BSD
  and the programs) is not part of the message kernel.
\<close>

end
